(* ===== verification/MT_Prelude.thy ===== *)
theory MT_Prelude
  imports Main "HOL-Library.Word" "HOL-Library.Multiset"
begin

text \<open>
  The prelude of the development: the C library functions the proxy calls on bytes, strings
  and integers (character classes, \<open>strtoll\<close>, \<open>atoi\<close>, \<open>strtok_r\<close>, \<open>strstr\<close>, \<open>printf\<close> of an
  integer), the two machine widths the code uses for counters and identifiers, and the lemmas on
  lists that several components share.

  A C string is the \<^typ>\<open>string\<close> of the bytes before its NUL, a binary buffer is a list of
  \<^typ>\<open>8 word\<close>.  Integers of type \<open>int\<close> and \<open>long long\<close> are mathematical integers; where the
  code adds to them, the result is brought back to 32 or 64 bits by \<open>i32\<close> and \<open>i64\<close>.
\<close>

unbundle bit_operations_syntax

named_theorems ctype_simps \<open>definitions of the character classes\<close>
named_theorems width_simps \<open>definitions of the machine widths\<close>

type_synonym byte = "8 word"
type_synonym u32 = "32 word"

section \<open>Machine widths\<close>

definition i32 :: "int \<Rightarrow> int" where
  "i32 x = (x + 2147483648) mod 4294967296 - 2147483648"

definition i64 :: "int \<Rightarrow> int" where
  "i64 x = (x + 9223372036854775808) mod 18446744073709551616 - 9223372036854775808"

definition fits_i32 :: "int \<Rightarrow> bool" where
  "fits_i32 x \<longleftrightarrow> -2147483648 \<le> x \<and> x \<le> 2147483647"

definition fits_i64 :: "int \<Rightarrow> bool" where
  "fits_i64 x \<longleftrightarrow> -9223372036854775808 \<le> x \<and> x \<le> 9223372036854775807"

declare i32_def [width_simps] i64_def [width_simps]
  fits_i32_def [width_simps] fits_i64_def [width_simps]

lemma i32_id [simp]: "fits_i32 x \<Longrightarrow> i32 x = x"
  by (simp add: width_simps)

lemma i32_small [simp]: "i32 0 = 0" "i32 1 = 1" "i32 (- 1) = - 1"
  by (simp_all add: i32_def)

lemma i64_id [simp]: "fits_i64 x \<Longrightarrow> i64 x = x"
  by (simp add: width_simps)

lemma fits_i32_i32 [simp]: "fits_i32 (i32 x)"
proof -
  have "0 \<le> (x + 2147483648) mod 4294967296" "(x + 2147483648) mod 4294967296 < 4294967296"
    by simp_all
  then show ?thesis unfolding width_simps by linarith
qed

lemma fits_i64_i64 [simp]: "fits_i64 (i64 x)"
proof -
  have "0 \<le> (x + 9223372036854775808) mod 18446744073709551616"
    "(x + 9223372036854775808) mod 18446744073709551616 < 18446744073709551616"
    by simp_all
  then show ?thesis unfolding width_simps by linarith
qed

lemma i64_add_i64: "i64 (i64 x + y) = i64 (x + y)"
proof -
  have "((x + 9223372036854775808) mod 18446744073709551616 + y) mod 18446744073709551616
      = (x + 9223372036854775808 + y) mod 18446744073709551616"
    by (rule mod_add_left_eq)
  then show ?thesis
    unfolding i64_def by (simp add: algebra_simps)
qed

section \<open>Character classes of the C locale\<close>

definition c_isdigit :: "char \<Rightarrow> bool" where
  "c_isdigit c \<longleftrightarrow> 48 \<le> (of_char c :: nat) \<and> (of_char c :: nat) \<le> 57"

definition c_isupper :: "char \<Rightarrow> bool" where
  "c_isupper c \<longleftrightarrow> 65 \<le> (of_char c :: nat) \<and> (of_char c :: nat) \<le> 90"

definition c_islower :: "char \<Rightarrow> bool" where
  "c_islower c \<longleftrightarrow> 97 \<le> (of_char c :: nat) \<and> (of_char c :: nat) \<le> 122"

definition c_isalnum :: "char \<Rightarrow> bool" where
  "c_isalnum c \<longleftrightarrow> c_isdigit c \<or> c_isupper c \<or> c_islower c"

definition c_isxdigit :: "char \<Rightarrow> bool" where
  "c_isxdigit c \<longleftrightarrow> c_isdigit c
     \<or> 65 \<le> (of_char c :: nat) \<and> (of_char c :: nat) \<le> 70
     \<or> 97 \<le> (of_char c :: nat) \<and> (of_char c :: nat) \<le> 102"

definition c_isspace :: "char \<Rightarrow> bool" where
  "c_isspace c \<longleftrightarrow> (of_char c :: nat) = 32 \<or> 9 \<le> (of_char c :: nat) \<and> (of_char c :: nat) \<le> 13"

definition c_tolower :: "char \<Rightarrow> char" where
  "c_tolower c = (if c_isupper c then char_of ((of_char c :: nat) + 32) else c)"

declare c_isdigit_def [ctype_simps] c_isupper_def [ctype_simps] c_islower_def [ctype_simps]
  c_isalnum_def [ctype_simps] c_isxdigit_def [ctype_simps] c_isspace_def [ctype_simps]

abbreviation (input) "NUL \<equiv> CHR 0x00"
abbreviation (input) "TAB \<equiv> CHR 0x09"
abbreviation (input) "LF \<equiv> CHR 0x0A"
abbreviation (input) "CR \<equiv> CHR 0x0D"
abbreviation (input) "QUOTE \<equiv> CHR 0x22"
abbreviation (input) "BACKSLASH \<equiv> CHR 0x5C"

text \<open>The C string that a buffer holds: what precedes the first NUL.\<close>

definition c_str :: "string \<Rightarrow> string" where
  "c_str s = takeWhile (\<lambda>c. c \<noteq> NUL) s"

lemma c_str_id [simp]: "NUL \<notin> set s \<Longrightarrow> c_str s = s"
  by (auto simp: c_str_def takeWhile_eq_all_conv)

text \<open>\<open>strcasecmp\<close>, \<open>strncmp\<close> and \<open>strncasecmp\<close> as equality tests.\<close>

definition strcaseeq :: "string \<Rightarrow> string \<Rightarrow> bool" where
  "strcaseeq a b \<longleftrightarrow> map c_tolower a = map c_tolower b"

definition strneq :: "string \<Rightarrow> string \<Rightarrow> nat \<Rightarrow> bool" where
  "strneq a b n \<longleftrightarrow> take n a = take n b"

definition strncaseeq :: "string \<Rightarrow> string \<Rightarrow> nat \<Rightarrow> bool" where
  "strncaseeq a b n \<longleftrightarrow> map c_tolower (take n a) = map c_tolower (take n b)"

text \<open>\<open>snprintf\<close> into a buffer of \<open>n\<close> bytes keeps the first \<open>n - 1\<close>.\<close>

definition snprintf_trunc :: "nat \<Rightarrow> string \<Rightarrow> string" where
  "snprintf_trunc n s = take (n - 1) s"

section \<open>Printing and reading decimal integers\<close>

definition digit_char :: "nat \<Rightarrow> char" where
  "digit_char d = char_of (48 + d)"

definition char_digit :: "char \<Rightarrow> int" where
  "char_digit c = int (of_char c) - 48"

fun show_nat :: "nat \<Rightarrow> string" where
  "show_nat n = (if n < 10 then [digit_char n] else show_nat (n div 10) @ [digit_char (n mod 10)])"

declare show_nat.simps [simp del]

text \<open>\<open>printf\<close> of \<open>%d\<close> and \<open>%lld\<close>.\<close>

definition show_int :: "int \<Rightarrow> string" where
  "show_int x = (if x < 0 then CHR ''-'' # show_nat (nat (- x)) else show_nat (nat x))"

fun read_digits :: "int \<Rightarrow> string \<Rightarrow> int \<times> string" where
  "read_digits a [] = (a, [])"
| "read_digits a (c # cs) = (if c_isdigit c then read_digits (10 * a + char_digit c) cs else (a, c # cs))"

definition clamp_i64 :: "int \<Rightarrow> int" where
  "clamp_i64 x = (if x < -9223372036854775808 then -9223372036854775808
     else if 9223372036854775807 < x then 9223372036854775807 else x)"

text \<open>
  \<open>strtoll\<close> in base 10 on a 64-bit platform: the value, saturated; whether \<open>errno\<close> was set;
  the rest of the string after the number, or the whole string when there is no digit.
\<close>

definition strtoll :: "string \<Rightarrow> int \<times> bool \<times> string" where
  "strtoll s =
     (let t = dropWhile c_isspace s;
          neg = (t \<noteq> [] \<and> hd t = CHR ''-'');
          u = (if t \<noteq> [] \<and> (hd t = CHR ''-'' \<or> hd t = CHR ''+'') then tl t else t)
      in if u \<noteq> [] \<and> c_isdigit (hd u)
         then (let (v, r) = read_digits 0 u; x = (if neg then - v else v)
               in (clamp_i64 x, clamp_i64 x \<noteq> x, r))
         else (0, False, s))"

definition atoll :: "string \<Rightarrow> int" where
  "atoll s = fst (strtoll s)"

text \<open>\<open>atoi\<close> is \<open>strtol\<close>, 64 bits wide, cut down to an \<open>int\<close>.\<close>

definition atoi :: "string \<Rightarrow> int" where
  "atoi s = i32 (fst (strtoll s))"

lemma of_char_digit_char: "d < 10 \<Longrightarrow> of_char (digit_char d) = (48 + d :: nat)"
  by (simp add: digit_char_def)

lemma c_isdigit_digit_char [simp]: "d < 10 \<Longrightarrow> c_isdigit (digit_char d)"
  by (simp add: ctype_simps of_char_digit_char)

lemma char_digit_digit_char [simp]: "d < 10 \<Longrightarrow> char_digit (digit_char d) = int d"
  by (simp add: char_digit_def of_char_digit_char)

lemma show_nat_nonempty [simp]: "show_nat n \<noteq> []"
  by (subst show_nat.simps) simp

lemma show_nat_digits: "c \<in> set (show_nat n) \<Longrightarrow> c_isdigit c"
proof (induction n rule: show_nat.induct)
  case (1 n)
  then show ?case
    by (subst (asm) (2) show_nat.simps) (auto split: if_splits)
qed

lemma read_digits_append:
  "(\<forall>c \<in> set ds. c_isdigit c) \<Longrightarrow> read_digits a (ds @ rest) = read_digits (fst (read_digits a ds)) rest"
  by (induction ds arbitrary: a) auto

lemma read_digits_snoc:
  "(\<forall>c \<in> set ds. c_isdigit c) \<Longrightarrow> c_isdigit c \<Longrightarrow>
   fst (read_digits a (ds @ [c])) = 10 * fst (read_digits a ds) + char_digit c"
  by (simp add: read_digits_append)

lemma read_digits_show_nat: "fst (read_digits 0 (show_nat n)) = int n"
proof (induction n rule: show_nat.induct)
  case (1 n)
  show ?case
  proof (cases "n < 10")
    case True
    then show ?thesis by (subst show_nat.simps) simp
  next
    case False
    with 1 have IH: "fst (read_digits 0 (show_nat (n div 10))) = int (n div 10)" by simp
    have n: "10 * int (n div 10) + int (n mod 10) = int n"
      by (metis mult_div_mod_eq of_nat_add of_nat_mult of_nat_numeral)
    have "fst (read_digits 0 (show_nat (n div 10) @ [digit_char (n mod 10)])) = int n"
      by (subst read_digits_snoc) (simp_all add: IH n show_nat_digits)
    with False show ?thesis by (subst show_nat.simps) simp
  qed
qed

definition no_digit_first :: "string \<Rightarrow> bool" where
  "no_digit_first r \<longleftrightarrow> (r = [] \<or> \<not> c_isdigit (hd r))"

lemma read_digits_stop: "no_digit_first r \<Longrightarrow> read_digits a r = (a, r)"
  by (cases r) (auto simp: no_digit_first_def)

lemma read_digits_show_nat_rest:
  "no_digit_first r \<Longrightarrow> read_digits 0 (show_nat n @ r) = (int n, r)"
  by (subst read_digits_append) (auto simp: read_digits_show_nat read_digits_stop dest: show_nat_digits)

lemma c_isdigit_not_space: "c_isdigit c \<Longrightarrow> \<not> c_isspace c"
  by (auto simp: ctype_simps)

lemma c_isdigit_no_sign: "c_isdigit c \<Longrightarrow> c \<noteq> CHR ''-'' \<and> c \<noteq> CHR ''+''"
  by (auto simp: ctype_simps)

lemma show_nat_Cons: "\<exists>c cs. show_nat n = c # cs \<and> c_isdigit c"
  by (metis list.exhaust list.set_intros(1) show_nat_digits show_nat_nonempty)

lemma clamp_i64_id [simp]: "fits_i64 x \<Longrightarrow> clamp_i64 x = x"
  by (simp add: clamp_i64_def fits_i64_def)

lemma strtoll_show_int:
  assumes "fits_i64 x" and "no_digit_first r"
  shows "strtoll (show_int x @ r) = (x, False, r)"
proof -
  obtain c cs where c: "show_nat (nat \<bar>x\<bar>) = c # cs" and d: "c_isdigit c"
    using show_nat_Cons by blast
  have rd: "read_digits 0 ((c # cs) @ r) = (\<bar>x\<bar>, r)"
    using read_digits_show_nat_rest [OF assms(2), of "nat \<bar>x\<bar>"] by (simp add: c)
  have ns: "\<not> c_isspace c" "c \<noteq> CHR ''-''" "c \<noteq> CHR ''+''" "\<not> c_isspace (CHR ''-'')"
    using d c_isdigit_not_space c_isdigit_no_sign by (auto simp: ctype_simps)
  show ?thesis
  proof (cases "x < 0")
    case True
    then have "show_int x = CHR ''-'' # c # cs" using c by (simp add: show_int_def)
    with True rd ns d assms(1) show ?thesis
      by (simp add: strtoll_def Let_def del: read_digits.simps)
  next
    case False
    then have "show_int x = c # cs" using c by (simp add: show_int_def)
    with False rd ns d assms(1) show ?thesis
      by (simp add: strtoll_def Let_def del: read_digits.simps)
  qed
qed

lemma atoll_show_int [simp]: "fits_i64 x \<Longrightarrow> atoll (show_int x) = x"
  using strtoll_show_int [of x "[]"] by (simp add: atoll_def no_digit_first_def)

lemma fits_i32_imp_i64: "fits_i32 x \<Longrightarrow> fits_i64 x"
  by (simp add: width_simps)

lemma atoi_show_int [simp]: "fits_i32 x \<Longrightarrow> atoi (show_int x) = x"
  using strtoll_show_int [of x "[]"]
  by (simp add: atoi_def no_digit_first_def fits_i32_imp_i64)

lemma show_int_nonempty [simp]: "show_int x \<noteq> []"
  by (simp add: show_int_def)

lemma show_int_chars: "c \<in> set (show_int x) \<Longrightarrow> c = CHR ''-'' \<or> c_isdigit c"
  by (auto simp: show_int_def dest: show_nat_digits split: if_splits)

section \<open>Searching and splitting strings\<close>

text \<open>\<open>strstr\<close>: the index of the first occurrence.\<close>

fun find_sub :: "string \<Rightarrow> string \<Rightarrow> nat option" where
  "find_sub pat [] = (if pat = [] then Some 0 else None)"
| "find_sub pat (c # cs) =
     (if take (length pat) (c # cs) = pat then Some 0 else map_option Suc (find_sub pat cs))"

text \<open>\<open>strcasestr\<close>.\<close>

definition find_sub_nocase :: "string \<Rightarrow> string \<Rightarrow> nat option" where
  "find_sub_nocase pat s = find_sub (map c_tolower pat) (map c_tolower s)"

text \<open>\<open>strchr\<close>: what precedes the character, and what follows it when it is there.\<close>

definition split_char :: "char \<Rightarrow> string \<Rightarrow> string \<times> string option" where
  "split_char c s =
     (takeWhile (\<lambda>x. x \<noteq> c) s,
      case dropWhile (\<lambda>x. x \<noteq> c) s of [] \<Rightarrow> None | _ # r \<Rightarrow> Some r)"

lemma split_char_absent: "c \<notin> set s \<Longrightarrow> split_char c s = (s, None)"
proof -
  assume "c \<notin> set s"
  then show ?thesis by (induction s) (auto simp: split_char_def)
qed

lemma split_char_append: "c \<notin> set s \<Longrightarrow> split_char c (s @ c # r) = (s, Some r)"
  by (induction s) (auto simp: split_char_def)

text \<open>One call of \<open>strtok_r\<close>: the next token and the rest of the buffer.\<close>

definition strtok :: "string \<Rightarrow> string \<Rightarrow> (string \<times> string) option" where
  "strtok delims s =
     (let t = dropWhile (\<lambda>c. c \<in> set delims) s
      in if t = [] then None
         else Some (takeWhile (\<lambda>c. c \<notin> set delims) t,
                    tl (dropWhile (\<lambda>c. c \<notin> set delims) t)))"

lemma strtok_shrinks: "strtok d s = Some (t, r) \<Longrightarrow> length r < length s"
proof -
  assume a: "strtok d s = Some (t, r)"
  let ?t = "dropWhile (\<lambda>c. c \<in> set d) s"
  from a have ne: "?t \<noteq> []" and r: "r = tl (dropWhile (\<lambda>c. c \<notin> set d) ?t)"
    by (auto simp: strtok_def Let_def split: if_splits)
  have "length ?t \<le> length s" by (rule length_dropWhile_le)
  moreover have "length (dropWhile (\<lambda>c. c \<notin> set d) ?t) \<le> length ?t" by (rule length_dropWhile_le)
  moreover have "length (tl (dropWhile (\<lambda>c. c \<notin> set d) ?t)) < length ?t"
  proof (cases "dropWhile (\<lambda>c. c \<notin> set d) ?t")
    case Nil
    with ne show ?thesis by (simp only: list.sel list.size length_greater_0_conv) blast
  next
    case (Cons y ys)
    with calculation(2) show ?thesis by (simp only: list.sel list.size)
  qed
  ultimately show ?thesis unfolding r by linarith
qed

lemma strtok_word:
  assumes "w \<noteq> []" "\<forall>c \<in> set w. c \<notin> set d" "x \<in> set d"
  shows "strtok d (w @ x # r) = Some (w, r)"
proof -
  have "dropWhile (\<lambda>c. c \<in> set d) (w @ x # r) = w @ x # r"
    using assms(1,2) by (cases w) auto
  moreover have "takeWhile (\<lambda>c. c \<notin> set d) (w @ x # r) = w"
    using assms(2,3) by (induction w) auto
  moreover have "dropWhile (\<lambda>c. c \<notin> set d) (w @ x # r) = x # r"
    using assms(2,3) by (induction w) auto
  ultimately show ?thesis by (simp add: strtok_def Let_def)
qed

section \<open>Lists as arrays\<close>

text \<open>The search loops of the code: the first index whose element passes a test.\<close>

fun find_index :: "('a \<Rightarrow> bool) \<Rightarrow> 'a list \<Rightarrow> nat option" where
  "find_index p [] = None"
| "find_index p (x # xs) = (if p x then Some 0 else map_option Suc (find_index p xs))"

lemma find_index_Some:
  "find_index p xs = Some i \<Longrightarrow> i < length xs \<and> p (xs ! i) \<and> (\<forall>j < i. \<not> p (xs ! j))"
proof (induction xs arbitrary: i)
  case Nil
  then show ?case by simp
next
  case (Cons x xs)
  show ?case
  proof (cases "p x")
    case True
    with Cons.prems show ?thesis by simp
  next
    case False
    with Cons.prems obtain k where "find_index p xs = Some k" "i = Suc k" by auto
    with Cons.IH [of k] False show ?thesis by (auto simp: nth_Cons split: nat.splits)
  qed
qed

lemma find_index_None: "find_index p xs = None \<longleftrightarrow> (\<forall>x \<in> set xs. \<not> p x)"
  by (induction xs) auto

lemma find_index_lt: "find_index p xs = Some i \<Longrightarrow> i < length xs"
  by (simp add: find_index_Some)

lemma find_index_nth: "find_index p xs = Some i \<Longrightarrow> p (xs ! i)"
  by (simp add: find_index_Some)

lemma map_update_same: "i < length xs \<Longrightarrow> f y = f (xs ! i) \<Longrightarrow> map f (xs[i := y]) = map f xs"
  by (metis list_update_id map_update)

text \<open>Overwriting slot \<open>i\<close> with the last element and dropping the last slot removes element \<open>i\<close>.\<close>

definition remove_swap :: "nat \<Rightarrow> 'a list \<Rightarrow> 'a list" where
  "remove_swap i xs = butlast (xs[i := last xs])"

lemma mset_remove_swap:
  assumes "i < length xs"
  shows "mset (remove_swap i xs) = mset xs - {#xs ! i#}"
proof -
  from assms have ne: "xs \<noteq> []" by auto
  let ?ys = "xs[i := last xs]"
  have lst: "last ?ys = last xs"
    using assms ne by (cases "i = length xs - 1") (auto simp: last_conv_nth)
  have "mset ?ys = add_mset (last xs) (mset xs - {#xs ! i#})"
    using assms by (simp add: mset_update)
  moreover have "?ys = butlast ?ys @ [last xs]"
    using ne lst append_butlast_last_id [of ?ys] by simp
  then have "mset ?ys = add_mset (last xs) (mset (butlast ?ys))"
    by (metis add_mset_add_single mset.simps mset_append)
  ultimately show ?thesis by (simp add: remove_swap_def)
qed

lemma length_remove_swap [simp]: "length (remove_swap i xs) = length xs - 1"
  by (simp add: remove_swap_def)

lemma map_remove_swap: "xs \<noteq> [] \<Longrightarrow> map f (remove_swap i xs) = remove_swap i (map f xs)"
  by (simp add: remove_swap_def map_butlast map_update last_map)

lemma set_remove_swap_subset: "xs \<noteq> [] \<Longrightarrow> set (remove_swap i xs) \<subseteq> set xs"
  unfolding remove_swap_def
  by (meson in_set_butlastD insert_subset last_in_set set_update_subset_insert subset_iff subset_insertI2
      subset_refl set_update_subsetI)

lemma mset_remove_swap_remove1: "i < length xs \<Longrightarrow> mset (remove_swap i xs) = mset (remove1 (xs ! i) xs)"
  by (simp add: mset_remove_swap)

lemma distinct_remove_swap: "distinct xs \<Longrightarrow> i < length xs \<Longrightarrow> distinct (remove_swap i xs)"
  using mset_eq_imp_distinct_iff [OF mset_remove_swap_remove1] by (metis distinct_remove1)

lemma set_remove_swap:
  "distinct xs \<Longrightarrow> i < length xs \<Longrightarrow> set (remove_swap i xs) = set xs - {xs ! i}"
  using mset_eq_setD [OF mset_remove_swap_remove1] by (metis set_remove1_eq)

end
