(* ===== verification/Secret_Codec.thy ===== *)
theory Secret_Codec
  imports MT_Prelude
begin

text \<open>
  The text formats of the secret store in \<open>net/net-tcp-rpc-ext-server.c\<close>: a 16-byte secret as 32
  hexadecimal digits and back, the link forms \<open>dd...\<close> and \<open>ee...\<close> of a secret, the filters for
  labels and addresses, and the tab-separated lines of the state file.  The lemmas show that the
  hexadecimal form round-trips, which strings are secrets, and that a filtered label or address
  holds no character that the state file, the line protocol or the JSON answers give a meaning to.
\<close>

section \<open>Hexadecimal secrets\<close>

definition EXT_SECRET_LABEL_MAX :: nat where
  "EXT_SECRET_LABEL_MAX = 96"

definition EXT_SECRET_ADMIN_TOKEN_MAX :: nat where
  "EXT_SECRET_ADMIN_TOKEN_MAX = 128"

text \<open>The array \<open>xd\<close> of \<open>ext_secret16_to_hex\<close>.\<close>

definition hex_digit :: "nat \<Rightarrow> char" where
  "hex_digit d = ''0123456789abcdef'' ! d"

definition ext_secret16_to_hex :: "byte list \<Rightarrow> string" where
  "ext_secret16_to_hex secret =
     concat (map (\<lambda>b. [hex_digit (unat (drop_bit 4 b)), hex_digit (unat (b AND 15))]) secret)"

definition hex_value :: "char \<Rightarrow> nat" where
  "hex_value c =
     (if (of_char c :: nat) \<le> 57 then of_char c - 48 else of_char (c_tolower c) - 97 + 10)"

text \<open>
  \<open>ext_hex16_to_secret\<close> reads exactly 32 characters; its callers pass at least that many.  \<open>None\<close>
  is the result \<open>-1\<close>.
\<close>

fun hex_pairs :: "string \<Rightarrow> byte list" where
  "hex_pairs (hi # lo # cs) =
     (push_bit 4 (of_nat (hex_value hi)) OR of_nat (hex_value lo)) # hex_pairs cs"
| "hex_pairs _ = []"

definition ext_hex16_to_secret :: "string \<Rightarrow> byte list option" where
  "ext_hex16_to_secret hex =
     (if \<forall>c \<in> set (take 32 hex). c_isxdigit c then Some (hex_pairs (take 32 hex)) else None)"

text \<open>The three forms of \<open>ext_secret16_from_hex\<close>: plain, \<open>dd\<close> and \<open>ee\<close>.\<close>

definition prefixed_secret :: "string \<Rightarrow> byte list option" where
  "prefixed_secret hex =
     (case ext_hex16_to_secret (drop 2 hex) of
        None \<Rightarrow> None
      | Some out \<Rightarrow>
          if odd (length hex - 34) then None
          else if \<exists>c \<in> set (drop 34 hex). \<not> c_isxdigit c then None
          else Some out)"

definition ext_secret16_from_hex :: "string \<Rightarrow> byte list option" where
  "ext_secret16_from_hex hex =
     (let n = length hex in
      if n = 32 then ext_hex16_to_secret hex
      else if n \<ge> 34 \<and> strncaseeq hex ''dd'' 2 then prefixed_secret hex
      else if n \<ge> 34 \<and> strncaseeq hex ''ee'' 2 then prefixed_secret hex
      else None)"

section \<open>Labels, addresses, lines\<close>

definition label_char :: "char \<Rightarrow> bool" where
  "label_char c \<longleftrightarrow> c_isalnum c \<or> c = CHR ''.'' \<or> c = CHR ''_'' \<or> c = CHR ''-'' \<or> c = CHR '':''"

definition ip_char :: "char \<Rightarrow> bool" where
  "ip_char c \<longleftrightarrow> c_isalnum c \<or> c = CHR ''.'' \<or> c = CHR '':'' \<or> c = CHR ''%''"

text \<open>
  The loop of \<open>ext_sanitize_label\<close>: \<open>room\<close> is the number of characters still accepted, so the loop
  stops as the code's does when the output is full or the input ends.
\<close>

fun sanitize_label_loop :: "nat \<Rightarrow> string \<Rightarrow> string" where
  "sanitize_label_loop 0 _ = []"
| "sanitize_label_loop (Suc room) [] = []"
| "sanitize_label_loop (Suc room) (c # cs) =
     (if label_char c then c # sanitize_label_loop room cs
      else if c = CHR '' '' \<or> c = TAB then CHR ''_'' # sanitize_label_loop room cs
      else sanitize_label_loop (Suc room) cs)"

definition ext_sanitize_label :: "string \<Rightarrow> string" where
  "ext_sanitize_label s = sanitize_label_loop (EXT_SECRET_LABEL_MAX - 1) s"

fun sanitize_ip_loop :: "nat \<Rightarrow> string \<Rightarrow> string" where
  "sanitize_ip_loop 0 _ = []"
| "sanitize_ip_loop (Suc room) [] = []"
| "sanitize_ip_loop (Suc room) (c # cs) =
     (if ip_char c then c # sanitize_ip_loop room cs else sanitize_ip_loop (Suc room) cs)"

definition ext_sanitize_ip :: "string \<Rightarrow> string" where
  "ext_sanitize_ip s = sanitize_ip_loop 63 s"

text \<open>
  \<open>ext_split_tsv_line\<close>: the line up to the first CR or LF, cut at its tabs into at most \<open>max_cols\<close>
  columns; what follows the last column is dropped.
\<close>

fun tsv_columns :: "nat \<Rightarrow> string \<Rightarrow> string list" where
  "tsv_columns 0 _ = []"
| "tsv_columns (Suc n) p =
     (case split_char TAB p of (col, None) \<Rightarrow> [col] | (col, Some rest) \<Rightarrow> col # tsv_columns n rest)"

definition ext_split_tsv_line :: "string \<Rightarrow> nat \<Rightarrow> string list" where
  "ext_split_tsv_line line max_cols =
     tsv_columns max_cols (takeWhile (\<lambda>c. c \<noteq> CR \<and> c \<noteq> LF) line)"

definition ext_is_int_str :: "string \<Rightarrow> bool" where
  "ext_is_int_str s =
     (let t = (if s \<noteq> [] \<and> (hd s = CHR ''-'' \<or> hd s = CHR ''+'') then tl s else s)
      in t \<noteq> [] \<and> (\<forall>c \<in> set t. c_isdigit c))"

text \<open>\<open>ext_parse_bool\<close>: \<open>None\<close> is the null pointer.\<close>

definition ext_parse_bool :: "string option \<Rightarrow> bool \<Rightarrow> bool" where
  "ext_parse_bool s def =
     (case s of
        None \<Rightarrow> def
      | Some t \<Rightarrow>
          if t = [] then def
          else if t = ''1'' \<or> strcaseeq t ''true'' \<or> strcaseeq t ''yes'' then True
          else if t = ''0'' \<or> strcaseeq t ''false'' \<or> strcaseeq t ''no'' then False
          else def)"

section \<open>Facts about the formats\<close>

lemma hex_digit_cases:
  "d < 16 \<Longrightarrow> P 0 \<Longrightarrow> P 1 \<Longrightarrow> P 2 \<Longrightarrow> P 3 \<Longrightarrow> P 4 \<Longrightarrow> P 5 \<Longrightarrow> P 6 \<Longrightarrow> P 7 \<Longrightarrow> P 8 \<Longrightarrow> P 9 \<Longrightarrow> P 10
   \<Longrightarrow> P 11 \<Longrightarrow> P 12 \<Longrightarrow> P 13 \<Longrightarrow> P 14 \<Longrightarrow> P 15 \<Longrightarrow> P (d :: nat)"
proof -
  assume d: "d < 16" and P: "P 0" "P 1" "P 2" "P 3" "P 4" "P 5" "P 6" "P 7" "P 8" "P 9" "P 10"
    "P 11" "P 12" "P 13" "P 14" "P 15"
  from d have "d \<in> {0, 1, 2, 3, 4, 5, 6, 7, 8, 9, 10, 11, 12, 13, 14, 15}" by simp arith
  with P show "P d" by blast
qed

lemma hex_value_hex_digit [simp]: "d < 16 \<Longrightarrow> hex_value (hex_digit d) = d"
  by (rule hex_digit_cases [of d])
     (simp_all add: hex_digit_def hex_value_def c_tolower_def ctype_simps)

lemma c_isxdigit_hex_digit [simp]: "d < 16 \<Longrightarrow> c_isxdigit (hex_digit d)"
  by (rule hex_digit_cases [of d]) (simp_all add: hex_digit_def ctype_simps)

lemma nibble_bounds: "unat (drop_bit 4 (b :: byte)) < 16" "unat (b AND 15) < 16"
proof -
  have "unat b < 256" using unsigned_less [of b, where ?'a = nat] by simp
  moreover have "unat (drop_bit 4 b) = unat b div 16"
    using unat_drop_bit_eq [of 4 b] by (simp only: drop_bit_eq_div) simp
  ultimately show "unat (drop_bit 4 b) < 16" by linarith
  have "b AND 15 = take_bit 4 b" by (simp add: take_bit_eq_mask mask_eq_exp_minus_1)
  then have "unat (b AND 15) = take_bit 4 (unat b)" by (simp only: unsigned_take_bit_eq)
  then show "unat (b AND 15) < 16" by (simp only: take_bit_eq_mod) simp
qed

lemma nibbles_join: "push_bit 4 (drop_bit 4 b) OR (b AND 15) = (b :: byte)"
proof -
  have "b AND 15 = take_bit 4 b" by (simp add: take_bit_eq_mask mask_eq_exp_minus_1)
  then show ?thesis by (simp only:) (rule bit_word_eqI, auto simp: bit_simps)
qed

lemma length_to_hex [simp]: "length (ext_secret16_to_hex s) = 2 * length s"
  by (induction s) (simp_all add: ext_secret16_to_hex_def)

lemma to_hex_xdigits: "c \<in> set (ext_secret16_to_hex s) \<Longrightarrow> c_isxdigit c"
  by (induction s) (auto simp: ext_secret16_to_hex_def nibble_bounds)

lemma hex_pairs_to_hex [simp]: "hex_pairs (ext_secret16_to_hex s) = s"
  by (induction s) (simp_all add: ext_secret16_to_hex_def nibble_bounds nibbles_join)

lemma length_hex_pairs: "length (hex_pairs s) = length s div 2"
  by (induction s rule: hex_pairs.induct) auto

lemma hex16_roundtrip: "length s = 16 \<Longrightarrow> ext_hex16_to_secret (ext_secret16_to_hex s) = Some s"
  by (auto simp: ext_hex16_to_secret_def to_hex_xdigits)

lemma secret_roundtrip: "length s = 16 \<Longrightarrow> ext_secret16_from_hex (ext_secret16_to_hex s) = Some s"
  by (simp add: ext_secret16_from_hex_def Let_def hex16_roundtrip)

lemma hex16_length: "ext_hex16_to_secret hex = Some s \<Longrightarrow> 32 \<le> length hex \<Longrightarrow> length s = 16"
  by (auto simp: ext_hex16_to_secret_def length_hex_pairs split: if_splits)

lemma from_hex_length: "ext_secret16_from_hex hex = Some s \<Longrightarrow> length s = 16"
  by (auto simp: ext_secret16_from_hex_def prefixed_secret_def Let_def
      dest!: hex16_length split: if_splits option.splits)

lemma xdigit_not_sep: "c_isxdigit c \<Longrightarrow> c \<notin> {TAB, LF, CR, CHR ''#'', CHR ''v'', QUOTE, BACKSLASH, NUL}"
  by (auto simp: ctype_simps)

lemma label_char_not_sep: "label_char c \<Longrightarrow> c \<notin> {TAB, LF, CR, CHR '' '', QUOTE, BACKSLASH, NUL}"
  by (auto simp: label_char_def ctype_simps)

lemma ip_char_not_sep: "ip_char c \<Longrightarrow> c \<notin> {TAB, LF, CR, CHR '' '', QUOTE, BACKSLASH, NUL}"
  by (auto simp: ip_char_def ctype_simps)

lemma label_char_underscore [simp]: "label_char (CHR ''_'')"
  by (simp add: label_char_def)

lemma sanitize_label_loop_char: "c \<in> set (sanitize_label_loop n s) \<Longrightarrow> label_char c"
  by (induction n s rule: sanitize_label_loop.induct)
     (auto simp: label_char_underscore split: if_splits)

lemma sanitize_label_loop_length: "length (sanitize_label_loop n s) \<le> n"
  by (induction n s rule: sanitize_label_loop.induct) auto

lemma sanitize_label_loop_id:
  "\<forall>c \<in> set s. label_char c \<Longrightarrow> length s \<le> n \<Longrightarrow> sanitize_label_loop n s = s"
  by (induction n s rule: sanitize_label_loop.induct) auto

lemma sanitize_ip_loop_char: "c \<in> set (sanitize_ip_loop n s) \<Longrightarrow> ip_char c"
  by (induction n s rule: sanitize_ip_loop.induct) (auto split: if_splits)

lemma sanitize_ip_loop_length: "length (sanitize_ip_loop n s) \<le> n"
  by (induction n s rule: sanitize_ip_loop.induct) auto

lemma sanitize_ip_loop_id:
  "\<forall>c \<in> set s. ip_char c \<Longrightarrow> length s \<le> n \<Longrightarrow> sanitize_ip_loop n s = s"
  by (induction n s rule: sanitize_ip_loop.induct) auto

text \<open>What the filters promise, as predicates the store's invariant uses.\<close>

definition label_ok :: "string \<Rightarrow> bool" where
  "label_ok s \<longleftrightarrow> length s < EXT_SECRET_LABEL_MAX \<and> (\<forall>c \<in> set s. label_char c)"

definition ip_ok :: "string \<Rightarrow> bool" where
  "ip_ok s \<longleftrightarrow> length s < 64 \<and> (\<forall>c \<in> set s. ip_char c)"

lemma label_ok_sanitize [simp]: "label_ok (ext_sanitize_label s)"
  using sanitize_label_loop_length [of "EXT_SECRET_LABEL_MAX - 1" s]
  by (auto simp: label_ok_def ext_sanitize_label_def EXT_SECRET_LABEL_MAX_def
      dest: sanitize_label_loop_char)

lemma ip_ok_sanitize [simp]: "ip_ok (ext_sanitize_ip s)"
  using sanitize_ip_loop_length [of 63 s]
  by (auto simp: ip_ok_def ext_sanitize_ip_def dest: sanitize_ip_loop_char)

lemma sanitize_label_ok [simp]: "label_ok s \<Longrightarrow> ext_sanitize_label s = s"
  by (auto simp: label_ok_def ext_sanitize_label_def EXT_SECRET_LABEL_MAX_def
      intro: sanitize_label_loop_id)

lemma sanitize_ip_ok [simp]: "ip_ok s \<Longrightarrow> ext_sanitize_ip s = s"
  by (auto simp: ip_ok_def ext_sanitize_ip_def intro: sanitize_ip_loop_id)

lemma label_ok_Nil [simp]: "label_ok []"
  by (simp add: label_ok_def EXT_SECRET_LABEL_MAX_def)

lemma ip_ok_Nil [simp]: "ip_ok []"
  by (simp add: ip_ok_def)

lemma is_int_str_show_int [simp]: "ext_is_int_str (show_int x)"
proof -
  obtain c cs where c: "show_nat (nat \<bar>x\<bar>) = c # cs" "c_isdigit c"
    using show_nat_Cons by blast
  then have "\<forall>d \<in> set (c # cs). c_isdigit d" by (metis show_nat_digits)
  with c show ?thesis
    by (cases "x < 0") (auto simp: ext_is_int_str_def show_int_def dest: c_isdigit_no_sign)
qed

text \<open>Joining columns with tabs, and cutting them again.\<close>

fun join_tabs :: "string list \<Rightarrow> string" where
  "join_tabs [] = []"
| "join_tabs [c] = c"
| "join_tabs (c # cs) = c @ TAB # join_tabs cs"

lemma tsv_columns_join:
  "cols \<noteq> [] \<Longrightarrow> length cols \<le> n \<Longrightarrow> \<forall>c \<in> set cols. TAB \<notin> set c \<Longrightarrow> tsv_columns n (join_tabs cols) = cols"
proof (induction cols arbitrary: n rule: join_tabs.induct)
  case 1
  then show ?case by simp
next
  case (2 c)
  then show ?case by (cases n) (auto simp: split_char_absent)
next
  case (3 c d cs)
  then show ?case by (cases n) (auto simp: split_char_append)
qed

lemma set_join_tabs: "set (join_tabs cols) \<subseteq> insert TAB (\<Union> (set ` set cols))"
  by (induction cols rule: join_tabs.induct) auto

lemma split_tsv_join:
  assumes "cols \<noteq> []" "length cols \<le> n" "\<forall>c \<in> set cols. set c \<inter> {TAB, LF, CR} = {}"
  shows "ext_split_tsv_line (join_tabs cols @ [LF]) n = cols"
proof -
  have "set (join_tabs cols) \<inter> {LF, CR} = {}"
    using assms(3) set_join_tabs [of cols] by fastforce
  then have "takeWhile (\<lambda>c. c \<noteq> CR \<and> c \<noteq> LF) (join_tabs cols @ [LF]) = join_tabs cols"
    by (induction "join_tabs cols") (auto simp: takeWhile_append)
  then show ?thesis
    unfolding ext_split_tsv_line_def using assms by (simp add: tsv_columns_join)
qed

section \<open>Properties\<close>

lemma hex_digit_hex_value: "c_isxdigit c \<Longrightarrow> hex_value c < 16 \<and> hex_digit (hex_value c) = c_tolower c"
proof -
  assume x: "c_isxdigit c"
  from x have "(of_char c :: nat) \<in> {48,49,50,51,52,53,54,55,56,57,65,66,67,68,69,70,97,98,99,100,101,102}"
    by (simp add: ctype_simps) arith
  then have "(of_char c :: nat) \<in> of_char ` set ''0123456789ABCDEFabcdef''" by simp
  then have "c \<in> set ''0123456789ABCDEFabcdef''" by (simp only: image_iff of_char_eq_iff) blast
  then show ?thesis
    by (simp only: list.set insert_iff empty_iff) (elim disjE; simp add: hex_value_def hex_digit_def c_tolower_def ctype_simps char_of_def bit_0)
qed

lemma tolower_de [simp]: "c_tolower (CHR ''d'') = CHR ''d''" "c_tolower (CHR ''e'') = CHR ''e''"
  by (simp_all add: c_tolower_def ctype_simps)

lemma nibble_word: "h < 16 \<Longrightarrow> l < 16 \<Longrightarrow>
    unat (drop_bit 4 (push_bit 4 (of_nat h) OR of_nat l :: byte)) = h
  \<and> unat ((push_bit 4 (of_nat h) OR of_nat l :: byte) AND 15) = l"
proof -
  assume "h < 16" "l < 16"
  then have "h \<in> {0..<16}" "l \<in> {0..<16}" by auto
  moreover have "\<forall>h \<in> set [0..<16]. \<forall>l \<in> set [0..<16]. unat (drop_bit 4 (push_bit 4 (of_nat h) OR of_nat l :: byte)) = h
     \<and> unat ((push_bit 4 (of_nat h) OR of_nat l :: byte) AND 15) = l" by code_simp
  ultimately show ?thesis by auto
qed

lemma to_hex_hex_pairs: "\<forall>c \<in> set s. c_isxdigit c \<Longrightarrow> even (length s) \<Longrightarrow> ext_secret16_to_hex (hex_pairs s) = map c_tolower s"
proof (induction s rule: hex_pairs.induct)
  case (1 hi lo cs)
  then show ?case
    using hex_digit_hex_value [of hi] hex_digit_hex_value [of lo] nibble_word [of "hex_value hi" "hex_value lo"]
    by (simp add: ext_secret16_to_hex_def)
qed (auto simp: ext_secret16_to_hex_def)

text \<open>
  The links that carry a secret: its 32 hexadecimal digits, the same after \<open>dd\<close>, and the same after
  \<open>ee\<close> and followed by the digits of a domain name, all stand for that secret.
\<close>

theorem secret_link_forms:
  assumes "length k = 16" "\<forall>c \<in> set d. c_isxdigit c" "even (length d)"
  shows "ext_secret16_from_hex (ext_secret16_to_hex k) = Some k
    \<and> ext_secret16_from_hex (''dd'' @ ext_secret16_to_hex k) = Some k
    \<and> ext_secret16_from_hex (''ee'' @ ext_secret16_to_hex k @ d) = Some k"
  using assms
  by (simp add: secret_roundtrip ext_secret16_from_hex_def Let_def strncaseeq_def
      prefixed_secret_def ext_hex16_to_secret_def to_hex_xdigits)

theorem secret_link_forms_witness:
  "ext_secret16_from_hex (''ee'' @ ext_secret16_to_hex (replicate 16 200) @ ''676f6f'') = Some (replicate 16 200)"
proof -
  have "\<forall>c \<in> set ''676f6f''. c_isxdigit c" by code_simp
  from secret_link_forms [OF _ this, of "replicate 16 200"] show ?thesis by simp
qed

text \<open>
  Nothing else is taken for a secret: a text that \<open>ext_secret16_from_hex\<close> accepts gives 16 bytes,
  and holds their 32 digits, in either case, at its start or after a \<open>dd\<close> or \<open>ee\<close>.
\<close>

theorem secret_forms_only:
  assumes "ext_secret16_from_hex hex = Some k"
  shows "length k = 16 \<and>
    (map c_tolower hex = ext_secret16_to_hex k
     \<or> map c_tolower (take 2 hex) \<in> {''dd'', ''ee''} \<and> map c_tolower (take 32 (drop 2 hex)) = ext_secret16_to_hex k)"
proof -
  have dig: "map c_tolower (take 32 t) = ext_secret16_to_hex k" if "ext_hex16_to_secret t = Some k" "32 \<le> length t" for t
    using that to_hex_hex_pairs [of "take 32 t"] by (auto simp: ext_hex16_to_secret_def split: if_splits)
  from assms consider "length hex = 32" "ext_hex16_to_secret hex = Some k"
    | "length hex \<ge> 34" "map c_tolower (take 2 hex) \<in> {''dd'', ''ee''}" "ext_hex16_to_secret (drop 2 hex) = Some k"
    by (auto simp: ext_secret16_from_hex_def Let_def prefixed_secret_def strncaseeq_def
        split: if_splits option.splits)
  then show ?thesis
  proof cases
    case 1
    with dig [OF 1(2)] from_hex_length [OF assms] show ?thesis by simp
  next
    case 2
    with dig [OF 2(3)] from_hex_length [OF assms] show ?thesis by simp
  qed
qed

theorem secret_forms_only_witness:
  "length (the (ext_secret16_from_hex (''DD'' @ concat (replicate 16 ''AB'')))) = 16"
proof -
  have "ext_secret16_from_hex (''DD'' @ concat (replicate 16 ''AB'')) = Some (replicate 16 171)" by code_simp
  from secret_forms_only [OF this] this show ?thesis by simp
qed

end
