(* ===== verification/Secret_State.thy ===== *)
theory Secret_State
  imports Secret_Codec
begin

text \<open>
  The state of the secret store in \<open>net/net-tcp-rpc-ext-server.c\<close> (the file's static variables, the
  entries and the metrics), the growth of its two arrays, and \<open>ext_persist_locked\<close>, which writes the
  state file.  The services of the operating system that the code calls are the fields of
  \<open>host_env\<close>: which allocations succeed, which directories can be made, whether the temporary file
  can be created and renamed, and how many of the bytes written reach the disk.

  The lemmas bound the growth loops: they return for every request below \<open>2 ^ 30\<close>, and the loop
  that grows the metrics never returns from \<open>2 ^ 30\<close> on.
\<close>

section \<open>State\<close>

record secret_entry =
  e_secret :: "byte list"
  e_hex :: string
  e_label :: string
  e_last_ip :: string
  e_id :: int
  e_enabled :: bool
  e_created :: int
  e_updated :: int
  e_expires :: int
  e_last_seen :: int

record secret_metric =
  m_in :: int
  m_out :: int
  m_conns :: int

definition zero_metric :: secret_metric where
  "zero_metric = \<lparr>m_in = 0, m_out = 0, m_conns = 0\<rparr>"

definition zero_entry :: secret_entry where
  "zero_entry = \<lparr>e_secret = replicate 16 0, e_hex = [], e_label = [], e_last_ip = [], e_id = 0,
     e_enabled = False, e_created = 0, e_updated = 0, e_expires = 0, e_last_seen = 0\<rparr>"

text \<open>
  \<open>entries\<close> is \<open>ext_secrets[0 .. ext_secret_cnt - 1]\<close>, \<open>metrics\<close> the array of
  \<open>ext_secret_metrics_cap\<close> counters, indexed by the identifier of a secret.  \<open>files\<close> is the part of
  the file system the store reads and writes.
\<close>

record secret_store =
  entries :: "secret_entry list"
  secret_cap :: int
  next_id :: int
  metrics :: "secret_metric list"
  total_in :: int
  total_out :: int
  total_conns :: int
  state_file :: string
  admin_token :: string
  files :: "string \<Rightarrow> string option"

definition init_store :: secret_store where
  "init_store = \<lparr>entries = [], secret_cap = 0, next_id = 1, metrics = [], total_in = 0,
     total_out = 0, total_conns = 0, state_file = [], admin_token = [], files = (\<lambda>_. None)\<rparr>"

record host_env =
  env_now :: int
  env_realloc :: "int \<Rightarrow> bool"
  env_calloc :: "int \<Rightarrow> bool"
  env_malloc :: bool
  env_mkdir :: "string \<Rightarrow> bool"
  env_mkstemp :: bool
  env_fdopen :: bool
  env_rename :: bool
  env_disk_room :: "nat option"

text \<open>A host on which every service succeeds, for concrete runs.\<close>

definition good_env :: "int \<Rightarrow> host_env" where
  "good_env t = \<lparr>env_now = t, env_realloc = (\<lambda>_. True), env_calloc = (\<lambda>_. True), env_malloc = True,
     env_mkdir = (\<lambda>_. True), env_mkstemp = True, env_fdopen = True, env_rename = True,
     env_disk_room = None\<rparr>"

lemma good_env_sel [simp]:
  "env_now (good_env t) = t" "env_realloc (good_env t) n" "env_calloc (good_env t) n" "env_malloc (good_env t)"
  "env_mkdir (good_env t) d" "env_mkstemp (good_env t)" "env_fdopen (good_env t)" "env_rename (good_env t)"
  "env_disk_room (good_env t) = None"
  by (simp_all add: good_env_def)

abbreviation metrics_cap :: "'a secret_store_scheme \<Rightarrow> int" where
  "metrics_cap s \<equiv> int (length (metrics s))"

section \<open>Looking entries up\<close>

definition ext_is_active_locked :: "secret_entry \<Rightarrow> int \<Rightarrow> bool" where
  "ext_is_active_locked E now =
     (if \<not> e_enabled E then False
      else if e_expires E > 0 \<and> now \<ge> e_expires E then False
      else True)"

definition ext_find_idx_locked :: "secret_store \<Rightarrow> byte list \<Rightarrow> nat option" where
  "ext_find_idx_locked s secret = find_index (\<lambda>E. e_secret E = secret) (entries s)"

definition ext_find_idx_by_id_locked :: "secret_store \<Rightarrow> int \<Rightarrow> nat option" where
  "ext_find_idx_by_id_locked s i = find_index (\<lambda>E. e_id E = i) (entries s)"

section \<open>Growing the arrays\<close>

text \<open>
  The two doubling loops.  Doubling is \<open>int\<close> multiplication, so it wraps at 32 bits; a loop that
  never ends is \<open>None\<close>.
\<close>

partial_function (option) secrets_grow :: "int \<Rightarrow> int \<Rightarrow> int option" where
  "secrets_grow new_cap want =
     (if new_cap < want then secrets_grow (i32 (new_cap * 2)) want else Some new_cap)"

partial_function (option) metrics_grow :: "int \<Rightarrow> int \<Rightarrow> int option" where
  "metrics_grow new_cap want_id =
     (if new_cap \<le> want_id then metrics_grow (i32 (new_cap * 2)) want_id else Some new_cap)"

declare secrets_grow.simps [code] metrics_grow.simps [code]

definition ext_reserve_locked :: "host_env \<Rightarrow> int \<Rightarrow> secret_store \<Rightarrow> (int \<times> secret_store) option" where
  "ext_reserve_locked env want s =
     (if want \<le> secret_cap s then Some (0, s)
      else case secrets_grow (if secret_cap s \<noteq> 0 then i32 (secret_cap s * 2) else 64) want of
        None \<Rightarrow> None
      | Some new_cap \<Rightarrow>
          if env_realloc env new_cap then Some (0, s\<lparr>secret_cap := new_cap\<rparr>) else Some (-1, s))"

definition ext_metrics_reserve_locked :: "host_env \<Rightarrow> int \<Rightarrow> secret_store \<Rightarrow> (int \<times> secret_store) option" where
  "ext_metrics_reserve_locked env want_id s =
     (if want_id < metrics_cap s then Some (0, s)
      else case metrics_grow (if metrics_cap s \<noteq> 0 then metrics_cap s else 64) want_id of
        None \<Rightarrow> None
      | Some new_cap \<Rightarrow>
          if env_calloc env new_cap
          then Some (0, s\<lparr>metrics := metrics s @ replicate (nat new_cap - length (metrics s)) zero_metric\<rparr>)
          else Some (-1, s))"

lemma metrics_grow_step: "c \<le> w \<Longrightarrow> metrics_grow (i32 (c * 2)) w = metrics_grow c w"
  by (subst (2) metrics_grow.simps) simp

lemma metrics_grow_returns:
  "0 < c \<Longrightarrow> w < 2 ^ 30 \<Longrightarrow> \<exists>r. metrics_grow c w = Some r \<and> w < r \<and> c \<le> r"
proof (induction "nat (w + 1 - c)" arbitrary: c rule: less_induct)
  case less
  show ?case
  proof (cases "c \<le> w")
    case True
    have d: "i32 (c * 2) = c * 2"
      using True less.prems by (intro i32_id) (simp add: fits_i32_def)
    have "\<exists>r. metrics_grow (c * 2) w = Some r \<and> w < r \<and> c * 2 \<le> r"
      using True less.prems by (intro less.hyps) auto
    then show ?thesis
      using metrics_grow_step [OF True] d less.prems by auto
  next
    case False
    then show ?thesis by (subst metrics_grow.simps) simp
  qed
qed

lemma secrets_grow_returns:
  "0 < c \<Longrightarrow> w < 2 ^ 30 \<Longrightarrow> \<exists>r. secrets_grow c w = Some r \<and> w \<le> r \<and> c \<le> r"
proof (induction "nat (w + 1 - c)" arbitrary: c rule: less_induct)
  case less
  show ?case
  proof (cases "c < w")
    case True
    have d: "i32 (c * 2) = c * 2"
      using True less.prems by (intro i32_id) (simp add: fits_i32_def)
    have "\<exists>r. secrets_grow (c * 2) w = Some r \<and> w \<le> r \<and> c * 2 \<le> r"
      using True less.prems by (intro less.hyps) auto
    then show ?thesis
      using True d less.prems by (subst secrets_grow.simps) auto
  next
    case False
    then show ?thesis by (subst secrets_grow.simps) simp
  qed
qed

text \<open>From zero, doubling stays at zero: the loop does not return.\<close>

lemma metrics_grow_zero: "0 \<le> w \<Longrightarrow> metrics_grow 0 w = None"
proof (rule ccontr)
  assume w: "0 \<le> w" and "metrics_grow 0 w \<noteq> None"
  then obtain r where r: "metrics_grow 0 w = Some r" by blast
  have "\<not> (0 = (0::int) \<and> 0 \<le> w)"
  proof (rule metrics_grow.raw_induct [where P = "\<lambda>c w r. \<not> (c = 0 \<and> 0 \<le> w)", OF _ r])
    fix f c w and r :: int
    assume IH: "\<And>c w r. f c w = Some r \<Longrightarrow> \<not> (c = 0 \<and> 0 \<le> w)"
      and eq: "(if c \<le> w then f (i32 (c * 2)) w else Some c) = Some r"
    show "\<not> (c = 0 \<and> 0 \<le> w)"
    proof
      assume a: "c = 0 \<and> 0 \<le> w"
      then have "f 0 w = Some r" using eq by (simp add: i32_def)
      then have "\<not> (0 = (0::int) \<and> 0 \<le> w)" by (rule IH)
      with a show False by simp
    qed
  qed
  with w show False by simp
qed

lemma metrics_grow_powers:
  "2 ^ 30 \<le> w \<Longrightarrow> k \<le> 24 \<Longrightarrow> metrics_grow (64 * 2 ^ k) w = metrics_grow 64 w"
proof (induction k)
  case 0
  then show ?case by simp
next
  case (Suc k)
  have k: "(2::int) ^ k \<le> 2 ^ 23"
    using Suc.prems(2) by (intro power_increasing) simp_all
  then have "64 * 2 ^ k \<le> w" using Suc.prems(1) by simp
  then have "metrics_grow (i32 (64 * 2 ^ k * 2)) w = metrics_grow (64 * 2 ^ k) w"
    by (rule metrics_grow_step)
  moreover have "i32 (64 * 2 ^ k * 2) = 64 * 2 ^ k * 2"
  proof (intro i32_id)
    have "0 < (2::int) ^ k" "(2::int) ^ k \<le> 8388608" using k by simp_all
    then show "fits_i32 (64 * 2 ^ k * 2)" unfolding fits_i32_def by linarith
  qed
  ultimately show ?case using Suc by (simp add: mult.commute mult.left_commute)
qed

lemma metrics_grow_diverges: "2 ^ 30 \<le> w \<Longrightarrow> metrics_grow 64 w = None"
proof -
  assume w: "2 ^ 30 \<le> w"
  have "metrics_grow 64 w = metrics_grow (2 ^ 30) w"
    using metrics_grow_powers [OF w, of 24] by simp
  also have "\<dots> = metrics_grow (i32 (2 ^ 30 * 2)) w"
    using w by (intro metrics_grow_step [symmetric])
  also have "i32 (2 ^ 30 * 2) = - (2 ^ 31)" by (simp add: i32_def)
  also have "metrics_grow (- (2 ^ 31)) w = metrics_grow (i32 (- (2 ^ 31) * 2)) w"
    using w by (intro metrics_grow_step [symmetric]) simp
  also have "i32 (- (2 ^ 31) * 2) = 0" by (simp add: i32_def)
  also have "metrics_grow 0 w = None" using w by (intro metrics_grow_zero) simp
  finally show ?thesis .
qed

lemma reserve_returns:
  assumes "0 \<le> secret_cap s" "w < 2 ^ 30" "\<And>n. env_realloc env n"
  shows "\<exists>c. ext_reserve_locked env w s = Some (0, s\<lparr>secret_cap := c\<rparr>)"
proof (cases "w \<le> secret_cap s")
  case True
  have "s = s\<lparr>secret_cap := secret_cap s\<rparr>" by simp
  with True show ?thesis by (metis ext_reserve_locked_def)
next
  case False
  let ?c = "if secret_cap s \<noteq> 0 then i32 (secret_cap s * 2) else 64"
  have "0 < ?c" using False assms(1,2) by (auto simp: i32_def)
  from secrets_grow_returns [OF this assms(2)] obtain r where "secrets_grow ?c w = Some r" by blast
  with False assms(3) show ?thesis by (auto simp: ext_reserve_locked_def)
qed

lemma metrics_reserve_returns:
  assumes "w < 2 ^ 30" "\<And>n. env_calloc env n"
  shows "\<exists>k. ext_metrics_reserve_locked env w s = Some (0, s\<lparr>metrics := metrics s @ replicate k zero_metric\<rparr>)
     \<and> w < metrics_cap s + int k"
proof (cases "w < metrics_cap s")
  case True
  have "s = s\<lparr>metrics := metrics s @ replicate 0 zero_metric\<rparr>" by simp
  with True show ?thesis by (auto simp: ext_metrics_reserve_locked_def intro!: exI [of _ 0])
next
  case False
  let ?c = "if metrics_cap s \<noteq> 0 then metrics_cap s else 64"
  have "0 < ?c" by simp
  from metrics_grow_returns [OF this assms(1)] obtain r where "metrics_grow ?c w = Some r" "w < r" "?c \<le> r" by blast
  with False assms(2) show ?thesis by (auto simp: ext_metrics_reserve_locked_def intro!: exI [of _ "nat r - length (metrics s)"])
qed

section \<open>The state file\<close>

definition PATH_MAX :: nat where
  "PATH_MAX = 4096"

text \<open>
  \<open>ext_mkdirs_for_file\<close>: make the directory before every slash, from the second character on; stop
  at the first that cannot be made.  \<open>mk p\<close> holds when \<open>mkdir\<close> succeeds on \<open>p\<close> or finds it there.
\<close>

fun mkdirs_loop :: "(string \<Rightarrow> bool) \<Rightarrow> string \<Rightarrow> string \<Rightarrow> bool" where
  "mkdirs_loop mk done [] = True"
| "mkdirs_loop mk done (c # cs) =
     (if c = CHR ''/'' \<and> \<not> mk done then False else mkdirs_loop mk (done @ [c]) cs)"

definition ext_mkdirs_for_file :: "(string \<Rightarrow> bool) \<Rightarrow> string \<Rightarrow> int" where
  "ext_mkdirs_for_file mk path =
     (if path = [] then 0
      else if length path \<ge> PATH_MAX then -1
      else if mkdirs_loop mk [hd path] (tl path) then 0 else -1)"

definition metric_of :: "secret_store \<Rightarrow> secret_entry \<Rightarrow> secret_metric" where
  "metric_of s E =
     (if e_id E > 0 \<and> e_id E < metrics_cap s then metrics s ! nat (e_id E) else zero_metric)"

definition show_bool :: "bool \<Rightarrow> string" where
  "show_bool b = show_int (if b then 1 else 0)"

definition state_header :: "secret_store \<Rightarrow> string" where
  "state_header s =
     join_tabs [''v3'', show_int (total_in s), show_int (total_out s), show_int (total_conns s),
       show_int (next_id s)] @ [LF]"

definition entry_columns :: "secret_store \<Rightarrow> secret_entry \<Rightarrow> string list" where
  "entry_columns s E =
     (let M = metric_of s E in
      [e_hex E, show_bool (e_enabled E), show_int (e_expires E), show_int (e_created E),
       show_int (e_updated E), show_int (e_id E), show_int (m_in M), show_int (m_out M),
       show_int (m_conns M), show_int (e_last_seen E), e_last_ip E, e_label E])"

definition state_text :: "secret_store \<Rightarrow> string" where
  "state_text s =
     state_header s @ concat (map (\<lambda>E. join_tabs (entry_columns s E) @ [LF]) (entries s))"

text \<open>What of a text written to the temporary file reaches the disk: all of it, or a first part.\<close>

definition on_disk :: "host_env \<Rightarrow> string \<Rightarrow> string" where
  "on_disk env t = (case env_disk_room env of None \<Rightarrow> t | Some n \<Rightarrow> take n t)"

text \<open>
  The results of \<open>fprintf\<close>, \<open>fflush\<close>, \<open>fsync\<close> and \<open>fclose\<close> are not looked at: what reaches the disk
  of the temporary file is renamed over the state file, whole or not.
\<close>

definition ext_persist_locked :: "host_env \<Rightarrow> secret_store \<Rightarrow> int \<times> secret_store" where
  "ext_persist_locked env s =
     (if state_file s = [] then (0, s)
      else if ext_mkdirs_for_file (env_mkdir env) (state_file s) < 0 then (-1, s)
      else if length (state_file s) + length ''.tmpXXXXXX'' \<ge> PATH_MAX then (-1, s)
      else if \<not> env_mkstemp env then (-1, s)
      else if \<not> env_fdopen env then (-1, s)
      else if \<not> env_rename env then (-1, s)
      else (0, s\<lparr>files := (files s)(state_file s \<mapsto> on_disk env (state_text s))\<rparr>))"

text \<open>Writing the file changes nothing but the file.\<close>

lemma persist_state:
  "ext_persist_locked env s = (r, s') \<Longrightarrow> \<exists>f. s' = s\<lparr>files := f\<rparr>"
proof -
  assume "ext_persist_locked env s = (r, s')"
  then consider "s' = s" | "s' = s\<lparr>files := (files s)(state_file s \<mapsto> on_disk env (state_text s))\<rparr>"
    by (auto simp: ext_persist_locked_def split: if_splits)
  then show ?thesis
  proof cases
    case 1
    then have "s' = s\<lparr>files := files s\<rparr>" by simp
    then show ?thesis by blast
  qed blast
qed

lemma persist_frame:
  assumes "ext_persist_locked env s = (r, s')"
  shows "entries s' = entries s" "next_id s' = next_id s" "metrics s' = metrics s"
    "secret_cap s' = secret_cap s" "total_in s' = total_in s" "total_out s' = total_out s"
    "total_conns s' = total_conns s" "admin_token s' = admin_token s" "state_file s' = state_file s"
  using persist_state [OF assms] by auto

lemma persist_result: "ext_persist_locked env s = (r, s') \<Longrightarrow> r = 0 \<or> r = -1"
  by (auto simp: ext_persist_locked_def split: if_splits)

end
