(* ===== verification/Secret_Store.thy ===== *)
theory Secret_Store
  imports Secret_State
begin

text \<open>
  The operations of the secret store in \<open>net/net-tcp-rpc-ext-server.c\<close>: adding a secret, the commands
  of the administration interface (\<open>ext_cmd_add\<close>, \<open>_remove\<close>, \<open>_set_enabled\<close>, \<open>_update\<close>,
  \<open>_disable_expired\<close>), the accounting of connections and traffic, the counts and the snapshot of the
  active secrets that a handshake tries.  Every operation runs under \<open>ext_secret_lock\<close>, so a run of
  the process is a sequence of them, in any order.

  An operation that can run into the growth loop of the metrics is an \<open>option\<close>, \<open>None\<close> when it does
  not return.  The invariant \<open>store_inv\<close> says that secrets and identifiers are distinct, that every
  identifier has a metrics slot and is below \<open>next_id\<close>, and that the slots from \<open>next_id\<close> on are zero.
\<close>

section \<open>Accounting\<close>

text \<open>What \<open>ext_metrics_attach_secret_to_connection\<close> and its callers use of a connection.\<close>

record conn_acct =
  extra_int2 :: int
  remote_ip :: u32
  remote_ipv6 :: "byte list"

text \<open>
  \<open>ntop4\<close> and \<open>ntop6\<close> stand for \<open>inet_ntop\<close> on an address in network order; \<open>None\<close> is its failure.
\<close>

definition ext_format_remote_ip ::
    "(u32 \<Rightarrow> string option) \<Rightarrow> (byte list \<Rightarrow> string option) \<Rightarrow> conn_acct \<Rightarrow> string" where
  "ext_format_remote_ip ntop4 ntop6 c =
     (if remote_ip c \<noteq> 0 then (case ntop4 (remote_ip c) of None \<Rightarrow> [] | Some t \<Rightarrow> t)
      else if remote_ipv6 c = replicate 16 0 then []
      else (case ntop6 (remote_ipv6 c) of None \<Rightarrow> [] | Some t \<Rightarrow> t))"

definition bump_connections :: "int \<Rightarrow> secret_store \<Rightarrow> secret_store" where
  "bump_connections secret_id s =
     (if secret_id > 0 \<and> secret_id < metrics_cap s
      then s\<lparr>metrics := (metrics s)[nat secret_id :=
             (metrics s ! nat secret_id)\<lparr>m_conns := i64 (m_conns (metrics s ! nat secret_id) + 1)\<rparr>]\<rparr>
      else s)"

definition touch_entry :: "host_env \<Rightarrow> string \<Rightarrow> int \<Rightarrow> secret_store \<Rightarrow> secret_store" where
  "touch_entry env ipbuf secret_id s =
     (case ext_find_idx_by_id_locked s secret_id of
        None \<Rightarrow> s
      | Some idx \<Rightarrow>
          let E = entries s ! idx;
              E1 = (if ipbuf \<noteq> [] then E\<lparr>e_last_ip := ext_sanitize_ip ipbuf\<rparr> else E)
          in s\<lparr>entries := (entries s)[idx := E1\<lparr>e_last_seen := env_now env\<rparr>]\<rparr>)"

definition ext_metrics_attach_secret_to_connection ::
    "host_env \<Rightarrow> string \<Rightarrow> int \<Rightarrow> conn_acct \<Rightarrow> secret_store \<Rightarrow> conn_acct \<times> secret_store" where
  "ext_metrics_attach_secret_to_connection env ipbuf secret_id c s =
     (if secret_id \<le> 0 then (c, s)
      else if extra_int2 c = secret_id then (c, s)
      else
        let s2 = touch_entry env ipbuf secret_id (bump_connections secret_id s)
        in (c\<lparr>extra_int2 := secret_id\<rparr>, s2\<lparr>total_conns := i64 (total_conns s2 + 1)\<rparr>))"

text \<open>The two atomic additions for each direction.\<close>

definition add_bytes_in :: "int \<Rightarrow> int \<Rightarrow> secret_store \<Rightarrow> secret_store" where
  "add_bytes_in secret_id n s =
     s\<lparr>total_in := i64 (total_in s + n),
       metrics := (metrics s)[nat secret_id :=
         (metrics s ! nat secret_id)\<lparr>m_in := i64 (m_in (metrics s ! nat secret_id) + n)\<rparr>]\<rparr>"

definition add_bytes_out :: "int \<Rightarrow> int \<Rightarrow> secret_store \<Rightarrow> secret_store" where
  "add_bytes_out secret_id n s =
     s\<lparr>total_out := i64 (total_out s + n),
       metrics := (metrics s)[nat secret_id :=
         (metrics s ! nat secret_id)\<lparr>m_out := i64 (m_out (metrics s ! nat secret_id) + n)\<rparr>]\<rparr>"

definition tcp_rpcs_note_connection_traffic :: "conn_acct \<Rightarrow> int \<Rightarrow> int \<Rightarrow> secret_store \<Rightarrow> secret_store" where
  "tcp_rpcs_note_connection_traffic c bytes_in bytes_out s =
     (if bytes_in \<le> 0 \<and> bytes_out \<le> 0 then s
      else
        let secret_id = extra_int2 c in
        if \<not> (secret_id > 0 \<and> secret_id < metrics_cap s) then s
        else
          let s1 = (if bytes_in > 0 then add_bytes_in secret_id bytes_in s else s)
          in (if bytes_out > 0 then add_bytes_out secret_id bytes_out s1 else s1))"

section \<open>Adding and changing secrets\<close>

text \<open>The first part of \<open>ext_add_locked\<close> on a known secret: an identifier for an entry without one.\<close>

definition ensure_entry_id :: "host_env \<Rightarrow> nat \<Rightarrow> secret_store \<Rightarrow> (int \<times> secret_store) option" where
  "ensure_entry_id env idx s =
     (if e_id (entries s ! idx) \<le> 0
      then (case ext_metrics_reserve_locked env (next_id s) s of
              None \<Rightarrow> None
            | Some (r, s1) \<Rightarrow>
                if r < 0 then Some (-1, s1)
                else Some (0, s1\<lparr>entries := (entries s1)[idx := (entries s1 ! idx)\<lparr>e_id := next_id s1\<rparr>],
                                 next_id := i32 (next_id s1 + 1)\<rparr>))
      else Some (0, s))"

definition ext_add_locked ::
    "host_env \<Rightarrow> byte list \<Rightarrow> string \<Rightarrow> int \<Rightarrow> bool \<Rightarrow> bool \<Rightarrow> bool \<Rightarrow> secret_store \<Rightarrow> (int \<times> secret_store) option" where
  "ext_add_locked env secret label expires_at enabled fail_if_exists persist s =
     (let now = env_now env in
      case ext_find_idx_locked s secret of
        Some idx \<Rightarrow>
          (case ensure_entry_id env idx s of
             None \<Rightarrow> None
           | Some (r, s1) \<Rightarrow>
               if r < 0 then Some (-1, s1)
               else if fail_if_exists then Some (-1, s1)
               else
                 let E = entries s1 ! idx;
                     E1 = E\<lparr>e_label := (if label \<noteq> [] then ext_sanitize_label label else e_label E),
                            e_expires := (if expires_at \<ge> 0 then expires_at else e_expires E),
                            e_enabled := enabled,
                            e_updated := now\<rparr>;
                     s2 = s1\<lparr>entries := (entries s1)[idx := E1]\<rparr>
                 in Some (if persist then ext_persist_locked env s2 else (0, s2)))
      | None \<Rightarrow>
          (case ext_reserve_locked env (int (length (entries s)) + 1) s of
             None \<Rightarrow> None
           | Some (r, s1) \<Rightarrow>
               if r < 0 then Some (-1, s1)
               else
                 (case ext_metrics_reserve_locked env (next_id s1) s1 of
                    None \<Rightarrow> None
                  | Some (r2, s2) \<Rightarrow>
                      if r2 < 0 then Some (-1, s2)
                      else
                        let E = zero_entry\<lparr>e_secret := secret,
                                           e_hex := ext_secret16_to_hex secret,
                                           e_label := ext_sanitize_label label,
                                           e_id := next_id s2,
                                           e_enabled := enabled,
                                           e_created := now,
                                           e_updated := now,
                                           e_expires := (if expires_at > 0 then expires_at else 0)\<rparr>;
                            s3 = s2\<lparr>entries := entries s2 @ [E], next_id := i32 (next_id s2 + 1)\<rparr>
                        in Some (if persist then ext_persist_locked env s3 else (0, s3)))))"

text \<open>The secrets given on the command line; the result of the addition is not looked at.\<close>

definition tcp_rpcs_set_ext_secret :: "host_env \<Rightarrow> byte list \<Rightarrow> secret_store \<Rightarrow> secret_store option" where
  "tcp_rpcs_set_ext_secret env secret s =
     map_option snd (ext_add_locked env secret ''bootstrap'' 0 True False False s)"

definition tcp_rpcs_set_secrets_state_file :: "string \<Rightarrow> secret_store \<Rightarrow> secret_store" where
  "tcp_rpcs_set_secrets_state_file path s =
     (if path \<noteq> [] then s\<lparr>state_file := snprintf_trunc PATH_MAX path\<rparr> else s\<lparr>state_file := []\<rparr>)"

definition tcp_rpcs_flush_secrets_state :: "host_env \<Rightarrow> secret_store \<Rightarrow> int \<times> secret_store" where
  "tcp_rpcs_flush_secrets_state env s = ext_persist_locked env s"

definition ext_cmd_add ::
    "host_env \<Rightarrow> string \<Rightarrow> string \<Rightarrow> int \<Rightarrow> bool \<Rightarrow> secret_store \<Rightarrow> (int \<times> secret_store) option" where
  "ext_cmd_add env hex label expires_at enabled s =
     (case ext_secret16_from_hex hex of
        None \<Rightarrow> Some (-2, s)
      | Some secret \<Rightarrow> ext_add_locked env secret label expires_at enabled True True s)"

definition ext_cmd_remove :: "host_env \<Rightarrow> string \<Rightarrow> secret_store \<Rightarrow> int \<times> secret_store" where
  "ext_cmd_remove env hex s =
     (case ext_secret16_from_hex hex of
        None \<Rightarrow> (-2, s)
      | Some secret \<Rightarrow>
          (case ext_find_idx_locked s secret of
             None \<Rightarrow> (-3, s)
           | Some idx \<Rightarrow> ext_persist_locked env (s\<lparr>entries := remove_swap idx (entries s)\<rparr>)))"

definition ext_cmd_set_enabled :: "host_env \<Rightarrow> string \<Rightarrow> bool \<Rightarrow> secret_store \<Rightarrow> int \<times> secret_store" where
  "ext_cmd_set_enabled env hex enabled s =
     (case ext_secret16_from_hex hex of
        None \<Rightarrow> (-2, s)
      | Some secret \<Rightarrow>
          (case ext_find_idx_locked s secret of
             None \<Rightarrow> (-3, s)
           | Some idx \<Rightarrow>
               ext_persist_locked env
                 (s\<lparr>entries := (entries s)[idx := (entries s ! idx)\<lparr>e_enabled := enabled, e_updated := env_now env\<rparr>]\<rparr>)))"

definition ext_cmd_update ::
    "host_env \<Rightarrow> string \<Rightarrow> string option \<Rightarrow> int option \<Rightarrow> bool option \<Rightarrow> secret_store \<Rightarrow> int \<times> secret_store" where
  "ext_cmd_update env hex label expires_at enabled s =
     (case ext_secret16_from_hex hex of
        None \<Rightarrow> (-2, s)
      | Some secret \<Rightarrow>
          (case ext_find_idx_locked s secret of
             None \<Rightarrow> (-3, s)
           | Some idx \<Rightarrow>
               let E = entries s ! idx;
                   E1 = (case label of None \<Rightarrow> E | Some l \<Rightarrow> E\<lparr>e_label := ext_sanitize_label l\<rparr>);
                   E2 = (case expires_at of None \<Rightarrow> E1 | Some x \<Rightarrow> E1\<lparr>e_expires := (if x > 0 then x else 0)\<rparr>);
                   E3 = (case enabled of None \<Rightarrow> E2 | Some b \<Rightarrow> E2\<lparr>e_enabled := b\<rparr>)
               in ext_persist_locked env (s\<lparr>entries := (entries s)[idx := E3\<lparr>e_updated := env_now env\<rparr>]\<rparr>)))"

definition expired :: "int \<Rightarrow> secret_entry \<Rightarrow> bool" where
  "expired now E \<longleftrightarrow> e_enabled E \<and> e_expires E > 0 \<and> now \<ge> e_expires E"

fun disable_loop :: "int \<Rightarrow> secret_entry list \<Rightarrow> int \<times> int \<times> secret_entry list" where
  "disable_loop now [] = (0, 0, [])"
| "disable_loop now (E # Es) =
     (let (checked, disabled, Es') = disable_loop now Es in
      if expired now E
      then (checked + 1, disabled + 1, E\<lparr>e_enabled := False, e_updated := now\<rparr> # Es')
      else (checked + 1, disabled, E # Es'))"

text \<open>The result, the two counts, the time used and the new state.\<close>

definition ext_cmd_disable_expired :: "host_env \<Rightarrow> int \<Rightarrow> secret_store \<Rightarrow> int \<times> int \<times> int \<times> int \<times> secret_store" where
  "ext_cmd_disable_expired env now0 s =
     (let now = (if now0 \<le> 0 then env_now env else now0);
          (checked, disabled, Es) = disable_loop now (entries s);
          (r, s1) = ext_persist_locked env (s\<lparr>entries := Es\<rparr>)
      in (r, checked, disabled, now, s1))"

section \<open>Counts and the snapshot for a handshake\<close>

definition tcp_rpcs_total_secret_count :: "secret_store \<Rightarrow> int" where
  "tcp_rpcs_total_secret_count s = int (length (entries s))"

definition tcp_rpcs_active_secret_count :: "int \<Rightarrow> secret_store \<Rightarrow> int" where
  "tcp_rpcs_active_secret_count now s =
     sum_list (map (\<lambda>E. if ext_is_active_locked E now then 1 else 0) (entries s))"

definition ext_snapshot_active_secrets ::
    "host_env \<Rightarrow> int \<Rightarrow> secret_store \<Rightarrow> int \<times> (byte list \<times> int) list" where
  "ext_snapshot_active_secrets env now s =
     (let n = tcp_rpcs_active_secret_count now s in
      if n \<le> 0 then (0, [])
      else if \<not> env_malloc env then (-1, [])
      else (0, map (\<lambda>E. (e_secret E, e_id E)) (filter (\<lambda>E. ext_is_active_locked E now) (entries s))))"

end
