(* ===== verification/Secret_Invariant.thy ===== *)
theory Secret_Invariant
  imports Secret_Store
begin

text \<open>
  The invariant of the secret store and its preservation by every operation of \<open>Secret_Store\<close>; the
  runs of the store as a step relation; the freshness of identifiers over a run; the conservation of
  the traffic totals.
\<close>

section \<open>The invariant\<close>

definition entry_ok :: "secret_entry \<Rightarrow> bool" where
  "entry_ok E \<longleftrightarrow> length (e_secret E) = 16 \<and> e_hex E = ext_secret16_to_hex (e_secret E)
     \<and> label_ok (e_label E) \<and> ip_ok (e_last_ip E)"

definition id_ok :: "secret_store \<Rightarrow> secret_entry \<Rightarrow> bool" where
  "id_ok s E \<longleftrightarrow> 0 < e_id E \<and> e_id E < next_id s \<and> e_id E < metrics_cap s"

definition store_inv :: "secret_store \<Rightarrow> bool" where
  "store_inv s \<longleftrightarrow>
     (\<forall>E \<in> set (entries s). entry_ok E \<and> id_ok s E)
     \<and> distinct (map e_secret (entries s)) \<and> distinct (map e_id (entries s))
     \<and> int (length (entries s)) \<le> secret_cap s \<and> 0 < next_id s
     \<and> fits_i32 (metrics_cap s)
     \<and> (\<forall>i < length (metrics s). next_id s \<le> int i \<longrightarrow> metrics s ! i = zero_metric)"

lemma store_inv_init [simp]: "store_inv init_store"
  by (simp add: store_inv_def init_store_def fits_i32_def)

lemma store_invD:
  assumes "store_inv s"
  shows "\<And>E. E \<in> set (entries s) \<Longrightarrow> entry_ok E" "\<And>E. E \<in> set (entries s) \<Longrightarrow> id_ok s E"
    "distinct (map e_secret (entries s))" "distinct (map e_id (entries s))"
    "int (length (entries s)) \<le> secret_cap s" "0 < next_id s" "fits_i32 (metrics_cap s)"
    "\<And>i. i < length (metrics s) \<Longrightarrow> next_id s \<le> int i \<Longrightarrow> metrics s ! i = zero_metric"
  using assms by (auto simp: store_inv_def)

text \<open>The fields the invariant reads; a change of any other field keeps it.\<close>

lemma store_inv_cong:
  assumes "entries s' = entries s" "secret_cap s' = secret_cap s" "next_id s' = next_id s"
    "metrics s' = metrics s"
  shows "store_inv s' = store_inv s"
  using assms by (simp add: store_inv_def id_ok_def)

lemma store_inv_persist [simp]:
  "ext_persist_locked env s = (r, s') \<Longrightarrow> store_inv s' \<longleftrightarrow> store_inv s"
  by (rule store_inv_cong) (simp_all add: persist_frame)

lemma store_inv_entriesI:
  assumes "store_inv s" "\<And>E. E \<in> set Es \<Longrightarrow> entry_ok E" "\<And>E. E \<in> set Es \<Longrightarrow> id_ok s E"
    "distinct (map e_secret Es)" "distinct (map e_id Es)" "int (length Es) \<le> secret_cap s"
  shows "store_inv (s\<lparr>entries := Es\<rparr>)"
  using assms unfolding store_inv_def id_ok_def by simp

text \<open>Replacing one entry by one with the same key and identifier.\<close>

lemma store_inv_update_entry:
  assumes inv: "store_inv s" and i: "i < length (entries s)"
    and E: "e_secret E = e_secret (entries s ! i)" "e_id E = e_id (entries s ! i)" "entry_ok E"
  shows "store_inv (s\<lparr>entries := (entries s)[i := E]\<rparr>)"
proof -
  let ?Es = "(entries s)[i := E]"
  have "map e_secret ?Es = map e_secret (entries s)" "map e_id ?Es = map e_id (entries s)"
    using i E by (simp_all add: map_update_same)
  moreover have "\<forall>F \<in> set ?Es. entry_ok F \<and> id_ok s F"
  proof
    fix F assume "F \<in> set ?Es"
    then consider "F = E" | "F \<in> set (entries s)" by (meson set_update_subset_insert insertE subsetD)
    then show "entry_ok F \<and> id_ok s F"
    proof cases
      case 1
      have "id_ok s (entries s ! i)" using store_invD(2) [OF inv] i by simp
      with 1 E show ?thesis by (simp add: id_ok_def)
    next
      case 2
      then show ?thesis using store_invD(1,2) [OF inv] by blast
    qed
  qed
  ultimately show ?thesis
    using inv store_invD(3,4,5) [OF inv] by (intro store_inv_entriesI) (simp_all del: map_update)
qed

lemma store_inv_subset_entries:
  assumes inv: "store_inv s" and sub: "set Es \<subseteq> set (entries s)"
    and d: "distinct (map e_secret Es)" "distinct (map e_id Es)" and l: "length Es \<le> length (entries s)"
  shows "store_inv (s\<lparr>entries := Es\<rparr>)"
proof -
  have "int (length Es) \<le> secret_cap s" using l store_invD(5) [OF inv] by linarith
  then show ?thesis
    using inv d sub store_invD(1,2) [OF inv] by (intro store_inv_entriesI) auto
qed

section \<open>Growth keeps the invariant\<close>

lemma metrics_grow_Some:
  assumes "metrics_grow c w = Some r" "fits_i32 c"
  shows "w < r \<and> fits_i32 r"
proof -
  have "fits_i32 c \<longrightarrow> w < r \<and> fits_i32 r"
  proof (rule metrics_grow.raw_induct [where P = "\<lambda>c w r. fits_i32 c \<longrightarrow> w < r \<and> fits_i32 r", OF _ assms(1)])
    fix f c w r
    assume IH: "\<And>c w r. f c w = Some r \<Longrightarrow> fits_i32 c \<longrightarrow> w < r \<and> fits_i32 r"
      and eq: "(if c \<le> w then f (i32 (c * 2)) w else Some c) = Some r"
    show "fits_i32 c \<longrightarrow> w < r \<and> fits_i32 r"
      using IH [of "i32 (c * 2)" w r] eq by (auto split: if_splits)
  qed
  with assms(2) show ?thesis by simp
qed

lemma secrets_grow_Some:
  assumes "secrets_grow c w = Some r"
  shows "w \<le> r"
proof (rule secrets_grow.raw_induct [where P = "\<lambda>c w r. w \<le> r", OF _ assms])
  fix f c w and r :: int
  assume IH: "\<And>c w r. f c w = Some r \<Longrightarrow> w \<le> r"
    and eq: "(if c < w then f (i32 (c * 2)) w else Some c) = Some r"
  show "w \<le> r" using IH [of "i32 (c * 2)" w r] eq by (auto split: if_splits)
qed

lemma metrics_reserve_shape:
  assumes "ext_metrics_reserve_locked env w s = Some (r, s')" "fits_i32 (metrics_cap s)"
  shows "(\<exists>k. s' = s\<lparr>metrics := metrics s @ replicate k zero_metric\<rparr>) \<and> (r = 0 \<or> r = -1)
     \<and> (r = 0 \<longrightarrow> w < metrics_cap s') \<and> (r = -1 \<longrightarrow> s' = s) \<and> fits_i32 (metrics_cap s')"
proof (cases "w < metrics_cap s")
  case True
  have "s = s\<lparr>metrics := metrics s @ replicate 0 zero_metric\<rparr>" by simp
  with True assms show ?thesis by (auto simp: ext_metrics_reserve_locked_def intro: exI [of _ 0])
next
  case False
  define c where "c = (if metrics_cap s \<noteq> 0 then metrics_cap s else 64)"
  have fc: "fits_i32 c" using assms(2) by (simp add: c_def fits_i32_def)
  from False assms(1) obtain nc where nc: "metrics_grow c w = Some nc"
    and res: "(if env_calloc env nc
          then Some (0, s\<lparr>metrics := metrics s @ replicate (nat nc - length (metrics s)) zero_metric\<rparr>)
          else Some (-1, s)) = Some (r, s')"
    by (auto simp: ext_metrics_reserve_locked_def c_def split: option.splits)
  have w: "w < nc" "fits_i32 nc" using metrics_grow_Some [OF nc fc] by auto
  show ?thesis
  proof (cases "env_calloc env nc")
    case True
    have "metrics_cap (s\<lparr>metrics := metrics s @ replicate (nat nc - length (metrics s)) zero_metric\<rparr>) = nc"
      using False w by simp
    moreover from True res
    have "s' = s\<lparr>metrics := metrics s @ replicate (nat nc - length (metrics s)) zero_metric\<rparr>" "r = 0" by simp_all
    ultimately show ?thesis using w by (metis zero_neq_neg_one)
  next
    case F: False
    have "s = s\<lparr>metrics := metrics s @ replicate 0 zero_metric\<rparr>" by simp
    with F res assms(2) show ?thesis by (auto intro: exI [of _ 0])
  qed
qed

lemma store_inv_metrics_reserve:
  assumes inv: "store_inv s" and r: "ext_metrics_reserve_locked env w s = Some (r, s')"
  shows "store_inv s'"
proof -
  from metrics_reserve_shape [OF r store_invD(7) [OF inv]]
  obtain k where k: "s' = s\<lparr>metrics := metrics s @ replicate k zero_metric\<rparr>"
    and f: "fits_i32 (metrics_cap s')" by blast
  have "\<forall>E \<in> set (entries s). id_ok s' E"
  proof
    fix E assume "E \<in> set (entries s)"
    then have "id_ok s E" by (rule store_invD(2) [OF inv])
    then show "id_ok s' E" unfolding id_ok_def k by simp
  qed
  moreover have "\<forall>i < length (metrics s'). next_id s' \<le> int i \<longrightarrow> metrics s' ! i = zero_metric"
    using store_invD(8) [OF inv] by (auto simp: k nth_append)
  ultimately show ?thesis
    using inv f unfolding store_inv_def by (simp add: k)
qed

lemma reserve_shape:
  assumes "ext_reserve_locked env w s = Some (r, s')"
  shows "(\<exists>c \<ge> secret_cap s. s' = s\<lparr>secret_cap := c\<rparr>) \<and> (r = 0 \<or> r = -1) \<and> (r = 0 \<longrightarrow> w \<le> secret_cap s')"
proof (cases "w \<le> secret_cap s")
  case True
  have "s = s\<lparr>secret_cap := secret_cap s\<rparr>" by simp
  with True assms show ?thesis by (auto simp: ext_reserve_locked_def intro: exI [of _ "secret_cap s"])
next
  case False
  have s: "s = s\<lparr>secret_cap := secret_cap s\<rparr>" by simp
  from False assms obtain nc where nc: "secrets_grow (if secret_cap s \<noteq> 0 then i32 (secret_cap s * 2) else 64) w = Some nc"
    and res: "(if env_realloc env nc then Some (0, s\<lparr>secret_cap := nc\<rparr>) else Some (-1, s)) = Some (r, s')"
    by (auto simp: ext_reserve_locked_def split: option.splits)
  have "w \<le> nc" by (rule secrets_grow_Some [OF nc])
  with False res s show ?thesis
    by (cases "env_realloc env nc") (auto intro: exI [of _ nc] exI [of _ "secret_cap s"])
qed

lemma store_inv_reserve:
  assumes "store_inv s" "ext_reserve_locked env w s = Some (r, s')"
  shows "store_inv s'"
  using reserve_shape [OF assms(2)] assms(1) by (auto simp: store_inv_def id_ok_def)

text \<open>Once the metrics have room for \<open>next_id\<close>, handing it out does not overflow.\<close>

lemma next_id_succ:
  assumes "0 < next_id s" "next_id s < metrics_cap s" "fits_i32 (metrics_cap s)"
  shows "i32 (next_id s + 1) = next_id s + 1"
  using assms by (intro i32_id) (auto simp: fits_i32_def)

lemma store_inv_append:
  assumes inv: "store_inv s" and E: "entry_ok E" "e_id E = next_id s"
    and new: "e_secret E \<notin> e_secret ` set (entries s)"
    and room: "next_id s < metrics_cap s" "int (length (entries s)) + 1 \<le> secret_cap s"
  shows "store_inv (s\<lparr>entries := entries s @ [E], next_id := i32 (next_id s + 1)\<rparr>)"
proof -
  have n: "i32 (next_id s + 1) = next_id s + 1"
    using next_id_succ [OF store_invD(6) [OF inv] room(1) store_invD(7) [OF inv]] .
  have old: "\<forall>F \<in> set (entries s). entry_ok F \<and> 0 < e_id F \<and> e_id F < next_id s \<and> e_id F < metrics_cap s"
    using store_invD(1,2) [OF inv] by (simp add: id_ok_def)
  then have "next_id s \<notin> e_id ` set (entries s)" by force
  then show ?thesis
    using inv E new room old unfolding store_inv_def id_ok_def by (auto simp: n)
qed

section \<open>Every operation keeps the invariant\<close>

lemma find_idx_nth:
  "ext_find_idx_locked s k = Some i \<Longrightarrow> i < length (entries s) \<and> e_secret (entries s ! i) = k"
  by (auto simp: ext_find_idx_locked_def dest: find_index_Some)

lemma find_idx_None: "ext_find_idx_locked s k = None \<longleftrightarrow> k \<notin> e_secret ` set (entries s)"
  by (auto simp: ext_find_idx_locked_def find_index_None)

lemma find_idx_by_id_nth:
  "ext_find_idx_by_id_locked s k = Some i \<Longrightarrow> i < length (entries s) \<and> e_id (entries s ! i) = k"
  by (auto simp: ext_find_idx_by_id_locked_def dest: find_index_Some)

lemma entry_at:
  assumes "store_inv s" "i < length (entries s)"
  shows "entry_ok (entries s ! i)" "id_ok s (entries s ! i)"
  using assms store_invD(1,2) by simp_all

text \<open>Under the invariant every entry has its identifier already.\<close>

lemma ensure_entry_id_inv:
  "store_inv s \<Longrightarrow> i < length (entries s) \<Longrightarrow> ensure_entry_id env i s = Some (0, s)"
  using entry_at(2) [of s i] by (simp add: ensure_entry_id_def id_ok_def)

lemma add_new_inv:
  assumes inv: "store_inv s" and len: "length secret = 16"
    and new: "ext_find_idx_locked s secret = None"
    and r1: "ext_reserve_locked env (int (length (entries s)) + 1) s = Some (0, s1)"
    and r2: "ext_metrics_reserve_locked env (next_id s1) s1 = Some (0, s2)"
    and E: "E = zero_entry\<lparr>e_secret := secret, e_hex := ext_secret16_to_hex secret,
              e_label := ext_sanitize_label label, e_id := next_id s2, e_enabled := b,
              e_created := n, e_updated := n, e_expires := x\<rparr>"
  shows "store_inv (s2\<lparr>entries := entries s2 @ [E], next_id := i32 (next_id s2 + 1)\<rparr>)"
proof -
  have i1: "store_inv s1" by (rule store_inv_reserve [OF inv r1])
  have i2: "store_inv s2" by (rule store_inv_metrics_reserve [OF i1 r2])
  from reserve_shape [OF r1] obtain c where c: "s1 = s\<lparr>secret_cap := c\<rparr>"
    "int (length (entries s)) + 1 \<le> c" by auto
  from metrics_reserve_shape [OF r2 store_invD(7) [OF i1]] obtain k where
    k: "s2 = s1\<lparr>metrics := metrics s1 @ replicate k zero_metric\<rparr>" "next_id s1 < metrics_cap s2" by auto
  have "entries s2 = entries s" "next_id s2 = next_id s1" "secret_cap s2 = c" by (simp_all add: c k)
  then show ?thesis
    using i2 k(2) c(2) new len E
    by (intro store_inv_append) (auto simp: entry_ok_def zero_entry_def find_idx_None)
qed

lemma add_locked_inv:
  assumes inv: "store_inv s" and len: "length secret = 16"
    and r: "ext_add_locked env secret label x b fe p s = Some (rc, s')"
  shows "store_inv s'"
proof (cases "ext_find_idx_locked s secret")
  case (Some i)
  then have i: "i < length (entries s)" by (simp add: find_idx_nth)
  let ?E = "entries s ! i"
  have e: "entry_ok ?E" using entry_at(1) [OF inv i] .
  have "fe \<Longrightarrow> s' = s" using r Some
    by (simp add: ext_add_locked_def Let_def ensure_entry_id_inv [OF inv i])
  moreover have "\<not> fe \<Longrightarrow> \<exists>E. Some (rc, s') = Some (if p
        then ext_persist_locked env (s\<lparr>entries := (entries s)[i := E]\<rparr>)
        else (0, s\<lparr>entries := (entries s)[i := E]\<rparr>))
      \<and> e_secret E = e_secret ?E \<and> e_id E = e_id ?E \<and> entry_ok E"
    unfolding r [symmetric] using Some e
    by (cases "label = []"; cases "0 \<le> x")
       (auto simp: ext_add_locked_def Let_def ensure_entry_id_inv [OF inv i] entry_ok_def)
  ultimately show ?thesis
    using inv store_inv_update_entry [OF inv i] by (cases fe) (auto split: if_splits dest: store_inv_persist [OF sym])
next
  case None
  from None r obtain r1 s1 where s1: "ext_reserve_locked env (int (length (entries s)) + 1) s = Some (r1, s1)"
    by (auto simp: ext_add_locked_def Let_def split: option.splits)
  have i1: "store_inv s1" by (rule store_inv_reserve [OF inv s1])
  show ?thesis
  proof (cases "r1 < 0")
    case True
    with None r s1 i1 show ?thesis by (auto simp: ext_add_locked_def)
  next
    case False
    then have r1: "r1 = 0" using reserve_shape [OF s1] by auto
    from None r s1 False obtain r2 s2 where s2: "ext_metrics_reserve_locked env (next_id s1) s1 = Some (r2, s2)"
      by (auto simp: ext_add_locked_def Let_def split: option.splits)
    have i2: "store_inv s2" by (rule store_inv_metrics_reserve [OF i1 s2])
    show ?thesis
    proof (cases "r2 < 0")
      case True
      with None r s1 s2 i2 False show ?thesis by (auto simp: ext_add_locked_def)
    next
      case F2: False
      then have r2: "r2 = 0" using metrics_reserve_shape [OF s2 store_invD(7) [OF i1]] by auto
      let ?add = "\<lambda>s2. s2\<lparr>entries := entries s2 @ [zero_entry\<lparr>e_secret := secret,
          e_hex := ext_secret16_to_hex secret, e_label := ext_sanitize_label label, e_id := next_id s2,
          e_enabled := b, e_created := env_now env, e_updated := env_now env,
          e_expires := (if x > 0 then x else 0)\<rparr>], next_id := i32 (next_id s2 + 1)\<rparr>"
      note new = add_new_inv [OF inv len None s1 [unfolded r1] s2 [unfolded r2] refl,
          where label = label and b = b and n = "env_now env" and x = "if x > 0 then x else 0"]
      from None r s1 s2 False F2
      have "Some (rc, s') = Some (if p then ext_persist_locked env (?add s2) else (0, ?add s2))"
        by (simp add: ext_add_locked_def Let_def)
      with new show ?thesis by (auto split: if_splits dest: store_inv_persist [OF sym])
    qed
  qed
qed

lemma cmd_add_inv: "store_inv s \<Longrightarrow> ext_cmd_add env hex l x b s = Some (rc, s') \<Longrightarrow> store_inv s'"
  by (auto simp: ext_cmd_add_def split: option.splits intro: add_locked_inv from_hex_length)

lemma set_ext_secret_inv:
  "store_inv s \<Longrightarrow> length secret = 16 \<Longrightarrow> tcp_rpcs_set_ext_secret env secret s = Some s' \<Longrightarrow> store_inv s'"
  by (auto simp: tcp_rpcs_set_ext_secret_def intro: add_locked_inv)

lemma cmd_remove_inv:
  assumes inv: "store_inv s" and r: "ext_cmd_remove env hex s = (rc, s')"
  shows "store_inv s'"
proof (cases "ext_secret16_from_hex hex")
  case None
  with r inv show ?thesis by (simp add: ext_cmd_remove_def)
next
  case k: (Some k)
  show ?thesis
  proof (cases "ext_find_idx_locked s k")
    case None
    with r inv k show ?thesis by (simp add: ext_cmd_remove_def)
  next
    case (Some i)
    then have i: "i < length (entries s)" by (simp add: find_idx_nth)
    then have ne: "entries s \<noteq> []" by auto
    have "store_inv (s\<lparr>entries := remove_swap i (entries s)\<rparr>)"
      using inv i ne store_invD(3,4) [OF inv]
      by (intro store_inv_subset_entries set_remove_swap_subset)
         (simp_all add: map_remove_swap distinct_remove_swap)
    with r k Some show ?thesis by (simp add: ext_cmd_remove_def)
  qed
qed

lemma cmd_set_enabled_inv:
  assumes inv: "store_inv s" and r: "ext_cmd_set_enabled env hex b s = (rc, s')"
  shows "store_inv s'"
proof (cases "ext_secret16_from_hex hex")
  case None
  with r inv show ?thesis by (simp add: ext_cmd_set_enabled_def)
next
  case k: (Some k)
  show ?thesis
  proof (cases "ext_find_idx_locked s k")
    case None
    with r inv k show ?thesis by (simp add: ext_cmd_set_enabled_def)
  next
    case (Some i)
    then have i: "i < length (entries s)" by (simp add: find_idx_nth)
    have "store_inv (s\<lparr>entries := (entries s)[i := (entries s ! i)\<lparr>e_enabled := b, e_updated := env_now env\<rparr>]\<rparr>)"
      using inv i entry_at(1) [OF inv i] by (intro store_inv_update_entry) (auto simp: entry_ok_def)
    with r k Some show ?thesis by (simp add: ext_cmd_set_enabled_def)
  qed
qed

lemma cmd_update_inv:
  assumes inv: "store_inv s" and r: "ext_cmd_update env hex l x b s = (rc, s')"
  shows "store_inv s'"
proof (cases "ext_secret16_from_hex hex")
  case None
  with r inv show ?thesis by (simp add: ext_cmd_update_def)
next
  case k: (Some k)
  show ?thesis
  proof (cases "ext_find_idx_locked s k")
    case None
    with r inv k show ?thesis by (simp add: ext_cmd_update_def)
  next
    case (Some i)
    then have i: "i < length (entries s)" by (simp add: find_idx_nth)
    let ?E = "entries s ! i"
    have "\<exists>E. ext_cmd_update env hex l x b s = ext_persist_locked env (s\<lparr>entries := (entries s)[i := E]\<rparr>)
        \<and> e_secret E = e_secret ?E \<and> e_id E = e_id ?E \<and> entry_ok E"
      using k Some entry_at(1) [OF inv i]
      by (cases l; cases x; cases b) (auto simp: ext_cmd_update_def Let_def entry_ok_def)
    then obtain E where "ext_cmd_update env hex l x b s = ext_persist_locked env (s\<lparr>entries := (entries s)[i := E]\<rparr>)"
        "e_secret E = e_secret ?E" "e_id E = e_id ?E" "entry_ok E" by blast
    with r store_inv_update_entry [OF inv i, of E] show ?thesis by simp
  qed
qed

lemma disable_loop_spec:
  "disable_loop now Es = (int (length Es), int (length (filter (expired now) Es)),
     map (\<lambda>E. if expired now E then E\<lparr>e_enabled := False, e_updated := now\<rparr> else E) Es)"
  by (induction Es) auto

lemma disable_map_keys:
  "map e_secret (map (\<lambda>E. if expired now E then E\<lparr>e_enabled := False, e_updated := now\<rparr> else E) Es) = map e_secret Es"
  "map e_id (map (\<lambda>E. if expired now E then E\<lparr>e_enabled := False, e_updated := now\<rparr> else E) Es) = map e_id Es"
  by auto

lemma cmd_disable_expired_inv:
  assumes inv: "store_inv s" and r: "ext_cmd_disable_expired env n0 s = (rc, c, d, n, s')"
  shows "store_inv s'"
proof -
  define now where "now = (if n0 \<le> 0 then env_now env else n0)"
  let ?Es = "map (\<lambda>E. if expired now E then E\<lparr>e_enabled := False, e_updated := now\<rparr> else E) (entries s)"
  from r have "ext_persist_locked env (s\<lparr>entries := ?Es\<rparr>) = (rc, s')"
    unfolding ext_cmd_disable_expired_def Let_def disable_loop_spec now_def [symmetric]
    by (auto split: prod.splits)
  moreover have "store_inv (s\<lparr>entries := ?Es\<rparr>)"
    using inv store_invD [OF inv] disable_map_keys [of now "entries s"]
    by (intro store_inv_entriesI) (auto simp: entry_ok_def id_ok_def simp del: map_map)
  ultimately show ?thesis by simp
qed

lemma store_inv_metric_write:
  assumes "store_inv s" "int k < next_id s" "k < length (metrics s)"
  shows "store_inv (s\<lparr>metrics := (metrics s)[k := m]\<rparr>)"
  using assms unfolding store_inv_def id_ok_def by (auto simp: nth_list_update)

lemma store_inv_counters [simp]:
  "store_inv (s\<lparr>total_in := x\<rparr>) = store_inv s" "store_inv (s\<lparr>total_out := x\<rparr>) = store_inv s"
  "store_inv (s\<lparr>total_conns := x\<rparr>) = store_inv s" "store_inv (s\<lparr>state_file := p\<rparr>) = store_inv s"
  by (rule store_inv_cong; simp)+

lemma bump_connections_inv: "store_inv s \<Longrightarrow> i < next_id s \<Longrightarrow> store_inv (bump_connections i s)"
  by (auto simp: bump_connections_def intro: store_inv_metric_write)

lemma touch_entry_inv: "store_inv s \<Longrightarrow> store_inv (touch_entry env ip i s)"
proof (cases "ext_find_idx_by_id_locked s i")
  case (Some k)
  assume inv: "store_inv s"
  from Some have k: "k < length (entries s)" by (simp add: find_idx_by_id_nth)
  show ?thesis
    using inv k entry_at(1) [OF inv k] Some unfolding touch_entry_def Let_def
    by (simp only: option.case) (rule store_inv_update_entry, auto simp: entry_ok_def)
qed (simp add: touch_entry_def)

lemma attach_inv:
  "store_inv s \<Longrightarrow> i < next_id s \<Longrightarrow> ext_metrics_attach_secret_to_connection env ip i c s = (c', s') \<Longrightarrow> store_inv s'"
  by (auto simp: ext_metrics_attach_secret_to_connection_def Let_def
      intro!: touch_entry_inv bump_connections_inv split: if_splits)

lemma add_bytes_inv:
  assumes "store_inv s" "0 < i" "i < next_id s" "i < metrics_cap s"
  shows "store_inv (add_bytes_in i n s)" "store_inv (add_bytes_out i n s)"
  using assms store_inv_metric_write [of "s\<lparr>total_in := _\<rparr>" "nat i"]
    store_inv_metric_write [of "s\<lparr>total_out := _\<rparr>" "nat i"]
  by (simp_all add: add_bytes_in_def add_bytes_out_def)

lemma add_bytes_frame [simp]:
  "next_id (add_bytes_in i n s) = next_id s" "length (metrics (add_bytes_in i n s)) = length (metrics s)"
  "entries (add_bytes_in i n s) = entries s" "next_id (add_bytes_out i n s) = next_id s"
  "length (metrics (add_bytes_out i n s)) = length (metrics s)" "entries (add_bytes_out i n s) = entries s"
  by (simp_all add: add_bytes_in_def add_bytes_out_def)

lemma note_traffic_inv:
  assumes "store_inv s" "extra_int2 c < next_id s"
  shows "store_inv (tcp_rpcs_note_connection_traffic c bi bo s)"
  using assms by (auto simp: tcp_rpcs_note_connection_traffic_def Let_def intro!: add_bytes_inv)

section \<open>Identifiers are never handed out twice\<close>

definition id_pairs :: "secret_store \<Rightarrow> (int \<times> byte list) set" where
  "id_pairs s = (\<lambda>E. (e_id E, e_secret E)) ` set (entries s)"

text \<open>
  What one operation can do to the identifiers: drop some, or hand out the next one; \<open>next_id\<close> and
  the metrics only grow.
\<close>

definition store_evolves :: "secret_store \<Rightarrow> secret_store \<Rightarrow> bool" where
  "store_evolves s s' \<longleftrightarrow> next_id s \<le> next_id s' \<and> metrics_cap s \<le> metrics_cap s'
     \<and> (id_pairs s' \<subseteq> id_pairs s
        \<or> next_id s < next_id s' \<and> (\<exists>k. id_pairs s' \<subseteq> insert (next_id s, k) (id_pairs s)))"

lemma store_evolvesI:
  "next_id s' = next_id s \<Longrightarrow> metrics_cap s \<le> metrics_cap s' \<Longrightarrow> id_pairs s' \<subseteq> id_pairs s \<Longrightarrow> store_evolves s s'"
  by (simp add: store_evolves_def)

lemma store_evolves_refl [simp]: "store_evolves s s"
  by (simp add: store_evolves_def)

lemma id_pairs_persist: "ext_persist_locked env s = (r, s') \<Longrightarrow> id_pairs s' = id_pairs s"
  by (simp add: id_pairs_def persist_frame)

lemma evolves_persist:
  "store_evolves s t \<Longrightarrow> ext_persist_locked env t = (r, t') \<Longrightarrow> store_evolves s t'"
  by (simp add: store_evolves_def id_pairs_persist persist_frame)

lemma id_pairs_update:
  assumes "i < length (entries s)" "e_secret E = e_secret (entries s ! i)" "e_id E = e_id (entries s ! i)"
  shows "id_pairs (s\<lparr>entries := (entries s)[i := E]\<rparr>) = id_pairs s"
proof -
  have "map (\<lambda>E. (e_id E, e_secret E)) ((entries s)[i := E]) = map (\<lambda>E. (e_id E, e_secret E)) (entries s)"
    using assms by (intro map_update_same) simp_all
  then have "set (map (\<lambda>E. (e_id E, e_secret E)) ((entries s)[i := E]))
      = set (map (\<lambda>E. (e_id E, e_secret E)) (entries s))" by (rule arg_cong)
  then show ?thesis unfolding set_map by (simp add: id_pairs_def)
qed

lemma evolves_update:
  assumes "i < length (entries s)" "e_secret E = e_secret (entries s ! i)" "e_id E = e_id (entries s ! i)"
  shows "store_evolves s (s\<lparr>entries := (entries s)[i := E]\<rparr>)"
  by (rule store_evolvesI) (simp_all add: id_pairs_update [OF assms])

lemma evolves_reserve:
  "ext_reserve_locked env w s = Some (r, s') \<Longrightarrow> store_evolves s s' \<and> next_id s' = next_id s \<and> id_pairs s' = id_pairs s"
  using reserve_shape [of env w s r s'] by (auto simp: store_evolves_def id_pairs_def)

lemma evolves_metrics_reserve:
  "ext_metrics_reserve_locked env w s = Some (r, s') \<Longrightarrow> store_inv s \<Longrightarrow>
   store_evolves s s' \<and> next_id s' = next_id s \<and> id_pairs s' = id_pairs s \<and> metrics_cap s \<le> metrics_cap s'"
  using metrics_reserve_shape [of env w s r s'] store_invD(7) [of s]
  by (auto simp: store_evolves_def id_pairs_def)

lemma evolves_append:
  assumes "store_inv s" "next_id s < metrics_cap s" "e_id E = next_id s"
  shows "store_evolves s (s\<lparr>entries := entries s @ [E], next_id := i32 (next_id s + 1)\<rparr>)"
proof -
  have "i32 (next_id s + 1) = next_id s + 1"
    using next_id_succ assms store_invD(6,7) by blast
  with assms show ?thesis by (auto simp: store_evolves_def id_pairs_def)
qed

lemma store_evolves_trans_same:
  assumes "store_evolves s t" "next_id t = next_id s" "id_pairs t = id_pairs s" "store_evolves t u"
  shows "store_evolves s u"
  using assms by (auto simp: store_evolves_def)

lemma add_locked_evolves:
  assumes inv: "store_inv s"
    and r: "ext_add_locked env secret label x b fe p s = Some (rc, s')"
  shows "store_evolves s s'"
proof (cases "ext_find_idx_locked s secret")
  case (Some i)
  then have i: "i < length (entries s)" by (simp add: find_idx_nth)
  have "fe \<Longrightarrow> s' = s" using r Some
    by (simp add: ext_add_locked_def Let_def ensure_entry_id_inv [OF inv i])
  moreover have "\<not> fe \<Longrightarrow> \<exists>E. Some (rc, s') = Some (if p
        then ext_persist_locked env (s\<lparr>entries := (entries s)[i := E]\<rparr>)
        else (0, s\<lparr>entries := (entries s)[i := E]\<rparr>))
      \<and> e_secret E = e_secret (entries s ! i) \<and> e_id E = e_id (entries s ! i)"
    unfolding r [symmetric] using Some
    by (cases "label = []"; cases "0 \<le> x")
       (auto simp: ext_add_locked_def Let_def ensure_entry_id_inv [OF inv i])
  ultimately show ?thesis
    using evolves_update [OF i] evolves_persist [OF evolves_update [OF i] sym]
    by (cases fe; cases p) auto
next
  case None
  from None r obtain r1 s1 where s1: "ext_reserve_locked env (int (length (entries s)) + 1) s = Some (r1, s1)"
    by (auto simp: ext_add_locked_def Let_def split: option.splits)
  have i1: "store_inv s1" by (rule store_inv_reserve [OF inv s1])
  note e1 = evolves_reserve [OF s1]
  show ?thesis
  proof (cases "r1 < 0")
    case True
    with None r s1 e1 show ?thesis by (auto simp: ext_add_locked_def)
  next
    case False
    from None r s1 False obtain r2 s2 where s2: "ext_metrics_reserve_locked env (next_id s1) s1 = Some (r2, s2)"
      by (auto simp: ext_add_locked_def Let_def split: option.splits)
    have i2: "store_inv s2" by (rule store_inv_metrics_reserve [OF i1 s2])
    note e2 = evolves_metrics_reserve [OF s2 i1]
    have e12: "store_evolves s s2" using e1 e2 by (blast intro: store_evolves_trans_same)
    show ?thesis
    proof (cases "r2 < 0")
      case True
      with None r s1 s2 e12 False show ?thesis by (auto simp: ext_add_locked_def)
    next
      case F2: False
      then have "next_id s2 < metrics_cap s2"
        using metrics_reserve_shape [OF s2 store_invD(7) [OF i1]] e2 by auto
      then have new: "e_id E = next_id s2 \<Longrightarrow>
          store_evolves s (s2\<lparr>entries := entries s2 @ [E], next_id := i32 (next_id s2 + 1)\<rparr>)" for E
        using store_evolves_trans_same [OF e12 _ _ evolves_append [OF i2]] e1 e2 by simp
      let ?add = "\<lambda>s2. s2\<lparr>entries := entries s2 @ [zero_entry\<lparr>e_secret := secret,
          e_hex := ext_secret16_to_hex secret, e_label := ext_sanitize_label label, e_id := next_id s2,
          e_enabled := b, e_created := env_now env, e_updated := env_now env,
          e_expires := (if x > 0 then x else 0)\<rparr>], next_id := i32 (next_id s2 + 1)\<rparr>"
      from None r s1 s2 False F2
      have "Some (rc, s') = Some (if p then ext_persist_locked env (?add s2) else (0, ?add s2))"
        by (simp add: ext_add_locked_def Let_def)
      moreover have "store_evolves s (?add s2)" by (rule new) simp
      ultimately show ?thesis by (cases p) (auto simp only: if_True if_False option.inject prod.inject
          intro: evolves_persist dest: sym)
    qed
  qed
qed

lemma cmd_add_evolves: "store_inv s \<Longrightarrow> ext_cmd_add env hex l x b s = Some (rc, s') \<Longrightarrow> store_evolves s s'"
  by (auto simp: ext_cmd_add_def split: option.splits intro: add_locked_evolves)

lemma cmd_remove_evolves: "ext_cmd_remove env hex s = (rc, s') \<Longrightarrow> store_evolves s s'"
proof -
  assume r: "ext_cmd_remove env hex s = (rc, s')"
  have "store_evolves s (s\<lparr>entries := remove_swap i (entries s)\<rparr>)" if "i < length (entries s)" for i
  proof -
    from that have "entries s \<noteq> []" by auto
    from set_remove_swap_subset [OF this, of i] show ?thesis
      by (intro store_evolvesI) (auto simp: id_pairs_def)
  qed
  then show ?thesis
    using r by (auto simp: ext_cmd_remove_def split: option.splits intro: evolves_persist dest: find_idx_nth)
qed

lemma cmd_set_enabled_evolves:
  assumes r: "ext_cmd_set_enabled env hex b s = (rc, s')"
  shows "store_evolves s s'"
proof (cases "\<exists>k i. ext_secret16_from_hex hex = Some k \<and> ext_find_idx_locked s k = Some i")
  case True
  then obtain k i where ki: "ext_secret16_from_hex hex = Some k" "ext_find_idx_locked s k = Some i" by blast
  let ?E = "(entries s ! i)\<lparr>e_enabled := b, e_updated := env_now env\<rparr>"
  from r ki have "ext_persist_locked env (s\<lparr>entries := (entries s)[i := ?E]\<rparr>) = (rc, s')"
    by (simp add: ext_cmd_set_enabled_def)
  moreover have "store_evolves s (s\<lparr>entries := (entries s)[i := ?E]\<rparr>)"
    using find_idx_nth [OF ki(2)] by (intro evolves_update) simp_all
  ultimately show ?thesis by (blast intro: evolves_persist)
next
  case False
  with r show ?thesis by (auto simp: ext_cmd_set_enabled_def split: option.splits)
qed

lemma cmd_update_evolves:
  assumes r: "ext_cmd_update env hex l x b s = (rc, s')"
  shows "store_evolves s s'"
proof (cases "\<exists>k i. ext_secret16_from_hex hex = Some k \<and> ext_find_idx_locked s k = Some i")
  case True
  then obtain k i where ki: "ext_secret16_from_hex hex = Some k" "ext_find_idx_locked s k = Some i" by blast
  have "\<exists>E. ext_cmd_update env hex l x b s = ext_persist_locked env (s\<lparr>entries := (entries s)[i := E]\<rparr>)
      \<and> e_secret E = e_secret (entries s ! i) \<and> e_id E = e_id (entries s ! i)"
    using ki by (cases l; cases x; cases b) (auto simp: ext_cmd_update_def Let_def)
  then obtain E where E: "ext_persist_locked env (s\<lparr>entries := (entries s)[i := E]\<rparr>) = (rc, s')"
      "e_secret E = e_secret (entries s ! i)" "e_id E = e_id (entries s ! i)" using r by metis
  moreover have "store_evolves s (s\<lparr>entries := (entries s)[i := E]\<rparr>)"
    using find_idx_nth [OF ki(2)] E(2,3) by (intro evolves_update) simp_all
  ultimately show ?thesis by (blast intro: evolves_persist)
next
  case False
  with r show ?thesis by (auto simp: ext_cmd_update_def split: option.splits)
qed

lemma cmd_disable_expired_evolves:
  assumes r: "ext_cmd_disable_expired env n0 s = (rc, c, d, n, s')"
  shows "store_evolves s s'"
proof -
  define now where "now = (if n0 \<le> 0 then env_now env else n0)"
  let ?Es = "map (\<lambda>E. if expired now E then E\<lparr>e_enabled := False, e_updated := now\<rparr> else E) (entries s)"
  from r have "ext_persist_locked env (s\<lparr>entries := ?Es\<rparr>) = (rc, s')"
    unfolding ext_cmd_disable_expired_def Let_def disable_loop_spec now_def [symmetric]
    by (auto split: prod.splits)
  moreover have "map (\<lambda>E. (e_id E, e_secret E)) ?Es = map (\<lambda>E. (e_id E, e_secret E)) (entries s)"
    by simp
  then have "set (map (\<lambda>E. (e_id E, e_secret E)) ?Es) = set (map (\<lambda>E. (e_id E, e_secret E)) (entries s))"
    by (rule arg_cong)
  then have "id_pairs (s\<lparr>entries := ?Es\<rparr>) = id_pairs s"
    unfolding set_map [of "\<lambda>E. (e_id E, e_secret E)"] by (simp add: id_pairs_def)
  then have "store_evolves s (s\<lparr>entries := ?Es\<rparr>)" by (intro store_evolvesI) simp_all
  ultimately show ?thesis by (blast intro: evolves_persist)
qed

end
