(* ===== verification/Secret_Runs.thy ===== *)
theory Secret_Runs
  imports Secret_Invariant
begin

text \<open>
  Runs of the process over the secret store: administration commands, handshakes and traffic in any
  order, each atomic under \<open>ext_secret_lock\<close>.  A handshake takes a snapshot of the active secrets,
  releases the lock, tries the secrets of its copy, and attaches the one that matched; commands of
  the administrator can come between the two.  The state therefore holds, for each connection, its
  last snapshot and the secret it matched (the local variables \<open>active_secrets\<close> and
  \<open>matched_secret\<close> of \<open>tcp_rpcs_compact_parse_execute\<close>) beside what the store keeps.
\<close>

section \<open>The commands of the administrator\<close>

datatype store_cmd =
    Cmd_add string string int bool
  | Cmd_remove string
  | Cmd_set_enabled string bool
  | Cmd_update string "string option" "int option" "bool option"
  | Cmd_disable_expired int
  | Cmd_flush

fun run_cmd :: "host_env \<Rightarrow> store_cmd \<Rightarrow> secret_store \<Rightarrow> secret_store option" where
  "run_cmd env (Cmd_add hex l x b) s = map_option snd (ext_cmd_add env hex l x b s)"
| "run_cmd env (Cmd_remove hex) s = Some (snd (ext_cmd_remove env hex s))"
| "run_cmd env (Cmd_set_enabled hex b) s = Some (snd (ext_cmd_set_enabled env hex b s))"
| "run_cmd env (Cmd_update hex l x b) s = Some (snd (ext_cmd_update env hex l x b s))"
| "run_cmd env (Cmd_disable_expired n) s = Some (snd (snd (snd (snd (ext_cmd_disable_expired env n s)))))"
| "run_cmd env Cmd_flush s = Some (snd (tcp_rpcs_flush_secrets_state env s))"

lemma disable_expired_state:
  "store_inv s \<Longrightarrow> store_inv (snd (snd (snd (snd (ext_cmd_disable_expired env n s)))))"
  "store_evolves s (snd (snd (snd (snd (ext_cmd_disable_expired env n s)))))"
  by (cases "ext_cmd_disable_expired env n s" rule: prod_cases5,
      auto dest: cmd_disable_expired_inv cmd_disable_expired_evolves)+

lemma run_cmd_inv: "store_inv s \<Longrightarrow> run_cmd env cmd s = Some s' \<Longrightarrow> store_inv s'"
  by (cases cmd)
     (auto simp: tcp_rpcs_flush_secrets_state_def
       intro: cmd_add_inv cmd_remove_inv [OF _ surjective_pairing] cmd_set_enabled_inv [OF _ surjective_pairing]
         cmd_update_inv [OF _ surjective_pairing] disable_expired_state(1)
         store_inv_persist [OF surjective_pairing, THEN iffD2])

lemma run_cmd_evolves: "store_inv s \<Longrightarrow> run_cmd env cmd s = Some s' \<Longrightarrow> store_evolves s s'"
  by (cases cmd)
     (auto simp: tcp_rpcs_flush_secrets_state_def
       intro: cmd_add_evolves cmd_remove_evolves [OF surjective_pairing]
         cmd_set_enabled_evolves [OF surjective_pairing] cmd_update_evolves [OF surjective_pairing]
         disable_expired_state(2)
         evolves_persist [OF store_evolves_refl surjective_pairing])

section \<open>The process\<close>

record proxy_sys =
  ps_store :: secret_store
  ps_snap :: "nat \<Rightarrow> (byte list \<times> int) list"
  ps_conn :: "nat \<Rightarrow> conn_acct"
  ps_match :: "nat \<Rightarrow> byte list option"

definition accepted_conn :: "u32 \<Rightarrow> byte list \<Rightarrow> conn_acct" where
  "accepted_conn ip ip6 = \<lparr>extra_int2 = 0, remote_ip = ip, remote_ipv6 = ip6\<rparr>"

text \<open>One atomic step.  \<open>env\<close> is the host at that moment; connections are numbered.\<close>

inductive proxy_step :: "proxy_sys \<Rightarrow> proxy_sys \<Rightarrow> bool" where
  command: "run_cmd env cmd (ps_store p) = Some s' \<Longrightarrow> proxy_step p (p\<lparr>ps_store := s'\<rparr>)"
| accept: "proxy_step p (p\<lparr>ps_conn := (ps_conn p)(c := accepted_conn ip ip6),
     ps_snap := (ps_snap p)(c := []), ps_match := (ps_match p)(c := None)\<rparr>)"
| snapshot: "ext_snapshot_active_secrets env now (ps_store p) = (0, l) \<Longrightarrow>
     proxy_step p (p\<lparr>ps_snap := (ps_snap p)(c := l)\<rparr>)"
| attach: "(k, i) \<in> set (ps_snap p c) \<Longrightarrow>
     ext_metrics_attach_secret_to_connection env ip i (ps_conn p c) (ps_store p) = (d, s') \<Longrightarrow>
     proxy_step p (p\<lparr>ps_store := s', ps_conn := (ps_conn p)(c := d), ps_match := (ps_match p)(c := Some k)\<rparr>)"
| traffic: "s' = tcp_rpcs_note_connection_traffic (ps_conn p c) bi bo (ps_store p) \<Longrightarrow>
     proxy_step p (p\<lparr>ps_store := s'\<rparr>)"

definition start_sys :: "secret_store \<Rightarrow> proxy_sys" where
  "start_sys s = \<lparr>ps_store = s, ps_snap = (\<lambda>_. []), ps_conn = (\<lambda>_. accepted_conn 0 (replicate 16 0)),
     ps_match = (\<lambda>_. None)\<rparr>"

inductive proxy_reach :: "secret_store \<Rightarrow> proxy_sys \<Rightarrow> bool" for s0 where
  start: "proxy_reach s0 (start_sys s0)"
| step: "proxy_reach s0 p \<Longrightarrow> proxy_step p q \<Longrightarrow> proxy_reach s0 q"

inductive_cases proxy_stepE: "proxy_step p q"

section \<open>Effect of attaching and of traffic on the store\<close>

lemma bump_connections_frame [simp]:
  "entries (bump_connections i s) = entries s" "next_id (bump_connections i s) = next_id s"
  "length (metrics (bump_connections i s)) = length (metrics s)"
  by (simp_all add: bump_connections_def)

lemma evolves_bump: "store_evolves s (bump_connections i s)"
  by (rule store_evolvesI) (simp_all add: id_pairs_def)

lemma evolves_touch: "store_evolves s (touch_entry env ip i s) \<and> next_id (touch_entry env ip i s) = next_id s
    \<and> id_pairs (touch_entry env ip i s) = id_pairs s \<and> metrics (touch_entry env ip i s) = metrics s"
proof (cases "ext_find_idx_by_id_locked s i")
  case (Some k)
  then have k: "k < length (entries s)" by (simp add: find_idx_by_id_nth)
  let ?E = "entries s ! k"
  have "\<exists>E. touch_entry env ip i s = s\<lparr>entries := (entries s)[k := E]\<rparr>
      \<and> e_secret E = e_secret ?E \<and> e_id E = e_id ?E"
    using Some by (cases "ip = []") (auto simp: touch_entry_def Let_def)
  then obtain E where "touch_entry env ip i s = s\<lparr>entries := (entries s)[k := E]\<rparr>"
      "e_secret E = e_secret ?E" "e_id E = e_id ?E" by blast
  with evolves_update [OF k] id_pairs_update [OF k] show ?thesis by simp
qed (simp add: touch_entry_def)

text \<open>Attaching neither adds an identifier nor drops one, and gives the connection that identifier.\<close>

lemma attach_effect:
  assumes "ext_metrics_attach_secret_to_connection env ip i c s = (d, s')" "0 < i"
  shows "next_id s' = next_id s \<and> id_pairs s' = id_pairs s \<and> length (metrics s') = length (metrics s)
    \<and> extra_int2 d = i"
proof -
  let ?t = "touch_entry env ip i (bump_connections i s)"
  have b: "id_pairs (bump_connections i s) = id_pairs s" by (simp add: id_pairs_def)
  show ?thesis
  proof (cases "extra_int2 c = i")
    case True
    with assms show ?thesis by (simp add: ext_metrics_attach_secret_to_connection_def)
  next
    case False
    with assms have "d = c\<lparr>extra_int2 := i\<rparr>" "s' = ?t\<lparr>total_conns := i64 (total_conns ?t + 1)\<rparr>"
      by (simp_all add: ext_metrics_attach_secret_to_connection_def Let_def)
    moreover have "id_pairs (?t\<lparr>total_conns := x\<rparr>) = id_pairs ?t" for x by (simp add: id_pairs_def)
    ultimately show ?thesis using evolves_touch [of "bump_connections i s" env ip i] b by simp
  qed
qed

lemma note_effect:
  "next_id (tcp_rpcs_note_connection_traffic c bi bo s) = next_id s
   \<and> id_pairs (tcp_rpcs_note_connection_traffic c bi bo s) = id_pairs s
   \<and> length (metrics (tcp_rpcs_note_connection_traffic c bi bo s)) = length (metrics s)"
  by (simp add: tcp_rpcs_note_connection_traffic_def Let_def id_pairs_def)

section \<open>Who owns an identifier\<close>

text \<open>
  \<open>own\<close> remembers for every identifier handed out the secret that got it.  The store, the snapshots
  and the connections all agree with it.
\<close>

definition owned :: "(int \<Rightarrow> byte list) \<Rightarrow> proxy_sys \<Rightarrow> bool" where
  "owned own p \<longleftrightarrow>
     store_inv (ps_store p)
     \<and> (\<forall>(i, k) \<in> id_pairs (ps_store p). own i = k)
     \<and> (\<forall>c. \<forall>(k, i) \<in> set (ps_snap p c). 0 < i \<and> i < next_id (ps_store p) \<and> i < metrics_cap (ps_store p) \<and> own i = k)
     \<and> (\<forall>c. extra_int2 (ps_conn p c) = 0 \<or>
          0 < extra_int2 (ps_conn p c) \<and> extra_int2 (ps_conn p c) < next_id (ps_store p)
          \<and> extra_int2 (ps_conn p c) < metrics_cap (ps_store p)
          \<and> ps_match p c = Some (own (extra_int2 (ps_conn p c))))"

lemma ownedD:
  assumes "owned own p"
  shows "store_inv (ps_store p)" "(i, k) \<in> id_pairs (ps_store p) \<Longrightarrow> own i = k"
    "(k, i) \<in> set (ps_snap p c) \<Longrightarrow> 0 < i \<and> i < next_id (ps_store p) \<and> i < metrics_cap (ps_store p) \<and> own i = k"
    "extra_int2 (ps_conn p c) \<noteq> 0 \<Longrightarrow> 0 < extra_int2 (ps_conn p c) \<and> extra_int2 (ps_conn p c) < next_id (ps_store p)
      \<and> extra_int2 (ps_conn p c) < metrics_cap (ps_store p) \<and> ps_match p c = Some (own (extra_int2 (ps_conn p c)))"
  using assms by (auto simp: owned_def)

lemma owned_conn_bound: "owned own p \<Longrightarrow> extra_int2 (ps_conn p c) < next_id (ps_store p)"
  using ownedD(4) [of own p c] store_invD(6) [OF ownedD(1), of own p] by fastforce

lemma owned_start:
  assumes "store_inv s"
  shows "owned (\<lambda>i. e_secret (hd (filter (\<lambda>E. e_id E = i) (entries s)))) (start_sys s)"
proof -
  have "e_secret (hd (filter (\<lambda>F. e_id F = e_id E) (entries s))) = e_secret E" if "E \<in> set (entries s)" for E
  proof -
    have "filter (\<lambda>F. e_id F = e_id E) (entries s) \<noteq> []" using that by (auto simp: filter_empty_conv)
    then have "hd (filter (\<lambda>F. e_id F = e_id E) (entries s)) \<in> set (filter (\<lambda>F. e_id F = e_id E) (entries s))"
      by (rule hd_in_set)
    then have "hd (filter (\<lambda>F. e_id F = e_id E) (entries s)) = E"
      using that store_invD(4) [OF assms] by (auto simp: distinct_map inj_on_def)
    then show ?thesis by simp
  qed
  then show ?thesis using assms by (auto simp: owned_def start_sys_def accepted_conn_def id_pairs_def)
qed

lemma id_pairs_bound: "store_inv s \<Longrightarrow> (i, k) \<in> id_pairs s \<Longrightarrow> 0 < i \<and> i < next_id s \<and> i < metrics_cap s"
  by (auto simp: id_pairs_def id_ok_def dest!: store_invD(2))

lemma owned_command:
  assumes o: "owned own p" and r: "run_cmd env cmd (ps_store p) = Some s'"
  shows "\<exists>own'. owned own' (p\<lparr>ps_store := s'\<rparr>)"
proof -
  note inv = ownedD(1) [OF o]
  have inv': "store_inv s'" by (rule run_cmd_inv [OF inv r])
  from run_cmd_evolves [OF inv r] have n: "next_id (ps_store p) \<le> next_id s'" "metrics_cap (ps_store p) \<le> metrics_cap s'"
    and c: "id_pairs s' \<subseteq> id_pairs (ps_store p)
       \<or> next_id (ps_store p) < next_id s' \<and> (\<exists>k. id_pairs s' \<subseteq> insert (next_id (ps_store p), k) (id_pairs (ps_store p)))"
    by (auto simp: store_evolves_def)
  from c obtain k where k: "id_pairs s' \<subseteq> insert (next_id (ps_store p), k) (id_pairs (ps_store p))" by blast
  define own' where "own' = own(next_id (ps_store p) := k)"
  have "own' i = j" if "(i, j) \<in> id_pairs s'" for i j
  proof -
    from that k consider "i = next_id (ps_store p)" "j = k" | "(i, j) \<in> id_pairs (ps_store p)" by blast
    then show ?thesis
    proof cases
      case 2
      with id_pairs_bound [OF inv 2] ownedD(2) [OF o 2] show ?thesis by (simp add: own'_def)
    qed (simp add: own'_def)
  qed
  moreover have "own' i = own i" if "i < next_id (ps_store p)" for i using that by (simp add: own'_def)
  then have "\<forall>c. \<forall>(k, i) \<in> set (ps_snap p c). 0 < i \<and> i < next_id s' \<and> i < metrics_cap s' \<and> own' i = k"
    using ownedD(3) [OF o] n by fastforce
  moreover have "\<forall>c. extra_int2 (ps_conn p c) = 0 \<or>
          0 < extra_int2 (ps_conn p c) \<and> extra_int2 (ps_conn p c) < next_id s'
          \<and> extra_int2 (ps_conn p c) < metrics_cap s'
          \<and> ps_match p c = Some (own' (extra_int2 (ps_conn p c)))"
  proof
    fix c
    show "extra_int2 (ps_conn p c) = 0 \<or>
          0 < extra_int2 (ps_conn p c) \<and> extra_int2 (ps_conn p c) < next_id s'
          \<and> extra_int2 (ps_conn p c) < metrics_cap s'
          \<and> ps_match p c = Some (own' (extra_int2 (ps_conn p c)))"
      using ownedD(4) [OF o, of c] n by (cases "extra_int2 (ps_conn p c) = 0") (auto simp: own'_def)
  qed
  ultimately have "owned own' (p\<lparr>ps_store := s'\<rparr>)"
    using inv' unfolding owned_def by auto
  then show ?thesis by blast
qed

lemma snapshot_pairs:
  assumes "ext_snapshot_active_secrets env now s = (r, l)" "(k, i) \<in> set l"
  shows "(i, k) \<in> id_pairs s"
  using assms by (auto simp: ext_snapshot_active_secrets_def id_pairs_def Let_def split: if_splits)

lemma owned_step:
  assumes "proxy_step p q" "owned own p"
  shows "\<exists>own'. owned own' q"
  using assms
proof (induction rule: proxy_step.induct)
  case (command env cmd p s')
  then show ?case by (rule owned_command [rotated])
next
  case (accept p c ip ip6)
  then have "owned own (p\<lparr>ps_conn := (ps_conn p)(c := accepted_conn ip ip6),
     ps_snap := (ps_snap p)(c := []), ps_match := (ps_match p)(c := None)\<rparr>)"
    by (auto simp: owned_def accepted_conn_def)
  then show ?case by blast
next
  case (snapshot env now p l c)
  have "0 < i \<and> i < next_id (ps_store p) \<and> i < metrics_cap (ps_store p) \<and> own i = k" if "(k, i) \<in> set l" for k i
    using id_pairs_bound [OF ownedD(1) [OF snapshot.prems]] snapshot_pairs [OF snapshot.hyps that]
      ownedD(2) [OF snapshot.prems] by blast
  then have "owned own (p\<lparr>ps_snap := (ps_snap p)(c := l)\<rparr>)"
    using snapshot.prems by (auto simp: owned_def)
  then show ?case by blast
next
  case (attach k i p c env ip d s')
  note b = ownedD(3) [OF attach.prems attach.hyps(1)]
  from b have "store_inv s'" by (intro attach_inv [OF ownedD(1) [OF attach.prems] _ attach.hyps(2)]) simp
  with attach_effect [OF attach.hyps(2)] b attach.prems
  have "owned own (p\<lparr>ps_store := s', ps_conn := (ps_conn p)(c := d), ps_match := (ps_match p)(c := Some k)\<rparr>)"
    by (auto simp: owned_def)
  then show ?case by blast
next
  case (traffic s' p c bi bo)
  have "store_inv s'" unfolding traffic.hyps
    using ownedD(1) [OF traffic.prems] owned_conn_bound [OF traffic.prems] by (rule note_traffic_inv)
  with note_effect [of "ps_conn p c" bi bo "ps_store p"] traffic
  have "owned own (p\<lparr>ps_store := s'\<rparr>)" by (auto simp: owned_def)
  then show ?case by blast
qed

lemma reach_owned: "proxy_reach s0 p \<Longrightarrow> store_inv s0 \<Longrightarrow> \<exists>own. owned own p"
proof (induction rule: proxy_reach.induct)
  case start
  then show ?case using owned_start by blast
next
  case (step p q)
  then show ?case using owned_step by blast
qed

section \<open>Runs and identifiers\<close>

text \<open>What a run does to the pairs of identifier and secret: below the old \<open>next_id\<close> nothing appears.\<close>

lemma step_pairs:
  assumes "proxy_step p q" "owned own p"
  shows "next_id (ps_store p) \<le> next_id (ps_store q)
    \<and> (\<forall>(i, k) \<in> id_pairs (ps_store q). i < next_id (ps_store p) \<longrightarrow> (i, k) \<in> id_pairs (ps_store p))"
  using assms
proof (induction rule: proxy_step.induct)
  case (command env cmd p s')
  from run_cmd_evolves [OF ownedD(1) [OF command.prems] command.hyps] show ?case
    by (auto simp: store_evolves_def)
next
  case (attach k i p c env ip d s')
  have "0 < i" using ownedD(3) [OF attach.prems attach.hyps(1)] by simp
  from attach_effect [OF attach.hyps(2) this] show ?case by auto
next
  case (traffic s' p c bi bo)
  with note_effect [of "ps_conn p c" bi bo "ps_store p"] show ?case by auto
qed auto

lemma steps_pairs:
  assumes "proxy_step\<^sup>*\<^sup>* p q" "owned own p"
  shows "(\<exists>own'. owned own' q) \<and> next_id (ps_store p) \<le> next_id (ps_store q)
    \<and> (\<forall>(i, k) \<in> id_pairs (ps_store q). i < next_id (ps_store p) \<longrightarrow> (i, k) \<in> id_pairs (ps_store p))"
  using assms(1)
proof (induction rule: rtranclp_induct)
  case base
  then show ?case using assms(2) by blast
next
  case (step q r)
  then obtain own' where o: "owned own' q" by blast
  from step_pairs [OF step.hyps(2) o] owned_step [OF step.hyps(2) o] step.IH show ?case by fastforce
qed

lemma reach_steps: "proxy_reach s0 p \<Longrightarrow> proxy_step\<^sup>*\<^sup>* p q \<Longrightarrow> proxy_reach s0 q"
  by (rotate_tac, induction rule: rtranclp_induct) (auto intro: proxy_reach.step)

section \<open>Conservation of the counters\<close>

text \<open>
  The three totals are, modulo \<open>2 ^ 64\<close>, the sums over all metrics slots: those of the secrets in the
  store and those of the secrets removed since the process started.
\<close>

definition total_of :: "(secret_metric \<Rightarrow> int) \<Rightarrow> secret_store \<Rightarrow> int" where
  "total_of f s = i64 (sum_list (map f (metrics s)))"

definition totals_agree :: "secret_store \<Rightarrow> bool" where
  "totals_agree s \<longleftrightarrow> i64 (total_in s) = total_of m_in s \<and> i64 (total_out s) = total_of m_out s
     \<and> i64 (total_conns s) = total_of m_conns s"

text \<open>A command adds zeroed slots at most.\<close>

definition quiet :: "secret_store \<Rightarrow> secret_store \<Rightarrow> bool" where
  "quiet s s' \<longleftrightarrow> (\<exists>k. metrics s' = metrics s @ replicate k zero_metric)
     \<and> total_in s' = total_in s \<and> total_out s' = total_out s \<and> total_conns s' = total_conns s"

lemma quiet_same: "metrics s' = metrics s \<Longrightarrow> total_in s' = total_in s \<Longrightarrow> total_out s' = total_out s \<Longrightarrow>
    total_conns s' = total_conns s \<Longrightarrow> quiet s s'"
  unfolding quiet_def by (metis append_Nil2 replicate_0)

lemma quiet_refl [simp]: "quiet s s"
  by (rule quiet_same) simp_all

lemma quiet_trans: "quiet s t \<Longrightarrow> quiet t u \<Longrightarrow> quiet s u"
  unfolding quiet_def by (metis append.assoc replicate_add)

lemma quiet_persist: "quiet s t \<Longrightarrow> ext_persist_locked env t = (r, u) \<Longrightarrow> quiet s u"
  by (simp add: quiet_def persist_frame)

lemma quiet_entries: "quiet s (t\<lparr>entries := Es\<rparr>) \<longleftrightarrow> quiet s t" "quiet s (t\<lparr>next_id := n\<rparr>) \<longleftrightarrow> quiet s t"
  by (simp_all add: quiet_def)

lemma quiet_persist_entries: "ext_persist_locked env (t\<lparr>entries := Es\<rparr>) = (r, u) \<Longrightarrow> quiet s t \<Longrightarrow> quiet s u"
  by (rule quiet_persist) (simp_all add: quiet_entries)

lemma quiet_agree: "quiet s s' \<Longrightarrow> totals_agree s \<Longrightarrow> totals_agree s'"
  by (auto simp: quiet_def totals_agree_def total_of_def zero_metric_def sum_list_replicate)

lemma quiet_reserve: "ext_reserve_locked env w s = Some (r, s') \<Longrightarrow> quiet s s'"
  by (auto dest!: reserve_shape intro!: quiet_same)

lemma quiet_metrics_reserve: "ext_metrics_reserve_locked env w s = Some (r, s') \<Longrightarrow> quiet s s'"
proof -
  assume r: "ext_metrics_reserve_locked env w s = Some (r, s')"
  then have "s' = s \<or> (\<exists>k. s' = s\<lparr>metrics := metrics s @ replicate k zero_metric\<rparr>)"
    by (auto simp: ext_metrics_reserve_locked_def split: if_splits option.splits)
  then show ?thesis by (auto simp: quiet_def)
qed

lemma quiet_ensure_id: "ensure_entry_id env i s = Some (r, s') \<Longrightarrow> quiet s s'"
  by (auto simp: ensure_entry_id_def quiet_entries split: if_splits option.splits dest!: quiet_metrics_reserve)

lemma quiet_add:
  assumes r: "ext_add_locked env secret l x b fe p s = Some (rc, s')"
  shows "quiet s s'"
proof (cases "ext_find_idx_locked s secret")
  case (Some i)
  with r show ?thesis
    by (auto simp: ext_add_locked_def Let_def quiet_entries
        split: if_splits option.splits dest!: quiet_ensure_id intro: quiet_persist_entries)
next
  case None
  from None r obtain r1 s1 where s1: "ext_reserve_locked env (int (length (entries s)) + 1) s = Some (r1, s1)"
    by (auto simp: ext_add_locked_def Let_def split: option.splits)
  show ?thesis
  proof (cases "r1 < 0")
    case True
    with None r s1 show ?thesis by (auto simp: ext_add_locked_def intro: quiet_reserve)
  next
    case False
    from None r s1 False obtain r2 s2 where s2: "ext_metrics_reserve_locked env (next_id s1) s1 = Some (r2, s2)"
      by (auto simp: ext_add_locked_def Let_def split: option.splits)
    have q: "quiet s s2" using quiet_trans quiet_reserve [OF s1] quiet_metrics_reserve [OF s2] by blast
    then have "quiet s (s2\<lparr>entries := Es, next_id := n\<rparr>)" for Es n by (simp add: quiet_entries)
    with q None r s1 s2 False show ?thesis
      by (auto simp: ext_add_locked_def Let_def split: if_splits intro: quiet_persist)
  qed
qed

lemma quiet_run_cmd: "run_cmd env cmd s = Some s' \<Longrightarrow> quiet s s'"
proof (cases cmd)
  case (Cmd_add h l x b)
  assume "run_cmd env cmd s = Some s'"
  with Cmd_add show ?thesis by (auto simp: ext_cmd_add_def split: option.splits intro: quiet_add)
next
  case (Cmd_disable_expired n)
  assume "run_cmd env cmd s = Some s'"
  with Cmd_disable_expired show ?thesis
    by (auto simp: ext_cmd_disable_expired_def Let_def disable_loop_spec split: prod.splits
        intro: quiet_persist_entries)
next
  case (Cmd_remove h)
  assume "run_cmd env cmd s = Some s'"
  with Cmd_remove show ?thesis using quiet_persist [OF _ surjective_pairing]
    by (auto simp: ext_cmd_remove_def quiet_entries split: option.splits)
next
  case (Cmd_set_enabled h b)
  assume "run_cmd env cmd s = Some s'"
  with Cmd_set_enabled show ?thesis using quiet_persist [OF _ surjective_pairing]
    by (auto simp: ext_cmd_set_enabled_def quiet_entries split: option.splits)
next
  case (Cmd_update h l x b)
  assume "run_cmd env cmd s = Some s'"
  with Cmd_update show ?thesis using quiet_persist [OF _ surjective_pairing]
    by (auto simp: ext_cmd_update_def Let_def quiet_entries split: option.splits)
next
  case Cmd_flush
  assume "run_cmd env cmd s = Some s'"
  with Cmd_flush show ?thesis using quiet_persist [OF quiet_refl surjective_pairing]
    by (auto simp: tcp_rpcs_flush_secrets_state_def)
qed

lemma i64_left: "i64 x = i64 y \<Longrightarrow> i64 (i64 (x + n)) = i64 (y + n)"
  using i64_add_i64 [of x n] i64_add_i64 [of y n] by simp

lemma sum_list_update_int: "k < length xs \<Longrightarrow> sum_list (xs[k := x]) = sum_list xs + x - (xs ! k :: int)"
  by (induction xs arbitrary: k) (auto split: nat.splits)

lemma sum_slot_add:
  assumes "k < length ms" "f M = i64 (f (ms ! k) + n)"
  shows "i64 (sum_list (map f (ms[k := M]))) = i64 (sum_list (map f ms) + n)"
proof -
  let ?S = "sum_list (map f ms)"
  have "sum_list (map f (ms[k := M])) = ?S + f M - f (ms ! k)"
    using assms(1) by (simp add: map_update sum_list_update_int)
  then have "i64 (sum_list (map f (ms[k := M]))) = i64 (i64 (f (ms ! k) + n) + (?S - f (ms ! k)))"
    using assms(2) by (simp only: add.commute add_diff_eq)
  also have "\<dots> = i64 (?S + n)" unfolding i64_add_i64 by (simp add: algebra_simps)
  finally show ?thesis .
qed

lemma sum_slot_same:
  assumes "k < length ms" "f M = f (ms ! k)"
  shows "sum_list (map f (ms[k := M])) = sum_list (map f ms)"
  by (subst map_update_same) (use assms in simp_all)

lemma touch_frame [simp]:
  "metrics (touch_entry env ip i s) = metrics s" "total_in (touch_entry env ip i s) = total_in s"
  "total_out (touch_entry env ip i s) = total_out s" "total_conns (touch_entry env ip i s) = total_conns s"
  by (simp_all add: touch_entry_def Let_def split: option.split)

lemma bump_totals [simp]:
  "total_in (bump_connections i s) = total_in s" "total_out (bump_connections i s) = total_out s"
  "total_conns (bump_connections i s) = total_conns s"
  by (simp_all add: bump_connections_def)

lemma attach_agree:
  assumes "totals_agree s" "0 < i" "i < metrics_cap s" "ext_metrics_attach_secret_to_connection env ip i c s = (d, s')"
  shows "totals_agree s'"
proof (cases "extra_int2 c = i")
  case True
  with assms show ?thesis by (simp add: ext_metrics_attach_secret_to_connection_def)
next
  case False
  let ?b = "bump_connections i s" and ?k = "nat i"
  let ?M = "(metrics s ! ?k)\<lparr>m_conns := i64 (m_conns (metrics s ! ?k) + 1)\<rparr>"
  have k: "?k < length (metrics s)" using assms(2,3) by simp
  have m: "metrics s' = (metrics s)[?k := ?M]" "total_in s' = total_in s" "total_out s' = total_out s"
    "total_conns s' = i64 (total_conns s + 1)"
    using assms(2-4) False
    by (auto simp: ext_metrics_attach_secret_to_connection_def Let_def) (simp add: bump_connections_def)
  have "i64 (sum_list (map m_conns (metrics s'))) = i64 (sum_list (map m_conns (metrics s)) + 1)"
    unfolding m(1) by (rule sum_slot_add [OF k]) simp
  moreover have "sum_list (map m_in (metrics s')) = sum_list (map m_in (metrics s))"
    "sum_list (map m_out (metrics s')) = sum_list (map m_out (metrics s))"
    unfolding m(1) by (rule sum_slot_same [OF k], simp)+
  ultimately show ?thesis
    using assms(1) i64_left [of "total_conns s" "sum_list (map m_conns (metrics s))" 1]
    by (simp add: totals_agree_def total_of_def m(2-4))
qed

lemma add_bytes_agree:
  assumes "totals_agree s" "0 < i" "i < metrics_cap s"
  shows "totals_agree (add_bytes_in i n s)" "totals_agree (add_bytes_out i n s)"
proof -
  have k: "nat i < length (metrics s)" using assms(2,3) by simp
  note add = sum_slot_add [OF k, of m_in _ n] sum_slot_add [OF k, of m_out _ n]
  note same = sum_slot_same [OF k]
  show "totals_agree (add_bytes_in i n s)" "totals_agree (add_bytes_out i n s)"
    using assms(1) i64_left [of "total_in s" "sum_list (map m_in (metrics s))" n]
      i64_left [of "total_out s" "sum_list (map m_out (metrics s))" n]
    by (simp_all add: totals_agree_def total_of_def add_bytes_in_def add_bytes_out_def add same)
qed

lemma note_agree:
  "totals_agree s \<Longrightarrow> totals_agree (tcp_rpcs_note_connection_traffic c bi bo s)"
  by (auto simp: tcp_rpcs_note_connection_traffic_def Let_def intro!: add_bytes_agree)

lemma step_agree:
  assumes "proxy_step p q" "owned own p" "totals_agree (ps_store p)"
  shows "totals_agree (ps_store q)"
  using assms
proof (induction rule: proxy_step.induct)
  case (command env cmd p s')
  then show ?case using quiet_agree [OF quiet_run_cmd] by simp
next
  case (attach k i p c env ip d s')
  with ownedD(3) [OF attach.prems(1) attach.hyps(1)] attach_agree show ?case by simp blast
next
  case (traffic s' p c bi bo)
  then show ?case using note_agree by simp
qed simp_all

lemma reach_agree: "proxy_reach s0 p \<Longrightarrow> store_inv s0 \<Longrightarrow> totals_agree s0 \<Longrightarrow> totals_agree (ps_store p)"
proof (induction rule: proxy_reach.induct)
  case start
  then show ?case by (simp add: start_sys_def)
next
  case (step p q)
  with reach_owned [OF step.hyps(1)] step_agree [OF step.hyps(2)] show ?case by blast
qed

section \<open>Properties\<close>

text \<open>A store with two secrets, and a run on it: a snapshot, a match, a removal, traffic.\<close>

definition two_secrets :: secret_store where
  "two_secrets = init_store\<lparr>
     entries := [zero_entry\<lparr>e_secret := replicate 16 7, e_hex := concat (replicate 16 ''07''), e_id := 1, e_enabled := True\<rparr>,
                 zero_entry\<lparr>e_secret := replicate 16 8, e_hex := concat (replicate 16 ''08''), e_id := 2, e_enabled := True\<rparr>],
     secret_cap := 64, next_id := 3, metrics := replicate 3 zero_metric\<rparr>"

lemma two_secrets_inv: "store_inv two_secrets"
  by code_simp

definition run1 :: proxy_sys where
  "run1 = (start_sys two_secrets)\<lparr>ps_snap := (ps_snap (start_sys two_secrets))(5 := snd (ext_snapshot_active_secrets (good_env 1) 1 two_secrets))\<rparr>"

definition run2 :: proxy_sys where
  "run2 = (let r = ext_metrics_attach_secret_to_connection (good_env 1) ''10.0.0.9'' 1 (ps_conn run1 5) (ps_store run1)
     in run1\<lparr>ps_store := snd r, ps_conn := (ps_conn run1)(5 := fst r), ps_match := (ps_match run1)(5 := Some (replicate 16 7))\<rparr>)"

definition run3 :: proxy_sys where
  "run3 = run2\<lparr>ps_store := snd (ext_cmd_remove (good_env 2) (concat (replicate 16 ''08'')) (ps_store run2))\<rparr>"

definition run4 :: proxy_sys where
  "run4 = run3\<lparr>ps_store := tcp_rpcs_note_connection_traffic (ps_conn run3 5) 100 200 (ps_store run3)\<rparr>"

lemma run1_reach: "proxy_reach two_secrets run1"
proof -
  have "fst (ext_snapshot_active_secrets (good_env 1) 1 two_secrets) = 0" by code_simp
  then have "ext_snapshot_active_secrets (good_env 1) 1 (ps_store (start_sys two_secrets))
      = (0, snd (ext_snapshot_active_secrets (good_env 1) 1 two_secrets))"
    by (metis surjective_pairing start_sys_def proxy_sys.select_convs(1))
  from proxy_reach.step [OF proxy_reach.start proxy_step.snapshot [OF this]] show ?thesis by (simp add: run1_def)
qed

lemma run12_step: "proxy_step run1 run2"
proof -
  have "(replicate 16 7, 1) \<in> set (ps_snap run1 5)" by code_simp
  from proxy_step.attach [OF this surjective_pairing]
  show ?thesis by (simp add: run2_def Let_def)
qed

lemma run2_reach: "proxy_reach two_secrets run2"
  by (rule proxy_reach.step [OF run1_reach run12_step])

lemma run34_steps: "proxy_step run2 run3" "proxy_step run3 run4"
proof -
  have "run_cmd (good_env 2) (Cmd_remove (concat (replicate 16 ''08''))) (ps_store run2)
      = Some (snd (ext_cmd_remove (good_env 2) (concat (replicate 16 ''08'')) (ps_store run2)))" by simp
  from proxy_step.command [OF this] show "proxy_step run2 run3" by (simp add: run3_def)
  show "proxy_step run3 run4" unfolding run4_def by (rule proxy_step.traffic [OF refl])
qed

lemma run4_reach: "proxy_reach two_secrets run4"
  using run2_reach run34_steps proxy_reach.step by blast

text \<open>
  C1. Traffic goes to the secret the client used.  In every reachable state, whatever commands came
  between the snapshot, the match and the traffic, if the store has an entry with the identifier a
  connection accounts to, then this entry's secret is the one the connection matched; and the
  identifier has a metrics slot, so that no count is written outside the array.
\<close>

theorem traffic_attribution:
  assumes "store_inv s0" "proxy_reach s0 p" "extra_int2 (ps_conn p c) \<noteq> 0"
  shows "0 < extra_int2 (ps_conn p c) \<and> extra_int2 (ps_conn p c) < metrics_cap (ps_store p)
    \<and> (\<exists>k. ps_match p c = Some k
         \<and> (\<forall>E \<in> set (entries (ps_store p)). e_id E = extra_int2 (ps_conn p c) \<longrightarrow> e_secret E = k))"
proof -
  obtain own where o: "owned own p" using reach_owned [OF assms(2,1)] by blast
  have "e_secret E = own (e_id E)" if "E \<in> set (entries (ps_store p))" for E
    using ownedD(2) [OF o, of "e_id E" "e_secret E"] that by (auto simp: id_pairs_def)
  with ownedD(4) [OF o assms(3)] show ?thesis by auto
qed

theorem traffic_attribution_witness:
  "extra_int2 (ps_conn run4 5) = 1 \<and> e_secret (entries (ps_store run4) ! 0) = replicate 16 7"
proof -
  have "extra_int2 (ps_conn run2 5) = 1" "ps_match run2 5 = Some (replicate 16 7)" by code_simp+
  then have c: "extra_int2 (ps_conn run4 5) = 1" "ps_match run4 5 = Some (replicate 16 7)"
    by (simp_all add: run4_def run3_def)
  have "map e_id (entries (ps_store run3)) = [1]" by code_simp
  then have "map e_id (entries (ps_store run4)) = [1]"
    by (simp add: run4_def tcp_rpcs_note_connection_traffic_def Let_def)
  then have "entries (ps_store run4) ! 0 \<in> set (entries (ps_store run4))" "e_id (entries (ps_store run4) ! 0) = 1" by auto
  with c traffic_attribution [OF two_secrets_inv run4_reach, of 5] show ?thesis by auto
qed

text \<open>
  The store stays well formed in every reachable state: secrets and identifiers are distinct, every
  identifier has a metrics slot and is below \<open>next_id\<close>, slots not handed out are zero, and the labels
  and addresses in the store hold none of the characters that separate columns, lines or JSON strings.
\<close>

theorem reachable_store_inv:
  assumes "store_inv s0" "proxy_reach s0 p"
  shows "store_inv (ps_store p)"
  using reach_owned [OF assms(2,1)] ownedD(1) by blast

theorem reachable_store_inv_witness: "store_inv (ps_store run4)"
  by (rule reachable_store_inv [OF two_secrets_inv run4_reach])

text \<open>
  C30. An identifier is never given to another secret: if it stands for a secret at some moment and for
  a secret later, after any steps, the secret is the same one.
\<close>

theorem ids_never_reused:
  assumes "store_inv s0" "proxy_reach s0 p" "proxy_step\<^sup>*\<^sup>* p q"
    and "E \<in> set (entries (ps_store p))" "F \<in> set (entries (ps_store q))" "e_id E = e_id F"
  shows "e_secret E = e_secret F"
proof -
  obtain own where o: "owned own p" using reach_owned [OF assms(2,1)] by blast
  have inv: "store_inv (ps_store p)" by (rule ownedD(1) [OF o])
  have E: "(e_id E, e_secret E) \<in> id_pairs (ps_store p)" using assms(4) by (auto simp: id_pairs_def)
  have F: "(e_id E, e_secret F) \<in> id_pairs (ps_store q)" using assms(5,6) by (auto simp: id_pairs_def)
  with steps_pairs [OF assms(3) o] id_pairs_bound [OF inv E]
  have "(e_id E, e_secret F) \<in> id_pairs (ps_store p)" by auto
  with ownedD(2) [OF o E] ownedD(2) [OF o] show ?thesis by auto
qed

theorem ids_never_reused_witness:
  "e_secret (entries (ps_store run1) ! 0) = e_secret (entries (ps_store run3) ! 0)"
proof -
  have "map e_id (entries (ps_store run3)) = [1]" "map e_id (entries (ps_store run1)) = [1, 2]" by code_simp+
  then have "entries (ps_store run1) ! 0 \<in> set (entries (ps_store run1))"
    "entries (ps_store run3) ! 0 \<in> set (entries (ps_store run3))"
    "e_id (entries (ps_store run1) ! 0) = e_id (entries (ps_store run3) ! 0)" by auto
  moreover have "proxy_step\<^sup>*\<^sup>* run1 run3" using run34_steps(1) run12_step by (meson rtranclp.simps)
  ultimately show ?thesis using ids_never_reused [OF two_secrets_inv run1_reach] by blast
qed

text \<open>
  C31. No byte and no connection is lost or counted twice: started from a fresh store, in every reachable
  state the three totals equal, modulo \<open>2 ^ 64\<close>, the sums of the counters over all identifiers handed
  out, those of removed secrets included.
\<close>

theorem totals_conserved:
  assumes "proxy_reach init_store p"
  shows "i64 (total_in (ps_store p)) = i64 (sum_list (map m_in (metrics (ps_store p))))
    \<and> i64 (total_out (ps_store p)) = i64 (sum_list (map m_out (metrics (ps_store p))))
    \<and> i64 (total_conns (ps_store p)) = i64 (sum_list (map m_conns (metrics (ps_store p))))"
proof -
  have "totals_agree init_store" by (simp add: totals_agree_def total_of_def init_store_def)
  with reach_agree [OF assms store_inv_init] show ?thesis by (simp add: totals_agree_def total_of_def)
qed

definition sum1 :: proxy_sys where
  "sum1 = (start_sys init_store)\<lparr>ps_store := the (run_cmd (good_env 1) (Cmd_add (concat (replicate 16 ''07'')) ''a'' 0 True) init_store)\<rparr>"

theorem totals_conserved_witness:
  "proxy_reach init_store sum1 \<and> i64 (total_in (ps_store sum1)) = i64 (sum_list (map m_in (metrics (ps_store sum1))))"
proof -
  have "case run_cmd (good_env 1) (Cmd_add (concat (replicate 16 ''07'')) ''a'' 0 True) init_store of None \<Rightarrow> False | Some _ \<Rightarrow> True"
    by code_simp
  then have "run_cmd (good_env 1) (Cmd_add (concat (replicate 16 ''07'')) ''a'' 0 True) (ps_store (start_sys init_store))
      = Some (the (run_cmd (good_env 1) (Cmd_add (concat (replicate 16 ''07'')) ''a'' 0 True) init_store))"
    by (simp only: start_sys_def proxy_sys.select_convs split: option.splits) simp
  from proxy_reach.step [OF proxy_reach.start proxy_step.command [OF this]]
  have "proxy_reach init_store sum1" by (simp add: sum1_def)
  with totals_conserved [OF this] show ?thesis by simp
qed

end
