(* ===== verification/Secret_Load.thy ===== *)
theory Secret_Load
  imports Secret_Invariant
begin

text \<open>
  \<open>tcp_rpcs_load_secrets_state\<close> of \<open>net/net-tcp-rpc-ext-server.c\<close>: reading the state file that
  \<open>ext_persist_locked\<close> wrote, or an older one.  The loop over the lines is a recursion on the list of
  lines; a line either continues the loop or ends it, and a line whose identifier makes the metrics
  grow without end makes the whole load not return (\<open>None\<close>).
\<close>

section \<open>Lines\<close>

text \<open>\<open>getline\<close>: the line with its newline, and the rest of the file.\<close>

fun get_lines :: "string \<Rightarrow> string list" where
  "get_lines [] = []"
| "get_lines (c # cs) =
     (if c = LF then [LF] # get_lines cs
      else case get_lines cs of [] \<Rightarrow> [[c]] | l # ls \<Rightarrow> (c # l) # ls)"

text \<open>Header lines: the identifiers only ever move forward.\<close>

definition header_next_id :: "string \<Rightarrow> string option" where
  "header_next_id line =
     (let d = [TAB, CR, LF] in
      case strtok d line of None \<Rightarrow> None | Some (_, r0) \<Rightarrow>
      (case strtok d r0 of None \<Rightarrow> None | Some (_, r1) \<Rightarrow>
      (case strtok d r1 of None \<Rightarrow> None | Some (_, r2) \<Rightarrow>
      (case strtok d r2 of None \<Rightarrow> None | Some (_, r3) \<Rightarrow>
       map_option fst (strtok d r3)))))"

definition load_header :: "string \<Rightarrow> secret_store \<Rightarrow> secret_store" where
  "load_header line s =
     (case header_next_id line of
        None \<Rightarrow> s
      | Some t \<Rightarrow> if atoi t > next_id s then s\<lparr>next_id := atoi t\<rparr> else s)"

text \<open>The columns of an entry line, as the local variables of the loop.\<close>

record parsed_line =
  pl_enabled :: bool
  pl_expires :: int
  pl_created :: int
  pl_updated :: int
  pl_id :: int
  pl_in :: int
  pl_out :: int
  pl_conns :: int
  pl_last_seen :: int
  pl_last_ip :: string
  pl_label :: string
  pl_full :: bool

definition parse_columns :: "string list \<Rightarrow> parsed_line" where
  "parse_columns cols =
     (let cn = length cols;
          base = \<lparr>pl_enabled = atoi (cols ! 1) \<noteq> 0, pl_expires = atoll (cols ! 2),
                  pl_created = atoll (cols ! 3), pl_updated = atoll (cols ! 4), pl_id = 0, pl_in = 0,
                  pl_out = 0, pl_conns = 0, pl_last_seen = 0, pl_last_ip = [], pl_label = [],
                  pl_full = cn \<ge> 10\<rparr>
      in if cn \<ge> 10 \<and> ext_is_int_str (cols ! 5) \<and> ext_is_int_str (cols ! 6)
            \<and> ext_is_int_str (cols ! 7) \<and> ext_is_int_str (cols ! 8)
         then
           let p = base\<lparr>pl_id := atoi (cols ! 5), pl_in := atoll (cols ! 6), pl_out := atoll (cols ! 7),
                        pl_conns := atoll (cols ! 8)\<rparr>
           in if cn \<ge> 12 \<and> ext_is_int_str (cols ! 9)
              then p\<lparr>pl_last_seen := atoll (cols ! 9), pl_last_ip := ext_sanitize_ip (cols ! 10),
                     pl_label := cols ! 11\<rparr>
              else p\<lparr>pl_label := cols ! 9\<rparr>
         else if cn \<ge> 6 then base\<lparr>pl_label := cols ! 5\<rparr>
         else base)"

text \<open>An identifier that another entry has already is not taken over.\<close>

definition dedup_id :: "nat option \<Rightarrow> secret_store \<Rightarrow> int \<Rightarrow> int" where
  "dedup_id idx s pid =
     (if pid > 0 \<and> (\<exists>i < length (entries s). Some i \<noteq> idx \<and> e_id (entries s ! i) = pid) then 0 else pid)"

definition write_metric :: "parsed_line \<Rightarrow> int \<Rightarrow> secret_store \<Rightarrow> secret_store" where
  "write_metric p i s =
     (if pl_full p
      then s\<lparr>metrics := (metrics s)[nat i := \<lparr>m_in = pl_in p, m_out = pl_out p, m_conns = pl_conns p\<rparr>]\<rparr>
      else s)"

definition raise_next_id :: "int \<Rightarrow> secret_store \<Rightarrow> secret_store" where
  "raise_next_id i s = (if i \<ge> next_id s then s\<lparr>next_id := i32 (i + 1)\<rparr> else s)"

text \<open>
  A line for a secret that is there already.  The result says whether the loop goes on; it does, even
  when the metrics cannot grow.
\<close>

definition load_existing :: "host_env \<Rightarrow> nat \<Rightarrow> parsed_line \<Rightarrow> int \<Rightarrow> secret_store \<Rightarrow> (bool \<times> secret_store) option" where
  "load_existing env idx p pid s =
     (let E = entries s ! idx;
          E1 = E\<lparr>e_enabled := pl_enabled p, e_expires := pl_expires p, e_created := pl_created p,
                 e_updated := pl_updated p, e_label := ext_sanitize_label (pl_label p),
                 e_last_seen := (if pl_last_seen p > 0 then pl_last_seen p else e_last_seen E),
                 e_last_ip := (if pl_last_ip p \<noteq> [] then ext_sanitize_ip (pl_last_ip p) else e_last_ip E)\<rparr>;
          (i, n) = (if pid > 0 then (pid, next_id s)
                    else if e_id E1 \<le> 0 then (next_id s, i32 (next_id s + 1))
                    else (e_id E1, next_id s));
          s1 = s\<lparr>entries := (entries s)[idx := E1\<lparr>e_id := i\<rparr>], next_id := n\<rparr>
      in if i > 0
         then (case ext_metrics_reserve_locked env i s1 of
                 None \<Rightarrow> None
               | Some (r, s2) \<Rightarrow>
                   if r < 0 then Some (True, s2)
                   else Some (True, raise_next_id i (write_metric p i s2)))
         else Some (True, s1))"

text \<open>A line for a new secret; without memory the loop ends.\<close>

definition load_new :: "host_env \<Rightarrow> byte list \<Rightarrow> parsed_line \<Rightarrow> int \<Rightarrow> secret_store \<Rightarrow> (bool \<times> secret_store) option" where
  "load_new env secret p pid s =
     (case ext_reserve_locked env (int (length (entries s)) + 1) s of
        None \<Rightarrow> None
      | Some (r, s0) \<Rightarrow>
          if r < 0 then Some (False, s0)
          else
            let (i, n) = (if pid > 0 then (pid, next_id s0) else (next_id s0, i32 (next_id s0 + 1)));
                E = zero_entry\<lparr>e_secret := secret, e_hex := ext_secret16_to_hex secret,
                      e_enabled := pl_enabled p, e_expires := pl_expires p, e_created := pl_created p,
                      e_updated := pl_updated p,
                      e_last_seen := (if pl_last_seen p > 0 then pl_last_seen p else 0),
                      e_last_ip := (if pl_last_ip p \<noteq> [] then ext_sanitize_ip (pl_last_ip p) else []),
                      e_label := ext_sanitize_label (pl_label p), e_id := i\<rparr>;
                s1 = s0\<lparr>next_id := n\<rparr>
            in if i > 0
               then (case ext_metrics_reserve_locked env i s1 of
                       None \<Rightarrow> None
                     | Some (r2, s2) \<Rightarrow>
                         if r2 < 0 then Some (False, s2)
                         else Some (True, raise_next_id i (write_metric p i (s2\<lparr>entries := entries s2 @ [E]\<rparr>))))
               else Some (True, s1\<lparr>entries := entries s1 @ [E]\<rparr>))"

definition load_line :: "host_env \<Rightarrow> string \<Rightarrow> secret_store \<Rightarrow> (bool \<times> secret_store) option" where
  "load_line env raw s =
     (let line = c_str raw in
      if length raw \<le> 1 \<or> take 1 line = ''#'' then Some (True, s)
      else if strneq line (''v3'' @ [TAB]) 3 \<or> strneq line (''v2'' @ [TAB]) 3 then Some (True, load_header line s)
      else if strneq line ''v1'' 2 then Some (True, s)
      else
        let cols = ext_split_tsv_line line 16 in
        if length cols < 5 then Some (True, s)
        else
          let p = parse_columns cols in
          (case ext_secret16_from_hex (cols ! 0) of
             None \<Rightarrow> Some (True, s)
           | Some secret \<Rightarrow>
               let idx = ext_find_idx_locked s secret; pid = dedup_id idx s (pl_id p) in
               (case idx of
                  Some i \<Rightarrow> load_existing env i p pid s
                | None \<Rightarrow> load_new env secret p pid s)))"

fun load_lines :: "host_env \<Rightarrow> string list \<Rightarrow> secret_store \<Rightarrow> secret_store option" where
  "load_lines env [] s = Some s"
| "load_lines env (l # ls) s =
     (case load_line env l s of
        None \<Rightarrow> None
      | Some (go, s') \<Rightarrow> if go then load_lines env ls s' else Some s')"

text \<open>The totals are recomputed from the metrics of the entries.\<close>

definition sum_metrics :: "(secret_metric \<Rightarrow> int) \<Rightarrow> secret_store \<Rightarrow> int" where
  "sum_metrics f s =
     fold (\<lambda>E a. if e_id E \<le> 0 \<or> e_id E \<ge> metrics_cap s then a else i64 (a + f (metrics s ! nat (e_id E))))
       (entries s) 0"

definition load_finish :: "secret_store \<Rightarrow> secret_store" where
  "load_finish s =
     s\<lparr>total_in := sum_metrics m_in s, total_out := sum_metrics m_out s,
       total_conns := sum_metrics m_conns s, next_id := (if next_id s < 1 then 1 else next_id s)\<rparr>"

text \<open>
  A missing file is no error; a file that is there and cannot be opened (\<open>readable\<close> is false) is.
\<close>

definition tcp_rpcs_load_secrets_state :: "host_env \<Rightarrow> bool \<Rightarrow> secret_store \<Rightarrow> (int \<times> secret_store) option" where
  "tcp_rpcs_load_secrets_state env readable s =
     (if state_file s = [] then Some (0, s)
      else case files s (state_file s) of
        None \<Rightarrow> Some (0, s)
      | Some text \<Rightarrow>
          if \<not> readable then Some (-1, s)
          else map_option (\<lambda>s'. (0, load_finish s')) (load_lines env (get_lines text) s))"

section \<open>Loading keeps the invariant\<close>

lemma load_header_inv: "store_inv s \<Longrightarrow> store_inv (load_header line s)"
  by (auto simp: load_header_def store_inv_def id_ok_def split: option.splits)

lemma raise_next_id_write:
  "raise_next_id i (write_metric p i (s\<lparr>entries := Es\<rparr>)) =
     s\<lparr>entries := Es,
       metrics := (if pl_full p then (metrics s)[nat i := \<lparr>m_in = pl_in p, m_out = pl_out p, m_conns = pl_conns p\<rparr>]
                   else metrics s),
       next_id := (if next_id s \<le> i then i32 (i + 1) else next_id s)\<rparr>"
  by (simp add: raise_next_id_def write_metric_def)

text \<open>
  The common end of both branches: an entry with a fresh or unclaimed identifier, a metrics slot for
  it, and \<open>next_id\<close> above it.
\<close>

lemma store_inv_settle:
  assumes inv: "store_inv s" and i: "0 < i" "i < metrics_cap s"
    and Es: "\<And>E. E \<in> set Es \<Longrightarrow> entry_ok E" "\<And>E. E \<in> set Es \<Longrightarrow> id_ok s E \<or> e_id E = i"
    and d: "distinct (map e_secret Es)" "distinct (map e_id Es)" "int (length Es) \<le> secret_cap s"
  shows "store_inv (raise_next_id i (write_metric p i (s\<lparr>entries := Es\<rparr>)))"
proof -
  have "i32 (i + 1) = i + 1"
    using i store_invD(7) [OF inv] by (intro i32_id) (auto simp: fits_i32_def)
  moreover have "\<forall>E \<in> set Es. entry_ok E \<and> 0 < e_id E \<and> e_id E < metrics_cap s \<and> (e_id E < next_id s \<or> e_id E = i)"
    using Es i by (fastforce simp: id_ok_def)
  moreover have "M ! j = zero_metric"
    if "M = metrics s \<or> M = (metrics s)[nat i := m]" "j < length (metrics s)" "next_id s \<le> int j" "i < int j \<or> int j < i"
    for M m j
    using that store_invD(8) [OF inv, of j] i(1) by (auto simp: nth_list_update)
  ultimately have P: "store_inv (s\<lparr>entries := Es, metrics := M, next_id := (if next_id s \<le> i then i32 (i + 1) else next_id s)\<rparr>)"
    if "M = metrics s \<or> M = (metrics s)[nat i := m]" for M m
    using i d store_invD(6,7) [OF inv] that
    unfolding store_inv_def id_ok_def by (cases "next_id s \<le> i") force+
  show ?thesis unfolding raise_next_id_write
    by (rule P [where m = "\<lparr>m_in = pl_in p, m_out = pl_out p, m_conns = pl_conns p\<rparr>"]) simp
qed

lemma metrics_reserve_next_id:
  assumes "ext_metrics_reserve_locked env w s = Some (r, s')" "fits_i32 (metrics_cap s)" "0 \<le> r"
  shows "(\<exists>k. s' = s\<lparr>metrics := metrics s @ replicate k zero_metric\<rparr>) \<and> w < metrics_cap s' \<and> fits_i32 (metrics_cap s')"
  using metrics_reserve_shape [OF assms(1,2)] assms(3) by auto

lemma calloc_ok:
  "(\<And>n. env_calloc env n) \<Longrightarrow> ext_metrics_reserve_locked env w s = Some (r, s') \<Longrightarrow> 0 \<le> r"
  by (auto simp: ext_metrics_reserve_locked_def split: if_splits option.splits)

lemma dedup_id_unique:
  "dedup_id idx s p > 0 \<Longrightarrow> j < length (entries s) \<Longrightarrow> Some j \<noteq> idx \<Longrightarrow> e_id (entries s ! j) \<noteq> dedup_id idx s p"
  by (auto simp: dedup_id_def split: if_splits)

lemma store_inv_grow_metrics:
  assumes "store_inv s" "fits_i32 (int (length (metrics s) + k))"
  shows "store_inv (s\<lparr>metrics := metrics s @ replicate k zero_metric\<rparr>)"
  using assms unfolding store_inv_def id_ok_def by (auto simp: nth_append)

lemma load_existing_inv:
  assumes inv: "store_inv s" and idx: "idx < length (entries s)" and mem: "\<And>n. env_calloc env n"
    and pid: "pid = dedup_id (Some idx) s q"
    and r: "load_existing env idx p pid s = Some (go, s')"
  shows "store_inv s'"
proof -
  let ?E = "entries s ! idx"
  have idE: "0 < e_id ?E" "e_id ?E < next_id s" using entry_at(2) [OF inv idx] by (auto simp: id_ok_def)
  define i where "i = (if pid > 0 then pid else e_id ?E)"
  have i0: "0 < i" using idE by (simp add: i_def)
  obtain E where E: "e_secret E = e_secret ?E" "e_id E = i" "entry_ok E"
    and r2: "(case ext_metrics_reserve_locked env i (s\<lparr>entries := (entries s)[idx := E]\<rparr>) of
                 None \<Rightarrow> None
               | Some (r, s2) \<Rightarrow>
                   if r < 0 then Some (True, s2)
                   else Some (True, raise_next_id i (write_metric p i s2))) = Some (go, s')"
  proof
    let ?F = "?E\<lparr>e_enabled := pl_enabled p, e_expires := pl_expires p, e_created := pl_created p,
                 e_updated := pl_updated p, e_label := ext_sanitize_label (pl_label p),
                 e_last_seen := (if pl_last_seen p > 0 then pl_last_seen p else e_last_seen ?E),
                 e_last_ip := (if pl_last_ip p \<noteq> [] then ext_sanitize_ip (pl_last_ip p) else e_last_ip ?E),
                 e_id := i\<rparr>"
    show "e_secret ?F = e_secret ?E" "e_id ?F = i" by simp_all
    show "entry_ok ?F" using entry_at(1) [OF inv idx] by (simp add: entry_ok_def)
    show "(case ext_metrics_reserve_locked env i (s\<lparr>entries := (entries s)[idx := ?F]\<rparr>) of
                 None \<Rightarrow> None
               | Some (r, s2) \<Rightarrow>
                   if r < 0 then Some (True, s2)
                   else Some (True, raise_next_id i (write_metric p i s2))) = Some (go, s')"
    proof (cases "pid > 0")
      case True
      then have ip: "i = pid" by (simp add: i_def)
      show ?thesis using r True unfolding ip by (simp add: load_existing_def Let_def split del: if_split)
    next
      case False
      then have ie: "i = e_id ?E" by (simp add: i_def)
      show ?thesis using r False idE unfolding ie by (simp add: load_existing_def Let_def split del: if_split)
    qed
  qed
  from r2 obtain rc s2 where s2: "ext_metrics_reserve_locked env i (s\<lparr>entries := (entries s)[idx := E]\<rparr>) = Some (rc, s2)"
    by (auto split: option.splits)
  have rc: "0 \<le> rc" by (rule calloc_ok [OF mem s2])
  have f: "fits_i32 (metrics_cap (s\<lparr>entries := (entries s)[idx := E]\<rparr>))" using store_invD(7) [OF inv] by simp
  from metrics_reserve_next_id [OF s2 f rc] obtain k where
    k: "s2 = s\<lparr>entries := (entries s)[idx := E], metrics := metrics s @ replicate k zero_metric\<rparr>"
    and w: "i < metrics_cap s2" "fits_i32 (metrics_cap s2)" by auto
  let ?g = "s\<lparr>metrics := metrics s @ replicate k zero_metric\<rparr>"
  have g: "store_inv ?g" using inv w k by (intro store_inv_grow_metrics) auto
  have other: "j < length (entries s) \<Longrightarrow> j \<noteq> idx \<Longrightarrow> e_id (entries s ! j) \<noteq> i" for j
  proof (cases "pid > 0")
    case True
    assume "j < length (entries s)" "j \<noteq> idx"
    with True show ?thesis unfolding i_def pid by (simp add: dedup_id_unique)
  next
    case False
    assume "j < length (entries s)" "j \<noteq> idx"
    with False idx store_invD(4) [OF inv] show ?thesis by (simp add: i_def distinct_conv_nth)
  qed
  have "distinct (map e_id ((entries s)[idx := E]))"
    using store_invD(4) [OF inv] other idx E(2)
    by (auto simp: distinct_conv_nth nth_list_update) metis
  moreover have "map e_secret ((entries s)[idx := E]) = map e_secret (entries s)"
    using idx E(1) by (intro map_update_same) simp_all
  moreover have "\<And>F. F \<in> set ((entries s)[idx := E]) \<Longrightarrow> F = E \<or> F \<in> set (entries s)"
    by (meson insertE set_update_subset_insert subsetD)
  ultimately have "store_inv (raise_next_id i (write_metric p i (?g\<lparr>entries := (entries s)[idx := E]\<rparr>)))"
    using g i0 w k E store_invD(3,5) [OF inv] store_invD(1,2) [OF g]
    by (intro store_inv_settle) (auto simp del: map_update)
  moreover have "s2 = ?g\<lparr>entries := (entries s)[idx := E]\<rparr>" by (simp add: k)
  ultimately show ?thesis using r2 s2 rc by simp
qed

lemma load_new_inv:
  assumes inv: "store_inv s" and mem: "\<And>n. env_calloc env n" and len: "length secret = 16"
    and new: "ext_find_idx_locked s secret = None" and pid: "pid = dedup_id None s q"
    and r: "load_new env secret p pid s = Some (go, s')"
  shows "store_inv s'"
proof -
  from r obtain r0 s0 where s0: "ext_reserve_locked env (int (length (entries s)) + 1) s = Some (r0, s0)"
    by (auto simp: load_new_def split: option.splits)
  have i0: "store_inv s0" by (rule store_inv_reserve [OF inv s0])
  show ?thesis
  proof (cases "r0 < 0")
    case True
    with r s0 i0 show ?thesis by (auto simp: load_new_def)
  next
    case False
    with reserve_shape [OF s0] obtain c where c: "s0 = s\<lparr>secret_cap := c\<rparr>" "int (length (entries s)) + 1 \<le> c" by auto
    define i where "i = (if pid > 0 then pid else next_id s0)"
    define n where "n = (if pid > 0 then next_id s0 else i32 (next_id s0 + 1))"
    have ip: "0 < i" using store_invD(6) [OF i0] by (simp add: i_def)
    let ?E = "zero_entry\<lparr>e_secret := secret, e_hex := ext_secret16_to_hex secret,
                      e_enabled := pl_enabled p, e_expires := pl_expires p, e_created := pl_created p,
                      e_updated := pl_updated p,
                      e_last_seen := (if pl_last_seen p > 0 then pl_last_seen p else 0),
                      e_last_ip := (if pl_last_ip p \<noteq> [] then ext_sanitize_ip (pl_last_ip p) else []),
                      e_label := ext_sanitize_label (pl_label p), e_id := i\<rparr>"
    have r2: "(case ext_metrics_reserve_locked env i (s0\<lparr>next_id := n\<rparr>) of
                       None \<Rightarrow> None
                     | Some (r2, s2) \<Rightarrow>
                         if r2 < 0 then Some (False, s2)
                         else Some (True, raise_next_id i (write_metric p i (s2\<lparr>entries := entries s2 @ [?E]\<rparr>))))
        = Some (go, s')"
      using r s0 False ip unfolding load_new_def i_def n_def
      by (simp add: Let_def split: if_splits)
    then obtain rc s2 where s2: "ext_metrics_reserve_locked env i (s0\<lparr>next_id := n\<rparr>) = Some (rc, s2)"
      by (auto split: option.splits)
    have rc: "0 \<le> rc" by (rule calloc_ok [OF mem s2])
    have f: "fits_i32 (metrics_cap (s0\<lparr>next_id := n\<rparr>))" using store_invD(7) [OF i0] by simp
    from metrics_reserve_next_id [OF s2 f rc] obtain k where
      k: "s2 = s0\<lparr>next_id := n, metrics := metrics s0 @ replicate k zero_metric\<rparr>"
      and w: "i < metrics_cap s2" "fits_i32 (metrics_cap s2)" by auto
    have n: "next_id s0 \<le> n"
    proof (cases "pid > 0")
      case False
      then have "next_id s0 < metrics_cap s2" using w by (simp add: i_def)
      then have "i32 (next_id s0 + 1) = next_id s0 + 1"
        using store_invD(6) [OF i0] w by (intro i32_id) (auto simp: fits_i32_def)
      with False show ?thesis by (simp add: n_def)
    qed (simp add: n_def)
    let ?g = "s0\<lparr>metrics := metrics s0 @ replicate k zero_metric\<rparr>"
    have g: "store_inv ?g" using i0 w k by (intro store_inv_grow_metrics) auto
    have g2: "store_inv s2" using g n store_invD(6) [OF i0] unfolding store_inv_def id_ok_def k by fastforce
    have fresh: "F \<in> set (entries s) \<Longrightarrow> e_id F \<noteq> i" for F
    proof (cases "pid > 0")
      case True
      assume "F \<in> set (entries s)"
      then obtain j where "j < length (entries s)" "entries s ! j = F" by (auto simp: in_set_conv_nth)
      with True dedup_id_unique [of None s q j] show ?thesis unfolding i_def pid by auto
    next
      case False
      assume "F \<in> set (entries s)"
      then have "id_ok s0 F" using store_invD(2) [OF i0] by (simp add: c)
      with False show ?thesis by (simp add: i_def id_ok_def)
    qed
    have es: "entries s2 = entries s" "secret_cap s2 = c" by (simp_all add: k c)
    have "store_inv (raise_next_id i (write_metric p i (s2\<lparr>entries := entries s @ [?E]\<rparr>)))"
      using g2 ip w fresh len new c(2) store_invD(1,2,3,4) [OF g2] es
      by (intro store_inv_settle) (auto simp: entry_ok_def zero_entry_def find_idx_None image_iff)
    with r2 s2 rc es show ?thesis by simp
  qed
qed

lemma load_line_inv:
  assumes inv: "store_inv s" and mem: "\<And>n. env_calloc env n" and r: "load_line env l s = Some (go, s')"
  shows "store_inv s'"
proof -
  let ?cols = "ext_split_tsv_line (c_str l) 16"
  from r consider "s' = s" | "s' = load_header (c_str l) s"
    | k where "ext_secret16_from_hex (?cols ! 0) = Some k"
        "(case ext_find_idx_locked s k of
            Some i \<Rightarrow> load_existing env i (parse_columns ?cols) (dedup_id (ext_find_idx_locked s k) s (pl_id (parse_columns ?cols))) s
          | None \<Rightarrow> load_new env k (parse_columns ?cols) (dedup_id (ext_find_idx_locked s k) s (pl_id (parse_columns ?cols))) s)
         = Some (go, s')"
    by (auto simp: load_line_def Let_def split: if_splits option.splits)
  then show ?thesis
  proof cases
    case (3 k)
    then show ?thesis
    proof (cases "ext_find_idx_locked s k")
      case None
      with 3(2) show ?thesis
        by (intro load_new_inv [OF inv mem from_hex_length [OF 3(1)] None refl]) simp
    next
      case (Some i)
      with 3(2) show ?thesis
        by (intro load_existing_inv [OF inv _ mem refl, of i]) (simp_all add: find_idx_nth)
    qed
  qed (simp_all add: inv load_header_inv)
qed

lemma load_lines_inv:
  "store_inv s \<Longrightarrow> (\<And>n. env_calloc env n) \<Longrightarrow> load_lines env ls s = Some s' \<Longrightarrow> store_inv s'"
proof (induction env ls s arbitrary: s' rule: load_lines.induct)
  case (2 env l ls s)
  from 2(4) obtain go s1 where s1: "load_line env l s = Some (go, s1)"
    and rest: "(if go then load_lines env ls s1 else Some s1) = Some s'"
    by (auto split: option.splits)
  have inv: "store_inv s1" using 2(2,3) s1 by (rule load_line_inv)
  show ?case
  proof (cases go)
    case True
    with 2(1) [OF s1 refl] rest inv 2(3) show ?thesis by simp
  next
    case False
    with rest inv show ?thesis by simp
  qed
qed simp

lemma load_finish_inv: "store_inv s \<Longrightarrow> store_inv (load_finish s)"
  using store_invD(6) [of s] by (auto simp: load_finish_def store_inv_def id_ok_def)

lemma load_inv:
  "store_inv s \<Longrightarrow> (\<And>n. env_calloc env n) \<Longrightarrow> tcp_rpcs_load_secrets_state env ok s = Some (r, s') \<Longrightarrow> store_inv s'"
  by (auto simp: tcp_rpcs_load_secrets_state_def split: if_splits option.splits
      intro: load_finish_inv load_lines_inv)

section \<open>What was written is read back\<close>

text \<open>The integers of the store fit their C types, and \<open>next_id\<close> is within the bound of the growth loop.\<close>

definition store_fits :: "secret_store \<Rightarrow> bool" where
  "store_fits s \<longleftrightarrow> next_id s \<le> 2 ^ 30
     \<and> (\<forall>E \<in> set (entries s). fits_i64 (e_expires E) \<and> fits_i64 (e_created E) \<and> fits_i64 (e_updated E)
          \<and> fits_i64 (e_last_seen E) \<and> 0 \<le> e_last_seen E)
     \<and> (\<forall>M \<in> set (metrics s). fits_i64 (m_in M) \<and> fits_i64 (m_out M) \<and> fits_i64 (m_conns M))"

lemma get_lines_join:
  "\<forall>l \<in> set ls. LF \<notin> set l \<Longrightarrow> get_lines (concat (map (\<lambda>l. l @ [LF]) ls)) = map (\<lambda>l. l @ [LF]) ls"
proof (induction ls)
  case (Cons l ls)
  have "LF \<notin> set l \<Longrightarrow> get_lines (l @ LF # r) = (l @ [LF]) # get_lines r" for r
    by (induction l) auto
  with Cons show ?case by simp
qed simp

lemma strtok_tab:
  assumes "t \<noteq> []" "set t \<inter> {TAB, CR, LF} = {}" "d \<in> {TAB, CR, LF}"
  shows "strtok [TAB, CR, LF] (t @ d # r) = Some (t, r)"
proof -
  have "dropWhile (\<lambda>c. c \<in> set [TAB, CR, LF]) (t @ d # r) = t @ d # r"
    using assms(1,2) by (cases t) auto
  moreover have "takeWhile (\<lambda>c. c \<notin> set [TAB, CR, LF]) (t @ d # r) = t"
    "dropWhile (\<lambda>c. c \<notin> set [TAB, CR, LF]) (t @ d # r) = d # r"
    using assms(2,3) by (induction t) auto
  ultimately show ?thesis by (simp add: strtok_def Let_def)
qed

lemma show_int_no_sep: "set (show_int x) \<inter> {TAB, CR, LF} = {}" "NUL \<notin> set (show_int x)" "LF \<notin> set (show_int x)"
  by (auto simp: ctype_simps dest: show_int_chars)

lemma header_next_id_header: "header_next_id (state_header s) = Some (show_int (next_id s))"
proof -
  have "strtok [TAB, CR, LF] (CHR ''v'' # CHR ''3'' # TAB # r) = Some (''v3'', r)" for r
    using strtok_tab [of "''v3''" TAB r] by simp
  then show ?thesis
    by (simp add: header_next_id_def state_header_def Let_def strtok_tab show_int_no_sep)
qed

lemma parse_entry_columns:
  assumes "fits_i32 (e_id E)" "store_fits s" "E \<in> set (entries s)" "M = metric_of s E" "ip_ok (e_last_ip E)"
    "fits_i64 (m_in M)" "fits_i64 (m_out M)" "fits_i64 (m_conns M)"
  shows "parse_columns (entry_columns s E) =
    \<lparr>pl_enabled = e_enabled E, pl_expires = e_expires E, pl_created = e_created E, pl_updated = e_updated E,
     pl_id = e_id E, pl_in = m_in M, pl_out = m_out M, pl_conns = m_conns M, pl_last_seen = e_last_seen E,
     pl_last_ip = e_last_ip E, pl_label = e_label E, pl_full = True\<rparr>"
  using assms
  by (simp add: parse_columns_def entry_columns_def Let_def show_bool_def store_fits_def fits_i32_def eval_nat_numeral)

lemma entry_columns_clean:
  assumes "entry_ok E"
  shows "\<forall>c \<in> set (entry_columns s E). set c \<inter> {TAB, LF, CR} = {} \<and> NUL \<notin> set c"
proof -
  have "set (e_hex E) \<inter> {TAB, LF, CR, NUL} = {}" "set (e_label E) \<inter> {TAB, LF, CR, NUL} = {}"
    "set (e_last_ip E) \<inter> {TAB, LF, CR, NUL} = {}"
    using assms to_hex_xdigits xdigit_not_sep label_char_not_sep ip_char_not_sep
    by (fastforce simp: entry_ok_def label_ok_def ip_ok_def)+
  then show ?thesis
    using show_int_no_sep by (auto simp: entry_columns_def Let_def show_bool_def)
qed

lemma entry_line_join: "LF \<notin> set (join_tabs (entry_columns s E))" if "entry_ok E"
  using entry_columns_clean [OF that] set_join_tabs [of "entry_columns s E"] by fastforce

lemma load_line_header:
  "next_id L \<le> next_id s \<Longrightarrow> fits_i32 (next_id s) \<Longrightarrow>
   load_line env (state_header s) L = Some (True, L\<lparr>next_id := next_id s\<rparr>)"
proof -
  assume n: "next_id L \<le> next_id s" "fits_i32 (next_id s)"
  have c: "c_str (state_header s) = state_header s"
    by (rule c_str_id) (auto simp: state_header_def dest: show_int_no_sep(2) [THEN notE])
  have v: "take 3 (state_header s) = ''v3'' @ [TAB]" "1 < length (state_header s)" "take 1 (state_header s) = ''v''"
    by (simp_all add: state_header_def)
  have "L\<lparr>next_id := next_id L\<rparr> = L" by simp
  with n v c show ?thesis
    by (simp add: load_line_def Let_def load_header_def header_next_id_header strneq_def)
qed

text \<open>What is loaded after the first \<open>n\<close> entry lines.\<close>

definition loaded :: "secret_store \<Rightarrow> nat \<Rightarrow> secret_store \<Rightarrow> bool" where
  "loaded s n L \<longleftrightarrow> store_inv L \<and> entries L = take n (entries s) \<and> next_id L = next_id s
     \<and> (\<forall>E \<in> set (take n (entries s)). metrics L ! nat (e_id E) = metrics s ! nat (e_id E))"

lemma entries_below_next_id: "store_inv s \<Longrightarrow> int (length (entries s)) < next_id s"
proof -
  assume inv: "store_inv s"
  have "e_id ` set (entries s) \<subseteq> {1..<next_id s}"
    using store_invD(2) [OF inv] by (fastforce simp: id_ok_def)
  then have "card (set (map e_id (entries s))) \<le> card {1..<next_id s}"
    by (intro card_mono) auto
  moreover have "card (set (map e_id (entries s))) = length (entries s)"
    using distinct_card [OF store_invD(4) [OF inv]] by simp
  ultimately show ?thesis using store_invD(6) [OF inv] by simp
qed

lemma load_new_effect:
  assumes inv: "store_inv L" and pid: "0 < pid" "pid < next_id L" "next_id L \<le> 2 ^ 30"
    and room: "int (length (entries L)) + 1 < next_id L"
    and mem: "\<And>n. env_calloc env n" "\<And>n. env_realloc env n" and full: "pl_full p"
  shows "\<exists>L'. load_new env secret p pid L = Some (True, L') \<and> next_id L' = next_id L
     \<and> entries L' = entries L @ [zero_entry\<lparr>e_secret := secret, e_hex := ext_secret16_to_hex secret,
           e_enabled := pl_enabled p, e_expires := pl_expires p, e_created := pl_created p,
           e_updated := pl_updated p, e_last_seen := (if pl_last_seen p > 0 then pl_last_seen p else 0),
           e_last_ip := (if pl_last_ip p \<noteq> [] then ext_sanitize_ip (pl_last_ip p) else []),
           e_label := ext_sanitize_label (pl_label p), e_id := pid\<rparr>]
     \<and> metrics L' ! nat pid = \<lparr>m_in = pl_in p, m_out = pl_out p, m_conns = pl_conns p\<rparr>
     \<and> (\<forall>j < length (metrics L). j \<noteq> nat pid \<longrightarrow> metrics L' ! j = metrics L ! j)"
proof -
  have "0 \<le> secret_cap L" using store_invD(5) [OF inv] by linarith
  moreover have "int (length (entries L)) + 1 < 2 ^ 30" using room pid(3) by linarith
  ultimately obtain c where c: "ext_reserve_locked env (int (length (entries L)) + 1) L = Some (0, L\<lparr>secret_cap := c\<rparr>)"
    using reserve_returns mem(2) by blast
  have "pid < 2 ^ 30" using pid by linarith
  from metrics_reserve_returns [OF this mem(1), of "L\<lparr>secret_cap := c\<rparr>"] obtain k where
    k: "ext_metrics_reserve_locked env pid (L\<lparr>secret_cap := c\<rparr>)
        = Some (0, L\<lparr>secret_cap := c, metrics := metrics L @ replicate k zero_metric\<rparr>)"
    "pid < metrics_cap L + int k" by auto
  have "L\<lparr>secret_cap := c, next_id := next_id L\<rparr> = L\<lparr>secret_cap := c\<rparr>" by simp
  with c k pid full show ?thesis
    by (simp add: load_new_def Let_def write_metric_def raise_next_id_def nth_append nth_list_update split del: if_split)
qed

lemma store_fits_metric:
  assumes "store_fits s" "store_inv s" "E \<in> set (entries s)"
  shows "fits_i64 (m_in (metric_of s E))" "fits_i64 (m_out (metric_of s E))" "fits_i64 (m_conns (metric_of s E))"
    "metric_of s E = metrics s ! nat (e_id E)"
proof -
  have i: "id_ok s E" by (rule store_invD(2) [OF assms(2,3)])
  then show "metric_of s E = metrics s ! nat (e_id E)" by (simp add: metric_of_def id_ok_def)
  moreover have "metrics s ! nat (e_id E) \<in> set (metrics s)" using i by (simp add: id_ok_def nat_less_iff)
  ultimately show "fits_i64 (m_in (metric_of s E))" "fits_i64 (m_out (metric_of s E))" "fits_i64 (m_conns (metric_of s E))"
    using assms(1) by (simp_all add: store_fits_def)
qed

lemma entry_line_not_header:
  assumes "entry_ok E" "line = join_tabs (entry_columns s E) @ [LF]"
  shows "c_str line = line \<and> 1 < length line \<and> take 1 line \<noteq> ''#'' \<and> \<not> strneq line (''v3'' @ [TAB]) 3
     \<and> \<not> strneq line (''v2'' @ [TAB]) 3 \<and> \<not> strneq line ''v1'' 2"
proof -
  obtain c cs where c: "e_hex E = c # cs" "c_isxdigit c"
  proof (cases "e_hex E")
    case Nil
    with assms(1) length_to_hex [of "e_secret E"] show ?thesis by (simp add: entry_ok_def)
  next
    case (Cons c cs)
    then have "c \<in> set (ext_secret16_to_hex (e_secret E))"
      using assms(1) by (metis entry_ok_def list.set_intros(1))
    with Cons that show ?thesis using to_hex_xdigits by blast
  qed
  then have l: "line = c # tl line" "1 < length line"
    using assms(2) by (simp_all add: entry_columns_def Let_def)
  have "c \<noteq> CHR ''#''" "c \<noteq> CHR ''v''" using xdigit_not_sep [OF c(2)] by auto
  moreover have "NUL \<notin> set line"
    using entry_columns_clean [OF assms(1), of s] set_join_tabs [of "entry_columns s E"] assms(2) by fastforce
  ultimately show ?thesis
    using l by (cases line) (auto simp: strneq_def take_Cons')
qed

lemma loaded_step:
  assumes inv: "store_inv s" and fits: "store_fits s" and mem: "\<And>n. env_calloc env n" "\<And>n. env_realloc env n"
    and n: "n < length (entries s)" and L: "loaded s n L"
  shows "\<exists>L'. load_line env (join_tabs (entry_columns s (entries s ! n)) @ [LF]) L = Some (True, L') \<and> loaded s (Suc n) L'"
proof -
  let ?E = "entries s ! n"
  have E: "?E \<in> set (entries s)" using n by simp
  have ok: "entry_ok ?E" "id_ok s ?E" using entry_at [OF inv n] by auto
  have i: "0 < e_id ?E" "e_id ?E < next_id s" using ok(2) by (auto simp: id_ok_def)
  have nx: "next_id s \<le> 2 ^ 30" using fits by (simp add: store_fits_def)
  let ?cols = "entry_columns s ?E" and ?M = "metric_of s ?E"
  have cols: "ext_split_tsv_line (join_tabs ?cols @ [LF]) 16 = ?cols"
    by (rule split_tsv_join) (use entry_columns_clean [OF ok(1), of s] in \<open>auto simp: entry_columns_def Let_def\<close>)
  have len: "\<not> length ?cols < 5" "?cols ! 0 = e_hex ?E" by (simp_all add: entry_columns_def Let_def)
  have f32: "fits_i32 (e_id ?E)" using i nx by (simp add: fits_i32_def)
  note parsed = parse_entry_columns [OF f32 fits E refl _ store_fits_metric(1,2,3) [OF fits inv E]]
  have hex: "ext_secret16_from_hex (e_hex ?E) = Some (e_secret ?E)"
    using ok(1) by (simp add: entry_ok_def secret_roundtrip)
  have L1: "store_inv L" "entries L = take n (entries s)" "next_id L = next_id s"
    "\<And>F. F \<in> set (take n (entries s)) \<Longrightarrow> metrics L ! nat (e_id F) = metrics s ! nat (e_id F)"
    using L by (auto simp: loaded_def)
  have other: "e_secret F \<noteq> e_secret ?E \<and> e_id F \<noteq> e_id ?E" if "F \<in> set (take n (entries s))" for F
    using that n store_invD(3,4) [OF inv] by (auto simp: in_set_conv_nth distinct_conv_nth)
  then have new: "ext_find_idx_locked L (e_secret ?E) = None"
    unfolding find_idx_None L1(2) by (metis imageE)
  have dedup: "dedup_id None L (e_id ?E) = e_id ?E"
    unfolding dedup_id_def L1(2) using other by (metis nth_mem)
  have room: "int (length (entries L)) + 1 < next_id L"
    using entries_below_next_id [OF inv] n by (simp add: L1)
  define p where "p = parse_columns ?cols"
  have p: "p = \<lparr>pl_enabled = e_enabled ?E, pl_expires = e_expires ?E, pl_created = e_created ?E, pl_updated = e_updated ?E,
     pl_id = e_id ?E, pl_in = m_in ?M, pl_out = m_out ?M, pl_conns = m_conns ?M, pl_last_seen = e_last_seen ?E,
     pl_last_ip = e_last_ip ?E, pl_label = e_label ?E, pl_full = True\<rparr>"
    unfolding p_def using parsed ok(1) by (simp add: entry_ok_def)
  have line: "load_line env (join_tabs ?cols @ [LF]) L = load_new env (e_secret ?E) p (e_id ?E) L"
    using entry_line_not_header [OF ok(1) refl, of s] cols len hex new dedup p
    by (simp add: load_line_def Let_def flip: p_def)
  have "pl_full p" by (simp add: p)
  from load_new_effect [OF L1(1) i(1) _ _ room mem this, of "e_secret ?E"] i nx L1(3)
  obtain L' where L': "load_new env (e_secret ?E) p (e_id ?E) L = Some (True, L')" "next_id L' = next_id L"
     "entries L' = entries L @ [zero_entry\<lparr>e_secret := e_secret ?E, e_hex := ext_secret16_to_hex (e_secret ?E),
           e_enabled := pl_enabled p, e_expires := pl_expires p, e_created := pl_created p,
           e_updated := pl_updated p, e_last_seen := (if pl_last_seen p > 0 then pl_last_seen p else 0),
           e_last_ip := (if pl_last_ip p \<noteq> [] then ext_sanitize_ip (pl_last_ip p) else []),
           e_label := ext_sanitize_label (pl_label p), e_id := e_id ?E\<rparr>]"
     "metrics L' ! nat (e_id ?E) = \<lparr>m_in = pl_in p, m_out = pl_out p, m_conns = pl_conns p\<rparr>"
     "\<forall>j < length (metrics L). j \<noteq> nat (e_id ?E) \<longrightarrow> metrics L' ! j = metrics L ! j"
    by auto
  have seen: "0 \<le> e_last_seen ?E" using fits E by (simp add: store_fits_def)
  have "entries L' = take n (entries s) @ [?E]"
    unfolding L'(3) L1(2) using ok(1) seen
    by (cases ?E) (auto simp: p zero_entry_def entry_ok_def)
  then have ents: "entries L' = take (Suc n) (entries s)" using n by (simp add: take_Suc_conv_app_nth)
  have "store_inv L'"
    using ok(1) by (intro load_new_inv [OF L1(1) mem(1) _ new dedup [symmetric] L'(1)]) (simp add: entry_ok_def)
  moreover have "metrics L' ! nat (e_id F) = metrics s ! nat (e_id F)" if "F \<in> set (take (Suc n) (entries s))" for F
  proof (cases "F = ?E")
    case True
    then show ?thesis using L'(4) store_fits_metric(4) [OF fits inv E] by (simp add: p)
  next
    case False
    then have F: "F \<in> set (take n (entries s))" using that n by (simp add: take_Suc_conv_app_nth)
    then have "id_ok L F" using store_invD(2) [OF L1(1)] L1(2) by simp
    then have "nat (e_id F) < length (metrics L)" "nat (e_id F) \<noteq> nat (e_id ?E)"
      using other [OF F] i by (auto simp: id_ok_def)
    then show ?thesis using L'(5) L1(4) [OF F] by simp
  qed
  ultimately show ?thesis
    using line L'(1,2) ents L1(3) by (auto simp: loaded_def)
qed

lemma loaded_all:
  assumes "store_inv s" "store_fits s" "\<And>n. env_calloc env n" "\<And>n. env_realloc env n"
    and "n + k = length (entries s)" "loaded s n L"
  shows "\<exists>L'. load_lines env (map (\<lambda>E. join_tabs (entry_columns s E) @ [LF]) (drop n (entries s))) L = Some L'
     \<and> loaded s (length (entries s)) L'"
  using assms(5,6)
proof (induction k arbitrary: n L)
  case 0
  then show ?case by simp
next
  case (Suc k)
  from loaded_step [OF assms(1-4) _ Suc.prems(2)] Suc.prems(1) obtain L1 where
    L1: "load_line env (join_tabs (entry_columns s (entries s ! n)) @ [LF]) L = Some (True, L1)" "loaded s (Suc n) L1" by auto
  from Suc.IH [OF _ L1(2)] Suc.prems(1) L1(1) show ?case
    by (simp flip: Cons_nth_drop_Suc)
qed

lemma state_text_lines:
  assumes "store_inv s"
  shows "get_lines (state_text s) = state_header s # map (\<lambda>E. join_tabs (entry_columns s E) @ [LF]) (entries s)"
proof -
  let ?h = "join_tabs [''v3'', show_int (total_in s), show_int (total_out s), show_int (total_conns s), show_int (next_id s)]"
  have "LF \<notin> set ?h" using show_int_no_sep(3) by simp
  moreover have "\<forall>E \<in> set (entries s). LF \<notin> set (join_tabs (entry_columns s E))"
    using entry_line_join store_invD(1) [OF assms] by blast
  ultimately have "get_lines (concat (map (\<lambda>l. l @ [LF]) (?h # map (\<lambda>E. join_tabs (entry_columns s E)) (entries s))))
      = map (\<lambda>l. l @ [LF]) (?h # map (\<lambda>E. join_tabs (entry_columns s E)) (entries s))"
    by (intro get_lines_join) auto
  then show ?thesis by (simp add: state_text_def state_header_def comp_def)
qed

lemma load_persist_loaded:
  assumes "store_inv s" "store_fits s" "\<And>n. env_calloc env' n" "\<And>n. env_realloc env' n"
    and "state_file s \<noteq> []" "ext_persist_locked env s = (0, s1)" "on_disk env (state_text s) = state_text s"
  shows "\<exists>L. tcp_rpcs_load_secrets_state env' True (init_store\<lparr>state_file := state_file s, files := files s1\<rparr>)
      = Some (0, load_finish L) \<and> loaded s (length (entries s)) L"
proof -
  let ?s0 = "init_store\<lparr>state_file := state_file s, files := files s1\<rparr>"
  have "files s1 (state_file s) = Some (state_text s)"
    using assms(5,6,7) by (auto simp: ext_persist_locked_def split: if_splits)
  moreover have n: "1 \<le> next_id s" "fits_i32 (next_id s)"
    using store_invD(6) [OF assms(1)] assms(2) by (auto simp: store_fits_def fits_i32_def)
  have "loaded s 0 (?s0\<lparr>next_id := next_id s\<rparr>)"
    using n by (simp add: loaded_def store_inv_def init_store_def fits_i32_def)
  from loaded_all [OF assms(1-4) _ this] obtain L where
    "load_lines env' (map (\<lambda>E. join_tabs (entry_columns s E) @ [LF]) (entries s)) (?s0\<lparr>next_id := next_id s\<rparr>) = Some L"
    "loaded s (length (entries s)) L" by auto
  moreover have "load_line env' (state_header s) ?s0 = Some (True, ?s0\<lparr>next_id := next_id s\<rparr>)"
    using n by (intro load_line_header) (simp_all add: init_store_def)
  ultimately have "tcp_rpcs_load_secrets_state env' True ?s0 = Some (0, load_finish L) \<and> loaded s (length (entries s)) L"
    using assms(5) state_text_lines [OF assms(1)] by (simp add: tcp_rpcs_load_secrets_state_def)
  then show ?thesis by blast
qed

lemma loaded_metric:
  assumes "store_inv s" "loaded s (length (entries s)) L" "E \<in> set (entries s)"
  shows "metric_of L E = metric_of s E"
proof -
  have "id_ok s E" "id_ok L E" using assms store_invD(2) [of s] store_invD(2) [of L] by (auto simp: loaded_def)
  then show ?thesis using assms(2,3) by (simp add: metric_of_def id_ok_def loaded_def)
qed

lemma loaded_sum:
  assumes "store_inv s" "loaded s (length (entries s)) L"
  shows "sum_metrics f L = sum_metrics f s"
proof -
  have e: "entries L = entries s" "store_inv L" using assms(2) by (simp_all add: loaded_def)
  have "(if e_id E \<le> 0 \<or> metrics_cap L \<le> e_id E then a else i64 (a + f (metrics L ! nat (e_id E))))
      = (if e_id E \<le> 0 \<or> metrics_cap s \<le> e_id E then a else i64 (a + f (metrics s ! nat (e_id E))))"
    if E: "E \<in> set (entries s)" for E a
  proof -
    have "id_ok s E" by (rule store_invD(2) [OF assms(1) E])
    moreover have "id_ok L E" using store_invD(2) [OF e(2)] E by (simp add: e(1))
    moreover have "metrics L ! nat (e_id E) = metrics s ! nat (e_id E)" using assms(2) E by (simp add: loaded_def)
    ultimately show ?thesis by (simp add: id_ok_def)
  qed
  then show ?thesis
    unfolding sum_metrics_def e(1) by (intro fold_cong refl) (simp add: fun_eq_iff)
qed

section \<open>Properties\<close>

text \<open>
  C19. What \<open>ext_persist_locked\<close> writes, a fresh process reads back: if the store is well formed, its
  integers fit, the write succeeds and is complete, then loading the file into an empty store returns
  0, with the same secrets in the same order, the same labels, times, identifiers and \<open>next_id\<close>, the
  same counters for every secret, and totals that are the sums of these counters.
\<close>

theorem load_persist:
  assumes "store_inv s" "store_fits s" "\<And>n. env_calloc env' n" "\<And>n. env_realloc env' n"
    and "state_file s \<noteq> []" "ext_persist_locked env s = (0, s1)" "on_disk env (state_text s) = state_text s"
  shows "\<exists>s2. tcp_rpcs_load_secrets_state env' True (init_store\<lparr>state_file := state_file s, files := files s1\<rparr>) = Some (0, s2)
     \<and> store_inv s2 \<and> entries s2 = entries s \<and> next_id s2 = next_id s
     \<and> (\<forall>E \<in> set (entries s). metric_of s2 E = metric_of s E)
     \<and> total_in s2 = sum_metrics m_in s \<and> total_out s2 = sum_metrics m_out s \<and> total_conns s2 = sum_metrics m_conns s"
proof -
  from load_persist_loaded [OF assms] obtain L where
    L: "tcp_rpcs_load_secrets_state env' True (init_store\<lparr>state_file := state_file s, files := files s1\<rparr>) = Some (0, load_finish L)"
    "loaded s (length (entries s)) L" by blast
  have "metric_of (load_finish L) E = metric_of L E" for E by (simp add: metric_of_def load_finish_def)
  with loaded_metric [OF assms(1) L(2)] loaded_sum [OF assms(1) L(2)] L load_finish_inv [of L] store_invD(6) [OF assms(1)]
  show ?thesis by (auto simp: loaded_def load_finish_def)
qed

text \<open>A store with one secret that has carried traffic, and its file.\<close>

definition sample_store :: secret_store where
  "sample_store = init_store\<lparr>
     entries := [\<lparr>e_secret = replicate 16 7, e_hex = concat (replicate 16 ''07''), e_label = ''team-a'',
       e_last_ip = ''10.0.0.1'', e_id = 1, e_enabled = True, e_created = 1000, e_updated = 1000,
       e_expires = 0, e_last_seen = 1500\<rparr>],
     secret_cap := 64, next_id := 2,
     metrics := [zero_metric, \<lparr>m_in = 10, m_out = 20, m_conns = 1\<rparr>],
     total_in := 10, total_out := 20, total_conns := 1, state_file := ''st''\<rparr>"

lemma sample_store_inv: "store_inv sample_store"
  by code_simp

lemma sample_store_fits: "store_fits sample_store"
  by code_simp

lemma sample_store_file: "state_file sample_store \<noteq> []" "on_disk (good_env 0) t = t"
  by (simp_all add: sample_store_def on_disk_def)

theorem load_persist_witness:
  "\<exists>s2. tcp_rpcs_load_secrets_state (good_env 1) True
       (init_store\<lparr>state_file := ''st'', files := files (snd (ext_persist_locked (good_env 0) sample_store))\<rparr>) = Some (0, s2)
     \<and> entries s2 = entries sample_store \<and> total_in s2 = 10"
proof -
  have m: "\<And>n. env_calloc (good_env 1) n" "\<And>n. env_realloc (good_env 1) n" by simp_all
  have p: "ext_persist_locked (good_env 0) sample_store = (0, snd (ext_persist_locked (good_env 0) sample_store))"
    by (simp add: ext_persist_locked_def ext_mkdirs_for_file_def good_env_def sample_store_def PATH_MAX_def)
  have "sum_metrics m_in sample_store = 10" "state_file sample_store = ''st''" by code_simp+
  with load_persist [OF sample_store_inv sample_store_fits m sample_store_file(1) p sample_store_file(2)]
  show ?thesis by auto
qed

text \<open>
  Loading any file into a well-formed store leaves it well formed: whatever the lines are, secrets
  and identifiers stay distinct, every identifier has a metrics slot and lies below \<open>next_id\<close>, and the
  labels and addresses are clean.
\<close>

theorem load_keeps_inv:
  assumes "store_inv s" "\<And>n. env_calloc env n" "tcp_rpcs_load_secrets_state env ok s = Some (r, s')"
  shows "store_inv s'"
  using assms by (rule load_inv)

text \<open>An older file, of five columns, that disables the secret of \<open>sample_store\<close>.\<close>

definition sample_old_file :: string where
  "sample_old_file = concat (replicate 16 ''07'') @ [TAB, CHR ''0'', TAB, CHR ''0'', TAB, CHR ''5'', TAB, CHR ''5'', LF]"

theorem load_keeps_inv_witness:
  "\<exists>s'. tcp_rpcs_load_secrets_state (good_env 1) True (sample_store\<lparr>files := [''st'' \<mapsto> sample_old_file]\<rparr>) = Some (0, s')
     \<and> store_inv s' \<and> map e_enabled (entries s') = [False]"
proof -
  let ?s = "sample_store\<lparr>files := [''st'' \<mapsto> sample_old_file]\<rparr>"
  have inv: "store_inv ?s" by code_simp
  have "case tcp_rpcs_load_secrets_state (good_env 1) True ?s of
      None \<Rightarrow> False | Some (r, s') \<Rightarrow> r = 0 \<and> map e_enabled (entries s') = [False]"
    by code_simp
  then obtain r s' where s': "tcp_rpcs_load_secrets_state (good_env 1) True ?s = Some (r, s')"
      "r = 0" "map e_enabled (entries s') = [False]"
    by (simp split: option.splits prod.splits)
  have "store_inv s'"
    by (rule load_keeps_inv [OF inv _ s'(1)]) simp
  then show ?thesis using s' by (intro exI [of _ s']) simp
qed

text \<open>A line whose identifier is \<open>2 ^ 30\<close>, and a process without metrics yet.\<close>

definition huge_id_file :: string where
  "huge_id_file = concat (replicate 16 ''07'') @ TAB # ''1'' @ TAB # ''0'' @ TAB # ''5'' @ TAB # ''5'' @ TAB #
     ''1073741824'' @ TAB # ''0'' @ TAB # ''0'' @ TAB # ''0'' @ TAB # ''0'' @ TAB # ''-'' @ TAB # ''a'' @ [LF]"

lemma load_new_hangs:
  assumes "metrics s = []" "2 ^ 30 \<le> pid" "ext_reserve_locked env (int (length (entries s)) + 1) s = Some (0, s0)"
  shows "load_new env secret p pid s = None"
proof -
  have "metrics s0 = []" using reserve_shape [OF assms(3)] assms(1) by auto
  with assms show ?thesis
    by (simp add: load_new_def ext_metrics_reserve_locked_def metrics_grow_diverges)
qed

text \<open>
  C34. A state file with an identifier of \<open>2 ^ 30\<close> keeps the process from starting: the loop of
  \<open>ext_metrics_reserve_locked\<close> doubles an \<open>int\<close> that becomes 0, so loading does not return.
\<close>

theorem load_hangs_on_large_id:
  assumes "env_realloc env 64"
  shows "tcp_rpcs_load_secrets_state env True (init_store\<lparr>state_file := ''st'', files := [''st'' \<mapsto> huge_id_file]\<rparr>) = None"
proof -
  let ?s = "init_store\<lparr>state_file := ''st'', files := [''st'' \<mapsto> huge_id_file]\<rparr>"
  let ?cols = "ext_split_tsv_line (c_str huge_id_file) 16"
  have lines: "get_lines huge_id_file = [huge_id_file]" by code_simp
  have a: "\<not> length huge_id_file \<le> 1" "take 1 (c_str huge_id_file) \<noteq> ''#''"
    "\<not> strneq (c_str huge_id_file) (''v3'' @ [TAB]) 3" "\<not> strneq (c_str huge_id_file) (''v2'' @ [TAB]) 3"
    "\<not> strneq (c_str huge_id_file) ''v1'' 2" "\<not> length ?cols < 5" by code_simp+
  have b: "ext_secret16_from_hex (?cols ! 0) = Some (replicate 16 7)" by code_simp
  have c: "pl_id (parse_columns ?cols) = 1073741824" by code_simp
  have f: "ext_find_idx_locked ?s k = None" for k by (simp add: ext_find_idx_locked_def init_store_def find_index_None)
  have d: "dedup_id None ?s 1073741824 = 1073741824" by (simp add: dedup_id_def init_store_def)
  have "secrets_grow 64 1 = Some 64" by (subst secrets_grow.simps) simp
  then have "\<exists>t. ext_reserve_locked env (int (length (entries ?s)) + 1) ?s = Some (0, t)"
    using assms by (simp add: ext_reserve_locked_def init_store_def)
  then have "load_new env (replicate 16 7) (parse_columns ?cols) 1073741824 ?s = None"
    using load_new_hangs [of ?s 1073741824] by (auto simp: init_store_def)
  then have "load_line env huge_id_file ?s = None"
    using a b c d f by (simp add: load_line_def Let_def)
  then show ?thesis by (simp add: tcp_rpcs_load_secrets_state_def lines)
qed

theorem load_hangs_on_large_id_witness:
  "tcp_rpcs_load_secrets_state (good_env 1) True (init_store\<lparr>state_file := ''st'', files := [''st'' \<mapsto> huge_id_file]\<rparr>) = None"
  by (rule load_hangs_on_large_id) simp

text \<open>
  A full disk loses the secrets while success is reported: when no byte of the temporary file
  reaches the disk, \<open>ext_persist_locked\<close> still returns 0, and the next start reads an empty store.
\<close>

theorem short_write_loses_secrets:
  assumes "state_file s \<noteq> []" "length (state_file s) + 10 < PATH_MAX" "\<And>d. env_mkdir env d"
    and "env_mkstemp env" "env_fdopen env" "env_rename env" "env_disk_room env = Some 0"
  shows "\<exists>s1 s2. ext_persist_locked env s = (0, s1)
     \<and> tcp_rpcs_load_secrets_state env' True (init_store\<lparr>state_file := state_file s, files := files s1\<rparr>) = Some (0, s2)
     \<and> entries s2 = []"
proof -
  have m: "mkdirs_loop (env_mkdir env) d p" for d p
    by (induction "env_mkdir env" d p rule: mkdirs_loop.induct) (simp_all add: assms(3))
  then have "ext_mkdirs_for_file (env_mkdir env) (state_file s) = 0"
    using assms(2) by (simp add: ext_mkdirs_for_file_def)
  then have "ext_persist_locked env s = (0, s\<lparr>files := (files s)(state_file s \<mapsto> [])\<rparr>)"
    using assms by (simp add: ext_persist_locked_def on_disk_def)
  moreover have "tcp_rpcs_load_secrets_state env' True
      (init_store\<lparr>state_file := state_file s, files := (files s)(state_file s \<mapsto> [])\<rparr>)
    = Some (0, load_finish (init_store\<lparr>state_file := state_file s, files := (files s)(state_file s \<mapsto> [])\<rparr>))"
    using assms(1) by (simp add: tcp_rpcs_load_secrets_state_def)
  ultimately show ?thesis by (simp add: load_finish_def init_store_def)
qed

theorem short_write_loses_secrets_witness:
  "\<exists>s1 s2. ext_persist_locked ((good_env 1)\<lparr>env_disk_room := Some 0\<rparr>) sample_store = (0, s1)
     \<and> tcp_rpcs_load_secrets_state (good_env 1) True (init_store\<lparr>state_file := state_file sample_store, files := files s1\<rparr>) = Some (0, s2)
     \<and> entries s2 = [] \<and> length (entries sample_store) = 1"
proof -
  have "length (entries sample_store) = 1" "length (state_file sample_store) + 10 < PATH_MAX"
    by (simp_all add: sample_store_def PATH_MAX_def)
  with short_write_loses_secrets [of sample_store "(good_env 1)\<lparr>env_disk_room := Some 0\<rparr>" "good_env 1"] sample_store_file(1)
  show ?thesis by simp
qed

end
