(* ===== verification/Secret_Directory.thy ===== *)
theory Secret_Directory
  imports Secret_Runs Secret_Load
begin

text \<open>
  The contract between the administration commands and the handshake: a directory of candidate keys
  from which keys can be revoked.  The handshake is the client (it tries the candidates of its
  snapshot in order), \<open>ext_cmd_remove\<close> and \<open>ext_cmd_set_enabled\<close> are the two providers.
\<close>

section \<open>Matching a handshake\<close>

text \<open>
  The loop over \<open>active_secrets\<close> in \<open>tcp_rpcs_compact_parse_execute\<close>: the first secret whose digest or
  key stream fits, with its identifier.
\<close>

fun match_secret :: "(byte list \<Rightarrow> bool) \<Rightarrow> (byte list \<times> int) list \<Rightarrow> (byte list \<times> int) option" where
  "match_secret fits [] = None"
| "match_secret fits ((k, i) # l) = (if fits k then Some (k, i) else match_secret fits l)"

lemma match_secret_Some: "match_secret fits l = Some (k, i) \<Longrightarrow> (k, i) \<in> set l \<and> fits k"
  by (induction fits l rule: match_secret.induct) (auto split: if_splits)

lemma match_secret_None: "match_secret fits l = None \<longleftrightarrow> (\<forall>(k, i) \<in> set l. \<not> fits k)"
  by (induction fits l rule: match_secret.induct) auto

section \<open>The contract\<close>

locale secret_directory =
  fixes inv :: "'s \<Rightarrow> bool"
    and valid :: "byte list \<Rightarrow> bool"
    and candidates :: "'s \<Rightarrow> (byte list \<times> int) list"
    and revoke :: "byte list \<Rightarrow> 's \<Rightarrow> 's"
  assumes revoke_inv: "inv s \<Longrightarrow> valid k \<Longrightarrow> inv (revoke k s)"
    and revoke_candidates: "inv s \<Longrightarrow> valid k \<Longrightarrow>
      set (candidates (revoke k s)) = {(j, i) \<in> set (candidates s). j \<noteq> k}"
    and one_id: "inv s \<Longrightarrow> (k, i) \<in> set (candidates s) \<Longrightarrow> (k, j) \<in> set (candidates s) \<Longrightarrow> i = j"
begin

lemma revoked_never_matches:
  "inv s \<Longrightarrow> valid k \<Longrightarrow> match_secret fits (candidates (revoke k s)) = Some (j, i) \<Longrightarrow> j \<noteq> k"
  by (auto dest!: match_secret_Some simp: revoke_candidates)

text \<open>A client that only one secret fits is served as before, when another secret is revoked.\<close>

lemma other_still_matches:
  assumes "inv s" "valid k" "j \<noteq> k"
  shows "match_secret (\<lambda>x. x = j) (candidates (revoke k s)) = match_secret (\<lambda>x. x = j) (candidates s)"
proof (cases "match_secret (\<lambda>x. x = j) (candidates s)")
  case None
  then have "\<forall>(x, i) \<in> set (candidates (revoke k s)). x \<noteq> j"
    using revoke_candidates [OF assms(1,2)] by (auto simp: match_secret_None)
  then have "match_secret (\<lambda>x. x = j) (candidates (revoke k s)) = None" by (simp only: match_secret_None)
  with None show ?thesis by simp
next
  case (Some p)
  obtain x i where p: "p = (x, i)" by (cases p)
  from match_secret_Some [OF Some [unfolded p]] have x: "x = j" "(j, i) \<in> set (candidates s)" by auto
  then have mem: "(j, i) \<in> set (candidates (revoke k s))"
    using revoke_candidates [OF assms(1,2)] assms(3) by auto
  then obtain y i' where y: "match_secret (\<lambda>x. x = j) (candidates (revoke k s)) = Some (y, i')"
    using match_secret_None [of "\<lambda>x. x = j" "candidates (revoke k s)"] by fastforce
  from match_secret_Some [OF this] have "y = j" "(j, i') \<in> set (candidates (revoke k s))" by auto
  with one_id [OF revoke_inv [OF assms(1,2)] mem] y Some p x show ?thesis by auto
qed

lemma revoke_all_inv: "inv s \<Longrightarrow> \<forall>k \<in> set ks. valid k \<Longrightarrow> inv (fold revoke ks s)"
  by (induction ks arbitrary: s) (auto intro: revoke_inv)

lemma revoke_all_candidates:
  "inv s \<Longrightarrow> \<forall>k \<in> set ks. valid k \<Longrightarrow>
   set (candidates (fold revoke ks s)) = {(j, i) \<in> set (candidates s). j \<notin> set ks}"
  by (induction ks arbitrary: s) (auto simp: revoke_candidates revoke_inv)

end

section \<open>The providers\<close>

definition active_secrets :: "int \<Rightarrow> secret_store \<Rightarrow> (byte list \<times> int) list" where
  "active_secrets now s = map (\<lambda>E. (e_secret E, e_id E)) (filter (\<lambda>E. ext_is_active_locked E now) (entries s))"

lemma active_count: "tcp_rpcs_active_secret_count now s = int (length (active_secrets now s))"
proof -
  have "sum_list (map (\<lambda>E. if ext_is_active_locked E now then 1 else 0) l)
      = int (length (filter (\<lambda>E. ext_is_active_locked E now) l))" for l :: "secret_entry list"
    by (induction l) auto
  then show ?thesis by (simp add: tcp_rpcs_active_secret_count_def active_secrets_def)
qed

lemma snapshot_active:
  "ext_snapshot_active_secrets env now s
     = (if active_secrets now s = [] \<or> env_malloc env then (0, active_secrets now s) else (-1, []))"
  unfolding ext_snapshot_active_secrets_def active_count Let_def active_secrets_def by simp

lemma active_one_id:
  "store_inv s \<Longrightarrow> (k, i) \<in> set (active_secrets now s) \<Longrightarrow> (k, j) \<in> set (active_secrets now s) \<Longrightarrow> i = j"
  using store_invD(3) [of s] by (auto simp: active_secrets_def distinct_map inj_on_def)

lemma active_secrets_cong: "entries s = entries t \<Longrightarrow> active_secrets now s = active_secrets now t"
  by (simp add: active_secrets_def)

definition remove_secret :: "host_env \<Rightarrow> byte list \<Rightarrow> secret_store \<Rightarrow> secret_store" where
  "remove_secret env k s = snd (ext_cmd_remove env (ext_secret16_to_hex k) s)"

definition disable_secret :: "host_env \<Rightarrow> byte list \<Rightarrow> secret_store \<Rightarrow> secret_store" where
  "disable_secret env k s = snd (ext_cmd_set_enabled env (ext_secret16_to_hex k) False s)"

lemma entries_snd_persist [simp]: "entries (snd (ext_persist_locked env s)) = entries s"
  using persist_frame(1) [OF surjective_pairing] .

lemma distinct_entries: "store_inv s \<Longrightarrow> distinct (entries s)"
  using store_invD(4) distinct_map by blast

lemma remove_secret_entries:
  assumes "store_inv s" "length k = 16"
  shows "set (entries (remove_secret env k s)) = {E \<in> set (entries s). e_secret E \<noteq> k}"
proof (cases "ext_find_idx_locked s k")
  case None
  then have "remove_secret env k s = s"
    using assms(2) by (simp add: remove_secret_def ext_cmd_remove_def secret_roundtrip)
  moreover have "k \<notin> e_secret ` set (entries s)" using None by (simp add: find_idx_None)
  ultimately show ?thesis by auto
next
  case (Some i)
  then have i: "i < length (entries s)" "e_secret (entries s ! i) = k" by (simp_all add: find_idx_nth)
  have "set (remove_swap i (entries s)) = set (entries s) - {entries s ! i}"
    by (rule set_remove_swap [OF distinct_entries [OF assms(1)] i(1)])
  also have "\<dots> = {E \<in> set (entries s). e_secret E \<noteq> k}"
    using i store_invD(3) [OF assms(1)] by (auto simp: distinct_map inj_on_def)
  finally show ?thesis
    using Some assms(2) by (simp add: remove_secret_def ext_cmd_remove_def secret_roundtrip)
qed

lemma disable_secret_active:
  assumes inv: "store_inv s" and k: "length k = 16"
  shows "set (active_secrets now (disable_secret env k s)) = {(j, i) \<in> set (active_secrets now s). j \<noteq> k}"
proof (cases "ext_find_idx_locked s k")
  case None
  then have "disable_secret env k s = s"
    using k by (simp add: disable_secret_def ext_cmd_set_enabled_def secret_roundtrip)
  moreover have "k \<notin> e_secret ` set (entries s)" using None by (simp add: find_idx_None)
  ultimately show ?thesis by (auto simp: active_secrets_def)
next
  case (Some n)
  then have n: "n < length (entries s)" "e_secret (entries s ! n) = k" by (simp_all add: find_idx_nth)
  let ?E = "(entries s ! n)\<lparr>e_enabled := False, e_updated := env_now env\<rparr>"
  have "entries (disable_secret env k s) = (entries s)[n := ?E]"
    using Some k by (simp add: disable_secret_def ext_cmd_set_enabled_def secret_roundtrip)
  then have set: "set (entries (disable_secret env k s)) = insert ?E (set (entries s) - {entries s ! n})"
    using n(1) distinct_entries [OF inv] by (simp add: set_update_distinct)
  have off: "\<not> ext_is_active_locked ?E now" by (simp add: ext_is_active_locked_def)
  have "inj_on e_secret (set (entries s))" using store_invD(3) [OF inv] by (simp add: distinct_map)
  then have key: "E \<in> set (entries s) \<Longrightarrow> e_secret E = k \<longleftrightarrow> E = entries s ! n" for E
    using n by (metis inj_onD nth_mem)
  have "{E \<in> insert ?E (set (entries s) - {entries s ! n}). ext_is_active_locked E now}
      = {E \<in> set (entries s). ext_is_active_locked E now \<and> e_secret E \<noteq> k}"
    using off key by (intro set_eqI) (simp, metis)
  then show ?thesis unfolding active_secrets_def set_map set_filter set by auto
qed

interpretation removal: secret_directory store_inv "\<lambda>k. length k = 16" "active_secrets now" "remove_secret env"
proof
  fix s and k :: "byte list"
  assume a: "store_inv s" "length k = 16"
  show "store_inv (remove_secret env k s)"
    unfolding remove_secret_def by (rule cmd_remove_inv [OF a(1) surjective_pairing])
  show "set (active_secrets now (remove_secret env k s)) = {(j, i) \<in> set (active_secrets now s). j \<noteq> k}"
    unfolding active_secrets_def set_map set_filter remove_secret_entries [OF a] by auto
qed (rule active_one_id)

interpretation disabling: secret_directory store_inv "\<lambda>k. length k = 16" "active_secrets now" "disable_secret env"
proof
  fix s and k :: "byte list"
  assume a: "store_inv s" "length k = 16"
  show "store_inv (disable_secret env k s)"
    unfolding disable_secret_def by (rule cmd_set_enabled_inv [OF a(1) surjective_pairing])
  show "set (active_secrets now (disable_secret env k s)) = {(j, i) \<in> set (active_secrets now s). j \<noteq> k}"
    by (rule disable_secret_active [OF a])
qed (rule active_one_id)

lemma add_new_effect:
  assumes "store_inv s" "ext_secret16_from_hex hex = Some k" "k \<notin> e_secret ` set (entries s)" "next_id s < 2 ^ 30"
    and "\<And>n. env_calloc env n" "\<And>n. env_realloc env n"
  shows "\<exists>rc s'. ext_cmd_add env hex label x b s = Some (rc, s') \<and> (rc = 0 \<or> rc = -1) \<and> next_id s' = next_id s + 1
    \<and> entries s' = entries s @ [\<lparr>e_secret = k, e_hex = ext_secret16_to_hex k, e_label = ext_sanitize_label label,
         e_last_ip = [], e_id = next_id s, e_enabled = b, e_created = env_now env, e_updated = env_now env,
         e_expires = (if x > 0 then x else 0), e_last_seen = 0\<rparr>]
    \<and> (\<exists>n. metrics s' = metrics s @ replicate n zero_metric) \<and> metrics s' ! nat (next_id s) = zero_metric
    \<and> (state_file s \<noteq> [] \<and> \<not> env_rename env \<longrightarrow> rc = -1)"
proof -
  have "0 \<le> secret_cap s" using store_invD(5) [OF assms(1)] by linarith
  moreover have "int (length (entries s)) + 1 < 2 ^ 30" using entries_below_next_id [OF assms(1)] assms(4) by linarith
  ultimately obtain c where c: "ext_reserve_locked env (int (length (entries s)) + 1) s = Some (0, s\<lparr>secret_cap := c\<rparr>)"
    using reserve_returns assms(6) by blast
  obtain n where n: "ext_metrics_reserve_locked env (next_id s) (s\<lparr>secret_cap := c\<rparr>)
      = Some (0, s\<lparr>secret_cap := c, metrics := metrics s @ replicate n zero_metric\<rparr>)" "next_id s < metrics_cap s + int n"
    using metrics_reserve_returns [OF assms(4,5), of "s\<lparr>secret_cap := c\<rparr>"] by auto
  have new: "ext_find_idx_locked s k = None" using assms(3) by (simp add: find_idx_None)
  have nx: "i32 (next_id s + 1) = next_id s + 1"
    using store_invD(6) [OF assms(1)] assms(4) by (intro i32_id) (simp add: fits_i32_def)
  let ?t = "s\<lparr>secret_cap := c, metrics := metrics s @ replicate n zero_metric,
      entries := entries s @ [\<lparr>e_secret = k, e_hex = ext_secret16_to_hex k, e_label = ext_sanitize_label label,
         e_last_ip = [], e_id = next_id s, e_enabled = b, e_created = env_now env, e_updated = env_now env,
         e_expires = (if x > 0 then x else 0), e_last_seen = 0\<rparr>],
      next_id := next_id s + 1\<rparr>"
  obtain rc s' where p: "ext_persist_locked env ?t = (rc, s')" by fastforce
  have "ext_cmd_add env hex label x b s = Some (rc, s')"
    using assms(2) new c n(1) nx p by (simp add: ext_cmd_add_def ext_add_locked_def Let_def zero_entry_def split del: if_split)
  moreover have "(metrics s @ replicate n zero_metric) ! nat (next_id s) = zero_metric"
    using store_invD(6,8) [OF assms(1)] n(2) by (auto simp: nth_append)
  moreover have "state_file s \<noteq> [] \<and> \<not> env_rename env \<longrightarrow> rc = -1"
    using p by (auto simp: ext_persist_locked_def split: if_splits)
  ultimately show ?thesis using persist_frame [OF p] persist_result [OF p] by auto
qed

section \<open>Properties\<close>

text \<open>
  C28. A removed secret is refused by every later handshake: after \<open>ext_cmd_remove\<close> of a secret, in any
  accepted spelling of it, no snapshot of the store matches it, whatever the result of writing the file.
\<close>

theorem remove_revokes:
  assumes "store_inv s" "ext_secret16_from_hex hex = Some k" "ext_cmd_remove env hex s = (r, s')"
    and "ext_snapshot_active_secrets env' now s' = (r', l)" "match_secret fits l = Some (j, i)"
  shows "j \<noteq> k"
proof -
  have k: "length k = 16" by (rule from_hex_length [OF assms(2)])
  have "ext_cmd_remove env hex s = ext_cmd_remove env (ext_secret16_to_hex k) s"
    using assms(2) k by (simp add: ext_cmd_remove_def secret_roundtrip)
  then have s': "s' = remove_secret env k s" using assms(3) by (metis remove_secret_def snd_conv)
  have "l = [] \<or> l = active_secrets now s'" using assms(4) by (auto simp: snapshot_active split: if_splits)
  then show ?thesis
    using assms(5) removal.revoked_never_matches [OF assms(1) k] unfolding s'
    by (metis match_secret.simps(1) option.distinct(1))
qed

theorem remove_revokes_witness:
  "match_secret (\<lambda>k. hd k = 8 \<or> hd k = 7)
      (snd (ext_snapshot_active_secrets (good_env 1) 1 (snd (ext_cmd_remove (good_env 1) (''dd'' @ concat (replicate 16 ''07'')) two_secrets))))
      \<noteq> Some (replicate 16 7, 1)"
proof
  assume m: "match_secret (\<lambda>k. hd k = 8 \<or> hd k = 7)
      (snd (ext_snapshot_active_secrets (good_env 1) 1 (snd (ext_cmd_remove (good_env 1) (''dd'' @ concat (replicate 16 ''07'')) two_secrets))))
      = Some (replicate 16 7, 1)"
  have "ext_secret16_from_hex (''dd'' @ concat (replicate 16 ''07'')) = Some (replicate 16 7)" by code_simp
  from remove_revokes [OF two_secrets_inv this surjective_pairing surjective_pairing m] show False by simp
qed

text \<open>
  Disabling a secret revokes it in the same way, and a client that holds another secret is matched
  exactly as before, with the same identifier.
\<close>

theorem disable_revokes_only_that:
  assumes "store_inv s" "ext_secret16_from_hex hex = Some k" "ext_cmd_set_enabled env hex False s = (r, s')"
    and "env_malloc env'" "length j = 16"
  shows "match_secret (\<lambda>x. x = j) (snd (ext_snapshot_active_secrets env' now s'))
    = (if j = k then None else match_secret (\<lambda>x. x = j) (snd (ext_snapshot_active_secrets env' now s)))"
proof -
  have k: "length k = 16" by (rule from_hex_length [OF assms(2)])
  have "ext_cmd_set_enabled env hex False s = ext_cmd_set_enabled env (ext_secret16_to_hex k) False s"
    using assms(2) k by (simp add: ext_cmd_set_enabled_def secret_roundtrip)
  then have s': "s' = disable_secret env k s" using assms(3) by (metis disable_secret_def snd_conv)
  have "match_secret (\<lambda>x. x = k) (active_secrets now s') = None"
    unfolding match_secret_None s' disabling.revoke_candidates [OF assms(1) k] by auto
  then show ?thesis
    using disabling.other_still_matches [OF assms(1) k, of j] assms(4)
    by (auto simp: s' snapshot_active)
qed

theorem disable_revokes_only_that_witness:
  "match_secret (\<lambda>x. x = replicate 16 8) (snd (ext_snapshot_active_secrets (good_env 1) 1
      (snd (ext_cmd_set_enabled (good_env 1) (concat (replicate 16 ''07'')) False two_secrets)))) = Some (replicate 16 8, 2)"
proof -
  have "ext_secret16_from_hex (concat (replicate 16 ''07'')) = Some (replicate 16 7)" by code_simp
  from disable_revokes_only_that [OF two_secrets_inv this surjective_pairing, of "good_env 1" "replicate 16 8" 1 "good_env 1"]
  have "match_secret (\<lambda>x. x = replicate 16 8) (snd (ext_snapshot_active_secrets (good_env 1) 1
      (snd (ext_cmd_set_enabled (good_env 1) (concat (replicate 16 ''07'')) False two_secrets))))
    = match_secret (\<lambda>x. x = replicate 16 8) (snd (ext_snapshot_active_secrets (good_env 1) 1 two_secrets))"
    by simp
  also have "\<dots> = Some (replicate 16 8, 2)" by code_simp
  finally show ?thesis .
qed

text \<open>
  Adding a new secret appends one entry with the next identifier, the cleaned label and the times of
  the call, and zero counters; every other entry and counter is as before.  It returns, when memory
  can be had and fewer than \<open>2 ^ 30\<close> identifiers are in use; its result is that of writing the file.
\<close>

theorem add_new_secret:
  assumes "store_inv s" "ext_secret16_from_hex hex = Some k" "k \<notin> e_secret ` set (entries s)" "next_id s < 2 ^ 30"
    and "\<And>n. env_calloc env n" "\<And>n. env_realloc env n"
  shows "\<exists>rc s'. ext_cmd_add env hex label x b s = Some (rc, s') \<and> (rc = 0 \<or> rc = -1) \<and> next_id s' = next_id s + 1
    \<and> entries s' = entries s @ [\<lparr>e_secret = k, e_hex = ext_secret16_to_hex k, e_label = ext_sanitize_label label,
         e_last_ip = [], e_id = next_id s, e_enabled = b, e_created = env_now env, e_updated = env_now env,
         e_expires = (if x > 0 then x else 0), e_last_seen = 0\<rparr>]
    \<and> (\<exists>n. metrics s' = metrics s @ replicate n zero_metric) \<and> metrics s' ! nat (next_id s) = zero_metric"
  using add_new_effect [OF assms, of label x b] by (elim exE conjE) (intro exI conjI; assumption)

theorem add_new_secret_witness:
  "\<exists>rc s'. ext_cmd_add (good_env 9) (concat (replicate 16 ''09'')) ''a b'' 50 True two_secrets = Some (rc, s')
    \<and> map e_id (entries s') = [1, 2, 3] \<and> e_label (last (entries s')) = ''a_b''"
proof -
  have "ext_secret16_from_hex (concat (replicate 16 ''09'')) = Some (replicate 16 9)"
    "replicate 16 9 \<notin> e_secret ` set (entries two_secrets)" by code_simp+
  moreover have "next_id two_secrets = 3" "map e_id (entries two_secrets) = [1, 2]" "ext_sanitize_label ''a b'' = ''a_b''"
    by code_simp+
  ultimately show ?thesis
    using add_new_secret [OF two_secrets_inv, of "concat (replicate 16 ''09'')" "replicate 16 9" "good_env 9" "''a b''" 50 True]
    by auto
qed

text \<open>
  Disabling the expired secrets never changes which secrets work: at the time of the call and at any
  later time, the candidates of a handshake are those it would have had without it.  The counts
  returned are the number of entries and of those it disabled, and a second call disables none.
\<close>

theorem disable_expired_harmless:
  assumes "ext_cmd_disable_expired env t s = (r, checked, disabled, now, s')" "now \<le> later" "now' = now"
  shows "active_secrets later s' = active_secrets later s
    \<and> checked = int (length (entries s))
    \<and> disabled = int (length (filter (\<lambda>E. e_enabled E \<and> \<not> ext_is_active_locked E now) (entries s)))
    \<and> (0 < now \<longrightarrow> fst (snd (snd (ext_cmd_disable_expired env now' s'))) = 0)"
proof -
  let ?f = "\<lambda>E. if expired now E then E\<lparr>e_enabled := False, e_updated := now\<rparr> else E"
  have p: "ext_persist_locked env (s\<lparr>entries := map ?f (entries s)\<rparr>) = (r, s')"
    and c: "checked = int (length (entries s))" "disabled = int (length (filter (expired now) (entries s)))"
    using assms(1) by (auto simp: ext_cmd_disable_expired_def Let_def disable_loop_spec split: prod.splits)
  have e: "entries s' = map ?f (entries s)" using persist_frame(1) [OF p] by simp
  have "map (\<lambda>E. (e_secret E, e_id E)) (filter (\<lambda>E. ext_is_active_locked E later) (map ?f l))
      = map (\<lambda>E. (e_secret E, e_id E)) (filter (\<lambda>E. ext_is_active_locked E later) l)" for l
    using assms(2) by (induction l) (auto simp: ext_is_active_locked_def expired_def)
  moreover have "expired now = (\<lambda>E. e_enabled E \<and> \<not> ext_is_active_locked E now)"
    by (auto simp: expired_def ext_is_active_locked_def fun_eq_iff)
  moreover have "\<forall>E \<in> set (entries s'). \<not> expired now E" unfolding e by (auto simp: expired_def)
  then have "0 < now \<Longrightarrow> fst (snd (snd (ext_cmd_disable_expired env now' s'))) = 0"
    by (simp add: ext_cmd_disable_expired_def Let_def disable_loop_spec assms(3) filter_empty_conv split: prod.split)
  ultimately show ?thesis using c by (simp add: active_secrets_def e)
qed

definition expiring_secrets :: secret_store where
  "expiring_secrets = two_secrets\<lparr>entries := map (\<lambda>E. E\<lparr>e_expires := 100 * e_id E\<rparr>) (entries two_secrets)\<rparr>"

theorem disable_expired_harmless_witness:
  "active_secrets 170 (snd (snd (snd (snd (ext_cmd_disable_expired (good_env 1) 150 expiring_secrets))))) = [(replicate 16 8, 2)]
   \<and> fst (snd (snd (ext_cmd_disable_expired (good_env 1) 150 expiring_secrets))) = 1"
proof -
  obtain r c d n s' where x: "ext_cmd_disable_expired (good_env 1) 150 expiring_secrets = (r, c, d, n, s')" by (metis prod_cases5)
  have n: "n = 150" using x by (auto simp: ext_cmd_disable_expired_def Let_def split: prod.splits)
  have "active_secrets 170 expiring_secrets = [(replicate 16 8, 2)]"
    "length (filter (\<lambda>E. e_enabled E \<and> \<not> ext_is_active_locked E 150) (entries expiring_secrets)) = 1" by code_simp+
  with disable_expired_harmless [OF x _ refl, of 170] x n show ?thesis by simp
qed

end
