(* ===== verification/Admin_Text.thy ===== *)
theory Admin_Text
  imports Secret_Directory
begin

text \<open>
  The text layer of the administration interface of \<open>net/net-tcp-rpc-ext-server.c\<close>: the growing
  buffer \<open>ext_strbuf\<close>, sending, the key-value words of the line protocol, the HTTP status lines,
  headers and tokens, and the three readers of JSON fields.
\<close>

section \<open>Sending\<close>

datatype send_result = Sent nat | Send_eintr | Send_failed

text \<open>
  \<open>ext_write_all\<close>: the result, what was sent, and the answers of \<open>send\<close> not used yet.  Without an answer
  left the call is still blocked (\<open>None\<close>).
\<close>

fun ext_write_all :: "send_result list \<Rightarrow> string \<Rightarrow> (int \<times> string \<times> send_result list) option" where
  "ext_write_all rs [] = Some (0, [], rs)"
| "ext_write_all [] (c # cs) = None"
| "ext_write_all (Send_eintr # rs) (c # cs) = ext_write_all rs (c # cs)"
| "ext_write_all (Send_failed # rs) (c # cs) = Some (-1, [], rs)"
| "ext_write_all (Sent n # rs) (c # cs) =
     map_option (\<lambda>(r, t, rs'). (r, take n (c # cs) @ t, rs')) (ext_write_all rs (drop n (c # cs)))"

lemma ext_write_all_sent: "ext_write_all rs buf = Some (0, t, rs') \<Longrightarrow> t = buf"
  by (induction rs buf arbitrary: t rs' rule: ext_write_all.induct) auto

section \<open>The growing buffer\<close>

record ext_strbuf =
  sb_s :: string
  sb_cap :: nat

definition sb_empty :: ext_strbuf where
  "sb_empty = \<lparr>sb_s = [], sb_cap = 0\<rparr>"

function sb_double :: "nat \<Rightarrow> nat \<Rightarrow> nat" where
  "sb_double new_cap need = (if 0 < new_cap \<and> new_cap < need then sb_double (2 * new_cap) need else new_cap)"
  by pat_completeness auto
termination by (relation "measure (\<lambda>(c, n). n - c)") auto

declare sb_double.simps [simp del]

lemma sb_double_enough: "0 < c \<Longrightarrow> n \<le> sb_double c n"
  by (induction c n rule: sb_double.induct) (subst sb_double.simps, auto)

definition ext_sb_grow :: "host_env \<Rightarrow> nat \<Rightarrow> ext_strbuf \<Rightarrow> ext_strbuf option" where
  "ext_sb_grow env need_extra B =
     (if length (sb_s B) + need_extra + 1 \<le> sb_cap B then Some B
      else
        let new_cap = sb_double (if sb_cap B \<noteq> 0 then sb_cap B else 512) (length (sb_s B) + need_extra + 1)
        in if env_realloc env (int new_cap) then Some (B\<lparr>sb_cap := new_cap\<rparr>) else None)"

definition ext_sb_appendf :: "host_env \<Rightarrow> string \<Rightarrow> ext_strbuf \<Rightarrow> ext_strbuf option" where
  "ext_sb_appendf env t B =
     (case ext_sb_grow env (length t) B of
        None \<Rightarrow> None
      | Some B1 \<Rightarrow> Some (B1\<lparr>sb_s := sb_s B1 @ snprintf_trunc (sb_cap B1 - length (sb_s B1)) t\<rparr>))"

lemma sb_grow_room:
  "ext_sb_grow env n B = Some B' \<Longrightarrow> sb_s B' = sb_s B \<and> length (sb_s B) + n + 1 \<le> sb_cap B'"
  using sb_double_enough [of "if sb_cap B \<noteq> 0 then sb_cap B else 512" "length (sb_s B) + n + 1"]
  by (auto simp: ext_sb_grow_def Let_def split: if_splits)

text \<open>The second \<open>vsnprintf\<close> never cuts anything off.\<close>

lemma sb_appendf_Some: "ext_sb_appendf env t B = Some B' \<Longrightarrow> sb_s B' = sb_s B @ t"
  by (auto simp: ext_sb_appendf_def snprintf_trunc_def split: option.splits dest!: sb_grow_room)

lemma sb_appendf_ok: "(\<And>n. env_realloc env n) \<Longrightarrow> \<exists>B'. ext_sb_appendf env t B = Some B' \<and> sb_s B' = sb_s B @ t"
proof -
  assume m: "\<And>n. env_realloc env n"
  then have "ext_sb_appendf env t B \<noteq> None" by (auto simp: ext_sb_appendf_def ext_sb_grow_def Let_def)
  then show ?thesis using sb_appendf_Some by blast
qed

section \<open>Words of the line protocol\<close>

definition ext_admin_send_err :: "string \<Rightarrow> string" where
  "ext_admin_send_err msg = snprintf_trunc 256 (''ERR '' @ msg @ [LF])"

fun ext_find_kv :: "(string \<times> string) list \<Rightarrow> string \<Rightarrow> string option" where
  "ext_find_kv [] key = None"
| "ext_find_kv ((k, v) # kvs) key = (if k = key then Some v else ext_find_kv kvs key)"

text \<open>The loop that fills \<open>keys\<close> and \<open>vals\<close>; \<open>room\<close> counts the free places of the 64.\<close>

function read_kvs :: "nat \<Rightarrow> string \<Rightarrow> (string \<times> string) list" where
  "read_kvs room s =
     (case strtok [CHR '' '', TAB, CR] s of
        None \<Rightarrow> []
      | Some (tok, rest) \<Rightarrow>
          if room = 0 then []
          else case split_char (CHR ''='') tok of
              (k, Some (v # vs)) \<Rightarrow> if k = [] then read_kvs room rest else (k, v # vs) # read_kvs (room - 1) rest
            | _ \<Rightarrow> read_kvs room rest)"
  by pat_completeness auto
termination by (relation "measure (\<lambda>(r, s). length s)") (auto dest: strtok_shrinks)

declare read_kvs.simps [simp del]

section \<open>HTTP\<close>

definition ext_http_status_text :: "nat \<Rightarrow> string" where
  "ext_http_status_text code =
     (if code = 200 then ''OK'' else if code = 201 then ''Created'' else if code = 400 then ''Bad Request''
      else if code = 401 then ''Unauthorized'' else if code = 404 then ''Not Found''
      else if code = 409 then ''Conflict'' else if code = 500 then ''Internal Server Error'' else ''OK'')"

abbreviation (input) "CRLF \<equiv> [CR, LF]"

definition ext_http_send_json :: "nat \<Rightarrow> string \<Rightarrow> string" where
  "ext_http_send_json code body =
     ''HTTP/1.1 '' @ show_nat code @ '' '' @ ext_http_status_text code @ CRLF
     @ ''Content-Type: application/json'' @ CRLF
     @ ''Content-Length: '' @ show_nat (length body) @ CRLF
     @ ''Connection: close'' @ CRLF @ CRLF @ body"

definition quoted :: "string \<Rightarrow> string" where
  "quoted s = QUOTE # s @ [QUOTE]"

text \<open>Without memory for the error text nothing is sent.\<close>

definition ext_http_send_error :: "host_env \<Rightarrow> nat \<Rightarrow> string \<Rightarrow> string" where
  "ext_http_send_error env code msg =
     (case ext_sb_appendf env (''{'' @ quoted ''error'' @ '':'' @ quoted msg @ ''}'') sb_empty of
        None \<Rightarrow> []
      | Some B \<Rightarrow> ext_http_send_json code (sb_s B))"

definition header_at :: "string \<Rightarrow> string \<Rightarrow> string option" where
  "header_at headers name =
     (case find_sub_nocase (CRLF @ name @ '':'') headers of
        Some p \<Rightarrow> Some (drop (p + 2) headers)
      | None \<Rightarrow>
          if strncaseeq headers name (length name) \<and> length name < length headers \<and> headers ! length name = CHR '':''
          then Some headers else None)"

text \<open>\<open>None\<close> is the result 0 (also for an empty value).\<close>

definition ext_http_get_header_value :: "string \<Rightarrow> string \<Rightarrow> nat \<Rightarrow> string option" where
  "ext_http_get_header_value headers name out_size =
     (if out_size = 0 \<or> length name + 3 \<ge> 128 then None
      else case header_at headers name of
        None \<Rightarrow> None
      | Some h \<Rightarrow>
          let p = dropWhile (\<lambda>c. c = CHR '' '' \<or> c = TAB) (drop (length name + 1) h);
              out = take (out_size - 1) (takeWhile (\<lambda>c. c \<noteq> CR \<and> c \<noteq> LF) p)
          in if out = [] then None else Some out)"

definition ext_http_parse_content_length :: "string \<Rightarrow> int" where
  "ext_http_parse_content_length headers =
     (case ext_http_get_header_value headers ''Content-Length'' 64 of
        None \<Rightarrow> 0
      | Some val \<Rightarrow> if atoi val < 0 then 0 else atoi val)"

text \<open>The parameters of the query, one after the other.\<close>

function token_in_query :: "nat \<Rightarrow> string \<Rightarrow> string option" where
  "token_in_query out_size q =
     (if q = [] then None
      else case split_char (CHR ''&'') q of (p, rest) \<Rightarrow>
        if length p > 6 \<and> take 6 p = ''token='' then Some (take (out_size - 1) (drop 6 p))
        else case rest of None \<Rightarrow> None | Some r \<Rightarrow> token_in_query out_size r)"
  by pat_completeness auto
termination
proof (relation "measure (\<lambda>(n, q). length q)")
  fix n and q p r :: string and rest
  assume a: "(p, rest) = split_char (CHR ''&'') q" "rest = Some r"
  have "length (dropWhile (\<lambda>x. x \<noteq> CHR ''&'') q) \<le> length q" by (rule length_dropWhile_le)
  with a show "((n, r), n, q) \<in> measure (\<lambda>(n, q). length q)"
    by (auto simp: split_char_def split: list.splits)
qed auto

declare token_in_query.simps [simp del]

definition ext_http_extract_token_from_uri :: "string \<Rightarrow> nat \<Rightarrow> string option" where
  "ext_http_extract_token_from_uri uri out_size =
     (case split_char (CHR ''?'') uri of
        (_, None) \<Rightarrow> None
      | (_, Some q) \<Rightarrow> token_in_query out_size q)"

section \<open>JSON fields\<close>

definition ext_http_json_find_key :: "string \<Rightarrow> string \<Rightarrow> string option" where
  "ext_http_json_find_key body key =
     (if length key + 2 \<ge> 128 then None
      else case find_sub (quoted key) body of
        None \<Rightarrow> None
      | Some n \<Rightarrow>
          (case dropWhile c_isspace (drop (n + length key + 2) body) of
             c # p \<Rightarrow> if c = CHR '':'' then Some (dropWhile c_isspace p) else None
           | [] \<Rightarrow> None))"

text \<open>The copying loop of \<open>ext_http_json_get_string\<close>: what it wrote, and where it stopped.\<close>

fun json_copy :: "nat \<Rightarrow> string \<Rightarrow> string \<times> string" where
  "json_copy 0 p = ([], p)"
| "json_copy (Suc room) [] = ([], [])"
| "json_copy (Suc room) (c # p) =
     (if c = QUOTE then ([], c # p)
      else case (c = BACKSLASH, p) of
          (True, d # q) \<Rightarrow> (let (out, r) = json_copy room q in (d # out, r))
        | _ \<Rightarrow> (let (out, r) = json_copy room p in (c # out, r)))"

text \<open>
  The result, and the bytes written to \<open>out\<close>.  Only a successful call ends them with a NUL; after a
  failed one the bytes behind them are those of the stack.
\<close>

definition ext_http_json_get_string :: "string \<Rightarrow> string \<Rightarrow> nat \<Rightarrow> bool \<times> string" where
  "ext_http_json_get_string body key out_size =
     (case ext_http_json_find_key body key of
        None \<Rightarrow> (False, [])
      | Some p \<Rightarrow>
          if p = [] \<or> hd p \<noteq> QUOTE \<or> out_size = 0 then (False, [])
          else let (out, r) = json_copy (out_size - 1) (tl p)
               in (r \<noteq> [] \<and> hd r = QUOTE, out))"

text \<open>\<open>None\<close> is the result 0 (malformed); \<open>Some None\<close> means that the key is not there.\<close>

definition ext_http_json_get_int64 :: "string \<Rightarrow> string \<Rightarrow> int option option" where
  "ext_http_json_get_int64 body key =
     (case ext_http_json_find_key body key of
        None \<Rightarrow> Some None
      | Some p \<Rightarrow>
          let (v, erange, rest) = strtoll p
          in if erange \<or> rest = p then None else Some (Some v))"

definition ext_http_json_get_bool :: "string \<Rightarrow> string \<Rightarrow> bool option option" where
  "ext_http_json_get_bool body key =
     (case ext_http_json_find_key body key of
        None \<Rightarrow> Some None
      | Some p \<Rightarrow>
          if strncaseeq p ''true'' 4 then Some (Some True)
          else if strncaseeq p ''false'' 5 then Some (Some False)
          else if p \<noteq> [] \<and> hd p = CHR ''1'' then Some (Some True)
          else if p \<noteq> [] \<and> hd p = CHR ''0'' then Some (Some False)
          else None)"

end
