(* ===== verification/Admin_Api.thy ===== *)
theory Admin_Api
  imports Admin_Text
begin

text \<open>
  The administration interface of \<open>net/net-tcp-rpc-ext-server.c\<close>: the JSON documents, the line
  protocol (\<open>ext_admin_handle_line\<close>), the HTTP interface (\<open>ext_admin_handle_http\<close>) and the reader of a
  client's request (\<open>ext_admin_handle_client\<close>).  A handler gives the bytes it sends and the new store;
  \<open>None\<close> is a call that does not return.  \<open>junk\<close> is what the stack holds behind the bytes that a failed
  \<open>ext_http_json_get_string\<close> wrote to the label buffer.
\<close>

section \<open>JSON documents\<close>

definition jstr :: "string \<Rightarrow> string \<Rightarrow> string" where
  "jstr key v = quoted key @ '':'' @ quoted v"

definition jraw :: "string \<Rightarrow> string \<Rightarrow> string" where
  "jraw key v = quoted key @ '':'' @ v"

definition jbool :: "bool \<Rightarrow> string" where
  "jbool b = (if b then ''true'' else ''false'')"

fun commas :: "string list \<Rightarrow> string" where
  "commas [] = []"
| "commas [x] = x"
| "commas (x # xs) = x @ '','' @ commas xs"

definition traffic_fields :: "int \<Rightarrow> int \<Rightarrow> int \<Rightarrow> string list" where
  "traffic_fields i outb c =
     [jraw ''bytes_in'' (show_int i), jraw ''bytes_out'' (show_int outb),
      jraw ''bytes_total'' (show_int (i64 (i + outb))), jraw ''connections'' (show_int c)]"

definition status_json :: "int \<Rightarrow> secret_store \<Rightarrow> string" where
  "status_json now s =
     ''{'' @ commas ([jraw ''ok'' ''true'', jraw ''total'' (show_int (tcp_rpcs_total_secret_count s)),
        jraw ''active'' (show_int (tcp_rpcs_active_secret_count now s)), jraw ''now'' (show_int now)]
       @ traffic_fields (total_in s) (total_out s) (total_conns s)) @ ''}''"

definition ext_http_append_status_json :: "host_env \<Rightarrow> secret_store \<Rightarrow> ext_strbuf \<Rightarrow> ext_strbuf option" where
  "ext_http_append_status_json env s B = ext_sb_appendf env (status_json (env_now env) s) B"

definition list_item_json :: "int \<Rightarrow> secret_store \<Rightarrow> secret_entry \<Rightarrow> string" where
  "list_item_json now s E =
     (let M = metric_of s E in
      ''{'' @ commas ([jstr ''secret'' (e_hex E), jraw ''enabled'' (jbool (e_enabled E)),
        jraw ''active'' (jbool (ext_is_active_locked E now)), jraw ''expires'' (show_int (e_expires E)),
        jraw ''created'' (show_int (e_created E)), jraw ''updated'' (show_int (e_updated E)),
        jraw ''id'' (show_int (e_id E))]
       @ traffic_fields (m_in M) (m_out M) (m_conns M)
       @ [jraw ''last_seen'' (show_int (e_last_seen E)), jstr ''last_ip'' (e_last_ip E), jstr ''label'' (e_label E)]) @ ''}'')"

definition stats_item_json :: "int \<Rightarrow> secret_store \<Rightarrow> secret_entry \<Rightarrow> string" where
  "stats_item_json now s E =
     (let M = metric_of s E in
      ''{'' @ commas ([jstr ''secret'' (e_hex E), jstr ''label'' (e_label E), jraw ''id'' (show_int (e_id E)),
        jraw ''enabled'' (jbool (e_enabled E)), jraw ''active'' (jbool (ext_is_active_locked E now))]
       @ traffic_fields (m_in M) (m_out M) (m_conns M)
       @ [jraw ''last_seen'' (show_int (e_last_seen E)), jstr ''last_ip'' (e_last_ip E)]) @ ''}'')"

text \<open>The loop over the entries: a comma before every item but the first.\<close>

fun append_items :: "host_env \<Rightarrow> (secret_entry \<Rightarrow> string) \<Rightarrow> bool \<Rightarrow> secret_entry list \<Rightarrow> ext_strbuf \<Rightarrow> ext_strbuf option" where
  "append_items env item first [] B = Some B"
| "append_items env item first (E # Es) B =
     (case (if first then Some B else ext_sb_appendf env '','' B) of
        None \<Rightarrow> None
      | Some B1 \<Rightarrow>
          (case ext_sb_appendf env (item E) B1 of
             None \<Rightarrow> None
           | Some B2 \<Rightarrow> append_items env item False Es B2))"

definition ext_http_append_list_json :: "host_env \<Rightarrow> secret_store \<Rightarrow> ext_strbuf \<Rightarrow> ext_strbuf option" where
  "ext_http_append_list_json env s B =
     (case ext_sb_appendf env (''{'' @ jraw ''ok'' ''true'' @ '','' @ jraw ''secrets'' ''['') B of
        None \<Rightarrow> None
      | Some B1 \<Rightarrow>
          (case append_items env (list_item_json (env_now env) s) True (entries s) B1 of
             None \<Rightarrow> None
           | Some B2 \<Rightarrow> ext_sb_appendf env '']}'' B2))"

definition stats_head :: "int \<Rightarrow> secret_store \<Rightarrow> string" where
  "stats_head now s =
     ''{'' @ commas [jraw ''ok'' ''true'', jraw ''now'' (show_int now),
        jraw ''totals'' (''{'' @ commas (traffic_fields (total_in s) (total_out s) (total_conns s)) @ ''}''),
        jraw ''secrets'' (''{'' @ commas [jraw ''total'' (show_int (tcp_rpcs_total_secret_count s)),
          jraw ''active'' (show_int (tcp_rpcs_active_secret_count now s)), jraw ''items'' ''['' ])]"

definition ext_http_append_stats_json :: "host_env \<Rightarrow> secret_store \<Rightarrow> ext_strbuf \<Rightarrow> ext_strbuf option" where
  "ext_http_append_stats_json env s B =
     (case ext_sb_appendf env (stats_head (env_now env) s) B of
        None \<Rightarrow> None
      | Some B1 \<Rightarrow>
          (case append_items env (stats_item_json (env_now env) s) True (entries s) B1 of
             None \<Rightarrow> None
           | Some B2 \<Rightarrow> ext_sb_appendf env '']}}'' B2))"

section \<open>The line protocol\<close>

type_synonym handled = "(string \<times> secret_store) option"

definition traffic_words :: "int \<Rightarrow> int \<Rightarrow> int \<Rightarrow> string" where
  "traffic_words i outb c =
     ''bytes_in='' @ show_int i @ '' bytes_out='' @ show_int outb
     @ '' bytes_total='' @ show_int (i64 (i + outb)) @ '' connections='' @ show_int c"

definition line_STATUS :: "host_env \<Rightarrow> secret_store \<Rightarrow> string" where
  "line_STATUS env s =
     (let now = env_now env in
      snprintf_trunc 256 (''OK total='' @ show_int (tcp_rpcs_total_secret_count s)
        @ '' active='' @ show_int (tcp_rpcs_active_secret_count now s) @ '' now='' @ show_int now
        @ '' '' @ traffic_words (total_in s) (total_out s) (total_conns s) @ [LF]))"

definition line_STATS :: "host_env \<Rightarrow> secret_store \<Rightarrow> string" where
  "line_STATS env s =
     (case ext_http_append_stats_json env s sb_empty of
        None \<Rightarrow> ext_admin_send_err ''oom''
      | Some B \<Rightarrow> sb_s B @ [LF])"

definition list_head :: "int \<Rightarrow> secret_store \<Rightarrow> string" where
  "list_head now s =
     ''OK total='' @ show_int (int (length (entries s)))
     @ '' active='' @ show_int (tcp_rpcs_active_secret_count now s)
     @ '' '' @ traffic_words (total_in s) (total_out s) (total_conns s) @ [LF]"

definition list_line :: "secret_store \<Rightarrow> secret_entry \<Rightarrow> string" where
  "list_line s E =
     (let M = metric_of s E in
      ''secret='' @ e_hex E @ '' id='' @ show_int (e_id E) @ '' enabled='' @ show_bool (e_enabled E)
      @ '' expires='' @ show_int (e_expires E) @ '' created='' @ show_int (e_created E)
      @ '' updated='' @ show_int (e_updated E) @ '' '' @ traffic_words (m_in M) (m_out M) (m_conns M)
      @ '' last_seen='' @ show_int (e_last_seen E) @ '' last_ip='' @ e_last_ip E
      @ '' label='' @ e_label E @ [LF])"

text \<open>
  \<open>snprintf\<close> cuts a line at 511 bytes, while the length passed on is the full one; \<open>list_line_fits\<close>
  shows that the two agree.
\<close>

definition line_LIST :: "host_env \<Rightarrow> secret_store \<Rightarrow> string" where
  "line_LIST env s =
     snprintf_trunc 512 (list_head (env_now env) s)
     @ concat (map (\<lambda>E. snprintf_trunc 512 (list_line s E)) (entries s)) @ ''.'' @ [LF]"

definition line_EXPIRE :: "host_env \<Rightarrow> (string \<times> string) list \<Rightarrow> secret_store \<Rightarrow> string \<times> secret_store" where
  "line_EXPIRE env kvs s =
     (let now = (case ext_find_kv kvs ''now'' of None \<Rightarrow> 0 | Some t \<Rightarrow> atoll t);
          (rc, checked, disabled, used_now, s') = ext_cmd_disable_expired env now s
      in (if rc < 0 then ext_admin_send_err ''update failed''
          else snprintf_trunc 256 (''OK checked='' @ show_int checked @ '' disabled='' @ show_int disabled
                 @ '' now='' @ show_int used_now @ [LF]), s'))"

definition OK_line :: string where
  "OK_line = ''OK'' @ [LF]"

definition line_ADD :: "host_env \<Rightarrow> (string \<times> string) list \<Rightarrow> secret_store \<Rightarrow> handled" where
  "line_ADD env kvs s =
     (case ext_find_kv kvs ''secret'' of
        None \<Rightarrow> Some (ext_admin_send_err ''secret is required'', s)
      | Some secret \<Rightarrow>
          let label = (case ext_find_kv kvs ''label'' of None \<Rightarrow> [] | Some l \<Rightarrow> l);
              expires = (case ext_find_kv kvs ''expires'' of None \<Rightarrow> 0 | Some t \<Rightarrow> atoll t);
              enabled = ext_parse_bool (ext_find_kv kvs ''enabled'') True
          in map_option (\<lambda>(rc, s').
               (if rc = -2 then ext_admin_send_err ''invalid secret format''
                else if rc < 0 then ext_admin_send_err ''add failed''
                else OK_line, s')) (ext_cmd_add env secret label expires enabled s))"

definition line_result :: "string \<Rightarrow> int \<Rightarrow> string" where
  "line_result failed rc =
     (if rc = -2 then ext_admin_send_err ''invalid secret format''
      else if rc = -3 then ext_admin_send_err ''secret not found''
      else if rc < 0 then ext_admin_send_err failed
      else OK_line)"

definition line_REMOVE :: "host_env \<Rightarrow> (string \<times> string) list \<Rightarrow> secret_store \<Rightarrow> string \<times> secret_store" where
  "line_REMOVE env kvs s =
     (case ext_find_kv kvs ''secret'' of
        None \<Rightarrow> (ext_admin_send_err ''secret is required'', s)
      | Some secret \<Rightarrow> (let (rc, s') = ext_cmd_remove env secret s in (line_result ''remove failed'' rc, s')))"

definition line_ENABLE :: "host_env \<Rightarrow> bool \<Rightarrow> (string \<times> string) list \<Rightarrow> secret_store \<Rightarrow> string \<times> secret_store" where
  "line_ENABLE env enable kvs s =
     (case ext_find_kv kvs ''secret'' of
        None \<Rightarrow> (ext_admin_send_err ''secret is required'', s)
      | Some secret \<Rightarrow>
          (let (rc, s') = ext_cmd_set_enabled env secret enable s in (line_result ''update failed'' rc, s')))"

definition line_command :: "host_env \<Rightarrow> string \<Rightarrow> (string \<times> string) list \<Rightarrow> secret_store \<Rightarrow> handled" where
  "line_command env cmd kvs s =
     (if strcaseeq cmd ''PING'' then Some (''OK PONG'' @ [LF], s)
      else if strcaseeq cmd ''STATUS'' then Some (line_STATUS env s, s)
      else if strcaseeq cmd ''STATS'' then Some (line_STATS env s, s)
      else if strcaseeq cmd ''LIST'' then Some (line_LIST env s, s)
      else if strcaseeq cmd ''EXPIRE_DISABLE'' \<or> strcaseeq cmd ''SYNC_EXPIRED'' then Some (line_EXPIRE env kvs s)
      else if strcaseeq cmd ''ADD'' then line_ADD env kvs s
      else if strcaseeq cmd ''REMOVE'' then Some (line_REMOVE env kvs s)
      else if strcaseeq cmd ''ENABLE'' \<or> strcaseeq cmd ''DISABLE'' then Some (line_ENABLE env (strcaseeq cmd ''ENABLE'') kvs s)
      else Some (ext_admin_send_err ''unknown command'', s))"

definition ext_admin_handle_line :: "host_env \<Rightarrow> string \<Rightarrow> secret_store \<Rightarrow> handled" where
  "ext_admin_handle_line env line s =
     (case strtok [CHR '' '', TAB, CR] (fst (split_char LF line)) of
        None \<Rightarrow> Some (ext_admin_send_err ''empty command'', s)
      | Some (cmd, rest) \<Rightarrow>
          let kvs = read_kvs 64 rest in
          if admin_token s \<noteq> [] \<and> ext_find_kv kvs ''token'' \<noteq> Some (admin_token s)
          then Some (ext_admin_send_err ''unauthorized'', s)
          else line_command env cmd kvs s)"

section \<open>The HTTP interface\<close>

text \<open>One word of \<open>sscanf (req, "%15s %1023s %15s", ...)\<close>.\<close>

definition scan_word :: "nat \<Rightarrow> string \<Rightarrow> (string \<times> string) option" where
  "scan_word width s =
     (let t = dropWhile c_isspace s; w = take width (takeWhile (\<lambda>c. \<not> c_isspace c) t)
      in if w = [] then None else Some (w, drop (length w) t))"

definition scan_request_line :: "string \<Rightarrow> (string \<times> string \<times> string) option" where
  "scan_request_line req =
     (case scan_word 15 req of None \<Rightarrow> None | Some (m, r1) \<Rightarrow>
     (case scan_word 1023 r1 of None \<Rightarrow> None | Some (uri, r2) \<Rightarrow>
     (case scan_word 15 r2 of None \<Rightarrow> None | Some (v, _) \<Rightarrow> Some (m, uri, v))))"

definition http_token :: "string \<Rightarrow> string \<Rightarrow> string option" where
  "http_token req uri =
     (case ext_http_get_header_value req ''X-Admin-Token'' EXT_SECRET_ADMIN_TOKEN_MAX of
        Some t \<Rightarrow> Some t
      | None \<Rightarrow> ext_http_extract_token_from_uri uri EXT_SECRET_ADMIN_TOKEN_MAX)"

definition send_document :: "host_env \<Rightarrow> ext_strbuf option \<Rightarrow> string" where
  "send_document env doc =
     (case doc of None \<Rightarrow> ext_http_send_error env 500 ''oom'' | Some B \<Rightarrow> ext_http_send_json 200 (sb_s B))"

definition ok_json :: string where
  "ok_json = ''{'' @ jraw ''ok'' ''true'' @ ''}''"

text \<open>\<open>expires\<close>, and \<open>expires_at\<close> when there is no \<open>expires\<close>; \<open>Inl\<close> is the error text.\<close>

definition http_expires :: "string \<Rightarrow> string + int option" where
  "http_expires body =
     (case ext_http_json_get_int64 body ''expires'' of
        None \<Rightarrow> Inl ''invalid expires''
      | Some (Some v) \<Rightarrow> Inr (Some v)
      | Some None \<Rightarrow>
          (case ext_http_json_get_int64 body ''expires_at'' of
             None \<Rightarrow> Inl ''invalid expires_at''
           | Some r \<Rightarrow> Inr r))"

definition label_buffer :: "string \<Rightarrow> bool \<times> string \<Rightarrow> string" where
  "label_buffer junk r = (case r of (ok, out) \<Rightarrow> if ok \<or> out = [] then out else out @ c_str junk)"

definition http_POST_secret :: "host_env \<Rightarrow> string \<Rightarrow> string \<Rightarrow> secret_store \<Rightarrow> handled" where
  "http_POST_secret env junk body s =
     (case ext_http_json_get_string body ''secret'' 64 of
        (False, _) \<Rightarrow> Some (ext_http_send_error env 400 ''secret is required'', s)
      | (True, secret) \<Rightarrow>
          let label = label_buffer junk (ext_http_json_get_string body ''label'' EXT_SECRET_LABEL_MAX) in
          (case http_expires body of
             Inl e \<Rightarrow> Some (ext_http_send_error env 400 e, s)
           | Inr expires \<Rightarrow>
               (case ext_http_json_get_bool body ''enabled'' of
                  None \<Rightarrow> Some (ext_http_send_error env 400 ''invalid enabled'', s)
                | Some enabled \<Rightarrow>
                    map_option (\<lambda>(rc, s').
                       (if rc = -2 then ext_http_send_error env 400 ''invalid secret format''
                        else if rc < 0 then ext_http_send_error env 409 ''add failed''
                        else ext_http_send_json 201 ok_json, s'))
                      (ext_cmd_add env secret label (case expires of None \<Rightarrow> 0 | Some v \<Rightarrow> v)
                         (case enabled of None \<Rightarrow> True | Some b \<Rightarrow> b) s))))"

definition http_POST_expire :: "host_env \<Rightarrow> string \<Rightarrow> secret_store \<Rightarrow> string \<times> secret_store" where
  "http_POST_expire env body s =
     (case ext_http_json_get_int64 body ''now'' of
        None \<Rightarrow> (ext_http_send_error env 400 ''invalid now'', s)
      | Some now \<Rightarrow>
          (let (rc, checked, disabled, used_now, s') =
                 ext_cmd_disable_expired env (case now of None \<Rightarrow> 0 | Some n \<Rightarrow> n) s
           in (if rc < 0 then ext_http_send_error env 500 ''update failed''
               else send_document env (ext_sb_appendf env
                      (''{'' @ commas [jraw ''ok'' ''true'', jraw ''checked'' (show_int checked),
                         jraw ''disabled'' (show_int disabled), jraw ''now'' (show_int used_now)] @ ''}'') sb_empty), s')))"

definition http_result :: "host_env \<Rightarrow> string \<Rightarrow> int \<Rightarrow> string" where
  "http_result env failed rc =
     (if rc = -2 then ext_http_send_error env 400 ''invalid secret format''
      else if rc = -3 then ext_http_send_error env 404 ''secret not found''
      else if rc < 0 then ext_http_send_error env 500 failed
      else ext_http_send_json 200 ok_json)"

definition http_DELETE :: "host_env \<Rightarrow> string \<Rightarrow> secret_store \<Rightarrow> string \<times> secret_store" where
  "http_DELETE env secret s =
     (if secret = [] then (ext_http_send_error env 400 ''secret is required'', s)
      else let (rc, s') = ext_cmd_remove env secret s in (http_result env ''remove failed'' rc, s'))"

definition http_PATCH_action :: "host_env \<Rightarrow> string \<Rightarrow> string \<Rightarrow> secret_store \<Rightarrow> string \<times> secret_store" where
  "http_PATCH_action env secret action s =
     (if action \<noteq> ''enable'' \<and> action \<noteq> ''disable'' then (ext_http_send_error env 404 ''not found'', s)
      else let (rc, s') = ext_cmd_set_enabled env secret (action = ''enable'') s
           in (http_result env ''update failed'' rc, s'))"

definition http_PATCH_fields :: "host_env \<Rightarrow> string \<Rightarrow> string \<Rightarrow> secret_store \<Rightarrow> string \<times> secret_store" where
  "http_PATCH_fields env secret body s =
     (let (has_label, label) = ext_http_json_get_string body ''label'' EXT_SECRET_LABEL_MAX in
      case http_expires body of
        Inl e \<Rightarrow> (ext_http_send_error env 400 e, s)
      | Inr expires \<Rightarrow>
          (case ext_http_json_get_bool body ''enabled'' of
             None \<Rightarrow> (ext_http_send_error env 400 ''invalid enabled'', s)
           | Some enabled \<Rightarrow>
               if \<not> has_label \<and> expires = None \<and> enabled = None
               then (ext_http_send_error env 400 ''nothing to update'', s)
               else let (rc, s') = ext_cmd_update env secret (if has_label then Some label else None) expires enabled s
                    in (http_result env ''update failed'' rc, s')))"

definition http_PATCH :: "host_env \<Rightarrow> string \<Rightarrow> string \<Rightarrow> secret_store \<Rightarrow> string \<times> secret_store" where
  "http_PATCH env tail body s =
     (case split_char (CHR ''/'') tail of
        (secret, Some action) \<Rightarrow> http_PATCH_action env secret action s
      | (secret, None) \<Rightarrow> http_PATCH_fields env secret body s)"

definition http_route :: "host_env \<Rightarrow> string \<Rightarrow> string \<Rightarrow> string \<Rightarrow> string \<Rightarrow> secret_store \<Rightarrow> handled" where
  "http_route env junk meth path body s =
     (if meth = ''GET'' \<and> path = ''/v1/status''
        then Some (send_document env (ext_http_append_status_json env s sb_empty), s)
      else if meth = ''GET'' \<and> path = ''/v1/stats''
        then Some (send_document env (ext_http_append_stats_json env s sb_empty), s)
      else if meth = ''GET'' \<and> path = ''/v1/secrets''
        then Some (send_document env (ext_http_append_list_json env s sb_empty), s)
      else if meth = ''POST'' \<and> path = ''/v1/secrets'' then http_POST_secret env junk body s
      else if meth = ''POST'' \<and> path = ''/v1/secrets/expire_disable'' then Some (http_POST_expire env body s)
      else if meth = ''DELETE'' \<and> strneq path ''/v1/secrets/'' 12 then Some (http_DELETE env (drop 12 path) s)
      else if meth = ''PATCH'' \<and> strneq path ''/v1/secrets/'' 12 then Some (http_PATCH env (drop 12 path) body s)
      else Some (ext_http_send_error env 404 ''not found'', s))"

definition ext_admin_handle_http :: "host_env \<Rightarrow> string \<Rightarrow> string \<Rightarrow> secret_store \<Rightarrow> handled" where
  "ext_admin_handle_http env junk req s =
     (case find_sub (CRLF @ CRLF) req of
        None \<Rightarrow> Some (ext_http_send_error env 400 ''invalid http request'', s)
      | Some n \<Rightarrow>
          let head = take n req; body = drop (n + 4) req in
          (case scan_request_line head of
             None \<Rightarrow> Some (ext_http_send_error env 400 ''invalid request line'', s)
           | Some (meth, uri, version) \<Rightarrow>
               if admin_token s \<noteq> [] \<and> http_token head uri \<noteq> Some (admin_token s)
               then Some (ext_http_send_error env 401 ''unauthorized'', s)
               else http_route env junk meth (fst (split_char (CHR ''?'') uri)) body s))"

section \<open>A client\<close>

definition ext_is_http_method_prefix :: "string \<Rightarrow> bool" where
  "ext_is_http_method_prefix buf \<longleftrightarrow>
     strneq buf ''GET '' 4 \<or> strneq buf ''POST '' 5 \<or> strneq buf ''PATCH '' 6 \<or> strneq buf ''DELETE '' 7"

text \<open>Whether the reading loop breaks, given the C string in the buffer and the number of bytes read.\<close>

definition request_complete :: "string \<Rightarrow> nat \<Rightarrow> bool" where
  "request_complete buf len =
     (if \<not> ext_is_http_method_prefix buf then LF \<in> set buf
      else case find_sub (CRLF @ CRLF) buf of
        None \<Rightarrow> False
      | Some n \<Rightarrow> int len \<ge> i32 (int (n + 4) + ext_http_parse_content_length buf))"

definition ADMIN_BUF :: int where
  "ADMIN_BUF = 16384"

text \<open>
  The loop over \<open>recv\<close>: each element of the list is what is there to be received, \<open>[]\<close> or the end of the
  list the end of the connection.
\<close>

fun read_request :: "string \<Rightarrow> string list \<Rightarrow> string" where
  "read_request buf [] = buf"
| "read_request buf (d # ds) =
     (if int (length buf) \<ge> ADMIN_BUF - 1 \<or> d = [] then buf
      else let buf' = buf @ take (nat (ADMIN_BUF - 1) - length buf) d
           in if request_complete (c_str buf') (length buf') then buf' else read_request buf' ds)"

definition ext_admin_handle_client :: "host_env \<Rightarrow> string \<Rightarrow> string list \<Rightarrow> secret_store \<Rightarrow> handled" where
  "ext_admin_handle_client env junk chunks s =
     (let raw = read_request [] chunks; buf = c_str raw in
      if raw = [] then Some ([], s)
      else if ext_is_http_method_prefix buf then ext_admin_handle_http env junk buf s
      else ext_admin_handle_line env buf s)"

definition SUN_PATH_LEN :: nat where
  "SUN_PATH_LEN = 108"

text \<open>
  \<open>tcp_rpcs_start_admin_server\<close> on the settings of the server: the socket, whether it was started, and
  the token in the store.  \<open>thread_ok\<close> is the result of \<open>pthread_create\<close>.
\<close>

record admin_server =
  adm_socket :: string
  adm_started :: bool

definition tcp_rpcs_start_admin_server ::
    "bool \<Rightarrow> string \<Rightarrow> string \<Rightarrow> admin_server \<Rightarrow> secret_store \<Rightarrow> int \<times> admin_server \<times> secret_store" where
  "tcp_rpcs_start_admin_server thread_ok socket_path token a s =
     (if socket_path = [] then (0, a, s)
      else if length socket_path \<ge> SUN_PATH_LEN then (-1, a, s)
      else if adm_started a then (0, a, s)
      else
        let a1 = a\<lparr>adm_socket := snprintf_trunc PATH_MAX socket_path, adm_started := True\<rparr>;
            s1 = s\<lparr>admin_token := snprintf_trunc EXT_SECRET_ADMIN_TOKEN_MAX token\<rparr>
        in if thread_ok then (0, a1, s1) else (-1, a1\<lparr>adm_started := False\<rparr>, s1))"

end
