(* ===== verification/Admin_Properties.thy ===== *)
theory Admin_Properties
  imports Admin_Api "HOL-Library.Sublist" "HOL-Library.Monad_Syntax"
begin

text \<open>
  What the administration interface guarantees: nothing is done without the token; every request acts
  on the store as one of the commands of \<open>Secret_Runs\<close>, or not at all; the answers have the form a
  client can read line by line, and fit the buffers they are printed into.
\<close>

section \<open>Where the words of a request come from\<close>

lemma strtok_parts: "strtok d s = Some (t, r) \<Longrightarrow> sublist t s \<and> suffix r s"
proof -
  assume a: "strtok d s = Some (t, r)"
  let ?t = "dropWhile (\<lambda>c. c \<in> set d) s"
  from a have t: "t = takeWhile (\<lambda>c. c \<notin> set d) ?t" "r = tl (dropWhile (\<lambda>c. c \<notin> set d) ?t)"
    by (auto simp: strtok_def Let_def split: if_splits)
  have "suffix ?t s" by (rule suffix_dropWhile)
  moreover have "prefix t ?t" unfolding t by (rule takeWhile_is_prefix)
  moreover have "suffix r ?t" unfolding t using suffix_dropWhile suffix_tl suffix_order.trans by blast
  ultimately show ?thesis using sublist_order.order.trans [of t ?t s] by (auto intro: suffix_order.trans)
qed

lemma split_char_parts: "split_char c s = (a, b) \<Longrightarrow> (b = None \<longrightarrow> s = a) \<and> (\<forall>r. b = Some r \<longrightarrow> s = a @ c # r)"
proof -
  assume s: "split_char c s = (a, b)"
  have eq: "takeWhile (\<lambda>x. x \<noteq> c) s @ dropWhile (\<lambda>x. x \<noteq> c) s = s" by simp
  show ?thesis
  proof (cases "dropWhile (\<lambda>x. x \<noteq> c) s")
    case Nil
    with s eq show ?thesis by (auto simp: split_char_def)
  next
    case (Cons d r)
    then have "d = c" by (simp add: dropWhile_eq_Cons_conv)
    with Cons s eq show ?thesis by (auto simp: split_char_def)
  qed
qed

lemma read_kvs_step:
  assumes "(k, v) \<in> set (read_kvs room s)"
  shows "\<exists>tok rest. strtok [CHR '' '', TAB, CR] s = Some (tok, rest)
    \<and> (split_char (CHR ''='') tok = (k, Some v) \<or> (\<exists>n. (k, v) \<in> set (read_kvs n rest)))"
proof (cases "strtok [CHR '' '', TAB, CR] s")
  case None
  with assms show ?thesis by (subst (asm) read_kvs.simps) simp
next
  case (Some p)
  obtain tok rest where p: "p = (tok, rest)" by (cases p)
  obtain a b where ab: "split_char (CHR ''='') tok = (a, b)" by fastforce
  show ?thesis
  proof (cases b)
    case None
    with assms Some p ab show ?thesis by (subst (asm) read_kvs.simps) (auto split: if_splits)
  next
    case v: (Some w)
    with assms Some p ab show ?thesis
      by (subst (asm) read_kvs.simps) (cases w; auto split: if_splits)
  qed
qed

lemma read_kvs_sublist: "(k, v) \<in> set (read_kvs room s) \<Longrightarrow> sublist (k @ CHR ''='' # v) s"
proof (induction "length s" arbitrary: room s rule: less_induct)
  case less
  from read_kvs_step [OF less.prems] obtain tok rest where
    t: "strtok [CHR '' '', TAB, CR] s = Some (tok, rest)"
    and c: "split_char (CHR ''='') tok = (k, Some v) \<or> (\<exists>n. (k, v) \<in> set (read_kvs n rest))" by blast
  note sub = strtok_parts [OF t]
  from c show ?case
  proof
    assume "split_char (CHR ''='') tok = (k, Some v)"
    from split_char_parts [OF this] sub show ?thesis by simp
  next
    assume "\<exists>n. (k, v) \<in> set (read_kvs n rest)"
    then have "sublist (k @ CHR ''='' # v) rest" using less.hyps strtok_shrinks [OF t] by blast
    moreover have "sublist rest s" using sub by blast
    ultimately show ?thesis by (rule sublist_order.order.trans)
  qed
qed

lemma find_kv_member: "ext_find_kv kvs k = Some v \<Longrightarrow> (k, v) \<in> set kvs"
  by (induction kvs k rule: ext_find_kv.induct) (auto split: if_splits)

lemma token_in_query_sublist: "token_in_query n q = Some t \<Longrightarrow> sublist t q"
proof (induction n q arbitrary: t rule: token_in_query.induct)
  case (1 n q)
  obtain p rest where p: "split_char (CHR ''&'') q = (p, rest)" by fastforce
  note parts = split_char_parts [OF p]
  have pq: "prefix p q" using parts by (cases rest) auto
  show ?case
  proof (cases "length p > 6 \<and> take 6 p = ''token=''")
    case True
    with 1(2) p have "t = take (n - 1) (drop 6 p)" by (subst (asm) token_in_query.simps) (auto split: if_splits)
    then have "sublist t p" by (meson sublist_drop sublist_take sublist_order.order.trans)
    then show ?thesis using pq prefix_imp_sublist sublist_order.order.trans by blast
  next
    case False
    with 1(2) p obtain r where r: "rest = Some r" "q \<noteq> []" "token_in_query n r = Some t"
      by (subst (asm) token_in_query.simps) (auto split: if_splits option.splits)
    have "sublist t r" by (rule 1(1) [OF r(2) p [symmetric] False r(1) r(3)])
    moreover have "sublist r q" using parts r(1) by (auto simp: sublist_def) (metis append.assoc append_Cons append_Nil append_Nil2)
    ultimately show ?thesis by (rule sublist_order.order.trans)
  qed
qed

lemma header_value_sublist:
  assumes "ext_http_get_header_value headers name n = Some t"
  shows "sublist t headers"
proof -
  from assms obtain h where h: "header_at headers name = Some h"
    and t: "t = take (n - 1) (takeWhile (\<lambda>c. c \<noteq> CR \<and> c \<noteq> LF)
        (dropWhile (\<lambda>c. c = CHR '' '' \<or> c = TAB) (drop (length name + 1) h)))"
    by (auto simp: ext_http_get_header_value_def Let_def split: if_splits option.splits)
  have "suffix h headers"
    using h by (auto simp: header_at_def suffix_drop split: if_splits option.splits)
  then have "suffix (dropWhile (\<lambda>c. c = CHR '' '' \<or> c = TAB) (drop (length name + 1) h)) headers"
    using suffix_dropWhile suffix_drop suffix_order.trans by blast
  moreover have "prefix t (dropWhile (\<lambda>c. c = CHR '' '' \<or> c = TAB) (drop (length name + 1) h))"
    unfolding t using takeWhile_is_prefix take_is_prefix prefix_order.trans by blast
  ultimately show ?thesis
    using prefix_imp_sublist suffix_imp_sublist sublist_order.order.trans by blast
qed

lemma scan_word_parts: "scan_word n s = Some (w, r) \<Longrightarrow> sublist w s \<and> suffix r s"
proof -
  assume a: "scan_word n s = Some (w, r)"
  let ?t = "dropWhile c_isspace s"
  from a have w: "w = take n (takeWhile (\<lambda>c. \<not> c_isspace c) ?t)" "r = drop (length w) ?t"
    by (auto simp: scan_word_def Let_def split: if_splits)
  have "prefix w ?t" unfolding w(1) using takeWhile_is_prefix take_is_prefix prefix_order.trans by blast
  moreover have "suffix ?t s" by (rule suffix_dropWhile)
  moreover have "suffix r ?t" unfolding w(2) by (rule suffix_drop)
  ultimately show ?thesis
    by (meson prefix_imp_sublist suffix_imp_sublist sublist_order.order.trans suffix_order.trans)
qed

lemma scan_request_uri: "scan_request_line h = Some (m, uri, v) \<Longrightarrow> sublist uri h"
  unfolding scan_request_line_def
  by (auto split: option.splits dest!: scan_word_parts)
     (metis sublist_order.order.trans suffix_imp_sublist)

lemma http_token_sublist: "http_token head uri = Some t \<Longrightarrow> sublist uri head \<Longrightarrow> sublist t head"
proof -
  assume a: "http_token head uri = Some t" "sublist uri head"
  have "sublist t uri" if u: "ext_http_extract_token_from_uri uri n = Some t" for n
  proof -
    from u obtain x q where q: "split_char (CHR ''?'') uri = (x, Some q)" "token_in_query n q = Some t"
      by (auto simp: ext_http_extract_token_from_uri_def split: prod.splits option.splits)
    have "suffix q uri" using split_char_parts [OF q(1)] by (simp add: suffix_def)
    with token_in_query_sublist [OF q(2)] show ?thesis
      using suffix_imp_sublist sublist_order.order.trans by blast
  qed
  with a show ?thesis
    unfolding http_token_def
    by (auto split: option.splits dest: header_value_sublist intro: sublist_order.order.trans)
qed

section \<open>Requests are commands\<close>

text \<open>
  What a request asks for, written down as a table and without the handlers: the command for the store,
  or \<open>None\<close> when the request reads, is malformed or does not carry the token.  First the line protocol:
  a word in any case of its letters, and \<open>key=value\<close> words.
\<close>

definition line_asks :: "string \<Rightarrow> (string \<times> string) list \<Rightarrow> store_cmd option" where
  "line_asks verb kvs =
     (let field = ext_find_kv kvs;
          number = (\<lambda>k. case_option 0 atoll (field k));
          on_secret = (\<lambda>cmd. map_option cmd (field ''secret''))
      in Option.bind (map_of
        [(''add'', on_secret (\<lambda>x. Cmd_add x (case_option [] id (field ''label'')) (number ''expires'')
                     (ext_parse_bool (field ''enabled'') True))),
         (''remove'', on_secret Cmd_remove),
         (''enable'', on_secret (\<lambda>x. Cmd_set_enabled x True)),
         (''disable'', on_secret (\<lambda>x. Cmd_set_enabled x False)),
         (''expire_disable'', Some (Cmd_disable_expired (number ''now''))),
         (''sync_expired'', Some (Cmd_disable_expired (number ''now'')))] (map c_tolower verb)) id)"

text \<open>Then HTTP: the method, the path without its query, and the fields of the JSON body.\<close>

definition secret_of_path :: "string \<Rightarrow> string option" where
  "secret_of_path path = (if take 12 path = ''/v1/secrets/'' then Some (drop 12 path) else None)"

definition http_asks :: "string \<Rightarrow> string \<Rightarrow> string \<Rightarrow> string \<Rightarrow> store_cmd option" where
  "http_asks junk meth path body =
     (let valid_expires = (case http_expires body of Inl _ \<Rightarrow> None | Inr x \<Rightarrow> Some x);
          valid_enabled = ext_http_json_get_bool body ''enabled'';
          (labelled, label) = ext_http_json_get_string body ''label'' EXT_SECRET_LABEL_MAX
      in if meth = ''POST'' \<and> path = ''/v1/secrets'' then do {
           let (present, secret) = ext_http_json_get_string body ''secret'' 64;
           x \<leftarrow> valid_expires;
           b \<leftarrow> valid_enabled;
           (if present then Some (Cmd_add secret (label_buffer junk (labelled, label)) (case_option 0 id x) (case_option True id b))
            else None) }
         else if meth = ''POST'' \<and> path = ''/v1/secrets/expire_disable'' then do {
           n \<leftarrow> ext_http_json_get_int64 body ''now'';
           Some (Cmd_disable_expired (case_option 0 id n)) }
         else if meth = ''DELETE'' then do {
           secret \<leftarrow> secret_of_path path;
           (if secret \<noteq> [] then Some (Cmd_remove secret) else None) }
         else if meth = ''PATCH'' then do {
           tail \<leftarrow> secret_of_path path;
           (case split_char (CHR ''/'') tail of
              (secret, Some action) \<Rightarrow>
                map_of [(''enable'', Cmd_set_enabled secret True), (''disable'', Cmd_set_enabled secret False)] action
            | (secret, None) \<Rightarrow> do {
                x \<leftarrow> valid_expires;
                b \<leftarrow> valid_enabled;
                (if labelled \<or> x \<noteq> None \<or> b \<noteq> None
                 then Some (Cmd_update secret (if labelled then Some label else None) x b) else None) }) }
         else None)"

text \<open>Both behind the token: none is needed when none is set.\<close>

definition authorised :: "string \<Rightarrow> string option \<Rightarrow> bool" where
  "authorised token given \<longleftrightarrow> token \<noteq> [] \<longrightarrow> given = Some token"

definition client_asks :: "string \<Rightarrow> string \<Rightarrow> string \<Rightarrow> store_cmd option" where
  "client_asks token junk raw =
     (let req = c_str raw in
      if ext_is_http_method_prefix req then do {
        n \<leftarrow> find_sub (CRLF @ CRLF) req;
        (meth, uri, version) \<leftarrow> scan_request_line (take n req);
        (if authorised token (http_token (take n req) uri)
         then http_asks junk meth (fst (split_char (CHR ''?'') uri)) (drop (n + 4) req) else None) }
      else do {
        (verb, rest) \<leftarrow> strtok [CHR '' '', TAB, CR] (fst (split_char LF req));
        (if authorised token (ext_find_kv (read_kvs 64 rest) ''token'')
         then line_asks verb (read_kvs 64 rest) else None) })"

text \<open>A handler on the store \<open>s\<close> does what is asked: nothing, or that command.\<close>

definition does :: "host_env \<Rightarrow> secret_store \<Rightarrow> store_cmd option \<Rightarrow> handled \<Rightarrow> bool" where
  "does env s asked h \<longleftrightarrow> map_option snd h = (case asked of None \<Rightarrow> Some s | Some cmd \<Rightarrow> run_cmd env cmd s)"

named_theorems does_intros \<open>handlers that do what is asked\<close>

lemma does_nothing [does_intros]: "does env s None (Some (out, s))"
  by (simp add: does_def)

lemma does_add [does_intros]:
  "does env s (Some (Cmd_add x l e b)) (map_option (\<lambda>(rc, s'). (f rc, s')) (ext_cmd_add env x l e b s))"
  by (cases "ext_cmd_add env x l e b s") (auto simp: does_def)

lemma does_pairs [does_intros]:
  "does env s (Some (Cmd_remove x)) (Some (case ext_cmd_remove env x s of (rc, s') \<Rightarrow> (f rc, s')))"
  "does env s (Some (Cmd_set_enabled x b)) (Some (case ext_cmd_set_enabled env x b s of (rc, s') \<Rightarrow> (f rc, s')))"
  "does env s (Some (Cmd_update x l e c)) (Some (case ext_cmd_update env x l e c s of (rc, s') \<Rightarrow> (f rc, s')))"
  "does env s (Some (Cmd_disable_expired n))
     (Some (case ext_cmd_disable_expired env n s of (rc, c1, d, m, s') \<Rightarrow> (g rc c1 d m, s')))"
  by (simp_all add: does_def split: prod.split)

lemma lower_words:
  "map c_tolower ''PING'' = ''ping''" "map c_tolower ''STATUS'' = ''status''" "map c_tolower ''STATS'' = ''stats''"
  "map c_tolower ''LIST'' = ''list''" "map c_tolower ''EXPIRE_DISABLE'' = ''expire_disable''"
  "map c_tolower ''SYNC_EXPIRED'' = ''sync_expired''" "map c_tolower ''ADD'' = ''add''"
  "map c_tolower ''REMOVE'' = ''remove''" "map c_tolower ''ENABLE'' = ''enable''" "map c_tolower ''DISABLE'' = ''disable''"
  by code_simp+

lemma line_command_does: "does env s (line_asks verb kvs) (line_command env verb kvs s)"
proof -
  have "does env s (Some (Cmd_disable_expired (case_option 0 atoll (ext_find_kv kvs ''now'')))) (Some (line_EXPIRE env kvs s))"
    unfolding line_EXPIRE_def Let_def by (rule does_pairs)
  moreover have "does env s (map_option (\<lambda>x. Cmd_add x (case_option [] id (ext_find_kv kvs ''label''))
      (case_option 0 atoll (ext_find_kv kvs ''expires'')) (ext_parse_bool (ext_find_kv kvs ''enabled'') True))
      (ext_find_kv kvs ''secret'')) (line_ADD env kvs s)"
    unfolding line_ADD_def Let_def id_def by (cases "ext_find_kv kvs ''secret''") (simp_all add: does_intros)
  moreover have "does env s (map_option Cmd_remove (ext_find_kv kvs ''secret'')) (Some (line_REMOVE env kvs s))"
    unfolding line_REMOVE_def Let_def by (cases "ext_find_kv kvs ''secret''") (simp_all add: does_nothing does_pairs)
  moreover have "does env s (map_option (\<lambda>x. Cmd_set_enabled x b) (ext_find_kv kvs ''secret'')) (Some (line_ENABLE env b kvs s))" for b
    unfolding line_ENABLE_def Let_def by (cases "ext_find_kv kvs ''secret''") (simp_all add: does_nothing does_pairs)
  ultimately show ?thesis
    unfolding line_command_def line_asks_def strcaseeq_def lower_words Let_def
    by (simp add: does_nothing)
qed

lemma strneq_12: "strneq path ''/v1/secrets/'' 12 \<longleftrightarrow> take 12 path = ''/v1/secrets/''"
  by (auto simp: strneq_def)

lemma POST_secret_does: "does env s (http_asks junk ''POST'' ''/v1/secrets'' body) (http_POST_secret env junk body s)"
  unfolding http_POST_secret_def http_asks_def Let_def id_def
  by (auto simp: does_intros split: prod.split sum.split option.split bool.split)

lemma POST_expire_does: "does env s (http_asks junk ''POST'' ''/v1/secrets/expire_disable'' body) (Some (http_POST_expire env body s))"
  unfolding http_POST_expire_def http_asks_def Let_def id_def
  by (auto simp: does_intros split: prod.split option.split)

lemma DELETE_does:
  "secret_of_path path = Some x \<Longrightarrow> does env s (http_asks junk ''DELETE'' path body) (Some (http_DELETE env x s))"
  unfolding http_DELETE_def http_asks_def Let_def by (auto simp: does_nothing does_pairs)

lemma PATCH_does:
  "secret_of_path path = Some x \<Longrightarrow> does env s (http_asks junk ''PATCH'' path body) (Some (http_PATCH env x body s))"
  unfolding http_PATCH_def http_PATCH_action_def http_PATCH_fields_def http_asks_def Let_def
  by (auto simp: does_nothing does_pairs split: prod.split sum.split option.split)

lemma secret_of_pathD: "secret_of_path p = Some x \<Longrightarrow> take 12 p = ''/v1/secrets/'' \<and> x = drop 12 p"
  by (simp add: secret_of_path_def split: if_splits)

lemma secret_of_path_None: "secret_of_path p = None \<Longrightarrow> take 12 p \<noteq> ''/v1/secrets/''"
  by (simp add: secret_of_path_def split: if_splits)

lemma http_route_does: "does env s (http_asks junk m p body) (http_route env junk m p body s)"
proof -
  consider (post) "m = ''POST''" | (delete) "m = ''DELETE''" | (patch) "m = ''PATCH''"
    | (none) "m \<noteq> ''POST''" "m \<noteq> ''DELETE''" "m \<noteq> ''PATCH''" by blast
  then show ?thesis
  proof cases
    case post
    consider "p = ''/v1/secrets''" | "p = ''/v1/secrets/expire_disable''"
      | "p \<noteq> ''/v1/secrets''" "p \<noteq> ''/v1/secrets/expire_disable''" by blast
    then show ?thesis
    proof cases
      case 1
      with post POST_secret_does show ?thesis by (simp add: http_route_def)
    next
      case 2
      with post POST_expire_does show ?thesis by (simp add: http_route_def)
    next
      case 3
      with post show ?thesis by (simp add: http_route_def http_asks_def Let_def does_nothing split: prod.split)
    qed
  next
    case delete
    show ?thesis
    proof (cases "secret_of_path p")
      case None
      with delete secret_of_path_None show ?thesis
        by (simp add: http_route_def http_asks_def Let_def strneq_12 does_nothing split: prod.split)
    next
      case (Some x)
      with delete secret_of_pathD [OF Some] show ?thesis
        using DELETE_does [OF Some] by (simp add: http_route_def strneq_12)
    qed
  next
    case patch
    show ?thesis
    proof (cases "secret_of_path p")
      case None
      with patch secret_of_path_None show ?thesis
        by (simp add: http_route_def http_asks_def Let_def strneq_12 does_nothing split: prod.split)
    next
      case (Some x)
      with patch secret_of_pathD [OF Some] show ?thesis
        using PATCH_does [OF Some] by (simp add: http_route_def strneq_12)
    qed
  next
    case none
    then have "http_asks junk m p body = None" by (simp add: http_asks_def Let_def split: prod.split)
    with none show ?thesis by (simp add: http_route_def does_nothing)
  qed
qed

lemma handle_http_does:
  assumes "ext_is_http_method_prefix (c_str raw)"
  shows "does env s (client_asks (admin_token s) junk raw) (ext_admin_handle_http env junk (c_str raw) s)"
  using assms http_route_does unfolding ext_admin_handle_http_def client_asks_def authorised_def Let_def
  by (auto simp: does_nothing split: option.split prod.split)

lemma handle_line_does:
  assumes "\<not> ext_is_http_method_prefix (c_str raw)"
  shows "does env s (client_asks (admin_token s) junk raw) (ext_admin_handle_line env (c_str raw) s)"
  using assms line_command_does unfolding ext_admin_handle_line_def client_asks_def authorised_def Let_def
  by (auto simp: does_nothing split: option.split prod.split)

section \<open>Bounds of the printed lines\<close>

lemma length_show_nat: "0 < d \<Longrightarrow> n < 10 ^ d \<Longrightarrow> length (show_nat n) \<le> d"
proof (induction d arbitrary: n)
  case (Suc d)
  show ?case
  proof (cases "n < 10")
    case True
    then show ?thesis by (subst show_nat.simps) simp
  next
    case False
    then have "0 < d" using Suc.prems(2) by (cases d) auto
    moreover have "n div 10 < 10 ^ d" using Suc.prems(2) by (simp add: less_mult_imp_div_less mult.commute)
    ultimately have "length (show_nat (n div 10)) \<le> d" by (rule Suc.IH)
    with False show ?thesis by (subst show_nat.simps) simp
  qed
qed simp

lemma length_show_i64: "fits_i64 x \<Longrightarrow> length (show_int x) \<le> 20"
  using length_show_nat [of 20 "nat x"] length_show_nat [of 19 "nat (- x)"]
  by (simp add: show_int_def fits_i64_def nat_less_iff)

lemma length_show_i32: "fits_i32 x \<Longrightarrow> length (show_int x) \<le> 11"
  using length_show_nat [of 11 "nat x"] length_show_nat [of 10 "nat (- x)"]
  by (simp add: show_int_def fits_i32_def nat_less_iff)

lemma length_show_bool: "length (show_bool b) = 1"
  by (simp add: show_bool_def show_int_def show_nat.simps)

lemma list_line_length:
  assumes "store_inv s" "store_fits s" "E \<in> set (entries s)"
  shows "length (list_line s E) \<le> 494"
proof -
  have ok: "length (e_hex E) = 32" "length (e_label E) < 96" "length (e_last_ip E) < 64"
    using store_invD(1) [OF assms(1,3)] by (auto simp: entry_ok_def label_ok_def ip_ok_def EXT_SECRET_LABEL_MAX_def)
  have "fits_i32 (e_id E)"
    using store_invD(2) [OF assms(1,3)] store_invD(7) [OF assms(1)] by (auto simp: id_ok_def fits_i32_def)
  note len = length_show_i32 [OF this] ok
    store_fits_metric(1-3) [OF assms(2,1,3), THEN length_show_i64]
    length_show_i64 [OF fits_i64_i64, of "m_in (metric_of s E) + m_out (metric_of s E)"]
  have "length (show_int (e_expires E)) \<le> 20" "length (show_int (e_created E)) \<le> 20"
    "length (show_int (e_updated E)) \<le> 20" "length (show_int (e_last_seen E)) \<le> 20"
    using assms(2,3) by (auto simp: store_fits_def intro: length_show_i64)
  with len show ?thesis
    by (simp add: list_line_def Let_def traffic_words_def length_show_bool)
qed

lemma list_head_length:
  assumes "store_inv s" "fits_i64 (total_in s)" "fits_i64 (total_out s)" "fits_i64 (total_conns s)" "next_id s \<le> 2 ^ 30"
  shows "length (list_head now s) \<le> 200"
proof -
  have n: "int (length (entries s)) < 2 ^ 30" using entries_below_next_id [OF assms(1)] assms(5) by linarith
  moreover have "length (active_secrets now s) \<le> length (entries s)" by (simp add: active_secrets_def)
  ultimately have "length (show_int (int (length (entries s)))) \<le> 11"
    "length (show_int (tcp_rpcs_active_secret_count now s)) \<le> 11"
    by (intro length_show_i32, simp add: fits_i32_def active_count)+
  with length_show_i64 [OF assms(2)] length_show_i64 [OF assms(3)] length_show_i64 [OF assms(4)]
    length_show_i64 [OF fits_i64_i64, of "total_in s + total_out s"]
  show ?thesis by (simp add: list_head_def traffic_words_def)
qed

lemma snprintf_trunc_id: "length t < n \<Longrightarrow> snprintf_trunc n t = t"
  by (simp add: snprintf_trunc_def)

lemma list_line_LF:
  assumes "store_inv s" "E \<in> set (entries s)"
  shows "\<exists>l. list_line s E = l @ [LF] \<and> LF \<notin> set l"
proof -
  have ok: "entry_ok E" by (rule store_invD(1) [OF assms])
  have c: "LF \<notin> set (e_hex E)" "LF \<notin> set (e_label E)" "LF \<notin> set (e_last_ip E)"
    using entry_columns_clean [OF ok, of s] by (auto simp: entry_columns_def Let_def)
  then show ?thesis
    using show_int_no_sep(3)
    by (simp add: list_line_def Let_def traffic_words_def show_bool_def)
qed

section \<open>Properties\<close>

text \<open>The answers of a refused request.\<close>

definition refusal :: "host_env \<Rightarrow> string \<Rightarrow> bool" where
  "refusal env out \<longleftrightarrow> out = [] \<or> out = ext_admin_send_err ''empty command'' \<or> out = ext_admin_send_err ''unauthorized''
     \<or> (\<exists>msg. out = ext_http_send_error env 400 msg) \<or> out = ext_http_send_error env 401 ''unauthorized''"

text \<open>
  C7. Without the token nothing happens.  When a token is set and does not occur in the bytes a client
  sent, however they were split on the way, the store is unchanged, and what the client gets is
  nothing, a refusal of the line protocol, or an HTTP error 400 or 401.
\<close>

theorem client_needs_token:
  assumes "admin_token s \<noteq> []" "\<not> sublist (admin_token s) (read_request [] chunks)"
  shows "\<exists>out. ext_admin_handle_client env junk chunks s = Some (out, s) \<and> refusal env out"
proof -
  define buf where "buf = c_str (read_request [] chunks)"
  have "sublist buf (read_request [] chunks)"
    unfolding buf_def c_str_def by (intro prefix_imp_sublist takeWhile_is_prefix)
  then have no: "\<not> sublist (admin_token s) buf" using assms(2) sublist_order.order.trans by blast
  have line: "ext_find_kv (read_kvs 64 rest) ''token'' \<noteq> Some (admin_token s)"
    if t: "strtok [CHR '' '', TAB, CR] (fst (split_char LF buf)) = Some (cmd, rest)" for cmd rest
  proof
    assume "ext_find_kv (read_kvs 64 rest) ''token'' = Some (admin_token s)"
    then have "sublist (''token'' @ CHR ''='' # admin_token s) rest"
      by (intro read_kvs_sublist find_kv_member)
    then have "sublist (admin_token s) rest"
      by (meson sublist_appendI sublist_order.order.trans suffix_imp_sublist suffix_ConsI suffix_appendI suffix_order.refl)
    moreover have "sublist rest (fst (split_char LF buf))" using strtok_parts [OF t] by blast
    moreover have "sublist (fst (split_char LF buf)) buf"
      unfolding split_char_def fst_conv by (intro prefix_imp_sublist takeWhile_is_prefix)
    ultimately show False using no sublist_order.order.trans by blast
  qed
  have http: "http_token (take n buf) uri \<noteq> Some (admin_token s)"
    if "scan_request_line (take n buf) = Some (m, uri, v)" for n m uri v
  proof
    assume "http_token (take n buf) uri = Some (admin_token s)"
    then have "sublist (admin_token s) (take n buf)" using scan_request_uri [OF that] by (rule http_token_sublist)
    then show False using no take_is_prefix prefix_imp_sublist sublist_order.order.trans by blast
  qed
  have L: "\<exists>out. ext_admin_handle_line env buf s = Some (out, s) \<and> refusal env out"
  proof (cases "strtok [CHR '' '', TAB, CR] (fst (split_char LF buf))")
    case None
    then have "ext_admin_handle_line env buf s = Some (ext_admin_send_err ''empty command'', s)"
      by (simp add: ext_admin_handle_line_def)
    then show ?thesis unfolding refusal_def by blast
  next
    case (Some p)
    then have "ext_admin_handle_line env buf s = Some (ext_admin_send_err ''unauthorized'', s)"
      using line assms(1) by (cases p) (simp add: ext_admin_handle_line_def Let_def)
    then show ?thesis unfolding refusal_def by blast
  qed
  have H: "\<exists>out. ext_admin_handle_http env junk buf s = Some (out, s) \<and> refusal env out"
  proof (cases "find_sub (CRLF @ CRLF) buf")
    case None
    then have "ext_admin_handle_http env junk buf s = Some (ext_http_send_error env 400 ''invalid http request'', s)"
      by (simp add: ext_admin_handle_http_def)
    then show ?thesis unfolding refusal_def by blast
  next
    case n: (Some n)
    show ?thesis
    proof (cases "scan_request_line (take n buf)")
      case None
      with n have "ext_admin_handle_http env junk buf s = Some (ext_http_send_error env 400 ''invalid request line'', s)"
        by (simp add: ext_admin_handle_http_def Let_def)
      then show ?thesis unfolding refusal_def by blast
    next
      case (Some p)
      with n have "ext_admin_handle_http env junk buf s = Some (ext_http_send_error env 401 ''unauthorized'', s)"
        using http [of n] assms(1) by (cases p) (simp add: ext_admin_handle_http_def Let_def)
      then show ?thesis unfolding refusal_def by blast
    qed
  qed
  have "refusal env []" by (simp add: refusal_def)
  then show ?thesis
    using L H unfolding ext_admin_handle_client_def Let_def buf_def [symmetric]
    by (cases "read_request [] chunks = []"; cases "ext_is_http_method_prefix buf") simp_all
qed

lemma read_request_set: "set (read_request buf ds) \<subseteq> set buf \<union> \<Union> (set ` set ds)"
proof (induction buf ds rule: read_request.induct)
  case (2 buf d ds)
  let ?b = "buf @ take (nat (ADMIN_BUF - 1) - length buf) d"
  have b: "set ?b \<subseteq> set buf \<union> set d" using set_take_subset [of _ d] by auto
  show ?case
  proof (cases "int (length buf) \<ge> ADMIN_BUF - 1 \<or> d = [] \<or> request_complete (c_str ?b) (length ?b)")
    case True
    then have "read_request buf (d # ds) = buf \<or> read_request buf (d # ds) = ?b"
      by (cases "int (length buf) \<ge> ADMIN_BUF - 1 \<or> d = []") (auto simp: Let_def simp del: append_take_drop_id)
    then show ?thesis using b by (elim disjE) auto
  next
    case False
    then have "read_request buf (d # ds) = read_request ?b ds" by (auto simp: Let_def)
    moreover have "set (read_request ?b ds) \<subseteq> set ?b \<union> \<Union> (set ` set ds)"
      using False 2 by auto
    ultimately show ?thesis using b by auto
  qed
qed simp

definition guarded_secrets :: secret_store where
  "guarded_secrets = two_secrets\<lparr>admin_token := ''s3cret''\<rparr>"

definition bad_token_chunks :: "string list" where
  "bad_token_chunks = [''REMOVE token=wrong secret='', concat (replicate 16 ''07'') @ [LF]]"

theorem client_needs_token_witness:
  "\<exists>out. ext_admin_handle_client (good_env 1) [] bad_token_chunks guarded_secrets = Some (out, guarded_secrets)"
proof -
  have t: "admin_token guarded_secrets = ''s3cret''" by (simp add: guarded_secrets_def)
  have n: "CHR ''3'' \<notin> set [] \<union> \<Union> (set ` set bad_token_chunks)" by code_simp
  have "CHR ''3'' \<notin> set (read_request [] bad_token_chunks)" by (rule contra_subsetD [OF read_request_set n])
  then have "\<not> sublist ''s3cret'' (read_request [] bad_token_chunks)" by (auto simp: sublist_def)
  then show ?thesis
    using client_needs_token [of guarded_secrets bad_token_chunks "good_env 1" "[]"] t by auto
qed

text \<open>
  C33. A request does to the store exactly what it asks for.  \<open>client_asks\<close> reads off the bytes of a
  request, however they were split on the way, the command meant: \<open>ADD\<close>, \<open>REMOVE\<close>, \<open>ENABLE\<close>,
  \<open>DISABLE\<close>, \<open>EXPIRE_DISABLE\<close> and \<open>SYNC_EXPIRED\<close> of the line protocol, \<open>POST\<close>, \<open>DELETE\<close> and \<open>PATCH\<close>
  over HTTP, each with its arguments, or none when the request only reads, is malformed or lacks the
  token.  The handler leaves the store as it was when nothing is asked, and otherwise as that command of
  \<open>Secret_Runs\<close> leaves it; the call returns unless the command does not; and a well-formed store stays
  well formed.
\<close>

theorem client_does_what_it_asks:
  "map_option snd (ext_admin_handle_client env junk chunks s)
     = (case client_asks (admin_token s) junk (read_request [] chunks) of None \<Rightarrow> Some s | Some cmd \<Rightarrow> run_cmd env cmd s)
   \<and> (\<forall>out s'. ext_admin_handle_client env junk chunks s = Some (out, s') \<longrightarrow> store_inv s \<longrightarrow> store_inv s')"
proof -
  let ?asked = "client_asks (admin_token s) junk (read_request [] chunks)"
  have empty: "client_asks (admin_token s) junk [] = None"
    by (simp add: client_asks_def Let_def c_str_def ext_is_http_method_prefix_def strneq_def split_char_def strtok_def)
  have "does env s ?asked (ext_admin_handle_client env junk chunks s)"
    unfolding ext_admin_handle_client_def Let_def
    by (cases "read_request [] chunks = []") (simp_all add: empty does_nothing handle_http_does handle_line_does)
  then have d: "map_option snd (ext_admin_handle_client env junk chunks s)
      = (case ?asked of None \<Rightarrow> Some s | Some cmd \<Rightarrow> run_cmd env cmd s)" unfolding does_def .
  moreover have "store_inv s'" if "ext_admin_handle_client env junk chunks s = Some (out, s')" "store_inv s" for out s'
    using d that by (cases ?asked) (auto intro: run_cmd_inv)
  ultimately show ?thesis by blast
qed

definition disable_request :: "string list" where
  "disable_request = [''Disable tok'', ''en=s3cret secret='' @ concat (replicate 16 ''07''), [LF]]"

theorem client_does_what_it_asks_witness:
  "\<exists>out s'. ext_admin_handle_client (good_env 1) [] disable_request guarded_secrets = Some (out, s')
   \<and> run_cmd (good_env 1) (Cmd_set_enabled (concat (replicate 16 ''07'')) False) guarded_secrets = Some s' \<and> store_inv s'"
proof -
  have "client_asks (admin_token guarded_secrets) [] (concat disable_request)
      = Some (Cmd_set_enabled (concat (replicate 16 ''07'')) False)" by code_simp
  moreover have "read_request [] disable_request = concat disable_request"
    by (simp add: disable_request_def eval_nat_numeral ADMIN_BUF_def Let_def request_complete_def
        ext_is_http_method_prefix_def strneq_def c_str_def)
  moreover have "store_inv guarded_secrets"
    using two_secrets_inv by (simp add: guarded_secrets_def store_inv_def id_ok_def)
  ultimately show ?thesis
    using client_does_what_it_asks [of "good_env 1" "[]" disable_request guarded_secrets] by auto
qed

text \<open>
  The answer to \<open>LIST\<close> is what its reader expects: cut at its newlines, it is the summary, one line
  for every secret in order, and the closing dot.  No line is cut off by the 512-byte buffer it is
  printed to, so that the length passed to \<open>ext_write_all\<close> never runs past the buffer, and no label or
  address can start a line of its own.
\<close>

theorem list_reply_lines:
  assumes "store_inv s" "store_fits s" "fits_i64 (total_in s)" "fits_i64 (total_out s)" "fits_i64 (total_conns s)"
  shows "get_lines (line_LIST env s)
      = list_head (env_now env) s # map (list_line s) (entries s) @ [''.'' @ [LF]]
    \<and> length (list_head (env_now env) s) < 512 \<and> (\<forall>E \<in> set (entries s). length (list_line s E) < 512)"
proof -
  have h: "length (list_head (env_now env) s) < 512"
    using list_head_length [OF assms(1,3-5), of "env_now env"] assms(2) by (simp add: store_fits_def)
  have l: "length (list_line s E) < 512" if "E \<in> set (entries s)" for E
    using list_line_length [OF assms(1,2) that] by simp
  obtain g where g: "\<forall>E \<in> set (entries s). list_line s E = g E @ [LF] \<and> LF \<notin> set (g E)"
    using list_line_LF [OF assms(1)] by metis
  obtain hd0 where hd0: "list_head (env_now env) s = hd0 @ [LF]" "LF \<notin> set hd0"
    using show_int_no_sep(3) by (simp add: list_head_def traffic_words_def)
  have "line_LIST env s = concat (map (\<lambda>l. l @ [LF]) (hd0 # map g (entries s) @ [''.'']))"
    using h l g hd0 by (simp add: line_LIST_def snprintf_trunc_id comp_def cong: map_cong)
  moreover have "get_lines (concat (map (\<lambda>l. l @ [LF]) (hd0 # map g (entries s) @ [''.''])))
      = map (\<lambda>l. l @ [LF]) (hd0 # map g (entries s) @ [''.''])"
    using g hd0(2) by (intro get_lines_join) auto
  ultimately have "get_lines (line_LIST env s) = list_head (env_now env) s # map (list_line s) (entries s) @ [''.'' @ [LF]]"
    using g hd0(1) by (simp add: comp_def cong: map_cong)
  then show ?thesis using h l by blast
qed

theorem list_reply_lines_witness:
  "length (get_lines (line_LIST (good_env 5) sample_store)) = 3"
proof -
  have "fits_i64 (total_in sample_store)" "fits_i64 (total_out sample_store)" "fits_i64 (total_conns sample_store)"
    "length (entries sample_store) = 1" by code_simp+
  with list_reply_lines [OF sample_store_inv sample_store_fits, of "good_env 5"] show ?thesis by simp
qed

lemma add_line_words:
  assumes "\<forall>c \<in> set w. c_isxdigit c" "w \<noteq> []"
  shows "strtok [CHR '' '', TAB, CR] (fst (split_char LF (''ADD secret='' @ w @ [LF]))) = Some (''ADD'', ''secret='' @ w)"
    "read_kvs 64 (''secret='' @ w) = [(''secret'', w)]"
proof -
  have ws: "CHR '' '' \<notin> set w" "TAB \<notin> set w" "CR \<notin> set w" "LF \<notin> set w"
    using assms(1) by (auto simp: ctype_simps)
  have "split_char LF (''ADD secret='' @ w @ [LF]) = (''ADD secret='' @ w, Some [])"
    using split_char_append [of LF "''ADD secret='' @ w" "[]"] ws(4) by simp
  then show "strtok [CHR '' '', TAB, CR] (fst (split_char LF (''ADD secret='' @ w @ [LF]))) = Some (''ADD'', ''secret='' @ w)"
    by (simp add: strtok_def Let_def)
  have all: "takeWhile (\<lambda>c. c \<noteq> CHR '' '' \<and> c \<noteq> TAB \<and> c \<noteq> CR) w = w" "dropWhile (\<lambda>c. c \<noteq> CHR '' '' \<and> c \<noteq> TAB \<and> c \<noteq> CR) w = []"
    using ws by auto
  have "strtok [CHR '' '', TAB, CR] (''secret='' @ w) = Some (''secret='' @ w, [])"
    using ws by (simp add: strtok_def Let_def all del: dropWhile_eq_Nil_conv)
  moreover have "split_char (CHR ''='') (''secret='' @ w) = (''secret'', Some w)"
    using split_char_append [of "CHR ''=''" "''secret''" w] by simp
  moreover have "read_kvs n [] = []" for n by (subst read_kvs.simps) (simp add: strtok_def)
  ultimately show "read_kvs 64 (''secret='' @ w) = [(''secret'', w)]"
    using assms(2) by (subst read_kvs.simps) (cases w; simp)
qed

text \<open>
  An addition that is reported as failed can have taken effect: when the state file cannot be
  renamed into place, \<open>ADD\<close> answers \<open>ERR add failed\<close>, and the secret is active all the same.
\<close>

theorem failed_add_is_active:
  assumes "store_inv s" "length k = 16" "k \<notin> e_secret ` set (entries s)" "next_id s < 2 ^ 30"
    and "\<And>n. env_calloc env n" "\<And>n. env_realloc env n" "state_file s \<noteq> []" "\<not> env_rename env"
    and "admin_token s = []"
  shows "\<exists>s'. ext_admin_handle_line env (''ADD secret='' @ ext_secret16_to_hex k @ [LF]) s
      = Some (ext_admin_send_err ''add failed'', s') \<and> (k, next_id s) \<in> set (active_secrets now s')"
proof -
  let ?h = "ext_secret16_to_hex k"
  obtain rc s' where add: "ext_cmd_add env ?h [] 0 True s = Some (rc, s')" "state_file s \<noteq> [] \<and> \<not> env_rename env \<longrightarrow> rc = -1"
    and es: "entries s' = entries s @ [\<lparr>e_secret = k, e_hex = ?h, e_label = ext_sanitize_label [],
         e_last_ip = [], e_id = next_id s, e_enabled = True, e_created = env_now env, e_updated = env_now env,
         e_expires = (if (0::int) > 0 then 0 else 0), e_last_seen = 0\<rparr>]"
    using add_new_effect [OF assms(1) secret_roundtrip [OF assms(2)] assms(3,4,5,6), of "[]" 0 True] by (elim exE conjE)
  have rc: "rc = -1" using add(2) assms(7,8) by blast
  have e: "(k, next_id s) \<in> set (active_secrets now s')"
    unfolding active_secrets_def es by (simp add: ext_is_active_locked_def)
  have "length ?h = 32" using assms(2) by simp
  then have "?h \<noteq> []" by fastforce
  note words = add_line_words [OF _ this]
  have "line_ADD env [(''secret'', ?h)] s = Some (ext_admin_send_err ''add failed'', s')"
    using add(1) rc by (simp add: line_ADD_def ext_parse_bool_def)
  moreover have "line_command env ''ADD'' kvs s = line_ADD env kvs s" for kvs
    by (simp add: line_command_def strcaseeq_def c_tolower_def ctype_simps)
  ultimately have "ext_admin_handle_line env (''ADD secret='' @ ?h @ [LF]) s = Some (ext_admin_send_err ''add failed'', s')"
    using words assms(9) to_hex_xdigits unfolding ext_admin_handle_line_def Let_def by simp
  with e show ?thesis by blast
qed

theorem failed_add_is_active_witness:
  "\<exists>s'. ext_admin_handle_line ((good_env 1)\<lparr>env_rename := False\<rparr>) (''ADD secret='' @ ext_secret16_to_hex (replicate 16 9) @ [LF]) sample_store
      = Some (ext_admin_send_err ''add failed'', s') \<and> (replicate 16 9, 2) \<in> set (active_secrets 1 s')"
proof -
  have "replicate 16 9 \<notin> e_secret ` set (entries sample_store)" "admin_token sample_store = []" "next_id sample_store = 2"
    by code_simp+
  with failed_add_is_active [OF sample_store_inv, of "replicate 16 9" "(good_env 1)\<lparr>env_rename := False\<rparr>" 1] sample_store_file(1)
  show ?thesis by simp
qed

definition open_label_request :: string where
  "open_label_request = ''POST /v1/secrets HTTP/1.1'' @ CRLF @ CRLF @
     ''{'' @ jstr ''secret'' (concat (replicate 16 ''09'')) @ '','' @ quoted ''label'' @ '':'' @ QUOTE # ''ab''"

lemma open_label_parts:
  "find_sub (CRLF @ CRLF) open_label_request = Some 25"
  "scan_request_line (take 25 open_label_request) = Some (''POST'', ''/v1/secrets'', ''HTTP/1.1'')"
  "ext_http_json_get_string (drop 29 open_label_request) ''secret'' 64 = (True, concat (replicate 16 ''09''))"
  "ext_http_json_get_string (drop 29 open_label_request) ''label'' EXT_SECRET_LABEL_MAX = (False, ''ab'')"
  "http_expires (drop 29 open_label_request) = Inr None"
  "ext_http_json_get_bool (drop 29 open_label_request) ''enabled'' = Some None"
  by code_simp+

text \<open>
  A label cut short takes in what lies on the stack: for a request whose \<open>label\<close> has no closing quote,
  the new secret's label goes on with the bytes behind those that were copied, whatever they are.
\<close>

theorem open_label_reads_stack:
  assumes "store_inv s" "admin_token s = []" "replicate 16 9 \<notin> e_secret ` set (entries s)" "next_id s < 2 ^ 30"
    and "\<And>n. env_calloc env n" "\<And>n. env_realloc env n"
  shows "\<exists>out s'. ext_admin_handle_http env junk open_label_request s = Some (out, s')
    \<and> e_label (last (entries s')) = ext_sanitize_label (''ab'' @ c_str junk)"
proof -
  have hex: "ext_secret16_from_hex (concat (replicate 16 ''09'')) = Some (replicate 16 9)" by code_simp
  obtain rc s' where add: "ext_cmd_add env (concat (replicate 16 ''09'')) (''ab'' @ c_str junk) 0 True s = Some (rc, s')"
    "e_label (last (entries s')) = ext_sanitize_label (''ab'' @ c_str junk)"
    using add_new_effect [OF assms(1) hex assms(3-6), of "''ab'' @ c_str junk" 0 True] by auto
  have path: "fst (split_char (CHR ''?'') ''/v1/secrets'') = ''/v1/secrets''" by code_simp
  have "http_POST_secret env junk (drop 29 open_label_request) s
      = map_option (\<lambda>(rc, s'). (if rc = -2 then ext_http_send_error env 400 ''invalid secret format''
           else if rc < 0 then ext_http_send_error env 409 ''add failed'' else ext_http_send_json 201 ok_json, s'))
         (ext_cmd_add env (concat (replicate 16 ''09'')) (''ab'' @ c_str junk) 0 True s)"
    by (simp only: http_POST_secret_def open_label_parts prod.case bool.case Let_def label_buffer_def sum.case option.case) simp
  then obtain out where "http_POST_secret env junk (drop 29 open_label_request) s = Some (out, s')"
    unfolding add(1) option.map prod.case by blast
  moreover have "http_route env junk ''POST'' ''/v1/secrets'' body s = http_POST_secret env junk body s" for body
    by (simp add: http_route_def)
  ultimately have "ext_admin_handle_http env junk open_label_request s = Some (out, s')"
    using path assms(2) open_label_parts [simplified]
    by (simp only: ext_admin_handle_http_def open_label_parts Let_def option.case prod.case) simp
  with add(2) show ?thesis by blast
qed

theorem open_label_reads_stack_witness:
  "\<exists>out s'. ext_admin_handle_http (good_env 1) ''PRIVATE'' open_label_request two_secrets = Some (out, s')
    \<and> e_label (last (entries s')) = ''abPRIVATE''"
proof -
  have "replicate 16 9 \<notin> e_secret ` set (entries two_secrets)" "admin_token two_secrets = []" "next_id two_secrets = 3"
    "ext_sanitize_label (''ab'' @ c_str ''PRIVATE'') = ''abPRIVATE''" by code_simp+
  with open_label_reads_stack [OF two_secrets_inv, of "good_env 1" "''PRIVATE''"] show ?thesis by simp
qed

end
