(* ===== verification/TLS_Hello.thy ===== *)
theory TLS_Hello
  imports MT_Prelude "HOL-Library.Monad_Syntax"
begin

text \<open>
  The TLS records of \<open>net/net-tcp-rpc-ext-server.c\<close>: the ClientHello that \<open>create_request\<close> sends to a
  domain, the check of its answer, the search for the server name in a client's hello, and the
  ServerHello that the proxy itself sends.

  Buffers are byte lists.  Reading behind the end of a buffer is the value \<open>None\<close>, so that a result
  \<open>Some\<close> says that every access was within the buffer; a failed \<open>assert\<close> is \<open>None\<close> as well.
\<close>

declare add_2_eq_Suc [simp del] add_2_eq_Suc' [simp del]

section \<open>Reading\<close>

definition be16 :: "byte list \<Rightarrow> nat \<Rightarrow> nat" where
  "be16 buf pos = unat (buf ! pos) * 256 + unat (buf ! (pos + 1))"

text \<open>\<open>read_length\<close>: the value, and the position moved on.\<close>

definition read_length :: "byte list \<Rightarrow> nat \<Rightarrow> (nat \<times> nat) option" where
  "read_length response pos = (if pos + 2 \<le> length response then Some (be16 response pos, pos + 2) else None)"

text \<open>\<open>memcmp (response + pos, str, n) == 0\<close>.\<close>

definition mem_eq :: "byte list \<Rightarrow> nat \<Rightarrow> byte list \<Rightarrow> bool option" where
  "mem_eq buf pos str = (if pos + length str \<le> length buf then Some (take (length str) (drop pos buf) = str) else None)"

definition byte_at :: "byte list \<Rightarrow> nat \<Rightarrow> byte option" where
  "byte_at buf pos = (if pos < length buf then Some (buf ! pos) else None)"

lemma read_length_Some [simp]:
  "pos + 2 \<le> length buf \<Longrightarrow> read_length buf pos = Some (be16 buf pos, pos + 2)"
  by (simp add: read_length_def)

lemma mem_eq_Some [simp]:
  "pos + length str \<le> length buf \<Longrightarrow> mem_eq buf pos str = Some (take (length str) (drop pos buf) = str)"
  by (simp add: mem_eq_def)

lemma byte_at_Some [simp]: "pos < length buf \<Longrightarrow> byte_at buf pos = Some (buf ! pos)"
  by (simp add: byte_at_def)

section \<open>Checking the answer of a domain\<close>

datatype verdict = Rejected | Accepted bool nat

definition hello_retry_random :: "byte list" where
  "hello_retry_random =
     [0xcf, 0x21, 0xad, 0x74, 0xe5, 0x9a, 0x61, 0x11, 0xbe, 0x1d, 0x8c, 0x02, 0x1e, 0x65, 0xb8, 0x91,
      0xc2, 0xa2, 0x11, 0x16, 0x7a, 0xbb, 0x8c, 0x5e, 0x07, 0x9e, 0x09, 0xe2, 0xc8, 0xa8, 0x33, 0x9c]"

text \<open>
  The loop over the extensions up to \<open>lim = 5 + server_hello_length\<close>.  The result is the position, the
  sum of the identifiers and the order flag, or \<open>Some None\<close> for a failure.
\<close>

function extension_loop :: "byte list \<Rightarrow> nat \<Rightarrow> nat \<Rightarrow> nat \<Rightarrow> bool option \<Rightarrow> (nat \<times> nat \<times> bool option) option option" where
  "extension_loop resp lim pos acc revd =
     (if \<not> pos + 4 < lim then Some (Some (pos, acc, revd))
      else do {
        (ext_id, pos1) \<leftarrow> read_length resp pos;
        if ext_id \<noteq> 0x33 \<and> ext_id \<noteq> 0x2b then Some None
        else do {
          (ext_len, pos2) \<leftarrow> read_length resp pos1;
          if pos2 + ext_len > lim then Some None
          else if ext_len \<noteq> (if ext_id = 0x33 then 36 else 2) then Some None
          else extension_loop resp lim (pos2 + ext_len) (acc + ext_id) (if pos1 = 83 then Some (ext_id = 0x2b) else revd)
        }
      })"
  by pat_completeness auto
termination
  by (relation "measure (\<lambda>(r, lim, pos, s, v). lim - pos)")
     (auto simp: read_length_def split: if_splits)

declare extension_loop.simps [simp del]

text \<open>What is checked after the extensions.\<close>

definition check_response_tail :: "byte list \<Rightarrow> nat \<Rightarrow> (nat \<times> nat \<times> bool option) option \<Rightarrow> verdict option" where
  "check_response_tail resp shl r =
     (let len = length resp in
      case r of
        None \<Rightarrow> Some Rejected
      | Some (pos, acc, revd) \<Rightarrow>
          if acc \<noteq> 0x33 + 0x2b then Some Rejected
          else if pos \<noteq> 5 + shl then Some Rejected
          else if pos + 9 > len then Some Rejected
          else do {
            b5 \<leftarrow> mem_eq resp pos [0x14, 0x03, 0x03, 0x00, 0x01, 0x01];
            b6 \<leftarrow> mem_eq resp (pos + 6) [0x17, 0x03, 0x03];
            if \<not> b5 \<or> \<not> b6 then Some Rejected
            else if pos + 9 + 2 > len then Some Rejected
            else do {
              (enc, pos) \<leftarrow> read_length resp (pos + 9);
              if enc = 0 then Some Rejected
              else if pos + enc > len then Some Rejected
              else if pos + enc \<noteq> len then Some Rejected
              else do { v \<leftarrow> revd; Some (Accepted v enc) }
            }
          })"

text \<open>
  The last line of this part takes up the caller's \<open>assert (is_reversed_extension_order != -1)\<close>: an accepted answer
  whose order was never seen is \<open>None\<close>.
\<close>

definition check_response :: "byte list \<Rightarrow> byte list \<Rightarrow> verdict option" where
  "check_response resp session_id =
     (let len = length resp in
      if 3 > len then Some Rejected
      else do {
        b \<leftarrow> mem_eq resp 0 [0x16, 0x03, 0x03];
        if \<not> b then Some Rejected
        else if 5 > len then Some Rejected
        else do {
          (shl, pos) \<leftarrow> read_length resp 3;
          if shl \<le> 39 then Some Rejected
          else if pos + shl > len then Some Rejected
          else do {
            b1 \<leftarrow> mem_eq resp 5 [0x02, 0x00];
            b2 \<leftarrow> mem_eq resp 9 [0x03, 0x03];
            retry \<leftarrow> mem_eq resp 11 hello_retry_random;
            sid_len \<leftarrow> byte_at resp 43;
            if \<not> b1 \<or> \<not> b2 \<or> retry \<or> sid_len \<noteq> 0x20 then Some Rejected
            else if shl \<le> 75 then Some Rejected
            else do {
              b3 \<leftarrow> mem_eq resp 44 session_id;
              b4 \<leftarrow> mem_eq resp 76 [0x13, 0x01, 0x00];
              if \<not> b3 \<or> \<not> b4 then Some Rejected
              else do {
                (ext_total, pos) \<leftarrow> read_length resp 79;
                if ext_total + 76 \<noteq> shl then Some Rejected
                else do {
                  r \<leftarrow> extension_loop resp (5 + shl) pos 0 None;
                  check_response_tail resp shl r
                }
              }
            }
          }
        }
      })"

section \<open>The server name in a ClientHello\<close>

text \<open>The loop over the extensions; the inner \<open>None\<close> is the null pointer.\<close>

function sni_loop :: "byte list \<Rightarrow> nat \<Rightarrow> byte list option option" where
  "sni_loop req pos =
     (if pos + 4 > length req then Some None
      else do {
        (ext_id, pos1) \<leftarrow> read_length req pos;
        (ext_len, pos2) \<leftarrow> read_length req pos1;
        if pos2 + ext_len > length req then Some None
        else if ext_id = 0 then
          (if pos2 + 5 > length req then Some None
           else do {
             (inner, pos3) \<leftarrow> read_length req pos2;
             if int inner \<noteq> int ext_len - 2 then Some None
             else do {
               t \<leftarrow> byte_at req pos3;
               if t \<noteq> 0 then Some None
               else do {
                 (dlen, pos4) \<leftarrow> read_length req (pos3 + 1);
                 if int dlen \<noteq> int ext_len - 5 then Some None
                 else if pos4 + dlen > length req then None
                 else if 0 \<in> set (take dlen (drop pos4 req)) then Some None
                 else Some (Some (take dlen (drop pos4 req)))
               }
             }
           })
        else sni_loop req (pos2 + ext_len)
      })"
  by pat_completeness auto
termination
  by (relation "measure (\<lambda>(r, pos). length r - pos)")
     (auto simp: read_length_def split: if_splits)

declare sni_loop.simps [simp del]

text \<open>The name asked for; the table is looked up with it.\<close>

definition sni_name :: "byte list \<Rightarrow> byte list option option" where
  "sni_name req =
     (if 76 + 2 > length req then Some None
      else do {
        (cipher_len, pos) \<leftarrow> read_length req 76;
        if pos + cipher_len + 4 > length req then Some None
        else sni_loop req (pos + cipher_len + 4)
      })"

section \<open>Writing\<close>

text \<open>
  A buffer of \<open>room\<close> bytes filled from the left: \<open>emit room data out\<close> appends to what is written, and
  is \<open>None\<close> where the source asserts that there is room.
\<close>

definition emit :: "nat \<Rightarrow> byte list \<Rightarrow> byte list \<Rightarrow> byte list option" where
  "emit room data out = (if length out + length data \<le> room then Some (out @ data) else None)"

definition len16 :: "nat \<Rightarrow> byte list" where
  "len16 n = [of_nat (n div 256), of_nat (n mod 256)]"

definition TLS_REQUEST_LENGTH :: nat where
  "TLS_REQUEST_LENGTH = 517"

definition add_string :: "byte list \<Rightarrow> byte list \<Rightarrow> byte list option" where
  "add_string data str = emit TLS_REQUEST_LENGTH data str"

text \<open>The bytes that \<open>RAND_bytes\<close> stores are the argument.\<close>

definition add_random :: "byte list \<Rightarrow> byte list \<Rightarrow> byte list option" where
  "add_random rnd str = emit TLS_REQUEST_LENGTH rnd str"

definition add_length :: "nat \<Rightarrow> byte list \<Rightarrow> byte list option" where
  "add_length n str = emit TLS_REQUEST_LENGTH (len16 n) str"

definition add_grease :: "byte list \<Rightarrow> nat \<Rightarrow> byte list \<Rightarrow> byte list option" where
  "add_grease greases num str = emit TLS_REQUEST_LENGTH [greases ! num, greases ! num] str"

definition add_public_key :: "byte list \<Rightarrow> byte list \<Rightarrow> byte list option" where
  "add_public_key key str = emit TLS_REQUEST_LENGTH key str"

definition grease_byte :: "byte \<Rightarrow> byte" where
  "grease_byte g = (g AND 0xF0) + 0x0A"

text \<open>Seven bytes; at the odd places a byte equal to the one before it is changed.\<close>

definition MAX_GREASE :: nat where
  "MAX_GREASE = 7"

definition make_greases :: "byte list \<Rightarrow> byte list" where
  "make_greases rnd =
     (let g = map grease_byte rnd
      in foldl (\<lambda>g i. if g ! i = g ! (i - 1) then g[i := 0x10 XOR g ! i] else g) g [1, 3, 5])"

definition hello_suites :: "byte list" where
  "hello_suites =
     [0x13, 0x01, 0x13, 0x02, 0x13, 0x03, 0xc0, 0x2b, 0xc0, 0x2f, 0xc0, 0x2c, 0xc0, 0x30, 0xcc, 0xa9, 0xcc, 0xa8,
      0xc0, 0x13, 0xc0, 0x14, 0x00, 0x9c, 0x00, 0x9d, 0x00, 0x2f, 0x00, 0x35, 0x00, 0x0a, 0x01, 0x00, 0x01, 0x91]"

definition hello_middle :: "byte list" where
  "hello_middle =
     [0x00, 0x1d, 0x00, 0x17, 0x00, 0x18, 0x00, 0x0b, 0x00, 0x02, 0x01, 0x00, 0x00, 0x23, 0x00, 0x00, 0x00, 0x10,
      0x00, 0x0e, 0x00, 0x0c, 0x02, 0x68, 0x32, 0x08, 0x68, 0x74, 0x74, 0x70, 0x2f, 0x31, 0x2e, 0x31, 0x00, 0x05,
      0x00, 0x05, 0x01, 0x00, 0x00, 0x00, 0x00, 0x00, 0x0d, 0x00, 0x14, 0x00, 0x12, 0x04, 0x03, 0x08, 0x04, 0x04,
      0x01, 0x05, 0x03, 0x08, 0x05, 0x05, 0x01, 0x08, 0x06, 0x06, 0x01, 0x02, 0x01, 0x00, 0x12, 0x00, 0x00, 0x00,
      0x33, 0x00, 0x2b, 0x00, 0x29]"

text \<open>The random choices of one request.\<close>

record hello_random =
  hr_greases :: "byte list"
  hr_random :: "byte list"
  hr_session :: "byte list"
  hr_key :: "byte list"

definition random_sizes :: "hello_random \<Rightarrow> bool" where
  "random_sizes h \<longleftrightarrow> length (hr_greases h) = MAX_GREASE \<and> length (hr_random h) = 32 \<and> length (hr_session h) = 32
     \<and> length (hr_key h) = 32"

definition create_request :: "hello_random \<Rightarrow> byte list \<Rightarrow> byte list option" where
  "create_request h domain =
     (let greases = make_greases (hr_greases h); d = length domain in do {
        r \<leftarrow> add_string [0x16, 0x03, 0x01, 0x02, 0x00, 0x01, 0x00, 0x01, 0xfc, 0x03, 0x03] [];
        r \<leftarrow> add_random (hr_random h) r;
        r \<leftarrow> add_string [0x20] r;
        r \<leftarrow> add_random (hr_session h) r;
        r \<leftarrow> add_string [0x00, 0x22] r;
        r \<leftarrow> add_grease greases 0 r;
        r \<leftarrow> add_string hello_suites r;
        r \<leftarrow> add_grease greases 2 r;
        r \<leftarrow> add_string [0, 0, 0, 0] r;
        r \<leftarrow> add_length (d + 5) r;
        r \<leftarrow> add_length (d + 3) r;
        r \<leftarrow> add_string [0] r;
        r \<leftarrow> add_length d r;
        r \<leftarrow> add_string domain r;
        r \<leftarrow> add_string [0x00, 0x17, 0x00, 0x00, 0xff, 0x01, 0x00, 0x01, 0x00, 0x00, 0x0a, 0x00, 0x0a, 0x00, 0x08] r;
        r \<leftarrow> add_grease greases 4 r;
        r \<leftarrow> add_string hello_middle r;
        r \<leftarrow> add_grease greases 4 r;
        r \<leftarrow> add_string [0x00, 0x01, 0x00, 0x00, 0x1d, 0x00, 0x20] r;
        r \<leftarrow> add_public_key (hr_key h) r;
        r \<leftarrow> add_string [0x00, 0x2d, 0x00, 0x02, 0x01, 0x01, 0x00, 0x2b, 0x00, 0x0b, 0x0a] r;
        r \<leftarrow> add_grease greases 6 r;
        r \<leftarrow> add_string [0x03, 0x04, 0x03, 0x03, 0x03, 0x02, 0x03, 0x01, 0x00, 0x1b, 0x00, 0x03, 0x02, 0x00, 0x02] r;
        r \<leftarrow> add_grease greases 3 r;
        r \<leftarrow> add_string [0x00, 0x01, 0x00, 0x00, 0x15] r;
        if TLS_REQUEST_LENGTH < 2 + length r then None
        else do {
          r \<leftarrow> add_length (TLS_REQUEST_LENGTH - 2 - length r) r;
          Some (r @ replicate (TLS_REQUEST_LENGTH - length r) 0)
        }
      })"

section \<open>The ServerHello of the proxy\<close>

definition key_share_ext :: "nat \<Rightarrow> byte list \<Rightarrow> byte list \<Rightarrow> byte list option" where
  "key_share_ext room key out =
     (if length out + 40 \<le> room then emit room ([0x00, 0x33, 0x00, 0x24, 0x00, 0x1d, 0x00, 0x20] @ key) out else None)"

definition versions_ext :: "nat \<Rightarrow> byte list \<Rightarrow> byte list option" where
  "versions_ext room out =
     (if length out + 5 \<le> room then emit room [0x00, 0x2b, 0x00, 0x02, 0x03, 0x04] out else None)"

text \<open>
  \<open>room\<close> is \<open>response_size\<close>, at most 0 where the allocation of \<open>32 + response_size\<close> bytes cannot be filled; \<open>rnd\<close>
  stands for \<open>RAND_bytes\<close>.  The hello is first written with a random field of zeroes.
\<close>

definition server_hello_zero ::
    "byte list \<Rightarrow> byte \<Rightarrow> bool \<Rightarrow> byte list \<Rightarrow> int \<Rightarrow> (nat \<Rightarrow> byte list) \<Rightarrow> byte list option" where
  "server_hello_zero session cipher revd key enc rnd =
     (let room = nat (127 + 6 + 5 + enc) in do {
        r \<leftarrow> emit room [0x16, 0x03, 0x03, 0x00, 0x7a, 0x02, 0x00, 0x00, 0x76, 0x03, 0x03] [];
        r \<leftarrow> emit room (replicate 32 0) r;
        r \<leftarrow> emit room [0x20] r;
        r \<leftarrow> emit room session r;
        r \<leftarrow> emit room [0x13, cipher, 0x00, 0x00, 0x2e] r;
        r \<leftarrow> (if revd then Option.bind (versions_ext room r) (key_share_ext room key)
              else Option.bind (key_share_ext room key r) (versions_ext room));
        if length r \<noteq> 127 then None else do {
          r \<leftarrow> emit room [0x14, 0x03, 0x03, 0x00, 0x01, 0x01, 0x17, 0x03, 0x03] r;
          r \<leftarrow> emit room (len16 (nat enc)) r;
          if length r + nat enc \<noteq> room then None else emit room (rnd (nat enc)) r
        }
      })"

text \<open>
  The random field is the HMAC of the client's random value and the hello; \<open>mac\<close> stands for
  \<open>sha256_hmac\<close> with the matched secret.
\<close>

definition server_hello ::
    "(byte list \<Rightarrow> byte list) \<Rightarrow> byte list \<Rightarrow> byte list \<Rightarrow> byte \<Rightarrow> bool \<Rightarrow> byte list \<Rightarrow> int \<Rightarrow> (nat \<Rightarrow> byte list) \<Rightarrow> byte list option" where
  "server_hello mac client_random session cipher revd key enc rnd =
     map_option (\<lambda>b. take 11 b @ mac (client_random @ b) @ drop 43 b) (server_hello_zero session cipher revd key enc rnd)"

end
