(* ===== verification/TLS_Domain.thy ===== *)
theory TLS_Domain
  imports TLS_Hello
begin

text \<open>
  The domains behind which the proxy hides (\<open>net/net-tcp-rpc-ext-server.c\<close>): their hash table, the
  search by the server name of a client, and what the proxy learns of each domain at its start by
  asking it twenty times (\<open>update_domain_info\<close>).
\<close>

section \<open>The table of domains\<close>

record domain_info =
  d_domain :: "byte list"
  d_target :: u32
  d_target6 :: "byte list"
  d_encrypted_size :: int
  d_use_random :: bool
  d_reversed :: bool

definition DOMAIN_HASH_MOD :: nat where
  "DOMAIN_HASH_MOD = 257"

record domain_table =
  dt_buckets :: "domain_info list list"
  dt_default :: "byte list option"
  dt_only_tls :: bool

definition empty_domains :: domain_table where
  "empty_domains = \<lparr>dt_buckets = replicate DOMAIN_HASH_MOD [], dt_default = None, dt_only_tls = False\<rparr>"

definition get_domain_info_bucket :: "byte list \<Rightarrow> nat" where
  "get_domain_info_bucket domain = unat (fold (\<lambda>c h. h * 239017 + ucast c) domain (0 :: u32)) mod DOMAIN_HASH_MOD"

definition get_domain_info :: "domain_table \<Rightarrow> byte list \<Rightarrow> domain_info option" where
  "get_domain_info t domain = List.find (\<lambda>d. d_domain d = domain) (dt_buckets t ! get_domain_info_bucket domain)"

definition new_domain :: "byte list \<Rightarrow> domain_info" where
  "new_domain domain = \<lparr>d_domain = domain, d_target = 0, d_target6 = replicate 16 0, d_encrypted_size = 0,
     d_use_random = False, d_reversed = False\<rparr>"

definition tcp_rpc_add_proxy_domain :: "byte list \<Rightarrow> domain_table \<Rightarrow> domain_table" where
  "tcp_rpc_add_proxy_domain domain t =
     (let b = get_domain_info_bucket domain;
          t1 = t\<lparr>dt_buckets := (dt_buckets t)[b := new_domain domain # dt_buckets t ! b]\<rparr>
      in if dt_only_tls t then t1 else t1\<lparr>dt_only_tls := True, dt_default := Some domain\<rparr>)"

definition get_domain_server_hello_encrypted_size :: "nat \<Rightarrow> domain_info \<Rightarrow> int" where
  "get_domain_server_hello_encrypted_size r d =
     (if d_use_random d then d_encrypted_size d + int (r div 2 mod 2) - int (r mod 2) else d_encrypted_size d)"

definition get_sni_domain_info :: "domain_table \<Rightarrow> byte list \<Rightarrow> domain_info option option" where
  "get_sni_domain_info t req = map_option (\<lambda>n. Option.bind n (get_domain_info t)) (sni_name req)"

section \<open>What twenty answers tell about a domain\<close>

text \<open>
  The bookkeeping of \<open>update_domain_info\<close>: minimum and maximum of the order flag, and minimum, maximum
  and sum of the encrypted lengths.
\<close>

record tally =
  ta_count :: nat
  ta_rev_min :: bool
  ta_rev_max :: bool
  ta_len_min :: nat
  ta_len_max :: nat
  ta_len_sum :: nat

definition tally0 :: tally where
  "tally0 = \<lparr>ta_count = 0, ta_rev_min = False, ta_rev_max = False, ta_len_min = 0, ta_len_max = 0, ta_len_sum = 0\<rparr>"

definition tally_add :: "bool \<Rightarrow> nat \<Rightarrow> tally \<Rightarrow> tally" where
  "tally_add revd l a =
     (let a1 = (if ta_count a = 0 then a\<lparr>ta_rev_min := revd, ta_rev_max := revd, ta_len_min := l, ta_len_max := l\<rparr>
                else a\<lparr>ta_rev_min := (if revd < ta_rev_min a then revd else ta_rev_min a),
                       ta_rev_max := (if revd > ta_rev_max a then revd else ta_rev_max a),
                       ta_len_min := (if l < ta_len_min a then l else ta_len_min a),
                       ta_len_max := (if l > ta_len_max a then l else ta_len_max a)\<rparr>)
      in a1\<lparr>ta_len_sum := ta_len_sum a + l, ta_count := ta_count a + 1\<rparr>)"

definition TRIES :: nat where
  "TRIES = 20"

text \<open>The size is a \<open>short\<close>.\<close>

definition i16 :: "int \<Rightarrow> int" where
  "i16 x = (x + 32768) mod 65536 - 32768"

text \<open>\<open>(int)(sum * 1.0 / TRIES + 0.5)\<close> is the sum divided by 20, rounded half up.\<close>

definition learn_domain :: "tally \<Rightarrow> domain_info \<Rightarrow> domain_info" where
  "learn_domain a d =
     (let d1 = d\<lparr>d_reversed := ta_rev_min a\<rparr> in
      if ta_len_min a = ta_len_max a then d1\<lparr>d_encrypted_size := i16 (int (ta_len_min a)), d_use_random := False\<rparr>
      else if ta_len_max a - ta_len_min a \<le> 3 then d1\<lparr>d_encrypted_size := i16 (int (ta_len_max a) - 1), d_use_random := True\<rparr>
      else d1\<lparr>d_encrypted_size := i16 (int ((2 * ta_len_sum a + TRIES) div (2 * TRIES))), d_use_random := True\<rparr>)"


section \<open>Asking a domain\<close>

text \<open>
  \<open>update_domain_info\<close> asks a domain twenty times at once.  Per socket: whether the request was
  written, the bytes read of the answer (\<open>None\<close> as long as the buffer is not allocated), how many
  are wanted, whether the length of the encrypted data is known, and whether the socket is done.
\<close>

record probe =
  pb_written :: bool
  pb_resp :: "byte list option"
  pb_len :: nat
  pb_enc_read :: bool
  pb_finished :: bool

definition probe0 :: probe where
  "probe0 = \<lparr>pb_written = False, pb_resp = None, pb_len = 0, pb_enc_read = False, pb_finished = False\<rparr>"

datatype read_outcome = Read_Fail | Read_Next probe | Read_Again probe | Read_Done bool nat

text \<open>\<open>read (fd, buf, n)\<close> with \<open>avail\<close> in the socket: an error, or at most \<open>n\<close> bytes.\<close>

definition sys_read :: "nat \<Rightarrow> byte list option \<Rightarrow> byte list option" where
  "sys_read n avail = map_option (take n) avail"

text \<open>
  A readable socket.  \<open>Read_Again\<close> is the \<open>continue\<close> after the length became known, and \<open>None\<close> a failed
  assertion or an access outside the buffer.
\<close>

definition probe_read :: "byte list \<Rightarrow> byte list option \<Rightarrow> probe \<Rightarrow> read_outcome option" where
  "probe_read session avail p =
     (case pb_resp p of
        None \<Rightarrow>
          (case sys_read 5 avail of
             None \<Rightarrow> Some Read_Fail
           | Some h \<Rightarrow>
               if length h \<noteq> 5 then Some Read_Fail
               else if take 3 h \<noteq> [0x16, 0x03, 0x03] then Some Read_Fail
               else Some (Read_Next (p\<lparr>pb_resp := Some h, pb_len := 5 + be16 h 3 + 6 + 5\<rparr>)))
      | Some b \<Rightarrow>
          (case sys_read (pb_len p - length b) avail of
             None \<Rightarrow> Some Read_Fail
           | Some d \<Rightarrow>
               let b = b @ d; p = p\<lparr>pb_resp := Some b\<rparr> in
               if length b \<noteq> pb_len p then Some (Read_Next p)
               else if \<not> pb_enc_read p then do {
                 m \<leftarrow> mem_eq b (pb_len p - 11) [0x14, 0x03, 0x03, 0x00, 0x01, 0x01, 0x17, 0x03, 0x03];
                 if \<not> m then Some Read_Fail
                 else Some (Read_Again (p\<lparr>pb_enc_read := True, pb_len := pb_len p + be16 b (pb_len p - 2)\<rparr>))
               }
               else do {
                 v \<leftarrow> check_response b session;
                 case v of Rejected \<Rightarrow> Some Read_Fail | Accepted revd n \<Rightarrow> Some (Read_Done revd n)
               }))"

text \<open>
  What \<open>select\<close> and the calls after it say about one socket: readable, with the bytes or an error;
  writable, with the result of \<open>write\<close>; in an exceptional state.  \<open>selected\<close> leaves only what was
  asked for.
\<close>

record sock_event =
  ev_read :: "byte list option option"
  ev_write :: "int option"
  ev_except :: bool

definition selected :: "probe \<Rightarrow> sock_event \<Rightarrow> sock_event" where
  "selected p ev = ev\<lparr>ev_read := (if pb_written p then ev_read ev else None),
                      ev_write := (if pb_written p then None else ev_write ev)\<rparr>"

datatype turn_result = Turn_Fail | Turn_Go probe | Turn_Finish bool nat

definition probe_write :: "sock_event \<Rightarrow> probe \<Rightarrow> turn_result option" where
  "probe_write ev p =
     (case ev_write ev of
        None \<Rightarrow> Some (if ev_except ev then Turn_Fail else Turn_Go p)
      | Some w \<Rightarrow>
          if pb_written p then None
          else if w \<noteq> int TLS_REQUEST_LENGTH then Some Turn_Fail
          else Some (if ev_except ev then Turn_Fail else Turn_Go (p\<lparr>pb_written := True\<rparr>)))"

definition probe_turn :: "byte list \<Rightarrow> sock_event \<Rightarrow> probe \<Rightarrow> turn_result option" where
  "probe_turn session ev p =
     (case ev_read ev of
        None \<Rightarrow> probe_write ev p
      | Some avail \<Rightarrow>
          if \<not> pb_written p then None
          else do {
            r \<leftarrow> probe_read session avail p;
            case r of
              Read_Fail \<Rightarrow> Some Turn_Fail
            | Read_Next p' \<Rightarrow> probe_write ev p'
            | Read_Again p' \<Rightarrow> Some (Turn_Go p')
            | Read_Done revd n \<Rightarrow> Some (Turn_Finish revd n)
          })"

record probing =
  pr_probes :: "probe list"
  pr_tally :: tally
  pr_error :: bool

text \<open>One pass over the sockets, left at the first error.\<close>

fun probe_round :: "byte list list \<Rightarrow> (nat \<Rightarrow> sock_event) \<Rightarrow> nat list \<Rightarrow> probing \<Rightarrow> probing option" where
  "probe_round sessions ev [] s = Some s"
| "probe_round sessions ev (i # is) s =
     (let p = pr_probes s ! i in
      if pb_finished p then probe_round sessions ev is s
      else do {
        t \<leftarrow> probe_turn (sessions ! i) (selected p (ev i)) p;
        case t of
          Turn_Fail \<Rightarrow> Some (s\<lparr>pr_error := True\<rparr>)
        | Turn_Go p' \<Rightarrow> probe_round sessions ev is (s\<lparr>pr_probes := (pr_probes s)[i := p']\<rparr>)
        | Turn_Finish revd n \<Rightarrow>
            probe_round sessions ev is
              (s\<lparr>pr_probes := (pr_probes s)[i := p\<lparr>pb_finished := True\<rparr>], pr_tally := tally_add revd n (pr_tally s)\<rparr>)
      })"

text \<open>The passes within the five seconds.\<close>

fun probe_loop :: "byte list list \<Rightarrow> (nat \<Rightarrow> sock_event) list \<Rightarrow> probing \<Rightarrow> probing option" where
  "probe_loop sessions [] s = Some s"
| "probe_loop sessions (ev # evs) s =
     (if ta_count (pr_tally s) < TRIES \<and> \<not> pr_error s
      then do { s' \<leftarrow> probe_round sessions ev [0..<TRIES] s; probe_loop sessions evs s' }
      else Some s)"

datatype host_address = Host_IPv4 u32 | Host_IPv6 "byte list"

datatype open_result = Open_Fails | Connect_Fails | Connecting

record probe_env =
  pe_host :: "byte list \<Rightarrow> host_address option"
  pe_open :: "nat \<Rightarrow> open_result"
  pe_hello :: "nat \<Rightarrow> hello_random"
  pe_rounds :: "(nat \<Rightarrow> sock_event) list"

definition set_target :: "host_address \<Rightarrow> domain_info \<Rightarrow> domain_info" where
  "set_target host d =
     (case host of
        Host_IPv4 a \<Rightarrow> d\<lparr>d_target := a, d_target6 := replicate 16 0\<rparr>
      | Host_IPv6 a \<Rightarrow> d\<lparr>d_target := 0, d_target6 := a\<rparr>)"

fun open_sockets :: "(nat \<Rightarrow> open_result) \<Rightarrow> host_address \<Rightarrow> nat list \<Rightarrow> domain_info \<Rightarrow> bool \<times> domain_info" where
  "open_sockets res host [] d = (True, d)"
| "open_sockets res host (i # is) d =
     (case res i of
        Open_Fails \<Rightarrow> (False, d)
      | Connect_Fails \<Rightarrow> (False, set_target host d)
      | Connecting \<Rightarrow> open_sockets res host is (set_target host d))"

text \<open>The result says whether the domain was checked; \<open>None\<close> is a failed assertion.\<close>

definition update_domain_info :: "probe_env \<Rightarrow> domain_info \<Rightarrow> (bool \<times> domain_info) option" where
  "update_domain_info env d =
     (case pe_host env (d_domain d) of
        None \<Rightarrow> Some (False, d)
      | Some host \<Rightarrow>
          (case open_sockets (pe_open env) host [0..<TRIES] d of
             (False, d) \<Rightarrow> Some (False, d)
           | (True, d) \<Rightarrow> do {
               requests \<leftarrow> those (map (\<lambda>i. create_request (pe_hello env i) (d_domain d)) [0..<TRIES]);
               s \<leftarrow> probe_loop (map (\<lambda>r. take 32 (drop 44 r)) requests) (pe_rounds env)
                      \<lparr>pr_probes = replicate TRIES probe0, pr_tally = tally0, pr_error = False\<rparr>;
               if ta_count (pr_tally s) \<noteq> TRIES then Some (False, d)
               else Some (True, learn_domain (pr_tally s) d)
             }))"

section \<open>All domains\<close>

text \<open>\<open>r\<close> is the value of \<open>rand\<close> for the domain.\<close>

definition init_domain :: "probe_env \<Rightarrow> nat \<Rightarrow> domain_info \<Rightarrow> domain_info option" where
  "init_domain env r d =
     map_option (\<lambda>(ok, d). if ok then d
       else d\<lparr>d_reversed := False, d_use_random := True, d_encrypted_size := 2500 + int r mod 1120\<rparr>) (update_domain_info env d)"

definition tcp_rpc_init_proxy_domains ::
    "(byte list \<Rightarrow> probe_env) \<Rightarrow> (byte list \<Rightarrow> nat) \<Rightarrow> domain_table \<Rightarrow> domain_table option" where
  "tcp_rpc_init_proxy_domains env r t =
     map_option (\<lambda>bs. t\<lparr>dt_buckets := bs\<rparr>)
       (those (map (\<lambda>b. those (map (\<lambda>d. init_domain (env (d_domain d)) (r (d_domain d)) d) b)) (dt_buckets t)))"

end
