(* ===== verification/TLS_Wire.thy ===== *)
theory TLS_Wire
  imports TLS_Domain
begin

text \<open>
  Facts about the TLS records: no access of \<open>check_response\<close> and \<open>get_sni_domain_info\<close> is outside the
  buffer, the request of the proxy has the length it announces and names the domain, and the
  proxy's own answer is one that the proxy accepts.
\<close>

section \<open>No access outside the buffer\<close>

lemma extension_loop_step:
  assumes "pos + 4 < lim" "lim \<le> length resp"
  shows "extension_loop resp lim pos acc revd =
    (let ext = be16 resp pos; l = be16 resp (pos + 2) in
     if ext \<noteq> 0x33 \<and> ext \<noteq> 0x2b \<or> pos + 4 + l > lim \<or> l \<noteq> (if ext = 0x33 then 36 else 2) then Some None
     else extension_loop resp lim (pos + 4 + l) (acc + ext) (if pos = 81 then Some (ext = 0x2b) else revd))"
proof -
  have r: "read_length resp pos = Some (be16 resp pos, pos + 2)" "read_length resp (pos + 2) = Some (be16 resp (pos + 2), pos + 4)"
    using assms by simp_all
  show ?thesis
    unfolding extension_loop.simps[of resp lim pos acc revd] r using assms(1)
    by (simp add: r Let_def)
qed

lemma extension_loop_stop:
  "\<not> pos + 4 < lim \<Longrightarrow> extension_loop resp lim pos acc revd = Some (Some (pos, acc, revd))"
  by (subst extension_loop.simps) simp

text \<open>The loop is defined, and when it ends well the order flag was set unless nothing was added.\<close>

lemma extension_loop_defined:
  assumes "lim \<le> length resp"
  shows "\<exists>v. extension_loop resp lim pos acc revd = Some v \<and>
    (\<forall>p a. v = Some (p, a, None) \<longrightarrow> revd = None \<and> (pos = 81 \<longrightarrow> a = acc))"
  using assms
proof (induction "lim - pos" arbitrary: pos acc revd rule: less_induct)
  case less
  show ?case
  proof (cases "pos + 4 < lim")
    case False
    then show ?thesis by (simp add: extension_loop_stop)
  next
    case True
    let ?p = "pos + 4 + be16 resp (pos + 2)" and ?a = "acc + be16 resp pos"
      and ?v = "if pos = 81 then Some (be16 resp pos = 0x2b) else revd"
    obtain v where v: "extension_loop resp lim ?p ?a ?v = Some v"
        "\<forall>p a. v = Some (p, a, None) \<longrightarrow> ?v = None \<and> (?p = 81 \<longrightarrow> a = ?a)"
      using less.hyps[of ?p ?a ?v] True less.prems by fastforce
    show ?thesis
      unfolding extension_loop_step[OF True less.prems] Let_def v(1)
      using v(2) by (auto split: if_splits)
  qed
qed

lemma check_response_defined:
  assumes "length session = 32"
  shows "\<exists>v. check_response resp session = Some v"
proof -
  let ?n = "be16 resp 3"
  have loop: "\<exists>v. extension_loop resp (5 + ?n) 81 0 None = Some v \<and>
      (\<forall>p a. v = Some (p, a, None) \<longrightarrow> a = 0)" if "5 + ?n \<le> length resp"
    using extension_loop_defined[OF that, of 81 0 None] by auto
  have hrr: "length hello_retry_random = 32" by (simp add: hello_retry_random_def)
  consider "length resp < 5" | "5 \<le> length resp" "?n \<le> 75 \<or> length resp < 5 + ?n"
    | "5 \<le> length resp" "75 < ?n" "5 + ?n \<le> length resp" by linarith
  then show ?thesis
  proof cases
    case 1
    then show ?thesis by (auto simp: check_response_def check_response_tail_def Let_def)
  next
    case 2
    then show ?thesis by (auto simp: check_response_def check_response_tail_def Let_def hrr)
  next
    case 3
    from loop[OF 3(3)] obtain v where v: "extension_loop resp (5 + ?n) 81 0 None = Some v"
      "\<forall>p a. v = Some (p, a, None) \<longrightarrow> a = 0" by blast
    show ?thesis using 3 v assms
      by (cases v) (auto simp: check_response_def check_response_tail_def Let_def hrr split: option.splits)
  qed
qed

lemma sni_loop_step:
  assumes "pos + 4 \<le> length req"
  shows "sni_loop req pos =
    (let ext = be16 req pos; l = be16 req (pos + 2) in
     if pos + 4 + l > length req then Some None
     else if ext \<noteq> 0 then sni_loop req (pos + 4 + l)
     else if pos + 9 > length req then Some None
     else if int (be16 req (pos + 4)) \<noteq> int l - 2 \<or> req ! (pos + 6) \<noteq> 0 \<or> int (be16 req (pos + 7)) \<noteq> int l - 5 then Some None
     else if 0 \<in> set (take (l - 5) (drop (pos + 9) req)) then Some None
     else Some (Some (take (l - 5) (drop (pos + 9) req))))"
proof -
  have r: "read_length req pos = Some (be16 req pos, pos + 2)" "read_length req (pos + 2) = Some (be16 req (pos + 2), pos + 4)"
    using assms by simp_all
  let ?l = "be16 req (pos + 2)"
  consider "pos + 4 + ?l > length req" | "pos + 4 + ?l \<le> length req" "be16 req pos \<noteq> 0"
    | "pos + 4 + ?l \<le> length req" "be16 req pos = 0" "pos + 9 > length req"
    | "pos + 4 + ?l \<le> length req" "be16 req pos = 0" "pos + 9 \<le> length req" by linarith
  then show ?thesis
  proof cases
    case 4
    have d: "int n = int ?l - 5 \<Longrightarrow> n = ?l - 5 \<and> pos + 9 + n \<le> length req" for n
      using 4 by linarith
    show ?thesis
      unfolding sni_loop.simps[of req pos] r using assms 4
      by (simp add: r Let_def add.commute add.left_commute) (use d in force)
  qed (use assms in \<open>simp_all add: sni_loop.simps[of req pos] r Let_def\<close>)
qed

lemma sni_loop_defined: "\<exists>v. sni_loop req pos = Some v"
proof (induction "length req - pos" arbitrary: pos rule: less_induct)
  case less
  show ?case
  proof (cases "pos + 4 \<le> length req")
    case False
    then show ?thesis by (subst sni_loop.simps) simp
  next
    case True
    then show ?thesis
      unfolding sni_loop_step[OF True] Let_def using less.hyps[of "pos + 4 + be16 req (pos + 2)"] by auto
  qed
qed

lemma sni_name_defined: "\<exists>v. sni_name req = Some v"
  using sni_loop_defined by (auto simp: sni_name_def)

section \<open>The request of the proxy\<close>

lemma emit_Some [simp]: "length out + length data \<le> room \<Longrightarrow> emit room data out = Some (out @ data)"
  by (simp add: emit_def)

lemma emit_None [simp]: "\<not> length out + length data \<le> room \<Longrightarrow> emit room data out = None"
  by (simp add: emit_def)

lemma length_len16 [simp]: "length (len16 n) = 2"
  by (simp add: len16_def)

lemmas add_simps = add_string_def add_random_def add_length_def add_grease_def add_public_key_def TLS_REQUEST_LENGTH_def

lemma length_hello_suites [simp]: "length hello_suites = 36"
  by (simp add: hello_suites_def)

lemma length_hello_middle [simp]: "length hello_middle = 77"
  by (simp add: hello_middle_def)

text \<open>What \<open>create_request\<close> writes before the name, and what follows it.\<close>

definition request_head :: "hello_random \<Rightarrow> nat \<Rightarrow> byte list" where
  "request_head h d =
     [0x16, 0x03, 0x01, 0x02, 0x00, 0x01, 0x00, 0x01, 0xfc, 0x03, 0x03] @ hr_random h @ [0x20] @ hr_session h @ [0x00, 0x22]
     @ [make_greases (hr_greases h) ! 0, make_greases (hr_greases h) ! 0] @ hello_suites
     @ [make_greases (hr_greases h) ! 2, make_greases (hr_greases h) ! 2] @ [0, 0, 0, 0]
     @ len16 (d + 5) @ len16 (d + 3) @ [0] @ len16 d"

lemma length_request_head: "random_sizes h \<Longrightarrow> length (request_head h d) = 129"
  by (simp add: request_head_def random_sizes_def)

definition request_tail :: "hello_random \<Rightarrow> nat \<Rightarrow> byte list" where
  "request_tail h d =
     [0x00, 0x17, 0x00, 0x00, 0xff, 0x01, 0x00, 0x01, 0x00, 0x00, 0x0a, 0x00, 0x0a, 0x00, 0x08]
     @ [make_greases (hr_greases h) ! 4, make_greases (hr_greases h) ! 4] @ hello_middle
     @ [make_greases (hr_greases h) ! 4, make_greases (hr_greases h) ! 4] @ [0x00, 0x01, 0x00, 0x00, 0x1d, 0x00, 0x20]
     @ hr_key h @ [0x00, 0x2d, 0x00, 0x02, 0x01, 0x01, 0x00, 0x2b, 0x00, 0x0b, 0x0a]
     @ [make_greases (hr_greases h) ! 6, make_greases (hr_greases h) ! 6]
     @ [0x03, 0x04, 0x03, 0x03, 0x03, 0x02, 0x03, 0x01, 0x00, 0x1b, 0x00, 0x03, 0x02, 0x00, 0x02]
     @ [make_greases (hr_greases h) ! 3, make_greases (hr_greases h) ! 3] @ [0x00, 0x01, 0x00, 0x00, 0x15]
     @ len16 (216 - d) @ replicate (216 - d) 0"

lemma length_request_tail: "random_sizes h \<Longrightarrow> d \<le> 216 \<Longrightarrow> length (request_tail h d) = 388 - d"
  by (simp add: request_tail_def random_sizes_def)

lemma create_request_fits:
  assumes "random_sizes h" "length domain \<le> 216"
  shows "create_request h domain = Some (request_head h (length domain) @ domain @ request_tail h (length domain))"
  using assms
  by (simp add: create_request_def Let_def add_simps random_sizes_def request_head_def request_tail_def)

lemma bind_emit: "Option.bind (emit room data out) f = (if length out + length data \<le> room then f (out @ data) else None)"
  by (simp add: emit_def)

lemma create_request_too_long:
  assumes "random_sizes h" "length domain > 216"
  shows "create_request h domain = None"
  using assms
  by (simp add: create_request_def Let_def add_simps random_sizes_def bind_emit del: emit_Some emit_None)

lemma create_request_length:
  assumes "random_sizes h"
  shows "create_request h domain = Some r \<Longrightarrow> length r = TLS_REQUEST_LENGTH"
  using assms create_request_fits[of h domain] create_request_too_long[of h domain]
  by (cases "length domain \<le> 216")
    (auto simp: length_request_head length_request_tail TLS_REQUEST_LENGTH_def)

section \<open>The name in the request\<close>

lemma be16_append1: "pos + 1 < length xs \<Longrightarrow> be16 (xs @ ys) pos = be16 xs pos"
  by (simp add: be16_def nth_append)

lemma be16_append2: "length xs \<le> pos \<Longrightarrow> be16 (xs @ ys) pos = be16 ys (pos - length xs)"
  by (simp add: be16_def nth_append Suc_diff_le)

lemma unat_of_nat_byte [simp]: "n < 256 \<Longrightarrow> unat (of_nat n :: byte) = n"
  by (simp add: unat_of_nat)

lemma be16_len16 [simp]: "n < 65536 \<Longrightarrow> be16 (len16 n @ ys) 0 = n"
  by (simp add: be16_def len16_def less_mult_imp_div_less)

lemma grease_byte_low: "grease_byte g AND 0x0F = 0x0A"
proof -
  have "(g AND 0xF0) AND 0x0A = 0" by (simp add: and.assoc)
  then have "grease_byte g = (g AND 0xF0) OR 0x0A"
    by (simp add: grease_byte_def disjunctive_add_eq_or)
  then show ?thesis by (simp add: bit.conj_disj_distrib2 and.assoc)
qed

lemma grease_nonzero: "unat (grease_byte g) \<noteq> 0"
  using grease_byte_low[of g] by (auto simp: unat_eq_zero)

lemma make_greases_even:
  assumes "length rnd = MAX_GREASE"
  shows "make_greases rnd ! 2 = grease_byte (rnd ! 2)"
  using assms unfolding make_greases_def MAX_GREASE_def Let_def
  by (simp only: foldl.simps if_distrib[of "\<lambda>g. g ! 2"] nth_list_update_neq numeral_eq_iff one_eq_numeral_iff) simp

lemma sni_name_create_request:
  assumes "random_sizes h" "length domain \<le> 216" "0 \<notin> set domain" "create_request h domain = Some r"
  shows "sni_name r = Some (Some domain)"
proof -
  let ?d = "length domain"
  let ?h = "request_head h ?d"
  define g where "g = make_greases (hr_greases h) ! 2"
  have r: "r = ?h @ domain @ request_tail h ?d"
    using assms create_request_fits by simp
  have len: "length r = 517" "length ?h = 129"
    using assms create_request_length by (simp_all add: TLS_REQUEST_LENGTH_def length_request_head)
  have g0: "unat g \<noteq> 0"
    using assms(1) grease_nonzero unfolding g_def random_sizes_def by (simp add: make_greases_even)
  have sizes: "length (hr_random h) = 32" "length (hr_session h) = 32"
    using assms(1) by (simp_all add: random_sizes_def)
  have b: "be16 ?h 76 = 34" "be16 ?h 116 = unat g * 256 + unat g" "be16 ?h 118 = 0" "be16 ?h 120 = 0" "?h ! 126 = 0"
    by (simp_all add: be16_def request_head_def nth_append sizes hello_suites_def len16_def g_def)
  have l: "be16 ?h 122 = ?d + 5" "be16 ?h 124 = ?d + 3" "be16 ?h 127 = ?d"
    using assms(2) by (simp_all add: be16_def request_head_def nth_append sizes len16_def less_mult_imp_div_less del: of_nat_add)
  have br: "be16 r pos = be16 ?h pos" if "pos < 128" for pos
    unfolding r using that len(2) by (simp add: be16_append1)
  have nr: "r ! 126 = 0" "drop 129 r = domain @ request_tail h ?d"
    unfolding r using b len(2) by (simp_all add: nth_append)
  have "sni_name r = sni_loop r 116"
    using len b(1) br[of 76] by (simp add: sni_name_def)
  also have "\<dots> = sni_loop r 120"
    using len b(2,3) g0 br[of 116] br[of 118] by (subst sni_loop_step) (simp_all add: Let_def)
  also have "\<dots> = Some (Some domain)"
    using len b(4) l nr br[of 120] br[of 122] br[of 124] br[of 127] assms(2,3)
    by (subst sni_loop_step) (simp_all add: Let_def)
  finally show ?thesis .
qed

section \<open>The answer of the proxy\<close>

lemma server_hello_zero_negative:
  assumes "enc < 0" "length session = 32" "length key = 32"
  shows "server_hello_zero session cipher revd key enc rnd = None"
proof -
  have "nat (127 + 6 + 5 + enc) < 138" using assms by linarith
  then show ?thesis using assms(2,3)
    by (auto simp: server_hello_zero_def Let_def bind_emit key_share_ext_def versions_ext_def simp del: emit_Some emit_None)
qed

text \<open>The explicit form of a hello that could be written.\<close>

definition hello_front :: "byte list \<Rightarrow> byte list \<Rightarrow> byte \<Rightarrow> bool \<Rightarrow> byte list \<Rightarrow> nat \<Rightarrow> byte list" where
  "hello_front rand session cipher revd key enc =
     [0x16, 0x03, 0x03, 0x00, 0x7a, 0x02, 0x00, 0x00, 0x76, 0x03, 0x03] @ rand @ [0x20] @ session
     @ [0x13, cipher, 0x00, 0x00, 0x2e]
     @ (if revd then [0x00, 0x2b, 0x00, 0x02, 0x03, 0x04, 0x00, 0x33, 0x00, 0x24, 0x00, 0x1d, 0x00, 0x20] @ key
        else [0x00, 0x33, 0x00, 0x24, 0x00, 0x1d, 0x00, 0x20] @ key @ [0x00, 0x2b, 0x00, 0x02, 0x03, 0x04])
     @ [0x14, 0x03, 0x03, 0x00, 0x01, 0x01, 0x17, 0x03, 0x03] @ len16 enc"

lemma server_hello_zero_shape:
  assumes "0 \<le> enc" "length session = 32" "length key = 32" "length (rnd (nat enc)) = nat enc"
  shows "server_hello_zero session cipher revd key enc rnd =
    Some (hello_front (replicate 32 0) session cipher revd key (nat enc) @ rnd (nat enc))"
  using assms by (cases revd) (simp_all add: server_hello_zero_def Let_def hello_front_def key_share_ext_def versions_ext_def)

lemma server_hello_shape:
  assumes "0 \<le> enc" "length session = 32" "length key = 32" "length (rnd (nat enc)) = nat enc"
  shows "\<exists>b. server_hello mac cr session cipher revd key enc rnd =
    Some (hello_front (mac (cr @ b)) session cipher revd key (nat enc) @ rnd (nat enc))"
  using assms
  by (auto simp: server_hello_def server_hello_zero_shape hello_front_def)

lemma length_hello_retry [simp]: "length hello_retry_random = 32"
  by (simp add: hello_retry_random_def)

lemma replicate_not_retry [simp]: "replicate n x \<noteq> hello_retry_random"
proof
  assume "replicate n x = hello_retry_random"
  then have "0xcf \<in> set (replicate n x)" "0x21 \<in> set (replicate n x)" by (simp_all add: hello_retry_random_def)
  then show False by auto
qed

lemma check_response_hello_front:
  assumes "length rand = 32" "rand \<noteq> hello_retry_random" "length session = 32" "length key = 32"
    "0 < enc" "enc < 65536" "length body = enc"
  shows "check_response (hello_front rand session 0x01 revd key enc @ body) session = Some (Accepted revd enc)"
proof -
  let ?r = "hello_front rand session 0x01 revd key enc @ body"
  have len: "length ?r = 138 + enc" using assms by (simp add: hello_front_def)
  have b: "be16 ?r 3 = 122" "be16 ?r 79 = 46" "be16 ?r 136 = enc" "?r ! 43 = 0x20"
    using assms by (simp_all add: be16_def hello_front_def nth_append len16_def less_mult_imp_div_less)
  have e: "be16 ?r 81 = (if revd then 0x2b else 0x33)" "be16 ?r 83 = (if revd then 2 else 36)"
    using assms by (simp_all add: be16_def hello_front_def nth_append len16_def)
  have e1: "revd \<Longrightarrow> be16 ?r 87 = 0x33 \<and> be16 ?r 89 = 36" "\<not> revd \<Longrightarrow> be16 ?r 121 = 0x2b \<and> be16 ?r 123 = 2"
    using assms by (simp_all add: be16_def hello_front_def nth_append len16_def)
  have t: "take 3 ?r = [0x16, 0x03, 0x03]" "take 2 (drop 5 ?r) = [0x02, 0x00]" "take 2 (drop 9 ?r) = [0x03, 0x03]"
    "take 32 (drop 11 ?r) = rand" "take 32 (drop 44 ?r) = session" "take 3 (drop 76 ?r) = [0x13, 0x01, 0x00]"
    "take 6 (drop 127 ?r) = [0x14, 0x03, 0x03, 0x00, 0x01, 0x01]" "take 3 (drop 133 ?r) = [0x17, 0x03, 0x03]"
    using assms by (simp_all add: hello_front_def)
  have loop: "extension_loop ?r 127 81 0 None = Some (Some (127, 0x5e, Some revd))"
    using len e e1
    by (cases revd) (subst extension_loop_step; simp add: extension_loop_step extension_loop_stop Let_def)+
  define R where "R = ?r"
  have m: "mem_eq R 0 [0x16, 0x03, 0x03] = Some True" "mem_eq R 5 [0x02, 0x00] = Some True"
    "mem_eq R 9 [0x03, 0x03] = Some True" "mem_eq R 11 hello_retry_random = Some False" "mem_eq R 44 session = Some True"
    "mem_eq R 76 [0x13, 0x01, 0x00] = Some True" "mem_eq R 127 [0x14, 0x03, 0x03, 0x00, 0x01, 0x01] = Some True"
    "mem_eq R 133 [0x17, 0x03, 0x03] = Some True"
    using assms(2,3) t len unfolding R_def[symmetric] mem_eq_def by (simp_all add: numeral_2_eq_2 numeral_3_eq_3 eval_nat_numeral)
  show ?thesis
    using len b loop m assms(5) unfolding R_def[symmetric] check_response_def check_response_tail_def
    by (simp add: Let_def)
qed

section \<open>Properties\<close>

text \<open>
  \<open>check_response\<close> reads only inside the answer it was given, whatever a domain sends: no \<open>read_length\<close>,
  \<open>memcmp\<close> or byte access is behind the end, and the order of the extensions is known whenever the
  answer is accepted (the assertion of the caller).
\<close>

theorem check_response_in_bounds:
  assumes "length session = 32"
  shows "case check_response resp session of None \<Rightarrow> False | Some _ \<Rightarrow> True"
  using check_response_defined[OF assms, of resp] by auto

theorem check_response_in_bounds_witness:
  "case check_response ([0x16, 0x03, 0x03, 0x00, 0x28] @ replicate 40 0) (replicate 32 7) of None \<Rightarrow> False | Some _ \<Rightarrow> True"
  by (rule check_response_in_bounds) simp

text \<open>
  C35. The search for the server name in a ClientHello reads only inside the bytes received, whatever
  a client sends, and it ends.
\<close>

theorem sni_in_bounds: "case get_sni_domain_info t req of None \<Rightarrow> False | Some _ \<Rightarrow> True"
  using sni_name_defined[of req] by (auto simp: get_sni_domain_info_def)

text \<open>
  The ClientHello that the proxy sends names the domain: for a name of at most 216 bytes without a
  zero byte the request has 517 bytes, as its length fields say, and the server name found in it is
  the domain.
\<close>

theorem request_names_domain:
  assumes "random_sizes h" "length domain \<le> 216" "0 \<notin> set domain"
  shows "\<exists>r. create_request h domain = Some r \<and> length r = TLS_REQUEST_LENGTH \<and> sni_name r = Some (Some domain)"
  using create_request_fits[OF assms(1,2)] create_request_length[OF assms(1)] sni_name_create_request[OF assms]
  by blast

definition example_random :: hello_random where
  "example_random = \<lparr>hr_greases = replicate 7 0x1f, hr_random = replicate 32 1, hr_session = replicate 32 2, hr_key = replicate 32 3\<rparr>"

theorem request_names_domain_witness:
  "\<exists>r. create_request example_random [0x61, 0x2e, 0x62] = Some r \<and> length r = TLS_REQUEST_LENGTH
     \<and> sni_name r = Some (Some [0x61, 0x2e, 0x62])"
  by (rule request_names_domain) (simp_all add: example_random_def random_sizes_def MAX_GREASE_def)

text \<open>
  A longer name is not refused: \<open>create_request\<close> stops the process by a failed assertion.
\<close>

theorem request_long_domain_aborts:
  assumes "random_sizes h" "length domain > 216"
  shows "create_request h domain = None"
  using assms by (rule create_request_too_long)

theorem request_long_domain_aborts_witness: "create_request example_random (replicate 217 0x61) = None"
  by (rule request_long_domain_aborts) (simp_all add: example_random_def random_sizes_def MAX_GREASE_def)

text \<open>
  The imitation is a true one: the ServerHello that the proxy writes for a client that was accepted
  is an answer that the proxy's own check of real TLS 1.3 servers accepts, with the same order of
  extensions and the same size of the encrypted data.  (\<open>mac\<close> is \<open>sha256_hmac\<close>; its result is only
  required not to be the constant that marks a HelloRetryRequest.)
\<close>

theorem own_hello_accepted:
  assumes "length session = 32" "length key = 32" "0 < enc" "enc < 32768" "\<And>n. length (rnd n) = n"
    "\<And>m. length (mac m) = 32" "\<And>m. mac m \<noteq> hello_retry_random"
  shows "\<exists>b. server_hello mac client_random session 0x01 revd key enc rnd = Some b \<and>
    check_response b session = Some (Accepted revd (nat enc))"
proof -
  obtain b where "server_hello mac client_random session 0x01 revd key enc rnd =
      Some (hello_front (mac (client_random @ b)) session 0x01 revd key (nat enc) @ rnd (nat enc))"
    using server_hello_shape[where rnd = rnd, OF less_imp_le[OF assms(3)] assms(1,2) assms(5)] by blast
  then show ?thesis
    using check_response_hello_front[OF assms(6,7,1,2), of "nat enc"] assms(3,4,5) by auto
qed

theorem own_hello_accepted_witness:
  "\<exists>b. server_hello (\<lambda>_. replicate 32 9) (replicate 32 8) (replicate 32 5) 0x01 True (replicate 32 6) 2500 (\<lambda>n. replicate n 4) = Some b
     \<and> check_response b (replicate 32 5) = Some (Accepted True (nat 2500))"
  by (rule own_hello_accepted) simp_all

end
