(* ===== verification/TLS_Probe.thy ===== *)
theory TLS_Probe
  imports TLS_Wire
begin

text \<open>
  Facts about the questions to a domain: reading the answer piece by piece gives the verdict on the
  whole answer, no assertion of \<open>update_domain_info\<close> fails, and the sizes that the proxy later uses
  lie among those it has seen.
\<close>

section \<open>Accepted answers\<close>

lemma read_length_iff: "read_length buf pos = Some r \<longleftrightarrow> pos + 2 \<le> length buf \<and> r = (be16 buf pos, pos + 2)"
  by (auto simp: read_length_def)

lemma mem_eq_iff: "mem_eq buf pos str = Some b \<longleftrightarrow> pos + length str \<le> length buf \<and> b = (take (length str) (drop pos buf) = str)"
  by (auto simp: mem_eq_def)

lemma take_split: "take (m + n) xs = a @ b \<longleftrightarrow> take m xs = a \<and> take n (drop m xs) = b" if "length a = m" "m \<le> length xs"
  using that by (simp add: take_add append_eq_append_conv)

lemma check_response_Accepted:
  assumes "check_response R session = Some (Accepted revd n)"
  shows "5 \<le> length R \<and> take 3 R = [0x16, 0x03, 0x03] \<and> length R = 16 + be16 R 3 + n
    \<and> take 9 (drop (5 + be16 R 3) R) = [0x14, 0x03, 0x03, 0x00, 0x01, 0x01, 0x17, 0x03, 0x03]
    \<and> be16 R (14 + be16 R 3) = n \<and> 0 < n"
proof -
  let ?n = "be16 R 3"
  obtain r where r: "check_response_tail R ?n r = Some (Accepted revd n)" and h: "5 \<le> length R" "take 3 R = [0x16, 0x03, 0x03]"
    using assms unfolding check_response_def Let_def
    by (clarsimp simp: bind_eq_Some_conv read_length_iff mem_eq_iff numeral_2_eq_2[symmetric] split: if_split_asm)
  from r have "take 6 (drop (5 + ?n) R) = [0x14, 0x03, 0x03, 0x00, 0x01, 0x01] \<and> take 3 (drop (11 + ?n) R) = [0x17, 0x03, 0x03]
      \<and> 14 + ?n + 2 \<le> length R \<and> be16 R (14 + ?n) = n \<and> 0 < n \<and> length R = 16 + ?n + n"
    unfolding check_response_tail_def Let_def
    by (clarsimp simp: bind_eq_Some_conv read_length_iff mem_eq_iff numeral_2_eq_2[symmetric] add.commute
        split: if_split_asm option.split_asm prod.split_asm)
  note a = h this
  have "take (6 + 3) (drop (5 + ?n) R) = [0x14, 0x03, 0x03, 0x00, 0x01, 0x01] @ [0x17, 0x03, 0x03]"
    using a by (subst take_split) (auto simp: add.commute)
  then show ?thesis using a by simp
qed

section \<open>Reading an answer in pieces\<close>

text \<open>
  The answer \<open>R\<close> arrives; \<open>ks\<close> are the numbers of bytes that are there when the socket is read.  What is
  not read stays in the socket, so the next read continues behind the bytes of the buffer.
\<close>

definition pb_pos :: "probe \<Rightarrow> nat" where
  "pb_pos p = (case pb_resp p of None \<Rightarrow> 0 | Some b \<Rightarrow> length b)"

fun feed :: "byte list \<Rightarrow> nat list \<Rightarrow> byte list \<Rightarrow> probe \<Rightarrow> read_outcome option" where
  "feed session [] R p = Some (Read_Next p)"
| "feed session (k # ks) R p =
     (case probe_read session (Some (take k (drop (pb_pos p) R))) p of
        Some (Read_Next p') \<Rightarrow> feed session ks R p'
      | Some (Read_Again p') \<Rightarrow> feed session ks R p'
      | r \<Rightarrow> r)"

lemma be16_take [simp]: "pos + 1 < c \<Longrightarrow> be16 (take c R) pos = be16 R pos"
  by (simp add: be16_def)

text \<open>A buffer that holds the first \<open>c\<close> bytes and wants more.\<close>

definition reading :: "byte list \<Rightarrow> nat \<Rightarrow> probe \<Rightarrow> bool" where
  "reading R c p \<longleftrightarrow> pb_resp p = Some (take c R) \<and> 5 \<le> c \<and> c < pb_len p \<and>
     pb_len p = (if pb_enc_read p then length R else 16 + be16 R 3)"

lemma feed_reading:
  assumes "check_response R session = Some (Accepted revd n)" "reading R c p"
    "\<forall>k \<in> set ks. 0 < k" "length R - c \<le> length ks"
  shows "feed session ks R p = Some (Read_Done revd n)"
  using assms(2-)
proof (induction ks arbitrary: c p)
  case Nil
  note a = check_response_Accepted[OF assms(1)]
  have "c < length R" using Nil.prems(1) a by (auto simp: reading_def split: if_splits)
  then show ?case using Nil.prems(3) by simp
next
  case (Cons k ks)
  note a = check_response_Accepted[OF assms(1)]
  let ?n = "be16 R 3" and ?need = "pb_len p - c"
  have p: "pb_resp p = Some (take c R)" "5 \<le> c" "c < pb_len p" "pb_len p \<le> length R"
    and l: "pb_len p = (if pb_enc_read p then length R else 16 + ?n)"
    using Cons.prems(1) a by (auto simp: reading_def)
  have k: "0 < k" "\<forall>k \<in> set ks. 0 < k" using Cons.prems(2) by auto
  define c' where "c' = c + min k ?need"
  have c': "c < c'" "c' \<le> pb_len p" using k p by (auto simp: c'_def)
  have got: "take c R @ take ?need (take k (drop c R)) = take c' R"
    using p by (simp add: c'_def take_add min.commute)
  have len: "length (take c' R) = c'" using c' p by simp
  have pos: "pb_pos p = c" using p by (simp add: pb_pos_def)
  have read: "probe_read session (Some (take k (drop (pb_pos p) R))) p =
      (if c' \<noteq> pb_len p then Some (Read_Next (p\<lparr>pb_resp := Some (take c' R)\<rparr>))
       else if \<not> pb_enc_read p then
         Some (Read_Again (p\<lparr>pb_resp := Some (take c' R), pb_enc_read := True, pb_len := length R\<rparr>))
       else Some (Read_Done revd n))"
  proof -
    have "mem_eq (take c' R) (c' - 11) [0x14, 0x03, 0x03, 0x00, 0x01, 0x01, 0x17, 0x03, 0x03] = Some True"
      if "c' = 16 + ?n"
    proof -
      have "drop (c' - 11) (take c' R) = take 11 (drop (5 + ?n) R)"
        using that by (simp add: drop_take)
      moreover have "take 9 (take 11 (drop (5 + ?n) R)) = [0x14, 0x03, 0x03, 0x00, 0x01, 0x01, 0x17, 0x03, 0x03]"
        using a by simp
      ultimately show ?thesis using that len by (simp add: mem_eq_iff eval_nat_numeral del: take_take)
    qed
    moreover have "be16 (take c' R) (c' - 2) = n" if "c' = 16 + ?n"
      using a that by simp
    moreover have "length R = 16 + ?n + n" using a by simp
    ultimately show ?thesis
      using p l got len assms(1) unfolding probe_read_def pos
      by (auto simp: sys_read_def Let_def)
  qed
  have "c' < length R" if "c' \<noteq> pb_len p \<or> \<not> pb_enc_read p"
    using that c' p a l by (auto split: if_splits)
  show ?case
  proof (cases "c' = pb_len p \<and> pb_enc_read p")
    case True
    then show ?thesis using read by simp
  next
    case False
    have "length R - c' \<le> length ks" using Cons.prems(3) c' by simp
    then show ?thesis
      using False read c' p l k a Cons.IH[of c' "p\<lparr>pb_resp := Some (take c' R)\<rparr>"]
        Cons.IH[of c' "p\<lparr>pb_resp := Some (take c' R), pb_enc_read := True, pb_len := length R\<rparr>"]
      by (auto simp: reading_def)
  qed
qed

lemma feed_answer:
  assumes "check_response R session = Some (Accepted revd n)" "5 \<le> k" "\<forall>k \<in> set ks. 0 < k" "length R \<le> length ks"
  shows "feed session (k # ks) R probe0 = Some (Read_Done revd n)"
proof -
  note a = check_response_Accepted[OF assms(1)]
  let ?p = "probe0\<lparr>pb_resp := Some (take 5 R), pb_len := 16 + be16 R 3\<rparr>"
  have "probe_read session (Some (take k (drop (pb_pos probe0) R))) probe0 = Some (Read_Next ?p)"
    using a assms(2) by (auto simp: probe_read_def probe0_def pb_pos_def sys_read_def min_def)
  moreover have "reading R 5 ?p" using a by (auto simp: reading_def probe0_def)
  ultimately show ?thesis using feed_reading[OF assms(1), of 5 ?p ks] assms(3,4) by simp
qed

section \<open>No assertion fails\<close>

text \<open>A socket whose length bytes are still to come wants at least the sixteen bytes of the records' frames.\<close>

definition probe_ok :: "probe \<Rightarrow> bool" where
  "probe_ok p \<longleftrightarrow> (case pb_resp p of None \<Rightarrow> True | Some b \<Rightarrow> length b \<le> pb_len p \<and> 16 \<le> pb_len p)"

definition outcome_ok :: "probe \<Rightarrow> read_outcome \<Rightarrow> bool" where
  "outcome_ok p r = (case r of Read_Next p' \<Rightarrow> probe_ok p' \<and> pb_written p' = pb_written p
      | Read_Again p' \<Rightarrow> probe_ok p' \<and> pb_written p' = pb_written p | _ \<Rightarrow> True)"

lemma probe_read_defined:
  assumes "probe_ok p" "length session = 32"
  shows "\<exists>r. probe_read session avail p = Some r \<and> outcome_ok p r"
proof (cases "pb_resp p")
  case None
  then show ?thesis by (auto simp: probe_read_def outcome_ok_def probe_ok_def sys_read_def split: option.split)
next
  case (Some b)
  show ?thesis
  proof (cases avail)
    case None
    then show ?thesis using Some by (simp add: probe_read_def sys_read_def outcome_ok_def)
  next
    case (Some d)
    define b' where "b' = b @ take (pb_len p - length b) d"
    have b': "length b' \<le> pb_len p" "16 \<le> pb_len p"
      using assms(1) \<open>pb_resp p = Some b\<close> by (auto simp: b'_def probe_ok_def)
    have m: "mem_eq b' (pb_len p - 11) [0x14, 0x03, 0x03, 0x00, 0x01, 0x01, 0x17, 0x03, 0x03] =
        Some (take 9 (drop (pb_len p - 11) b') = [0x14, 0x03, 0x03, 0x00, 0x01, 0x01, 0x17, 0x03, 0x03])"
      if "length b' = pb_len p"
      using that b' by (simp add: mem_eq_def eval_nat_numeral) 
    have sim: "probe_read session avail p =
        (if length b' \<noteq> pb_len p then Some (Read_Next (p\<lparr>pb_resp := Some b'\<rparr>))
         else if \<not> pb_enc_read p then
           (if take 9 (drop (pb_len p - 11) b') \<noteq> [0x14, 0x03, 0x03, 0x00, 0x01, 0x01, 0x17, 0x03, 0x03] then Some Read_Fail
            else Some (Read_Again (p\<lparr>pb_resp := Some b', pb_enc_read := True, pb_len := pb_len p + be16 b' (pb_len p - 2)\<rparr>)))
         else (case check_response b' session of
             None \<Rightarrow> None | Some Rejected \<Rightarrow> Some Read_Fail | Some (Accepted revd n) \<Rightarrow> Some (Read_Done revd n)))"
      using \<open>pb_resp p = Some b\<close> Some b'(2) unfolding probe_read_def b'_def[symmetric]
      by (simp add: sys_read_def Let_def b'_def[symmetric] m split: option.split verdict.split del: mem_eq_Some)
    from check_response_defined[OF assms(2), of b'] obtain v where v: "check_response b' session = Some v" ..
    have ok: "outcome_ok p (Read_Next (p\<lparr>pb_resp := Some b'\<rparr>))" "outcome_ok p Read_Fail" "outcome_ok p (Read_Done x y)"
      "outcome_ok p (Read_Again (p\<lparr>pb_resp := Some b', pb_enc_read := True, pb_len := pb_len p + k\<rparr>))" for k x y
      using b' by (simp_all add: outcome_ok_def probe_ok_def)
    show ?thesis unfolding sim using v
      by (cases "length b' = pb_len p"; cases "pb_enc_read p"; cases v) (simp_all add: ok)
  qed
qed

lemma probe_turn_defined:
  assumes "probe_ok p" "length session = 32"
  shows "\<exists>r. probe_turn session (selected p ev) p = Some r \<and> (case r of Turn_Go p' \<Rightarrow> probe_ok p' | _ \<Rightarrow> True)"
proof (cases "pb_written p \<and> ev_read ev \<noteq> None")
  case True
  then obtain avail where e: "ev_read (selected p ev) = Some avail" "ev_write (selected p ev) = None" "pb_written p"
    by (auto simp: selected_def)
  obtain r where "probe_read session avail p = Some r" "outcome_ok p r"
    using probe_read_defined[OF assms] by blast
  then show ?thesis using e by (cases r) (simp_all add: outcome_ok_def probe_turn_def probe_write_def)
next
  case False
  then have "ev_read (selected p ev) = None" "pb_written p \<longrightarrow> ev_write (selected p ev) = None"
    by (auto simp: selected_def)
  moreover have "probe_ok (p\<lparr>pb_written := True\<rparr>)" using assms(1) by (simp add: probe_ok_def split: option.splits)
  ultimately show ?thesis using assms(1) by (auto simp: probe_turn_def probe_write_def split: option.split)
qed

definition probing_ok :: "byte list list \<Rightarrow> probing \<Rightarrow> bool" where
  "probing_ok sessions s \<longleftrightarrow> length (pr_probes s) = TRIES \<and> (\<forall>p \<in> set (pr_probes s). probe_ok p)
     \<and> length sessions = TRIES \<and> (\<forall>x \<in> set sessions. length x = 32)"

lemma probe_round_defined:
  assumes "probing_ok sessions s" "\<forall>i \<in> set is. i < TRIES"
  shows "\<exists>s'. probe_round sessions ev is s = Some s' \<and> probing_ok sessions s'"
  using assms
proof (induction "is" arbitrary: s)
  case Nil
  then show ?case by simp
next
  case (Cons i "is")
  let ?p = "pr_probes s ! i"
  have i: "i < length (pr_probes s)" "i < length sessions" using Cons.prems by (auto simp: probing_ok_def)
  then have "probe_ok ?p" "length (sessions ! i) = 32" using Cons.prems(1) by (auto simp: probing_ok_def)
  then obtain r where r: "probe_turn (sessions ! i) (selected ?p (ev i)) ?p = Some r"
    "case r of Turn_Go p' \<Rightarrow> probe_ok p' | _ \<Rightarrow> True"
    using probe_turn_defined by blast
  have upd: "probing_ok sessions (s\<lparr>pr_probes := (pr_probes s)[i := p'], pr_tally := t\<rparr>)" if "probe_ok p'" for p' t
    using that Cons.prems(1) set_update_subset_insert[of "pr_probes s" i p'] by (auto simp: probing_ok_def)
  have "probe_ok (?p\<lparr>pb_finished := True\<rparr>)" using \<open>probe_ok ?p\<close> by (simp add: probe_ok_def split: option.splits)
  note fin = upd[OF this]
  have go: "probing_ok sessions (s\<lparr>pr_probes := (pr_probes s)[i := p']\<rparr>)" if "probe_ok p'" for p'
    using upd[OF that, of "pr_tally s"] by simp
  have "probing_ok sessions (s\<lparr>pr_error := True\<rparr>)" using Cons.prems(1) by (simp add: probing_ok_def)
  then show ?case
    using Cons.IH[OF Cons.prems(1)] Cons.IH[OF go] Cons.IH[OF fin] Cons.prems(2) r
    by (cases r) (auto simp: Let_def)
qed

lemma probe_loop_defined:
  "probing_ok sessions s \<Longrightarrow> \<exists>s'. probe_loop sessions evs s = Some s'"
proof (induction evs arbitrary: s)
  case (Cons ev evs)
  then show ?case using probe_round_defined[OF Cons.prems, of "[0..<TRIES]" ev] by auto
qed simp

lemma those_map_Some: "(\<forall>x \<in> set xs. f x = Some (g x)) \<Longrightarrow> those (map f xs) = Some (map g xs)"
  by (induction xs) auto

lemma open_sockets_domain: "d_domain (snd (open_sockets res host is d)) = d_domain d"
  by (induction "is" arbitrary: d) (auto simp: set_target_def split: open_result.split host_address.split)

lemma update_domain_info_defined:
  assumes "length (d_domain d) \<le> 216" "\<And>i. random_sizes (pe_hello env i)"
  shows "\<exists>r. update_domain_info env d = Some r"
proof (cases "pe_host env (d_domain d)")
  case None
  then show ?thesis by (intro exI[of _ "(False, d)"]) (simp add: update_domain_info_def)
next
  case (Some host)
  obtain ok d' where o: "open_sockets (pe_open env) host [0..<TRIES] d = (ok, d')" by force
  have d': "d_domain d' = d_domain d" using open_sockets_domain[of "pe_open env" host "[0..<TRIES]" d] o by simp
  define f where "f i = request_head (pe_hello env i) (length (d_domain d)) @ d_domain d
      @ request_tail (pe_hello env i) (length (d_domain d))" for i
  have reqs: "those (map (\<lambda>i. create_request (pe_hello env i) (d_domain d')) [0..<TRIES]) = Some (map f [0..<TRIES])"
    using create_request_fits[OF assms(2) assms(1)] by (intro those_map_Some) (simp add: f_def d')
  let ?ss = "map (\<lambda>r. take 32 (drop 44 r)) (map f [0..<TRIES])"
  have "length (f i) = 517" for i
    using create_request_length[OF assms(2), of i "d_domain d" "f i"] create_request_fits[OF assms(2) assms(1)]
    by (simp add: f_def TLS_REQUEST_LENGTH_def)
  then have "probing_ok ?ss \<lparr>pr_probes = replicate TRIES probe0, pr_tally = tally0, pr_error = False\<rparr>"
    by (auto simp: probing_ok_def probe_ok_def probe0_def)
  then obtain s where "probe_loop ?ss (pe_rounds env)
      \<lparr>pr_probes = replicate TRIES probe0, pr_tally = tally0, pr_error = False\<rparr> = Some s"
    using probe_loop_defined by blast
  then have "update_domain_info env d = Some (if ok \<and> ta_count (pr_tally s) = TRIES then (True, learn_domain (pr_tally s) d') else (False, d'))"
    using Some o reqs by (cases ok) (simp_all add: update_domain_info_def)
  then show ?thesis ..
qed

section \<open>Sizes\<close>

definition tally_all :: "(bool \<times> nat) list \<Rightarrow> tally" where
  "tally_all xs = fold (\<lambda>(r, n). tally_add r n) xs tally0"

lemma tally_all_snoc: "tally_all (xs @ [(r, n)]) = tally_add r n (tally_all xs)"
  by (simp add: tally_all_def)

lemma tally_all_invariant:
  "ta_count (tally_all xs) = length xs \<and> ta_len_sum (tally_all xs) = sum_list (map snd xs) \<and>
   (xs \<noteq> [] \<longrightarrow> ta_len_min (tally_all xs) = Min (snd ` set xs) \<and> ta_len_max (tally_all xs) = Max (snd ` set xs)
     \<and> ta_rev_min (tally_all xs) = (\<forall>x \<in> set xs. fst x) \<and> ta_rev_max (tally_all xs) = (\<exists>x \<in> set xs. fst x))"
proof (induction xs rule: rev_induct)
  case Nil
  then show ?case by (simp add: tally_all_def tally0_def)
next
  case (snoc x xs)
  obtain r n where x: "x = (r, n)" by force
  have mm: "xs \<noteq> [] \<Longrightarrow> Min (insert n (snd ` set xs)) = min n (Min (snd ` set xs))"
    "xs \<noteq> [] \<Longrightarrow> Max (insert n (snd ` set xs)) = max n (Max (snd ` set xs))"
    by simp_all
  show ?case
  proof (cases "xs = []")
    case True
    then show ?thesis unfolding x by (simp add: tally_all_def tally0_def tally_add_def)
  next
    case False
    let ?t = "tally_all xs"
    have t: "ta_count ?t = length xs" "ta_len_sum ?t = sum_list (map snd xs)" "ta_len_min ?t = Min (snd ` set xs)"
      "ta_len_max ?t = Max (snd ` set xs)" "ta_rev_min ?t = (\<forall>x \<in> set xs. fst x)" "ta_rev_max ?t = (\<exists>x \<in> set xs. fst x)"
      using snoc.IH False by auto
    have "ta_count (tally_add r n ?t) = length xs + 1" "ta_len_sum (tally_add r n ?t) = sum_list (map snd xs) + n"
      "ta_len_min (tally_add r n ?t) = min n (ta_len_min ?t)" "ta_len_max (tally_add r n ?t) = max n (ta_len_max ?t)"
      "ta_rev_min (tally_add r n ?t) = (r \<and> ta_rev_min ?t)" "ta_rev_max (tally_add r n ?t) = (r \<or> ta_rev_max ?t)"
      using False t(1,2) by (auto simp: tally_add_def Let_def)
    then show ?thesis unfolding x tally_all_snoc t using mm[OF False] by (simp del: Min_insert Max_insert)
  qed
qed

lemma sum_list_between:
  fixes xs :: "nat list"
  assumes "\<forall>x \<in> set xs. lo \<le> x \<and> x \<le> hi"
  shows "lo * length xs \<le> sum_list xs \<and> sum_list xs \<le> hi * length xs"
  using assms by (induction xs) auto

lemma i16_id: "-32768 \<le> x \<Longrightarrow> x < 32768 \<Longrightarrow> i16 x = x"
  by (simp add: i16_def)

lemma rounded_mean:
  fixes s lo hi n :: nat
  assumes "lo * n \<le> s" "s \<le> hi * n" "0 < n"
  shows "lo \<le> (2 * s + n) div (2 * n) \<and> (2 * s + n) div (2 * n) \<le> hi"
proof
  have "2 * n * lo \<le> 2 * s + n" using assms by (simp add: algebra_simps)
  then show "lo \<le> (2 * s + n) div (2 * n)" using assms(3) by (simp add: less_eq_div_iff_mult_less_eq algebra_simps)
  have "2 * s + n < (hi + 1) * (2 * n)" using assms by (simp add: algebra_simps)
  then show "(2 * s + n) div (2 * n) \<le> hi" using less_mult_imp_div_less[of "2 * s + n" "hi + 1" "2 * n"] by simp
qed

lemma learned_size:
  assumes "length xs = TRIES" "\<forall>x \<in> set xs. lo \<le> snd x \<and> snd x \<le> hi" "hi < 32767" "1 \<le> lo"
  shows "let v = get_domain_server_hello_encrypted_size r (learn_domain (tally_all xs) d)
         in int lo - 1 \<le> v \<and> v \<le> int hi + 1"
proof -
  let ?t = "tally_all xs"
  have ne: "xs \<noteq> []" using assms(1) by (auto simp: TRIES_def)
  have f: "finite (snd ` set xs)" "snd ` set xs \<noteq> {}" using ne by auto
  have mm: "lo \<le> ta_len_min ?t" "ta_len_max ?t \<le> hi" "ta_len_min ?t \<le> ta_len_max ?t"
    and s: "ta_len_sum ?t = sum_list (map snd xs)"
    using tally_all_invariant[of xs] ne assms(2) f by auto
  have "lo * TRIES \<le> ta_len_sum ?t \<and> ta_len_sum ?t \<le> hi * TRIES"
    using sum_list_between[of "map snd xs" lo hi] assms(1,2) unfolding s by auto
  then have m: "lo \<le> (2 * ta_len_sum ?t + TRIES) div (2 * TRIES)" "(2 * ta_len_sum ?t + TRIES) div (2 * TRIES) \<le> hi"
    using rounded_mean[of lo TRIES "ta_len_sum ?t" hi] by (auto simp: TRIES_def)
  have rr: "int (r div 2 mod 2) \<le> 1" "int (r mod 2) \<le> 1" "0 \<le> int (r div 2 mod 2)" "0 \<le> int (r mod 2)"
    by auto
  show ?thesis
    using mm m rr assms(3,4) unfolding Let_def get_domain_server_hello_encrypted_size_def learn_domain_def
    by (auto simp: i16_id simp del: of_nat_mod of_nat_div)
qed

section \<open>Properties\<close>

text \<open>
  The answer of a domain may arrive in pieces of any size: if \<open>check_response\<close> accepts the whole
  answer, and the first read finds the five bytes of the record header, then reading it piece by
  piece ends, with the same verdict, after at most one read per byte.
\<close>

theorem answer_in_pieces:
  assumes "check_response R session = Some (Accepted revd n)" "5 \<le> k" "\<forall>k \<in> set ks. 0 < k" "length R \<le> length ks"
  shows "feed session (k # ks) R probe0 = Some (Read_Done revd n)"
  using assms by (rule feed_answer)

definition example_answer :: "byte list" where
  "example_answer = hello_front (replicate 32 9) (replicate 32 5) 0x01 True (replicate 32 6) 3 @ [1, 2, 3]"

theorem answer_in_pieces_witness:
  "feed (replicate 32 5) (5 # replicate 141 1) example_answer probe0 = Some (Read_Done True 3)"
proof (rule answer_in_pieces)
  show "check_response example_answer (replicate 32 5) = Some (Accepted True 3)"
    unfolding example_answer_def
    by (rule check_response_hello_front) simp_all
qed (simp_all add: example_answer_def hello_front_def)

text \<open>
  C32. Asking a domain stops the process exactly when its name is too long.  Whatever the twenty sockets
  deliver, and in which order, no assertion of \<open>update_domain_info\<close> fails, no byte outside a buffer is
  read, and a result is returned, for every name of at most 216 bytes.  A longer name aborts the process
  in \<open>create_request\<close> as soon as it was resolved and the sockets could be opened.  \<open>random_sizes\<close> says
  that \<open>RAND_bytes\<close> fills the buffers it is given.
\<close>

theorem update_domain_aborts_on_long_names:
  assumes "\<And>i. random_sizes (pe_hello env i)"
  shows "update_domain_info env d = None \<longleftrightarrow> 216 < length (d_domain d) \<and>
    (\<exists>host. pe_host env (d_domain d) = Some host \<and> fst (open_sockets (pe_open env) host [0..<TRIES] d))"
proof (cases "length (d_domain d) \<le> 216")
  case True
  with update_domain_info_defined[of d env] assms show ?thesis by auto
next
  case False
  show ?thesis
  proof (cases "\<exists>host. pe_host env (d_domain d) = Some host \<and> fst (open_sockets (pe_open env) host [0..<TRIES] d)")
    case True
    then obtain host d' where h: "pe_host env (d_domain d) = Some host" "open_sockets (pe_open env) host [0..<TRIES] d = (True, d')"
      by (metis prod.collapse)
    have "d_domain d' = d_domain d" using open_sockets_domain[of "pe_open env" host "[0..<TRIES]" d] h(2) by simp
    then have "create_request (pe_hello env i) (d_domain d') = None" for i
      using create_request_too_long[OF assms] False by simp
    then show ?thesis using True False h by (simp add: update_domain_info_def TRIES_def upt_conv_Cons)
  next
    case no: False
    then show ?thesis
      by (cases "pe_host env (d_domain d)") (auto simp: update_domain_info_def split: prod.split bool.split)
  qed
qed

definition example_probe_env :: probe_env where
  "example_probe_env = \<lparr>pe_host = (\<lambda>_. Some (Host_IPv4 1)), pe_open = (\<lambda>_. Connecting), pe_hello = (\<lambda>_. example_random),
     pe_rounds = [\<lambda>_. \<lparr>ev_read = None, ev_write = Some 517, ev_except = False\<rparr>,
                  \<lambda>_. \<lparr>ev_read = Some (Some [0x15, 3, 3, 0, 2]), ev_write = None, ev_except = False\<rparr>]\<rparr>"

theorem update_domain_aborts_on_long_names_witness:
  "update_domain_info example_probe_env (new_domain [0x61, 0x2e, 0x62]) \<noteq> None
   \<and> update_domain_info example_probe_env (new_domain (replicate 217 0x61)) = None"
proof -
  have r: "random_sizes (pe_hello example_probe_env i)" for i
    by (simp add: example_probe_env_def example_random_def random_sizes_def MAX_GREASE_def)
  have "fst (open_sockets (pe_open example_probe_env) (Host_IPv4 1) is d)" for "is" d
    by (induction "is" arbitrary: d) (simp_all add: example_probe_env_def)
  then have "\<exists>host. pe_host example_probe_env n = Some host \<and> fst (open_sockets (pe_open example_probe_env) host [0..<TRIES] d)" for n d
    by (simp add: example_probe_env_def)
  with update_domain_aborts_on_long_names[OF r] show ?thesis by (simp add: new_domain_def)
qed

text \<open>
  What the proxy learns from twenty answers bounds what it later imitates: every size that
  \<open>get_domain_server_hello_encrypted_size\<close> returns is at most one away from the range of the sizes seen.
\<close>

theorem learned_size_in_range:
  assumes "length xs = TRIES" "\<forall>x \<in> set xs. lo \<le> snd x \<and> snd x \<le> hi" "hi < 32767" "1 \<le> lo"
  shows "int lo - 1 \<le> get_domain_server_hello_encrypted_size r (learn_domain (tally_all xs) d) \<and>
         get_domain_server_hello_encrypted_size r (learn_domain (tally_all xs) d) \<le> int hi + 1"
  using learned_size[OF assms] by (simp add: Let_def)

theorem learned_size_in_range_witness:
  "int 20 - 1 \<le> get_domain_server_hello_encrypted_size 3 (learn_domain (tally_all ((True, 20) # replicate 19 (True, 22))) (new_domain [])) \<and>
   get_domain_server_hello_encrypted_size 3 (learn_domain (tally_all ((True, 20) # replicate 19 (True, 22))) (new_domain [])) \<le> int 22 + 1"
  by (rule learned_size_in_range) (simp_all add: TRIES_def)

text \<open>
  Above the range of \<open>short\<close> this fails: a domain that always answers with one size between 32768
  and 65535 is accepted, the size is stored as a negative number, and the first client that connects
  for this domain makes an assertion of the proxy fail.
\<close>

theorem large_size_stops_the_proxy:
  assumes "length xs = TRIES" "\<forall>x \<in> set xs. snd x = n" "32768 \<le> n" "n < 65536" "length session = 32" "length key = 32"
  shows "server_hello mac client_random session cipher revd key
           (get_domain_server_hello_encrypted_size r (learn_domain (tally_all xs) d)) rnd = None"
proof -
  have ne: "xs \<noteq> []" using assms(1) by (auto simp: TRIES_def)
  then have img: "snd ` set xs = {n}" using assms(2) by (cases xs) auto
  have "ta_len_min (tally_all xs) = n" "ta_len_max (tally_all xs) = n"
    using tally_all_invariant[of xs] ne by (simp_all add: img)
  then have size: "get_domain_server_hello_encrypted_size r (learn_domain (tally_all xs) d) = i16 (int n)"
    by (simp add: learn_domain_def get_domain_server_hello_encrypted_size_def)
  have "(int n + 32768) mod 65536 = int n - 32768"
    using assms(3,4) mod_add_self2[of "int n - 32768" 65536] by (simp add: add.commute)
  then have "i16 (int n) < 0" using assms(4) by (simp add: i16_def)
  then show ?thesis using assms(5,6) by (simp add: size server_hello_def server_hello_zero_negative)
qed

theorem large_size_stops_the_proxy_witness:
  "server_hello (\<lambda>_. replicate 32 9) (replicate 32 8) (replicate 32 5) 0x01 True (replicate 32 6)
     (get_domain_server_hello_encrypted_size 3 (learn_domain (tally_all (replicate 20 (True, 40000))) (new_domain []))) (\<lambda>n. replicate n 4) = None"
  by (rule large_size_stops_the_proxy[where n = 40000]) (simp_all add: TRIES_def)

end
