(* ===== verification/RPC_Data.thy ===== *)
theory RPC_Data
  imports MT_Prelude "HOL-Library.Monad_Syntax" Complex_Main
begin

text \<open>
  The data of an RPC connection: little-endian integers, process identifiers (\<open>common/pid.c\<close>), the
  fields of \<open>struct tcp_rpc_data\<close> (\<open>net/net-tcp-rpc-common.h\<close>) and of \<open>struct connection_info\<close>
  (\<open>net/net-connections.h\<close>) that the protocol code reads or writes.
\<close>

section \<open>Little-endian integers\<close>

definition bytes_le :: "u32 \<Rightarrow> byte list" where
  "bytes_le w = [ucast w, ucast (drop_bit 8 w), ucast (drop_bit 16 w), ucast (drop_bit 24 w)]"

definition le32 :: "byte list \<Rightarrow> u32" where
  "le32 b = ucast (b ! 0) OR push_bit 8 (ucast (b ! 1)) OR push_bit 16 (ucast (b ! 2)) OR push_bit 24 (ucast (b ! 3))"

lemma length_bytes_le [simp]: "length (bytes_le w) = 4"
  by (simp add: bytes_le_def)

lemma le32_bytes_le [simp]: "le32 (bytes_le w @ rest) = w"
proof -
  have "bit (le32 (bytes_le w @ rest)) n = bit w n" if "n < 32" for n
  proof -
    have "n < 8 \<or> 8 \<le> n \<and> n < 16 \<or> 16 \<le> n \<and> n < 24 \<or> 24 \<le> n \<and> n < 32" using that by linarith
    then show ?thesis by (auto simp: le32_def bytes_le_def bit_simps)
  qed
  then show ?thesis by (intro bit_word_eqI) simp
qed

lemma le32_bytes_le_0 [simp]: "le32 (bytes_le w) = w"
  using le32_bytes_le[of w "[]"] by simp

lemma le32_take: "4 \<le> length b \<Longrightarrow> le32 (take 4 b @ r) = le32 b"
  by (simp add: le32_def nth_append)

section \<open>Process identifiers\<close>

record process_id =
  pid_ip :: u32
  pid_port :: "16 word"
  pid_pid :: "16 word"
  pid_utime :: u32

definition zero_pid :: process_id where
  "zero_pid = \<lparr>pid_ip = 0, pid_port = 0, pid_pid = 0, pid_utime = 0\<rparr>"

text \<open>\<open>p\<close> is the result of \<open>getpid\<close> and \<open>t\<close> that of \<open>time\<close>.\<close>

definition init_common_PID :: "int \<Rightarrow> u32 \<Rightarrow> process_id \<Rightarrow> process_id" where
  "init_common_PID p t P =
     (let P1 = (if pid_pid P = 0 then P\<lparr>pid_pid := word_of_int (p mod 65536)\<rparr> else P)
      in if pid_utime P1 = 0 then P1\<lparr>pid_utime := t\<rparr> else P1)"

definition init_client_PID :: "int \<Rightarrow> u32 \<Rightarrow> u32 \<Rightarrow> process_id \<Rightarrow> process_id" where
  "init_client_PID p t ip P =
     init_common_PID p t (if ip \<noteq> 0 \<and> ip \<noteq> 0x7f000001 then P\<lparr>pid_ip := ip\<rparr> else P)"

definition init_server_PID :: "int \<Rightarrow> u32 \<Rightarrow> u32 \<Rightarrow> u32 \<Rightarrow> process_id \<Rightarrow> process_id" where
  "init_server_PID p t ip port P =
     (let P1 = (if ip \<noteq> 0 \<and> ip \<noteq> 0x7f000001 then P\<lparr>pid_ip := ip\<rparr> else P);
          P2 = (if pid_port P1 = 0 then P1\<lparr>pid_port := ucast port\<rparr> else P1)
      in init_common_PID p t P2)"

definition matches_pid :: "process_id \<Rightarrow> process_id \<Rightarrow> int" where
  "matches_pid X Y =
     (if X = Y then 2
      else if (pid_ip Y = 0 \<or> pid_ip X = pid_ip Y) \<and> (pid_port Y = 0 \<or> pid_port X = pid_port Y)
            \<and> (pid_pid Y = 0 \<or> pid_pid X = pid_pid Y) \<and> (pid_utime Y = 0 \<or> pid_utime X = pid_utime Y) then 1
      else 0)"

text \<open>\<open>None\<close> is the failed assertion on the first six bytes (address and port).\<close>

definition process_id_is_newer :: "process_id \<Rightarrow> process_id \<Rightarrow> bool option" where
  "process_id_is_newer a b =
     (if pid_ip a \<noteq> pid_ip b \<or> pid_port a \<noteq> pid_port b then None
      else if sint (pid_utime a) < sint (pid_utime b) then Some False
      else if sint (pid_utime a) > sint (pid_utime b) then Some True
      else let x = (uint (pid_pid a) - uint (pid_pid b)) mod 32768 in Some (x \<noteq> 0 \<and> x \<le> 0x3fff))"

text \<open>\<open>struct process_id\<close> in memory: twelve bytes.\<close>

definition bytes16 :: "16 word \<Rightarrow> byte list" where
  "bytes16 w = [ucast w, ucast (drop_bit 8 w)]"

definition pid_bytes :: "process_id \<Rightarrow> byte list" where
  "pid_bytes P = bytes_le (pid_ip P) @ bytes16 (pid_port P) @ bytes16 (pid_pid P) @ bytes_le (pid_utime P)"

definition le16 :: "byte list \<Rightarrow> 16 word" where
  "le16 b = ucast (b ! 0) OR push_bit 8 (ucast (b ! 1))"

definition pid_of_bytes :: "byte list \<Rightarrow> process_id" where
  "pid_of_bytes b = \<lparr>pid_ip = le32 b, pid_port = le16 (drop 4 b), pid_pid = le16 (drop 6 b), pid_utime = le32 (drop 8 b)\<rparr>"

lemma length_pid_bytes [simp]: "length (pid_bytes P) = 12"
  by (simp add: pid_bytes_def bytes16_def)

lemma le16_bytes16: "le16 (bytes16 w @ r) = w"
proof -
  have "bit (le16 (bytes16 w @ r)) n = bit w n" if "n < 16" for n
    using that by (cases "n < 8") (auto simp: le16_def bytes16_def bit_simps)
  then show ?thesis by (intro bit_word_eqI) simp
qed

lemma pid_of_bytes_pid_bytes [simp]: "pid_of_bytes (pid_bytes P @ r) = P"
  by (simp add: pid_of_bytes_def pid_bytes_def le16_bytes16) (simp add: bytes16_def le16_bytes16[unfolded bytes16_def, simplified])

section \<open>Flags\<close>

definition RPCF_ALLOW_UNENC :: u32 where "RPCF_ALLOW_UNENC = 1"
definition RPCF_ALLOW_ENC :: u32 where "RPCF_ALLOW_ENC = 2"
definition RPCF_REQ_DH :: u32 where "RPCF_REQ_DH = 4"
definition RPCF_ALLOW_SKIP_DH :: u32 where "RPCF_ALLOW_SKIP_DH = 8"
definition RPCF_ENC_SENT :: u32 where "RPCF_ENC_SENT = 16"
definition RPCF_SEQNO_HOLES :: u32 where "RPCF_SEQNO_HOLES = 256"
definition RPCF_QUICKACK :: u32 where "RPCF_QUICKACK = 512"
definition RPCF_COMPACT_OFF :: u32 where "RPCF_COMPACT_OFF = 1024"
definition RPCF_USE_CRC32C :: u32 where "RPCF_USE_CRC32C = 2048"

definition RPC_F_PAD :: u32 where "RPC_F_PAD = 0x8000000"
definition RPC_F_MEDIUM :: u32 where "RPC_F_MEDIUM = 0x20000000"
definition RPC_F_COMPACT :: u32 where "RPC_F_COMPACT = 0x40000000"
definition RPC_F_QUICKACK :: u32 where "RPC_F_QUICKACK = 0x80000000"
definition RPC_F_EXTMODE2 :: u32 where "RPC_F_EXTMODE2 = 0x20000"

text \<open>\<open>x & flag\<close> as a condition.\<close>

definition has_flag :: "u32 \<Rightarrow> u32 \<Rightarrow> bool" where
  "has_flag x f \<longleftrightarrow> x AND f \<noteq> 0"

named_theorems flag_simps \<open>definitions of the flag constants\<close>

declare RPCF_ALLOW_UNENC_def [flag_simps] RPCF_ALLOW_ENC_def [flag_simps] RPCF_REQ_DH_def [flag_simps]
  RPCF_ALLOW_SKIP_DH_def [flag_simps] RPCF_ENC_SENT_def [flag_simps] RPCF_SEQNO_HOLES_def [flag_simps]
  RPCF_QUICKACK_def [flag_simps] RPCF_COMPACT_OFF_def [flag_simps] RPCF_USE_CRC32C_def [flag_simps]
  RPC_F_PAD_def [flag_simps] RPC_F_MEDIUM_def [flag_simps] RPC_F_COMPACT_def [flag_simps]
  RPC_F_QUICKACK_def [flag_simps] RPC_F_EXTMODE2_def [flag_simps]

definition RPC_PING :: u32 where "RPC_PING = 0x5730a2df"
definition RPC_PONG :: u32 where "RPC_PONG = 0x8430eaa7"
definition RPC_NONCE :: u32 where "RPC_NONCE = 0x7acb87aa"
definition RPC_HANDSHAKE :: u32 where "RPC_HANDSHAKE = 0x7682eef5"
definition RPC_HANDSHAKE_ERROR :: u32 where "RPC_HANDSHAKE_ERROR = 0x6a27beda"

section \<open>A connection\<close>

text \<open>\<open>td_crc32c\<close> says that \<open>custom_crc_partial\<close> is \<open>crc32c_partial\<close>.\<close>

record rpc_data =
  td_flags :: u32
  td_in_packet_num :: int
  td_out_packet_num :: int
  td_crypto_flags :: u32
  td_remote_pid :: process_id
  td_nonce :: "byte list"
  td_nonce_time :: int
  td_extra_int :: int
  td_extra_int2 :: int
  td_extra_int4 :: int
  td_crc32c :: bool

datatype conn_status = Conn_Working | Conn_Write_Close | Conn_Error

text \<open>
  Which \<open>conn_type_t\<close> serves the connection, and what \<open>C->extra\<close> is for a connection that only passes
  bytes on: the number of its peer.
\<close>

datatype conn_kind = Kind_Rpc_Server | Kind_Rpc_Client | Kind_Ext_Server | Kind_Http | Kind_Proxy_Pass "nat option"

text \<open>
  The flag bits are fields.  \<open>cn_crypto\<close> holds the states of the two ciphers, of a type \<open>'k\<close> of the
  caller's.  Raw messages are byte lists, the message queues lists of them; \<open>cn_sent\<close> is what was
  handed to the socket.
\<close>

record 'k conn =
  cn_error_flag :: bool
  cn_failed :: bool
  cn_stopread :: bool
  cn_stopparse :: bool
  cn_is_tls :: bool
  cn_is_dh :: bool
  cn_wantwr :: bool
  cn_status :: conn_status
  cn_error :: int
  cn_kind :: conn_kind
  cn_skip_bytes :: int
  cn_left_tls :: int
  cn_our_ip :: u32
  cn_our_port :: int
  cn_remote_ip :: u32
  cn_remote_ipv6 :: "byte list"
  cn_remote_port :: int
  cn_pending_queries :: int
  cn_last_response :: rat
  cn_timer :: bool
  cn_crypto :: "('k \<times> 'k) option"
  cn_in_queue :: "byte list list"
  cn_out_queue :: "byte list list"
  cn_in_u :: "byte list"
  cn_in :: "byte list"
  cn_out :: "byte list"
  cn_out_p :: "byte list"
  cn_has_io :: bool
  cn_sent :: "byte list list"
  cn_sent_stop :: bool
  cn_data :: rpc_data

definition zero_data :: rpc_data where
  "zero_data = \<lparr>td_flags = 0, td_in_packet_num = 0, td_out_packet_num = 0, td_crypto_flags = 0, td_remote_pid = zero_pid,
     td_nonce = replicate 16 0, td_nonce_time = 0, td_extra_int = 0, td_extra_int2 = 0, td_extra_int4 = 0, td_crc32c = False\<rparr>"

definition new_conn :: "conn_kind \<Rightarrow> int \<Rightarrow> 'k conn" where
  "new_conn kind port = \<lparr>cn_error_flag = False, cn_failed = False, cn_stopread = False, cn_stopparse = False, cn_is_tls = False, cn_is_dh = False,
     cn_wantwr = False, cn_status = Conn_Working, cn_error = 0, cn_kind = kind, cn_skip_bytes = 0, cn_left_tls = 0,
     cn_our_ip = 0, cn_our_port = port, cn_remote_ip = 0, cn_remote_ipv6 = replicate 16 0, cn_remote_port = 0, cn_pending_queries = 0, cn_last_response = 0, cn_timer = False, cn_crypto = None,
     cn_in_queue = [], cn_out_queue = [], cn_in_u = [], cn_in = [], cn_out = [], cn_out_p = [], cn_has_io = True,
     cn_sent = [], cn_sent_stop = False, cn_data = zero_data\<rparr>"

text \<open>\<open>fail_connection\<close>: the first error counts.\<close>

definition fail_connection :: "int \<Rightarrow> 'k conn \<Rightarrow> 'k conn" where
  "fail_connection err c =
     (if cn_error_flag c then c
      else c\<lparr>cn_error_flag := True, cn_status := Conn_Error, cn_error := (if cn_error c \<ge> 0 then err else cn_error c)\<rparr>)"

definition NEED_MORE_BYTES :: int where
  "NEED_MORE_BYTES = 0x7fffffff"

abbreviation set_data :: "(rpc_data \<Rightarrow> rpc_data) \<Rightarrow> 'k conn \<Rightarrow> 'k conn" where
  "set_data f c \<equiv> c\<lparr>cn_data := f (cn_data c)\<rparr>"

section \<open>Translation of addresses\<close>

text \<open>The rules of \<open>--nat-info\<close> (\<open>net/net-connections.c\<close>).\<close>

type_synonym nat_rules = "(u32 \<times> u32) list"

definition MAX_NAT_INFO_RULES :: nat where
  "MAX_NAT_INFO_RULES = 16"

text \<open>\<open>pton\<close> stands for \<open>inet_pton\<close>: the address in host order, if the text is one.\<close>

definition net_add_nat_info :: "(string \<Rightarrow> u32 option) \<Rightarrow> string \<Rightarrow> nat_rules \<Rightarrow> int \<times> nat_rules" where
  "net_add_nat_info pton str rules =
     (if CHR '':'' \<notin> set str then (-1, rules)
      else let after = rev (takeWhile (\<lambda>c. c \<noteq> CHR '':'') (rev str));
               before = take (length str - length after - 1) str
           in case (pton before, pton after) of
                (Some l, Some g) \<Rightarrow> if length rules \<ge> MAX_NAT_INFO_RULES then (-1, rules) else (int (length rules), rules @ [(l, g)])
              | _ \<Rightarrow> (-1, rules))"

fun nat_translate_ip :: "nat_rules \<Rightarrow> u32 \<Rightarrow> u32" where
  "nat_translate_ip [] local_ip = local_ip"
| "nat_translate_ip ((l, g) # rules) local_ip = (if l = local_ip then g else nat_translate_ip rules local_ip)"

end
