(* ===== verification/TCP_Conn.thy ===== *)
theory TCP_Conn
  imports RPC_Data
begin

text \<open>
  The byte streams of a connection (\<open>net/net-tcp-connections.c\<close>): AES in counter mode with the TLS
  record layer around it, the block mode of the inner connections, the reader with its count of
  bytes to skip or to wait for, and the writer.

  AES itself is a parameter: \<open>ks key i\<close> is byte \<open>i\<close> of the key stream of counter mode.  A cipher state
  is the key with the position in the stream.
\<close>

section \<open>Counter mode\<close>

type_synonym 'a ctr = "'a \<times> nat"

definition ctr_crypt :: "('a \<Rightarrow> nat \<Rightarrow> byte) \<Rightarrow> 'a ctr \<Rightarrow> byte list \<Rightarrow> byte list \<times> 'a ctr" where
  "ctr_crypt ks k data = (map (\<lambda>(i, b). b XOR ks (fst k) (snd k + i)) (enumerate 0 data), (fst k, snd k + length data))"

text \<open>The largest TLS record that is sent, and the header of a record.\<close>

definition MAX_PACKET_LENGTH :: nat where
  "MAX_PACKET_LENGTH = 1425"

definition tls_header :: "nat \<Rightarrow> byte list" where
  "tls_header n = [0x17, 0x03, 0x03, of_nat (n div 256), of_nat (n mod 256)]"

text \<open>
  \<open>cpu_tcp_aes_crypto_ctr128_encrypt_output\<close>: the loop over \<open>c->out\<close>.  The arguments are whether the
  connection speaks TLS, the write cipher and the bytes; the result is appended to \<open>c->out_p\<close>.
\<close>

function encrypt_loop :: "('a \<Rightarrow> nat \<Rightarrow> byte) \<Rightarrow> bool \<Rightarrow> 'a ctr \<Rightarrow> byte list \<Rightarrow> byte list \<times> 'a ctr" where
  "encrypt_loop ks tls k out =
     (if out = [] then ([], k)
      else let len = (if tls \<and> MAX_PACKET_LENGTH < length out then MAX_PACKET_LENGTH else length out);
               (enc, k1) = ctr_crypt ks k (take len out);
               (rest, k2) = encrypt_loop ks tls k1 (drop len out)
           in ((if tls then tls_header len else []) @ enc @ rest, k2))"
  by pat_completeness auto
termination
  by (relation "measure (\<lambda>(ks, tls, k, out). length out)") (auto simp: MAX_PACKET_LENGTH_def)

declare encrypt_loop.simps [simp del]

text \<open>The outer \<open>None\<close> is a failed assertion.\<close>

definition cpu_tcp_aes_crypto_ctr128_encrypt_output :: "('a \<Rightarrow> nat \<Rightarrow> byte) \<Rightarrow> 'a ctr conn \<Rightarrow> 'a ctr conn option" where
  "cpu_tcp_aes_crypto_ctr128_encrypt_output ks c =
     (case cn_crypto c of
        None \<Rightarrow> None
      | Some (rk, wk) \<Rightarrow>
          if cn_out c \<noteq> [] \<and> cn_is_tls c \<and> cn_left_tls c < 0 then None
          else let (enc, wk') = encrypt_loop ks (cn_is_tls c) wk (cn_out c)
               in Some (c\<lparr>cn_out := [], cn_out_p := cn_out_p c @ enc, cn_crypto := Some (rk, wk')\<rparr>))"

text \<open>
  \<open>cpu_tcp_aes_crypto_ctr128_decrypt_input\<close>: the loop over \<open>c->in_u\<close>, with the bytes left in the current
  record.  The result is the value returned, the rest of \<open>in_u\<close>, the new \<open>left\<close>, what is appended to
  \<open>c->in\<close>, the read cipher, and whether the connection failed.
\<close>

record 'a dec =
  dc_ret :: int
  dc_rest :: "byte list"
  dc_left :: nat
  dc_out :: "byte list"
  dc_key :: "'a ctr"
  dc_fail :: bool

function decrypt_loop :: "('a \<Rightarrow> nat \<Rightarrow> byte) \<Rightarrow> bool \<Rightarrow> 'a ctr \<Rightarrow> nat \<Rightarrow> byte list \<Rightarrow> 'a dec" where
  "decrypt_loop ks tls k left inu =
     (if inu = [] then \<lparr>dc_ret = 0, dc_rest = [], dc_left = left, dc_out = [], dc_key = k, dc_fail = False\<rparr>
      else if \<not> tls then
        (let (d, k') = ctr_crypt ks k inu
         in \<lparr>dc_ret = 0, dc_rest = [], dc_left = left, dc_out = d, dc_key = k', dc_fail = False\<rparr>)
      else if left = 0 then
        (if length inu < 5 then
           \<lparr>dc_ret = 5 - int (length inu), dc_rest = inu, dc_left = 0, dc_out = [], dc_key = k, dc_fail = False\<rparr>
         else if take 3 inu \<noteq> [0x17, 0x03, 0x03] then
           \<lparr>dc_ret = 0, dc_rest = inu, dc_left = 0, dc_out = [], dc_key = k, dc_fail = True\<rparr>
         else
           (let left1 = 256 * unat (inu ! 3) + unat (inu ! 4); inu1 = drop 5 inu;
                len = min left1 (length inu1); (d, k') = ctr_crypt ks k (take len inu1);
                r = decrypt_loop ks tls k' (left1 - len) (drop len inu1)
            in r\<lparr>dc_out := d @ dc_out r\<rparr>))
      else
        (let len = min left (length inu); (d, k') = ctr_crypt ks k (take len inu);
             r = decrypt_loop ks tls k' (left - len) (drop len inu)
         in r\<lparr>dc_out := d @ dc_out r\<rparr>))"
  by pat_completeness auto
termination
  by (relation "measure (\<lambda>(ks, tls, k, left, inu). length inu)") auto

declare decrypt_loop.simps [simp del]

definition cpu_tcp_aes_crypto_ctr128_decrypt_input :: "('a \<Rightarrow> nat \<Rightarrow> byte) \<Rightarrow> 'a ctr conn \<Rightarrow> (int \<times> 'a ctr conn) option" where
  "cpu_tcp_aes_crypto_ctr128_decrypt_input ks c =
     (case cn_crypto c of
        None \<Rightarrow> None
      | Some (rk, wk) \<Rightarrow>
          if cn_in_u c \<noteq> [] \<and> cn_is_tls c \<and> cn_left_tls c < 0 then None
          else let r = decrypt_loop ks (cn_is_tls c) rk (nat (cn_left_tls c)) (cn_in_u c);
                   c1 = c\<lparr>cn_in_u := dc_rest r, cn_in := cn_in c @ dc_out r, cn_crypto := Some (dc_key r, wk),
                         cn_left_tls := (if cn_is_tls c \<and> cn_in_u c \<noteq> [] then int (dc_left r) else cn_left_tls c)\<rparr>
               in Some (dc_ret r, if dc_fail r then fail_connection (-1) c1 else c1))"

definition cpu_tcp_aes_crypto_ctr128_needed_output_bytes :: "'k conn \<Rightarrow> int option" where
  "cpu_tcp_aes_crypto_ctr128_needed_output_bytes c = (case cn_crypto c of None \<Rightarrow> None | Some _ \<Rightarrow> Some 0)"

section \<open>Block mode\<close>

text \<open>\<open>cbc k data\<close> encrypts or decrypts a multiple of sixteen bytes and gives the cipher's next state.\<close>

definition cpu_tcp_aes_crypto_encrypt_output :: "('k \<Rightarrow> byte list \<Rightarrow> byte list \<times> 'k) \<Rightarrow> 'k conn \<Rightarrow> (int \<times> 'k conn) option" where
  "cpu_tcp_aes_crypto_encrypt_output cbc c =
     (case cn_crypto c of
        None \<Rightarrow> None
      | Some (rk, wk) \<Rightarrow>
          let l = length (cn_out c) div 16 * 16; (enc, wk') = cbc wk (take l (cn_out c));
              c1 = (if l \<noteq> 0 then c\<lparr>cn_out := drop l (cn_out c), cn_out_p := cn_out_p c @ enc, cn_crypto := Some (rk, wk')\<rparr> else c)
          in Some (- int (length (cn_out c1)) mod 16, c1))"

definition cpu_tcp_aes_crypto_decrypt_input :: "('k \<Rightarrow> byte list \<Rightarrow> byte list \<times> 'k) \<Rightarrow> 'k conn \<Rightarrow> (int \<times> 'k conn) option" where
  "cpu_tcp_aes_crypto_decrypt_input cbc c =
     (case cn_crypto c of
        None \<Rightarrow> None
      | Some (rk, wk) \<Rightarrow>
          let l = length (cn_in_u c) div 16 * 16; (d, rk') = cbc rk (take l (cn_in_u c));
              c1 = (if l \<noteq> 0 then c\<lparr>cn_in_u := drop l (cn_in_u c), cn_in := cn_in c @ d, cn_crypto := Some (rk', wk)\<rparr> else c)
          in Some (- int (length (cn_in_u c1)) mod 16, c1))"

definition cpu_tcp_aes_crypto_needed_output_bytes :: "'k conn \<Rightarrow> int option" where
  "cpu_tcp_aes_crypto_needed_output_bytes c = (case cn_crypto c of None \<Rightarrow> None | Some _ \<Rightarrow> Some (- int (length (cn_out c)) mod 16))"

section \<open>Reader and writer\<close>

definition cpu_tcp_free_connection_buffers :: "'k conn \<Rightarrow> 'k conn" where
  "cpu_tcp_free_connection_buffers c = c\<lparr>cn_in := [], cn_in_u := [], cn_out := [], cn_out_p := []\<rparr>"

text \<open>
  The operations of a connection type; \<open>'w\<close> is the rest of the process, which they may change.  \<open>None\<close> is
  a failed assertion.
\<close>

record ('w, 'k) conn_ops =
  op_parse :: "'w \<Rightarrow> 'k conn \<Rightarrow> ('w \<times> 'k conn \<times> int) option"
  op_decrypt :: "'k conn \<Rightarrow> (int \<times> 'k conn) option"
  op_encrypt :: "('k conn \<Rightarrow> 'k conn option) option"
  op_write_packet :: "'w \<Rightarrow> byte list \<Rightarrow> 'k conn \<Rightarrow> ('w \<times> 'k conn) option"
  op_flush :: "'k conn \<Rightarrow> 'k conn option"
  op_received :: "nat \<Rightarrow> 'w \<Rightarrow> 'k conn \<Rightarrow> 'w"
  op_sent :: "nat \<Rightarrow> 'w \<Rightarrow> 'k conn \<Rightarrow> 'w"

text \<open>Taking the packets from the queue; without a cipher they go straight to \<open>c->in\<close>.\<close>

definition take_packets :: "'k conn \<Rightarrow> 'k conn" where
  "take_packets c =
     (let d = concat (cn_in_queue c) in
      if cn_crypto c \<noteq> None then c\<lparr>cn_in_queue := [], cn_in_u := cn_in_u c @ d\<rparr>
      else c\<lparr>cn_in_queue := [], cn_in := cn_in c @ d\<rparr>)"

text \<open>
  The last loop of the reader.  It ends when nothing is left, when the connection fails or stops, or
  when \<open>parse_execute\<close> asks for bytes; \<open>partial_function\<close> leaves open whether it does.
\<close>

partial_function (option) parse_loop ::
    "('w \<Rightarrow> 'k conn \<Rightarrow> ('w \<times> 'k conn \<times> int) option) \<Rightarrow> 'w \<Rightarrow> 'k conn \<Rightarrow> ('w \<times> 'k conn) option" where
  "parse_loop parse w c =
     (if cn_skip_bytes c = 0 \<and> \<not> cn_error_flag c \<and> \<not> cn_failed c \<and> \<not> cn_stopread c \<and> cn_status c \<noteq> Conn_Error
         \<and> cn_in c \<noteq> []
      then Option.bind (parse w c) (\<lambda>(w', c', res).
        if res = 0 then parse_loop parse w' c'
        else if res \<noteq> NEED_MORE_BYTES then
          (let bytes = int (length (if cn_crypto c' \<noteq> None then cn_in c' else cn_in_u c'))
           in Some (w', c'\<lparr>cn_skip_bytes := (if res < 0 then res - bytes else res + bytes)\<rparr>))
        else Some (w', c'))
      else Some (w, c))"

definition cpu_tcp_server_reader :: "('w, 'k) conn_ops \<Rightarrow> 'w \<Rightarrow> 'k conn \<Rightarrow> ('w \<times> 'k conn \<times> int) option" where
  "cpu_tcp_server_reader ops w c =
     (let before = length (cn_in c); c = take_packets c in do {
        c \<leftarrow> (if cn_crypto c \<noteq> None
             then (case op_decrypt ops c of None \<Rightarrow> None | Some (ret, c) \<Rightarrow> if ret < 0 then None else Some c)
             else Some c);
        let r = length (cn_in c); w = op_received ops (r - before) w c; s = cn_skip_bytes c in
        if cn_failed c \<or> cn_error_flag c then Some (w, c, -1)
        else if cn_stopread c then Some (w, c, 0)
        else if s < 0 \<and> int r < - s then Some (w, c\<lparr>cn_in := [], cn_skip_bytes := s + int r\<rparr>, 0)
        else let c = (if s < 0 then c\<lparr>cn_in := drop (nat (- s)) (cn_in c), cn_skip_bytes := 0\<rparr> else c) in
             if s > 0 \<and> int r < s then Some (w, c, 0)
             else do {
               (w, c) \<leftarrow> parse_loop (op_parse ops) w (if s > 0 then c\<lparr>cn_skip_bytes := 0\<rparr> else c);
               Some (w, c, 0)
             }
      })"

fun write_packets :: "('w, 'k) conn_ops \<Rightarrow> byte list list \<Rightarrow> 'w \<Rightarrow> 'k conn \<Rightarrow> ('w \<times> 'k conn) option" where
  "write_packets ops [] w c = Some (w, c)"
| "write_packets ops (raw # raws) w c = do { (w, c) \<leftarrow> op_write_packet ops w raw c; write_packets ops raws w c }"

definition cpu_tcp_server_writer :: "('w, 'k) conn_ops \<Rightarrow> 'w \<Rightarrow> 'k conn \<Rightarrow> ('w \<times> 'k conn) option" where
  "cpu_tcp_server_writer ops w c =
     (let stop = (cn_status c = Conn_Write_Close) in do {
        (w, c) \<leftarrow> write_packets ops (cn_out_queue c) w (c\<lparr>cn_out_queue := []\<rparr>);
        c \<leftarrow> op_flush ops c;
        (raw, c) \<leftarrow> (case op_encrypt ops of
            Some enc \<Rightarrow> if cn_crypto c \<noteq> None
                        then map_option (\<lambda>c. (cn_out_p c, c\<lparr>cn_out_p := []\<rparr>)) (enc c)
                        else Some (cn_out c, c\<lparr>cn_out := []\<rparr>)
          | None \<Rightarrow> Some (cn_out c, c\<lparr>cn_out := []\<rparr>));
        if raw \<noteq> [] \<and> cn_has_io c
        then Some (op_sent ops (length raw) w c, c\<lparr>cn_sent := cn_sent c @ [raw], cn_sent_stop := (cn_sent_stop c \<or> stop)\<rparr>)
        else Some (w, c)
      })"

end
