(* ===== verification/TCP_Records.thy ===== *)
theory TCP_Records
  imports TCP_Conn
begin

text \<open>
  Facts about the byte streams: decoding does not depend on how the bytes are cut into reads, and what
  the record layer writes is read back by it.
\<close>

section \<open>Counter mode\<close>

lemma length_ctr_crypt [simp]: "length (fst (ctr_crypt ks k d)) = length d"
  by (simp add: ctr_crypt_def)

lemma ctr_crypt_Nil [simp]: "ctr_crypt ks k [] = ([], k)"
  by (simp add: ctr_crypt_def)

lemma snd_ctr_crypt [simp]: "snd (ctr_crypt ks k d) = (fst k, snd k + length d)"
  by (simp add: ctr_crypt_def)

lemma ctr_crypt_append:
  "ctr_crypt ks k (a @ b) =
     (fst (ctr_crypt ks k a) @ fst (ctr_crypt ks (snd (ctr_crypt ks k a)) b), snd (ctr_crypt ks (snd (ctr_crypt ks k a)) b))"
proof -
  have "map (\<lambda>(i, b). b XOR ks (fst k) (snd k + i)) (enumerate (length a) b) =
      map (\<lambda>(i, b). b XOR ks (fst k) (snd k + length a + i)) (enumerate 0 b)"
    by (rule nth_equalityI) (simp_all add: nth_enumerate_eq add.assoc)
  then show ?thesis by (simp add: ctr_crypt_def enumerate_append_eq)
qed

lemma ctr_crypt_twice: "fst (ctr_crypt ks k (fst (ctr_crypt ks k d))) = d"
  by (rule nth_equalityI) (simp_all add: ctr_crypt_def nth_enumerate_eq xor.assoc)

section \<open>A decoder that can be fed in pieces\<close>

locale stream_decoder =
  fixes dec :: "'s \<Rightarrow> byte list \<Rightarrow> 's \<times> 'o list"
  assumes dec_append: "dec s (a @ b) = (let (s1, x) = dec s a; (s2, y) = dec s1 b in (s2, x @ y))"
begin

fun feed_chunks :: "'s \<Rightarrow> byte list list \<Rightarrow> 's \<times> 'o list" where
  "feed_chunks s [] = (s, [])"
| "feed_chunks s (d # ds) = (let (s1, x) = dec s d; (s2, y) = feed_chunks s1 ds in (s2, x @ y))"

theorem chunks_irrelevant: "ds \<noteq> [] \<Longrightarrow> feed_chunks s ds = dec s (concat ds)"
proof (induction ds arbitrary: s)
  case (Cons d ds)
  show ?case
  proof (cases "ds = []")
    case True
    then show ?thesis by (simp add: case_prod_beta Let_def)
  next
    case False
    then show ?thesis using Cons.IH by (simp add: dec_append case_prod_beta Let_def)
  qed
qed simp

end

section \<open>The record layer\<close>

text \<open>The decoder's state: failed, the cipher, the bytes left in the record, the bytes not yet decoded.\<close>

type_synonym 'a rec_state = "bool \<times> 'a ctr \<times> nat \<times> byte list"

definition rec_dec :: "('a \<Rightarrow> nat \<Rightarrow> byte) \<Rightarrow> bool \<Rightarrow> 'a rec_state \<Rightarrow> byte list \<Rightarrow> 'a rec_state \<times> byte list" where
  "rec_dec ks tls st d =
     (case st of (failed, k, left, rest) \<Rightarrow>
        if failed then ((True, k, left, rest @ d), [])
        else let r = decrypt_loop ks tls k left (rest @ d) in ((dc_fail r, dc_key r, dc_left r, dc_rest r), dc_out r))"

lemma decrypt_Nil [simp]:
  "decrypt_loop ks tls k left [] = \<lparr>dc_ret = 0, dc_rest = [], dc_left = left, dc_out = [], dc_key = k, dc_fail = False\<rparr>"
  by (simp add: decrypt_loop.simps)

text \<open>Inside a record.\<close>

lemma decrypt_inside:
  assumes "0 < left" "a \<noteq> []"
  shows "decrypt_loop ks True k left a =
    (let len = min left (length a); r = decrypt_loop ks True (snd (ctr_crypt ks k (take len a))) (left - len) (drop len a)
     in r\<lparr>dc_out := fst (ctr_crypt ks k (take len a)) @ dc_out r\<rparr>)"
  using assms by (subst decrypt_loop.simps) (simp add: Let_def case_prod_beta)

text \<open>Between two records.\<close>

lemma decrypt_header:
  assumes "5 \<le> length a" "take 3 a = [0x17, 0x03, 0x03]"
  shows "decrypt_loop ks True k 0 a = decrypt_loop ks True k (256 * unat (a ! 3) + unat (a ! 4)) (drop 5 a)"
proof -
  let ?l = "256 * unat (a ! 3) + unat (a ! 4)"
  have "a \<noteq> []" using assms(1) by auto
  then have e: "decrypt_loop ks True k 0 a =
      (let len = min ?l (length (drop 5 a)); r = decrypt_loop ks True (snd (ctr_crypt ks k (take len (drop 5 a)))) (?l - len) (drop len (drop 5 a))
       in r\<lparr>dc_out := fst (ctr_crypt ks k (take len (drop 5 a))) @ dc_out r\<rparr>)"
    using assms by (subst decrypt_loop.simps) (simp add: Let_def case_prod_beta)
  show ?thesis
  proof (cases "0 < ?l \<and> drop 5 a \<noteq> []")
    case True
    then show ?thesis unfolding e by (simp add: decrypt_inside)
  next
    case False
    then have "min ?l (length (drop 5 a)) = 0" by auto
    then show ?thesis unfolding e by (simp add: Let_def)
  qed
qed

lemma decrypt_short:
  assumes "length a < 5 \<or> take 3 a \<noteq> [0x17, 0x03, 0x03]" "a \<noteq> []"
  shows "decrypt_loop ks True k 0 a =
    \<lparr>dc_ret = (if length a < 5 then 5 - int (length a) else 0), dc_rest = a, dc_left = 0, dc_out = [], dc_key = k,
     dc_fail = (5 \<le> length a)\<rparr>"
  using assms by (subst decrypt_loop.simps) auto

lemma decrypt_append:
  "let r = decrypt_loop ks True k left a in
   \<not> dc_fail r \<longrightarrow> decrypt_loop ks True k left (a @ b) =
     (let q = decrypt_loop ks True (dc_key r) (dc_left r) (dc_rest r @ b) in q\<lparr>dc_out := dc_out r @ dc_out q\<rparr>)"
proof (induction "length a" arbitrary: k left a rule: less_induct)
  case less
  consider "a = []" | "a \<noteq> []" "0 < left" | "a \<noteq> []" "left = 0" "5 \<le> length a" "take 3 a = [0x17, 0x03, 0x03]"
    | "a \<noteq> []" "left = 0" "length a < 5 \<or> take 3 a \<noteq> [0x17, 0x03, 0x03]" by fastforce
  then show ?case
  proof cases
    case 1
    then show ?thesis by simp
  next
    case 2
    show ?thesis
    proof (cases "left < length a")
      case True
      let ?x = "ctr_crypt ks k (take left a)"
      have d: "decrypt_loop ks True k left a =
          (decrypt_loop ks True (snd ?x) 0 (drop left a))\<lparr>dc_out := fst ?x @ dc_out (decrypt_loop ks True (snd ?x) 0 (drop left a))\<rparr>"
        using decrypt_inside[OF 2(2,1)] True by (simp add: Let_def)
      have d': "decrypt_loop ks True k left (a @ b) =
          (decrypt_loop ks True (snd ?x) 0 (drop left a @ b))\<lparr>dc_out := fst ?x @ dc_out (decrypt_loop ks True (snd ?x) 0 (drop left a @ b))\<rparr>"
        using decrypt_inside[OF 2(2), of "a @ b"] 2(1) True by (simp add: Let_def)
      show ?thesis
        using less.hyps[of "drop left a" "snd ?x" 0] 2 True unfolding d d' by (simp add: Let_def)
    next
      case False
      let ?x = "ctr_crypt ks k a"
      have d: "decrypt_loop ks True k left a =
          \<lparr>dc_ret = 0, dc_rest = [], dc_left = left - length a, dc_out = fst ?x, dc_key = snd ?x, dc_fail = False\<rparr>"
        using decrypt_inside[OF 2(2,1)] False by (simp add: Let_def)
      show ?thesis
      proof (cases "b = []")
        case True
        then show ?thesis by (simp add: d)
      next
        case b: False
        let ?n = "min (left - length a) (length b)"
        have m: "min left (length a + length b) = length a + ?n" using False by simp
        have t: "ctr_crypt ks k (a @ take ?n b) =
            (fst ?x @ fst (ctr_crypt ks (snd ?x) (take ?n b)), snd (ctr_crypt ks (snd ?x) (take ?n b)))"
          by (rule ctr_crypt_append)
        have d': "decrypt_loop ks True k left (a @ b) =
            (let r = decrypt_loop ks True (snd (ctr_crypt ks (snd ?x) (take ?n b))) (left - (length a + ?n)) (drop ?n b)
             in r\<lparr>dc_out := (fst ?x @ fst (ctr_crypt ks (snd ?x) (take ?n b))) @ dc_out r\<rparr>)"
          using decrypt_inside[OF 2(2), of "a @ b" ks k] 2(1) False
          unfolding length_append m by (simp add: Let_def t take_append drop_append del: snd_ctr_crypt)
        show ?thesis
        proof (cases "left = length a")
          case True
          then show ?thesis unfolding d d' by (simp add: Let_def)
        next
          case gt: False
          then show ?thesis unfolding d'
            using decrypt_inside[of "left - length a" b ks "snd ?x"] b False by (simp add: d Let_def)
        qed
      qed
    qed
  next
    case 3
    let ?l = "256 * unat (a ! 3) + unat (a ! 4)"
    have "take 3 (a @ b) = [0x17, 0x03, 0x03]" "drop 5 (a @ b) = drop 5 a @ b" "(a @ b) ! 3 = a ! 3" "(a @ b) ! 4 = a ! 4"
      using 3 by (auto simp: nth_append)
    then show ?thesis
      using less.hyps[of "drop 5 a" k ?l] 3 decrypt_header[of a ks k] decrypt_header[of "a @ b" ks k] by (simp add: Let_def)
  next
    case 4
    then show ?thesis by (auto simp: decrypt_short Let_def)
  qed
qed

lemma decrypt_append_plain:
  "decrypt_loop ks False k left (a @ b) =
     (let r = decrypt_loop ks False k left a; q = decrypt_loop ks False (dc_key r) (dc_left r) b in q\<lparr>dc_out := dc_out r @ dc_out q\<rparr>)"
proof (cases "a = [] \<or> b = []")
  case True
  then show ?thesis by (auto simp: decrypt_loop.simps[of ks False] Let_def case_prod_beta)
next
  case False
  then show ?thesis
    by (simp add: decrypt_loop.simps[of ks False] Let_def case_prod_beta ctr_crypt_append)
qed

lemma decrypt_plain_rest: "dc_rest (decrypt_loop ks False k left a) = [] \<and> \<not> dc_fail (decrypt_loop ks False k left a)"
  by (simp add: decrypt_loop.simps[of ks False] Let_def case_prod_beta)

lemma decrypt_failed_append:
  "dc_fail (decrypt_loop ks True k left a) \<Longrightarrow>
   decrypt_loop ks True k left (a @ b) =
     (decrypt_loop ks True k left a)\<lparr>dc_rest := dc_rest (decrypt_loop ks True k left a) @ b\<rparr>"
proof (induction "length a" arbitrary: k left a rule: less_induct)
  case less
  have ne: "a \<noteq> []" using less.prems by auto
  consider "0 < left" | "left = 0" "5 \<le> length a" "take 3 a = [0x17, 0x03, 0x03]"
    | "left = 0" "length a < 5 \<or> take 3 a \<noteq> [0x17, 0x03, 0x03]" by fastforce
  then show ?case
  proof cases
    case 1
    have "left < length a"
    proof (rule ccontr)
      assume "\<not> left < length a"
      then show False using less.prems decrypt_inside[OF 1 ne, of ks k] by (simp add: Let_def)
    qed
    then show ?thesis
      using less.hyps[of "drop left a" "snd (ctr_crypt ks k (take left a))" 0] less.prems ne 1
        decrypt_inside[OF 1 ne, of ks k] decrypt_inside[OF 1, of "a @ b" ks k] by (simp add: Let_def)
  next
    case 2
    have "take 3 (a @ b) = [0x17, 0x03, 0x03]" "drop 5 (a @ b) = drop 5 a @ b" "(a @ b) ! 3 = a ! 3" "(a @ b) ! 4 = a ! 4"
      using 2 by (auto simp: nth_append)
    then show ?thesis
      using less.hyps[of "drop 5 a" k "256 * unat (a ! 3) + unat (a ! 4)"] less.prems 2 ne
        decrypt_header[of a ks k] decrypt_header[of "a @ b" ks k] by simp
  next
    case 3
    then have l: "5 \<le> length a" "take 3 a \<noteq> [0x17, 0x03, 0x03]"
      using less.prems ne by (auto simp: decrypt_short split: if_splits)
    then have "take 3 (a @ b) \<noteq> [0x17, 0x03, 0x03]" by simp
    then show ?thesis using l 3(1) ne by (simp add: decrypt_short)
  qed
qed

lemma rec_dec_append:
  "rec_dec ks tls s (a @ b) = (let (s1, x) = rec_dec ks tls s a; (s2, y) = rec_dec ks tls s1 b in (s2, x @ y))"
proof -
  obtain failed k left rest where s: "s = (failed, k, left, rest)" by (metis prod.collapse)
  consider "failed" | "\<not> failed" "tls" "dc_fail (decrypt_loop ks True k left (rest @ a))"
    | "\<not> failed" "tls" "\<not> dc_fail (decrypt_loop ks True k left (rest @ a))" | "\<not> failed" "\<not> tls" by blast
  then show ?thesis
  proof cases
    case 1
    then show ?thesis by (simp add: rec_dec_def s)
  next
    case 2
    then show ?thesis
      using decrypt_failed_append[OF 2(3), of b] by (simp add: rec_dec_def s Let_def)
  next
    case 3
    then show ?thesis
      using decrypt_append[of ks k left "rest @ a" b] by (simp add: rec_dec_def s Let_def)
  next
    case 4
    then show ?thesis
      using decrypt_append_plain[of ks k left "rest @ a" b] decrypt_plain_rest[of ks k left "rest @ a"]
      by (simp add: rec_dec_def s Let_def)
  qed
qed

interpretation rec: stream_decoder "rec_dec ks tls" for ks :: "'a \<Rightarrow> nat \<Rightarrow> byte" and tls
  by unfold_locales (rule rec_dec_append)

section \<open>What is written is read\<close>

lemma length_tls_header [simp]: "length (tls_header n) = 5"
  by (simp add: tls_header_def)

lemma tls_header_fields:
  "n < 65536 \<Longrightarrow> 256 * unat (tls_header n ! 3) + unat (tls_header n ! 4) = n" "take 3 (tls_header n) = [0x17, 0x03, 0x03]"
  by (simp_all add: tls_header_def unat_of_nat less_mult_imp_div_less)

text \<open>One record.\<close>

lemma decrypt_record:
  assumes "d \<noteq> []" "length d < 65536"
  shows "decrypt_loop ks True k 0 (tls_header (length d) @ fst (ctr_crypt ks k d) @ more') =
    (let r = decrypt_loop ks True (snd (ctr_crypt ks k d)) 0 more' in r\<lparr>dc_out := d @ dc_out r\<rparr>)"
proof -
  let ?e = "fst (ctr_crypt ks k d)"
  have h: "decrypt_loop ks True k 0 (tls_header (length d) @ ?e @ more') = decrypt_loop ks True k (length d) (?e @ more')"
    using decrypt_header[of "tls_header (length d) @ ?e @ more'" ks k] tls_header_fields[of "length d"] assms(2)
    by (simp add: nth_append)
  have "?e \<noteq> []" using assms(1) by (metis length_0_conv length_ctr_crypt)
  then show ?thesis
    unfolding h using decrypt_inside[of "length d" "?e @ more'" ks k] assms(1)
    by (simp add: Let_def ctr_crypt_twice)
qed

lemma decrypt_encrypt:
  "decrypt_loop ks True k 0 (fst (encrypt_loop ks True k out)) =
     \<lparr>dc_ret = 0, dc_rest = [], dc_left = 0, dc_out = out, dc_key = snd (encrypt_loop ks True k out), dc_fail = False\<rparr>"
proof (induction "length out" arbitrary: k out rule: less_induct)
  case less
  show ?case
  proof (cases "out = []")
    case True
    then show ?thesis by (simp add: encrypt_loop.simps)
  next
    case False
    let ?n = "if MAX_PACKET_LENGTH < length out then MAX_PACKET_LENGTH else length out"
    let ?d = "take ?n out" and ?r = "drop ?n out"
    let ?k = "snd (ctr_crypt ks k ?d)"
    have n: "0 < ?n" "?n \<le> length out" "?n < 65536" "length ?d = ?n"
      using False by (auto simp: MAX_PACKET_LENGTH_def)
    have e: "encrypt_loop ks True k out =
        (tls_header (length ?d) @ fst (ctr_crypt ks k ?d) @ fst (encrypt_loop ks True ?k ?r), snd (encrypt_loop ks True ?k ?r))"
      using False n(4) by (subst encrypt_loop.simps) (simp add: Let_def case_prod_beta del: snd_ctr_crypt)
    have "decrypt_loop ks True k 0 (fst (encrypt_loop ks True k out)) =
        (let r = decrypt_loop ks True ?k 0 (fst (encrypt_loop ks True ?k ?r)) in r\<lparr>dc_out := ?d @ dc_out r\<rparr>)"
      unfolding e fst_conv using n False by (intro decrypt_record) auto
    also have "decrypt_loop ks True ?k 0 (fst (encrypt_loop ks True ?k ?r)) =
        \<lparr>dc_ret = 0, dc_rest = [], dc_left = 0, dc_out = ?r, dc_key = snd (encrypt_loop ks True ?k ?r), dc_fail = False\<rparr>"
      using n by (intro less) simp
    finally show ?thesis unfolding e by (simp add: Let_def)
  qed
qed

section \<open>Two connections\<close>

text \<open>The receiver takes the bytes in pieces, as the reader does.\<close>

fun receive_chunks :: "('a \<Rightarrow> nat \<Rightarrow> byte) \<Rightarrow> byte list list \<Rightarrow> 'a ctr conn \<Rightarrow> 'a ctr conn option" where
  "receive_chunks ks [] c = Some c"
| "receive_chunks ks (d # ds) c =
     do { (r, c') \<leftarrow> cpu_tcp_aes_crypto_ctr128_decrypt_input ks (c\<lparr>cn_in_u := cn_in_u c @ d\<rparr>); receive_chunks ks ds c' }"

definition rec_of :: "'a ctr conn \<Rightarrow> 'a rec_state" where
  "rec_of c = (cn_error_flag c, fst (the (cn_crypto c)), nat (cn_left_tls c), cn_in_u c)"

definition tls_ready :: "'a ctr conn \<Rightarrow> bool" where
  "tls_ready c \<longleftrightarrow> cn_is_tls c \<and> cn_crypto c \<noteq> None \<and> 0 \<le> cn_left_tls c"

lemma rec_dec_failed: "rec_dec ks tls (True, k, left, rest) d = ((True, k, left, rest @ d), [])"
  by (simp add: rec_dec_def)

lemma feed_failed: "fst (fst (rec.feed_chunks ks tls (True, k, left, rest) ds))"
  by (induction ds arbitrary: rest) (simp_all add: rec_dec_failed case_prod_beta)

lemma decrypt_input_step:
  assumes "tls_ready c" "\<not> cn_error_flag c"
  shows "\<exists>r c'. cpu_tcp_aes_crypto_ctr128_decrypt_input ks (c\<lparr>cn_in_u := cn_in_u c @ d\<rparr>) = Some (r, c') \<and> tls_ready c' \<and>
    rec_of c' = fst (rec_dec ks True (rec_of c) d) \<and> cn_in c' = cn_in c @ snd (rec_dec ks True (rec_of c) d)"
proof -
  obtain rk wk where k: "cn_crypto c = Some (rk, wk)" using assms(1) by (auto simp: tls_ready_def)
  let ?r = "decrypt_loop ks True rk (nat (cn_left_tls c)) (cn_in_u c @ d)"
  have left: "cn_in_u c @ d = [] \<Longrightarrow> dc_left ?r = nat (cn_left_tls c)" by simp
  show ?thesis
    using assms k left
    by (auto simp: cpu_tcp_aes_crypto_ctr128_decrypt_input_def tls_ready_def rec_of_def rec_dec_def Let_def fail_connection_def)
qed

lemma receive_chunks_feed:
  assumes "tls_ready c" "\<not> fst (fst (rec.feed_chunks ks True (rec_of c) ds))"
  shows "\<exists>c'. receive_chunks ks ds c = Some c' \<and> rec_of c' = fst (rec.feed_chunks ks True (rec_of c) ds) \<and>
    cn_in c' = cn_in c @ snd (rec.feed_chunks ks True (rec_of c) ds)"
  using assms
proof (induction ds arbitrary: c)
  case Nil
  then show ?case by simp
next
  case (Cons d ds)
  have ok: "\<not> cn_error_flag c"
    using Cons.prems(2) feed_failed[of ks True "fst (the (cn_crypto c))" "nat (cn_left_tls c)" "cn_in_u c" "d # ds"]
    unfolding rec_of_def by metis
  obtain r c' where c': "cpu_tcp_aes_crypto_ctr128_decrypt_input ks (c\<lparr>cn_in_u := cn_in_u c @ d\<rparr>) = Some (r, c')" "tls_ready c'"
    "rec_of c' = fst (rec_dec ks True (rec_of c) d)" "cn_in c' = cn_in c @ snd (rec_dec ks True (rec_of c) d)"
    using decrypt_input_step[OF Cons.prems(1) ok] by blast
  have "\<not> fst (fst (rec.feed_chunks ks True (rec_of c') ds))"
    using Cons.prems(2) c'(3) by (simp add: case_prod_beta Let_def)
  from Cons.IH[OF c'(2) this] show ?case using c' by (auto simp: case_prod_beta Let_def)
qed

lemma receive_sent:
  assumes "cpu_tcp_aes_crypto_ctr128_encrypt_output ks a = Some a'" "cn_is_tls a" "cn_crypto a = Some (rk, wk)" "cn_out_p a = []"
    "cn_is_tls b" "cn_crypto b = Some (wk, wk')" "cn_left_tls b = 0" "cn_in_u b = []" "\<not> cn_error_flag b"
    "concat ds = cn_out_p a'"
  shows "\<exists>b'. receive_chunks ks ds b = Some b' \<and> cn_in b' = cn_in b @ cn_out a \<and> cn_in_u b' = [] \<and> \<not> cn_error_flag b'"
proof -
  have out: "cn_out_p a' = fst (encrypt_loop ks True wk (cn_out a))"
    using assms(1-4) by (auto simp: cpu_tcp_aes_crypto_ctr128_encrypt_output_def case_prod_beta Let_def split: if_splits)
  have rec_b: "rec_of b = (False, wk, 0, [])" using assms(6-9) by (simp add: rec_of_def)
  have ready: "tls_ready b" using assms(5-7) by (simp add: tls_ready_def)
  have feed: "rec.feed_chunks ks True (rec_of b) ds = ((False, snd (encrypt_loop ks True wk (cn_out a)), 0, []), cn_out a)"
  proof (cases "ds = []")
    case True
    then have "fst (encrypt_loop ks True wk (cn_out a)) = []" using assms(10) out by simp
    then have "cn_out a = []" using decrypt_encrypt[of ks wk "cn_out a"] by simp
    then show ?thesis using True rec_b by (simp add: encrypt_loop.simps)
  next
    case False
    then show ?thesis
      by (simp add: rec.chunks_irrelevant rec_b assms(10) out rec_dec_def decrypt_encrypt Let_def)
  qed
  from receive_chunks_feed[OF ready, of ks ds] feed show ?thesis by (auto simp: rec_of_def)
qed

section \<open>Properties\<close>

text \<open>
  C13. The record layer is transparent: what one connection encrypts into TLS records, the other one
  decrypts to the same bytes, whatever the pieces in which the network delivers them.
\<close>

theorem tls_stream_roundtrip:
  assumes "cpu_tcp_aes_crypto_ctr128_encrypt_output ks a = Some a'" "cn_is_tls a" "cn_crypto a = Some (rk, wk)" "cn_out_p a = []"
    "cn_is_tls b" "cn_crypto b = Some (wk, wk')" "cn_left_tls b = 0" "cn_in_u b = []" "\<not> cn_error_flag b"
    "concat ds = cn_out_p a'"
  shows "\<exists>b'. receive_chunks ks ds b = Some b' \<and> cn_in b' = cn_in b @ cn_out a \<and> cn_in_u b' = [] \<and> \<not> cn_error_flag b'"
  by (rule receive_sent[OF assms])

definition example_sender :: "nat ctr conn" where
  "example_sender = (new_conn Kind_Ext_Server 443)\<lparr>cn_is_tls := True, cn_crypto := Some ((1, 0), (2, 64)), cn_out := [1, 2, 3]\<rparr>"

definition example_receiver :: "nat ctr conn" where
  "example_receiver = (new_conn Kind_Ext_Server 443)\<lparr>cn_is_tls := True, cn_crypto := Some ((2, 64), (1, 0))\<rparr>"

definition example_ks :: "nat \<Rightarrow> nat \<Rightarrow> byte" where
  "example_ks k i = of_nat (k + i)"

theorem tls_stream_roundtrip_witness:
  "\<exists>b'. receive_chunks example_ks [[0x17, 3], [3, 0, 3, 67], [65, 71]] example_receiver = Some b' \<and> cn_in b' = [] @ [1, 2, 3]
     \<and> cn_in_u b' = [] \<and> \<not> cn_error_flag b'"
proof -
  have e: "cpu_tcp_aes_crypto_ctr128_encrypt_output example_ks example_sender =
      Some (example_sender\<lparr>cn_out := [], cn_out_p := [0x17, 3, 3, 0, 3, 67, 65, 71], cn_crypto := Some ((1, 0), (2, 67))\<rparr>)"
    by (simp add: cpu_tcp_aes_crypto_ctr128_encrypt_output_def example_sender_def new_conn_def encrypt_loop.simps
        ctr_crypt_def tls_header_def example_ks_def MAX_PACKET_LENGTH_def)
  show ?thesis
    using tls_stream_roundtrip[OF e, of "(1, 0)" "(2, 64)" example_receiver "(1, 0)" "[[0x17, 3], [3, 0, 3, 67], [65, 71]]"]
    by (simp add: example_sender_def example_receiver_def new_conn_def)
qed

end
