(* ===== verification/RPC_Common.thy ===== *)
theory RPC_Common
  imports TCP_Conn
begin

text \<open>
  What all RPC connections share (\<open>net/net-tcp-rpc-common.c\<close>): sending a message now, at once or by the
  queue, the frames around it, pings, and the limit on expensive handshakes.

  \<open>crc\<close> stands for \<open>rwm_custom_crc32\<close>: its first argument says whether CRC32-C is used.
\<close>

type_synonym crc_fun = "bool \<Rightarrow> byte list \<Rightarrow> u32"

section \<open>Sending\<close>

text \<open>A message with length, number and checksum; the number is counted, as an \<open>int\<close> that wraps around.\<close>

definition rpc_frame :: "crc_fun \<Rightarrow> rpc_data \<Rightarrow> byte list \<Rightarrow> byte list" where
  "rpc_frame crc d raw =
     (let r = bytes_le (of_nat (length raw + 12)) @ bytes_le (of_int (td_out_packet_num d)) @ raw
      in r @ bytes_le (crc (td_crc32c d) r))"

definition count_out :: "rpc_data \<Rightarrow> rpc_data" where
  "count_out d = d\<lparr>td_out_packet_num := i32 (td_out_packet_num d + 1)\<rparr>"

definition tcp_rpc_conn_send_init :: "crc_fun \<Rightarrow> byte list \<Rightarrow> 'k conn \<Rightarrow> 'k conn option" where
  "tcp_rpc_conn_send_init crc raw c =
     (if length raw mod 4 \<noteq> 0 then None
      else let r = rpc_frame crc (cn_data c) raw; c1 = set_data count_out c
           in Some (if cn_has_io c then c1\<lparr>cn_sent := cn_sent c @ [r]\<rparr> else c1))"

definition tcp_rpc_conn_send_im :: "crc_fun \<Rightarrow> byte list \<Rightarrow> 'k conn \<Rightarrow> 'k conn option" where
  "tcp_rpc_conn_send_im crc raw c =
     (if length raw mod 4 \<noteq> 0 then None
      else Some ((set_data count_out c)\<lparr>cn_out := cn_out c @ rpc_frame crc (cn_data c) raw\<rparr>))"

text \<open>
  The bits of \<open>flags\<close>: 1 asks for a copy, 4 gives the message away, 8 allows any length.
\<close>

definition tcp_rpc_conn_send :: "byte list \<Rightarrow> u32 \<Rightarrow> 'k conn \<Rightarrow> 'k conn option" where
  "tcp_rpc_conn_send raw flags c =
     (if \<not> has_flag flags 8 \<and> length raw mod 4 \<noteq> 0 then None
      else if has_flag flags 4 \<and> has_flag flags 1 then None
      else Some (c\<lparr>cn_out_queue := cn_out_queue c @ [raw]\<rparr>))"

definition tcp_rpc_conn_send_data :: "byte list \<Rightarrow> 'k conn \<Rightarrow> 'k conn option" where
  "tcp_rpc_conn_send_data Q c = (if length Q mod 4 \<noteq> 0 then None else tcp_rpc_conn_send Q 0 c)"

definition tcp_rpc_conn_send_data_init :: "crc_fun \<Rightarrow> byte list \<Rightarrow> 'k conn \<Rightarrow> 'k conn option" where
  "tcp_rpc_conn_send_data_init crc Q c = (if length Q mod 4 \<noteq> 0 then None else tcp_rpc_conn_send_init crc Q c)"

definition tcp_rpc_conn_send_data_im :: "crc_fun \<Rightarrow> byte list \<Rightarrow> 'k conn \<Rightarrow> 'k conn option" where
  "tcp_rpc_conn_send_data_im crc Q c = (if length Q mod 4 \<noteq> 0 then None else tcp_rpc_conn_send_im crc Q c)"

text \<open>The answer to a ping; \<open>t\<close> is \<open>precise_now\<close>.\<close>

definition tcp_rpc_default_execute :: "rat \<Rightarrow> u32 \<Rightarrow> byte list \<Rightarrow> 'k conn \<Rightarrow> 'k conn option" where
  "tcp_rpc_default_execute t op raw c =
     (let c = c\<lparr>cn_last_response := t\<rparr> in
      if op = RPC_PING \<and> length raw = 12 then tcp_rpc_conn_send_data (bytes_le RPC_PONG @ drop 4 raw) c else Some c)"

definition tcp_rpc_send_ping :: "byte list \<Rightarrow> 'k conn \<Rightarrow> 'k conn option" where
  "tcp_rpc_send_ping ping_id c = tcp_rpc_conn_send_data (bytes_le RPC_PING @ ping_id) c"

section \<open>Frames\<close>

definition tcp_rpc_write_packet :: "crc_fun \<Rightarrow> byte list \<Rightarrow> 'k conn \<Rightarrow> 'k conn" where
  "tcp_rpc_write_packet crc raw c =
     (if has_flag (td_flags (cn_data c)) (RPC_F_COMPACT OR RPC_F_MEDIUM) then c
      else (set_data count_out c)\<lparr>cn_out := cn_out c @ rpc_frame crc (cn_data c) raw\<rparr>)"

text \<open>The padded message, and the frame around it; \<open>x\<close> and \<open>y\<close> are two values of \<open>lrand48_j\<close>.\<close>

definition pad_message :: "u32 \<Rightarrow> u32 \<Rightarrow> u32 \<Rightarrow> byte list \<Rightarrow> byte list" where
  "pad_message flags x y raw = (if has_flag flags RPC_F_PAD then raw @ take (unat (y AND 3)) (bytes_le x) else raw)"

definition compact_frame :: "u32 \<Rightarrow> byte list \<Rightarrow> byte list option" where
  "compact_frame flags raw =
     (let len = length raw in
      if len \<ge> 2 ^ 26 then None
      else if \<not> has_flag flags RPC_F_PAD \<and> len mod 4 \<noteq> 0 then None
      else if has_flag flags RPC_F_MEDIUM then Some (bytes_le (of_nat len) @ raw)
      else if len \<le> 0x7e * 4 then Some ([of_nat (len div 4)] @ raw)
      else Some (bytes_le (push_bit 6 (of_nat len) OR 0x7f) @ raw))"

definition tcp_rpc_write_packet_compact :: "crc_fun \<Rightarrow> u32 \<Rightarrow> u32 \<Rightarrow> byte list \<Rightarrow> 'k conn \<Rightarrow> 'k conn option" where
  "tcp_rpc_write_packet_compact crc x y raw c =
     (let flags = td_flags (cn_data c) in
      if length raw = 5 then (if raw ! 0 = 0xdd then Some (c\<lparr>cn_out := cn_out c @ tl raw\<rparr>) else None)
      else if cn_is_tls c \<and> cn_left_tls c = -1 then Some (c\<lparr>cn_out := cn_out c @ raw\<rparr>)
      else if \<not> has_flag flags (RPC_F_COMPACT OR RPC_F_MEDIUM) then Some (tcp_rpc_write_packet crc raw c)
      else map_option (\<lambda>f. c\<lparr>cn_out := cn_out c @ f\<rparr>) (compact_frame flags (pad_message flags x y raw)))"

text \<open>Padding at the end of a flush; \<open>needed\<close> is \<open>crypto_needed_output_bytes\<close> of the connection type.\<close>

definition tcp_rpc_flush :: "('k conn \<Rightarrow> int option) \<Rightarrow> 'k conn \<Rightarrow> 'k conn option" where
  "tcp_rpc_flush needed c =
     (if cn_crypto c = None then Some c
      else case needed c of
             None \<Rightarrow> None
           | Some pad_bytes \<Rightarrow>
               if pad_bytes \<le> 0 then Some c
               else if pad_bytes mod 4 \<noteq> 0 \<or> pad_bytes > 12 then None
               else Some (c\<lparr>cn_out := cn_out c @ take (nat pad_bytes) (bytes_le 4 @ bytes_le 4 @ bytes_le 4)\<rparr>))"

definition tcp_rpc_flush_packet :: "('k conn \<Rightarrow> 'k conn option) \<Rightarrow> 'k conn \<Rightarrow> 'k conn option" where
  "tcp_rpc_flush_packet flush c = flush c"

section \<open>Default flags and the limit on handshakes\<close>

definition tcp_set_default_rpc_flags :: "u32 \<Rightarrow> u32 \<Rightarrow> u32 \<Rightarrow> u32" where
  "tcp_set_default_rpc_flags and_flags or_flags default_rpc_flags = (default_rpc_flags AND and_flags) OR or_flags"

text \<open>The limit in the numbers that the doubles stand for.\<close>

record dh_rate =
  dh_remaining :: rat
  dh_time :: rat
  dh_max :: rat

definition tcp_set_max_dh_accept_rate :: "int \<Rightarrow> dh_rate \<Rightarrow> dh_rate" where
  "tcp_set_max_dh_accept_rate rate s = s\<lparr>dh_max := of_int rate\<rparr>"

text \<open>The result is whether 0 is returned.\<close>

definition tcp_add_dh_accept :: "rat \<Rightarrow> dh_rate \<Rightarrow> bool \<times> dh_rate" where
  "tcp_add_dh_accept precise_now s =
     (if dh_max s \<noteq> 0 then
        let r1 = dh_remaining s + (precise_now - dh_time s) * dh_max s;
            r2 = (if r1 > dh_max s then dh_max s else r1);
            s1 = s\<lparr>dh_remaining := r2, dh_time := precise_now\<rparr>
        in if r2 < 1 then (False, s1) else (True, s1\<lparr>dh_remaining := r2 - 1\<rparr>)
      else (True, s))"

end
