(* ===== verification/RPC_Server.thy ===== *)
theory RPC_Server
  imports RPC_Common
begin

text \<open>
  The inner RPC server (\<open>net/net-tcp-rpc-server.c\<close>): a connection begins with a nonce packet that
  chooses the encryption and a handshake packet that names the two processes, and then carries
  numbered packets with checksums.
\<close>

section \<open>Environment and state\<close>

text \<open>
  \<open>sv_keys\<close> stands for \<open>aes_create_keys\<close> and \<open>aes_crypto_init\<close> with the two nonces, the time and the
  shared Diffie-Hellman value; \<open>sv_dh_prime\<close> are the first eight bytes of the prime, and \<open>sv_dh\<close> the
  modular powers of \<open>dh_second_round\<close>.  \<open>sv_http\<close> is the connection type for HTTP, if there is one.
\<close>

type_synonym ('w, 'k) handler = "'w \<Rightarrow> 'k conn \<Rightarrow> ('w \<times> 'k conn \<times> int) option"

record ('w, 'k) srv_env =
  sv_crc :: crc_fun
  sv_now :: int
  sv_precise_now :: rat
  sv_getpid :: int
  sv_my_ipv4 :: u32
  sv_secret_len :: nat
  sv_key_signature :: u32
  sv_dh_init :: u32
  sv_dh_prime :: "byte list"
  sv_dh :: "byte list \<Rightarrow> byte list \<times> byte list"
  sv_nonce :: "byte list"
  sv_keys :: "byte list \<Rightarrow> byte list \<Rightarrow> u32 \<Rightarrow> byte list \<Rightarrow> ('k \<times> 'k) option"
  sv_check_perm :: "u32 option"
  sv_default_flags :: u32
  sv_ignore_pid :: bool
  sv_max_packet_len :: int
  sv_execute :: "u32 \<Rightarrow> byte list \<Rightarrow> ('w, 'k) handler"
  sv_http :: "(('w, 'k) handler \<times> ('w, 'k) handler) option"

datatype notification = Ready | Wakeup | Alarm | Closed

text \<open>The state of the process: the rest of it is \<open>sw_rest\<close>.\<close>

record 'w srv =
  sw_pid :: process_id
  sw_dh_select :: u32
  sw_dh_rate :: dh_rate
  sw_active_dh :: int
  sw_notifications :: "notification list"
  sw_rest :: 'w

abbreviation notify :: "notification \<Rightarrow> 'w srv \<Rightarrow> 'w srv" where
  "notify n w \<equiv> w\<lparr>sw_notifications := sw_notifications w @ [n]\<rparr>"

section \<open>Keys\<close>

text \<open>\<open>select_best_key_signature\<close> of \<open>net/net-config.c\<close>; at most sixteen extra keys are allowed.\<close>

definition select_best_key_signature :: "nat \<Rightarrow> u32 \<Rightarrow> u32 \<Rightarrow> u32 list \<Rightarrow> u32 option" where
  "select_best_key_signature secret_len main_key key_signature extra =
     (if length extra > 16 then None
      else if secret_len < 4 then Some 0
      else if main_key = key_signature \<or> main_key \<in> set extra then Some main_key
      else Some 0)"

text \<open>\<open>is_good_rpc_dh_bin\<close> of \<open>net/net-crypto-dh.c\<close>: the first eight bytes, against those of the prime.\<close>

fun dh_less :: "byte list \<Rightarrow> byte list \<Rightarrow> bool" where
  "dh_less (d # ds) (p # ps) = (if d > p then False else if d < p then True else dh_less ds ps)"
| "dh_less _ _ = False"

definition is_good_rpc_dh_bin :: "byte list \<Rightarrow> byte list \<Rightarrow> bool" where
  "is_good_rpc_dh_bin prime data \<longleftrightarrow> (\<exists>b \<in> set (take 8 data). b \<noteq> 0) \<and> dh_less (take 8 data) (take 8 prime)"

text \<open>Its own value, the shared value, and the length returned.\<close>

definition dh_second_round :: "('w, 'k) srv_env \<Rightarrow> byte list \<Rightarrow> byte list \<times> byte list \<times> nat" where
  "dh_second_round env g_b =
     (if is_good_rpc_dh_bin (sv_dh_prime env) g_b then (fst (sv_dh env g_b), snd (sv_dh env g_b), 256) else ([], [], 0))"

section \<open>The nonce packet\<close>

text \<open>The integer at an offset of a packet.\<close>

definition int_at :: "byte list \<Rightarrow> nat \<Rightarrow> u32" where
  "int_at P off = le32 (drop off P)"

definition RPC_MAX_EXTRA_KEYS :: nat where
  "RPC_MAX_EXTRA_KEYS = 8"

text \<open>The lengths of the three structures: 32, 68 and 328 bytes; the first switch checks them.\<close>

definition extra_count :: "byte list \<Rightarrow> int" where
  "extra_count P = sint (int_at P 32)"

definition nonce_length_ok :: "byte list \<Rightarrow> bool" where
  "nonce_length_ok P =
     (let len = length P; schema = int_at P 8;
          counted = (\<lambda>full. len \<ge> full - 4 * RPC_MAX_EXTRA_KEYS \<and> 0 \<le> extra_count P \<and> extra_count P \<le> int RPC_MAX_EXTRA_KEYS
                          \<and> int len = int full + 4 * (extra_count P - int RPC_MAX_EXTRA_KEYS))
      in if schema = 0 \<or> schema = 1 then len = 32
         else if schema = 2 then counted 68
         else if schema = 3 then counted 328
         else False)"

definition extra_keys :: "byte list \<Rightarrow> u32 list" where
  "extra_keys P = map (\<lambda>i. int_at P (36 + 4 * i)) [0..<nat (extra_count P)]"

text \<open>\<open>dh->dh_params_select\<close> and \<open>dh->g_a\<close>, behind the keys that are there.\<close>

definition dh_params_of :: "byte list \<Rightarrow> u32" where
  "dh_params_of P = int_at P (36 + 4 * nat (extra_count P))"

definition g_a_of :: "byte list \<Rightarrow> byte list" where
  "g_a_of P = take 256 (drop (40 + 4 * nat (extra_count P)) P)"

definition c_abs :: "int \<Rightarrow> int" where
  "c_abs x = i32 \<bar>x\<bar>"

text \<open>
  The second switch: an error code and the nonce time, or the new flags, the key chosen, the new nonce time, and whether
  Diffie-Hellman is possible.  \<open>None\<close> is a failed assertion.
\<close>

definition choose_crypto ::
    "('w, 'k) srv_env \<Rightarrow> u32 \<Rightarrow> u32 \<Rightarrow> int \<Rightarrow> byte list \<Rightarrow> (int \<times> int + u32 \<times> u32 \<times> int \<times> bool) option" where
  "choose_crypto env dh_select flags nonce_time P =
     (let schema = int_at P 8; key0 = int_at P 4; unenc = has_flag flags RPCF_ALLOW_UNENC;
          best = select_best_key_signature (sv_secret_len env) (sv_key_signature env);
          dh = (schema = 3 \<and> dh_params_of P \<noteq> 0 \<and> dh_params_of P = dh_select) in
      if schema = 0 then
        Some (if key0 \<noteq> 0 then Inl (-3, nonce_time) else if unenc then Inr (RPCF_ALLOW_UNENC, key0, nonce_time, False) else Inl (-5, nonce_time))
      else do {
        key \<leftarrow> (if schema = 2 \<or> schema = 3 then best key0 (extra_keys P) else Some key0);
        known \<leftarrow> best key [];
        Some (if key = 0 \<or> known = 0 then
                (if unenc then Inr (RPCF_ALLOW_UNENC, key, nonce_time, dh) else Inl (-3, nonce_time))
              else if \<not> has_flag flags RPCF_ALLOW_ENC then
                (if unenc then Inr (RPCF_ALLOW_UNENC, key, nonce_time, dh) else Inl (-5, nonce_time))
              else if c_abs (i32 (sint (int_at P 12) - sv_now env)) > 30 then Inl (-6, sv_now env)
              else Inr (flags AND NOT RPCF_ALLOW_UNENC, key, sv_now env, dh))
      })"

definition tcp_rpcs_init_fake_crypto :: "('w, 'k) srv_env \<Rightarrow> 'k conn \<Rightarrow> ('k conn \<times> int) option" where
  "tcp_rpcs_init_fake_crypto env c =
     (let flags = td_crypto_flags (cn_data c) in
      if \<not> has_flag flags RPCF_ALLOW_UNENC then Some (c, -1)
      else if has_flag flags (RPCF_ALLOW_ENC OR RPCF_ENC_SENT) then None
      else map_option (\<lambda>c. (c, 1))
             (tcp_rpc_conn_send_data_init (sv_crc env) (bytes_le RPC_NONCE @ replicate 28 0)
               (set_data (\<lambda>d. d\<lparr>td_crypto_flags := flags OR RPCF_ENC_SENT\<rparr>) c)))"

text \<open>
  The Diffie-Hellman part of \<open>tcp_rpcs_init_crypto\<close>: its result is negative for a refusal, else it comes
  with the proxy's own value and the shared one.
\<close>

definition accept_dh ::
    "('w, 'k) srv_env \<Rightarrow> byte list \<Rightarrow> 'w srv \<Rightarrow> 'k conn \<Rightarrow> ('w srv \<times> 'k conn \<times> int \<times> byte list \<times> byte list) option" where
  "accept_dh env P w c =
     (if int_at P 8 \<noteq> 3 then Some (w, c, -1, [], [])
      else if dh_params_of P \<noteq> sw_dh_select w \<or> sw_dh_select w = 0 then Some (w, c, -1, [], [])
      else case tcp_add_dh_accept (sv_precise_now env) (sw_dh_rate w) of
        (False, rate) \<Rightarrow> Some (w\<lparr>sw_dh_rate := rate\<rparr>, c, -1, [], [])
      | (True, rate) \<Rightarrow>
          (case dh_second_round env (g_a_of P) of
             (g_a, shared, len) \<Rightarrow>
               if len \<noteq> 256 then None
               else Some (w\<lparr>sw_dh_rate := rate, sw_active_dh := sw_active_dh w + 1\<rparr>, c\<lparr>cn_is_dh := True\<rparr>, 0, g_a, shared)))"

text \<open>Making the keys and answering with a nonce packet.\<close>

definition answer_nonce ::
    "('w, 'k) srv_env \<Rightarrow> byte list \<Rightarrow> u32 \<Rightarrow> byte list \<Rightarrow> byte list \<Rightarrow> u32 \<Rightarrow> 'k conn \<Rightarrow> ('k conn \<times> int) option" where
  "answer_nonce env P flags g_a temp_dh dh_select c =
     (let c = set_data (\<lambda>d. d\<lparr>td_nonce := sv_nonce env\<rparr>) c in
      case sv_keys env (sv_nonce env) (take 16 (drop 16 P)) (int_at P 12) temp_dh of
        None \<Rightarrow> Some (c, -1)
      | Some keys \<Rightarrow>
          let c = c\<lparr>cn_crypto := Some keys\<rparr>; dh = has_flag flags RPCF_REQ_DH;
              buf = bytes_le RPC_NONCE @ bytes_le (sv_key_signature env) @ bytes_le (if dh then 3 else 1)
                    @ bytes_le (of_int (td_nonce_time (cn_data c))) @ sv_nonce env
                    @ (if dh then bytes_le 0 @ bytes_le dh_select @ g_a else [])
          in if flags AND (RPCF_ALLOW_ENC OR RPCF_ENC_SENT) \<noteq> RPCF_ALLOW_ENC then None
             else map_option (\<lambda>c. (c, 1))
                    (tcp_rpc_conn_send_data_init (sv_crc env) buf
                      (set_data (\<lambda>d. d\<lparr>td_crypto_flags := flags OR RPCF_ENC_SENT\<rparr>) c)))"

definition tcp_rpcs_init_crypto ::
    "('w, 'k) srv_env \<Rightarrow> byte list \<Rightarrow> u32 \<Rightarrow> 'w srv \<Rightarrow> 'k conn \<Rightarrow> ('w srv \<times> 'k conn \<times> int) option" where
  "tcp_rpcs_init_crypto env P key w c =
     (let flags = td_crypto_flags (cn_data c); both = flags AND (RPCF_ALLOW_ENC OR RPCF_ALLOW_UNENC) in
      if cn_crypto c \<noteq> None then Some (w, c, -1)
      else if both = RPCF_ALLOW_UNENC then map_option (\<lambda>(c, r). (w, c, r)) (tcp_rpcs_init_fake_crypto env c)
      else if both \<noteq> RPCF_ALLOW_ENC then Some (w, c, -1)
      else if sv_key_signature env \<noteq> key then Some (w, c, -1)
      else do {
        (w, c, r, g_a, temp_dh) \<leftarrow> (if has_flag flags RPCF_REQ_DH then accept_dh env P w c else Some (w, c, 0, [], []));
        if r < 0 then Some (w, c, r)
        else map_option (\<lambda>(c, r). (w, c, r)) (answer_nonce env P flags g_a temp_dh (sw_dh_select w) c)
      })"

definition tcp_rpcs_process_nonce_packet ::
    "('w, 'k) srv_env \<Rightarrow> byte list \<Rightarrow> 'w srv \<Rightarrow> 'k conn \<Rightarrow> ('w srv \<times> 'k conn \<times> int) option" where
  "tcp_rpcs_process_nonce_packet env P w c =
     (if td_in_packet_num (cn_data c) \<noteq> -2 \<or> int_at P 0 \<noteq> RPC_NONCE then Some (w, c, -2)
      else if length P < 32 \<or> length P > 328 then Some (w, c, -3)
      else if \<not> nonce_length_ok P then Some (w, c, -3)
      else let w = (if int_at P 8 = 3 \<and> sw_dh_select w = 0 then w\<lparr>sw_dh_select := sv_dh_init env\<rparr> else w) in do {
        choice \<leftarrow> choose_crypto env (sw_dh_select w) (td_crypto_flags (cn_data c)) (td_nonce_time (cn_data c)) P;
        case choice of
          Inl (err, nonce_time) \<Rightarrow> Some (w, set_data (\<lambda>d. d\<lparr>td_nonce_time := nonce_time\<rparr>) c, err)
        | Inr (flags, key, nonce_time, dh) \<Rightarrow>
            let c = set_data (\<lambda>d. d\<lparr>td_crypto_flags := flags, td_nonce_time := nonce_time\<rparr>) c;
                need_dh = (flags AND (RPCF_REQ_DH OR RPCF_ALLOW_ENC) = RPCF_REQ_DH OR RPCF_ALLOW_ENC \<and> \<not> dh) in
            if need_dh \<and> \<not> has_flag flags RPCF_ALLOW_SKIP_DH then Some (w, c, -7)
            else let c = (if need_dh then set_data (\<lambda>d. d\<lparr>td_crypto_flags := flags AND NOT (RPCF_REQ_DH OR RPCF_ALLOW_SKIP_DH)\<rparr>) c
                          else c) in do {
              (w, c, res) \<leftarrow> tcp_rpcs_init_crypto env P key w c;
              Some (w, c, if res < 0 then -6 else 0)
            }
      })"

section \<open>The handshake packet\<close>

definition tcp_rpcs_send_handshake_packet :: "('w, 'k) srv_env \<Rightarrow> 'w srv \<Rightarrow> 'k conn \<Rightarrow> ('k conn \<times> int) option" where
  "tcp_rpcs_send_handshake_packet env w c =
     (if pid_ip (sw_pid w) = 0 then None
      else map_option (\<lambda>c. (c, 0)) (tcp_rpc_conn_send_data_im (sv_crc env)
             (bytes_le RPC_HANDSHAKE @ bytes_le (td_crypto_flags (cn_data c) AND RPCF_USE_CRC32C)
              @ pid_bytes (sw_pid w) @ pid_bytes (td_remote_pid (cn_data c))) c))"

definition tcp_rpcs_send_handshake_error_packet :: "'w srv \<Rightarrow> int \<Rightarrow> 'k conn \<Rightarrow> 'k conn option" where
  "tcp_rpcs_send_handshake_error_packet w error_code c =
     (if pid_pid (sw_pid w) = 0 then None
      else tcp_rpc_conn_send_data (bytes_le RPC_HANDSHAKE_ERROR @ bytes_le (of_int error_code) @ pid_bytes (sw_pid w)) c)"

definition tcp_rpcs_process_handshake_packet ::
    "('w, 'k) srv_env \<Rightarrow> byte list \<Rightarrow> 'w srv \<Rightarrow> 'k conn \<Rightarrow> ('w srv \<times> 'k conn \<times> int) option" where
  "tcp_rpcs_process_handshake_packet env P w c =
     (let w = (if pid_ip (sw_pid w) = 0 then
                 (let pid = init_server_PID (sv_getpid env) (of_int (sv_now env)) (cn_our_ip c) (of_int (cn_our_port c)) (sw_pid w)
                  in w\<lparr>sw_pid := (if pid_ip pid = 0 then pid\<lparr>pid_ip := sv_my_ipv4 env\<rparr> else pid)\<rparr>)
               else w);
          refuse = (\<lambda>c code. map_option (\<lambda>c. (w, c, code)) (tcp_rpcs_send_handshake_error_packet w code c)) in
      if td_in_packet_num (cn_data c) \<noteq> -1 \<or> int_at P 0 \<noteq> RPC_HANDSHAKE then Some (w, c, -2)
      else if length P \<noteq> 32 then refuse c (-3)
      else let c = set_data (\<lambda>d. d\<lparr>td_remote_pid := pid_of_bytes (drop 8 P)\<rparr>) c in
        if matches_pid (sw_pid w) (pid_of_bytes (drop 20 P)) = 0 \<and> \<not> sv_ignore_pid env then refuse c (-4)
        else if has_flag (int_at P 4) 0xff then refuse c (-7)
        else Some (w, if has_flag (int_at P 4) (sv_default_flags env AND RPCF_USE_CRC32C)
                      then set_data (\<lambda>d. d\<lparr>td_crypto_flags := td_crypto_flags d OR RPCF_USE_CRC32C\<rparr>) c else c, 0))"

section \<open>Packets\<close>

definition tcp_rpcs_default_execute :: "rat \<Rightarrow> u32 \<Rightarrow> byte list \<Rightarrow> 'k conn \<Rightarrow> ('k conn \<times> int) option" where
  "tcp_rpcs_default_execute t op raw c =
     (if op = RPC_PING \<and> length raw = 12
      then map_option (\<lambda>c. (c, 0)) (tcp_rpc_conn_send_data (bytes_le RPC_PONG @ drop 4 raw) (c\<lparr>cn_last_response := t\<rparr>))
      else Some (c, 0))"

text \<open>The two kinds of packets with a checksum that fits: \<open>num\<close> is its number, \<open>msg\<close> starts with its type.\<close>

datatype step_end = Return int | Again

definition own_packet :: "('w, 'k) srv_env \<Rightarrow> int \<Rightarrow> byte list \<Rightarrow> 'w srv \<Rightarrow> 'k conn \<Rightarrow> ('w srv \<times> 'k conn \<times> int) option" where
  "own_packet env num msg w c =
     (if num = -2 then tcp_rpcs_process_nonce_packet env msg w c
      else if num = -1 then do {
        (w, c, res) \<leftarrow> tcp_rpcs_process_handshake_packet env msg w c;
        if res < 0 then Some (w, c, res)
        else do {
          (c, res) \<leftarrow> tcp_rpcs_send_handshake_packet env w c;
          Some (notify Ready w,
                if has_flag (td_crypto_flags (cn_data c)) RPCF_USE_CRC32C then set_data (\<lambda>d. d\<lparr>td_crc32c := True\<rparr>) c else c, res)
        }
      }
      else Some (w, c, -1))"

definition user_packet :: "('w, 'k) srv_env \<Rightarrow> byte list \<Rightarrow> 'w srv \<Rightarrow> 'k conn \<Rightarrow> ('w srv \<times> 'k conn) option" where
  "user_packet env msg w c =
     (let c = c\<lparr>cn_last_response := sv_precise_now env\<rparr> in
      if int_at msg 0 = RPC_PING
      then map_option (\<lambda>(c, r). (w, c)) (tcp_rpcs_default_execute (sv_precise_now env) (int_at msg 0) msg c)
      else map_option (\<lambda>(rest, c, r). (w\<lparr>sw_rest := rest\<rparr>, c)) (sv_execute env (int_at msg 0) msg (sw_rest w) c))"

text \<open>The number is an \<open>int\<close>, which wraps around (the program is compiled with \<open>-fwrapv\<close>).\<close>

definition count_in :: "rpc_data \<Rightarrow> rpc_data" where
  "count_in d = d\<lparr>td_in_packet_num := i32 (td_in_packet_num d + 1)\<rparr>"

text \<open>The four words with which HTTP requests start.\<close>

definition http_words :: "u32 list" where
  "http_words = map le32 [[0x48, 0x45, 0x41, 0x44], [0x50, 0x4f, 0x53, 0x54], [0x47, 0x45, 0x54, 0x20], [0x4f, 0x50, 0x54, 0x49]]"

definition to_http :: "('w, 'k) srv_env \<Rightarrow> 'w srv \<Rightarrow> 'k conn \<Rightarrow> ('w srv \<times> 'k conn \<times> int) option" where
  "to_http env w c =
     (case sv_http env of
        None \<Rightarrow> None
      | Some (init, parse) \<Rightarrow> do {
          (rest, c, r) \<leftarrow> init (sw_rest w) (c\<lparr>cn_data := zero_data, cn_kind := Kind_Http\<rparr>);
          if r < 0 then Some (w\<lparr>sw_rest := rest\<rparr>, fail_connection (-33) c, 0)
          else do { (rest, c, r) \<leftarrow> parse rest c; Some (w\<lparr>sw_rest := rest\<rparr>, c, r) }
        })"

text \<open>One packet whose length is good and which has arrived.\<close>

definition whole_packet :: "('w, 'k) srv_env \<Rightarrow> nat \<Rightarrow> 'w srv \<Rightarrow> 'k conn \<Rightarrow> ('w srv \<times> 'k conn \<times> step_end) option" where
  "whole_packet env n w c =
     (let msg = take n (cn_in c); c = c\<lparr>cn_in := drop n (cn_in c)\<rparr>; body = take (n - 4) msg; crc32 = le32 (drop (n - 4) msg);
          d = cn_data c in
      if crc32 \<noteq> sv_crc env (td_crc32c d) body then Some (w, fail_connection (-1) c, Return 0)
      else let num = sint (int_at body 4); msg = drop 8 body;
               c = (if td_in_packet_num d = -3 then set_data (\<lambda>d. d\<lparr>td_in_packet_num := 0\<rparr>) c else c) in
        if \<not> has_flag (td_crypto_flags d) RPCF_SEQNO_HOLES \<and> num \<noteq> td_in_packet_num (cn_data c)
        then Some (w, fail_connection (-1) c, Return 0)
        else if num < 0 then do {
          (w, c, res) \<leftarrow> own_packet env num msg w c;
          Some (if res < 0 then (w, fail_connection res c, Return 0) else (w, set_data count_in c, Again))
        }
        else do { (w, c) \<leftarrow> user_packet env msg w c; Some (w, set_data count_in c, Again) })"

text \<open>The packet at the start of \<open>c->in\<close>, whose first word is \<open>packet_len\<close>.\<close>

definition packet_step :: "('w, 'k) srv_env \<Rightarrow> u32 \<Rightarrow> 'w srv \<Rightarrow> 'k conn \<Rightarrow> ('w srv \<times> 'k conn \<times> step_end) option" where
  "packet_step env packet_len w c =
     (let n = sint packet_len; len = int (length (cn_in c)) in
      if n \<le> 0 \<or> has_flag packet_len 0xc0000003 then
        (if td_in_packet_num (cn_data c) \<le> -2 \<and> packet_len \<in> set http_words \<and> sv_http env \<noteq> None
         then map_option (\<lambda>(w, c, r). (w, c, Return r)) (to_http env w c)
         else Some (w, fail_connection (-1) c, Return 0))
      else if n > sv_max_packet_len env \<and> sv_max_packet_len env > 0 then Some (w, fail_connection (-1) c, Return 0)
      else if n = 4 then Some (w, c\<lparr>cn_in := drop 4 (cn_in c)\<rparr>, Again)
      else if n < 16 then Some (w, fail_connection (-1) c, Return 0)
      else if len < n then Some (w, c, Return (n - len))
      else whole_packet env (nat n) w c)"

text \<open>One turn of the loop in \<open>tcp_rpcs_parse_execute\<close>.\<close>

definition parse_step :: "('w, 'k) srv_env \<Rightarrow> 'w srv \<Rightarrow> 'k conn \<Rightarrow> ('w srv \<times> 'k conn \<times> step_end) option" where
  "parse_step env w c =
     (let len = int (length (cn_in c)); raw = le32 (cn_in c) in
      if cn_error_flag c \<or> cn_stopparse c \<or> len \<le> 0 then Some (w, c, Return NEED_MORE_BYTES)
      else if len < 4 then Some (w, c, Return (4 - len))
      else if has_flag (td_crypto_flags (cn_data c)) RPCF_QUICKACK
      then packet_step env (raw AND NOT RPC_F_QUICKACK) w
             (set_data (\<lambda>d. d\<lparr>td_flags := (td_flags d AND NOT RPC_F_QUICKACK) OR (raw AND RPC_F_QUICKACK)\<rparr>) c)
      else packet_step env raw w c)"

partial_function (option) tcp_rpcs_parse_execute ::
    "('w, 'k) srv_env \<Rightarrow> 'w srv \<Rightarrow> 'k conn \<Rightarrow> ('w srv \<times> 'k conn \<times> int) option" where
  "tcp_rpcs_parse_execute env w c =
     Option.bind (parse_step env w c) (\<lambda>(w, c, e).
       case e of Return r \<Rightarrow> Some (w, c, r) | Again \<Rightarrow> tcp_rpcs_parse_execute env w c)"

declare tcp_rpcs_parse_execute.simps [code]

section \<open>The other operations of the connection type\<close>

definition tcp_rpcs_wakeup :: "'w srv \<Rightarrow> 'k conn \<Rightarrow> 'w srv \<times> 'k conn" where
  "tcp_rpcs_wakeup w c =
     (notify Wakeup w, (if cn_out_p c \<noteq> [] then c\<lparr>cn_wantwr := True\<rparr> else c)\<lparr>cn_pending_queries := 0\<rparr>)"

definition tcp_rpcs_alarm :: "'w srv \<Rightarrow> 'k conn \<Rightarrow> 'w srv \<times> 'k conn" where
  "tcp_rpcs_alarm w c =
     (notify Alarm w, (if cn_out_p c \<noteq> [] then c\<lparr>cn_wantwr := True\<rparr> else c)\<lparr>cn_pending_queries := 0\<rparr>)"

text \<open>\<open>has_close\<close> is whether the functions have \<open>rpc_close\<close>, \<open>close\<close> is \<open>cpu_server_close_connection\<close>.\<close>

definition tcp_rpcs_close_connection :: "bool \<Rightarrow> ('k conn \<Rightarrow> 'k conn) \<Rightarrow> 'w srv \<Rightarrow> 'k conn \<Rightarrow> 'w srv \<times> 'k conn" where
  "tcp_rpcs_close_connection has_close close w c = ((if has_close then notify Closed w else w), close c)"

definition tcp_rpcs_do_wakeup :: "'k conn \<Rightarrow> int" where
  "tcp_rpcs_do_wakeup c = 0"

definition tcp_rpcs_default_check_perm :: "u32 \<Rightarrow> u32" where
  "tcp_rpcs_default_check_perm default_flags = RPCF_ALLOW_ENC OR RPCF_REQ_DH OR default_flags"

definition tcp_rpcs_init_accepted :: "('w, 'k) srv_env \<Rightarrow> 'k conn \<Rightarrow> 'k conn \<times> int" where
  "tcp_rpcs_init_accepted env c =
     (let c = set_data (\<lambda>d. d\<lparr>td_crc32c := False\<rparr>) c;
          start = (\<lambda>flags. (set_data (\<lambda>d. d\<lparr>td_crypto_flags := flags, td_in_packet_num := -2, td_out_packet_num := -2\<rparr>) c, 0)) in
      case sv_check_perm env of
        None \<Rightarrow> start RPCF_ALLOW_UNENC
      | Some res \<Rightarrow>
          if sint res < 0 then (c, sint res)
          else let res = res AND (RPCF_ALLOW_UNENC OR RPCF_ALLOW_ENC OR RPCF_REQ_DH OR RPCF_ALLOW_SKIP_DH) in
            if \<not> has_flag res (RPCF_ALLOW_UNENC OR RPCF_ALLOW_ENC) then (c, -1) else start res)"

definition tcp_rpcs_init_accepted_nohs :: "bool \<Rightarrow> 'w srv \<Rightarrow> 'k conn \<Rightarrow> 'w srv \<times> 'k conn" where
  "tcp_rpcs_init_accepted_nohs has_ready w c =
     (if has_ready then notify Ready w else w,
      set_data (\<lambda>d. d\<lparr>td_crypto_flags := RPCF_QUICKACK OR RPCF_ALLOW_UNENC, td_in_packet_num := -3, td_crc32c := False\<rparr>) c)"

end
