(* ===== verification/Replay_Cache.thy ===== *)
theory Replay_Cache
  imports MT_Prelude "HOL-Library.Monad_Syntax"
begin

text \<open>
  The memory of the random values of past clients (\<open>net/net-tcp-rpc-ext-server.c\<close>): a list in the order
  of time and a hash table over the same entries, with the removal of old entries and the rule
  that decides on the time stamp of a client.
\<close>

section \<open>The two lists\<close>

text \<open>\<open>cr_ptr\<close> is the address of the entry.\<close>

record client_random =
  cr_ptr :: nat
  cr_random :: "byte list"
  cr_time :: int

definition RANDOM_HASH_BITS :: nat where
  "RANDOM_HASH_BITS = 14"

text \<open>
  \<open>rc_by_time\<close> is the list from \<open>first_client_random\<close> to \<open>last_client_random\<close>, \<open>rc_buckets\<close> the table
  \<open>client_randoms\<close> with the lists by \<open>next_by_hash\<close>, \<open>rc_next\<close> the address of the next entry.
\<close>

record random_cache =
  rc_by_time :: "client_random list"
  rc_buckets :: "nat \<Rightarrow> client_random list"
  rc_next :: nat

definition empty_cache :: random_cache where
  "empty_cache = \<lparr>rc_by_time = [], rc_buckets = (\<lambda>_. []), rc_next = 0\<rparr>"

fun bucket_loop :: "nat \<Rightarrow> nat \<Rightarrow> nat \<Rightarrow> byte list \<Rightarrow> nat" where
  "bucket_loop i pos n rnd =
     (if 0 < i then
        let bits = (if i < 8 then i else 8)
        in bucket_loop (i - bits) (pos + 1) (push_bit bits n OR (unat (rnd ! pos) AND (push_bit bits 1 - 1))) rnd
      else n)"

declare bucket_loop.simps [simp del]

definition get_client_random_bucket :: "byte list \<Rightarrow> nat" where
  "get_client_random_bucket rnd = bucket_loop RANDOM_HASH_BITS 0 0 rnd"

definition have_client_random :: "byte list \<Rightarrow> random_cache \<Rightarrow> bool" where
  "have_client_random rnd c \<longleftrightarrow>
     (\<exists>cur \<in> set (rc_buckets c (get_client_random_bucket rnd)). take 16 rnd = cr_random cur)"

definition add_client_random :: "int \<Rightarrow> byte list \<Rightarrow> random_cache \<Rightarrow> random_cache" where
  "add_client_random now rnd c =
     (let e = \<lparr>cr_ptr = rc_next c, cr_random = take 16 rnd, cr_time = now\<rparr>; b = get_client_random_bucket rnd
      in c\<lparr>rc_by_time := rc_by_time c @ [e], rc_buckets := (rc_buckets c)(b := e # rc_buckets c b), rc_next := rc_next c + 1\<rparr>)"

definition MAX_CLIENT_RANDOM_CACHE_TIME :: int where
  "MAX_CLIENT_RANDOM_CACHE_TIME = 2 * 86400"

text \<open>
  Unlinking an entry from its bucket: the entry must be the last one (the assertion on \<open>next_by_hash\<close>),
  and it must be in the list, behind which the source would run off its end.
\<close>

definition unlink_by_hash :: "client_random \<Rightarrow> random_cache \<Rightarrow> random_cache option" where
  "unlink_by_hash entry c =
     (let b = get_client_random_bucket (cr_random entry) in
      case find_index (\<lambda>e. cr_ptr e = cr_ptr entry) (rc_buckets c b) of
        None \<Rightarrow> None
      | Some i \<Rightarrow> if drop (i + 1) (rc_buckets c b) \<noteq> [] then None
                  else Some (c\<lparr>rc_buckets := (rc_buckets c)(b := take i (rc_buckets c b))\<rparr>))"

fun delete_loop :: "int \<Rightarrow> client_random list \<Rightarrow> random_cache \<Rightarrow> random_cache option" where
  "delete_loop now (entry # e2 # es) c =
     (if cr_time entry > now - MAX_CLIENT_RANDOM_CACHE_TIME then Some (c\<lparr>rc_by_time := entry # e2 # es\<rparr>)
      else do { c' \<leftarrow> unlink_by_hash entry c; delete_loop now (e2 # es) c' })"
| "delete_loop now es c = Some (c\<lparr>rc_by_time := es\<rparr>)"

definition delete_old_client_randoms :: "int \<Rightarrow> random_cache \<Rightarrow> random_cache option" where
  "delete_old_client_randoms now c = delete_loop now (rc_by_time c) c"

definition first_time :: "random_cache \<Rightarrow> int option" where
  "first_time c = (case rc_by_time c of [] \<Rightarrow> None | e # _ \<Rightarrow> Some (cr_time e))"

definition MAX_ALLOWED_TIMESTAMP_ERROR :: int where
  "MAX_ALLOWED_TIMESTAMP_ERROR = 10 * 60"

definition is_allowed_timestamp :: "int \<Rightarrow> int option \<Rightarrow> int \<Rightarrow> bool" where
  "is_allowed_timestamp now first timestamp =
     (if timestamp > now + 3 then False
      else if (case first of None \<Rightarrow> False | Some t \<Rightarrow> timestamp > t + 3) then True
      else timestamp > now - MAX_ALLOWED_TIMESTAMP_ERROR)"

text \<open>
  What a ClientHello meets: refused when its random value is known, else remembered, and old values
  forgotten.
\<close>

definition remember_client :: "int \<Rightarrow> byte list \<Rightarrow> random_cache \<Rightarrow> random_cache option" where
  "remember_client now rnd c = delete_old_client_randoms now (add_client_random now rnd c)"

section \<open>The table agrees with the list\<close>

definition cache_ok :: "random_cache \<Rightarrow> bool" where
  "cache_ok c \<longleftrightarrow>
     (\<forall>b. rc_buckets c b = rev (filter (\<lambda>e. get_client_random_bucket (cr_random e) = b) (rc_by_time c))) \<and>
     distinct (map cr_ptr (rc_by_time c)) \<and> (\<forall>e \<in> set (rc_by_time c). cr_ptr e < rc_next c) \<and>
     sorted (map cr_time (rc_by_time c))"

lemma bucket_loop_rec:
  "0 < i \<Longrightarrow> bucket_loop i pos n rnd =
     (let bits = (if i < 8 then i else 8)
      in bucket_loop (i - bits) (pos + 1) (push_bit bits n OR (unat (rnd ! pos) AND (push_bit bits 1 - 1))) rnd)"
  "bucket_loop 0 pos n rnd = n"
  by (simp_all add: bucket_loop.simps)

lemma get_client_random_bucket_eq:
  "get_client_random_bucket rnd = push_bit 6 (take_bit 8 (unat (rnd ! 0))) OR take_bit 6 (unat (rnd ! 1))"
  by (simp add: get_client_random_bucket_def RANDOM_HASH_BITS_def bucket_loop_rec Let_def take_bit_eq_mask mask_eq_exp_minus_1)

text \<open>The assertion in \<open>get_client_random_bucket\<close>.\<close>

lemma bucket_below: "get_client_random_bucket rnd < 2 ^ RANDOM_HASH_BITS"
proof -
  have "take_bit 14 (get_client_random_bucket rnd) = get_client_random_bucket rnd"
    unfolding get_client_random_bucket_eq by (auto simp: bit_eq_iff bit_simps)
  then show ?thesis by (metis RANDOM_HASH_BITS_def take_bit_nat_less_exp)
qed

lemma bucket_take [simp]: "get_client_random_bucket (take 16 rnd) = get_client_random_bucket rnd"
  by (simp add: get_client_random_bucket_eq)

lemma cache_ok_empty: "cache_ok empty_cache"
  by (simp add: cache_ok_def empty_cache_def)

lemma have_client_random_iff:
  assumes "cache_ok c"
  shows "have_client_random rnd c \<longleftrightarrow> take 16 rnd \<in> cr_random ` set (rc_by_time c)"
proof -
  have "rc_buckets c (get_client_random_bucket rnd) =
      rev (filter (\<lambda>e. get_client_random_bucket (cr_random e) = get_client_random_bucket rnd) (rc_by_time c))"
    using assms by (simp add: cache_ok_def)
  then show ?thesis unfolding have_client_random_def by (auto simp: image_iff) (metis bucket_take)
qed

lemma add_client_random_ok:
  assumes "cache_ok c" "\<forall>e \<in> set (rc_by_time c). cr_time e \<le> now"
  shows "cache_ok (add_client_random now rnd c)"
  using assms by (auto simp: cache_ok_def add_client_random_def Let_def sorted_append intro: less_SucI)

text \<open>The entry unlinked is the oldest, so it is the last of its bucket.\<close>

lemma unlink_oldest:
  assumes "cache_ok (c\<lparr>rc_by_time := entry # es\<rparr>)"
  shows "\<exists>c'. unlink_by_hash entry c = Some c' \<and> cache_ok (c'\<lparr>rc_by_time := es\<rparr>)"
proof -
  let ?b = "get_client_random_bucket (cr_random entry)"
  let ?f = "\<lambda>b. filter (\<lambda>e. get_client_random_bucket (cr_random e) = b) es"
  have bk: "rc_buckets c ?b = rev (?f ?b) @ [entry]" "\<And>b. b \<noteq> ?b \<Longrightarrow> rc_buckets c b = rev (?f b)"
    and d: "cr_ptr entry \<notin> cr_ptr ` set es"
    using assms by (auto simp: cache_ok_def)
  have "find_index (\<lambda>e. cr_ptr e = cr_ptr entry) (xs @ [entry]) = Some (length xs)"
    if "cr_ptr entry \<notin> cr_ptr ` set xs" for xs
    using that by (induction xs) auto
  from this[of "rev (?f ?b)"] have f: "find_index (\<lambda>e. cr_ptr e = cr_ptr entry) (rc_buckets c ?b) = Some (length (?f ?b))"
    using d bk(1) by auto
  let ?c = "c\<lparr>rc_buckets := (rc_buckets c)(?b := rev (?f ?b))\<rparr>"
  have "unlink_by_hash entry c = Some ?c"
    using f bk(1) by (simp add: unlink_by_hash_def Let_def)
  moreover have "cache_ok (?c\<lparr>rc_by_time := es\<rparr>)"
    using assms bk(2) by (auto simp: cache_ok_def)
  ultimately show ?thesis by blast
qed

lemma delete_loop_ok:
  assumes "cache_ok (c\<lparr>rc_by_time := es\<rparr>)"
  shows "\<exists>c' n. delete_loop now es c = Some c' \<and> cache_ok c' \<and> rc_by_time c' = drop n es \<and>
     (\<forall>e \<in> set (take n es). cr_time e + MAX_CLIENT_RANDOM_CACHE_TIME \<le> now) \<and> (n < length es \<or> es = [])"
  using assms
proof (induction now es c rule: delete_loop.induct[case_names two none one])
  case (two now entry e2 es c)
  show ?case
  proof (cases "cr_time entry > now - MAX_CLIENT_RANDOM_CACHE_TIME")
    case True
    then show ?thesis using two.prems by (intro exI[of _ "c\<lparr>rc_by_time := entry # e2 # es\<rparr>"] exI[of _ 0]) simp
  next
    case False
    obtain c1 where c1: "unlink_by_hash entry c = Some c1" "cache_ok (c1\<lparr>rc_by_time := e2 # es\<rparr>)"
      using unlink_oldest[OF two.prems] by blast
    obtain c' n where "delete_loop now (e2 # es) c1 = Some c'" "cache_ok c'" "rc_by_time c' = drop n (e2 # es)"
      "\<forall>e \<in> set (take n (e2 # es)). cr_time e + MAX_CLIENT_RANDOM_CACHE_TIME \<le> now" "n < length (e2 # es)"
      using two.IH[OF False c1] by auto
    then show ?thesis using False c1(1) by (intro exI[of _ c'] exI[of _ "Suc n"]) auto
  qed
next
  case (none now c)
  then show ?case by (intro exI[of _ "c\<lparr>rc_by_time := []\<rparr>"]) simp
next
  case (one now e c)
  then show ?case by (intro exI[of _ "c\<lparr>rc_by_time := [e]\<rparr>"] exI[of _ 0]) simp
qed

text \<open>One ClientHello: the entry is added, and a front part of old entries goes.\<close>

lemma remember_client_ok:
  assumes "cache_ok c" "\<forall>e \<in> set (rc_by_time c). cr_time e \<le> now"
  shows "\<exists>c' e n. remember_client now rnd c = Some c' \<and> cache_ok c' \<and> cr_random e = take 16 rnd \<and> cr_time e = now \<and>
     rc_by_time c' = drop n (rc_by_time c @ [e]) \<and> n < length (rc_by_time c @ [e]) \<and>
     (\<forall>x \<in> set (take n (rc_by_time c @ [e])). cr_time x + MAX_CLIENT_RANDOM_CACHE_TIME \<le> now)"
proof -
  define e where "e = \<lparr>cr_ptr = rc_next c, cr_random = take 16 rnd, cr_time = now\<rparr>"
  let ?c = "add_client_random now rnd c"
  have bt: "rc_by_time ?c = rc_by_time c @ [e]" by (simp add: add_client_random_def Let_def e_def)
  have "?c\<lparr>rc_by_time := rc_by_time ?c\<rparr> = ?c" by simp
  then have "cache_ok (?c\<lparr>rc_by_time := rc_by_time ?c\<rparr>)" using add_client_random_ok[OF assms] by simp
  from delete_loop_ok[OF this, of now] obtain c' n where
    "delete_loop now (rc_by_time ?c) ?c = Some c'" "cache_ok c'" "rc_by_time c' = drop n (rc_by_time ?c)"
    "\<forall>x \<in> set (take n (rc_by_time ?c)). cr_time x + MAX_CLIENT_RANDOM_CACHE_TIME \<le> now" "n < length (rc_by_time ?c)"
    using bt by auto
  moreover have "cr_random e = take 16 rnd" "cr_time e = now" by (simp_all add: e_def)
  ultimately show ?thesis
    unfolding remember_client_def delete_old_client_randoms_def bt by blast
qed

end
