(* ===== verification/Replay_Guard.thy ===== *)
theory Replay_Guard
  imports Replay_Cache
begin

text \<open>
  No ClientHello is accepted twice: the contract of a memory that forgets only old values, the proof
  that the rule on time stamps closes the gap, and its instance for the cache of the proxy.
\<close>

section \<open>One client\<close>

text \<open>
  The decision on a ClientHello in \<open>tcp_rpcs_compact_parse_execute\<close>: \<open>matched\<close> says whether some secret
  gives its HMAC, \<open>ts\<close> is the time stamp in it.
\<close>

definition judge_hello :: "int \<Rightarrow> byte list \<Rightarrow> bool \<Rightarrow> int \<Rightarrow> random_cache \<Rightarrow> (bool \<times> random_cache) option" where
  "judge_hello now rnd matched ts c =
     (if have_client_random rnd c then Some (False, c)
      else do {
        c' \<leftarrow> remember_client now rnd c;
        Some (matched \<and> is_allowed_timestamp now (first_time c') ts, c')
      })"

text \<open>A sequence of clients: the time, the random value, whether a secret matches, the time stamp.\<close>

type_synonym client_event = "int \<times> byte list \<times> bool \<times> int"

fun judge_all :: "client_event list \<Rightarrow> random_cache \<Rightarrow> bool list option" where
  "judge_all [] c = Some []"
| "judge_all ((now, rnd, matched, ts) # es) c =
     do { (a, c') \<leftarrow> judge_hello now rnd matched ts c; as \<leftarrow> judge_all es c'; Some (a # as) }"

section \<open>The contract of the memory\<close>

locale replay_memory =
  fixes inv :: "'s \<Rightarrow> bool" and log :: "'s \<Rightarrow> ('k \<times> int) list" and key :: "'r \<Rightarrow> 'k"
    and known :: "'r \<Rightarrow> 's \<Rightarrow> bool" and remember :: "int \<Rightarrow> 'r \<Rightarrow> 's \<Rightarrow> 's option" and window :: int
  assumes known_iff: "inv s \<Longrightarrow> known r s \<longleftrightarrow> key r \<in> fst ` set (log s)"
    and remembers: "inv s \<Longrightarrow> \<forall>x \<in> set (log s). snd x \<le> now \<Longrightarrow>
      \<exists>s' n. remember now r s = Some s' \<and> inv s' \<and> log s' = drop n (log s @ [(key r, now)]) \<and>
        n < length (log s @ [(key r, now)]) \<and> (\<forall>x \<in> set (take n (log s @ [(key r, now)])). snd x + window \<le> now)"
    and in_order: "inv s \<Longrightarrow> sorted (map snd (log s))"
    and window_large: "MAX_ALLOWED_TIMESTAMP_ERROR + 3 \<le> window"
begin

definition oldest :: "'s \<Rightarrow> int option" where
  "oldest s = (case log s of [] \<Rightarrow> None | x # _ \<Rightarrow> Some (snd x))"

definition judge :: "int \<Rightarrow> 'r \<Rightarrow> bool \<Rightarrow> int \<Rightarrow> 's \<Rightarrow> (bool \<times> 's) option" where
  "judge now r matched ts s =
     (if known r s then Some (False, s)
      else do { s' \<leftarrow> remember now r s; Some (matched \<and> is_allowed_timestamp now (oldest s') ts, s') })"

fun judges :: "(int \<times> 'r \<times> bool \<times> int) list \<Rightarrow> 's \<Rightarrow> bool list option" where
  "judges [] s = Some []"
| "judges ((now, r, matched, ts) # es) s =
     do { (a, s') \<leftarrow> judge now r matched ts s; as \<leftarrow> judges es s'; Some (a # as) }"

definition timely :: "int \<Rightarrow> 's \<Rightarrow> bool" where
  "timely now s \<longleftrightarrow> inv s \<and> (\<forall>x \<in> set (log s). snd x \<le> now)"

text \<open>A value seen at time \<open>t\<close> is remembered, or was forgotten late enough.\<close>

definition seen :: "'k \<Rightarrow> int \<Rightarrow> int \<Rightarrow> 's \<Rightarrow> bool" where
  "seen k t now s \<longleftrightarrow> t \<le> now \<and> ((k, t) \<in> set (log s) \<or> t + window \<le> now \<and> (\<forall>x \<in> set (log s). t \<le> snd x))"

lemma timely_later: "timely now s \<Longrightarrow> now \<le> now' \<Longrightarrow> timely now' s"
  by (force simp: timely_def)

lemma seen_later: "seen k t now s \<Longrightarrow> now \<le> now' \<Longrightarrow> seen k t now' s"
  by (auto simp: seen_def)

text \<open>The step, with all its effects.\<close>

lemma judge_step:
  assumes "timely now s"
  shows "\<exists>a s'. judge now r matched ts s = Some (a, s') \<and> timely now s' \<and> (\<forall>k t. seen k t now s \<longrightarrow> seen k t now s') \<and>
    (a \<longrightarrow> seen (key r) now now s' \<and> ts \<le> now + 3) \<and> (\<forall>t. seen (key r) t now s \<and> ts \<le> t + 3 \<longrightarrow> \<not> a)"
proof (cases "known r s")
  case True
  then show ?thesis using assms by (intro exI[of _ False] exI[of _ s]) (simp add: judge_def)
next
  case False
  let ?l = "log s @ [(key r, now)]"
  have inv: "inv s" and le: "\<forall>x \<in> set (log s). snd x \<le> now" using assms by (auto simp: timely_def)
  obtain s' n where s': "remember now r s = Some s'" "inv s'" "log s' = drop n ?l" "n < length ?l"
    "\<forall>x \<in> set (take n ?l). snd x + window \<le> now"
    using remembers[OF inv le] by blast
  have sub: "set (log s') \<subseteq> set ?l" unfolding s'(3) by (rule set_drop_subset)
  have timely: "timely now s'" using s'(2) sub le by (force simp: timely_def)
  have new: "(key r, now) \<in> set (log s')"
    unfolding s'(3) using s'(4) by (simp add: drop_append)
  have sorted: "sorted (map snd ?l)" using in_order[OF inv] le by (auto simp: sorted_append)
  have keep: "seen k t now s'" if k: "seen k t now s" for k t
  proof (cases "(k, t) \<in> set (log s)")
    case True
    then have "(k, t) \<in> set (take n ?l) \<or> (k, t) \<in> set (drop n ?l)"
      by (metis Un_iff append_take_drop_id set_append)
    moreover have "\<forall>x \<in> set (drop n ?l). t \<le> snd x" if "(k, t) \<in> set (take n ?l)"
    proof -
      have "sorted (map snd (take n ?l) @ map snd (drop n ?l))"
        using sorted by (metis append_take_drop_id map_append)
      then show ?thesis using that unfolding sorted_append by force
    qed
    ultimately show ?thesis using k s'(3,5) by (force simp: seen_def)
  next
    case False
    then have "t + window \<le> now" "\<forall>x \<in> set ?l. t \<le> snd x" "t \<le> now" using k by (auto simp: seen_def)
    then show ?thesis using sub by (auto simp: seen_def)
  qed
  have refuse: "\<not> is_allowed_timestamp now (oldest s') ts" if k: "seen (key r) t now s" and ts: "ts \<le> t + 3" for t
  proof -
    have "(key r, t) \<notin> set (log s)" using False known_iff[OF inv] by force
    then have t: "t + window \<le> now" "\<forall>x \<in> set ?l. t \<le> snd x" using k by (auto simp: seen_def)
    obtain x xs where l: "log s' = x # xs" using new by (cases "log s'") auto
    then have "t \<le> snd x" using t(2) sub by auto
    then show ?thesis using t(1) ts l window_large by (simp add: is_allowed_timestamp_def oldest_def)
  qed
  let ?a = "matched \<and> is_allowed_timestamp now (oldest s') ts"
  have "judge now r matched ts s = Some (?a, s')" using False s'(1) by (simp add: judge_def)
  moreover have "?a \<longrightarrow> ts \<le> now + 3" by (simp add: is_allowed_timestamp_def)
  moreover have "seen (key r) now now s'" using new by (simp add: seen_def)
  ultimately show ?thesis using timely keep refuse by blast
qed

lemma judges_length: "judges es s = Some as \<Longrightarrow> length as = length es"
  by (induction es s arbitrary: as rule: judges.induct) (auto simp: bind_eq_Some_conv)

lemma judges_total:
  assumes "timely t0 s" "sorted (t0 # map fst es)"
  shows "\<exists>as. judges es s = Some as"
  using assms
proof (induction es arbitrary: t0 s)
  case (Cons e es)
  obtain now r matched ts where e: "e = (now, r, matched, ts)" by (metis prod.collapse)
  have "timely now s" using Cons.prems timely_later unfolding e by auto
  from judge_step[OF this] obtain a s' where j: "judge now r matched ts s = Some (a, s')" "timely now s'" by blast
  moreover have "sorted (now # map fst es)" using Cons.prems(2) by (simp add: e)
  ultimately show ?case using Cons.IH[of now s'] by (auto simp: e)
qed simp

lemma seen_refused:
  assumes "timely t0 s" "sorted (t0 # map fst es)" "seen k t t0 s" "judges es s = Some as"
    "j < length es" "key (fst (snd (es ! j))) = k" "snd (snd (snd (es ! j))) \<le> t + 3"
  shows "\<not> as ! j"
  using assms
proof (induction es arbitrary: t0 s as j)
  case (Cons e es)
  obtain now r matched ts where e: "e = (now, r, matched, ts)" by (metis prod.collapse)
  have le: "t0 \<le> now" "sorted (now # map fst es)" using Cons.prems(2) by (simp_all add: e)
  have "timely now s" "seen k t now s" using Cons.prems(1,3) timely_later seen_later le(1) by auto
  with judge_step[of now s r matched ts] obtain a s' where j: "judge now r matched ts s = Some (a, s')" "timely now s'"
    "seen k t now s'" "seen (key r) t now s \<and> ts \<le> t + 3 \<longrightarrow> \<not> a" by blast
  from Cons.prems(4) j(1) obtain bs where bs: "judges es s' = Some bs" "as = a # bs"
    by (auto simp: e bind_eq_Some_conv)
  show ?case
  proof (cases j)
    case 0
    then show ?thesis using j(4) Cons.prems(6,7) \<open>seen k t now s\<close> bs(2) by (simp add: e)
  next
    case (Suc i)
    then show ?thesis using Cons.IH[OF j(2) le(2) j(3) bs(1), of i] Cons.prems(5-7) bs(2) by simp
  qed
qed simp

theorem no_second_time:
  assumes "timely t0 s" "sorted (t0 # map fst es)" "judges es s = Some as" "i < j" "j < length es"
    "as ! i" "key (fst (snd (es ! i))) = key (fst (snd (es ! j)))" "snd (snd (snd (es ! i))) = snd (snd (snd (es ! j)))"
  shows "\<not> as ! j"
  using assms
proof (induction es arbitrary: t0 s as i j)
  case (Cons e es)
  obtain now r matched ts where e: "e = (now, r, matched, ts)" by (metis prod.collapse)
  have le: "t0 \<le> now" "sorted (now # map fst es)" using Cons.prems(2) by (simp_all add: e)
  have "timely now s" using Cons.prems(1) timely_later le(1) by auto
  from judge_step[OF this, of r matched ts] obtain a s' where j: "judge now r matched ts s = Some (a, s')" "timely now s'"
    "a \<longrightarrow> seen (key r) now now s' \<and> ts \<le> now + 3" by blast
  from Cons.prems(3) j(1) obtain bs where bs: "judges es s' = Some bs" "as = a # bs"
    by (auto simp: e bind_eq_Some_conv)
  obtain j' where j': "j = Suc j'" using Cons.prems(4) by (cases j) auto
  show ?case
  proof (cases i)
    case 0
    then have "a" using Cons.prems(6) bs(2) by simp
    then have "seen (key r) now now s'" "ts \<le> now + 3" using j(3) by auto
    then show ?thesis
      using seen_refused[OF j(2) le(2) _ bs(1), of "key r" now j'] Cons.prems(5,7,8) 0 j' bs(2) by (simp add: e)
  next
    case (Suc i')
    then show ?thesis using Cons.IH[OF j(2) le(2) bs(1), of i' j'] Cons.prems(4-8) j' bs(2) by simp
  qed
qed simp

end

section \<open>The cache keeps the contract\<close>

definition cache_log :: "random_cache \<Rightarrow> (byte list \<times> int) list" where
  "cache_log c = map (\<lambda>e. (cr_random e, cr_time e)) (rc_by_time c)"

interpretation cache: replay_memory cache_ok cache_log "take 16" have_client_random remember_client MAX_CLIENT_RANDOM_CACHE_TIME
proof
  fix s :: random_cache and r :: "byte list" and now :: int
  assume ok: "cache_ok s"
  show "have_client_random r s \<longleftrightarrow> take 16 r \<in> fst ` set (cache_log s)"
    using have_client_random_iff[OF ok] by (force simp: cache_log_def)
  show "sorted (map snd (cache_log s))"
    using ok by (simp add: cache_ok_def cache_log_def comp_def)
  assume "\<forall>x \<in> set (cache_log s). snd x \<le> now"
  then have "\<forall>e \<in> set (rc_by_time s). cr_time e \<le> now" by (auto simp: cache_log_def)
  from remember_client_ok[OF ok this, of r] obtain c' e n where c': "remember_client now r s = Some c'" "cache_ok c'"
    "cr_random e = take 16 r" "cr_time e = now" "rc_by_time c' = drop n (rc_by_time s @ [e])"
    "n < length (rc_by_time s @ [e])"
    "\<forall>x \<in> set (take n (rc_by_time s @ [e])). cr_time x + MAX_CLIENT_RANDOM_CACHE_TIME \<le> now" by blast
  have l: "cache_log s @ [(take 16 r, now)] = map (\<lambda>e. (cr_random e, cr_time e)) (rc_by_time s @ [e])"
    using c'(3,4) by (simp add: cache_log_def)
  have "cache_log c' = drop n (cache_log s @ [(take 16 r, now)])"
    unfolding l by (simp only: cache_log_def c'(5) drop_map)
  moreover have "n < length (cache_log s @ [(take 16 r, now)])" using c'(6) by (simp add: cache_log_def)
  moreover have "\<forall>x \<in> set (take n (cache_log s @ [(take 16 r, now)])). snd x + MAX_CLIENT_RANDOM_CACHE_TIME \<le> now"
    unfolding l take_map using c'(7) by auto
  ultimately show "\<exists>s' n. remember_client now r s = Some s' \<and> cache_ok s' \<and> cache_log s' = drop n (cache_log s @ [(take 16 r, now)]) \<and>
      n < length (cache_log s @ [(take 16 r, now)]) \<and>
      (\<forall>x \<in> set (take n (cache_log s @ [(take 16 r, now)])). snd x + MAX_CLIENT_RANDOM_CACHE_TIME \<le> now)"
    using c'(1,2) by blast
qed (simp add: MAX_ALLOWED_TIMESTAMP_ERROR_def MAX_CLIENT_RANDOM_CACHE_TIME_def)

lemma judge_hello_judge: "judge_hello now rnd matched ts c = cache.judge now rnd matched ts c"
proof -
  have "first_time c' = cache.oldest c'" for c'
    by (cases "rc_by_time c'") (simp_all add: first_time_def cache.oldest_def cache_log_def)
  then show ?thesis by (simp add: judge_hello_def cache.judge_def)
qed

lemma judge_all_judges: "judge_all es c = cache.judges es c"
proof (induction es arbitrary: c)
  case (Cons e es)
  then show ?case by (cases e) (simp add: judge_hello_judge)
qed simp

lemma empty_timely: "cache.timely t0 empty_cache"
  by (simp add: cache.timely_def cache_ok_empty cache_log_def empty_cache_def cache_ok_def)

section \<open>Properties\<close>

text \<open>
  No ClientHello is accepted twice.  In any sequence of clients whose times do not go back, if one
  is accepted, then no later one with the same random value (its first 16 bytes, which are what the
  cache keeps) and the same time stamp is accepted, although the cache forgets values after two days.
\<close>

theorem hello_not_accepted_twice:
  assumes "sorted (map fst es)" "judge_all es empty_cache = Some as" "i < j" "j < length es" "as ! i"
    "take 16 (fst (snd (es ! i))) = take 16 (fst (snd (es ! j)))" "snd (snd (snd (es ! i))) = snd (snd (snd (es ! j)))"
  shows "\<not> as ! j"
proof -
  let ?t0 = "fst (es ! 0)"
  have "sorted (?t0 # map fst es)" using assms(1,3,4) by (cases es) auto
  then show ?thesis
    using cache.no_second_time[OF empty_timely, of ?t0 es as i j] assms(2-7) by (simp add: judge_all_judges)
qed

definition example_clients :: "client_event list" where
  "example_clients = [(1000, [1, 2] @ replicate 30 7, True, 990), (1100, [1, 3] @ replicate 30 7, True, 1090),
     (300000, [1, 4] @ replicate 30 7, True, 299990), (300001, [1, 2] @ replicate 30 7, True, 990)]"

lemma example_clients_judged: "judge_all example_clients empty_cache = Some [True, True, True, False]"
  by code_simp

theorem hello_not_accepted_twice_witness:
  "case judge_all example_clients empty_cache of None \<Rightarrow> False | Some as \<Rightarrow> as ! 0 \<and> \<not> as ! 3"
  using hello_not_accepted_twice[OF _ example_clients_judged, of 0 3] example_clients_judged
  by (simp add: example_clients_def)

text \<open>
  The bookkeeping of the cache never fails: for every sequence of clients whose times do not go back
  the entry to be removed is the last of its bucket, as \<open>delete_old_client_randoms\<close> asserts, and it is
  found there.
\<close>

theorem replay_cache_never_aborts:
  assumes "sorted (map fst es)"
  shows "case judge_all es empty_cache of None \<Rightarrow> False | Some as \<Rightarrow> length as = length es"
proof -
  have "sorted (fst (es ! 0) # map fst es)" using assms by (cases es) auto
  from cache.judges_total[OF empty_timely this] obtain as where "judge_all es empty_cache = Some as"
    unfolding judge_all_judges by blast
  then show ?thesis using cache.judges_length unfolding judge_all_judges by auto
qed

theorem replay_cache_never_aborts_witness:
  "case judge_all example_clients empty_cache of None \<Rightarrow> False | Some as \<Rightarrow> length as = length example_clients"
  by (rule replay_cache_never_aborts) (simp add: example_clients_def)

end
