(* ===== verification/Ext_Server.thy ===== *)
theory Ext_Server
  imports RPC_Server Secret_Store TLS_Domain Replay_Guard
begin

text \<open>
  The server for the clients of the proxy (\<open>net/net-tcp-rpc-ext-server.c\<close>): telling TLS from the
  obfuscated protocol, accepting a ClientHello, finding the secret that a client uses, passing
  strangers on to a real web server, and the packets of an accepted client.  The macro
  \<open>__ALLOW_UNOBFS__\<close> is 0, so the code that it guards is not there.
\<close>

section \<open>Environment and state\<close>

text \<open>
  \<open>xe_hmac\<close>, \<open>xe_sha256\<close> and \<open>xe_aes\<close> stand for \<open>sha256_hmac\<close>, \<open>sha256\<close> and the set-up of AES with a key
  and an initial vector, \<open>xe_ks\<close> for its key stream; \<open>xe_socket\<close> and \<open>xe_alloc\<close> say whether the calls
  for a new connection succeed.  \<open>xe_self\<close> is the number of the connection that is served, \<open>xe_ip\<close> its
  address as text.
\<close>

record 'a ext_world =
  ew_store :: secret_store
  ew_domains :: domain_table
  ew_cache :: random_cache
  ew_peers :: "nat \<Rightarrow> 'a ctr conn option"
  ew_next :: nat

record 'a ext_env =
  xe_host :: host_env
  xe_ip :: string
  xe_now :: int
  xe_precise_now :: rat
  xe_hmac :: "byte list \<Rightarrow> byte list \<Rightarrow> byte list"
  xe_sha256 :: "byte list \<Rightarrow> byte list"
  xe_aes :: "byte list \<Rightarrow> byte list \<Rightarrow> 'a"
  xe_ks :: "'a \<Rightarrow> nat \<Rightarrow> byte"
  xe_rand :: nat
  xe_random :: "nat \<Rightarrow> byte list"
  xe_public_key :: "byte list"
  xe_self :: nat
  xe_socket :: bool
  xe_alloc :: bool
  xe_max_packet_len :: int
  xe_has_ready :: bool
  xe_execute :: "u32 \<Rightarrow> byte list \<Rightarrow> ('a ext_world, 'a ctr) handler"

type_synonym 'a ext_result = "('a ext_world \<times> 'a ctr conn \<times> step_end) option"

text \<open>The part of a connection that the accounting of \<open>Secret_Store\<close> uses.\<close>

definition acct_of :: "'k conn \<Rightarrow> conn_acct" where
  "acct_of c = \<lparr>extra_int2 = td_extra_int2 (cn_data c), remote_ip = cn_remote_ip c, remote_ipv6 = cn_remote_ipv6 c\<rparr>"

definition attach_secret :: "'a ext_env \<Rightarrow> int \<Rightarrow> 'a ext_world \<Rightarrow> 'a ctr conn \<Rightarrow> 'a ext_world \<times> 'a ctr conn" where
  "attach_secret env secret_id w c =
     (case ext_metrics_attach_secret_to_connection (xe_host env) (xe_ip env) secret_id (acct_of c) (ew_store w) of
        (a, s) \<Rightarrow> (w\<lparr>ew_store := s\<rparr>, set_data (\<lambda>d. d\<lparr>td_extra_int2 := extra_int2 a\<rparr>) c))"

section \<open>Passing bytes on\<close>

text \<open>The bytes received go to the peer, and are counted for the secret of the peer.\<close>

definition tcp_proxy_pass_parse_execute :: "'a ext_world \<Rightarrow> 'a ctr conn \<Rightarrow> ('a ext_world \<times> 'a ctr conn \<times> int) option" where
  "tcp_proxy_pass_parse_execute w c =
     (case cn_kind c of
        Kind_Proxy_Pass None \<Rightarrow> Some (w, fail_connection (-1) c, 0)
      | Kind_Proxy_Pass (Some e) \<Rightarrow>
          (case ew_peers w e of
             None \<Rightarrow> None
           | Some peer \<Rightarrow>
               let r = cn_in c;
                   s = (if r \<noteq> [] then tcp_rpcs_note_connection_traffic (acct_of peer) 0 (int (length r)) (ew_store w) else ew_store w)
               in Some (w\<lparr>ew_store := s, ew_peers := (ew_peers w)(e \<mapsto> peer\<lparr>cn_out_queue := cn_out_queue peer @ [r]\<rparr>)\<rparr>,
                        c\<lparr>cn_in := []\<rparr>, 0))
      | _ \<Rightarrow> None)"

definition tcp_proxy_pass_connected :: "'k conn \<Rightarrow> int" where
  "tcp_proxy_pass_connected c = 0"

text \<open>\<open>close\<close> is \<open>cpu_server_close_connection\<close>.\<close>

definition tcp_proxy_pass_close :: "('a ctr conn \<Rightarrow> 'a ctr conn) \<Rightarrow> 'a ext_world \<Rightarrow> 'a ctr conn \<Rightarrow> 'a ext_world \<times> 'a ctr conn" where
  "tcp_proxy_pass_close close w c =
     (case cn_kind c of
        Kind_Proxy_Pass (Some e) \<Rightarrow>
          (w\<lparr>ew_peers := (ew_peers w)(e := map_option (fail_connection (-23)) (ew_peers w e))\<rparr>, close (c\<lparr>cn_kind := Kind_Proxy_Pass None\<rparr>))
      | _ \<Rightarrow> (w, close c))"

definition tcp_proxy_pass_write_packet :: "byte list \<Rightarrow> 'k conn \<Rightarrow> 'k conn" where
  "tcp_proxy_pass_write_packet raw c = c\<lparr>cn_out := cn_out c @ raw\<rparr>"

text \<open>
  The connection to the domain; its own port is chosen by the kernel and not looked at.  It goes to the
  IPv4 address, or to the other one if that is zero.
\<close>

definition new_peer :: "nat \<Rightarrow> domain_info \<Rightarrow> int \<Rightarrow> 'k conn" where
  "new_peer self d port =
     (new_conn (Kind_Proxy_Pass (Some self)) 0)\<lparr>cn_remote_ip := d_target d, cn_remote_ipv6 := d_target6 d, cn_remote_port := port\<rparr>"

text \<open>\<open>None\<close> for the domain is the null pointer.\<close>

definition proxy_connection ::
    "'a ext_env \<Rightarrow> domain_info option \<Rightarrow> 'a ext_world \<Rightarrow> 'a ctr conn \<Rightarrow> ('a ext_world \<times> 'a ctr conn \<times> int) option" where
  "proxy_connection env info w c =
     (case info of
        None \<Rightarrow> None
      | Some d \<Rightarrow>
          if d_target d = 0 \<and> d_target6 d = replicate 16 0 then Some (w, fail_connection (-17) c, 0)
          else let port = (if cn_our_port c = 80 then 80 else 443) in
            if \<not> xe_socket env then Some (w, fail_connection (-27) c, 0)
            else let c = c\<lparr>cn_crypto := None\<rparr> in
              if \<not> xe_alloc env then Some (w, fail_connection (-37) c, 0)
              else let e = ew_next w;
                       w = w\<lparr>ew_peers := (ew_peers w)(e \<mapsto> new_peer (xe_self env) d port),
                             ew_next := e + 1\<rparr>
                   in tcp_proxy_pass_parse_execute w (c\<lparr>cn_kind := Kind_Proxy_Pass (Some e)\<rparr>))"

text \<open>
  The domain that was added first.  New domains go to the front of their bucket, so it is the last one
  of its name there.
\<close>

definition default_domain_info :: "'a ext_world \<Rightarrow> domain_info option" where
  "default_domain_info w =
     (case dt_default (ew_domains w) of
        None \<Rightarrow> None
      | Some n \<Rightarrow> List.find (\<lambda>d. d_domain d = n) (rev (dt_buckets (ew_domains w) ! get_domain_info_bucket n)))"

definition pass_on :: "'a ext_env \<Rightarrow> domain_info option \<Rightarrow> 'a ext_world \<Rightarrow> 'a ctr conn \<Rightarrow> 'a ext_result" where
  "pass_on env info w c = map_option (\<lambda>(w, c, r). (w, c, Return r)) (proxy_connection env info w c)"

definition tcp_rpcs_ext_alarm :: "'a ext_env \<Rightarrow> 'a ext_world \<Rightarrow> 'a ctr conn \<Rightarrow> ('a ext_world \<times> 'a ctr conn \<times> int) option" where
  "tcp_rpcs_ext_alarm env w c =
     (if td_in_packet_num (cn_data c) = -3 \<and> default_domain_info w \<noteq> None
      then proxy_connection env (default_domain_info w) w c else Some (w, c, 0))"

definition tcp_rpcs_ext_init_accepted :: "bool \<Rightarrow> 'w srv \<Rightarrow> 'k conn \<Rightarrow> 'w srv \<times> 'k conn" where
  "tcp_rpcs_ext_init_accepted has_ready w c =
     tcp_rpcs_init_accepted_nohs has_ready w ((set_data (\<lambda>d. d\<lparr>td_extra_int := 0, td_extra_int2 := 0\<rparr>) c)\<lparr>cn_timer := True\<rparr>)"

section \<open>A ClientHello\<close>

text \<open>The secret whose HMAC begins with the first 28 bytes of the random value.\<close>

definition matching_secret :: "'a ext_env \<Rightarrow> byte list \<Rightarrow> byte list \<Rightarrow> (byte list \<times> int) list \<Rightarrow> (byte list \<times> int) option" where
  "matching_secret env hello0 client_random secrets =
     List.find (\<lambda>(secret, i). take 28 (xe_hmac env secret hello0) = take 28 client_random) secrets"

text \<open>Skipping grease: the position and the length left.\<close>

function skip_grease :: "byte list \<Rightarrow> nat \<Rightarrow> nat \<Rightarrow> nat \<times> nat" where
  "skip_grease hello pos n =
     (if 2 \<le> n \<and> hello ! pos AND 0x0F = 0x0A \<and> hello ! (pos + 1) AND 0x0F = 0x0A
      then skip_grease hello (pos + 2) (n - 2) else (pos, n))"
  by pat_completeness auto
termination
  by (relation "measure (\<lambda>(h, p, n). n)") auto

declare skip_grease.simps [simp del]

text \<open>The cipher suite chosen, if there is one that is supported.\<close>

definition hello_cipher :: "byte list \<Rightarrow> byte option" where
  "hello_cipher hello =
     (let n = be16 hello 76 in
      if 78 + n > length hello then None
      else case skip_grease hello 78 n of
        (pos, n) \<Rightarrow>
          if n \<le> 1 \<or> hello ! pos \<noteq> 0x13 \<or> hello ! (pos + 1) < 0x01 \<or> hello ! (pos + 1) > 0x03 then None
          else Some (hello ! (pos + 1)))"

text \<open>Answering a client that was accepted.\<close>

definition answer_hello ::
    "'a ext_env \<Rightarrow> domain_info \<Rightarrow> byte list \<Rightarrow> byte list \<Rightarrow> byte list \<times> int \<Rightarrow> byte \<Rightarrow> 'a ext_world \<Rightarrow> 'a ctr conn \<Rightarrow> 'a ext_result" where
  "answer_hello env info client_random hello0 secret cipher w c =
     (let c = c\<lparr>cn_in := [], cn_is_tls := True, cn_left_tls := -1\<rparr>; (w, c) = attach_secret env (snd secret) w c;
          enc = get_domain_server_hello_encrypted_size (xe_rand env) info
      in map_option (\<lambda>m. (w, c\<lparr>cn_out_queue := cn_out_queue c @ [m]\<rparr>, Return 11))
           (server_hello (xe_hmac env (fst secret)) client_random (take 32 (drop 44 hello0)) cipher (d_reversed info)
             (xe_public_key env) enc (xe_random env)))"

text \<open>The checks of a hello for a known domain, once it has arrived; \<open>hello\<close> is the whole message.\<close>

definition judge_client ::
    "'a ext_env \<Rightarrow> domain_info \<Rightarrow> byte list \<Rightarrow> 'a ext_world \<Rightarrow> 'a ctr conn \<Rightarrow> 'a ext_result" where
  "judge_client env info hello w c =
     (let client_random = take 32 (drop 11 hello); hello0 = take 11 hello @ replicate 32 0 @ drop 43 hello in
      if have_client_random client_random (ew_cache w) then pass_on env (Some info) w c
      else do {
        cache \<leftarrow> remember_client (xe_now env) client_random (ew_cache w);
        let w = w\<lparr>ew_cache := cache\<rparr>;
            (r, secrets) = ext_snapshot_active_secrets (xe_host env) (env_now (xe_host env)) (ew_store w)
        in if r < 0 then pass_on env (Some info) w c
           else case matching_secret env hello0 client_random secrets of
             None \<Rightarrow> pass_on env (Some info) w c
           | Some secret \<Rightarrow>
               let expected = xe_hmac env (fst secret) hello0;
                   timestamp = sint (le32 (drop 28 expected) XOR le32 (drop 28 client_random)) in
               if \<not> is_allowed_timestamp (xe_now env) (first_time cache) timestamp then pass_on env (Some info) w c
               else case hello_cipher hello0 of
                 None \<Rightarrow> pass_on env (Some info) w c
               | Some cipher \<Rightarrow> answer_hello env info client_random hello0 secret cipher w c
      })"

definition client_hello :: "'a ext_env \<Rightarrow> 'a ext_world \<Rightarrow> 'a ctr conn \<Rightarrow> 'a ext_result" where
  "client_hello env w c =
     (let inb = cn_in c; len = length inb; min_len = 5 + be16 inb 3; hello = take (min len 4096) inb in
      if len < min_len then Some (w, c, Return (int min_len - int len))
      else do {
        sni \<leftarrow> get_sni_domain_info (ew_domains w) hello;
        case sni of
          None \<Rightarrow> pass_on env (default_domain_info w) w c
        | Some info \<Rightarrow>
            if cn_our_port c = 80 \<or> len > min_len \<or> len \<noteq> length hello then pass_on env (Some info) w c
            else judge_client env info hello w c
      })"

section \<open>The obfuscated protocol\<close>

text \<open>The keys that the 64 bytes give with one secret, or without any.\<close>

definition header_keys :: "'a ext_env \<Rightarrow> byte list option \<Rightarrow> byte list \<Rightarrow> 'a ctr \<times> 'a ctr" where
  "header_keys env secret header =
     (let hash = (\<lambda>k. case secret of Some s \<Rightarrow> xe_sha256 env (k @ s) | None \<Rightarrow> k);
          read_key = hash (take 32 (drop 8 header)); read_iv = take 16 (drop 40 header);
          write_key = hash (rev (take 32 (drop 24 header))); write_iv = rev (take 16 (drop 8 header))
      in ((xe_aes env read_key read_iv, 0), (xe_aes env write_key write_iv, 0)))"

definition tag_dd :: u32 where "tag_dd = 0xdddddddd"
definition tag_ee :: u32 where "tag_ee = 0xeeeeeeee"
definition tag_ef :: u32 where "tag_ef = 0xefefefef"

definition mode_flags :: "u32 \<Rightarrow> u32" where
  "mode_flags tag =
     (if tag = tag_ee then RPC_F_MEDIUM OR RPC_F_EXTMODE2
      else if tag = tag_dd then RPC_F_MEDIUM OR RPC_F_EXTMODE2 OR RPC_F_PAD
      else if tag = tag_ef then RPC_F_COMPACT OR RPC_F_EXTMODE2
      else 0)"

text \<open>
  A header that decrypts to one of the three tags: what follows it becomes input to be decrypted,
  \<open>target\<close> is the short integer behind the tag.
\<close>

definition accept_header ::
    "'a ext_env \<Rightarrow> 'a ctr \<times> 'a ctr \<Rightarrow> byte list \<Rightarrow> u32 \<Rightarrow> int \<Rightarrow> 'a ext_world \<Rightarrow> 'a ctr conn \<Rightarrow> 'a ext_result" where
  "accept_header env keys dec tag secret_id w c =
     (if tag \<noteq> tag_dd \<and> dt_only_tls (ew_domains w) then pass_on env (default_domain_info w) w (c\<lparr>cn_crypto := Some keys\<rparr>)
      else
        let c = c\<lparr>cn_crypto := Some keys, cn_in_u := cn_in_u c @ drop 64 (cn_in c), cn_in := []\<rparr>;
            c = set_data (\<lambda>d. d\<lparr>td_in_packet_num := 0, td_flags := td_flags d OR mode_flags tag\<rparr>) c in
        case cpu_tcp_aes_crypto_ctr128_decrypt_input (xe_ks env) c of
          None \<Rightarrow> None
        | Some (r, c) \<Rightarrow>
            if r < 0 then None
            else let c = set_data (\<lambda>d. d\<lparr>td_extra_int4 := sint (le16 (drop 60 dec))\<rparr>) c;
                     (w, c) = attach_secret env secret_id w c
                 in Some (w, c, Again))"

text \<open>Trying the secrets in turn; \<open>None\<close> in the list stands for no secret.\<close>

fun try_secrets ::
    "'a ext_env \<Rightarrow> byte list \<Rightarrow> (byte list option \<times> int) list \<Rightarrow> 'a ext_world \<Rightarrow> 'a ctr conn \<Rightarrow> 'a ext_result" where
  "try_secrets env header [] w c = Some (w, c, Return (- 268435456))"
| "try_secrets env header ((secret, i) # ss) w c =
     (let (rk, wk) = header_keys env secret header; (dec, rk') = ctr_crypt (xe_ks env) rk header; tag = le32 (drop 56 dec) in
      if tag = tag_dd \<or> tag = tag_ee \<or> tag = tag_ef then accept_header env (rk', wk) dec tag i w c
      else try_secrets env header ss w (c\<lparr>cn_crypto := None\<rparr>))"

definition obfuscated_header :: "'a ext_env \<Rightarrow> 'a ext_world \<Rightarrow> 'a ctr conn \<Rightarrow> 'a ext_result" where
  "obfuscated_header env w c =
     (let len = length (cn_in c) in
      if len < 64 then (if cn_is_tls c then None else Some (w, c, Return (64 - int len)))
      else let (r, secrets) = ext_snapshot_active_secrets (xe_host env) (env_now (xe_host env)) (ew_store w) in
        if r < 0 then Some (w, c, Return (- 268435456))
        else try_secrets env (take 64 (cn_in c)) (if secrets \<noteq> [] then map (\<lambda>(s, i). (Some s, i)) secrets else [(None, 0)]) w c)"

text \<open>The first bytes of a connection over TLS: a dummy record, then a record that holds the header.\<close>

definition first_tls_packet :: "'a ext_env \<Rightarrow> 'a ext_world \<Rightarrow> 'a ctr conn \<Rightarrow> 'a ext_result" where
  "first_tls_packet env w c =
     (let len = length (cn_in c); header = take 11 (cn_in c) in
      if len < 11 then Some (w, c, Return (11 - int len))
      else if take 9 header \<noteq> [0x14, 0x03, 0x03, 0x00, 0x01, 0x01, 0x17, 0x03, 0x03] then Some (w, fail_connection (-1) c, Return 0)
      else let left = be16 header 9; min_len = 11 + left in
        if len < min_len then Some (w, c, Return (int min_len - int len))
        else let c = c\<lparr>cn_in := drop 11 (cn_in c), cn_left_tls := int left\<rparr> in
          if left < 64 then Some (w, fail_connection (-1) c, Return 0)
          else obfuscated_header env w (c\<lparr>cn_left_tls := int left - 64\<rparr>))"

definition first_bytes :: "'a ext_env \<Rightarrow> u32 \<Rightarrow> 'a ext_world \<Rightarrow> 'a ctr conn \<Rightarrow> 'a ext_result" where
  "first_bytes env packet_len w c =
     (if cn_is_tls c then first_tls_packet env w c
      else if packet_len AND 0xFFFFFF = 0x010316 \<and> sint packet_len div 2 ^ 24 \<ge> 2
            \<and> tcp_rpcs_active_secret_count (env_now (xe_host env)) (ew_store w) > 0 \<and> dt_only_tls (ew_domains w)
      then client_hello env w c
      else if dt_only_tls (ew_domains w) then pass_on env (default_domain_info w) w c
      else obfuscated_header env w c)"

section \<open>Packets of a client\<close>

text \<open>The request for a quick acknowledgement in the compact form.\<close>

definition compact_ack :: "u32 \<Rightarrow> u32 \<Rightarrow> u32" where
  "compact_ack flags w = (if has_flag w 0x80 then flags OR RPC_F_QUICKACK else flags AND NOT RPC_F_QUICKACK)"

text \<open>
  The length of a packet from the first word of its frame: the new flags, the length, and the number
  of bytes that it took; \<open>None\<close> is a length that is coded too long.
\<close>

definition frame_length :: "u32 \<Rightarrow> u32 \<Rightarrow> (u32 \<times> u32 \<times> nat) option" where
  "frame_length flags w =
     (if has_flag flags RPC_F_MEDIUM then
        Some ((flags AND NOT RPC_F_QUICKACK) OR (w AND RPC_F_QUICKACK), w AND NOT RPC_F_QUICKACK, 4)
      else
        let flags = compact_ack flags w; w = w AND NOT 0x80 in
        if w AND 0xff = 0x7f then
          (let n = drop_bit 8 w in if n < 0x7f then None else Some (flags, push_bit 2 n, 4))
        else Some (flags, push_bit 2 (w AND 0x7f), 1))"

definition frame_bad :: "u32 \<Rightarrow> u32 \<Rightarrow> bool" where
  "frame_bad flags n \<longleftrightarrow> sint n \<le> 0 \<or> has_flag n 0xc0000000 \<or> \<not> has_flag flags RPC_F_PAD \<and> has_flag n 3"

text \<open>The message of a frame of \<open>n\<close> bytes: padding is cut off.\<close>

definition frame_message :: "u32 \<Rightarrow> nat \<Rightarrow> byte list \<Rightarrow> byte list" where
  "frame_message flags n b = take (if has_flag flags RPC_F_PAD then n div 4 * 4 else n) b"

definition serve_message :: "'a ext_env \<Rightarrow> byte list \<Rightarrow> 'a ext_world \<Rightarrow> 'a ctr conn \<Rightarrow> 'a ext_result" where
  "serve_message env msg w c =
     (if length msg < 4 then None
      else if td_in_packet_num (cn_data c) < 0 \<and> td_in_packet_num (cn_data c) \<noteq> -3 then None
      else
        let c = (if td_in_packet_num (cn_data c) < 0 then set_data (\<lambda>d. d\<lparr>td_in_packet_num := 0\<rparr>) c else c)
                  \<lparr>cn_last_response := xe_precise_now env\<rparr>;
            packet_type = int_at msg 0 in
        map_option (\<lambda>(w, c). (w, set_data count_in c, Again))
          (if packet_type = RPC_PING
           then map_option (\<lambda>(c, r). (w, c)) (tcp_rpcs_default_execute (xe_precise_now env) packet_type msg c)
           else map_option (\<lambda>(w, c, r). (w, c)) (xe_execute env packet_type msg w c)))"

definition client_packet :: "'a ext_env \<Rightarrow> u32 \<Rightarrow> 'a ext_world \<Rightarrow> 'a ctr conn \<Rightarrow> 'a ext_result" where
  "client_packet env packet_len w c =
     (case frame_length (td_flags (cn_data c)) packet_len of
        None \<Rightarrow> Some (w, fail_connection (-1) (set_data (\<lambda>d. d\<lparr>td_flags := compact_ack (td_flags d) packet_len\<rparr>) c), Return 0)
      | Some (flags, n, skip) \<Rightarrow>
          let c = set_data (\<lambda>d. d\<lparr>td_flags := flags\<rparr>) c; len = int (length (cn_in c)) in
          if frame_bad flags n then Some (w, fail_connection (-1) c, Return 0)
          else if sint n > xe_max_packet_len env \<and> xe_max_packet_len env > 0 then Some (w, fail_connection (-1) c, Return 0)
          else if len < sint n + int skip then Some (w, c, Return (sint n + int skip - len))
          else let b = drop skip (cn_in c)
               in serve_message env (frame_message flags (unat n) (take (unat n) b)) w (c\<lparr>cn_in := drop (unat n) b\<rparr>))"

section \<open>The loop\<close>

text \<open>
  The function begins with a branch for \<open>RPCF_COMPACT_OFF\<close>, which hands the connection over to
  \<open>tcp_rpcs_parse_execute\<close>.  The two places that set this flag, like the connection types that are not
  obfuscated, are compiled only with \<open>__ALLOW_UNOBFS__\<close>, which is 0
  (\<open>net-tcp-rpc-ext-server.h\<close>); the flag is never set, and the branch is not modelled.
\<close>

definition ext_step :: "'a ext_env \<Rightarrow> 'a ext_world \<Rightarrow> 'a ctr conn \<Rightarrow> 'a ext_result" where
  "ext_step env w c =
     (let c = (if td_in_packet_num (cn_data c) \<noteq> -3 then c\<lparr>cn_timer := False\<rparr> else c); len = length (cn_in c);
          min_len = (if has_flag (td_flags (cn_data c)) RPC_F_MEDIUM then 4 else 1) in
      if cn_error_flag c \<or> cn_stopparse c \<or> len = 0 then Some (w, c, Return NEED_MORE_BYTES)
      else if len < min_len + 8 then Some (w, c, Return (int min_len + 8 - int len))
      else let packet_len = le32 (cn_in c) in
        if td_in_packet_num (cn_data c) = -3 then first_bytes env packet_len w c else client_packet env packet_len w c)"

partial_function (option) tcp_rpcs_compact_parse_execute ::
    "'a ext_env \<Rightarrow> 'a ext_world \<Rightarrow> 'a ctr conn \<Rightarrow> ('a ext_world \<times> 'a ctr conn \<times> int) option" where
  "tcp_rpcs_compact_parse_execute env w c =
     Option.bind (ext_step env w c) (\<lambda>(w, c, e).
       case e of Return r \<Rightarrow> Some (w, c, r) | Again \<Rightarrow> tcp_rpcs_compact_parse_execute env w c)"

declare tcp_rpcs_compact_parse_execute.simps [code]

end
