(* ===== verification/RPC_Handshake.thy ===== *)
theory RPC_Handshake
  imports RPC_Server
begin

text \<open>
  Facts about the inner RPC server: a connection that may not be unencrypted carries no packet before
  it is encrypted, the loop over the packets ends, and a bad Diffie-Hellman value stops the process.
\<close>

section \<open>What the steps keep\<close>

lemma fail_connection_simps [simp]:
  "cn_data (fail_connection e c) = cn_data c" "cn_crypto (fail_connection e c) = cn_crypto c"
  "cn_kind (fail_connection e c) = cn_kind c" "cn_in (fail_connection e c) = cn_in c"
  "cn_error_flag (fail_connection e c)"
  by (simp_all add: fail_connection_def)

text \<open>Sending changes only the outgoing side and the count of packets sent.\<close>

definition same_in :: "'k conn \<Rightarrow> 'k conn \<Rightarrow> bool" where
  "same_in c c' \<longleftrightarrow> cn_crypto c' = cn_crypto c \<and> cn_kind c' = cn_kind c \<and> cn_in c' = cn_in c \<and>
     td_crypto_flags (cn_data c') = td_crypto_flags (cn_data c) \<and> td_in_packet_num (cn_data c') = td_in_packet_num (cn_data c)"

lemmas send_defs = tcp_rpc_conn_send_data_init_def tcp_rpc_conn_send_init_def tcp_rpc_conn_send_data_im_def
  tcp_rpc_conn_send_im_def tcp_rpc_conn_send_data_def tcp_rpc_conn_send_def count_out_def Let_def

lemma send_same_in:
  "tcp_rpc_conn_send_data_init crc Q c = Some c' \<Longrightarrow> same_in c c'"
  "tcp_rpc_conn_send_data_im crc Q c = Some c' \<Longrightarrow> same_in c c'"
  "tcp_rpc_conn_send_data Q c = Some c' \<Longrightarrow> same_in c c'"
  by (auto simp: send_defs same_in_def split: if_splits)

section \<open>Encryption comes first\<close>

text \<open>
  A connection that may not be unencrypted: before the nonce packet was accepted it has number \<open>-2\<close>,
  afterwards it is encrypted.  After \<open>2^31\<close> packets the number has wrapped around, and every further packet
  is refused.
\<close>

definition guarded :: "'k conn \<Rightarrow> bool" where
  "guarded c \<longleftrightarrow> (cn_kind c = Kind_Rpc_Server \<longrightarrow>
     \<not> has_flag (td_crypto_flags (cn_data c)) RPCF_ALLOW_UNENC \<and> \<not> has_flag (td_crypto_flags (cn_data c)) RPCF_SEQNO_HOLES \<and>
     (td_in_packet_num (cn_data c) = -2147483648 \<or> -2 \<le> td_in_packet_num (cn_data c)) \<and>
     td_in_packet_num (cn_data c) < 2147483648 \<and> (td_in_packet_num (cn_data c) \<noteq> -2 \<longrightarrow> cn_crypto c \<noteq> None))"

lemma has_flag_and [simp]: "\<not> has_flag x f \<Longrightarrow> \<not> has_flag (x AND y) f"
proof -
  have "(x AND y) AND f = (x AND f) AND y" by (simp only: and.assoc and.commute[of y f])
  then show "\<not> has_flag x f \<Longrightarrow> \<not> has_flag (x AND y) f" by (simp add: has_flag_def)
qed

lemma flag_or [simp]:
  "has_flag (x OR RPCF_ENC_SENT) RPCF_ALLOW_UNENC \<longleftrightarrow> has_flag x RPCF_ALLOW_UNENC"
  "has_flag (x OR RPCF_ENC_SENT) RPCF_SEQNO_HOLES \<longleftrightarrow> has_flag x RPCF_SEQNO_HOLES"
  "has_flag (x OR RPCF_USE_CRC32C) RPCF_ALLOW_UNENC \<longleftrightarrow> has_flag x RPCF_ALLOW_UNENC"
  "has_flag (x OR RPCF_USE_CRC32C) RPCF_SEQNO_HOLES \<longleftrightarrow> has_flag x RPCF_SEQNO_HOLES"
  by (simp_all add: has_flag_def flag_simps bit.conj_disj_distrib2)

text \<open>The parts of a connection that the handshake reads, after a change by the key exchange.\<close>

definition keeps :: "'k conn \<Rightarrow> 'k conn \<Rightarrow> bool" where
  "keeps c c' \<longleftrightarrow> cn_kind c' = cn_kind c \<and> cn_in c' = cn_in c \<and> td_in_packet_num (cn_data c') = td_in_packet_num (cn_data c) \<and>
     (has_flag (td_crypto_flags (cn_data c')) RPCF_ALLOW_UNENC \<longrightarrow> has_flag (td_crypto_flags (cn_data c)) RPCF_ALLOW_UNENC) \<and>
     (has_flag (td_crypto_flags (cn_data c')) RPCF_SEQNO_HOLES \<longrightarrow> has_flag (td_crypto_flags (cn_data c)) RPCF_SEQNO_HOLES) \<and>
     (cn_crypto c \<noteq> None \<longrightarrow> cn_crypto c' \<noteq> None)"

lemma keeps_refl [simp]: "keeps c c"
  by (simp add: keeps_def)

lemma keeps_trans: "keeps a b \<Longrightarrow> keeps b c \<Longrightarrow> keeps a c"
  by (auto simp: keeps_def)

lemma same_in_keeps: "same_in c c' \<Longrightarrow> keeps c c'"
  by (auto simp: keeps_def same_in_def)

lemmas send_keeps = send_same_in[THEN same_in_keeps]

lemma accept_dh_keeps: "accept_dh env P w c = Some (w', c', r) \<Longrightarrow> keeps c c' \<and> td_crypto_flags (cn_data c') = td_crypto_flags (cn_data c)"
  by (auto simp: accept_dh_def keeps_def split: if_splits prod.splits bool.splits)

lemma answer_nonce_keys:
  assumes "answer_nonce env P flags g_a temp sel c = Some (c', r)" "td_crypto_flags (cn_data c) = flags"
  shows "keeps c c' \<and> (0 \<le> r \<longrightarrow> cn_crypto c' \<noteq> None)"
  using assms
  by (auto simp: answer_nonce_def Let_def keeps_def same_in_def dest!: send_same_in split: if_splits option.splits)

text \<open>Accepting a nonce without leave for plain text means that keys were made.\<close>

lemma only_unenc:
  assumes "\<not> has_flag flags RPCF_ALLOW_UNENC"
  shows "flags AND (RPCF_ALLOW_ENC OR RPCF_ALLOW_UNENC) \<noteq> RPCF_ALLOW_UNENC"
proof
  assume "flags AND (RPCF_ALLOW_ENC OR RPCF_ALLOW_UNENC) = RPCF_ALLOW_UNENC"
  then have "(flags AND (RPCF_ALLOW_ENC OR RPCF_ALLOW_UNENC)) AND RPCF_ALLOW_UNENC = RPCF_ALLOW_UNENC" by simp
  then have "flags AND RPCF_ALLOW_UNENC = RPCF_ALLOW_UNENC" by (simp add: flag_simps and.assoc)
  then show False using assms by (simp add: has_flag_def flag_simps)
qed

lemma init_crypto_encrypts:
  assumes "tcp_rpcs_init_crypto env P key w c = Some (w', c', r)" "\<not> has_flag (td_crypto_flags (cn_data c)) RPCF_ALLOW_UNENC"
  shows "keeps c c' \<and> (0 \<le> r \<longrightarrow> cn_crypto c' \<noteq> None)"
proof -
  let ?flags = "td_crypto_flags (cn_data c)"
  let ?dh = "if has_flag ?flags RPCF_REQ_DH then accept_dh env P w c else Some (w, c, 0, [], [])"
  consider "w' = w" "c' = c" "r < 0" | w1 c1 r1 g t where "?dh = Some (w1, c1, r1, g, t)"
      "if r1 < 0 then w' = w1 \<and> c' = c1 \<and> r = r1
       else \<exists>x. answer_nonce env P ?flags g t (sw_dh_select w1) c1 = Some x \<and> w' = w1 \<and> c' = fst x \<and> r = snd x"
    using assms(1) only_unenc[OF assms(2)] unfolding tcp_rpcs_init_crypto_def Let_def
    by (cases ?dh) (auto split: if_splits)
  then show ?thesis
  proof cases
    case 2
    have k: "keeps c c1 \<and> td_crypto_flags (cn_data c1) = ?flags"
      using 2(1) by (cases "has_flag ?flags RPCF_REQ_DH") (auto dest: accept_dh_keeps)
    show ?thesis
    proof (cases "r1 < 0")
      case True
      then show ?thesis using 2(2) k by simp
    next
      case False
      then obtain x where "answer_nonce env P ?flags g t (sw_dh_select w1) c1 = Some (c', r)" using 2(2) by auto
      from answer_nonce_keys[OF this] k show ?thesis by (blast intro: keeps_trans)
    qed
  qed simp
qed

lemma choose_crypto_flags:
  assumes "choose_crypto env sel flags nt P = Some (Inr (flags', key, nt', dh))" "\<not> has_flag flags RPCF_ALLOW_UNENC"
  shows "flags' = flags AND NOT RPCF_ALLOW_UNENC"
  using assms by (auto simp: choose_crypto_def Let_def bind_eq_Some_conv split: if_splits)

lemma choose_crypto_error: "choose_crypto env sel flags nt P = Some (Inl (err, nt')) \<Longrightarrow> err < 0"
  by (auto simp: choose_crypto_def Let_def bind_eq_Some_conv split: if_splits)

lemma keeps_flags:
  "keeps c (set_data (\<lambda>d. d\<lparr>td_crypto_flags := td_crypto_flags d AND y\<rparr>) c)"
  "keeps c (set_data (\<lambda>d. d\<lparr>td_nonce_time := t\<rparr>) c)"
  by (auto simp: keeps_def dest: contrapos_pp[OF _ has_flag_and])

lemma nonce_encrypts:
  assumes "tcp_rpcs_process_nonce_packet env P w c = Some (w', c', r)" "\<not> has_flag (td_crypto_flags (cn_data c)) RPCF_ALLOW_UNENC"
  shows "keeps c c' \<and> (0 \<le> r \<longrightarrow> cn_crypto c' \<noteq> None)"
proof -
  let ?flags = "td_crypto_flags (cn_data c)"
  define w1 where "w1 = (if int_at P 8 = 3 \<and> sw_dh_select w = 0 then w\<lparr>sw_dh_select := sv_dh_init env\<rparr> else w)"
  define c1 where "c1 nt = set_data (\<lambda>d. d\<lparr>td_crypto_flags := ?flags AND NOT RPCF_ALLOW_UNENC, td_nonce_time := nt\<rparr>) c" for nt
  define c2 where "c2 nt = set_data (\<lambda>d. d\<lparr>td_crypto_flags := td_crypto_flags d AND NOT (RPCF_REQ_DH OR RPCF_ALLOW_SKIP_DH)\<rparr>) (c1 nt)" for nt
  have k1: "keeps c (c1 nt)" for nt
    by (auto simp: keeps_def c1_def dest: contrapos_pp[OF _ has_flag_and])
  have k2: "keeps c (c2 nt)" for nt
    unfolding c2_def by (rule keeps_trans[OF k1 keeps_flags(1)])
  have u: "\<not> has_flag (td_crypto_flags (cn_data (c1 nt))) RPCF_ALLOW_UNENC" "\<not> has_flag (td_crypto_flags (cn_data (c2 nt))) RPCF_ALLOW_UNENC" for nt
    using assms(2) by (simp_all add: c1_def c2_def)
  let ?ch = "choose_crypto env (sw_dh_select w1) ?flags (td_nonce_time (cn_data c)) P"
  let ?bad = "td_in_packet_num (cn_data c) \<noteq> -2 \<or> int_at P 0 \<noteq> RPC_NONCE \<or> length P < 32 \<or> length P > 328 \<or> \<not> nonce_length_ok P"
  consider "r < 0" "keeps c c'" | nt key w2 c3 res where "tcp_rpcs_init_crypto env P key w1 (c1 nt) = Some (w2, c3, res)"
      "c' = c3" "r = (if res < 0 then -6 else 0)"
    | nt key w2 c3 res where "tcp_rpcs_init_crypto env P key w1 (c2 nt) = Some (w2, c3, res)"
      "c' = c3" "r = (if res < 0 then -6 else 0)"
  proof (cases "?bad")
    case True
    then show ?thesis using assms(1) that(1) by (auto simp: tcp_rpcs_process_nonce_packet_def split: if_splits)
  next
    case False
    note eq = assms(1)[unfolded tcp_rpcs_process_nonce_packet_def Let_def, folded w1_def]
    from eq False obtain ch where ch: "?ch = Some ch" by (cases ?ch) auto
    show ?thesis
    proof (cases ch)
      case (Inl e)
      obtain err nt where e: "e = (err, nt)" by force
      have "err < 0" "r = err" "c' = set_data (\<lambda>d. d\<lparr>td_nonce_time := nt\<rparr>) c"
        using eq False ch Inl e choose_crypto_error[of env "sw_dh_select w1" ?flags "td_nonce_time (cn_data c)" P err nt] by auto
      then show ?thesis using that(1) keeps_flags(2)[of c nt] by simp
    next
      case (Inr x)
      obtain flags key nt dh where x: "x = (flags, key, nt, dh)" by (metis prod.collapse)
      have fl: "flags = ?flags AND NOT RPCF_ALLOW_UNENC" using choose_crypto_flags[OF _ assms(2)] ch Inr x by blast
      let ?need = "flags AND (RPCF_REQ_DH OR RPCF_ALLOW_ENC) = RPCF_REQ_DH OR RPCF_ALLOW_ENC \<and> \<not> dh"
      have c1: "set_data (\<lambda>d. d\<lparr>td_crypto_flags := flags, td_nonce_time := nt\<rparr>) c = c1 nt" by (simp add: c1_def fl)
      consider "?need" "\<not> has_flag flags RPCF_ALLOW_SKIP_DH" | "?need" "has_flag flags RPCF_ALLOW_SKIP_DH" | "\<not> ?need" by blast
      then show ?thesis
      proof cases
        case 1
        then have "r = -7" "c' = c1 nt" using eq False ch Inr x c1 by auto
        then show ?thesis using that(1) k1 by simp
      next
        case 2
        then have "Option.bind (tcp_rpcs_init_crypto env P key w1 (c2 nt)) (\<lambda>(w, c, res). Some (w, c, if res < 0 then - 6 else 0)) = Some (w', c', r)"
          using eq False ch Inr x c1 by (simp add: c2_def c1_def fl)
        then show ?thesis using that(3) by (auto simp: bind_eq_Some_conv)
      next
        case 3
        then have "Option.bind (tcp_rpcs_init_crypto env P key w1 (c1 nt)) (\<lambda>(w, c, res). Some (w, c, if res < 0 then - 6 else 0)) = Some (w', c', r)"
          using eq False ch Inr x c1 by auto
        then show ?thesis using that(2) by (auto simp: bind_eq_Some_conv)
      qed
    qed
  qed
  then show ?thesis
  proof cases
    case 2
    then show ?thesis using init_crypto_encrypts[OF 2(1) u(1)] k1 by (auto intro: keeps_trans)
  next
    case 3
    then show ?thesis using init_crypto_encrypts[OF 3(1) u(2)] k2 by (auto intro: keeps_trans)
  qed simp
qed

lemma handshake_keeps:
  assumes "tcp_rpcs_process_handshake_packet env P w c = Some (w', c', r)"
  shows "keeps c c'"
proof -
  have k: "keeps c (set_data (\<lambda>d. d\<lparr>td_remote_pid := q\<rparr>) c)" for q by (simp add: keeps_def)
  have u: "keeps c (set_data (\<lambda>d. d\<lparr>td_remote_pid := q, td_crypto_flags := td_crypto_flags d OR RPCF_USE_CRC32C\<rparr>) c)" for q
    by (simp add: keeps_def)
  have e: "keeps a b" if "tcp_rpcs_send_handshake_error_packet w1 err a = Some b" for w1 :: "'a srv" and err and a b :: "'b conn"
    using that by (auto simp: tcp_rpcs_send_handshake_error_packet_def intro: send_keeps(3) split: if_splits)
  show ?thesis
    using assms
    by (auto simp: tcp_rpcs_process_handshake_packet_def Let_def k u dest!: e
        intro: keeps_trans[OF k] split: if_split_asm)
qed

lemma send_handshake_keeps:
  assumes "tcp_rpcs_send_handshake_packet env w c = Some (c', r)"
  shows "keeps c c'"
  using assms by (auto simp: tcp_rpcs_send_handshake_packet_def intro: send_keeps(2) split: if_splits)

lemma own_packet_keeps:
  assumes "own_packet env num msg w c = Some (w', c', r)" "\<not> has_flag (td_crypto_flags (cn_data c)) RPCF_ALLOW_UNENC"
  shows "keeps c c' \<and> (num = -2 \<and> 0 \<le> r \<longrightarrow> cn_crypto c' \<noteq> None)"
proof (cases "num = -2")
  case True
  then show ?thesis using assms nonce_encrypts[OF _ assms(2)] by (simp add: own_packet_def)
next
  case False
  have crc: "keeps x (set_data (\<lambda>d. d\<lparr>td_crc32c := True\<rparr>) x)" for x :: "'b conn" by (simp add: keeps_def)
  show ?thesis
    using assms(1) False
    by (auto simp: own_packet_def bind_eq_Some_conv split: if_split_asm
        dest!: handshake_keeps send_handshake_keeps intro: keeps_trans keeps_trans[OF _ crc])
qed

lemma own_packet_num: "own_packet env num msg w c = Some (w', c', r) \<Longrightarrow> 0 \<le> r \<Longrightarrow> num = -2 \<or> num = -1"
  by (auto simp: own_packet_def split: if_split_asm)

section \<open>All runs\<close>

text \<open>What is asked of the handlers behind the server.\<close>

definition execute_keeps :: "('w, 'k) srv_env \<Rightarrow> bool" where
  "execute_keeps env \<longleftrightarrow> (\<forall>op msg w c w' c' r. sv_execute env op msg w c = Some (w', c', r) \<longrightarrow> keeps c c')"

definition leaves_server :: "('w, 'k) handler \<Rightarrow> bool" where
  "leaves_server h \<longleftrightarrow> (\<forall>w c w' c' r. h w c = Some (w', c', r) \<longrightarrow> cn_kind c \<noteq> Kind_Rpc_Server \<longrightarrow> cn_kind c' \<noteq> Kind_Rpc_Server)"

lemma leaves_serverD: "leaves_server h \<Longrightarrow> h w c = Some (w', c', r) \<Longrightarrow> cn_kind c \<noteq> Kind_Rpc_Server \<Longrightarrow> cn_kind c' \<noteq> Kind_Rpc_Server"
  unfolding leaves_server_def by blast

definition http_leaves :: "('w, 'k) srv_env \<Rightarrow> bool" where
  "http_leaves env = (case sv_http env of None \<Rightarrow> True | Some (init, parse) \<Rightarrow> leaves_server init \<and> leaves_server parse)"

lemma to_http_leaves:
  assumes "to_http env w c = Some (w', c', r)" "http_leaves env"
  shows "cn_kind c' \<noteq> Kind_Rpc_Server"
proof -
  obtain init parse where hp: "sv_http env = Some (init, parse)" using assms(1) by (auto simp: to_http_def split: option.splits)
  then have l: "leaves_server init" "leaves_server parse" using assms(2) by (simp_all add: http_leaves_def)
  let ?z = "c\<lparr>cn_data := zero_data, cn_kind := Kind_Http\<rparr>"
  obtain rest c3 r3 where i: "init (sw_rest w) ?z = Some (rest, c3, r3)"
    using assms(1) hp by (cases "init (sw_rest w) ?z") (auto simp: to_http_def)
  have k: "cn_kind c3 \<noteq> Kind_Rpc_Server" using leaves_serverD[OF l(1) i] by simp
  show ?thesis
  proof (cases "r3 < 0")
    case True
    then show ?thesis using assms(1) hp i k by (auto simp: to_http_def)
  next
    case False
    then obtain rest' r' where "parse rest c3 = Some (rest', c', r')"
      using assms(1) hp i by (cases "parse rest c3") (auto simp: to_http_def)
    then show ?thesis using leaves_serverD[OF l(2)] k by blast
  qed
qed

lemma guarded_fail [simp]: "guarded (fail_connection e c) = guarded c"
  by (simp add: guarded_def)

lemma guarded_keeps: "guarded c \<Longrightarrow> keeps c c' \<Longrightarrow> guarded c'"
  by (auto simp: guarded_def keeps_def)

lemma i32_next: "- 2 \<le> n \<Longrightarrow> n < 2147483648 \<Longrightarrow> i32 (n + 1) = (if n = 2147483647 then - 2147483648 else n + 1)"
  by (simp add: i32_def)

lemma guarded_count:
  "guarded c \<Longrightarrow> (cn_kind c = Kind_Rpc_Server \<Longrightarrow> cn_crypto c \<noteq> None \<and> td_in_packet_num (cn_data c) \<noteq> -2147483648) \<Longrightarrow>
    guarded (set_data count_in c)"
  by (auto simp: guarded_def count_in_def i32_next)

lemma user_packet_keeps:
  assumes "execute_keeps env" "user_packet env msg w c = Some (w', c')"
  shows "keeps c c'"
proof -
  have t: "keeps c (c\<lparr>cn_last_response := t\<rparr>)" for t by (simp add: keeps_def)
  have p: "keeps a b" if "tcp_rpcs_default_execute t' op raw a = Some (b, r)" for t' op raw r and a b :: "'b conn"
  proof -
    have "keeps a (a\<lparr>cn_last_response := t'\<rparr>)" by (simp add: keeps_def)
    then show ?thesis using that
      by (auto simp: tcp_rpcs_default_execute_def split: if_splits intro: keeps_trans send_keeps(3))
  qed
  let ?c = "c\<lparr>cn_last_response := sv_precise_now env\<rparr>"
  have "keeps ?c c'"
  proof (cases "int_at msg 0 = RPC_PING")
    case True
    then show ?thesis using assms(2) p by (auto simp: user_packet_def)
  next
    case False
    then obtain rest r where "sv_execute env (int_at msg 0) msg (sw_rest w) ?c = Some (rest, c', r)"
      using assms(2) by (auto simp: user_packet_def)
    then show ?thesis using assms(1) unfolding execute_keeps_def by blast
  qed
  then show ?thesis by (rule keeps_trans[OF t])
qed

lemma whole_packet_guarded:
  assumes "whole_packet env n w c = Some (w', c', e)" "guarded c" "cn_kind c = Kind_Rpc_Server" "execute_keeps env"
  shows "guarded c'"
proof -
  define msg where "msg = take n (cn_in c)"
  define body where "body = take (n - 4) msg"
  define c1 where "c1 = c\<lparr>cn_in := drop n (cn_in c)\<rparr>"
  have g1: "guarded c1" "cn_kind c1 = Kind_Rpc_Server" "cn_data c1 = cn_data c" "cn_crypto c1 = cn_crypto c"
    using assms(2,3) by (auto simp: c1_def guarded_def)
  have num: "td_in_packet_num (cn_data c) \<noteq> -3" "\<not> has_flag (td_crypto_flags (cn_data c)) RPCF_SEQNO_HOLES"
    "\<not> has_flag (td_crypto_flags (cn_data c1)) RPCF_ALLOW_UNENC"
    using assms(2,3) g1(3) by (auto simp: guarded_def)
  note eq = assms(1)[unfolded whole_packet_def Let_def, folded msg_def, folded body_def c1_def]
  let ?num = "sint (int_at body 4)"
  consider "c' = fail_connection (-1) c1" | "?num = td_in_packet_num (cn_data c)" "?num < 0"
      "\<exists>w2 c2 res. own_packet env ?num (drop 8 body) w c1 = Some (w2, c2, res) \<and>
         c' = (if res < 0 then fail_connection res c2 else set_data count_in c2)"
    | "?num = td_in_packet_num (cn_data c)" "0 \<le> ?num" "\<exists>w2 c2. user_packet env (drop 8 body) w c1 = Some (w2, c2) \<and> c' = set_data count_in c2"
    using eq num(1,2) by (auto simp: bind_eq_Some_conv g1(3) split: if_split_asm)
  then show ?thesis
  proof cases
    case 1
    then show ?thesis using g1 by simp
  next
    case 2
    then obtain w2 c2 res where o: "own_packet env ?num (drop 8 body) w c1 = Some (w2, c2, res)"
      "c' = (if res < 0 then fail_connection res c2 else set_data count_in c2)" by blast
    from own_packet_keeps[OF o(1) num(3)] have k: "keeps c1 c2" "?num = -2 \<and> 0 \<le> res \<longrightarrow> cn_crypto c2 \<noteq> None" by auto
    have "cn_crypto c2 \<noteq> None \<and> td_in_packet_num (cn_data c2) \<noteq> -2147483648" if "0 \<le> res"
      using own_packet_num[OF o(1) that] that k g1 2(1) by (cases "?num = -2") (auto simp: guarded_def keeps_def)
    then show ?thesis using o(2) guarded_keeps[OF g1(1) k(1)] guarded_count[of c2] by auto
  next
    case 3
    then obtain w2 c2 where u: "user_packet env (drop 8 body) w c1 = Some (w2, c2)" "c' = set_data count_in c2" by blast
    have k: "keeps c1 c2" by (rule user_packet_keeps[OF assms(4) u(1)])
    have "cn_crypto c1 \<noteq> None" "0 \<le> td_in_packet_num (cn_data c1)" using 3 g1 by (auto simp: guarded_def)
    then show ?thesis using u(2) guarded_keeps[OF g1(1) k] guarded_count[of c2] k by (auto simp: keeps_def)
  qed
qed

lemma packet_step_guarded:
  assumes "packet_step env n w c = Some (w', c', e)" "guarded c" "cn_kind c = Kind_Rpc_Server" "execute_keeps env" "http_leaves env"
  shows "guarded c'"
proof -
  have in': "guarded (c\<lparr>cn_in := x\<rparr>)" for x using assms(2) by (simp add: guarded_def)
  have http: "guarded c2" if "to_http env w c = Some (w2, c2, r)" for w2 c2 r
    using to_http_leaves[OF that assms(5)] by (simp add: guarded_def)
  let ?n = "sint n"
  note eq = assms(1)[unfolded packet_step_def Let_def]
  show ?thesis
  proof (cases "?n \<le> 0 \<or> has_flag n 0xc0000003")
    case bad: True
    note eq = eq[unfolded if_P[OF bad]]
    show ?thesis
    proof (cases "td_in_packet_num (cn_data c) \<le> -2 \<and> n \<in> set http_words \<and> sv_http env \<noteq> None")
      case True
      from eq[unfolded if_P[OF this]] show ?thesis using http by auto
    next
      case False
      from eq[unfolded if_not_P[OF this]] have "c' = fail_connection (-1) c" by (simp only: option.inject prod.inject)
      then show ?thesis using assms(2) by simp
    qed
  next
    case False
    note eq = eq[unfolded if_not_P[OF False]]
    have "(c' = fail_connection (-1) c \<or> c' = c\<lparr>cn_in := drop 4 (cn_in c)\<rparr> \<or> c' = c) \<or> whole_packet env (nat ?n) w c = Some (w', c', e)"
      using eq by (simp only: split: if_split_asm) (simp_all only: option.inject prod.inject simp_thms)
    then show ?thesis using assms(2) in' whole_packet_guarded[OF _ assms(2-4)] by auto
  qed
qed

lemma parse_step_guarded:
  assumes "parse_step env w c = Some (w', c', e)" "guarded c" "cn_kind c = Kind_Rpc_Server" "execute_keeps env" "http_leaves env"
  shows "guarded c'"
proof -
  let ?c = "set_data (\<lambda>d. d\<lparr>td_flags := (td_flags d AND NOT RPC_F_QUICKACK) OR (le32 (cn_in c) AND RPC_F_QUICKACK)\<rparr>) c"
  have "guarded ?c" "cn_kind ?c = Kind_Rpc_Server" using assms(2,3) by (simp_all add: guarded_def)
  note q = packet_step_guarded[OF _ this assms(4,5)] packet_step_guarded[OF _ assms(2-5)]
  show ?thesis
    using assms(1,2) unfolding parse_step_def Let_def by (auto split: if_split_asm dest: q)
qed

text \<open>The life of a connection: bytes arrive, the parser takes a step.\<close>

inductive rpc_run :: "('w, 'k) srv_env \<Rightarrow> 'w srv \<Rightarrow> 'k conn \<Rightarrow> bool" for env where
  rpc_accepted: "tcp_rpcs_init_accepted env (new_conn Kind_Rpc_Server port) = (c, 0) \<Longrightarrow> rpc_run env w c"
| rpc_bytes: "rpc_run env w c \<Longrightarrow> rpc_run env w (c\<lparr>cn_in := cn_in c @ d\<rparr>)"
| rpc_step: "rpc_run env w c \<Longrightarrow> cn_kind c = Kind_Rpc_Server \<Longrightarrow> parse_step env w c = Some (w', c', e) \<Longrightarrow> rpc_run env w' c'"

lemma accepted_guarded:
  assumes "tcp_rpcs_init_accepted env (new_conn Kind_Rpc_Server port) = (c, 0)" "sv_check_perm env = Some perm" "\<not> has_flag perm RPCF_ALLOW_UNENC"
  shows "guarded c"
proof -
  have "\<not> has_flag (perm AND (RPCF_ALLOW_UNENC OR RPCF_ALLOW_ENC OR RPCF_REQ_DH OR RPCF_ALLOW_SKIP_DH)) RPCF_SEQNO_HOLES"
    by (simp add: has_flag_def flag_simps and.assoc)
  then show ?thesis
    using assms by (auto simp: tcp_rpcs_init_accepted_def Let_def guarded_def new_conn_def split: if_splits)
qed

lemma rpc_run_guarded:
  assumes "rpc_run env w c" "sv_check_perm env = Some perm" "\<not> has_flag perm RPCF_ALLOW_UNENC" "execute_keeps env" "http_leaves env"
  shows "guarded c"
  using assms(1)
proof induction
  case (rpc_accepted port c w)
  then show ?case using accepted_guarded assms(2,3) by blast
next
  case (rpc_bytes w c d)
  then show ?case by (simp add: guarded_def)
next
  case (rpc_step w c w' c' e)
  then show ?case using parse_step_guarded assms(4,5) by blast
qed

section \<open>The handler is not called before\<close>

lemma env_fields:
  "sv_crc (env\<lparr>sv_execute := f\<rparr>) = sv_crc env"
  "sv_now (env\<lparr>sv_execute := f\<rparr>) = sv_now env"
  "sv_precise_now (env\<lparr>sv_execute := f\<rparr>) = sv_precise_now env"
  "sv_getpid (env\<lparr>sv_execute := f\<rparr>) = sv_getpid env"
  "sv_my_ipv4 (env\<lparr>sv_execute := f\<rparr>) = sv_my_ipv4 env"
  "sv_secret_len (env\<lparr>sv_execute := f\<rparr>) = sv_secret_len env"
  "sv_key_signature (env\<lparr>sv_execute := f\<rparr>) = sv_key_signature env"
  "sv_dh_init (env\<lparr>sv_execute := f\<rparr>) = sv_dh_init env"
  "sv_dh_prime (env\<lparr>sv_execute := f\<rparr>) = sv_dh_prime env"
  "sv_dh (env\<lparr>sv_execute := f\<rparr>) = sv_dh env"
  "sv_nonce (env\<lparr>sv_execute := f\<rparr>) = sv_nonce env"
  "sv_keys (env\<lparr>sv_execute := f\<rparr>) = sv_keys env"
  "sv_check_perm (env\<lparr>sv_execute := f\<rparr>) = sv_check_perm env"
  "sv_default_flags (env\<lparr>sv_execute := f\<rparr>) = sv_default_flags env"
  "sv_ignore_pid (env\<lparr>sv_execute := f\<rparr>) = sv_ignore_pid env"
  "sv_max_packet_len (env\<lparr>sv_execute := f\<rparr>) = sv_max_packet_len env"
  "sv_http (env\<lparr>sv_execute := f\<rparr>) = sv_http env"
  by simp_all

lemma own_packet_env: "own_packet (env\<lparr>sv_execute := f\<rparr>) num msg w c = own_packet env num msg w c"
  unfolding own_packet_def tcp_rpcs_process_nonce_packet_def tcp_rpcs_process_handshake_packet_def
    tcp_rpcs_send_handshake_packet_def tcp_rpcs_init_crypto_def choose_crypto_def tcp_rpcs_init_fake_crypto_def
    accept_dh_def answer_nonce_def dh_second_round_def env_fields ..

lemma whole_packet_env:
  assumes "td_in_packet_num (cn_data c) = -2" "\<not> has_flag (td_crypto_flags (cn_data c)) RPCF_SEQNO_HOLES"
  shows "whole_packet (env\<lparr>sv_execute := f\<rparr>) n w c = whole_packet env n w c"
  using assms by (simp add: whole_packet_def Let_def own_packet_env)

lemma packet_step_env:
  assumes "td_in_packet_num (cn_data c) = -2" "\<not> has_flag (td_crypto_flags (cn_data c)) RPCF_SEQNO_HOLES"
  shows "packet_step (env\<lparr>sv_execute := f\<rparr>) n w c = packet_step env n w c"
  unfolding packet_step_def to_http_def env_fields whole_packet_env[OF assms] ..

lemma parse_step_env:
  assumes "td_in_packet_num (cn_data c) = -2" "\<not> has_flag (td_crypto_flags (cn_data c)) RPCF_SEQNO_HOLES"
  shows "parse_step (env\<lparr>sv_execute := f\<rparr>) w c = parse_step env w c"
  using assms by (simp add: parse_step_def Let_def packet_step_env)

section \<open>Properties\<close>

text \<open>
  C12. A server that does not allow plain text never serves a packet on a plain connection: in every run
  of such a connection, as long as no keys were made, the next step is the same whatever the handler
  of packets is, so the handler has no part in it.
\<close>

theorem no_service_before_encryption:
  assumes "rpc_run env w c" "sv_check_perm env = Some perm" "\<not> has_flag perm RPCF_ALLOW_UNENC" "execute_keeps env" "http_leaves env"
    "cn_kind c = Kind_Rpc_Server" "cn_crypto c = None"
  shows "parse_step (env\<lparr>sv_execute := f\<rparr>) w c = parse_step env w c"
proof -
  have "guarded c" by (rule rpc_run_guarded[OF assms(1-5)])
  then show ?thesis using assms(6,7) by (intro parse_step_env) (auto simp: guarded_def)
qed

definition example_env :: "(unit, nat) srv_env" where
  "example_env = \<lparr>sv_crc = (\<lambda>_ _. 0), sv_now = 1000, sv_precise_now = 0, sv_getpid = 77, sv_my_ipv4 = 5, sv_secret_len = 128,
     sv_key_signature = 0x1234, sv_dh_init = 9, sv_dh_prime = [0x89, 0x52, 0x13, 0x1b, 0x1e, 0x3a, 0x69, 0xba],
     sv_dh = (\<lambda>_. (replicate 256 1, replicate 256 2)), sv_nonce = replicate 16 3, sv_keys = (\<lambda>_ _ _ _. Some (1, 2)),
     sv_check_perm = Some (tcp_rpcs_default_check_perm 0), sv_default_flags = 0, sv_ignore_pid = False, sv_max_packet_len = 0,
     sv_execute = (\<lambda>_ _ w c. Some (w, c, 0)), sv_http = None\<rparr>"

definition example_srv :: "unit srv" where
  "example_srv = \<lparr>sw_pid = zero_pid, sw_dh_select = 9, sw_dh_rate = \<lparr>dh_remaining = 0, dh_time = 0, dh_max = 0\<rparr>,
     sw_active_dh = 0, sw_notifications = [], sw_rest = ()\<rparr>"

definition example_accepted :: "nat conn" where
  "example_accepted = fst (tcp_rpcs_init_accepted example_env (new_conn Kind_Rpc_Server 8888))"

lemma example_accepted_init: "tcp_rpcs_init_accepted example_env (new_conn Kind_Rpc_Server 8888) = (example_accepted, 0)"
  unfolding example_accepted_def
  by (simp add: tcp_rpcs_init_accepted_def example_env_def tcp_rpcs_default_check_perm_def flag_simps has_flag_def)

lemma example_accepted_fields:
  "cn_kind example_accepted = Kind_Rpc_Server" "cn_crypto example_accepted = None"
  "td_in_packet_num (cn_data example_accepted) = -2" "td_crypto_flags (cn_data example_accepted) = 6"
  by (simp_all add: example_accepted_def tcp_rpcs_init_accepted_def example_env_def tcp_rpcs_default_check_perm_def flag_simps
      has_flag_def new_conn_def)

theorem no_service_before_encryption_witness:
  "parse_step (example_env\<lparr>sv_execute := (\<lambda>_ _ _ _. None)\<rparr>) example_srv (example_accepted\<lparr>cn_in := cn_in example_accepted @ [1, 2, 3, 4]\<rparr>) =
   parse_step example_env example_srv (example_accepted\<lparr>cn_in := cn_in example_accepted @ [1, 2, 3, 4]\<rparr>)"
proof (rule no_service_before_encryption)
  show "rpc_run example_env example_srv (example_accepted\<lparr>cn_in := cn_in example_accepted @ [1, 2, 3, 4]\<rparr>)"
    by (intro rpc_bytes rpc_accepted[OF example_accepted_init])
  show "sv_check_perm example_env = Some (tcp_rpcs_default_check_perm 0)" by (simp add: example_env_def)
  show "\<not> has_flag (tcp_rpcs_default_check_perm 0) RPCF_ALLOW_UNENC"
    by (simp add: tcp_rpcs_default_check_perm_def flag_simps has_flag_def)
  show "execute_keeps example_env" by (simp add: execute_keeps_def example_env_def)
  show "http_leaves example_env" by (simp add: http_leaves_def example_env_def)
qed (simp_all add: example_accepted_fields)

text \<open>The nonce packet of a client whose Diffie-Hellman value is zero.\<close>

definition zero_share_packet :: "u32 \<Rightarrow> u32 \<Rightarrow> u32 \<Rightarrow> byte list" where
  "zero_share_packet key ts sel =
     bytes_le RPC_NONCE @ bytes_le key @ bytes_le 3 @ bytes_le ts @ replicate 16 0 @ bytes_le 0 @ bytes_le sel @ replicate 256 0"

lemma zero_share_fields:
  "length (zero_share_packet key ts sel) = 296" "int_at (zero_share_packet key ts sel) 0 = RPC_NONCE"
  "int_at (zero_share_packet key ts sel) 4 = key" "int_at (zero_share_packet key ts sel) 8 = 3"
  "int_at (zero_share_packet key ts sel) 12 = ts" "int_at (zero_share_packet key ts sel) 32 = 0"
  "int_at (zero_share_packet key ts sel) 36 = sel" "drop 40 (zero_share_packet key ts sel) = replicate 256 0"
  by (simp_all add: zero_share_packet_def int_at_def)

text \<open>
  C37. A client can stop the server: \<open>dh_second_round\<close> returns 0 for a Diffie-Hellman value that is not in
  the range allowed, and \<open>tcp_rpcs_init_crypto\<close> asserts that it returned 256.  One nonce packet with
  the value 0 is enough, on a connection as the server accepts it by default; the client needs the
  signature of the key, which is sent in the clear, but not the key.
\<close>

theorem zero_share_stops_server:
  assumes "td_in_packet_num (cn_data c) = -2" "td_crypto_flags (cn_data c) = tcp_rpcs_default_check_perm 0" "cn_crypto c = None"
    "4 \<le> sv_secret_len env" "sv_key_signature env \<noteq> 0" "sw_dh_select w \<noteq> 0" "dh_max (sw_dh_rate w) = 0"
    "0 \<le> sv_now env" "sv_now env < 2 ^ 31"
  shows "tcp_rpcs_process_nonce_packet env
    (zero_share_packet (sv_key_signature env) (of_int (sv_now env)) (sw_dh_select w)) w c = None"
proof -
  let ?P = "zero_share_packet (sv_key_signature env) (of_int (sv_now env)) (sw_dh_select w)"
  have fl: "td_crypto_flags (cn_data c) = 6"
    using assms(2) by (simp add: tcp_rpcs_default_check_perm_def flag_simps)
  have now: "sint (of_int (sv_now env) :: u32) = sv_now env"
    using assms(8,9) by (simp add: sint_sbintrunc' signed_take_bit_int_eq_self)
  have len: "nonce_length_ok ?P"
    by (simp add: nonce_length_ok_def Let_def zero_share_fields extra_count_def RPC_MAX_EXTRA_KEYS_def)
  have dh: "dh_params_of ?P = sw_dh_select w" "g_a_of ?P = replicate 256 0" "extra_keys ?P = []"
    by (simp_all add: dh_params_of_def g_a_of_def extra_keys_def extra_count_def zero_share_fields)
  have best: "select_best_key_signature (sv_secret_len env) (sv_key_signature env) (sv_key_signature env) [] = Some (sv_key_signature env)"
    using assms(4) by (simp add: select_best_key_signature_def)
  have ch: "choose_crypto env (sw_dh_select w) 6 nt ?P = Some (Inr (6, sv_key_signature env, sv_now env, True))" for nt
    using assms(5,6) by (simp add: choose_crypto_def zero_share_fields dh best has_flag_def flag_simps now c_abs_def i32_def)
  have bad: "dh_second_round env (replicate 256 0) = ([], [], 0)"
    by (simp add: dh_second_round_def is_good_rpc_dh_bin_def)
  have "accept_dh env ?P w c' = None" for c'
    using assms(6,7) by (simp add: accept_dh_def zero_share_fields dh tcp_add_dh_accept_def bad)
  then show ?thesis
    using assms(1,3,6) len
    by (simp add: tcp_rpcs_process_nonce_packet_def zero_share_fields fl ch tcp_rpcs_init_crypto_def has_flag_def flag_simps Let_def)
qed

theorem zero_share_stops_server_witness:
  "tcp_rpcs_process_nonce_packet example_env
    (zero_share_packet (sv_key_signature example_env) (of_int (sv_now example_env)) (sw_dh_select example_srv)) example_srv example_accepted = None"
  by (rule zero_share_stops_server)
    (simp_all add: example_accepted_fields tcp_rpcs_default_check_perm_def flag_simps example_env_def example_srv_def)

end
