(* ===== verification/RPC_Frames.thy ===== *)
theory RPC_Frames
  imports RPC_Handshake
begin

text \<open>
  A packet that one side writes is the packet that the other side serves: the frame with length,
  number and checksum of the inner connections.
\<close>

lemma sint_of_int_u32: "0 \<le> x \<Longrightarrow> x < 2 ^ 31 \<Longrightarrow> sint (of_int x :: u32) = x"
  by (simp add: sint_sbintrunc' signed_take_bit_int_eq_self)

lemma sint_of_nat_u32: "n < 2 ^ 31 \<Longrightarrow> sint (of_nat n :: u32) = int n"
  using sint_of_int_u32[of "int n"] by simp

lemma unat_of_nat_u32: "n < 2 ^ 32 \<Longrightarrow> unat (of_nat n :: u32) = n"
  by (simp add: unat_of_nat)

lemma bit_above: "n < 2 ^ k \<Longrightarrow> k \<le> i \<Longrightarrow> \<not> bit (n :: nat) i"
  by (metis bit_take_bit_iff linorder_not_less take_bit_nat_eq_self)

text \<open>A length that is a multiple of four and below \<open>2 ^ 30\<close> has none of the forbidden bits.\<close>

lemma length_bits:
  assumes "n mod 4 = 0" "n < 2 ^ 30"
  shows "\<not> has_flag (of_nat n :: u32) 0xc0000003"
proof -
  have c: "(0xc0000003 :: u32) = push_bit 30 3 OR 3" by simp
  have low: "\<not> bit n i" if "i < 2" for i
  proof -
    have "take_bit 2 n = 0" using assms(1) by (simp add: take_bit_eq_mod)
    then show ?thesis using that by (metis bit_0_eq bit_take_bit_iff bot_apply bot_bool_def)
  qed
  have "(of_nat n :: u32) AND 0xc0000003 = 0"
  proof (rule bit_word_eqI)
    fix i assume "i < LENGTH(32)"
    have "\<not> (bit n i \<and> bit (push_bit 30 3 OR 3 :: u32) i)"
    proof
      assume b: "bit n i \<and> bit (push_bit 30 3 OR 3 :: u32) i"
      have "2 \<le> i" using b low[of i] by (cases "i < 2") auto
      moreover have "i < 30" using b bit_above[OF assms(2), of i] by (cases "30 \<le> i") auto
      moreover have "(3 :: u32) = mask 2" by (simp add: mask_eq_exp_minus_1)
      ultimately have "\<not> bit (push_bit 30 3 :: u32) i" "\<not> bit (3 :: u32) i"
        by (simp_all only: bit_push_bit_iff bit_mask_iff) auto
      then show False using b unfolding bit_or_iff by blast
    qed
    then show "bit ((of_nat n :: u32) AND 0xc0000003) i = bit (0 :: u32) i"
      unfolding c by (auto simp: bit_simps)
  qed
  then show ?thesis by (simp add: has_flag_def)
qed

lemma rpc_frame_length [simp]: "length (rpc_frame crc d raw) = length raw + 12"
  by (simp add: rpc_frame_def Let_def)

lemma frame_served:
  assumes "cn_in c = rpc_frame (sv_crc env) d raw @ rest" "td_in_packet_num (cn_data c) = td_out_packet_num d"
    "0 \<le> td_out_packet_num d" "td_out_packet_num d < 2 ^ 31" "td_crc32c (cn_data c) = td_crc32c d"
    "\<not> cn_error_flag c" "\<not> cn_stopparse c" "\<not> has_flag (td_crypto_flags (cn_data c)) RPCF_QUICKACK"
    "length raw mod 4 = 0" "4 \<le> length raw" "length raw + 12 < 2 ^ 30" "sv_max_packet_len env \<le> 0 \<or> int (length raw) + 12 \<le> sv_max_packet_len env"
  shows "parse_step env w c =
    map_option (\<lambda>(w, c). (w, set_data count_in c, Again)) (user_packet env raw w (c\<lparr>cn_in := rest\<rparr>))"
proof -
  let ?n = "length raw + 12"
  let ?L = "of_nat ?n :: u32" and ?N = "of_int (td_out_packet_num d) :: u32"
  let ?body = "bytes_le ?L @ bytes_le ?N @ raw"
  let ?crc = "sv_crc env (td_crc32c d) ?body"
  have frame: "rpc_frame (sv_crc env) d raw = ?body @ bytes_le ?crc"
    unfolding rpc_frame_def Let_def by simp
  have cin: "cn_in c = ?body @ bytes_le ?crc @ rest" using assms(1) frame by simp
  have head: "le32 (cn_in c) = ?L" unfolding cin append_assoc by (rule le32_bytes_le)
  have flag: "\<not> has_flag ?L 0xc0000003" using assms(9,11) by (intro length_bits) auto
  have sL: "sint ?L = int ?n" using assms(11) by (intro sint_of_nat_u32) simp
  have sN: "sint ?N = td_out_packet_num d" using assms(3,4) by (rule sint_of_int_u32)
  have lb: "length ?body = length raw + 8" by simp
  have tk: "take ?n (cn_in c) = ?body @ bytes_le ?crc" "drop ?n (cn_in c) = rest"
    unfolding cin by (simp_all del: of_nat_add)
  have w1: "whole_packet env ?n w c =
      map_option (\<lambda>(w, c). (w, set_data count_in c, Again)) (user_packet env raw w (c\<lparr>cn_in := rest\<rparr>))"
  proof -
    have body: "take (?n - 4) (?body @ bytes_le ?crc) = ?body" "drop (?n - 4) (?body @ bytes_le ?crc) = bytes_le ?crc"
      by (simp_all del: of_nat_add)
    have num: "int_at ?body 4 = ?N" "drop 8 ?body = raw"
      by (simp_all add: int_at_def del: of_nat_add)
    show ?thesis
      unfolding whole_packet_def Let_def tk body num le32_bytes_le_0
      using assms(2,3,5) sN by (simp add: map_option_case split: option.split)
  qed
  have step: "packet_step env ?L w c = whole_packet env ?n w c"
    unfolding packet_step_def Let_def sL using flag assms(10,12) cin by (auto simp del: of_nat_add)
  show ?thesis
    using assms(6-8) cin unfolding parse_step_def Let_def head step[symmetric] w1[symmetric]
    by (simp del: of_nat_add)
qed

text \<open>
  The inner protocol delivers what is sent: when a packet has been written with
  \<open>tcp_rpc_write_packet\<close> by a side whose counter and checksum agree with the receiver's, the receiver's
  next step hands exactly this packet to the handler, leaves the bytes behind it, and counts it.
\<close>

theorem written_packet_is_served:
  assumes "\<not> has_flag (td_flags (cn_data a)) (RPC_F_COMPACT OR RPC_F_MEDIUM)" "cn_out a = []"
    "cn_in c = cn_out (tcp_rpc_write_packet (sv_crc env) raw a) @ rest"
    "td_in_packet_num (cn_data c) = td_out_packet_num (cn_data a)" "0 \<le> td_out_packet_num (cn_data a)" "td_out_packet_num (cn_data a) < 2 ^ 31"
    "td_crc32c (cn_data c) = td_crc32c (cn_data a)" "\<not> cn_error_flag c" "\<not> cn_stopparse c"
    "\<not> has_flag (td_crypto_flags (cn_data c)) RPCF_QUICKACK" "length raw mod 4 = 0" "4 \<le> length raw" "length raw + 12 < 2 ^ 30"
    "sv_max_packet_len env \<le> 0 \<or> int (length raw) + 12 \<le> sv_max_packet_len env"
  shows "parse_step env w c = map_option (\<lambda>(w, c). (w, set_data count_in c, Again)) (user_packet env raw w (c\<lparr>cn_in := rest\<rparr>))
    \<and> td_out_packet_num (cn_data (tcp_rpc_write_packet (sv_crc env) raw a)) = i32 (td_out_packet_num (cn_data a) + 1)"
proof
  have "cn_in c = rpc_frame (sv_crc env) (cn_data a) raw @ rest"
    using assms(1-3) by (simp add: tcp_rpc_write_packet_def)
  then show "parse_step env w c = map_option (\<lambda>(w, c). (w, set_data count_in c, Again)) (user_packet env raw w (c\<lparr>cn_in := rest\<rparr>))"
    using assms(4-14) by (intro frame_served)
qed (use assms(1) in \<open>simp add: tcp_rpc_write_packet_def count_out_def\<close>)

definition example_writer :: "nat conn" where
  "example_writer = (new_conn Kind_Rpc_Server 1)"

definition example_reader :: "nat conn" where
  "example_reader = (new_conn Kind_Rpc_Server 1)\<lparr>cn_in := cn_out (tcp_rpc_write_packet (sv_crc example_env) [1, 2, 3, 4] example_writer) @ [9]\<rparr>"

theorem written_packet_is_served_witness:
  "parse_step example_env example_srv example_reader =
     map_option (\<lambda>(w, c). (w, set_data count_in c, Again)) (user_packet example_env [1, 2, 3, 4] example_srv (example_reader\<lparr>cn_in := [9]\<rparr>))
   \<and> td_out_packet_num (cn_data (tcp_rpc_write_packet (sv_crc example_env) [1, 2, 3, 4] example_writer)) = i32 (td_out_packet_num (cn_data example_writer) + 1)"
  by (rule written_packet_is_served)
    (simp_all add: example_reader_def example_writer_def new_conn_def zero_data_def has_flag_def flag_simps example_env_def)

end
