(* ===== verification/Ext_Frames.thy ===== *)
theory Ext_Frames
  imports Ext_Server RPC_Frames
begin

text \<open>
  The frames between the proxy and its clients: what \<open>tcp_rpc_write_packet_compact\<close> writes in each of
  the three modes is what the parser reads.
\<close>

section \<open>Bits of a length\<close>

lemma of_nat_and_high: "n < 2 ^ k \<Longrightarrow> (of_nat n :: u32) AND push_bit k m = 0"
  using bit_above[of n k] by (auto intro!: bit_word_eqI simp: bit_simps not_le)

lemma and_not_disjoint: "x AND y = 0 \<Longrightarrow> x AND NOT y = (x :: u32)"
proof (rule bit_word_eqI)
  fix n assume x: "x AND y = 0" and n: "n < LENGTH(32)"
  have "\<not> (bit x n \<and> bit y n)" using x by (metis bit_0_eq bit_and_iff bot_apply bot_bool_def)
  then show "bit (x AND NOT y) n = bit x n" using n by (auto simp: bit_simps)
qed

lemma has_flag_80: "has_flag x 0x80 \<longleftrightarrow> bit x 7"
  using and_exp_eq_0_iff_not_bit[of x 7] by (simp add: has_flag_def)

lemma no_quickack: "n < 2 ^ 31 \<Longrightarrow> (of_nat n :: u32) AND RPC_F_QUICKACK = 0"
  using of_nat_and_high[of n 31 1] by (simp add: RPC_F_QUICKACK_def)

lemma no_top_bits: "n < 2 ^ 30 \<Longrightarrow> \<not> has_flag (of_nat n :: u32) 0xc0000000"
  using of_nat_and_high[of n 30 3] by (simp add: has_flag_def)

lemma low_bits_zero: "n mod 4 = 0 \<Longrightarrow> \<not> has_flag (of_nat n :: u32) 3"
proof -
  assume "n mod 4 = 0"
  then have "take_bit 2 n = 0" by (simp add: take_bit_eq_mod)
  moreover have "take_bit 2 (of_nat n :: u32) = of_nat (take_bit 2 n)" by (simp add: take_bit_of_nat)
  moreover have "(of_nat n :: u32) AND 3 = take_bit 2 (of_nat n)" by (simp add: take_bit_eq_mask mask_eq_exp_minus_1)
  ultimately show ?thesis by (simp add: has_flag_def)
qed

section \<open>The three modes\<close>

lemma frame_length_medium:
  assumes "has_flag flags RPC_F_MEDIUM" "n < 2 ^ 31"
  shows "frame_length flags (of_nat n) = Some (flags AND NOT RPC_F_QUICKACK, of_nat n, 4)"
  using assms no_quickack[of n] by (simp add: frame_length_def and_not_disjoint)

text \<open>The first byte alone decides the short form.\<close>

lemma le32_low: "i < 8 \<Longrightarrow> bit (le32 b) i = bit (b ! 0) i"
  by (auto simp: le32_def bit_simps)

lemma frame_length_short:
  assumes "\<not> has_flag flags RPC_F_MEDIUM" "k \<le> 0x7e" "b ! 0 = of_nat k"
  shows "frame_length flags (le32 b) = Some (flags AND NOT RPC_F_QUICKACK, of_nat (4 * k), 1)"
proof -
  have k7: "k < 2 ^ 7" using assms(2) by simp
  have hb: "bit (le32 b) i = bit k i" if "i < 8" for i
    using le32_low[OF that, of b] that assms(3) by (simp add: bit_simps)
  have b7: "\<not> has_flag (le32 b) 0x80"
    using hb[of 7] bit_above[OF k7, of 7] by (simp add: has_flag_80)
  then have n80: "le32 b AND NOT 0x80 = le32 b" by (intro and_not_disjoint) (simp add: has_flag_def)
  have low: "le32 b AND mask m = of_nat k" if "7 \<le> m" "m \<le> 8" for m
  proof (rule bit_word_eqI)
    fix i assume i: "i < LENGTH(32)"
    show "bit (le32 b AND mask m) i = bit (of_nat k :: u32) i"
      using i hb[of i] bit_above[OF k7, of i] that by (cases "i < 7") (auto simp: bit_simps)
  qed
  have "(of_nat k :: u32) \<noteq> 0x7f"
  proof
    assume "(of_nat k :: u32) = 0x7f"
    then have "unat (of_nat k :: u32) = unat (0x7f :: u32)" by simp
    then show False using assms(2) by (simp add: unat_of_nat_u32)
  qed
  moreover have "push_bit 2 (of_nat k :: u32) = of_nat (4 * k)" by (simp add: push_bit_eq_mult)
  ultimately show ?thesis
    unfolding frame_length_def Let_def n80 compact_ack_def
    using assms(1) b7 low[of 7] low[of 8] by (simp add: mask_eq_exp_minus_1)
qed

lemma frame_length_long:
  assumes "\<not> has_flag flags RPC_F_MEDIUM" "n mod 4 = 0" "0x7e * 4 < n" "n < 2 ^ 26"
  shows "frame_length flags (push_bit 6 (of_nat n) OR 0x7f) = Some (flags AND NOT RPC_F_QUICKACK, of_nat n, 4)"
proof -
  define m where "m = n div 4"
  have n: "n = 4 * m" using assms(2) mult_div_mod_eq[of 4 n] by (simp add: m_def)
  have m: "m < 2 ^ 24" "0x7f \<le> m" using assms(3,4) n by auto
  let ?w = "push_bit 6 (of_nat n) OR 0x7f :: u32"
  have w: "?w = push_bit 8 (of_nat m) OR mask 7"
    by (simp add: n push_bit_eq_mult mask_eq_exp_minus_1 mult.commute)
  have b7: "\<not> has_flag ?w 0x80" unfolding w has_flag_80 by (simp add: bit_simps)
  then have n80: "?w AND NOT 0x80 = ?w" by (intro and_not_disjoint) (simp add: has_flag_def)
  have low: "?w AND mask 8 = mask 7"
    unfolding w by (rule bit_word_eqI) (auto simp: bit_simps)
  have high: "drop_bit 8 ?w = of_nat m"
  proof (rule bit_word_eqI)
    fix i assume "i < LENGTH(32)"
    show "bit (drop_bit 8 ?w) i = bit (of_nat m :: u32) i"
      unfolding w using bit_above[OF m(1), of i] by (cases "i < 24") (auto simp: bit_simps)
  qed
  have "\<not> (of_nat m :: u32) < 0x7f"
  proof -
    have "unat (of_nat m :: u32) = m" using m(1) by (intro unat_of_nat_u32) simp
    then show ?thesis using m(2) by (simp add: word_less_nat_alt)
  qed
  moreover have "push_bit 2 (of_nat m :: u32) = of_nat n" by (simp add: n push_bit_eq_mult)
  ultimately show ?thesis
    unfolding frame_length_def Let_def n80 compact_ack_def high
    using assms(1) b7 low by (simp add: mask_eq_exp_minus_1)
qed

section \<open>Writing and reading\<close>

text \<open>A padded message: its length is below the next multiple of four.\<close>

lemma pad_message_length:
  "length raw \<le> length (pad_message flags x y raw)" "length (pad_message flags x y raw) \<le> length raw + 3"
  "take (length raw) (pad_message flags x y raw) = raw"
proof -
  have "y AND 3 = take_bit 2 y" by (simp add: take_bit_eq_mask mask_eq_exp_minus_1)
  then have "unat (y AND 3) = take_bit 2 (unat y)" by (metis unsigned_take_bit_eq)
  then have "unat (y AND 3) < 4" using take_bit_nat_less_exp[of 2 "unat y"] by simp
  then show "length raw \<le> length (pad_message flags x y raw)" "length (pad_message flags x y raw) \<le> length raw + 3"
    "take (length raw) (pad_message flags x y raw) = raw"
    by (auto simp: pad_message_def)
qed

lemma has_flag_clear_quickack:
  "has_flag (flags AND NOT RPC_F_QUICKACK) RPC_F_PAD \<longleftrightarrow> has_flag flags RPC_F_PAD"
proof -
  have "(flags AND NOT RPC_F_QUICKACK) AND RPC_F_PAD = flags AND RPC_F_PAD"
    by (simp add: and.assoc flag_simps)
  then show ?thesis by (simp add: has_flag_def)
qed

text \<open>The length of a written frame is a good one, and the reader finds it.\<close>

lemma frame_length_written:
  assumes "compact_frame flags msg = Some f" "has_flag flags RPC_F_PAD \<longrightarrow> has_flag flags RPC_F_MEDIUM" "0 < length msg"
  shows "\<exists>k. frame_length flags (le32 (f @ rest)) = Some (flags AND NOT RPC_F_QUICKACK, of_nat (length msg), k) \<and>
    drop k (f @ rest) = msg @ rest \<and> length f = length msg + k \<and> length msg < 2 ^ 26 \<and>
    \<not> frame_bad (flags AND NOT RPC_F_QUICKACK) (of_nat (length msg))"
proof -
  let ?n = "length msg"
  have n: "?n < 2 ^ 26" "has_flag flags RPC_F_PAD \<or> ?n mod 4 = 0"
    using assms(1) by (auto simp: compact_frame_def Let_def split: if_splits)
  have good: "\<not> frame_bad (flags AND NOT RPC_F_QUICKACK) (of_nat ?n)"
    using n assms(3) no_top_bits[of ?n] low_bits_zero[of ?n] sint_of_nat_u32[of ?n]
    by (auto simp: frame_bad_def has_flag_clear_quickack)
  consider "has_flag flags RPC_F_MEDIUM" "f = bytes_le (of_nat ?n) @ msg"
    | "\<not> has_flag flags RPC_F_MEDIUM" "?n \<le> 0x7e * 4" "f = [of_nat (?n div 4)] @ msg"
    | "\<not> has_flag flags RPC_F_MEDIUM" "0x7e * 4 < ?n" "f = bytes_le (push_bit 6 (of_nat ?n) OR 0x7f) @ msg"
    using assms(1) unfolding compact_frame_def Let_def
    by (cases "has_flag flags RPC_F_MEDIUM"; cases "?n \<le> 0x7e * 4") (auto split: if_split_asm)
  then show ?thesis
  proof cases
    case 1
    have "frame_length flags (le32 (f @ rest)) = Some (flags AND NOT RPC_F_QUICKACK, of_nat ?n, 4)"
      unfolding 1(2) append_assoc le32_bytes_le using n(1) by (intro frame_length_medium[OF 1(1)]) simp
    then show ?thesis using 1(2) n(1) good by (intro exI[of _ 4]) simp
  next
    case 2
    have "?n mod 4 = 0" using n(2) assms(2) 2(1) by auto
    then have "4 * (?n div 4) = ?n" using mult_div_mod_eq[of 4 ?n] by simp
    moreover have "frame_length flags (le32 (f @ rest)) = Some (flags AND NOT RPC_F_QUICKACK, of_nat (4 * (?n div 4)), 1)"
      using 2 by (intro frame_length_short) auto
    ultimately show ?thesis using 2(3) n(1) good by (intro exI[of _ 1]) simp
  next
    case 3
    have "?n mod 4 = 0" using n(2) assms(2) 3(1) by auto
    then have "frame_length flags (le32 (f @ rest)) = Some (flags AND NOT RPC_F_QUICKACK, of_nat ?n, 4)"
      unfolding 3(3) append_assoc le32_bytes_le using n(1) 3 by (intro frame_length_long) auto
    then show ?thesis using 3(3) n(1) good by (intro exI[of _ 4]) simp
  qed
qed

lemma frame_read:
  assumes "compact_frame (td_flags (cn_data c)) (pad_message (td_flags (cn_data c)) x y raw) = Some f" "cn_in c = f @ rest"
    "has_flag (td_flags (cn_data c)) RPC_F_PAD \<longrightarrow> has_flag (td_flags (cn_data c)) RPC_F_MEDIUM"
    "length raw mod 4 = 0" "0 < length raw" "xe_max_packet_len env \<le> 0 \<or> int (length raw) + 3 \<le> xe_max_packet_len env"
  shows "client_packet env (le32 (cn_in c)) w c =
    serve_message env raw w ((set_data (\<lambda>d. d\<lparr>td_flags := td_flags d AND NOT RPC_F_QUICKACK\<rparr>) c)\<lparr>cn_in := rest\<rparr>)"
proof -
  let ?flags = "td_flags (cn_data c)" and ?msg = "pad_message (td_flags (cn_data c)) x y raw"
  let ?fl = "?flags AND NOT RPC_F_QUICKACK"
  note p = pad_message_length[where raw = raw and flags = "td_flags (cn_data c)" and x = x and y = y]
  have pos: "0 < length ?msg" using p(1) assms(5) by linarith
  obtain k where k: "frame_length ?flags (le32 (f @ rest)) = Some (?fl, of_nat (length ?msg), k)"
    "drop k (f @ rest) = ?msg @ rest" "length f = length ?msg + k" "length ?msg < 2 ^ 26" "\<not> frame_bad ?fl (of_nat (length ?msg))"
    using frame_length_written[OF assms(1,3) pos, of rest] by blast
  have s: "sint (of_nat (length ?msg) :: u32) = int (length ?msg)" "unat (of_nat (length ?msg) :: u32) = length ?msg"
    using k(4) by (simp_all add: sint_of_nat_u32 unat_of_nat_u32)
  have m: "frame_message ?fl (length ?msg) ?msg = raw"
  proof (cases "has_flag ?flags RPC_F_PAD")
    case True
    have "length ?msg div 4 * 4 = length raw" using p(1,2) assms(4) by presburger
    then show ?thesis using True p(3) by (simp add: frame_message_def has_flag_clear_quickack)
  next
    case False
    then show ?thesis by (simp add: frame_message_def has_flag_clear_quickack pad_message_def)
  qed
  have max: "\<not> (int (length ?msg) > xe_max_packet_len env \<and> xe_max_packet_len env > 0)" using p(2) assms(6) by linarith
  have len: "\<not> int (length (f @ rest)) < int (length ?msg) + int k" using k(3) by simp
  show ?thesis
    unfolding client_packet_def assms(2) k(1) option.case prod.case Let_def
    using k(2) len m by (simp add: s assms(2) k(5) if_not_P[OF max])
qed

section \<open>Properties\<close>

text \<open>
  C18. What \<open>tcp_rpc_write_packet_compact\<close> writes is what \<open>tcp_rpcs_compact_parse_execute\<close> reads, in the
  compact, the medium and the padded mode: a step on a connection in the same mode takes exactly the
  frame from the input and serves exactly the message, without the random padding.
\<close>

theorem client_frame_roundtrip:
  assumes "tcp_rpc_write_packet_compact crc x y raw a = Some a'" "cn_out a = []" "\<not> cn_is_tls a \<or> cn_left_tls a \<noteq> -1"
    "has_flag (td_flags (cn_data a)) (RPC_F_COMPACT OR RPC_F_MEDIUM)" "td_flags (cn_data a) = td_flags (cn_data c)"
    "has_flag (td_flags (cn_data c)) RPC_F_PAD \<longrightarrow> has_flag (td_flags (cn_data c)) RPC_F_MEDIUM"
    "cn_in c = cn_out a' @ rest" "length raw mod 4 = 0" "8 \<le> length raw"
    "xe_max_packet_len env \<le> 0 \<or> int (length raw) + 3 \<le> xe_max_packet_len env"
    "0 \<le> td_in_packet_num (cn_data c)" "\<not> cn_error_flag c" "\<not> cn_stopparse c" "\<not> cn_timer c"
  shows "ext_step env w c =
    serve_message env raw w ((set_data (\<lambda>d. d\<lparr>td_flags := td_flags d AND NOT RPC_F_QUICKACK\<rparr>) c)\<lparr>cn_in := rest\<rparr>)"
proof -
  let ?flags = "td_flags (cn_data c)"
  have n5: "length raw \<noteq> 5" using assms(8) by auto
  obtain f where f: "compact_frame ?flags (pad_message ?flags x y raw) = Some f" "cn_out a' = f"
    using assms(1-5) n5 by (auto simp: tcp_rpc_write_packet_compact_def Let_def)
  have cin: "cn_in c = f @ rest" using assms(7) f by simp
  have pos: "0 < length (pad_message ?flags x y raw)" using pad_message_length(1)[of raw ?flags x y] assms(9) by linarith
  obtain k where k: "frame_length ?flags (le32 (f @ rest)) = Some (?flags AND NOT RPC_F_QUICKACK, of_nat (length (pad_message ?flags x y raw)), k)"
    "length f = length (pad_message ?flags x y raw) + k"
    using frame_length_written[OF f(1) assms(6) pos, of rest] by blast
  have "(if has_flag ?flags RPC_F_MEDIUM then 4 else 1) \<le> k"
    using k(1) by (cases "has_flag ?flags RPC_F_MEDIUM") (auto simp: frame_length_def Let_def split: if_splits)
  then have "\<not> length (cn_in c) < (if has_flag ?flags RPC_F_MEDIUM then 4 else 1) + 8"
    using k(2) pad_message_length(1)[of raw ?flags x y] assms(9) cin by simp
  moreover have "c\<lparr>cn_timer := False\<rparr> = c" using assms(14) by simp
  moreover have "client_packet env (le32 (cn_in c)) w c =
      serve_message env raw w ((set_data (\<lambda>d. d\<lparr>td_flags := td_flags d AND NOT RPC_F_QUICKACK\<rparr>) c)\<lparr>cn_in := rest\<rparr>)"
    using assms(9) by (intro frame_read[OF f(1) cin assms(6,8) _ assms(10)]) linarith
  ultimately show ?thesis
    using assms(9,11-13) cin k(2) pos unfolding ext_step_def Let_def by auto
qed

section \<open>A concrete server\<close>

text \<open>
  Concrete functions in place of the cryptography: they are not secure, but they are what the
  hypotheses ask for, and a run can be computed with them.
\<close>

definition example_ext_env :: "byte list ext_env" where
  "example_ext_env = \<lparr>xe_host = good_env 1000, xe_ip = ''10.0.0.1'', xe_now = 1000, xe_precise_now = 0,
     xe_hmac = (\<lambda>k m. take 32 (k @ replicate 32 (hd (m @ [0])))), xe_sha256 = (\<lambda>m. take 32 (rev m)), xe_aes = (\<lambda>k iv. k),
     xe_ks = (\<lambda>k n. hd (k @ [1])), xe_rand = 7, xe_random = (\<lambda>n. replicate n 5), xe_public_key = replicate 32 6,
     xe_self = 3, xe_socket = True, xe_alloc = True, xe_max_packet_len = 0, xe_has_ready = True,
     xe_execute = (\<lambda>t m w c. Some (w, c, 0))\<rparr>"

definition example_world :: "byte list ext_world" where
  "example_world = \<lparr>ew_store = init_store, ew_domains = empty_domains, ew_cache = empty_cache, ew_peers = (\<lambda>_. None), ew_next = 10\<rparr>"

text \<open>Both sides in the padded mode.\<close>

definition example_padded :: "byte list ctr conn" where
  "example_padded = set_data (\<lambda>d. d\<lparr>td_flags := RPC_F_MEDIUM OR RPC_F_EXTMODE2 OR RPC_F_PAD\<rparr>) (new_conn Kind_Ext_Server 443)"

text \<open>A message of eight bytes, with three bytes of padding behind it.\<close>

lemma example_padded_written:
  "tcp_rpc_write_packet_compact (\<lambda>_ _. 0) 0x01020304 7 [1, 2, 3, 4, 5, 6, 7, 8] example_padded =
     Some (example_padded\<lparr>cn_out := [11, 0, 0, 0, 1, 2, 3, 4, 5, 6, 7, 8, 4, 3, 2]\<rparr>)"
  by (simp add: tcp_rpc_write_packet_compact_def example_padded_def new_conn_def zero_data_def has_flag_def flag_simps
      pad_message_def compact_frame_def bytes_le_def)

theorem client_frame_roundtrip_witness:
  "ext_step example_ext_env example_world (example_padded\<lparr>cn_in := [11, 0, 0, 0, 1, 2, 3, 4, 5, 6, 7, 8, 4, 3, 2, 99]\<rparr>) =
     serve_message example_ext_env [1, 2, 3, 4, 5, 6, 7, 8] example_world
       ((set_data (\<lambda>d. d\<lparr>td_flags := td_flags d AND NOT RPC_F_QUICKACK\<rparr>)
          (example_padded\<lparr>cn_in := [11, 0, 0, 0, 1, 2, 3, 4, 5, 6, 7, 8, 4, 3, 2, 99]\<rparr>))\<lparr>cn_in := [99]\<rparr>)"
  by (rule client_frame_roundtrip[OF example_padded_written])
    (simp_all add: example_padded_def new_conn_def zero_data_def has_flag_def flag_simps example_ext_env_def)

end
