(* ===== verification/Ext_Clients.thy ===== *)
theory Ext_Clients
  imports Ext_Frames
begin

text \<open>
  The packets of an accepted client: without padding no input can stop the server and the loop always
  returns, until the number of packets passes the range of an \<open>int\<close>, when the next packet stops it; with
  padding a packet of one to three bytes is enough to stop it.
\<close>

section \<open>One step\<close>

lemma ext_step_packet:
  assumes "td_in_packet_num (cn_data c) \<noteq> -3" "\<not> cn_error_flag c" "\<not> cn_stopparse c"
    "(if has_flag (td_flags (cn_data c)) RPC_F_MEDIUM then 4 else 1) + 8 \<le> length (cn_in c)"
  shows "ext_step env w c = client_packet env (le32 (cn_in c)) w (c\<lparr>cn_timer := False\<rparr>)"
  using assms by (auto simp: ext_step_def Let_def)

lemma ext_step_waits:
  assumes "td_in_packet_num (cn_data c) \<noteq> -3"
    "cn_error_flag c \<or> cn_stopparse c \<or> length (cn_in c) < (if has_flag (td_flags (cn_data c)) RPC_F_MEDIUM then 4 else 1) + 8"
  shows "\<exists>r. ext_step env w c = Some (w, c\<lparr>cn_timer := False\<rparr>, Return r)"
  using assms by (auto simp: ext_step_def Let_def)

section \<open>Clients without padding\<close>

text \<open>
  What is asked of the handler of the packets: it returns, leaves the input and the mode of the
  connection, and the counter, which only the parser changes.
\<close>

definition handler_returns :: "'a ext_env \<Rightarrow> bool" where
  "handler_returns env \<longleftrightarrow> (\<forall>t msg w c. 4 \<le> length msg \<longrightarrow> (\<exists>w' c' r. xe_execute env t msg w c = Some (w', c', r)
     \<and> cn_in c' = cn_in c \<and> td_flags (cn_data c') = td_flags (cn_data c) \<and> td_in_packet_num (cn_data c') = td_in_packet_num (cn_data c)))"

lemma handler_returnsD:
  assumes "handler_returns env" "4 \<le> length msg"
  obtains w' c' r where "xe_execute env t msg w c = Some (w', c', r)" "cn_in c' = cn_in c"
    "td_flags (cn_data c') = td_flags (cn_data c)" "td_in_packet_num (cn_data c') = td_in_packet_num (cn_data c)"
  using assms unfolding handler_returns_def by blast

text \<open>An accepted client in the compact or the medium mode.\<close>

definition unpadded :: "'k conn \<Rightarrow> bool" where
  "unpadded c \<longleftrightarrow> \<not> has_flag (td_flags (cn_data c)) RPC_F_PAD \<and> 0 \<le> td_in_packet_num (cn_data c)"

text \<open>
  The counter of packets is an \<open>int\<close>.  It does not pass its range while the input is parsed: a packet takes
  five bytes or more.
\<close>

definition counter_room :: "'k conn \<Rightarrow> bool" where
  "counter_room c \<longleftrightarrow> td_in_packet_num (cn_data c) + int (length (cn_in c) div 5) < 2147483648"

lemma counter_room_next:
  assumes "counter_room c" "0 \<le> td_in_packet_num (cn_data c)" "length (cn_in c') + 5 \<le> length (cn_in c)"
    "td_in_packet_num (cn_data c') = i32 (td_in_packet_num (cn_data c) + 1)"
  shows "td_in_packet_num (cn_data c') = td_in_packet_num (cn_data c) + 1" "counter_room c'"
proof -
  have l: "length (cn_in c') div 5 + 1 \<le> length (cn_in c) div 5" using assms(3) by linarith
  then have "fits_i32 (td_in_packet_num (cn_data c) + 1)" using assms(1,2) unfolding counter_room_def fits_i32_def by linarith
  then show n: "td_in_packet_num (cn_data c') = td_in_packet_num (cn_data c) + 1" using assms(4) by simp
  show "counter_room c'" using assms(1) l unfolding counter_room_def n by linarith
qed

lemma serve_message_returns:
  assumes "handler_returns env" "unpadded c" "4 \<le> length msg"
  shows "\<exists>w' c'. serve_message env msg w c = Some (w', c', Again) \<and> cn_in c' = cn_in c \<and>
    td_flags (cn_data c') = td_flags (cn_data c) \<and> td_in_packet_num (cn_data c') = i32 (td_in_packet_num (cn_data c) + 1)"
proof -
  let ?c = "c\<lparr>cn_last_response := xe_precise_now env\<rparr>"
  have c: "0 \<le> td_in_packet_num (cn_data c)" "\<not> has_flag (td_flags (cn_data c)) RPC_F_PAD"
    using assms(2) by (auto simp: unpadded_def)
  note e = serve_message_def Let_def if_not_P[OF not_less[THEN iffD2, OF assms(3)]] if_not_P[OF not_less[THEN iffD2, OF c(1)]]
  show ?thesis
  proof (cases "int_at msg 0 = RPC_PING")
    case True
    have "\<exists>c'. tcp_rpcs_default_execute (xe_precise_now env) RPC_PING msg ?c = Some (c', 0) \<and> cn_in c' = cn_in c
      \<and> cn_data c' = cn_data c"
      by (auto simp: tcp_rpcs_default_execute_def tcp_rpc_conn_send_data_def tcp_rpc_conn_send_def bytes_le_def has_flag_def)
    then obtain c' where "tcp_rpcs_default_execute (xe_precise_now env) RPC_PING msg ?c = Some (c', 0)" "cn_in c' = cn_in c"
      "cn_data c' = cn_data c" by blast
    then show ?thesis using True c by (simp add: e count_in_def)
  next
    case False
    obtain w' c' r where "xe_execute env (int_at msg 0) msg w ?c = Some (w', c', r)" "cn_in c' = cn_in c"
      "td_flags (cn_data c') = td_flags (cn_data c)" "td_in_packet_num (cn_data c') = td_in_packet_num (cn_data c)"
      using handler_returnsD[OF assms(1,3), where w = w and c = ?c and t = "int_at msg 0"] by auto
    then show ?thesis using False c by (simp add: e count_in_def)
  qed
qed

text \<open>The flags that are changed are not those of the mode.\<close>

lemma pad_kept:
  "has_flag (flags AND NOT RPC_F_QUICKACK OR w AND RPC_F_QUICKACK) RPC_F_PAD \<longleftrightarrow> has_flag flags RPC_F_PAD"
  "has_flag (compact_ack flags w) RPC_F_PAD \<longleftrightarrow> has_flag flags RPC_F_PAD"
proof -
  have 1: "(flags AND NOT RPC_F_QUICKACK OR w AND RPC_F_QUICKACK) AND RPC_F_PAD = flags AND RPC_F_PAD"
    "(flags OR RPC_F_QUICKACK) AND RPC_F_PAD = flags AND RPC_F_PAD" "(flags AND NOT RPC_F_QUICKACK) AND RPC_F_PAD = flags AND RPC_F_PAD"
    by (simp_all add: and.assoc flag_simps word_ao_dist)
  then show "has_flag (flags AND NOT RPC_F_QUICKACK OR w AND RPC_F_QUICKACK) RPC_F_PAD \<longleftrightarrow> has_flag flags RPC_F_PAD"
    by (simp add: has_flag_def)
  show "has_flag (compact_ack flags w) RPC_F_PAD \<longleftrightarrow> has_flag flags RPC_F_PAD"
    using 1(2,3) by (auto simp: compact_ack_def has_flag_def)
qed

lemma frame_length_pad: "frame_length flags w = Some (flags', n, k) \<Longrightarrow> has_flag flags' RPC_F_PAD \<longleftrightarrow> has_flag flags RPC_F_PAD"
  unfolding frame_length_def Let_def by (auto simp: pad_kept split: if_split_asm)

text \<open>A good length without padding is a positive multiple of four.\<close>

lemma good_length:
  assumes "\<not> frame_bad flags n" "\<not> has_flag flags RPC_F_PAD"
  shows "4 \<le> unat n" "sint n = int (unat n)"
proof -
  have n: "0 < sint n" "\<not> has_flag n 3" using assms by (auto simp: frame_bad_def)
  have "uint n = sint n"
    using n(1) uint_sint[of n] sint_lt[of n] by (simp add: take_bit_int_eq_self)
  then show u: "sint n = int (unat n)" by simp
  have "take_bit 2 n = 0" using n(2) by (simp add: has_flag_def take_bit_eq_mask mask_eq_exp_minus_1)
  then have "take_bit 2 (unat n) = 0" by (metis unat_0 unsigned_take_bit_eq)
  then have "unat n mod 4 = 0" by (simp add: take_bit_eq_mod)
  then show "4 \<le> unat n" using n(1) u by presburger
qed

lemma client_packet_returns:
  assumes "handler_returns env" "unpadded c" "counter_room c"
  shows "\<exists>w' c' e. client_packet env p w c = Some (w', c', e) \<and>
    (e = Again \<longrightarrow> unpadded c' \<and> counter_room c' \<and> length (cn_in c') < length (cn_in c))"
proof (cases "frame_length (td_flags (cn_data c)) p")
  case None
  then show ?thesis by (simp add: client_packet_def)
next
  case (Some r)
  then obtain flags n k where r: "frame_length (td_flags (cn_data c)) p = Some (flags, n, k)" by (cases r) auto
  let ?c = "set_data (\<lambda>d. d\<lparr>td_flags := flags\<rparr>) c"
  have pad: "\<not> has_flag flags RPC_F_PAD" using frame_length_pad[OF r] assms(2) by (simp add: unpadded_def)
  note e = client_packet_def r option.case prod.case Let_def
  show ?thesis
  proof (cases "frame_bad flags n \<or> (sint n > xe_max_packet_len env \<and> xe_max_packet_len env > 0)
      \<or> int (length (cn_in c)) < sint n + int k")
    case True
    then show ?thesis unfolding e by auto
  next
    case False
    then have f: "\<not> frame_bad flags n" "\<not> (sint n > xe_max_packet_len env \<and> xe_max_packet_len env > 0)"
      "\<not> int (length (cn_in ?c)) < sint n + int k" by auto
    note g = good_length[OF f(1) pad]
    have "\<not> int (length (cn_in c)) < int (unat n) + int k" using f(3) unfolding g(2) by (simp del: of_nat_unat)
    then have len: "unat n + k \<le> length (cn_in c)" by linarith
    define msg where "msg = frame_message flags (unat n) (take (unat n) (drop k (cn_in c)))"
    let ?c' = "?c\<lparr>cn_in := drop (unat n) (drop k (cn_in c))\<rparr>"
    have "4 \<le> length msg" using g(1) len pad by (simp add: msg_def frame_message_def)
    moreover have "unpadded ?c'" using assms(2) pad by (simp add: unpadded_def)
    ultimately obtain w' c' where s: "serve_message env msg w ?c' = Some (w', c', Again)" "cn_in c' = cn_in ?c'"
      "td_flags (cn_data c') = td_flags (cn_data ?c')" "td_in_packet_num (cn_data c') = i32 (td_in_packet_num (cn_data ?c') + 1)"
      using serve_message_returns[OF assms(1)] by blast
    have "1 \<le> k" using r by (auto simp: frame_length_def Let_def split: if_split_asm)
    then have short: "length (cn_in c') + 5 \<le> length (cn_in c)" using s(2) g(1) len by simp
    have n0: "0 \<le> td_in_packet_num (cn_data c)" using assms(2) by (simp add: unpadded_def)
    have "td_in_packet_num (cn_data c') = i32 (td_in_packet_num (cn_data c) + 1)" using s(4) by simp
    note room = counter_room_next[OF assms(3) n0 short this]
    have "unpadded c'" using room(1) n0 s(3) pad by (simp add: unpadded_def)
    then have "unpadded c' \<and> counter_room c' \<and> length (cn_in c') < length (cn_in c)" using room(2) short by linarith
    moreover have "client_packet env p w c = serve_message env msg w ?c'"
      unfolding e if_not_P[OF f(1)] if_not_P[OF f(2)] if_not_P[OF f(3)] msg_def by simp
    ultimately show ?thesis using s by simp
  qed
qed

lemma ext_step_returns:
  assumes "handler_returns env" "unpadded c" "counter_room c"
  shows "\<exists>w' c' e. ext_step env w c = Some (w', c', e) \<and>
    (e = Again \<longrightarrow> unpadded c' \<and> counter_room c' \<and> length (cn_in c') < length (cn_in c))"
proof (cases "cn_error_flag c \<or> cn_stopparse c \<or> length (cn_in c) < (if has_flag (td_flags (cn_data c)) RPC_F_MEDIUM then 4 else 1) + 8")
  case True
  moreover have "td_in_packet_num (cn_data c) \<noteq> -3" using assms(2) by (auto simp: unpadded_def)
  ultimately show ?thesis using ext_step_waits[of c env w] by auto
next
  case False
  then have h: "\<not> cn_error_flag c" "\<not> cn_stopparse c" "(if has_flag (td_flags (cn_data c)) RPC_F_MEDIUM then 4 else 1) + 8 \<le> length (cn_in c)"
    by auto
  have "td_in_packet_num (cn_data c) \<noteq> -3" using assms(2) by (auto simp: unpadded_def)
  note s = ext_step_packet[OF this h]
  have "unpadded (c\<lparr>cn_timer := False\<rparr>)" "counter_room (c\<lparr>cn_timer := False\<rparr>)"
    using assms(2,3) by (simp_all add: unpadded_def counter_room_def)
  from client_packet_returns[OF assms(1) this] show ?thesis unfolding s by simp
qed

section \<open>Properties\<close>

text \<open>
  C11. As long as the counter of its packets, an \<open>int\<close>, stays in its range, a client without padding cannot
  stop the server or make it loop: when the handler of the packets returns, then for every input,
  whatever its lengths and types, no assertion of \<open>tcp_rpcs_compact_parse_execute\<close> fails and its loop comes
  to an end.  What happens behind the range is \<open>packet_counter_stops_proxy\<close>.
\<close>

theorem unpadded_client_is_served:
  assumes "handler_returns env" "unpadded c" "counter_room c"
  shows "\<exists>w' c' r. tcp_rpcs_compact_parse_execute env w c = Some (w', c', r)"
  using assms(2,3)
proof (induction "length (cn_in c)" arbitrary: w c rule: less_induct)
  case less
  obtain w' c' e where s: "ext_step env w c = Some (w', c', e)" "e = Again \<longrightarrow> unpadded c' \<and> counter_room c' \<and> length (cn_in c') < length (cn_in c)"
    using ext_step_returns[OF assms(1) less.prems] by blast
  show ?case
  proof (cases e)
    case (Return r)
    then show ?thesis using s by (subst tcp_rpcs_compact_parse_execute.simps) simp
  next
    case Again
    then have "\<exists>w'' c'' r. tcp_rpcs_compact_parse_execute env w' c' = Some (w'', c'', r)"
      using s(2) by (intro less.hyps) simp_all
    then show ?thesis using s Again by (subst tcp_rpcs_compact_parse_execute.simps) simp
  qed
qed

theorem unpadded_client_is_served_witness:
  "\<exists>w' c' r. tcp_rpcs_compact_parse_execute example_ext_env example_world
     ((new_conn Kind_Ext_Server 443)\<lparr>cn_in := [2, 1, 2, 3, 4, 5, 6, 7, 8, 0x80, 0, 0, 0, 0, 0, 0, 0, 0]\<rparr>) = Some (w', c', r)"
  by (rule unpadded_client_is_served)
    (simp_all add: handler_returns_def example_ext_env_def unpadded_def counter_room_def new_conn_def zero_data_def has_flag_def)

lemma medium_clear_quickack: "has_flag (flags AND NOT RPC_F_QUICKACK) RPC_F_MEDIUM \<longleftrightarrow> has_flag flags RPC_F_MEDIUM"
proof -
  have "(flags AND NOT RPC_F_QUICKACK) AND RPC_F_MEDIUM = flags AND RPC_F_MEDIUM" by (simp add: and.assoc flag_simps)
  then show ?thesis by (simp add: has_flag_def)
qed

text \<open>
  Behind the range of the counter: when a client without padding has sent \<open>2^31 - 1\<close> packets, one more makes
  the counter negative, and the next one fails the assertion that a negative counter is \<open>-3\<close>.  Two pings
  are enough, so nothing is asked of the handler.
\<close>

theorem packet_counter_stops_proxy:
  assumes "unpadded c" "td_in_packet_num (cn_data c) = 2147483647" "\<not> cn_error_flag c" "\<not> cn_stopparse c" "length q = 8"
    "compact_frame (td_flags (cn_data c)) (bytes_le RPC_PING @ q) = Some f" "cn_in c = f @ f @ rest" "8 \<le> length rest"
    "xe_max_packet_len env \<le> 0 \<or> 15 \<le> xe_max_packet_len env"
  shows "tcp_rpcs_compact_parse_execute env w c = None"
proof -
  let ?ping = "bytes_le RPC_PING @ q" and ?fl = "td_flags (cn_data c)"
  have pad: "\<not> has_flag ?fl RPC_F_PAD" using assms(1) by (simp add: unpadded_def)
  have ping: "length ?ping = 12" "int_at ?ping 0 = RPC_PING" using assms(5) by (simp_all add: int_at_def)
  have nopad: "pad_message fl x y m = m" if "\<not> has_flag fl RPC_F_PAD" for fl x y m using that by (simp add: pad_message_def)
  have f: "13 \<le> length f" using assms(5,6) by (auto simp: compact_frame_def Let_def bytes_le_def split: if_split_asm)
  have packet: "ext_step env v d = serve_message env ?ping v ((set_data (\<lambda>x. x\<lparr>td_flags := td_flags x AND NOT RPC_F_QUICKACK\<rparr>) (d\<lparr>cn_timer := False\<rparr>))\<lparr>cn_in := more\<rparr>)"
    if d: "td_in_packet_num (cn_data d) \<noteq> -3" "\<not> cn_error_flag d" "\<not> cn_stopparse d" "cn_in d = f @ more" "8 \<le> length more"
      "\<not> has_flag (td_flags (cn_data d)) RPC_F_PAD" "compact_frame (td_flags (cn_data d)) ?ping = Some f" for d more v
  proof -
    have "ext_step env v d = client_packet env (le32 (cn_in (d\<lparr>cn_timer := False\<rparr>))) v (d\<lparr>cn_timer := False\<rparr>)"
      using ext_step_packet[OF d(1-3), of env v] f d(4) by simp
    then show ?thesis
      using frame_read[of "d\<lparr>cn_timer := False\<rparr>" 0 0 ?ping f more env v] d(4-7) ping(1) assms(9) nopad by simp
  qed
  let ?c = "(set_data (\<lambda>x. x\<lparr>td_flags := td_flags x AND NOT RPC_F_QUICKACK\<rparr>) (c\<lparr>cn_timer := False\<rparr>))\<lparr>cn_in := f @ rest\<rparr>"
  have s1: "ext_step env w c = serve_message env ?ping w ?c"
    using packet[of c "f @ rest" w] assms(2-4,6-8) pad by simp
  obtain c' where c': "serve_message env ?ping w ?c = Some (w, c', Again)" "cn_in c' = f @ rest" "td_in_packet_num (cn_data c') = - 2147483648"
    "td_flags (cn_data c') = ?fl AND NOT RPC_F_QUICKACK" "\<not> cn_error_flag c'" "\<not> cn_stopparse c'"
    using assms(2-4) ping
    by (simp add: serve_message_def tcp_rpcs_default_execute_def tcp_rpc_conn_send_data_def tcp_rpc_conn_send_def count_in_def has_flag_def i32_def)
  have "compact_frame (?fl AND NOT RPC_F_QUICKACK) ?ping = Some f"
    using assms(6) by (simp only: compact_frame_def has_flag_clear_quickack medium_clear_quickack)
  then have "ext_step env w c' = serve_message env ?ping w ((set_data (\<lambda>x. x\<lparr>td_flags := td_flags x AND NOT RPC_F_QUICKACK\<rparr>) (c'\<lparr>cn_timer := False\<rparr>))\<lparr>cn_in := rest\<rparr>)"
    using packet[of c' rest w] c' pad assms(8) by (simp add: has_flag_clear_quickack)
  also have "\<dots> = None" using c'(3) by (simp add: serve_message_def)
  finally have "tcp_rpcs_compact_parse_execute env w c' = None" by (subst tcp_rpcs_compact_parse_execute.simps) simp
  then show ?thesis using s1 c'(1) by (subst tcp_rpcs_compact_parse_execute.simps) simp
qed

text \<open>
  C36. A client in the padded mode can stop the server: a packet of one to three bytes passes every
  check, all of it is cut off as padding, and the assertion that four bytes of the message can be read
  fails.  Every client that has a secret may choose this mode.
\<close>

theorem short_padded_packet_stops_proxy:
  assumes "has_flag (td_flags (cn_data c)) RPC_F_MEDIUM" "has_flag (td_flags (cn_data c)) RPC_F_PAD"
    "0 \<le> td_in_packet_num (cn_data c)" "\<not> cn_error_flag c" "\<not> cn_stopparse c"
    "cn_in c = bytes_le (of_nat n) @ rest" "0 < n" "n < 4" "8 \<le> length rest"
    "xe_max_packet_len env \<le> 0 \<or> 3 \<le> xe_max_packet_len env"
  shows "tcp_rpcs_compact_parse_execute env w c = None"
proof -
  let ?c = "c\<lparr>cn_timer := False\<rparr>" and ?fl = "td_flags (cn_data c) AND NOT RPC_F_QUICKACK"
  have "length (cn_in c) = 4 + length rest" using assms(6) by (simp add: bytes_le_def)
  then have s: "ext_step env w c = client_packet env (le32 (cn_in c)) w ?c"
    using assms by (intro ext_step_packet) auto
  have l: "frame_length (td_flags (cn_data ?c)) (le32 (cn_in c)) = Some (?fl, of_nat n, 4)"
    unfolding assms(6) le32_bytes_le using frame_length_medium[OF assms(1), of n] assms(8) by simp
  have n: "sint (of_nat n :: u32) = int n" "unat (of_nat n :: u32) = n" "n div 4 = 0"
    using assms(8) by (simp_all add: sint_of_nat_u32 unat_of_nat_u32)
  have pad: "has_flag ?fl RPC_F_PAD" using assms(2) by (simp add: has_flag_clear_quickack)
  have "\<not> frame_bad ?fl (of_nat n)"
    using assms(7,8) n(1) pad no_top_bits[of n] by (simp add: frame_bad_def)
  moreover have "\<not> (sint (of_nat n :: u32) > xe_max_packet_len env \<and> xe_max_packet_len env > 0)"
    using n(1) assms(8,10) by auto
  moreover have "\<not> int (length (cn_in (set_data (\<lambda>d. d\<lparr>td_flags := ?fl\<rparr>) ?c))) < sint (of_nat n :: u32) + int 4"
    using n(1) assms(6,8,9) by (simp add: bytes_le_def)
  ultimately have "client_packet env (le32 (cn_in c)) w ?c = None"
    unfolding client_packet_def l option.case prod.case Let_def
    using pad n(3) by (simp add: n frame_message_def serve_message_def)
  then show ?thesis using s by (subst tcp_rpcs_compact_parse_execute.simps) simp
qed

theorem short_padded_packet_stops_proxy_witness:
  "tcp_rpcs_compact_parse_execute example_ext_env example_world
     (example_padded\<lparr>cn_in := bytes_le (of_nat 1) @ [1, 2, 3, 4, 5, 6, 7, 8]\<rparr>) = None"
  by (rule short_padded_packet_stops_proxy[where n = 1 and rest = "[1, 2, 3, 4, 5, 6, 7, 8]"])
    (simp_all add: example_padded_def new_conn_def zero_data_def has_flag_def flag_simps example_ext_env_def)

end
