(* ===== verification/Ext_Gate.thy ===== *)
theory Ext_Gate
  imports Ext_Clients TLS_Wire
begin

text \<open>
  Who is let in: a connection becomes a TLS connection only with an active secret and a hello that is
  new, an obfuscated connection is accepted only with an active secret while there is one, and a
  stranger is passed on with every byte that it sent.
\<close>

section \<open>Passing on\<close>

text \<open>The connection and its new peer after a stranger was passed on to the domain \<open>d\<close>.\<close>

definition passed :: "'a ext_env \<Rightarrow> 'a ext_world \<Rightarrow> 'a ctr conn \<Rightarrow> domain_info \<Rightarrow> 'a ext_world \<Rightarrow> 'a ctr conn \<Rightarrow> bool" where
  "passed env w c d w' c' \<longleftrightarrow>
     cn_kind c' = Kind_Proxy_Pass (Some (ew_next w)) \<and> cn_in c' = [] \<and> cn_crypto c' = None \<and>
     cn_out c' = cn_out c \<and> cn_out_queue c' = cn_out_queue c \<and>
     (\<exists>peer. ew_peers w' (ew_next w) = Some peer \<and> cn_kind peer = Kind_Proxy_Pass (Some (xe_self env)) \<and>
       cn_out_queue peer = [cn_in c] \<and> cn_remote_ip peer = d_target d \<and> cn_remote_ipv6 peer = d_target6 d \<and>
       cn_remote_port peer = (if cn_our_port c = 80 then 80 else 443))"

lemma proxy_connection_effect:
  assumes "proxy_connection env info w c = Some (w', c', r)"
  shows "\<exists>d. info = Some d \<and> (cn_kind c' = cn_kind c \<or> passed env w c d w' c')"
    "ew_cache w' = ew_cache w" "cn_is_tls c' = cn_is_tls c" "r = 0"
proof -
  obtain d where d: "info = Some d" using assms by (cases info) (auto simp: proxy_connection_def)
  show "\<exists>d. info = Some d \<and> (cn_kind c' = cn_kind c \<or> passed env w c d w' c')"
    "ew_cache w' = ew_cache w" "cn_is_tls c' = cn_is_tls c" "r = 0"
    using assms unfolding d
    by (auto simp: proxy_connection_def tcp_proxy_pass_parse_execute_def Let_def passed_def new_peer_def new_conn_def
        fail_connection_def split: if_splits)
qed

lemma pass_on_effect:
  assumes "pass_on env info w c = Some (w', c', e)"
  shows "\<exists>d. info = Some d \<and> (cn_kind c' = cn_kind c \<or> passed env w c d w' c')"
    "ew_cache w' = ew_cache w" "cn_is_tls c' = cn_is_tls c" "e = Return 0"
  using assms proxy_connection_effect[of env info w c] by (auto simp: pass_on_def)

section \<open>A ClientHello\<close>

text \<open>The parts of a hello that the checks use, and the time stamp that a secret gives.\<close>

definition hello_random_of :: "byte list \<Rightarrow> byte list" where
  "hello_random_of hello = take 32 (drop 11 hello)"

definition hello_zeroed :: "byte list \<Rightarrow> byte list" where
  "hello_zeroed hello = take 11 hello @ replicate 32 0 @ drop 43 hello"

definition hello_time :: "'a ext_env \<Rightarrow> byte list \<Rightarrow> byte list \<Rightarrow> int" where
  "hello_time env secret hello =
     sint (le32 (drop 28 (xe_hmac env secret (hello_zeroed hello))) XOR le32 (drop 28 (hello_random_of hello)))"

lemma snapshot_member:
  assumes "ext_snapshot_active_secrets env now s = (r, l)" "(k, i) \<in> set l"
  shows "\<exists>E \<in> set (entries s). ext_is_active_locked E now \<and> e_secret E = k \<and> e_id E = i"
  using assms by (auto simp: ext_snapshot_active_secrets_def Let_def split: if_splits)

text \<open>What it means that a hello was accepted for the entry \<open>E\<close>.\<close>

definition let_in :: "'a ext_env \<Rightarrow> byte list \<Rightarrow> 'a ext_world \<Rightarrow> 'a ctr conn \<Rightarrow> 'a ext_world \<Rightarrow> secret_entry \<Rightarrow> bool" where
  "let_in env hello w c w' E \<longleftrightarrow>
     E \<in> set (entries (ew_store w)) \<and> ext_is_active_locked E (env_now (xe_host env)) \<and>
     take 28 (xe_hmac env (e_secret E) (hello_zeroed hello)) = take 28 (hello_random_of hello) \<and>
     judge_hello (xe_now env) (hello_random_of hello) True (hello_time env (e_secret E) hello) (ew_cache w) = Some (True, ew_cache w') \<and>
     ew_store w' = ew_store (fst (attach_secret env (e_id E) w c))"

text \<open>The cache after a hello that was not accepted.\<close>

definition not_let_in :: "'a ext_env \<Rightarrow> 'a ext_world \<Rightarrow> 'a ext_world \<Rightarrow> bool" where
  "not_let_in env w w' \<longleftrightarrow> ew_cache w' = ew_cache w \<or>
     (\<exists>r. judge_hello (xe_now env) r False 0 (ew_cache w) = Some (False, ew_cache w'))"

lemma attach_secret_cache [simp]: "attach_secret env i w c = (w', c') \<Longrightarrow> ew_cache w' = ew_cache w"
  by (auto simp: attach_secret_def split: prod.splits)

lemma attach_secret_tls: "attach_secret env i w c = (w', c') \<Longrightarrow> cn_is_tls c' = cn_is_tls c \<and> cn_kind c' = cn_kind c \<and> cn_in c' = cn_in c"
  by (auto simp: attach_secret_def split: prod.splits)

lemma attach_secret_store:
  assumes "ew_store w2 = ew_store w" "acct_of c2 = acct_of c"
  shows "ew_store (fst (attach_secret env i w2 c2)) = ew_store (fst (attach_secret env i w c))"
  using assms by (simp add: attach_secret_def split: prod.split)

lemma passed_cache [simp]: "passed env (w\<lparr>ew_cache := x\<rparr>) c d w' c' = passed env w c d w' c'"
  by (simp add: passed_def)

lemma answer_hello_effect:
  assumes "answer_hello env info rnd hello0 secret cipher w c = Some (w', c', e)"
  shows "cn_is_tls c'" "e = Return 11" "cn_in c' = []" "cn_kind c' = cn_kind c" "ew_cache w' = ew_cache w"
    "ew_store w' = ew_store (fst (attach_secret env (snd secret) w c))"
proof -
  let ?c = "c\<lparr>cn_in := [], cn_is_tls := True, cn_left_tls := -1\<rparr>"
  obtain w1 c1 where a: "attach_secret env (snd secret) w ?c = (w1, c1)" by (metis surj_pair)
  obtain m where m: "w' = w1" "c' = c1\<lparr>cn_out_queue := cn_out_queue c1 @ [m]\<rparr>" "e = Return 11"
    using assms unfolding answer_hello_def Let_def a by auto
  note t = attach_secret_tls[OF a]
  show "cn_is_tls c'" "e = Return 11" "cn_in c' = []" "cn_kind c' = cn_kind c" using m t by simp_all
  show "ew_cache w' = ew_cache w" using m attach_secret_cache[OF a] by simp
  show "ew_store w' = ew_store (fst (attach_secret env (snd secret) w c))"
    using attach_secret_store[of w w ?c c env "snd secret"] a m by (simp add: acct_of_def)
qed

text \<open>Passing on after the hello was remembered.\<close>

lemma judge_pass_on:
  assumes "pass_on env (Some info) (w\<lparr>ew_cache := cache\<rparr>) c = Some (w', c', e)"
    "\<not> have_client_random rnd (ew_cache w)" "remember_client (xe_now env) rnd (ew_cache w) = Some cache"
  shows "not_let_in env w w' \<and> cn_is_tls c' = cn_is_tls c \<and> e \<noteq> Again \<and> (cn_kind c' = cn_kind c \<or> passed env w c info w' c')"
  using pass_on_effect[OF assms(1)] assms(2,3) by (auto simp: not_let_in_def judge_hello_def intro!: exI[of _ rnd])

lemma judge_client_effect:
  assumes "judge_client env info hello w c = Some (w', c', e)"
  shows "(\<exists>E. let_in env hello w c w' E) \<and> cn_is_tls c' \<and> e \<noteq> Again \<and> cn_kind c' = cn_kind c \<or>
    not_let_in env w w' \<and> cn_is_tls c' = cn_is_tls c \<and> e \<noteq> Again \<and> (cn_kind c' = cn_kind c \<or> passed env w c info w' c')"
    (is "?in \<or> ?out")
proof (cases "have_client_random (hello_random_of hello) (ew_cache w)")
  case True
  then have "pass_on env (Some info) w c = Some (w', c', e)"
    using assms by (simp add: judge_client_def hello_random_of_def)
  from pass_on_effect[OF this] show ?thesis by (auto simp: not_let_in_def)
next
  case new: False
  let ?rnd = "hello_random_of hello" and ?h = "hello_zeroed hello"
  obtain cache where cache: "remember_client (xe_now env) ?rnd (ew_cache w) = Some cache"
    using assms new by (cases "remember_client (xe_now env) ?rnd (ew_cache w)") (auto simp: judge_client_def hello_random_of_def)
  let ?w = "w\<lparr>ew_cache := cache\<rparr>"
  obtain r secrets where snap: "ext_snapshot_active_secrets (xe_host env) (env_now (xe_host env)) (ew_store w) = (r, secrets)"
    by (metis surj_pair)
  note out = judge_pass_on[OF _ new cache]
  note def = assms[unfolded judge_client_def Let_def, folded hello_random_of_def hello_zeroed_def, unfolded if_not_P[OF new] cache option.case]
  have step: "(if r < 0 then pass_on env (Some info) ?w c
     else case matching_secret env ?h ?rnd secrets of
       None \<Rightarrow> pass_on env (Some info) ?w c
     | Some secret \<Rightarrow>
         if \<not> is_allowed_timestamp (xe_now env) (first_time cache) (sint (le32 (drop 28 (xe_hmac env (fst secret) ?h)) XOR le32 (drop 28 ?rnd)))
         then pass_on env (Some info) ?w c
         else case hello_cipher ?h of None \<Rightarrow> pass_on env (Some info) ?w c
              | Some cipher \<Rightarrow> answer_hello env info ?rnd ?h secret cipher ?w c) = Some (w', c', e)"
    using def snap by simp
  show ?thesis
  proof (cases "r < 0")
    case True
    then have "pass_on env (Some info) ?w c = Some (w', c', e)" using step by simp
    then show ?thesis using out by blast
  next
    case r: False
    show ?thesis
    proof (cases "matching_secret env ?h ?rnd secrets")
      case None
      then have "pass_on env (Some info) ?w c = Some (w', c', e)" using step r by simp
      then show ?thesis using out by blast
    next
      case (Some secret)
      obtain k i where ki: "secret = (k, i)" by (cases secret)
      have m: "(k, i) \<in> set secrets" "take 28 (xe_hmac env k ?h) = take 28 ?rnd"
        using Some unfolding matching_secret_def ki by (auto simp: find_Some_iff in_set_conv_nth)
      obtain E where E: "E \<in> set (entries (ew_store w))" "ext_is_active_locked E (env_now (xe_host env))" "e_secret E = k" "e_id E = i"
        using snapshot_member[OF snap m(1)] by blast
      let ?t = "hello_time env k hello"
      show ?thesis
      proof (cases "is_allowed_timestamp (xe_now env) (first_time cache) ?t \<and> hello_cipher ?h \<noteq> None")
        case False
        then have "pass_on env (Some info) ?w c = Some (w', c', e)"
          using step r Some ki by (auto simp: hello_time_def split: if_splits)
        then show ?thesis using out by blast
      next
        case True
        then obtain cipher where "answer_hello env info ?rnd ?h secret cipher ?w c = Some (w', c', e)"
          using step r Some ki by (auto simp: hello_time_def)
        from answer_hello_effect[OF this] have a: "cn_is_tls c'" "cn_kind c' = cn_kind c" "ew_cache w' = cache"
          "ew_store w' = ew_store (fst (attach_secret env i w c))" "e \<noteq> Again"
          using attach_secret_store[of ?w w c c env i] ki by simp_all
        have "judge_hello (xe_now env) ?rnd True ?t (ew_cache w) = Some (True, ew_cache w')"
          using new cache True a(3) by (simp add: judge_hello_def)
        then have "let_in env hello w c w' E" using E m(2) a(4) by (simp add: let_in_def)
        then show ?thesis using a(1,2,5) by blast
      qed
    qed
  qed
qed

lemma client_hello_effect:
  assumes "client_hello env w c = Some (w', c', e)"
  shows "(\<exists>E. let_in env (cn_in c) w c w' E) \<and> cn_is_tls c' \<and> e \<noteq> Again \<and> cn_kind c' = cn_kind c \<or>
    not_let_in env w w' \<and> cn_is_tls c' = cn_is_tls c \<and> e \<noteq> Again \<and> (cn_kind c' = cn_kind c \<or> (\<exists>d. passed env w c d w' c' \<and>
      (default_domain_info w = Some d \<or> get_sni_domain_info (ew_domains w) (take 4096 (cn_in c)) = Some (Some d))))"
proof -
  let ?hello = "take (min (length (cn_in c)) 4096) (cn_in c)"
  have hello: "?hello = take 4096 (cn_in c)" by (simp add: min_def)
  show ?thesis
  proof (cases "length (cn_in c) < 5 + be16 (cn_in c) 3")
    case True
    then have "w' = w" "c' = c" "e \<noteq> Again" using assms by (auto simp: client_hello_def Let_def)
    then show ?thesis by (simp add: not_let_in_def)
  next
    case long: False
    obtain sni where sni: "get_sni_domain_info (ew_domains w) (take 4096 (cn_in c)) = Some sni"
      using assms long by (cases "get_sni_domain_info (ew_domains w) (take 4096 (cn_in c))") (auto simp: client_hello_def Let_def hello)
    note def = assms[unfolded client_hello_def Let_def if_not_P[OF long] hello sni]
    show ?thesis
    proof (cases sni)
      case None
      then have "pass_on env (default_domain_info w) w c = Some (w', c', e)" using def by simp
      from pass_on_effect[OF this] show ?thesis by (auto simp: not_let_in_def)
    next
      case (Some info)
      show ?thesis
      proof (cases "cn_our_port c = 80 \<or> length (cn_in c) > 5 + be16 (cn_in c) 3 \<or> length (cn_in c) \<noteq> length (take 4096 (cn_in c))")
        case True
        then have "pass_on env (Some info) w c = Some (w', c', e)" using def Some by auto
        from pass_on_effect[OF this] show ?thesis using sni Some by (auto simp: not_let_in_def)
      next
        case False
        then have "take 4096 (cn_in c) = cn_in c" by (auto simp: min_def split: if_splits)
        moreover have "judge_client env info (take 4096 (cn_in c)) w c = Some (w', c', e)" using def Some False by auto
        ultimately have "judge_client env info (cn_in c) w c = Some (w', c', e)" by simp
        from judge_client_effect[OF this] show ?thesis using sni Some by blast
      qed
    qed
  qed
qed

section \<open>The obfuscated protocol\<close>

definition header_tag :: "'a ext_env \<Rightarrow> byte list option \<Rightarrow> byte list \<Rightarrow> u32" where
  "header_tag env secret header = le32 (drop 56 (fst (ctr_crypt (xe_ks env) (fst (header_keys env secret header)) header)))"

lemma decrypt_input_keeps:
  assumes "cpu_tcp_aes_crypto_ctr128_decrypt_input ks c = Some (r, c')"
  shows "cn_is_tls c' = cn_is_tls c" "cn_kind c' = cn_kind c" "cn_data c' = cn_data c" "acct_of c' = acct_of c"
  using assms
  by (auto simp: cpu_tcp_aes_crypto_ctr128_decrypt_input_def Let_def fail_connection_def acct_of_def split: option.splits if_split_asm)

lemma attach_secret_data:
  "attach_secret env i w c = (w', c') \<Longrightarrow> td_flags (cn_data c') = td_flags (cn_data c) \<and> td_in_packet_num (cn_data c') = td_in_packet_num (cn_data c)"
  by (auto simp: attach_secret_def split: prod.splits)

text \<open>What accepting a header does: the mode of its tag, and the account of the secret.\<close>

definition opened :: "'a ext_env \<Rightarrow> u32 \<Rightarrow> int \<Rightarrow> 'a ext_world \<Rightarrow> 'a ctr conn \<Rightarrow> 'a ext_world \<Rightarrow> 'a ctr conn \<Rightarrow> bool" where
  "opened env tag i w c w' c' \<longleftrightarrow>
     tag \<in> {tag_dd, tag_ee, tag_ef} \<and> (dt_only_tls (ew_domains w) \<longrightarrow> tag = tag_dd) \<and>
     td_flags (cn_data c') = td_flags (cn_data c) OR mode_flags tag \<and> td_in_packet_num (cn_data c') = 0 \<and>
     ew_store w' = ew_store (fst (attach_secret env i w c))"

lemma accept_header_effect:
  assumes "accept_header env keys dec tag i w c = Some (w', c', e)" "tag \<in> {tag_dd, tag_ee, tag_ef}"
  shows "ew_cache w' = ew_cache w \<and> cn_is_tls c' = cn_is_tls c \<and> (\<not> dt_only_tls (ew_domains w) \<longrightarrow> cn_kind c' = cn_kind c) \<and>
    (e = Again \<longrightarrow> opened env tag i w c w' c')"
proof (cases "tag \<noteq> tag_dd \<and> dt_only_tls (ew_domains w)")
  case True
  then have "pass_on env (default_domain_info w) w (c\<lparr>cn_crypto := Some keys\<rparr>) = Some (w', c', e)"
    using assms(1) by (simp add: accept_header_def)
  from pass_on_effect[OF this] show ?thesis using True by auto
next
  case False
  let ?c = "set_data (\<lambda>d. d\<lparr>td_in_packet_num := 0, td_flags := td_flags d OR mode_flags tag\<rparr>)
    (c\<lparr>cn_crypto := Some keys, cn_in_u := cn_in_u c @ drop 64 (cn_in c), cn_in := []\<rparr>)"
  note def = assms(1)[unfolded accept_header_def if_not_P[OF False] Let_def]
  obtain r c1 where d: "cpu_tcp_aes_crypto_ctr128_decrypt_input (xe_ks env) ?c = Some (r, c1)"
    using def by (cases "cpu_tcp_aes_crypto_ctr128_decrypt_input (xe_ks env) ?c") auto
  let ?c2 = "set_data (\<lambda>d. d\<lparr>td_extra_int4 := sint (le16 (drop 60 dec))\<rparr>) c1"
  note k = decrypt_input_keeps[OF d]
  obtain w2 c2 where a: "attach_secret env i w ?c2 = (w2, c2)" by (metis surj_pair)
  have res: "w' = w2" "c' = c2" using def d a by (auto split: if_split_asm)
  have "acct_of ?c2 = acct_of c" using k(4) by (simp add: acct_of_def)
  then have "ew_store w' = ew_store (fst (attach_secret env i w c))" using attach_secret_store[of w w ?c2 c env i] a res by simp
  then show ?thesis
    using False assms(2) attach_secret_cache[OF a] attach_secret_tls[OF a] attach_secret_data[OF a] k(1-3) res
    by (auto simp: opened_def)
qed

lemma opened_crypto: "opened env tag i w (c\<lparr>cn_crypto := x\<rparr>) w' c' = opened env tag i w c w' c'"
proof -
  have "acct_of (c\<lparr>cn_crypto := x\<rparr>) = acct_of c" by (simp add: acct_of_def)
  then show ?thesis using attach_secret_store[of w w "c\<lparr>cn_crypto := x\<rparr>" c env i] by (simp add: opened_def)
qed

lemma try_secrets_effect:
  assumes "try_secrets env header ss w c = Some (w', c', e)"
  shows "ew_cache w' = ew_cache w \<and> cn_is_tls c' = cn_is_tls c \<and> (\<not> dt_only_tls (ew_domains w) \<longrightarrow> cn_kind c' = cn_kind c) \<and>
    (e = Again \<longrightarrow> (\<exists>(k, i) \<in> set ss. opened env (header_tag env k header) i w c w' c'))"
  using assms
proof (induction ss arbitrary: c)
  case (Cons x ss)
  obtain k i where x: "x = (k, i)" by (cases x)
  obtain rk wk where hk: "header_keys env k header = (rk, wk)" by (metis surj_pair)
  obtain dec rk' where dec: "ctr_crypt (xe_ks env) rk header = (dec, rk')" by (metis surj_pair)
  have tag: "le32 (drop 56 dec) = header_tag env k header" by (simp add: header_tag_def hk dec)
  let ?t = "header_tag env k header"
  note def = Cons.prems[unfolded x try_secrets.simps hk prod.case dec Let_def tag]
  show ?case
  proof (cases "?t = tag_dd \<or> ?t = tag_ee \<or> ?t = tag_ef")
    case True
    then have "accept_header env (rk', wk) dec ?t i w c = Some (w', c', e)" using def by simp
    from accept_header_effect[OF this] show ?thesis using True x by auto
  next
    case False
    then have "try_secrets env header ss w (c\<lparr>cn_crypto := None\<rparr>) = Some (w', c', e)" using def by simp
    from Cons.IH[OF this] show ?thesis by (auto simp: opened_crypto)
  qed
qed auto

lemma no_active_count: "tcp_rpcs_active_secret_count now s \<le> 0 \<longleftrightarrow> (\<forall>E \<in> set (entries s). \<not> ext_is_active_locked E now)"
proof -
  have "sum_list (map (\<lambda>E. if ext_is_active_locked E now then 1 else 0) Es) = int (length (filter (\<lambda>E. ext_is_active_locked E now) Es))" for Es
    by (induction Es) auto
  then show ?thesis by (simp add: tcp_rpcs_active_secret_count_def filter_empty_conv)
qed

lemma obfuscated_header_effect:
  assumes "obfuscated_header env w c = Some (w', c', e)"
  shows "ew_cache w' = ew_cache w \<and> cn_is_tls c' = cn_is_tls c \<and> (\<not> dt_only_tls (ew_domains w) \<longrightarrow> cn_kind c' = cn_kind c) \<and>
    (e = Again \<longrightarrow>
      (\<exists>E \<in> set (entries (ew_store w)). ext_is_active_locked E (env_now (xe_host env)) \<and>
        opened env (header_tag env (Some (e_secret E)) (take 64 (cn_in c))) (e_id E) w c w' c') \<or>
      tcp_rpcs_active_secret_count (env_now (xe_host env)) (ew_store w) \<le> 0 \<and>
        opened env (header_tag env None (take 64 (cn_in c))) 0 w c w' c')"
proof (cases "length (cn_in c) < 64")
  case True
  then show ?thesis using assms by (auto simp: obfuscated_header_def Let_def split: if_split_asm)
next
  case False
  let ?now = "env_now (xe_host env)"
  obtain r secrets where snap: "ext_snapshot_active_secrets (xe_host env) ?now (ew_store w) = (r, secrets)" by (metis surj_pair)
  note def = assms[unfolded obfuscated_header_def Let_def if_not_P[OF False] snap prod.case]
  show ?thesis
  proof (cases "r < 0")
    case True
    then show ?thesis using def by auto
  next
    case r: False
    let ?ss = "if secrets \<noteq> [] then map (\<lambda>(s, i). (Some s, i)) secrets else [(None, 0)]"
    have "try_secrets env (take 64 (cn_in c)) ?ss w c = Some (w', c', e)" using def r by simp
    note t = try_secrets_effect[OF this]
    have "(\<exists>E \<in> set (entries (ew_store w)). ext_is_active_locked E ?now \<and> k = Some (e_secret E) \<and> i = e_id E) \<or>
        tcp_rpcs_active_secret_count ?now (ew_store w) \<le> 0 \<and> k = None \<and> i = 0" if ki: "(k, i) \<in> set ?ss" for k i
    proof (cases "secrets = []")
      case True
      then have "tcp_rpcs_active_secret_count ?now (ew_store w) \<le> 0"
        using snap r by (auto simp: ext_snapshot_active_secrets_def Let_def no_active_count filter_empty_conv split: if_split_asm)
      then show ?thesis using ki True by simp
    next
      case False
      then obtain s where "k = Some s" "(s, i) \<in> set secrets" using ki by auto
      then show ?thesis using snapshot_member[OF snap] by blast
    qed
    then show ?thesis using t by blast
  qed
qed

section \<open>The first bytes of a connection\<close>

lemma first_tls_packet_effect:
  assumes "first_tls_packet env w c = Some (w', c', e)"
  shows "ew_cache w' = ew_cache w \<and> cn_is_tls c' = cn_is_tls c"
proof (cases "length (cn_in c) < 11 \<or> take 9 (take 11 (cn_in c)) \<noteq> [0x14, 0x03, 0x03, 0x00, 0x01, 0x01, 0x17, 0x03, 0x03]
    \<or> length (cn_in c) < 11 + be16 (take 11 (cn_in c)) 9 \<or> be16 (take 11 (cn_in c)) 9 < 64")
  case True
  then show ?thesis using assms by (auto simp: first_tls_packet_def Let_def fail_connection_def split: if_split_asm)
next
  case False
  let ?left = "int (be16 (take 11 (cn_in c)) 9)"
  have "obfuscated_header env w (c\<lparr>cn_in := drop 11 (cn_in c), cn_left_tls := ?left - 64\<rparr>) = Some (w', c', e)"
    using assms False by (auto simp: first_tls_packet_def Let_def)
  from obfuscated_header_effect[OF this] show ?thesis by simp
qed

text \<open>A header inside TLS is accepted as one outside, from the bytes behind the two record headers.\<close>

definition header_bytes :: "'k conn \<Rightarrow> byte list" where
  "header_bytes c = take 64 (if cn_is_tls c then drop 11 (cn_in c) else cn_in c)"

lemma opened_tls: "opened env tag i w (c\<lparr>cn_in := x, cn_left_tls := y\<rparr>) w' c' = opened env tag i w c w' c'"
proof -
  have "acct_of (c\<lparr>cn_in := x, cn_left_tls := y\<rparr>) = acct_of c" by (simp add: acct_of_def)
  then show ?thesis using attach_secret_store[of w w "c\<lparr>cn_in := x, cn_left_tls := y\<rparr>" c env i] by (simp add: opened_def)
qed

lemma first_bytes_opened:
  assumes "first_bytes env n w c = Some (w', c', Again)" "0 < tcp_rpcs_active_secret_count (env_now (xe_host env)) (ew_store w)"
  shows "\<exists>E \<in> set (entries (ew_store w)). ext_is_active_locked E (env_now (xe_host env)) \<and>
    opened env (header_tag env (Some (e_secret E)) (header_bytes c)) (e_id E) w c w' c'"
proof (cases "cn_is_tls c")
  case True
  let ?left = "int (be16 (take 11 (cn_in c)) 9)"
  have "obfuscated_header env w (c\<lparr>cn_in := drop 11 (cn_in c), cn_left_tls := ?left - 64\<rparr>) = Some (w', c', Again)"
    using assms(1) True by (auto simp: first_bytes_def first_tls_packet_def Let_def split: if_split_asm)
  from obfuscated_header_effect[OF this] show ?thesis using assms(2) True by (auto simp: header_bytes_def opened_tls)
next
  case False
  have no: "client_hello env w c \<noteq> Some (w', c', Again)" "pass_on env i w c \<noteq> Some (w', c', Again)" for i
    using client_hello_effect[of env w c w' c' Again] by (auto simp: pass_on_def)
  have "obfuscated_header env w c = Some (w', c', Again)"
    using assms(1) False no unfolding first_bytes_def by (auto split: if_split_asm)
  from obfuscated_header_effect[OF this] show ?thesis using assms(2) False by (auto simp: header_bytes_def)
qed

lemma first_bytes_effect:
  assumes "first_bytes env n w c = Some (w', c', e)" "\<not> cn_is_tls c"
  shows "(\<exists>E. let_in env (cn_in c) w c w' E) \<and> cn_is_tls c' \<and> cn_kind c' = cn_kind c \<or>
    not_let_in env w w' \<and> \<not> cn_is_tls c' \<and> (cn_kind c' = cn_kind c \<or> (\<exists>d. passed env w c d w' c' \<and>
      (default_domain_info w = Some d \<or> get_sni_domain_info (ew_domains w) (take 4096 (cn_in c)) = Some (Some d))))"
proof -
  consider "client_hello env w c = Some (w', c', e)" | "pass_on env (default_domain_info w) w c = Some (w', c', e)"
    | "obfuscated_header env w c = Some (w', c', e)" "\<not> dt_only_tls (ew_domains w)"
    using assms unfolding first_bytes_def by (auto split: if_split_asm)
  then show ?thesis
  proof cases
    case 1
    from client_hello_effect[OF this] show ?thesis using assms(2) by blast
  next
    case 2
    from pass_on_effect[OF this] show ?thesis using assms(2) by (auto simp: not_let_in_def)
  next
    case 3
    from obfuscated_header_effect[OF 3(1)] show ?thesis using assms(2) 3(2) by (simp add: not_let_in_def)
  qed
qed

lemma ext_step_first:
  assumes "td_in_packet_num (cn_data c) = -3" "ext_step env w c = Some (w', c', e)"
  shows "w' = w \<and> c' = c \<and> e \<noteq> Again \<or> first_bytes env (le32 (cn_in c)) w c = Some (w', c', e)"
  using assms by (auto simp: ext_step_def Let_def split: if_split_asm)

section \<open>Strangers\<close>

text \<open>
  A client is known when its hello carries the HMAC of itself under the secret of an active entry, and
  the cache and the clock allow it.
\<close>

definition known_client :: "'a ext_env \<Rightarrow> 'a ext_world \<Rightarrow> byte list \<Rightarrow> bool" where
  "known_client env w hello \<longleftrightarrow>
     (\<exists>E \<in> set (entries (ew_store w)). ext_is_active_locked E (env_now (xe_host env)) \<and>
       take 28 (xe_hmac env (e_secret E) (hello_zeroed hello)) = take 28 (hello_random_of hello) \<and>
       (\<exists>cache. judge_hello (xe_now env) (hello_random_of hello) True (hello_time env (e_secret E) hello) (ew_cache w) = Some (True, cache)))"

text \<open>The proxy imitates domains: there is a default one, and all have an address.\<close>

definition has_address :: "domain_info \<Rightarrow> bool" where
  "has_address d \<longleftrightarrow> d_target d \<noteq> 0 \<or> d_target6 d \<noteq> replicate 16 0"

definition imitating :: "'a ext_world \<Rightarrow> bool" where
  "imitating w \<longleftrightarrow> dt_only_tls (ew_domains w) \<and> (\<exists>d. default_domain_info w = Some d \<and> has_address d) \<and>
     (\<forall>name d. get_domain_info (ew_domains w) name = Some d \<longrightarrow> has_address d)"

lemma imitatingD:
  assumes "imitating w"
  shows "dt_only_tls (ew_domains w)" "\<exists>d. default_domain_info w = Some d \<and> has_address d"
    "get_sni_domain_info (ew_domains w) hello = Some (Some d) \<Longrightarrow> has_address d"
proof -
  show "dt_only_tls (ew_domains w)" "\<exists>d. default_domain_info w = Some d \<and> has_address d" using assms by (auto simp: imitating_def)
  assume "get_sni_domain_info (ew_domains w) hello = Some (Some d)"
  then obtain name where "get_domain_info (ew_domains w) name = Some d" by (auto simp: get_sni_domain_info_def bind_eq_Some_conv)
  then show "has_address d" using assms unfolding imitating_def by blast
qed

lemma pass_on_relays:
  assumes "has_address d" "xe_socket env" "xe_alloc env"
  shows "\<exists>w' c'. pass_on env (Some d) w c = Some (w', c', Return 0) \<and> passed env w c d w' c'"
proof -
  have a: "\<not> (d_target d = 0 \<and> d_target6 d = replicate 16 0)" using assms(1) by (auto simp: has_address_def)
  show ?thesis
    using assms(2,3) unfolding pass_on_def proxy_connection_def option.case if_not_P[OF a]
    by (auto simp: tcp_proxy_pass_parse_execute_def Let_def passed_def new_peer_def new_conn_def)
qed

lemma judge_client_stranger:
  assumes "\<not> known_client env w hello" "cache_ok (ew_cache w)" "\<forall>e \<in> set (rc_by_time (ew_cache w)). cr_time e \<le> xe_now env"
    "has_address info" "xe_socket env" "xe_alloc env"
  shows "\<exists>w' c'. judge_client env info hello w c = Some (w', c', Return 0) \<and> passed env w c info w' c'"
proof -
  let ?rnd = "hello_random_of hello" and ?h = "hello_zeroed hello" and ?now = "env_now (xe_host env)"
  note relays = pass_on_relays[OF assms(4-6)]
  show ?thesis
  proof (cases "have_client_random ?rnd (ew_cache w)")
    case True
    then show ?thesis using relays[of w c] by (simp add: judge_client_def hello_random_of_def)
  next
    case new: False
    obtain cache where cache: "remember_client (xe_now env) ?rnd (ew_cache w) = Some cache" using remember_client_ok[OF assms(2,3)] by blast
    let ?w = "w\<lparr>ew_cache := cache\<rparr>"
    have out: "\<exists>w' c'. pass_on env (Some info) ?w c = Some (w', c', Return 0) \<and> passed env w c info w' c'" using relays[of ?w c] by simp
    obtain r secrets where snap: "ext_snapshot_active_secrets (xe_host env) ?now (ew_store w) = (r, secrets)" by (metis surj_pair)
    have step: "judge_client env info hello w c = (if r < 0 then pass_on env (Some info) ?w c
      else case matching_secret env ?h ?rnd secrets of
        None \<Rightarrow> pass_on env (Some info) ?w c
      | Some secret \<Rightarrow>
          if \<not> is_allowed_timestamp (xe_now env) (first_time cache) (hello_time env (fst secret) hello) then pass_on env (Some info) ?w c
          else case hello_cipher ?h of None \<Rightarrow> pass_on env (Some info) ?w c
               | Some cipher \<Rightarrow> answer_hello env info ?rnd ?h secret cipher ?w c)"
      unfolding judge_client_def Let_def hello_random_of_def[symmetric] hello_zeroed_def[symmetric] hello_time_def[symmetric] if_not_P[OF new] cache
      by (simp add: snap)
    have "\<not> is_allowed_timestamp (xe_now env) (first_time cache) (hello_time env (fst secret) hello)"
      if m: "matching_secret env ?h ?rnd secrets = Some secret" for secret
    proof
      assume t: "is_allowed_timestamp (xe_now env) (first_time cache) (hello_time env (fst secret) hello)"
      obtain k i where ki: "secret = (k, i)" by (cases secret)
      have "(k, i) \<in> set secrets" "take 28 (xe_hmac env k ?h) = take 28 ?rnd"
        using m unfolding matching_secret_def ki by (auto simp: find_Some_iff in_set_conv_nth)
      moreover obtain E where "E \<in> set (entries (ew_store w))" "ext_is_active_locked E ?now" "e_secret E = k"
        using snapshot_member[OF snap calculation(1)] by blast
      moreover have "judge_hello (xe_now env) ?rnd True (hello_time env k hello) (ew_cache w) = Some (True, cache)"
        using new cache t ki by (simp add: judge_hello_def)
      ultimately show False using assms(1) unfolding known_client_def by blast
    qed
    then have "judge_client env info hello w c = pass_on env (Some info) ?w c"
      unfolding step by (cases "matching_secret env ?h ?rnd secrets") simp_all
    then show ?thesis using out by simp
  qed
qed

lemma first_bytes_stranger:
  assumes "\<not> cn_is_tls c" "imitating w" "xe_socket env" "xe_alloc env"
    "cache_ok (ew_cache w)" "\<forall>e \<in> set (rc_by_time (ew_cache w)). cr_time e \<le> xe_now env"
    "n AND 0xFFFFFF = 0x010316 \<longrightarrow> 5 + be16 (cn_in c) 3 \<le> length (cn_in c)" "\<not> known_client env w (cn_in c)"
  shows "\<exists>w' c' d. first_bytes env n w c = Some (w', c', Return 0) \<and> passed env w c d w' c' \<and>
    (default_domain_info w = Some d \<or> get_sni_domain_info (ew_domains w) (take 4096 (cn_in c)) = Some (Some d))"
proof -
  note im = imitatingD[OF assms(2)]
  obtain d0 where d0: "default_domain_info w = Some d0" "has_address d0" using im(2) by blast
  note default = pass_on_relays[OF d0(2) assms(3,4), of w c]
  have plain: "first_bytes env n w c = client_hello env w c \<and> n AND 0xFFFFFF = 0x010316 \<or> first_bytes env n w c = pass_on env (default_domain_info w) w c"
    using assms(1) im(1) by (auto simp: first_bytes_def)
  show ?thesis
  proof (cases "first_bytes env n w c = pass_on env (default_domain_info w) w c")
    case True
    then show ?thesis using default d0(1) by auto
  next
    case False
    then have f: "first_bytes env n w c = client_hello env w c" "\<not> length (cn_in c) < 5 + be16 (cn_in c) 3"
      using plain assms(7) by auto
    have hello: "take (min (length (cn_in c)) 4096) (cn_in c) = take 4096 (cn_in c)" by (simp add: min_def)
    obtain sni where sni: "get_sni_domain_info (ew_domains w) (take 4096 (cn_in c)) = Some sni"
      using sni_name_defined[of "take 4096 (cn_in c)"] by (auto simp: get_sni_domain_info_def)
    have hl: "client_hello env w c = (case sni of None \<Rightarrow> pass_on env (default_domain_info w) w c
      | Some info \<Rightarrow> if cn_our_port c = 80 \<or> length (cn_in c) > 5 + be16 (cn_in c) 3 \<or> length (cn_in c) \<noteq> length (take 4096 (cn_in c))
          then pass_on env (Some info) w c else judge_client env info (take 4096 (cn_in c)) w c)"
      unfolding client_hello_def Let_def if_not_P[OF f(2)] hello sni by (simp only: bind.bind_lunit)
    show ?thesis
    proof (cases sni)
      case None
      then show ?thesis using default d0(1) unfolding f(1) hl by auto
    next
      case (Some info)
      note a = im(3)[OF sni[unfolded Some]]
      show ?thesis
      proof (cases "cn_our_port c = 80 \<or> length (cn_in c) > 5 + be16 (cn_in c) 3 \<or> length (cn_in c) \<noteq> length (take 4096 (cn_in c))")
        case True
        then show ?thesis using pass_on_relays[OF a assms(3,4), of w c] sni Some unfolding f(1) hl by auto
      next
        case no: False
        then have "take 4096 (cn_in c) = cn_in c" by (auto simp: min_def split: if_splits)
        then have "first_bytes env n w c = judge_client env info (cn_in c) w c" unfolding f(1) hl Some option.case if_not_P[OF no] by simp
        then show ?thesis using judge_client_stranger[OF assms(8,5,6) a assms(3,4), of c] sni Some by auto
      qed
    qed
  qed
qed

section \<open>Without an active secret\<close>

lemma open_without_secret:
  assumes "td_in_packet_num (cn_data c) = -3" "\<not> cn_is_tls c" "\<not> cn_error_flag c" "\<not> cn_stopparse c"
    "\<not> dt_only_tls (ew_domains w)" "\<forall>E \<in> set (entries (ew_store w)). \<not> ext_is_active_locked E (env_now (xe_host env))"
    "64 \<le> length (cn_in c)" "header_tag env None (take 64 (cn_in c)) \<in> {tag_dd, tag_ee, tag_ef}"
  shows "\<exists>w' c'. ext_step env w c = Some (w', c', Again) \<and> opened env (header_tag env None (take 64 (cn_in c))) 0 w c w' c' \<and>
    ew_store w' = ew_store w"
proof -
  let ?header = "take 64 (cn_in c)" and ?now = "env_now (xe_host env)"
  have zero: "tcp_rpcs_active_secret_count ?now (ew_store w) \<le> 0" using assms(6) by (simp add: no_active_count)
  then have snap: "ext_snapshot_active_secrets (xe_host env) ?now (ew_store w) = (0, [])"
    by (simp add: ext_snapshot_active_secrets_def Let_def)
  obtain rk wk where hk: "header_keys env None ?header = (rk, wk)" by (metis surj_pair)
  obtain dec rk' where dec: "ctr_crypt (xe_ks env) rk ?header = (dec, rk')" by (metis surj_pair)
  have tag: "le32 (drop 56 dec) = header_tag env None ?header" by (simp add: header_tag_def hk dec)
  let ?t = "header_tag env None ?header"
  have "ext_step env w c = first_bytes env (le32 (cn_in c)) w c"
    using assms(1,3,4,7) by (auto simp: ext_step_def Let_def)
  also have "\<dots> = obfuscated_header env w c" using assms(2,5) by (simp add: first_bytes_def)
  also have "\<dots> = try_secrets env ?header [(None, 0)] w c"
    using assms(7) snap by (simp add: obfuscated_header_def Let_def)
  also have "\<dots> = accept_header env (rk', wk) dec ?t 0 w c"
    unfolding try_secrets.simps hk prod.case dec Let_def tag using assms(8) by simp
  finally have step: "ext_step env w c = accept_header env (rk', wk) dec ?t 0 w c" .
  let ?c = "set_data (\<lambda>d. d\<lparr>td_in_packet_num := 0, td_flags := td_flags d OR mode_flags ?t\<rparr>)
    (c\<lparr>cn_crypto := Some (rk', wk), cn_in_u := cn_in_u c @ drop 64 (cn_in c), cn_in := []\<rparr>)"
  obtain r c1 where d: "cpu_tcp_aes_crypto_ctr128_decrypt_input (xe_ks env) ?c = Some (r, c1)" "0 \<le> r"
    using assms(2) by (cases "cn_in_u c @ drop 64 (cn_in c) = []")
      (simp_all add: cpu_tcp_aes_crypto_ctr128_decrypt_input_def Let_def decrypt_loop.simps case_prod_beta)
  have a: "attach_secret env 0 w x = (w, set_data (\<lambda>d. d\<lparr>td_extra_int2 := td_extra_int2 d\<rparr>) x)" for x
    by (simp add: attach_secret_def ext_metrics_attach_secret_to_connection_def acct_of_def)
  have "\<exists>c'. accept_header env (rk', wk) dec ?t 0 w c = Some (w, c', Again)"
    using assms(5) d(2) by (simp add: accept_header_def Let_def d(1)[simplified] a)
  then obtain c' where c': "accept_header env (rk', wk) dec ?t 0 w c = Some (w, c', Again)" by blast
  from accept_header_effect[OF this assms(8)] show ?thesis using step c' by auto
qed

end
