(* ===== verification/Ext_Properties.thy ===== *)
theory Ext_Properties
  imports Ext_Gate TLS_Wire
begin

text \<open>
  The properties of the gate: who is let in, that no hello is let in twice in a run of the server, what
  happens to a stranger, and what happens when no secret is active.
\<close>

section \<open>Runs of the server\<close>

text \<open>The handler of packets has no access to the cache, which is static in its file.\<close>

definition handler_leaves_cache :: "'a ext_env \<Rightarrow> bool" where
  "handler_leaves_cache env \<longleftrightarrow> (\<forall>t msg w c w' c' r. xe_execute env t msg w c = Some (w', c', r) \<longrightarrow> ew_cache w' = ew_cache w)"

lemma serve_message_cache:
  assumes "handler_leaves_cache env" "serve_message env msg w c = Some (w', c', e)"
  shows "ew_cache w' = ew_cache w"
proof -
  have h: "ew_cache w' = ew_cache w" if "xe_execute env t m w c = Some (w', c', r)" for t m c w' c' r
    using assms(1) that unfolding handler_leaves_cache_def by blast
  show ?thesis using assms(2) h by (auto simp: serve_message_def Let_def split: if_split_asm)
qed

lemma client_packet_cache:
  assumes "handler_leaves_cache env" "client_packet env n w c = Some (w', c', e)"
  shows "ew_cache w' = ew_cache w"
  using assms(2) serve_message_cache[OF assms(1)]
  by (auto simp: client_packet_def Let_def split: option.splits prod.splits if_split_asm)

text \<open>
  The hello that a step accepts, if it does: what the cache keeps of its random value, and its time
  stamp under the secret that it was accepted for.
\<close>

definition accepts :: "'a ext_env \<Rightarrow> 'a ext_world \<Rightarrow> 'a ctr conn \<Rightarrow> 'a ctr conn \<Rightarrow> bool" where
  "accepts env w c c' \<longleftrightarrow> td_in_packet_num (cn_data c) = -3 \<and> \<not> cn_is_tls c \<and> cn_is_tls c'"

text \<open>
  A run: a step of any connection, at any later time and with any handler, random numbers and answers
  of the host, or anything else that leaves the cache, such as a command of the administrator.  The
  log holds the hellos accepted, with the time stamp for the secret of an entry.
\<close>

inductive ext_run :: "int \<Rightarrow> 'a ext_world \<Rightarrow> (byte list \<times> int) list \<Rightarrow> bool" where
  run_start: "ew_cache w = empty_cache \<Longrightarrow> ext_run t w []"
| run_step: "ext_run t w l \<Longrightarrow> t \<le> xe_now env \<Longrightarrow> handler_leaves_cache env \<Longrightarrow> ext_step env w c = Some (w', c', e) \<Longrightarrow>
    \<not> accepts env w c c' \<Longrightarrow> ext_run (xe_now env) w' l"
| run_accept: "ext_run t w l \<Longrightarrow> t \<le> xe_now env \<Longrightarrow> handler_leaves_cache env \<Longrightarrow> ext_step env w c = Some (w', c', e) \<Longrightarrow>
    accepts env w c c' \<Longrightarrow> let_in env (cn_in c) w c w' E \<Longrightarrow>
    ext_run (xe_now env) w' (l @ [(take 16 (hello_random_of (cn_in c)), hello_time env (e_secret E) (cn_in c))])"
| run_other: "ext_run t w l \<Longrightarrow> ew_cache w' = ew_cache w \<Longrightarrow> ext_run t w' l"

lemma step_cache:
  assumes "handler_leaves_cache env" "ext_step env w c = Some (w', c', e)"
  shows "accepts env w c c' \<and> (\<exists>E. let_in env (cn_in c) w c w' E) \<or> \<not> accepts env w c c' \<and> not_let_in env w w'"
proof (cases "td_in_packet_num (cn_data c) = -3")
  case True
  from ext_step_first[OF True assms(2)] show ?thesis
  proof
    assume "w' = w \<and> c' = c \<and> e \<noteq> Again"
    then show ?thesis by (auto simp: accepts_def not_let_in_def)
  next
    assume f: "first_bytes env (le32 (cn_in c)) w c = Some (w', c', e)"
    show ?thesis
    proof (cases "cn_is_tls c")
      case tls: True
      then have "first_tls_packet env w c = Some (w', c', e)" using f by (simp add: first_bytes_def)
      from first_tls_packet_effect[OF this] show ?thesis using tls by (simp add: accepts_def not_let_in_def)
    next
      case False
      from first_bytes_effect[OF f False] show ?thesis using True False by (auto simp: accepts_def)
    qed
  qed
next
  case False
  have "ew_cache w' = ew_cache w"
    using assms(2) client_packet_cache[OF assms(1)] False by (auto simp: ext_step_def Let_def split: if_split_asm)
  then show ?thesis using False by (simp add: accepts_def not_let_in_def)
qed

text \<open>What the cache knows of the hellos accepted so far.\<close>

definition remembered :: "int \<Rightarrow> random_cache \<Rightarrow> (byte list \<times> int) list \<Rightarrow> bool" where
  "remembered t s l \<longleftrightarrow> cache.timely t s \<and> (\<forall>(k, ts) \<in> set l. \<exists>t0. cache.seen k t0 t s \<and> ts \<le> t0 + 3)"

lemma remembered_later: "remembered t s l \<Longrightarrow> t \<le> t' \<Longrightarrow> remembered t' s l"
  unfolding remembered_def using cache.timely_later cache.seen_later by fast

lemma remembered_judge:
  assumes "remembered t s l" "judge_hello t r m ts s = Some (a, s')"
  shows "remembered t s' l \<and> (a \<longrightarrow> (take 16 r, ts) \<notin> set l \<and> remembered t s' (l @ [(take 16 r, ts)]))"
proof -
  have tm: "cache.timely t s" using assms(1) by (simp add: remembered_def)
  obtain b s2 where j: "cache.judge t r m ts s = Some (b, s2)" "cache.timely t s2" "\<forall>k t0. cache.seen k t0 t s \<longrightarrow> cache.seen k t0 t s2"
    "b \<longrightarrow> cache.seen (take 16 r) t t s2 \<and> ts \<le> t + 3" "\<forall>t0. cache.seen (take 16 r) t0 t s \<and> ts \<le> t0 + 3 \<longrightarrow> \<not> b"
    using cache.judge_step[OF tm, of r m ts] by blast
  have eq: "b = a" "s2 = s'" using j(1) assms(2) by (simp_all add: judge_hello_judge)
  have old: "remembered t s' l"
    using assms(1) j(2,3) unfolding remembered_def eq by fast
  moreover have "(take 16 r, ts) \<notin> set l" if a
  proof
    assume "(take 16 r, ts) \<in> set l"
    then obtain t0 where "cache.seen (take 16 r) t0 t s" "ts \<le> t0 + 3" using assms(1) unfolding remembered_def by blast
    then show False using j(5) eq that by blast
  qed
  moreover have "remembered t s' (l @ [(take 16 r, ts)])" if a
    using old j(4) that eq unfolding remembered_def by auto
  ultimately show ?thesis by blast
qed

lemma run_remembered: "ext_run t w l \<Longrightarrow> remembered t (ew_cache w) l \<and> distinct l"
proof (induction rule: ext_run.induct)
  case (run_start w t)
  then show ?case using empty_timely by (simp add: remembered_def)
next
  case (run_step t w l env c w' c' e)
  then have "remembered (xe_now env) (ew_cache w) l" using remembered_later by blast
  moreover have "not_let_in env w w'" using step_cache[OF run_step(3,4)] run_step(5) by blast
  ultimately show ?case using remembered_judge run_step.IH unfolding not_let_in_def by metis
next
  case (run_accept t w l env c w' c' e E)
  then have r: "remembered (xe_now env) (ew_cache w) l" using remembered_later by blast
  have "judge_hello (xe_now env) (hello_random_of (cn_in c)) True (hello_time env (e_secret E) (cn_in c)) (ew_cache w) = Some (True, ew_cache w')"
    using run_accept(6) by (simp add: let_in_def)
  from remembered_judge[OF r this] show ?case using run_accept.IH by auto
qed simp

section \<open>A server with one secret\<close>

text \<open>One active secret, and one imitated domain with the name \<open>a\<close>.\<close>

definition gate_domain :: domain_info where
  "gate_domain = (new_domain [0x61])\<lparr>d_target := 0x01020304, d_encrypted_size := 2500\<rparr>"

definition gate_entry :: secret_entry where
  "gate_entry = zero_entry\<lparr>e_secret := replicate 16 9, e_id := 1, e_enabled := True\<rparr>"

definition gate_world :: "byte list ext_world" where
  "gate_world = example_world\<lparr>ew_store := init_store\<lparr>entries := [gate_entry]\<rparr>,
     ew_domains := \<lparr>dt_buckets = (replicate 257 [])[97 := [gate_domain]], dt_default = Some [0x61], dt_only_tls = True\<rparr>\<rparr>"

text \<open>A hello for this secret and domain, with the time stamp 990, and its connection.\<close>

definition gate_hello :: "byte list" where
  "gate_hello = [0x16, 3, 1, 2, 0, 1, 0, 0, 85, 3, 3] @ (replicate 16 9 @ replicate 12 0x16 @ [0xc8, 0x15, 0x16, 0x16]) @ [0x20] @ replicate 32 4
     @ [0, 2, 0x13, 1, 1, 0, 0, 10, 0, 0, 0, 6, 0, 4, 0, 0, 1, 0x61] @ replicate 423 0"

definition gate_conn :: "byte list ctr conn" where
  "gate_conn = set_data (\<lambda>d. d\<lparr>td_in_packet_num := -3\<rparr>) (new_conn Kind_Ext_Server 443)"

lemma gate_hello_length: "length gate_hello = 517"
  by (simp add: gate_hello_def)

lemma gate_sni: "get_sni_domain_info (ew_domains gate_world) gate_hello = Some (Some gate_domain)"
proof -
  have "sni_name gate_hello = Some (Some [0x61])"
    by (simp add: sni_name_def sni_loop.simps read_length_def be16_def byte_at_def gate_hello_def nth_append)
  moreover have "get_domain_info_bucket [0x61] = 97" by (simp add: get_domain_info_bucket_def DOMAIN_HASH_MOD_def)
  ultimately show ?thesis
    by (simp add: get_sni_domain_info_def get_domain_info_def gate_world_def gate_domain_def new_domain_def)
qed

lemma gate_parts:
  "hello_random_of gate_hello = replicate 16 9 @ replicate 12 0x16 @ [0xc8, 0x15, 0x16, 0x16]"
  "xe_hmac example_ext_env (replicate 16 9) (hello_zeroed gate_hello) = replicate 16 9 @ replicate 16 0x16"
  "hello_cipher (hello_zeroed gate_hello) = Some 1"
  by (simp_all add: hello_random_of_def hello_zeroed_def gate_hello_def example_ext_env_def hello_cipher_def be16_def Let_def
      nth_append skip_grease.simps)

text \<open>The hello is accepted; everything that was computed with concrete values is in the facts above.\<close>

lemma gate_judged:
  "\<exists>w' c'. judge_client example_ext_env gate_domain gate_hello gate_world (gate_conn\<lparr>cn_in := gate_hello\<rparr>) = Some (w', c', Return 11) \<and> cn_is_tls c'"
proof -
  let ?rnd = "hello_random_of gate_hello" and ?h = "hello_zeroed gate_hello" and ?c = "gate_conn\<lparr>cn_in := gate_hello\<rparr>"
  let ?cache = "add_client_random 1000 ?rnd empty_cache"
  have have0: "\<not> have_client_random ?rnd (ew_cache gate_world)"
    by (simp add: have_client_random_def gate_world_def example_world_def empty_cache_def)
  have remember: "remember_client (xe_now example_ext_env) ?rnd (ew_cache gate_world) = Some ?cache"
    by (simp add: remember_client_def delete_old_client_randoms_def add_client_random_def Let_def gate_world_def example_world_def
        empty_cache_def example_ext_env_def)
  have snap: "ext_snapshot_active_secrets (xe_host example_ext_env) (env_now (xe_host example_ext_env)) (ew_store (gate_world\<lparr>ew_cache := ?cache\<rparr>))
      = (0, [(replicate 16 9, 1)])"
    by (simp add: ext_snapshot_active_secrets_def tcp_rpcs_active_secret_count_def gate_world_def gate_entry_def zero_entry_def
        ext_is_active_locked_def example_ext_env_def good_env_def)
  have match: "matching_secret example_ext_env ?h ?rnd [(replicate 16 9, 1)] = Some (replicate 16 9, 1)"
    by (simp add: matching_secret_def gate_parts)
  have time: "is_allowed_timestamp (xe_now example_ext_env) (first_time ?cache)
      (sint (le32 (drop 28 (xe_hmac example_ext_env (replicate 16 9) ?h)) XOR le32 (drop 28 ?rnd)))"
    unfolding gate_parts
    by (simp add: le32_def is_allowed_timestamp_def first_time_def add_client_random_def Let_def empty_cache_def example_ext_env_def
        MAX_ALLOWED_TIMESTAMP_ERROR_def)
  have sh: "\<exists>m. server_hello mac cr (take 32 (drop 44 gate_hello)) 1 revd (replicate 32 6) 2500 (\<lambda>n. replicate n 5) = Some m" for mac cr revd
    using server_hello_shape[of 2500 "take 32 (drop 44 gate_hello)" "replicate 32 6" "\<lambda>n. replicate n 5" mac cr 1 revd]
    by (auto simp: gate_hello_length)
  have "\<exists>m. server_hello (xe_hmac example_ext_env (replicate 16 9)) ?rnd (take 32 (drop 44 ?h)) 1 (d_reversed gate_domain)
      (xe_public_key example_ext_env) (get_domain_server_hello_encrypted_size (xe_rand example_ext_env) gate_domain) (xe_random example_ext_env) = Some m"
    by (simp add: gate_domain_def new_domain_def example_ext_env_def get_domain_server_hello_encrypted_size_def hello_zeroed_def
        gate_hello_length sh)
  then obtain m where m: "server_hello (xe_hmac example_ext_env (replicate 16 9)) ?rnd (take 32 (drop 44 ?h)) 1 (d_reversed gate_domain)
      (xe_public_key example_ext_env) (get_domain_server_hello_encrypted_size (xe_rand example_ext_env) gate_domain) (xe_random example_ext_env) = Some m"
    by blast
  have "\<exists>w' c'. answer_hello example_ext_env gate_domain ?rnd ?h (replicate 16 9, 1) 1 (gate_world\<lparr>ew_cache := ?cache\<rparr>) ?c = Some (w', c', Return 11) \<and> cn_is_tls c'"
    by (simp add: answer_hello_def Let_def m attach_secret_def split: prod.split)
  then obtain w' c' where a: "answer_hello example_ext_env gate_domain ?rnd ?h (replicate 16 9, 1) 1 (gate_world\<lparr>ew_cache := ?cache\<rparr>) ?c
      = Some (w', c', Return 11)" "cn_is_tls c'" by blast
  have "judge_client example_ext_env gate_domain gate_hello gate_world ?c = Some (w', c', Return 11)"
    unfolding judge_client_def Let_def hello_random_of_def[symmetric] hello_zeroed_def[symmetric] if_not_P[OF have0] remember
      bind.bind_lunit snap prod.case match option.case fst_conv gate_parts(3) a(1)
    using time by simp
  then show ?thesis using a(2) by blast
qed

lemma gate_step:
  "\<exists>w' c'. ext_step example_ext_env gate_world (gate_conn\<lparr>cn_in := gate_hello\<rparr>) = Some (w', c', Return 11) \<and> cn_is_tls c'"
proof -
  let ?c = "gate_conn\<lparr>cn_in := gate_hello\<rparr>"
  have b: "be16 gate_hello 3 = 512" "le32 gate_hello = 0x02010316" by (simp_all add: gate_hello_def be16_def le32_def)
  have n: "tcp_rpcs_active_secret_count (env_now (xe_host example_ext_env)) (ew_store gate_world) > 0"
    by (simp add: tcp_rpcs_active_secret_count_def gate_world_def gate_entry_def zero_entry_def ext_is_active_locked_def)
  have f: "td_in_packet_num (cn_data ?c) = -3" "\<not> cn_error_flag ?c" "\<not> cn_stopparse ?c" "\<not> cn_is_tls ?c" "cn_our_port ?c = 443"
    "\<not> has_flag (td_flags (cn_data ?c)) RPC_F_MEDIUM" "cn_in ?c = gate_hello" "dt_only_tls (ew_domains gate_world)"
    by (simp_all add: gate_conn_def new_conn_def zero_data_def has_flag_def gate_world_def)
  have "ext_step example_ext_env gate_world ?c = first_bytes example_ext_env (le32 gate_hello) gate_world ?c"
    using f gate_hello_length by (auto simp: ext_step_def Let_def)
  also have "\<dots> = client_hello example_ext_env gate_world ?c"
    using f(4) f(8) n by (simp add: first_bytes_def b)
  also have "\<dots> = judge_client example_ext_env gate_domain gate_hello gate_world ?c"
    using f(5) by (simp add: client_hello_def Let_def b gate_hello_length gate_sni)
  finally show ?thesis using gate_judged by simp
qed

section \<open>Properties\<close>

text \<open>
  C3. In every run of the server no ClientHello is let in twice: whatever the clients send, on any number
  of connections, and whatever else the server does, the pairs of the random value (the 16 bytes that
  the cache keeps) and the time stamp of the hellos accepted are all different.
\<close>

theorem no_hello_accepted_again:
  assumes "ext_run t w l"
  shows "distinct l"
  using run_remembered[OF assms] by blast

lemma gate_handler: "handler_leaves_cache example_ext_env"
  by (auto simp: handler_leaves_cache_def example_ext_env_def)

lemma gate_conn_first: "td_in_packet_num (cn_data (gate_conn\<lparr>cn_in := x\<rparr>)) = -3" "\<not> cn_is_tls (gate_conn\<lparr>cn_in := x\<rparr>)"
  "\<not> cn_error_flag (gate_conn\<lparr>cn_in := x\<rparr>)" "\<not> cn_stopparse (gate_conn\<lparr>cn_in := x\<rparr>)"
  by (simp_all add: gate_conn_def new_conn_def)

lemma gate_run: "\<exists>(w' :: byte list ext_world) k ts. ext_run 1000 w' [(k, ts)]"
proof -
  let ?c = "gate_conn\<lparr>cn_in := gate_hello\<rparr>"
  obtain w' c' where s: "ext_step example_ext_env gate_world ?c = Some (w', c', Return 11)" "cn_is_tls c'" using gate_step by blast
  have a: "accepts example_ext_env gate_world ?c c'" using gate_conn_first s(2) by (simp add: accepts_def)
  obtain E where E: "let_in example_ext_env (cn_in ?c) gate_world ?c w' E" using step_cache[OF gate_handler s(1)] a by blast
  have "ext_run 1000 gate_world []" by (rule run_start) (simp add: gate_world_def example_world_def)
  moreover have now: "xe_now example_ext_env = 1000" by (simp add: example_ext_env_def)
  ultimately show ?thesis using run_accept[OF _ _ gate_handler s(1) a E, unfolded now] by force
qed

theorem no_hello_accepted_again_witness: "\<exists>(w' :: byte list ext_world) k ts. ext_run 1000 w' [(k, ts)] \<and> distinct [(k, ts)]"
proof -
  obtain w' :: "byte list ext_world" and k ts where r: "ext_run 1000 w' [(k, ts)]" using gate_run by blast
  then show ?thesis using no_hello_accepted_again[OF r] by blast
qed

text \<open>
  C5. A connection becomes a TLS connection only for a client that knows an active secret: the hello then
  carries the HMAC of itself under the secret of an active entry, is not known to the cache and has an
  allowed time stamp, it is remembered, and the connection is accounted to that entry.
\<close>

theorem tls_needs_active_secret:
  assumes "td_in_packet_num (cn_data c) = -3" "\<not> cn_is_tls c" "ext_step env w c = Some (w', c', e)" "cn_is_tls c'"
  shows "\<exists>E \<in> set (entries (ew_store w)). ext_is_active_locked E (env_now (xe_host env)) \<and>
    take 28 (xe_hmac env (e_secret E) (hello_zeroed (cn_in c))) = take 28 (hello_random_of (cn_in c)) \<and>
    judge_hello (xe_now env) (hello_random_of (cn_in c)) True (hello_time env (e_secret E) (cn_in c)) (ew_cache w) = Some (True, ew_cache w') \<and>
    ew_store w' = ew_store (fst (attach_secret env (e_id E) w c))"
proof -
  have "first_bytes env (le32 (cn_in c)) w c = Some (w', c', e)"
    using ext_step_first[OF assms(1,3)] assms(2,4) by auto
  from first_bytes_effect[OF this assms(2)] obtain E where "let_in env (cn_in c) w c w' E" using assms(4) by blast
  then show ?thesis unfolding let_in_def by blast
qed

theorem tls_needs_active_secret_witness:
  "\<exists>w' c' e. ext_step example_ext_env gate_world (gate_conn\<lparr>cn_in := gate_hello\<rparr>) = Some (w', c', e) \<and>
    (\<exists>E \<in> set (entries (ew_store gate_world)). ext_is_active_locked E (env_now (xe_host example_ext_env)) \<and>
      take 28 (xe_hmac example_ext_env (e_secret E) (hello_zeroed gate_hello)) = take 28 (hello_random_of gate_hello))"
proof -
  obtain w' c' where s: "ext_step example_ext_env gate_world (gate_conn\<lparr>cn_in := gate_hello\<rparr>) = Some (w', c', Return 11)" "cn_is_tls c'"
    using gate_step by blast
  from tls_needs_active_secret[OF gate_conn_first(1,2) s] s(1) show ?thesis by auto
qed

lemma timely_cache:
  "cache.timely now s \<Longrightarrow> cache_ok s" "cache.timely now s \<Longrightarrow> \<forall>e \<in> set (rc_by_time s). cr_time e \<le> now"
  by (auto simp: cache.timely_def cache_log_def)

text \<open>
  C8. A stranger is passed on with all that it sent.  In every reachable state of a server that imitates
  domains whose addresses are known, and while the kernel gives sockets: the first bytes of a plain
  connection that is not the hello of a known client (the HMAC of an active secret, new to the cache, at
  an allowed time), when they have arrived, make the connection a relay.  Its new peer is the server of
  the domain that the hello names, or of the default domain, its output is exactly the bytes received,
  nothing of them is kept, and nothing was sent back.
\<close>

theorem stranger_passed_on:
  assumes "ext_run t w l" "t \<le> xe_now env" "imitating w" "xe_socket env" "xe_alloc env"
    "td_in_packet_num (cn_data c) = -3" "\<not> cn_is_tls c" "\<not> cn_error_flag c" "\<not> cn_stopparse c"
    "(if has_flag (td_flags (cn_data c)) RPC_F_MEDIUM then 4 else 1) + 8 \<le> length (cn_in c)"
    "le32 (cn_in c) AND 0xFFFFFF = 0x010316 \<longrightarrow> 5 + be16 (cn_in c) 3 \<le> length (cn_in c)"
    "\<not> known_client env w (cn_in c)"
  shows "\<exists>w' c' d. ext_step env w c = Some (w', c', Return 0) \<and> passed env w c d w' c' \<and>
    (default_domain_info w = Some d \<or> get_sni_domain_info (ew_domains w) (take 4096 (cn_in c)) = Some (Some d))"
proof -
  have "remembered (xe_now env) (ew_cache w) l" using run_remembered[OF assms(1)] assms(2) remembered_later by blast
  then have "cache.timely (xe_now env) (ew_cache w)" by (simp add: remembered_def)
  then have cache: "cache_ok (ew_cache w)" "\<forall>e \<in> set (rc_by_time (ew_cache w)). cr_time e \<le> xe_now env" by (rule timely_cache)+
  have "ext_step env w c = first_bytes env (le32 (cn_in c)) w c"
    using assms(6,8-10) by (auto simp: ext_step_def Let_def)
  then show ?thesis using first_bytes_stranger[OF assms(7,3-5) cache assms(11,12)] by simp
qed

text \<open>The hello of \<open>gate_hello\<close> with a random value that does not come from the secret.\<close>

definition stranger_conn :: "byte list ctr conn" where
  "stranger_conn = gate_conn\<lparr>cn_in := take 11 gate_hello @ replicate 32 8 @ drop 43 gate_hello\<rparr>"

lemma stranger_hello:
  "length (cn_in stranger_conn) = 517" "be16 (cn_in stranger_conn) 3 = 512" "hello_random_of (cn_in stranger_conn) = replicate 32 8"
  using gate_hello_length by (simp_all add: stranger_conn_def hello_random_of_def) (simp add: be16_def gate_hello_def)

theorem stranger_passed_on_witness:
  "\<exists>w' c' d. ext_step example_ext_env gate_world stranger_conn = Some (w', c', Return 0) \<and>
    passed example_ext_env gate_world stranger_conn d w' c' \<and>
    (default_domain_info gate_world = Some d \<or> get_sni_domain_info (ew_domains gate_world) (take 4096 (cn_in stranger_conn)) = Some (Some d))"
proof (rule stranger_passed_on)
  show "ext_run 1000 gate_world []" by (rule run_start) (simp add: gate_world_def example_world_def)
  show "\<not> known_client example_ext_env gate_world (cn_in stranger_conn)"
    unfolding known_client_def stranger_hello
    by (simp add: gate_world_def gate_entry_def zero_entry_def example_ext_env_def numeral_eq_Suc)
  have "default_domain_info gate_world = Some gate_domain"
    by (simp add: default_domain_info_def gate_world_def get_domain_info_bucket_def DOMAIN_HASH_MOD_def gate_domain_def new_domain_def)
  moreover have "d = gate_domain" if "get_domain_info (ew_domains gate_world) n = Some d" for n d
  proof -
    have "get_domain_info_bucket n < 257" by (simp add: get_domain_info_bucket_def DOMAIN_HASH_MOD_def)
    then show ?thesis using that by (auto simp: get_domain_info_def gate_world_def nth_list_update find_Some_iff split: if_split_asm)
  qed
  moreover have "has_address gate_domain" "dt_only_tls (ew_domains gate_world)"
    by (simp_all add: has_address_def gate_domain_def gate_world_def)
  ultimately show "imitating gate_world" unfolding imitating_def by blast
qed (simp_all add: stranger_hello, simp_all add: stranger_conn_def gate_conn_def new_conn_def zero_data_def has_flag_def example_ext_env_def)

text \<open>
  C17. The obfuscated protocol is accepted only with an active secret, as long as there is one, on a plain
  connection and inside TLS: the header (on a TLS connection behind the two record headers) decrypts to
  a tag under the secret of an active entry, the connection gets the mode of this tag, which is the padded
  one when domains are imitated, and is accounted to this entry.
\<close>

theorem obfuscated_needs_active_secret:
  assumes "td_in_packet_num (cn_data c) = -3" "ext_step env w c = Some (w', c', Again)"
    "0 < tcp_rpcs_active_secret_count (env_now (xe_host env)) (ew_store w)"
  shows "\<exists>E \<in> set (entries (ew_store w)). ext_is_active_locked E (env_now (xe_host env)) \<and>
    opened env (header_tag env (Some (e_secret E)) (header_bytes c)) (e_id E) w c w' c'"
  using first_bytes_opened[OF _ assms(3)] ext_step_first[OF assms(1,2)] by blast

text \<open>A header under the secret of \<open>gate_entry\<close>: the key that the example makes of it begins with its last byte.\<close>

definition secret_world :: "byte list ext_world" where
  "secret_world = example_world\<lparr>ew_store := init_store\<lparr>entries := [gate_entry]\<rparr>\<rparr>"

definition secret_header :: "byte list" where
  "secret_header = replicate 56 1 @ [0xd4, 0xd4, 0xd4, 0xd4] @ replicate 4 0"

text \<open>The same inside TLS.\<close>

definition secret_tls_conn :: "byte list ctr conn" where
  "secret_tls_conn = gate_conn\<lparr>cn_in := [0x14, 0x03, 0x03, 0x00, 0x01, 0x01, 0x17, 0x03, 0x03, 0, 64] @ secret_header, cn_is_tls := True\<rparr>"

lemma secret_step: "\<exists>w' c'. ext_step example_ext_env secret_world secret_tls_conn = Some (w', c', Again)"
  by (simp add: ext_step_def Let_def secret_tls_conn_def first_tls_packet_def be16_def gate_conn_def new_conn_def zero_data_def has_flag_def first_bytes_def secret_world_def
      example_world_def empty_domains_def obfuscated_header_def secret_header_def ext_snapshot_active_secrets_def tcp_rpcs_active_secret_count_def
      gate_entry_def zero_entry_def ext_is_active_locked_def example_ext_env_def good_env_def header_keys_def ctr_crypt_def le32_def
      nth_enumerate_eq nth_append tag_dd_def accept_header_def cpu_tcp_aes_crypto_ctr128_decrypt_input_def decrypt_loop.simps attach_secret_def split: prod.split)

theorem obfuscated_needs_active_secret_witness:
  "\<exists>w' c'. ext_step example_ext_env secret_world secret_tls_conn = Some (w', c', Again) \<and>
    (\<exists>E \<in> set (entries (ew_store secret_world)). ext_is_active_locked E (env_now (xe_host example_ext_env)) \<and>
      opened example_ext_env (header_tag example_ext_env (Some (e_secret E)) (header_bytes secret_tls_conn)) (e_id E) secret_world
        secret_tls_conn w' c')"
proof -
  obtain w' c' where s: "ext_step example_ext_env secret_world secret_tls_conn = Some (w', c', Again)"
    using secret_step by blast
  have "0 < tcp_rpcs_active_secret_count (env_now (xe_host example_ext_env)) (ew_store secret_world)"
    by (simp add: tcp_rpcs_active_secret_count_def secret_world_def gate_entry_def zero_entry_def ext_is_active_locked_def)
  moreover have "td_in_packet_num (cn_data secret_tls_conn) = -3" by (simp add: secret_tls_conn_def gate_conn_def new_conn_def)
  ultimately show ?thesis using obfuscated_needs_active_secret[OF _ s] s by blast
qed

text \<open>
  C38. Without an active secret the proxy is open: when the last secret was disabled, removed or has
  expired, and no domain is imitated, every client that uses the obfuscated protocol without a secret is
  accepted, and its traffic is accounted to nobody.
\<close>

theorem no_active_secret_opens_proxy:
  assumes "td_in_packet_num (cn_data c) = -3" "\<not> cn_is_tls c" "\<not> cn_error_flag c" "\<not> cn_stopparse c"
    "\<not> dt_only_tls (ew_domains w)" "\<forall>E \<in> set (entries (ew_store w)). \<not> ext_is_active_locked E (env_now (xe_host env))"
    "64 \<le> length (cn_in c)" "header_tag env None (take 64 (cn_in c)) \<in> {tag_dd, tag_ee, tag_ef}"
  shows "\<exists>w' c'. ext_step env w c = Some (w', c', Again) \<and> opened env (header_tag env None (take 64 (cn_in c))) 0 w c w' c' \<and>
    ew_store w' = ew_store w"
  using assms by (rule open_without_secret)

text \<open>The only secret is disabled; the client encrypts its header with the key in it.\<close>

definition open_world :: "byte list ext_world" where
  "open_world = example_world\<lparr>ew_store := init_store\<lparr>entries := [gate_entry\<lparr>e_enabled := False\<rparr>]\<rparr>\<rparr>"

definition open_header :: "byte list" where
  "open_header = replicate 8 1 @ replicate 32 2 @ replicate 16 3 @ [0xdf, 0xdf, 0xdf, 0xdf] @ replicate 4 0"

theorem no_active_secret_opens_proxy_witness:
  "\<exists>w' c'. ext_step example_ext_env open_world (gate_conn\<lparr>cn_in := open_header\<rparr>) = Some (w', c', Again) \<and>
    opened example_ext_env (header_tag example_ext_env None (take 64 open_header)) 0 open_world (gate_conn\<lparr>cn_in := open_header\<rparr>) w' c' \<and>
    ew_store w' = ew_store open_world"
proof -
  have "\<forall>E \<in> set (entries (ew_store open_world)). \<not> ext_is_active_locked E (env_now (xe_host example_ext_env))"
    by (simp add: open_world_def ext_is_active_locked_def)
  moreover have "\<not> dt_only_tls (ew_domains open_world)" by (simp add: open_world_def example_world_def empty_domains_def)
  moreover have "header_tag example_ext_env None (take 64 open_header) \<in> {tag_dd, tag_ee, tag_ef}"
    by (simp add: header_tag_def header_keys_def Let_def ctr_crypt_def open_header_def example_ext_env_def le32_def tag_dd_def
        nth_enumerate_eq nth_append)
  moreover have "64 \<le> length open_header" by (simp add: open_header_def)
  ultimately show ?thesis
    using no_active_secret_opens_proxy[where c = "gate_conn\<lparr>cn_in := open_header\<rparr>" and w = open_world and env = example_ext_env, OF gate_conn_first] by simp
qed

end
