(* ===== verification/Timer_Heap.thy ===== *)
theory Timer_Heap
  imports MT_Prelude Complex_Main "HOL-Library.Monad_Syntax"
begin

text \<open>
  The timers of a thread (\<open>net/net-timers.c\<close>): a binary heap of pointers in an array, in which every timer
  knows its position, and what \<open>jobs/jobs.c\<close> does with it.  A timer is a number, the fields of
  \<open>struct event_timer\<close> are functions of it; a failed assertion and a write outside the array are \<open>None\<close>.
  The counters of operations are not kept.
\<close>

section \<open>The heap\<close>

type_synonym timer = nat

record timers =
  et_heap :: "nat \<Rightarrow> timer"
  et_heap_size :: nat
  wakeup_time :: "timer \<Rightarrow> rat"
  h_idx :: "timer \<Rightarrow> nat"

definition MAX_EVENT_TIMERS :: nat where
  "MAX_EVENT_TIMERS = 2 ^ 19"

text \<open>A thread starts with an empty heap, and a new timer has the index 0.\<close>

definition no_timers :: timers where
  "no_timers = \<lparr>et_heap = (\<lambda>_. 0), et_heap_size = 0, wakeup_time = (\<lambda>_. 0), h_idx = (\<lambda>_. 0)\<rparr>"

definition place :: "nat \<Rightarrow> timer \<Rightarrow> timers \<Rightarrow> timers" where
  "place i t s = s\<lparr>et_heap := (et_heap s)(i := t), h_idx := (h_idx s)(t := i)\<rparr>"

text \<open>The time of the timer at a position.\<close>

definition time_at :: "timers \<Rightarrow> nat \<Rightarrow> rat" where
  "time_at s i = wakeup_time s (et_heap s i)"

lemma place_simps [simp]:
  "et_heap (place i t s) = (et_heap s)(i := t)" "h_idx (place i t s) = (h_idx s)(t := i)"
  "wakeup_time (place i t s) = wakeup_time s" "et_heap_size (place i t s) = et_heap_size s"
  by (simp_all add: place_def)

text \<open>The two loops of \<open>basic_et_adjust\<close>: the hole at position \<open>i\<close> moves up, then down.\<close>

function sift_up :: "timer \<Rightarrow> nat \<Rightarrow> timers \<Rightarrow> nat \<times> timers" where
  "sift_up et i s =
     (if 1 < i then
        (let j = i div 2 in
         if time_at s j \<le> wakeup_time s et then (i, s) else sift_up et j (place i (et_heap s j) s))
      else (i, s))"
  by pat_completeness auto
termination
  by (relation "measure (\<lambda>(et, i, s). i)") auto

definition smaller_child :: "timers \<Rightarrow> nat \<Rightarrow> nat" where
  "smaller_child s j = (if j < et_heap_size s \<and> time_at s j > time_at s (j + 1) then j + 1 else j)"

text \<open>Positions start at 1; so the loop ends.\<close>

function sift_down :: "timer \<Rightarrow> nat \<Rightarrow> timers \<Rightarrow> nat \<times> timers" where
  "sift_down et i s =
     (if 0 < i \<and> 2 * i \<le> et_heap_size s then
        (let j = smaller_child s (2 * i) in
         if wakeup_time s et \<le> time_at s j then (i, s) else sift_down et j (place i (et_heap s j) s))
      else (i, s))"
  by pat_completeness auto
termination
  by (relation "measure (\<lambda>(et, i, s). Suc (et_heap_size s) - i)") (auto simp: smaller_child_def)

declare sift_up.simps [simp del] sift_down.simps [simp del]

definition basic_et_adjust :: "timer \<Rightarrow> nat \<Rightarrow> timers \<Rightarrow> nat \<times> timers" where
  "basic_et_adjust et i s =
     (let (i, s) = sift_up et i s; (i, s) = sift_down et i s in (i, place i et s))"

section \<open>The operations\<close>

text \<open>
  The array has \<open>MAX_EVENT_TIMERS\<close> slots, of which slot 0 is not used.  The assertion lets the heap grow to
  \<open>MAX_EVENT_TIMERS\<close> timers, the last of which would be written behind the array.  No other operation makes
  the heap larger, and all accesses of \<open>basic_et_adjust\<close> are to positions in the heap.
\<close>

definition insert_event_timer :: "timer \<Rightarrow> timers \<Rightarrow> (nat \<times> timers) option" where
  "insert_event_timer et s =
     (let i = h_idx s et in
      if i \<noteq> 0 then
        (if i \<le> et_heap_size s \<and> et_heap s i = et then Some (basic_et_adjust et i s) else None)
      else if \<not> et_heap_size s < MAX_EVENT_TIMERS then None
      else let i = et_heap_size s + 1 in
        if i < MAX_EVENT_TIMERS then Some (basic_et_adjust et i (s\<lparr>et_heap_size := i\<rparr>)) else None)"

definition remove_event_timer :: "timer \<Rightarrow> timers \<Rightarrow> (int \<times> timers) option" where
  "remove_event_timer et s =
     (let i = h_idx s et in
      if i = 0 then Some (0, s)
      else if \<not> (i \<le> et_heap_size s \<and> et_heap s i = et) then None
      else let et' = et_heap s (et_heap_size s);
               s = s\<lparr>h_idx := (h_idx s)(et := 0), et_heap_size := et_heap_size s - 1\<rparr>
           in if i > et_heap_size s then Some (1, s) else Some (1, snd (basic_et_adjust et' i s)))"

definition timers_get_first :: "timers \<Rightarrow> rat" where
  "timers_get_first s = (if et_heap_size s = 0 then 0 else time_at s 1)"

text \<open>
  The alarms: \<open>wakeup\<close> is the function of a timer, which may change the heap and everything else (\<open>'w\<close>,
  where \<open>precise_now\<close> is read).
\<close>

type_synonym 'w wakeup = "timer \<Rightarrow> 'w \<Rightarrow> timers \<Rightarrow> ('w \<times> timers) option"

definition timer_due :: "('w \<Rightarrow> rat) \<Rightarrow> 'w \<Rightarrow> timers \<Rightarrow> bool" where
  "timer_due precise_now w s \<longleftrightarrow> 0 < et_heap_size s \<and> time_at s 1 \<le> precise_now w"

definition run_first :: "'w wakeup \<Rightarrow> 'w \<Rightarrow> timers \<Rightarrow> ('w \<times> timers) option" where
  "run_first wakeup w s =
     (let et = et_heap s 1 in
      if h_idx s et \<noteq> 1 then None else do { (r, s) \<leftarrow> remove_event_timer et s; wakeup et w s })"

partial_function (option) alarm_loop :: "('w \<Rightarrow> rat) \<Rightarrow> 'w wakeup \<Rightarrow> 'w \<Rightarrow> timers \<Rightarrow> ('w \<times> timers) option" where
  "alarm_loop precise_now wakeup w s =
     (if timer_due precise_now w s
      then Option.bind (run_first wakeup w s) (\<lambda>(w, s). alarm_loop precise_now wakeup w s)
      else Some (w, s))"

declare alarm_loop.simps [code]

text \<open>
  \<open>(int) (wait_time*1000) + 1\<close> for a positive time.  The conversion of a number that is no \<open>int\<close> gives the
  smallest one, as the instruction \<open>cvttsd2si\<close> does, and the sum wraps around.
\<close>

definition wait_ms :: "rat \<Rightarrow> int" where
  "wait_ms wait_time = (let n = \<lfloor>wait_time * 1000\<rfloor> in i32 ((if fits_i32 n then n else -2147483648) + 1))"

definition thread_run_timers :: "('w \<Rightarrow> rat) \<Rightarrow> 'w wakeup \<Rightarrow> 'w \<Rightarrow> timers \<Rightarrow> ('w \<times> timers \<times> int) option" where
  "thread_run_timers precise_now wakeup w s =
     (if et_heap_size s = 0 then Some (w, s, 100000)
      else if time_at s 1 - precise_now w > 0 then Some (w, s, wait_ms (time_at s 1 - precise_now w))
      else do {
        (w, s) \<leftarrow> alarm_loop precise_now wakeup w s;
        if et_heap_size s = 0 then Some (w, s, 100000)
        else if time_at s 1 - precise_now w > 0 then Some (w, s, wait_ms (time_at s 1 - precise_now w))
        else None
      })"

section \<open>The timers of jobs\<close>

text \<open>
  \<open>job_timer_wakeup_gateway\<close> of \<open>jobs/jobs.c\<close> is the only function of a timer: \<open>do_immediate_timer_insert\<close>
  asserts it.  The state of a thread beside its heap: \<open>precise_now\<close>, the number of the thread (1 is the main
  thread), whether it has a timer manager, its \<open>wakeup_time\<close>; of every timer \<open>real_wakeup_time\<close> and the
  thread in its \<open>flags\<close>.  The calls that leave the timers of this thread are logged: a signal to a job, a
  reference to it taken or given back, a timer that is put into the queue of another thread.
\<close>

datatype job_call = Signal_Alarm timer | Job_Incref timer | Job_Decref timer | Push_Timer timer nat

record job_timers =
  jt_now :: rat
  jt_self :: nat
  jt_manager :: bool
  jt_first :: rat
  jt_real :: "timer \<Rightarrow> rat"
  jt_thread :: "timer \<Rightarrow> nat"
  jt_calls :: "job_call list"

definition call :: "job_call \<Rightarrow> job_timers \<Rightarrow> job_timers" where
  "call a w = w\<lparr>jt_calls := jt_calls w @ [a]\<rparr>"

text \<open>A timer in the heap holds a reference to its job.\<close>

definition do_immediate_timer_insert :: "timer \<Rightarrow> job_timers \<Rightarrow> timers \<Rightarrow> (job_timers \<times> timers) option" where
  "do_immediate_timer_insert W w s =
     (let active = (0 < h_idx s W); r = jt_real w W in do {
        (w, s) \<leftarrow> (if 0 < r then do {
            (_, s) \<leftarrow> insert_event_timer W (s\<lparr>wakeup_time := (wakeup_time s)(W := r)\<rparr>);
            Some (if active then w else call (Job_Incref W) w, s)
          } else do {
            (_, s) \<leftarrow> remove_event_timer W (s\<lparr>wakeup_time := (wakeup_time s)(W := 0)\<rparr>);
            Some (if active then call (Job_Decref W) w else w, s)
          });
        Some (w\<lparr>jt_first := timers_get_first s\<rparr>, s)
      })"

text \<open>
  A timer belongs to the first thread with a timer manager that inserts it, or to the main thread.
  (That the thread it belongs to has a manager is asserted in the code; here it is taken for granted.)
\<close>

definition job_timer_insert :: "timer \<Rightarrow> rat \<Rightarrow> job_timers \<Rightarrow> timers \<Rightarrow> (job_timers \<times> timers) option" where
  "job_timer_insert W timeout w s =
     (if jt_real w W = timeout then Some (w, s)
      else let w = w\<lparr>jt_real := (jt_real w)(W := timeout)\<rparr>; n = jt_thread w W; self = jt_self w;
               belongs = (\<lambda>k. w\<lparr>jt_thread := (jt_thread w)(W := k)\<rparr>)
        in if n \<noteq> 0 then (if n = self then do_immediate_timer_insert W w s else Some (call (Push_Timer W n) w, s))
           else if self = 1 then do_immediate_timer_insert W (belongs 1) s
           else if jt_manager w then do_immediate_timer_insert W (belongs self) s
           else Some (call (Push_Timer W 1) (belongs 1), s))"

fun run_inserts :: "(timer \<times> rat) list \<Rightarrow> job_timers \<Rightarrow> timers \<Rightarrow> (job_timers \<times> timers) option" where
  "run_inserts [] w s = Some (w, s)"
| "run_inserts ((W, x) # cs) w s = do { (w, s) \<leftarrow> job_timer_insert W x w s; run_inserts cs w s }"

text \<open>
  \<open>job_signal\<close> puts the job into the queue of its class; when this thread runs no other job and serves that
  class, it runs the job at once (\<open>unlock_job\<close>).  \<open>alarm\<close> gives the calls of \<open>job_timer_insert\<close> that the
  function of the job then makes; there are none when the job is queued.
\<close>

type_synonym job_alarm = "timer \<Rightarrow> job_timers \<Rightarrow> timers \<Rightarrow> (timer \<times> rat) list"

definition job_timer_wakeup_gateway :: "job_alarm \<Rightarrow> job_timers wakeup" where
  "job_timer_wakeup_gateway alarm et w s =
     (if wakeup_time s et = jt_real w et then run_inserts (alarm et w s) (call (Signal_Alarm et) w) s
      else Some (call (Job_Decref et) w, s))"

definition queued :: job_alarm where
  "queued et w s = []"

text \<open>
  What \<open>do_conn_target_job\<close>, \<open>precise_cron_job_run\<close> and \<open>do_timer_job\<close> do with their timer: \<open>job_timer_check\<close>
  removes it, if it is the one that came, and it is set again, \<open>delay\<close> later.
\<close>

definition repeated :: "rat \<Rightarrow> job_alarm" where
  "repeated delay et w s =
     (if jt_real w et = 0 \<or> jt_real w et \<noteq> wakeup_time s et then [] else [(et, 0), (et, jt_now w + delay)])"

section \<open>Well-formedness\<close>

text \<open>The heap is inside its array, every position knows its timer and every timer its position; a parent is
  not later than its children.\<close>

definition indexed :: "timers \<Rightarrow> bool" where
  "indexed s \<longleftrightarrow> (\<forall>i. 0 < i \<and> i \<le> et_heap_size s \<longrightarrow> h_idx s (et_heap s i) = i) \<and>
     (\<forall>t. h_idx s t \<noteq> 0 \<longrightarrow> h_idx s t \<le> et_heap_size s \<and> et_heap s (h_idx s t) = t)"

definition ordered_at :: "timers \<Rightarrow> nat \<Rightarrow> bool" where
  "ordered_at s k \<longleftrightarrow> time_at s (k div 2) \<le> time_at s k"

definition timers_ok :: "timers \<Rightarrow> bool" where
  "timers_ok s \<longleftrightarrow> et_heap_size s < MAX_EVENT_TIMERS \<and> indexed s \<and> (\<forall>k. 1 < k \<and> k \<le> et_heap_size s \<longrightarrow> ordered_at s k)"

end
