(* ===== verification/Timer_Queue.thy ===== *)
theory Timer_Queue
  imports Timer_Heap
begin

text \<open>
  The heap of timers is a queue of pending times: the contract of such a queue as a locale, with what
  follows for the alarms, and its interpretation on the operations of the heap.
\<close>

section \<open>A heap with a hole\<close>

text \<open>Everything is in order but the position \<open>i\<close>, which will take the timer \<open>et\<close>.\<close>

definition hole_indexed :: "timer \<Rightarrow> nat \<Rightarrow> timers \<Rightarrow> bool" where
  "hole_indexed et i s \<longleftrightarrow> 0 < i \<and> i \<le> et_heap_size s \<and>
     (\<forall>k. 0 < k \<and> k \<le> et_heap_size s \<and> k \<noteq> i \<longrightarrow> h_idx s (et_heap s k) = k \<and> et_heap s k \<noteq> et) \<and>
     (\<forall>t. t \<noteq> et \<and> h_idx s t \<noteq> 0 \<longrightarrow> h_idx s t \<le> et_heap_size s \<and> h_idx s t \<noteq> i \<and> et_heap s (h_idx s t) = t)"

definition hole_ordered :: "nat \<Rightarrow> timers \<Rightarrow> bool" where
  "hole_ordered i s \<longleftrightarrow>
     (\<forall>k. 1 < k \<and> k \<le> et_heap_size s \<and> k \<noteq> i \<and> k div 2 \<noteq> i \<longrightarrow> ordered_at s k) \<and>
     (\<forall>k. k \<le> et_heap_size s \<and> k div 2 = i \<and> 1 < i \<longrightarrow> time_at s (i div 2) \<le> time_at s k)"

definition below_parent :: "timer \<Rightarrow> nat \<Rightarrow> timers \<Rightarrow> bool" where
  "below_parent et i s \<longleftrightarrow> 1 < i \<longrightarrow> time_at s (i div 2) \<le> wakeup_time s et"

lemma time_at_place: "time_at (place i t s) k = (if k = i then wakeup_time s t else time_at s k)"
  by (simp add: time_at_def)

lemma fill_hole:
  assumes "et_heap_size s < MAX_EVENT_TIMERS" "hole_indexed et i s" "hole_ordered i s" "below_parent et i s"
    "\<And>k. k \<le> et_heap_size s \<Longrightarrow> k div 2 = i \<Longrightarrow> wakeup_time s et \<le> time_at s k"
  shows "timers_ok (place i et s)"
proof -
  have "indexed (place i et s)" using assms(2) by (auto simp: indexed_def hole_indexed_def)
  moreover have "ordered_at (place i et s) k" if k: "1 < k" "k \<le> et_heap_size s" for k
  proof -
    consider "k = i" | "k \<noteq> i" "k div 2 = i" | "k \<noteq> i" "k div 2 \<noteq> i" by blast
    then show ?thesis
    proof cases
      case 1
      then show ?thesis using assms(4) k by (auto simp: ordered_at_def time_at_place below_parent_def)
    next
      case 2
      then show ?thesis using assms(5)[of k] k by (simp add: ordered_at_def time_at_place)
    next
      case 3
      then show ?thesis using assms(3) k by (auto simp: hole_ordered_def ordered_at_def time_at_place)
    qed
  qed
  ultimately show ?thesis using assms(1) by (simp add: timers_ok_def)
qed

text \<open>Moving the timer of another position into the hole.\<close>

lemma move_indexed:
  assumes "hole_indexed et i s" "0 < j" "j \<le> et_heap_size s" "j \<noteq> i"
  shows "hole_indexed et j (place i (et_heap s j) s)"
proof -
  have j: "h_idx s (et_heap s j) = j" "et_heap s j \<noteq> et" using assms by (auto simp: hole_indexed_def)
  note pos = assms(1)[unfolded hole_indexed_def, THEN conjunct2, THEN conjunct2, THEN conjunct1, rule_format]
  note tim = assms(1)[unfolded hole_indexed_def, THEN conjunct2, THEN conjunct2, THEN conjunct2, rule_format]
  have i: "0 < i" "i \<le> et_heap_size s" using assms(1) by (auto simp: hole_indexed_def)
  show ?thesis
    unfolding hole_indexed_def
  proof (intro conjI allI impI)
    fix k assume k: "0 < k \<and> k \<le> et_heap_size (place i (et_heap s j) s) \<and> k \<noteq> j"
    show "h_idx (place i (et_heap s j) s) (et_heap (place i (et_heap s j) s) k) = k"
    proof (cases "k = i")
      case False
      then have "h_idx s (et_heap s k) = k" using pos[of k] k by simp
      then show ?thesis using False k j(1) by auto
    qed simp
    show "et_heap (place i (et_heap s j) s) k \<noteq> et" using pos[of k] j(2) k by (cases "k = i") auto
  next
    fix t assume t: "t \<noteq> et \<and> h_idx (place i (et_heap s j) s) t \<noteq> 0"
    show "h_idx (place i (et_heap s j) s) t \<le> et_heap_size (place i (et_heap s j) s)"
      "h_idx (place i (et_heap s j) s) t \<noteq> j"
      "et_heap (place i (et_heap s j) s) (h_idx (place i (et_heap s j) s) t) = t"
      using tim[of t] t i assms(4) by (cases "t = et_heap s j"; force)+
  qed (use assms(2,3) in simp_all)
qed

lemma hole_idx: "hole_indexed et i s \<Longrightarrow> 0 < j \<Longrightarrow> j \<le> et_heap_size s \<Longrightarrow> j \<noteq> i \<Longrightarrow>
    (h_idx (place i (et_heap s j) s) t \<noteq> 0 \<or> t = et) = (h_idx s t \<noteq> 0 \<or> t = et)"
  by (auto simp: hole_indexed_def)

lemma move_up_ordered:
  assumes "hole_ordered i s" "1 < i" "i \<le> et_heap_size s" "wakeup_time s et < time_at s (i div 2)"
  shows "hole_ordered (i div 2) (place i (et_heap s (i div 2)) s)"
proof -
  let ?j = "i div 2"
  have j: "?j < i" "0 < ?j" using assms(2) by auto
  have t: "time_at (place i (et_heap s ?j) s) k = (if k = i then time_at s ?j else time_at s k)" for k
    by (simp add: time_at_place) (simp add: time_at_def)
  have par: "time_at s (?j div 2) \<le> time_at s ?j" if "1 < ?j"
  proof -
    have "?j div 2 \<noteq> i" using j by linarith
    then show ?thesis using assms(1,3) j that unfolding hole_ordered_def ordered_at_def by auto
  qed
  have sib: "time_at s ?j \<le> time_at s k" if "1 < k" "k \<le> et_heap_size s" "k \<noteq> i" "k div 2 = ?j" for k
  proof -
    have "k div 2 \<noteq> i" using that(4) j(1) by simp
    then have "ordered_at s k" using assms(1) that(1-3) unfolding hole_ordered_def by blast
    then show ?thesis by (simp add: ordered_at_def that(4))
  qed
  show ?thesis
    unfolding hole_ordered_def
  proof (intro conjI allI impI)
    fix k assume k: "1 < k \<and> k \<le> et_heap_size (place i (et_heap s ?j) s) \<and> k \<noteq> ?j \<and> k div 2 \<noteq> ?j"
    show "ordered_at (place i (et_heap s ?j) s) k"
      using assms(1,2) k unfolding hole_ordered_def ordered_at_def t by auto
  next
    fix k assume k: "k \<le> et_heap_size (place i (et_heap s ?j) s) \<and> k div 2 = ?j \<and> 1 < ?j"
    then have "1 < k" by (cases k) auto
    then show "time_at (place i (et_heap s ?j) s) (?j div 2) \<le> time_at (place i (et_heap s ?j) s) k"
      using par sib[of k] k j unfolding t by (auto intro: order_trans)
  qed
qed

lemma smaller_child:
  assumes "0 < i" "2 * i \<le> et_heap_size s"
  shows "smaller_child s (2 * i) div 2 = i" "smaller_child s (2 * i) \<le> et_heap_size s" "i < smaller_child s (2 * i)"
    "k \<le> et_heap_size s \<Longrightarrow> k div 2 = i \<Longrightarrow> time_at s (smaller_child s (2 * i)) \<le> time_at s k"
proof -
  show "smaller_child s (2 * i) div 2 = i" "smaller_child s (2 * i) \<le> et_heap_size s" "i < smaller_child s (2 * i)"
    using assms by (auto simp: smaller_child_def)
  assume k: "k \<le> et_heap_size s" "k div 2 = i"
  then have "k = 2 * i \<or> k = 2 * i + 1" by linarith
  then show "time_at s (smaller_child s (2 * i)) \<le> time_at s k" using k by (auto simp: smaller_child_def)
qed

lemma move_down_ordered:
  assumes "hole_ordered i s" "0 < i" "2 * i \<le> et_heap_size s" "time_at s (smaller_child s (2 * i)) < wakeup_time s et"
  shows "hole_ordered (smaller_child s (2 * i)) (place i (et_heap s (smaller_child s (2 * i))) s)"
    "below_parent et (smaller_child s (2 * i)) (place i (et_heap s (smaller_child s (2 * i))) s)"
proof -
  let ?j = "smaller_child s (2 * i)"
  note j = smaller_child[OF assms(2,3)]
  have t: "time_at (place i (et_heap s ?j) s) k = (if k = i then time_at s ?j else time_at s k)" for k
    by (simp add: time_at_place) (simp add: time_at_def)
  show "below_parent et ?j (place i (et_heap s ?j) s)"
    using assms(4) j(1) unfolding below_parent_def t by simp
  show "hole_ordered ?j (place i (et_heap s ?j) s)"
    unfolding hole_ordered_def
  proof (intro conjI allI impI)
    fix k assume k: "1 < k \<and> k \<le> et_heap_size (place i (et_heap s ?j) s) \<and> k \<noteq> ?j \<and> k div 2 \<noteq> ?j"
    consider "k = i" | "k \<noteq> i" "k div 2 = i" | "k \<noteq> i" "k div 2 \<noteq> i" by blast
    then show "ordered_at (place i (et_heap s ?j) s) k"
    proof cases
      case 1
      have "k div 2 \<noteq> i" using 1 k by auto
      then show ?thesis using 1 k assms(1) j(1,2) unfolding hole_ordered_def ordered_at_def t by auto
    next
      case 2
      then show ?thesis using k j(4)[of k] unfolding ordered_at_def t by simp
    next
      case 3
      then show ?thesis using k assms(1) unfolding hole_ordered_def ordered_at_def t by auto
    qed
  next
    fix k assume k: "k \<le> et_heap_size (place i (et_heap s ?j) s) \<and> k div 2 = ?j \<and> 1 < ?j"
    have ne: "k \<noteq> i" "k \<noteq> ?j" "1 < k" "?j \<noteq> i" using k j(1,3) by auto
    then have "ordered_at s k" using assms(1) k unfolding hole_ordered_def by auto
    then show "time_at (place i (et_heap s ?j) s) (?j div 2) \<le> time_at (place i (et_heap s ?j) s) k"
      using k ne j(1) unfolding t ordered_at_def by simp
  qed
qed

section \<open>The two loops\<close>

text \<open>The timers in the heap stay the same, and their times.\<close>

definition same_timers :: "timer \<Rightarrow> timers \<Rightarrow> timers \<Rightarrow> bool" where
  "same_timers et s s' \<longleftrightarrow> wakeup_time s' = wakeup_time s \<and> et_heap_size s' = et_heap_size s \<and>
     (\<forall>t. (h_idx s' t \<noteq> 0 \<or> t = et) = (h_idx s t \<noteq> 0 \<or> t = et))"

lemma same_timers_trans: "same_timers et s s' \<Longrightarrow> same_timers et s' s'' \<Longrightarrow> same_timers et s s''"
  by (simp add: same_timers_def)

lemma same_timers_move:
  "hole_indexed et i s \<Longrightarrow> 0 < j \<Longrightarrow> j \<le> et_heap_size s \<Longrightarrow> j \<noteq> i \<Longrightarrow> same_timers et s (place i (et_heap s j) s)"
  using hole_idx[of et i s j] by (simp add: same_timers_def)

lemma sift_up_hole:
  assumes "hole_indexed et i s" "hole_ordered i s"
  shows "\<exists>j s'. sift_up et i s = (j, s') \<and> hole_indexed et j s' \<and> hole_ordered j s' \<and> below_parent et j s' \<and> same_timers et s s'"
  using assms
proof (induction et i s rule: sift_up.induct)
  case (1 et i s)
  show ?case
  proof (cases "1 < i \<and> wakeup_time s et < time_at s (i div 2)")
    case False
    then have "sift_up et i s = (i, s)" "below_parent et i s"
      by (auto simp: sift_up.simps[of et i s] below_parent_def Let_def)
    then show ?thesis using "1.prems" by (auto simp: same_timers_def)
  next
    case True
    let ?j = "i div 2" and ?s = "place i (et_heap s (i div 2)) s"
    have i: "i \<le> et_heap_size s" using "1.prems"(1) by (simp add: hole_indexed_def)
    have j: "0 < ?j" "?j \<le> et_heap_size s" "?j \<noteq> i" using True i by auto
    have step: "sift_up et i s = sift_up et ?j ?s" using True by (simp add: sift_up.simps[of et i s] Let_def)
    have "\<exists>j s'. sift_up et ?j ?s = (j, s') \<and> hole_indexed et j s' \<and> hole_ordered j s' \<and> below_parent et j s' \<and> same_timers et ?s s'"
      using True move_indexed[OF "1.prems"(1) j] move_up_ordered[OF "1.prems"(2) _ i] by (intro "1.IH") auto
    then show ?thesis unfolding step using same_timers_trans[OF same_timers_move[OF "1.prems"(1) j]] by blast
  qed
qed

lemma sift_down_hole:
  assumes "et_heap_size s < MAX_EVENT_TIMERS" "hole_indexed et i s" "hole_ordered i s" "below_parent et i s"
  shows "\<exists>j s'. sift_down et i s = (j, s') \<and> 0 < j \<and> timers_ok (place j et s') \<and> same_timers et s (place j et s')"
  using assms
proof (induction et i s rule: sift_down.induct)
  case (1 et i s)
  have i: "0 < i" "i \<le> et_heap_size s" using "1.prems"(2) by (auto simp: hole_indexed_def)
  let ?j = "smaller_child s (2 * i)"
  show ?case
  proof (cases "2 * i \<le> et_heap_size s \<and> time_at s ?j < wakeup_time s et")
    case False
    then have stop: "sift_down et i s = (i, s)" by (auto simp: sift_down.simps[of et i s] Let_def)
    have "wakeup_time s et \<le> time_at s k" if k: "k \<le> et_heap_size s" "k div 2 = i" for k
    proof -
      have n: "2 * i \<le> et_heap_size s" using k by linarith
      then have "wakeup_time s et \<le> time_at s ?j" using False by auto
      also have "\<dots> \<le> time_at s k" using smaller_child(4)[OF i(1) n k] .
      finally show ?thesis .
    qed
    then have "timers_ok (place i et s)" using fill_hole "1.prems" by blast
    then show ?thesis using stop i by (auto simp: same_timers_def)
  next
    case True
    then have n: "2 * i \<le> et_heap_size s" by simp
    let ?s = "place i (et_heap s ?j) s"
    note j = smaller_child(1-3)[OF i(1) n]
    have j': "0 < ?j" "?j \<le> et_heap_size s" "?j \<noteq> i" using j by auto
    have step: "sift_down et i s = sift_down et ?j ?s" using True i by (simp add: sift_down.simps[of et i s] Let_def)
    have "\<exists>j s'. sift_down et ?j ?s = (j, s') \<and> 0 < j \<and> timers_ok (place j et s') \<and> same_timers et ?s (place j et s')"
      using True i n "1.prems"(1) move_indexed[OF "1.prems"(2) j'] move_down_ordered[OF "1.prems"(3) i(1) n] by (intro "1.IH") auto
    then show ?thesis unfolding step using same_timers_trans[OF same_timers_move[OF "1.prems"(2) j']] by blast
  qed
qed

lemma adjust_hole:
  assumes "et_heap_size s < MAX_EVENT_TIMERS" "hole_indexed et i s" "hole_ordered i s"
  obtains r s' where "basic_et_adjust et i s = (r, s')" "timers_ok s'" "same_timers et s s'" "h_idx s' et \<noteq> 0"
proof -
  obtain j s1 where u: "sift_up et i s = (j, s1)" "hole_indexed et j s1" "hole_ordered j s1" "below_parent et j s1" "same_timers et s s1"
    using sift_up_hole[OF assms(2,3)] by blast
  obtain k s2 where d: "sift_down et j s1 = (k, s2)" "0 < k" "timers_ok (place k et s2)" "same_timers et s1 (place k et s2)"
    using sift_down_hole[OF _ u(2-4)] u(5) assms(1) by (auto simp: same_timers_def)
  show ?thesis using that[of k "place k et s2"] u(1) d same_timers_trans[OF u(5) d(4)] by (simp add: basic_et_adjust_def)
qed

section \<open>The operations on the pending times\<close>

definition pending :: "timers \<Rightarrow> timer \<Rightarrow> rat option" where
  "pending s t = (if h_idx s t \<noteq> 0 then Some (wakeup_time s t) else None)"

text \<open>Callers set the time of a timer just before they insert it.\<close>

definition set_time :: "timer \<Rightarrow> rat \<Rightarrow> timers \<Rightarrow> timers" where
  "set_time et x s = s\<lparr>wakeup_time := (wakeup_time s)(et := x)\<rparr>"

lemma timers_okD:
  assumes "timers_ok s"
  shows "0 < k \<Longrightarrow> k \<le> et_heap_size s \<Longrightarrow> h_idx s (et_heap s k) = k"
    "h_idx s t \<noteq> 0 \<Longrightarrow> h_idx s t \<le> et_heap_size s \<and> et_heap s (h_idx s t) = t"
    "1 < k \<Longrightarrow> k \<le> et_heap_size s \<Longrightarrow> ordered_at s k"
  using assms by (auto simp: timers_ok_def indexed_def)

lemma same_timers_pending:
  assumes "same_timers et s s'" "h_idx s' et \<noteq> 0"
  shows "pending s' = (pending s)(et \<mapsto> wakeup_time s et)"
proof
  fix t
  have "(h_idx s' t \<noteq> 0 \<or> t = et) = (h_idx s t \<noteq> 0 \<or> t = et)" "wakeup_time s' = wakeup_time s"
    using assms(1) by (simp_all add: same_timers_def)
  then show "pending s' t = ((pending s)(et \<mapsto> wakeup_time s et)) t"
    using assms(2) by (auto simp: pending_def)
qed

lemma insert_pending:
  assumes ok: "timers_ok s" and room: "h_idx s et \<noteq> 0 \<or> et_heap_size s + 1 < MAX_EVENT_TIMERS"
  shows "\<exists>r s'. insert_event_timer et (set_time et x s) = Some (r, s') \<and> timers_ok s' \<and> pending s' = (pending s)(et \<mapsto> x)"
proof -
  have size: "et_heap_size s < MAX_EVENT_TIMERS" using ok by (simp add: timers_ok_def)
  note ok = timers_okD[OF ok]
  have t: "time_at (set_time et x s) k = (if et_heap s k = et then x else time_at s k)" for k
    by (simp add: time_at_def set_time_def)
  obtain i s1 where i: "insert_event_timer et (set_time et x s) = Some (basic_et_adjust et i s1)"
    "et_heap_size s1 < MAX_EVENT_TIMERS" "hole_indexed et i s1" "hole_ordered i s1" "h_idx s1 = h_idx s" "wakeup_time s1 = (wakeup_time s)(et := x)"
  proof (cases "h_idx s et = 0")
    case False
    let ?i = "h_idx s et" and ?s = "set_time et x s"
    have ne: "et_heap s k \<noteq> et" if "0 < k" "k \<le> et_heap_size s" "k \<noteq> ?i" for k using ok(1)[of k] that by auto
    have inj: "h_idx s t \<noteq> ?i" if "t \<noteq> et" "h_idx s t \<noteq> 0" for t using ok(2)[of t] ok(2)[of et] False that by auto
    have "hole_indexed et ?i ?s"
      using False ok(1,2) ne inj unfolding hole_indexed_def set_time_def by simp
    moreover have "hole_ordered ?i ?s"
      unfolding hole_ordered_def ordered_at_def t
    proof (intro conjI allI impI)
      fix k assume k: "1 < k \<and> k \<le> et_heap_size ?s \<and> k \<noteq> ?i \<and> k div 2 \<noteq> ?i"
      then have "k \<le> et_heap_size s" "k div 2 \<le> et_heap_size s" by (auto simp: set_time_def)
      with k show "(if et_heap s (k div 2) = et then x else time_at s (k div 2)) \<le> (if et_heap s k = et then x else time_at s k)"
        using ne[of k] ne[of "k div 2"] ok(3)[of k] by (simp add: set_time_def ordered_at_def)
    next
      fix k assume k: "k \<le> et_heap_size ?s \<and> k div 2 = ?i \<and> 1 < ?i"
      then have k2: "1 < k" "k \<noteq> ?i" "?i \<le> et_heap_size s" "0 < ?i div 2" "?i div 2 < ?i" using ok(2)[of et] by (auto simp: set_time_def)
      have "time_at s (?i div 2) \<le> time_at s ?i" using ok(3)[of ?i] k k2 by (simp add: ordered_at_def)
      also have "\<dots> \<le> time_at s k" using ok(3)[of k] k k2 by (simp add: ordered_at_def set_time_def)
      finally show "(if et_heap s (?i div 2) = et then x else time_at s (?i div 2)) \<le> (if et_heap s k = et then x else time_at s k)"
        using ne[of k] ne[of "?i div 2"] k k2 by (simp add: set_time_def)
    qed
    moreover have "insert_event_timer et ?s = Some (basic_et_adjust et ?i ?s)"
      using False ok(2)[of et] by (simp add: insert_event_timer_def set_time_def)
    ultimately show ?thesis using that[of ?i ?s] size by (simp add: set_time_def)
  next
    case True
    let ?i = "et_heap_size s + 1" and ?s = "(set_time et x s)\<lparr>et_heap_size := et_heap_size s + 1\<rparr>"
    have ne: "et_heap s k \<noteq> et" if "0 < k" "k \<le> et_heap_size s" for k using ok(1)[of k] True that by auto
    have "h_idx s t \<noteq> ?i \<and> h_idx s t \<le> ?i" if "h_idx s t \<noteq> 0" for t using ok(2)[of t] that by simp
    then have "hole_indexed et ?i ?s"
      using ok(1) ne ok(2) unfolding hole_indexed_def set_time_def by auto
    moreover have t2: "time_at ?s k = (if et_heap s k = et then x else time_at s k)" for k by (simp add: time_at_def set_time_def)
    have "hole_ordered ?i ?s"
      unfolding hole_ordered_def ordered_at_def t2
    proof (intro conjI allI impI)
      fix k assume k: "1 < k \<and> k \<le> et_heap_size ?s \<and> k \<noteq> ?i \<and> k div 2 \<noteq> ?i"
      then have "k \<le> et_heap_size s" "k div 2 \<le> et_heap_size s" by (auto simp: set_time_def)
      with k show "(if et_heap s (k div 2) = et then x else time_at s (k div 2)) \<le> (if et_heap s k = et then x else time_at s k)"
        using ne[of k] ne[of "k div 2"] ok(3)[of k] by (simp add: set_time_def ordered_at_def)
    next
      fix k assume "k \<le> et_heap_size ?s \<and> k div 2 = ?i \<and> 1 < ?i"
      then have False by auto
      then show "(if et_heap s (?i div 2) = et then x else time_at s (?i div 2)) \<le> (if et_heap s k = et then x else time_at s k)" ..
    qed
    moreover have "insert_event_timer et (set_time et x s) = Some (basic_et_adjust et ?i ?s)"
      using True room by (simp add: insert_event_timer_def set_time_def)
    ultimately show ?thesis using that[of ?i ?s] True room by (simp add: set_time_def)
  qed
  obtain r s' where a: "basic_et_adjust et i s1 = (r, s')" "timers_ok s'" "same_timers et s1 s'" "h_idx s' et \<noteq> 0"
    using adjust_hole[OF i(2-4)] by blast
  have "pending s' = (pending s)(et \<mapsto> x)"
    unfolding same_timers_pending[OF a(3,4)] using i(5,6) by (auto simp: pending_def)
  then show ?thesis using i(1) a by simp
qed

text \<open>
  \<open>do_immediate_timer_insert\<close> changes the time of a timer before it removes it.  The time of the timer that
  is removed is not looked at.
\<close>

lemma remove_changed:
  assumes ok: "timers_ok s"
  shows "\<exists>r s'. remove_event_timer et (set_time et x s) = Some (r, s') \<and> timers_ok s' \<and> pending s' = (pending s)(et := None) \<and>
    wakeup_time s' = (wakeup_time s)(et := x)"
proof -
  note okD = timers_okD[OF ok]
  let ?i = "h_idx s et" and ?n = "et_heap_size s"
  have size: "?n < MAX_EVENT_TIMERS" using ok by (simp add: timers_ok_def)
  have ne: "et_heap s k \<noteq> et" if "0 < k" "k \<le> ?n" "k \<noteq> ?i" for k using okD(1)[of k] that by auto
  show ?thesis
  proof (cases "?i = 0")
    case True
    have t: "time_at (set_time et x s) k = time_at s k" if "0 < k" "k \<le> ?n" for k
      using ne[of k] that True by (simp add: time_at_def set_time_def)
    have "ordered_at (set_time et x s) k" if "1 < k" "k \<le> ?n" for k
      using okD(3)[OF that] t[of k] t[of "k div 2"] that by (simp add: ordered_at_def)
    then have "timers_ok (set_time et x s)" using ok by (simp add: timers_ok_def indexed_def set_time_def)
    moreover have "pending (set_time et x s) = (pending s)(et := None)" using True by (auto simp: pending_def set_time_def)
    ultimately show ?thesis using True by (simp add: remove_event_timer_def set_time_def)
  next
    case False
    let ?s = "(set_time et x s)\<lparr>h_idx := (h_idx s)(et := 0), et_heap_size := ?n - 1\<rparr>" and ?last = "et_heap s (et_heap_size s)"
    have i: "0 < ?i" "?i \<le> ?n" "et_heap s ?i = et" using False okD(2)[of et] by auto
    have pend: "pending ?s = (pending s)(et := None)" by (auto simp: pending_def set_time_def)
    have t: "time_at ?s k = time_at s k" if "0 < k" "k \<le> ?n" "k \<noteq> ?i" for k
      using ne[OF that] by (simp add: time_at_def set_time_def)
    have idx: "h_idx s t \<noteq> ?i \<and> h_idx s t \<le> ?n \<and> et_heap s (h_idx s t) = t" if "t \<noteq> et" "h_idx s t \<noteq> 0" for t
      using okD(2)[of t] i(3) that by auto
    show ?thesis
    proof (cases "?i = ?n")
      case True
      have "h_idx s t \<le> ?n - 1" if "t \<noteq> et" "h_idx s t \<noteq> 0" for t using idx[OF that] True by auto
      moreover have "ordered_at ?s k" if "1 < k" "k \<le> ?n - 1" for k
        using okD(3)[of k] t[of k] t[of "k div 2"] that True by (simp add: ordered_at_def)
      ultimately have "timers_ok ?s"
        using okD(1) idx ne True size unfolding timers_ok_def indexed_def by (auto simp: set_time_def)
      then show ?thesis using False i True pend by (simp add: remove_event_timer_def Let_def set_time_def)
    next
      case inner: False
      have n: "?i \<le> ?n - 1" "0 < ?n" using i inner by auto
      have l: "h_idx s ?last = ?n" "?last \<noteq> et" using okD(1)[of ?n] ne[of ?n] n inner by auto
      have last: "et_heap s k \<noteq> ?last" if k: "0 < k" "k \<le> ?n - 1" for k
      proof
        have "h_idx s (et_heap s k) = k" using okD(1)[of k] k by simp
        moreover assume "et_heap s k = ?last"
        ultimately have "k = ?n" using l(1) by metis
        then show False using k n(2) by linarith
      qed
      have below: "h_idx s t \<le> ?n - 1" if "t \<noteq> et" "t \<noteq> ?last" "h_idx s t \<noteq> 0" for t
      proof -
        have "h_idx s t \<noteq> ?n" using idx[OF that(1,3)] that(2) by auto
        then show ?thesis using idx[OF that(1,3)] by linarith
      qed
      have "h_idx s (et_heap s k) = k \<and> et_heap s k \<noteq> et \<and> et_heap s k \<noteq> ?last" if k: "0 < k" "k \<le> ?n - 1" "k \<noteq> ?i" for k
      proof -
        have "k \<le> ?n" using k(2) by linarith
        then show ?thesis using okD(1)[of k] ne[of k] last[of k] k by blast
      qed
      then have "hole_indexed ?last ?i ?s"
        using i(1) n below idx unfolding hole_indexed_def by (simp add: set_time_def)
      moreover have "hole_ordered ?i ?s"
        unfolding hole_ordered_def
      proof (intro conjI allI impI)
        fix k assume "1 < k \<and> k \<le> et_heap_size ?s \<and> k \<noteq> ?i \<and> k div 2 \<noteq> ?i"
        then have "1 < k" "k \<le> ?n" "k \<noteq> ?i" "k div 2 \<noteq> ?i" by auto
        then show "ordered_at ?s k" using okD(3)[of k] t[of k] t[of "k div 2"] by (simp add: ordered_at_def)
      next
        fix k assume k: "k \<le> et_heap_size ?s \<and> k div 2 = ?i \<and> 1 < ?i"
        then have h: "1 < k" "k \<le> ?n" "k \<noteq> ?i" "0 < ?i div 2" "?i div 2 < ?i" by auto
        have "time_at s (?i div 2) \<le> time_at s ?i" "time_at s ?i \<le> time_at s k"
          using okD(3)[of ?i] okD(3)[of k] i k h by (auto simp: ordered_at_def)
        then show "time_at ?s (?i div 2) \<le> time_at ?s k"
          using t[of k] t[of "?i div 2"] h i(2) by (auto intro: order_trans)
      qed
      moreover have "et_heap_size ?s < MAX_EVENT_TIMERS" using size by simp
      ultimately obtain r s' where a: "basic_et_adjust ?last ?i ?s = (r, s')" "timers_ok s'" "same_timers ?last ?s s'" "h_idx s' ?last \<noteq> 0"
        using adjust_hole by blast
      have "pending s' = (pending ?s)(?last \<mapsto> wakeup_time ?s ?last)" using same_timers_pending[OF a(3,4)] .
      also have "\<dots> = pending ?s" using l n by (auto simp: pending_def set_time_def)
      finally have "pending s' = pending ?s" .
      moreover have "wakeup_time s' = (wakeup_time s)(et := x)" using a(3) by (simp add: same_timers_def set_time_def)
      ultimately show ?thesis using False i n inner a(1,2) pend by (simp add: remove_event_timer_def Let_def set_time_def)
    qed
  qed
qed

lemma remove_pending:
  assumes ok: "timers_ok s"
  shows "\<exists>r s'. remove_event_timer et s = Some (r, s') \<and> timers_ok s' \<and> pending s' = (pending s)(et := None) \<and> wakeup_time s' = wakeup_time s"
proof -
  have "set_time et (wakeup_time s et) s = s" by (simp add: set_time_def)
  then show ?thesis using remove_changed[OF ok, of et "wakeup_time s et"] by simp
qed

text \<open>The heap has as many timers as are pending.\<close>

lemma size_pending:
  assumes ok: "timers_ok s"
  shows "card (dom (pending s)) = et_heap_size s"
proof -
  note okD = timers_okD[OF ok]
  have "dom (pending s) = et_heap s ` {1..et_heap_size s}"
  proof
    show "dom (pending s) \<subseteq> et_heap s ` {1..et_heap_size s}"
    proof
      fix t assume "t \<in> dom (pending s)"
      then have "h_idx s t \<noteq> 0" by (auto simp: pending_def split: if_split_asm)
      then show "t \<in> et_heap s ` {1..et_heap_size s}" using okD(2)[of t] by (intro image_eqI[of _ _ "h_idx s t"]) auto
    qed
    show "et_heap s ` {1..et_heap_size s} \<subseteq> dom (pending s)" using okD(1) by (auto simp: pending_def)
  qed
  moreover have "inj_on (et_heap s) {1..et_heap_size s}" using okD(1) by (intro inj_on_inverseI[of _ "h_idx s"]) auto
  ultimately show ?thesis by (simp add: card_image)
qed

text \<open>One more timer would be written behind the array, although the assertion holds.\<close>

lemma insert_full:
  assumes "timers_ok s" "h_idx s et = 0" "MAX_EVENT_TIMERS \<le> et_heap_size s + 1"
  shows "insert_event_timer et (set_time et x s) = None" "et_heap_size s < MAX_EVENT_TIMERS"
  using assms by (simp_all add: insert_event_timer_def set_time_def timers_ok_def Let_def)

text \<open>The root is the earliest.\<close>

lemma root_first:
  assumes "timers_ok s"
  shows "0 < k \<Longrightarrow> k \<le> et_heap_size s \<Longrightarrow> time_at s 1 \<le> time_at s k"
proof (induction k rule: less_induct)
  case (less k)
  show ?case
  proof (cases "k = 1")
    case False
    then have k: "1 < k" "0 < k div 2" "k div 2 < k" using less.prems by auto
    have "time_at s 1 \<le> time_at s (k div 2)" using less k by auto
    also have "\<dots> \<le> time_at s k" using timers_okD(3)[OF assms k(1) less.prems(2)] by (simp add: ordered_at_def)
    finally show ?thesis .
  qed simp
qed

section \<open>The contract of a queue of times\<close>

locale timed_queue =
  fixes inv :: "'s \<Rightarrow> bool" and times :: "'s \<Rightarrow> 't \<Rightarrow> 'a :: linorder option"
    and first :: "'s \<Rightarrow> 't option" and remove :: "'t \<Rightarrow> 's \<Rightarrow> 's option"
  assumes finite_times: "inv s \<Longrightarrow> finite (dom (times s))"
    and no_first: "inv s \<Longrightarrow> first s = None \<Longrightarrow> times s = Map.empty"
    and first_least: "inv s \<Longrightarrow> first s = Some t \<Longrightarrow> \<exists>x. times s t = Some x \<and> (\<forall>t' x'. times s t' = Some x' \<longrightarrow> x \<le> x')"
    and removes: "inv s \<Longrightarrow> \<exists>s'. remove t s = Some s' \<and> inv s' \<and> times s' = (times s)(t := None)"
begin

definition due :: "'a \<Rightarrow> 's \<Rightarrow> 't set" where
  "due now s = {t. \<exists>x. times s t = Some x \<and> x \<le> now}"

lemma finite_due: "inv s \<Longrightarrow> finite (due now s)"
  using finite_times[of s] by (auto simp: due_def intro: finite_subset[of _ "dom (times s)"])

text \<open>When the first one is not due, none is.\<close>

lemma none_due:
  assumes "inv s" "\<And>t. first s = Some t \<Longrightarrow> t \<notin> due now s"
  shows "due now s = {}"
proof (cases "first s")
  case None
  then show ?thesis using no_first[OF assms(1)] by (simp add: due_def)
next
  case (Some t)
  then obtain x where x: "times s t = Some x" "\<forall>t' x'. times s t' = Some x' \<longrightarrow> x \<le> x'" using first_least[OF assms(1)] by blast
  then have "now < x" using assms(2)[OF Some] by (auto simp: due_def)
  then show ?thesis using x(2) by (force simp: due_def)
qed

text \<open>Removing a due timer makes the set smaller.\<close>

lemma fewer_due:
  assumes "inv s" "t \<in> due now s" "remove t s = Some s'"
  shows "due now s' = due now s - {t}" "card (due now s') < card (due now s)"
proof -
  have "times s' = (times s)(t := None)" using removes[OF assms(1), of t] assms(3) by auto
  then show "due now s' = due now s - {t}" by (auto simp: due_def split: if_split_asm)
  then show "card (due now s') < card (due now s)" using card_Diff1_less[OF finite_due[OF assms(1)] assms(2)] by simp
qed

end

definition first_timer :: "timers \<Rightarrow> timer option" where
  "first_timer s = (if et_heap_size s = 0 then None else Some (et_heap s 1))"

interpretation heap: timed_queue timers_ok pending first_timer "\<lambda>t s. map_option snd (remove_event_timer t s)"
proof
  fix s :: timers and t
  assume ok: "timers_ok s"
  have at: "\<exists>k. 0 < k \<and> k \<le> et_heap_size s \<and> et_heap s k = t \<and> time_at s k = x" if "pending s t = Some x" for t x
    using that timers_okD(2)[OF ok, of t] by (intro exI[of _ "h_idx s t"]) (auto simp: pending_def time_at_def split: if_split_asm)
  have "dom (pending s) \<subseteq> et_heap s ` {0<..et_heap_size s}" using at by force
  then show "finite (dom (pending s))" by (rule finite_subset) simp
  show "pending s = Map.empty" if "first_timer s = None"
    using at that by (fastforce simp: first_timer_def split: if_split_asm)
  show "\<exists>x. pending s t = Some x \<and> (\<forall>t' x'. pending s t' = Some x' \<longrightarrow> x \<le> x')" if "first_timer s = Some t"
  proof -
    have n: "0 < et_heap_size s" "et_heap s 1 = t" using that by (auto simp: first_timer_def split: if_split_asm)
    have "h_idx s t = 1" using timers_okD(1)[OF ok, of 1] n by auto
    then have "pending s t = Some (time_at s 1)" using n by (simp add: pending_def time_at_def)
    moreover have "time_at s 1 \<le> x'" if "pending s t' = Some x'" for t' x' using at[OF that] root_first[OF ok] by blast
    ultimately show ?thesis by blast
  qed
  show "\<exists>s'. map_option snd (remove_event_timer t s) = Some s' \<and> timers_ok s' \<and> pending s' = (pending s)(t := None)"
    using remove_pending[OF ok, of t] by auto
qed

section \<open>Alarms\<close>

lemma first_pending:
  assumes "timers_ok s" "0 < et_heap_size s"
  shows "h_idx s (et_heap s 1) = 1" "pending s (et_heap s 1) = Some (time_at s 1)"
  using timers_okD(1)[OF assms(1), of 1] assms(2) by (simp_all add: pending_def time_at_def)









lemma first_is_least:
  assumes "timers_ok s" "pending s t = Some y"
  shows "timers_get_first s \<le> y"
proof -
  have h: "h_idx s t \<noteq> 0" "y = wakeup_time s t" using assms(2) by (auto simp: pending_def split: if_split_asm)
  then have "0 < h_idx s t" "h_idx s t \<le> et_heap_size s" "time_at s (h_idx s t) = y"
    using timers_okD(2)[OF assms(1), of t] by (auto simp: time_at_def)
  then show ?thesis using root_first[OF assms(1), of "h_idx s t"] by (simp add: timers_get_first_def)
qed

lemma first_attained:
  assumes "timers_ok s" "pending s \<noteq> Map.empty"
  shows "\<exists>t. pending s t = Some (timers_get_first s)"
proof -
  have "0 < et_heap_size s"
  proof (rule ccontr)
    assume "\<not> 0 < et_heap_size s"
    then have "pending s = Map.empty" using heap.no_first[OF assms(1)] by (simp add: first_timer_def)
    then show False using assms(2) by simp
  qed
  then show ?thesis using first_pending(2)[OF assms(1)] by (auto simp: timers_get_first_def)
qed

lemma no_timers_ok: "timers_ok no_timers" "pending no_timers = Map.empty"
  by (auto simp: timers_ok_def indexed_def no_timers_def pending_def MAX_EVENT_TIMERS_def)


section \<open>Alarms that set timers\<close>
















section \<open>Properties\<close>

text \<open>
  C20. The heap is a queue of pending times.  A new one is empty; inserting a timer, a new one or one with a
  changed time, and removing one, pending or not, keep the heap well-formed, fail no assertion, write only
  to the array, and change the map of pending times as a map is updated.  The exception is a timer that
  would be number \<open>MAX_EVENT_TIMERS\<close>: the assertion lets it pass, and it is written behind the array.
  \<open>timers_get_first\<close> is the least of the times, and 0 if there are none.
\<close>

theorem timer_heap_refines_map:
  assumes "timers_ok s"
  shows "timers_ok no_timers \<and> pending no_timers = Map.empty \<and>
    (if et \<in> dom (pending s) \<or> card (dom (pending s)) + 1 < MAX_EVENT_TIMERS
     then \<exists>r s'. insert_event_timer et (set_time et x s) = Some (r, s') \<and> timers_ok s' \<and> pending s' = (pending s)(et \<mapsto> x)
     else insert_event_timer et (set_time et x s) = None \<and> et_heap_size s < MAX_EVENT_TIMERS) \<and>
    (\<exists>r s'. remove_event_timer et s = Some (r, s') \<and> timers_ok s' \<and> pending s' = (pending s)(et := None)) \<and>
    timers_get_first s = (if pending s = Map.empty then 0 else Min (ran (pending s)))"
proof -
  have d: "et \<in> dom (pending s) \<longleftrightarrow> h_idx s et \<noteq> 0" by (simp add: pending_def dom_def)
  have first: "timers_get_first s = (if pending s = Map.empty then 0 else Min (ran (pending s)))"
  proof (cases "pending s = Map.empty")
    case True
    then have "et_heap_size s = 0" using size_pending[OF assms] by simp
    then show ?thesis using True by (simp add: timers_get_first_def)
  next
    case False
    obtain t where "pending s t = Some (timers_get_first s)" using first_attained[OF assms False] by blast
    moreover have "finite (ran (pending s))" using heap.finite_times[OF assms] by (rule finite_ran)
    ultimately have "Min (ran (pending s)) = timers_get_first s"
      using first_is_least[OF assms] by (intro Min_eqI) (auto simp: ran_def)
    then show ?thesis using False by simp
  qed
  show ?thesis
    using no_timers_ok insert_pending[OF assms, of et x] insert_full[OF assms, of et] remove_pending[OF assms, of et] first
    unfolding size_pending[OF assms] d by (cases "h_idx s et \<noteq> 0 \<or> et_heap_size s + 1 < MAX_EVENT_TIMERS") auto
qed

text \<open>Three timers; the second one is the earliest.\<close>

definition three_timers :: timers where
  "three_timers = \<lparr>et_heap = (\<lambda>_. 0)(1 := 8, 2 := 7, 3 := 9), et_heap_size = 3,
     wakeup_time = (\<lambda>_. 0)(7 := 5, 8 := 1, 9 := 3), h_idx = (\<lambda>_. 0)(7 := 2, 8 := 1, 9 := 3)\<rparr>"

lemma three_timers_ok: "timers_ok three_timers"
proof -
  have "k = 2 \<or> k = 3" if "1 < k" "k \<le> 3" for k :: nat using that by linarith
  moreover have "k = 1 \<or> k = 2 \<or> k = 3" if "0 < k" "k \<le> 3" for k :: nat using that by linarith
  ultimately have "indexed three_timers \<and> (\<forall>k. 1 < k \<and> k \<le> et_heap_size three_timers \<longrightarrow> ordered_at three_timers k)"
    by (force simp: indexed_def three_timers_def ordered_at_def time_at_def split: if_split_asm)
  then show ?thesis by (simp add: timers_ok_def) (simp add: three_timers_def MAX_EVENT_TIMERS_def)
qed

theorem timer_heap_refines_map_witness:
  "(\<exists>r s'. insert_event_timer 8 (set_time 8 10 three_timers) = Some (r, s') \<and> timers_ok s' \<and> pending s' = (pending three_timers)(8 \<mapsto> 10)) \<and>
    (\<exists>r s'. remove_event_timer 8 three_timers = Some (r, s') \<and> timers_ok s' \<and> pending s' = (pending three_timers)(8 := None))"
proof -
  have "8 \<in> dom (pending three_timers)" by (simp add: pending_def three_timers_def dom_def)
  then show ?thesis using timer_heap_refines_map[OF three_timers_ok, of 8 10] by (simp only: if_P simp_thms)
qed




end
