(* ===== verification/Linked_Rings.thy ===== *)
theory Linked_Rings
  imports MT_Prelude "HOL-Library.Monad_Syntax"
begin

text \<open>
  Doubly linked lists that are closed by a head, as \<open>mtproto/mtproto-proxy.c\<close> keeps them, and singly
  linked chains.  A field of a structure is a function from pointers, the null pointer is
  \<open>None\<close>; a list is the path along the fields.  What the code does to a ring (append before the
  head, unlink) is stated on the two fields, with the lists before and after.
\<close>

section \<open>The two operations\<close>

type_synonym 'p field = "'p \<Rightarrow> 'p option"

text \<open>\<open>None\<close> as a result is an access through a null pointer.\<close>

definition ring_append :: "'p \<Rightarrow> 'p \<Rightarrow> 'p field \<times> 'p field \<Rightarrow> ('p field \<times> 'p field) option" where
  "ring_append h p f =
     (let (nxt, prv) = f; nxt = nxt(p := Some h); prv = prv(p := prv h) in
      case prv h of
        None \<Rightarrow> None
      | Some q \<Rightarrow> Some (nxt(q := Some p), prv(h := Some p)))"

definition ring_unlink :: "'p \<Rightarrow> 'p field \<times> 'p field \<Rightarrow> ('p field \<times> 'p field) option" where
  "ring_unlink p f =
     (let (nxt, prv) = f in
      case nxt p of
        None \<Rightarrow> Some (nxt, prv)
      | Some n \<Rightarrow>
          (let prv = prv(n := prv p) in
           case prv p of
             None \<Rightarrow> None
           | Some q \<Rightarrow> (let nxt = nxt(q := nxt p) in Some (nxt(p := None), prv(p := None)))))"

section \<open>Segments and rings\<close>

text \<open>The list \<open>xs\<close> lies strictly between \<open>a\<close> and \<open>b\<close>, and is linked both ways.\<close>

fun seg :: "'p field \<Rightarrow> 'p field \<Rightarrow> 'p \<Rightarrow> 'p list \<Rightarrow> 'p \<Rightarrow> bool" where
  "seg nxt prv a [] b \<longleftrightarrow> nxt a = Some b \<and> prv b = Some a"
| "seg nxt prv a (x # xs) b \<longleftrightarrow> nxt a = Some x \<and> prv x = Some a \<and> seg nxt prv x xs b"

definition ring :: "'p field \<Rightarrow> 'p field \<Rightarrow> 'p \<Rightarrow> 'p list \<Rightarrow> bool" where
  "ring nxt prv h xs \<longleftrightarrow> distinct (h # xs) \<and> seg nxt prv h xs h"

lemma seg_append: "seg nxt prv a (xs @ x # ys) b \<longleftrightarrow> seg nxt prv a xs x \<and> seg nxt prv x ys b"
  by (induction xs arbitrary: a) auto

lemma seg_frame:
  "\<lbrakk>seg nxt prv a xs b; \<And>q. q = a \<or> q \<in> set xs \<Longrightarrow> nxt' q = nxt q; \<And>q. q = b \<or> q \<in> set xs \<Longrightarrow> prv' q = prv q\<rbrakk>
   \<Longrightarrow> seg nxt' prv' a xs b"
  by (induction xs arbitrary: a) auto

lemma seg_next: "seg nxt prv a xs b \<Longrightarrow> nxt a = Some (hd (xs @ [b]))"
  by (cases xs) auto

lemma seg_prev: "seg nxt prv a xs b \<Longrightarrow> prv b = Some (last (a # xs))"
  by (induction xs arbitrary: a) auto

text \<open>The end of a segment moves to another pointer.\<close>

lemma seg_redirect:
  "\<lbrakk>seg nxt prv a xs b; distinct (a # xs); c \<notin> set xs\<rbrakk>
   \<Longrightarrow> seg (nxt(last (a # xs) := Some c)) (prv(c := Some (last (a # xs)))) a xs c"
proof (induction xs arbitrary: a)
  case (Cons x xs)
  have "seg (nxt(last (x # xs) := Some c)) (prv(c := Some (last (x # xs)))) x xs c"
    by (rule Cons.IH) (use Cons.prems in auto)
  moreover have "last (a # x # xs) = last (x # xs)" "last (x # xs) \<noteq> a" "x \<noteq> c"
    using Cons.prems last_in_set[of "x # xs"] by auto
  moreover have "nxt a = Some x" "prv x = Some a" using Cons.prems by auto
  ultimately show ?case unfolding \<open>last (a # x # xs) = last (x # xs)\<close> seg.simps(2) by (simp del: last.simps)
qed simp

lemma ring_frame:
  assumes "ring nxt prv h xs" "\<And>q. q \<in> insert h (set xs) \<Longrightarrow> nxt' q = nxt q" "\<And>q. q \<in> insert h (set xs) \<Longrightarrow> prv' q = prv q"
  shows "ring nxt' prv' h xs"
proof -
  have "seg nxt' prv' h xs h" by (rule seg_frame[of nxt prv]) (use assms in \<open>auto simp: ring_def\<close>)
  then show ?thesis using assms(1) unfolding ring_def by blast
qed

lemma ring_distinct: "ring nxt prv h xs \<Longrightarrow> distinct (h # xs)" "ring nxt prv h xs \<Longrightarrow> seg nxt prv h xs h"
  unfolding ring_def by blast+

lemma ring_next: "ring nxt prv h xs \<Longrightarrow> nxt h = Some (hd (xs @ [h]))"
  by (rule seg_next[OF ring_distinct(2)])

lemma ring_prev: "ring nxt prv h xs \<Longrightarrow> prv h = Some (last (h # xs))"
  by (rule seg_prev[OF ring_distinct(2)])

lemma ring_member_next:
  assumes "ring nxt prv h (ys @ p # zs)"
  shows "nxt p = Some (hd (zs @ [h]))"
proof -
  have "seg nxt prv p zs h" using ring_distinct(2)[OF assms] unfolding seg_append by blast
  then show ?thesis by (rule seg_next)
qed

lemma ring_empty_iff: "ring nxt prv h xs \<Longrightarrow> nxt h = Some h \<longleftrightarrow> xs = []"
  using ring_next[of nxt prv h xs] ring_distinct(1)[of nxt prv h xs] by (cases xs) auto

lemma ring_empty: "\<lbrakk>nxt h = Some h; prv h = Some h\<rbrakk> \<Longrightarrow> ring nxt prv h []"
  by (simp add: ring_def)

lemma ring_at_most_one: "ring nxt prv h xs \<Longrightarrow> nxt h = prv h \<longleftrightarrow> length xs \<le> 1"
  using ring_next[of nxt prv h xs] ring_prev[of nxt prv h xs] ring_distinct(1)[of nxt prv h xs]
  by (cases xs; cases "tl xs") (auto split: if_splits)

section \<open>What the operations do to the lists\<close>

lemma ring_append_ring:
  assumes r: "ring nxt prv h xs" and p: "p \<notin> insert h (set xs)"
  shows "\<exists>nxt' prv'. ring_append h p (nxt, prv) = Some (nxt', prv') \<and> ring nxt' prv' h (xs @ [p])
    \<and> (\<forall>q. q \<notin> insert p (insert h (set xs)) \<longrightarrow> nxt' q = nxt q \<and> prv' q = prv q)"
proof -
  let ?l = "last (h # xs)"
  let ?n = "(nxt(p := Some h))(?l := Some p)" and ?v = "(prv(p := Some ?l))(h := Some p)"
  have l: "prv h = Some ?l" "?l \<in> insert h (set xs)" "?l \<noteq> p"
    using ring_prev[OF r] p by (auto simp: last_in_set split: if_splits)
  have s: "seg nxt prv h xs h" "distinct (h # xs)" using r by (auto simp: ring_def)
  have "seg (nxt(?l := Some p)) (prv(p := Some ?l)) h xs p"
    using seg_redirect[OF s(1) s(2), of p] p by simp
  then have "seg ?n ?v h xs p"
    by (rule seg_frame) (use p s(2) in \<open>auto\<close>)
  moreover have "?n p = Some h" "?v h = Some p" using l p by auto
  ultimately have "ring ?n ?v h (xs @ [p])" using s(2) p by (auto simp: ring_def seg_append)
  moreover have "ring_append h p (nxt, prv) = Some (?n, ?v)" using l p by (auto simp: ring_append_def Let_def)
  ultimately show ?thesis using l by auto
qed

lemma ring_unlink_ring:
  assumes r: "ring nxt prv h xs" and p: "p \<in> set xs"
  shows "\<exists>nxt' prv'. ring_unlink p (nxt, prv) = Some (nxt', prv') \<and> ring nxt' prv' h (remove1 p xs)
    \<and> nxt' p = None \<and> prv' p = None \<and> (\<forall>q. q \<notin> insert h (set xs) \<longrightarrow> nxt' q = nxt q \<and> prv' q = prv q)"
proof -
  obtain ys zs where xs: "xs = ys @ p # zs" using p by (meson split_list)
  have d: "distinct (h # ys @ p # zs)" and s: "seg nxt prv h ys p" "seg nxt prv p zs h"
    using r by (auto simp: ring_def xs seg_append)
  let ?q = "last (h # ys)" and ?m = "hd (zs @ [h])"
  let ?n = "(nxt(?q := Some ?m))(p := None)" and ?v = "(prv(?m := Some ?q))(p := None)"
  have q: "nxt p = Some ?m" "prv p = Some ?q" using seg_next[OF s(2)] seg_prev[OF s(1)] by auto
  have mem: "?m \<in> insert h (set zs)" "?q \<in> insert h (set ys)" by (cases zs; simp) (simp add: last_in_set)
  have ne: "?m \<noteq> p" "?q \<noteq> p" using mem d by auto
  have ys: "seg (nxt(?q := Some ?m)) (prv(?m := Some ?q)) h ys ?m"
    by (rule seg_redirect[OF s(1)]) (use d mem in auto)
  have "seg ?n ?v h ys ?m" by (rule seg_frame[OF ys]) (use d ne in auto)
  then have "seg ?n ?v h (ys @ zs) h"
  proof (cases zs)
    case (Cons z zs')
    have m: "?m = z" using Cons by simp
    have sz: "seg nxt prv z zs' h" using s(2) Cons by simp
    have "seg ?n ?v z zs' h"
      by (rule seg_frame[OF sz]) (use d mem Cons in \<open>auto simp: m\<close>)
    then show ?thesis using \<open>seg ?n ?v h ys ?m\<close> Cons by (simp add: seg_append)
  qed simp
  moreover have "remove1 p xs = ys @ zs" using d by (simp add: xs remove1_append)
  moreover have "distinct (h # ys @ zs)" using d by auto
  ultimately have "ring ?n ?v h (remove1 p xs)" unfolding ring_def by simp
  moreover have "ring_unlink p (nxt, prv) = Some (?n, ?v)" using q ne by (simp add: ring_unlink_def Let_def)
  ultimately show ?thesis using mem by (auto simp: xs)
qed

section \<open>Families of rings\<close>

text \<open>
  Many rings over the same two fields, one for each head; a head that is not open yet has null
  pointers.  \<open>mem k\<close> is what hangs on the head of \<open>k\<close>.  The heads are distinct, and what hangs on them
  is no head and hangs on one only.
\<close>

definition ring_family :: "('k \<Rightarrow> 'p) \<Rightarrow> ('k \<Rightarrow> 'p set) \<Rightarrow> 'p field \<Rightarrow> 'p field \<Rightarrow> bool" where
  "ring_family head mem nxt prv \<longleftrightarrow>
     (\<forall>k. if nxt (head k) = None then prv (head k) = None \<and> mem k = {} else \<exists>xs. ring nxt prv (head k) xs \<and> set xs = mem k)"

definition separate :: "('k \<Rightarrow> 'p) \<Rightarrow> ('k \<Rightarrow> 'p set) \<Rightarrow> bool" where
  "separate head mem \<longleftrightarrow> (\<forall>k k'. head k \<notin> mem k') \<and> (\<forall>k k'. k \<noteq> k' \<longrightarrow> mem k \<inter> mem k' = {})"

locale ring_heads =
  fixes head :: "'k \<Rightarrow> 'p"
  assumes heads_distinct: "head k = head k' \<longleftrightarrow> k = k'"
begin

lemma family_ring:
  assumes "ring_family head mem nxt prv" "nxt (head k) \<noteq> None"
  obtains xs where "ring nxt prv (head k) xs" "set xs = mem k"
  using assms unfolding ring_family_def by (metis (full_types))

lemma family_closed:
  assumes "ring_family head mem nxt prv" "nxt (head k) = None"
  shows "prv (head k) = None" "mem k = {}"
proof -
  have "if nxt (head k) = None then prv (head k) = None \<and> mem k = {} else \<exists>xs. ring nxt prv (head k) xs \<and> set xs = mem k"
    using assms(1) unfolding ring_family_def by (rule spec)
  then show "prv (head k) = None" "mem k = {}" using assms(2) by simp_all
qed

lemma family_member:
  assumes f: "ring_family head mem nxt prv" and p: "p \<in> mem k"
  shows "nxt (head k) \<noteq> None" "nxt p \<noteq> None" "prv (head k) \<noteq> None" "nxt (head k) \<noteq> Some (head k)"
proof -
  show opened: "nxt (head k) \<noteq> None" using family_closed(2)[OF f, of k] p by blast
  obtain xs where r: "ring nxt prv (head k) xs" "set xs = mem k" using family_ring[OF f opened] .
  obtain ys zs where xs: "xs = ys @ p # zs" using p unfolding r(2)[symmetric] by (meson split_list)
  show "nxt p \<noteq> None" using ring_member_next[of nxt prv "head k" ys p zs] r(1) xs by simp
  show "prv (head k) \<noteq> None" using ring_prev[OF r(1)] by simp
  show "nxt (head k) \<noteq> Some (head k)" using ring_empty_iff[OF r(1)] xs by simp
qed

lemma family_no_member:
  assumes f: "ring_family head mem nxt prv" and e: "mem k = {}" and opened: "nxt (head k) \<noteq> None"
  shows "nxt (head k) = Some (head k)" "prv (head k) = Some (head k)"
proof -
  obtain xs where r: "ring nxt prv (head k) xs" "set xs = mem k" using family_ring[OF f opened] .
  then show "nxt (head k) = Some (head k)" "prv (head k) = Some (head k)"
    using ring_next[OF r(1)] ring_prev[OF r(1)] e by simp_all
qed

lemma family_one_member:
  assumes f: "ring_family head mem nxt prv" and one: "mem k = {p}"
  shows "nxt (head k) = Some p" "prv (head k) = Some p"
proof -
  have opened: "nxt (head k) \<noteq> None" using family_member(1)[OF f, of p k] one by simp
  obtain xs where r: "ring nxt prv (head k) xs" "set xs = mem k" using family_ring[OF f opened] .
  have "distinct xs" using ring_distinct(1)[OF r(1)] by simp
  then have "xs = [p]" using r(2) one by (cases xs; cases "tl xs") auto
  then show "nxt (head k) = Some p" "prv (head k) = Some p" using ring_next[OF r(1)] ring_prev[OF r(1)] by simp_all
qed

lemma family_update:
  assumes f: "ring_family head mem nxt prv" and s: "separate head mem"
    and r: "ring nxt' prv' (head k) xs'"
    and frame: "\<And>q. q \<notin> insert (head k) (mem k \<union> N) \<Longrightarrow> nxt' q = nxt q \<and> prv' q = prv q"
    and new: "\<And>q k'. q \<in> N \<Longrightarrow> q \<noteq> head k' \<and> (k' \<noteq> k \<longrightarrow> q \<notin> mem k')"
  shows "ring_family head (mem(k := set xs')) nxt' prv'"
proof -
  have "if nxt' (head j) = None then prv' (head j) = None \<and> (mem(k := set xs')) j = {}
      else \<exists>xs. ring nxt' prv' (head j) xs \<and> set xs = (mem(k := set xs')) j" for j
  proof (cases "j = k")
    case True
    then show ?thesis using r ring_next[OF r] by auto
  next
    case False
    have out: "q \<notin> insert (head k) (mem k \<union> N)" if "q \<in> insert (head j) (mem j)" for q
    proof -
      have "mem j \<inter> mem k = {}" "head k \<notin> mem j" "head j \<notin> mem k" "head j \<noteq> head k"
        using s False heads_distinct[of j k] unfolding separate_def by blast+
      moreover have "q \<notin> N" using that new[of q j] False by auto
      ultimately show ?thesis using that by auto
    qed
    have h: "nxt' (head j) = nxt (head j)" "prv' (head j) = prv (head j)" using frame[OF out] by simp_all
    show ?thesis
    proof (cases "nxt (head j) = None")
      case True
      then show ?thesis using h family_closed[OF f, of j] False by simp
    next
      case opened: False
      obtain xs where "ring nxt prv (head j) xs" "set xs = mem j" using family_ring[OF f opened] .
      moreover have "ring nxt' prv' (head j) xs"
        by (rule ring_frame[of nxt prv]) (use calculation frame[OF out] in auto)
      ultimately show ?thesis using opened h False by auto
    qed
  qed
  then show ?thesis unfolding ring_family_def by blast
qed

lemma family_append:
  assumes f: "ring_family head mem nxt prv" and s: "separate head mem" and opened: "nxt (head k) \<noteq> None"
    and p: "\<And>j. p \<noteq> head j \<and> p \<notin> mem j"
  shows "\<exists>nxt' prv'. ring_append (head k) p (nxt, prv) = Some (nxt', prv')
    \<and> ring_family head (mem(k := insert p (mem k))) nxt' prv' \<and> (\<forall>q. q \<notin> insert p (insert (head k) (mem k)) \<longrightarrow> nxt' q = nxt q)"
proof -
  obtain xs where r: "ring nxt prv (head k) xs" "set xs = mem k" using family_ring[OF f opened] .
  obtain nxt' prv' where a: "ring_append (head k) p (nxt, prv) = Some (nxt', prv')" "ring nxt' prv' (head k) (xs @ [p])"
    "\<forall>q. q \<notin> insert p (insert (head k) (set xs)) \<longrightarrow> nxt' q = nxt q \<and> prv' q = prv q"
    using ring_append_ring[OF r(1), of p] p[of k] r(2) by auto
  have "ring_family head (mem(k := set (xs @ [p]))) nxt' prv'"
    by (rule family_update[OF f s a(2), of "{p}"]) (use a(3) r(2) p in auto)
  then show ?thesis using a r(2) by auto
qed

lemma family_unlink:
  assumes f: "ring_family head mem nxt prv" and s: "separate head mem" and p: "p \<in> mem k"
  shows "\<exists>nxt' prv'. ring_unlink p (nxt, prv) = Some (nxt', prv') \<and> ring_family head (mem(k := mem k - {p})) nxt' prv'
    \<and> nxt' p = None \<and> prv' p = None \<and> (\<forall>q. q \<notin> insert (head k) (mem k) \<longrightarrow> nxt' q = nxt q)"
proof -
  obtain xs where r: "ring nxt prv (head k) xs" "set xs = mem k" using family_ring[OF f family_member(1)[OF f p]] .
  have px: "p \<in> set xs" using p r(2) by simp
  obtain nxt' prv' where a: "ring_unlink p (nxt, prv) = Some (nxt', prv')" "ring nxt' prv' (head k) (remove1 p xs)"
    "nxt' p = None" "prv' p = None" "\<forall>q. q \<notin> insert (head k) (set xs) \<longrightarrow> nxt' q = nxt q \<and> prv' q = prv q"
    using ring_unlink_ring[OF r(1) px] by blast
  have "ring_family head (mem(k := set (remove1 p xs))) nxt' prv'"
    by (rule family_update[OF f s a(2), of "{}"]) (use a(5) r(2) in auto)
  moreover have "set (remove1 p xs) = mem k - {p}" using ring_distinct(1)[OF r(1)] r(2) by (simp add: set_remove1_eq)
  ultimately show ?thesis using a r(2) by auto
qed

text \<open>
  The two operations on a family, in the form the clients use: which lists there are, and which
  pointers have become null or have stopped being null.
\<close>

lemma family_add:
  assumes f: "ring_family head mem nxt prv" and s: "separate head mem" and opened: "nxt (head k) \<noteq> None"
    and p: "\<And>j. p \<noteq> head j \<and> p \<notin> mem j"
  obtains nxt' prv' where "ring_append (head k) p (nxt, prv) = Some (nxt', prv')"
    "ring_family head (mem(k := insert p (mem k))) nxt' prv'"
    "nxt' p \<noteq> None" "\<And>q. q \<noteq> p \<Longrightarrow> nxt' q = None \<longleftrightarrow> nxt q = None"
proof -
  obtain nxt' prv' where a: "ring_append (head k) p (nxt, prv) = Some (nxt', prv')"
    "ring_family head (mem(k := insert p (mem k))) nxt' prv'" "\<forall>q. q \<notin> insert p (insert (head k) (mem k)) \<longrightarrow> nxt' q = nxt q"
    using family_append[OF f s opened p] by blast
  have m: "nxt' q \<noteq> None" if "q \<in> insert p (mem k)" for q
    using family_member(2)[OF a(2), of q k] that by simp
  have h: "nxt' (head k) \<noteq> None" using family_member(1)[OF a(2), of p k] by simp
  have "nxt' q = None \<longleftrightarrow> nxt q = None" if "q \<noteq> p" for q
  proof (cases "q \<in> insert (head k) (mem k)")
    case True
    then have "nxt' q \<noteq> None" using m h by auto
    moreover have "nxt q \<noteq> None" using True opened family_member(2)[OF f, of q k] by auto
    ultimately show ?thesis by blast
  next
    case False
    then show ?thesis using a(3) that by auto
  qed
  then show ?thesis using that[OF a(1,2) m] by simp
qed

lemma family_delete:
  assumes f: "ring_family head mem nxt prv" and s: "separate head mem" and p: "\<And>j. p \<noteq> head j"
    and out: "nxt p = None \<longleftrightarrow> (\<forall>j. p \<notin> mem j)"
  obtains nxt' prv' where "ring_unlink p (nxt, prv) = Some (nxt', prv')" "ring_family head (\<lambda>j. mem j - {p}) nxt' prv'"
    "\<And>q. q \<noteq> p \<Longrightarrow> nxt' q = None \<longleftrightarrow> nxt q = None"
proof (cases "nxt p = None")
  case True
  then have "(\<lambda>j. mem j - {p}) = mem" using out by (intro ext) auto
  moreover have "ring_unlink p (nxt, prv) = Some (nxt, prv)" using True by (simp add: ring_unlink_def)
  ultimately show ?thesis using that[of nxt prv] f by simp
next
  case False
  then obtain k where k: "p \<in> mem k" using out by auto
  obtain nxt' prv' where a: "ring_unlink p (nxt, prv) = Some (nxt', prv')" "ring_family head (mem(k := mem k - {p})) nxt' prv'"
    "\<forall>q. q \<notin> insert (head k) (mem k) \<longrightarrow> nxt' q = nxt q" "nxt' (head k) \<noteq> None"
  proof -
    obtain xs where r: "ring nxt prv (head k) xs" "set xs = mem k" using family_ring[OF f family_member(1)[OF f k]] .
    obtain nxt' prv' where u: "ring_unlink p (nxt, prv) = Some (nxt', prv')" "ring nxt' prv' (head k) (remove1 p xs)"
      using ring_unlink_ring[OF r(1), of p] k r(2) by auto
    show ?thesis using that[of nxt' prv'] family_unlink[OF f s k] u ring_next[OF u(2)] by auto
  qed
  have "p \<notin> mem j" if "j \<noteq> k" for j
    using s k that unfolding separate_def by (metis disjoint_iff)
  then have "mem(k := mem k - {p}) = (\<lambda>j. mem j - {p})" by (intro ext) auto
  moreover have "nxt' q = None \<longleftrightarrow> nxt q = None" if "q \<noteq> p" for q
  proof (cases "q \<in> insert (head k) (mem k)")
    case True
    then have "nxt' q \<noteq> None" using a(4) family_member(2)[OF a(2), of q k] that by auto
    moreover have "nxt q \<noteq> None" using True family_member(1)[OF f k] family_member(2)[OF f, of q k] by auto
    ultimately show ?thesis by blast
  next
    case False
    then show ?thesis using a(3) by auto
  qed
  ultimately show ?thesis using that[OF a(1)] a(2) by simp
qed

text \<open>A head is opened, and an empty one closed again.\<close>

lemma family_open:
  assumes f: "ring_family head mem nxt prv" and s: "separate head mem" and e: "mem k = {}"
  shows "ring_family head mem (nxt(head k := Some (head k))) (prv(head k := Some (head k)))"
proof -
  have "ring_family head (mem(k := set [])) (nxt(head k := Some (head k))) (prv(head k := Some (head k)))"
    by (rule family_update[OF f s, of _ _ _ _ "{}"]) (auto intro: ring_empty)
  moreover have "mem(k := set []) = mem" by (rule fun_upd_idem) (simp add: e)
  ultimately show ?thesis by (simp del: fun_upd_apply)
qed

lemma family_close:
  assumes f: "ring_family head mem nxt prv" and s: "separate head mem" and e: "mem k = {}"
  shows "ring_family head mem (nxt(head k := None)) (prv(head k := None))"
proof -
  let ?n = "nxt(head k := None)" and ?v = "prv(head k := None)"
  have "if ?n (head j) = None then ?v (head j) = None \<and> mem j = {} else \<exists>xs. ring ?n ?v (head j) xs \<and> set xs = mem j" for j
  proof (cases "j = k \<or> nxt (head j) = None")
    case True
    then show ?thesis using e family_closed[OF f, of j] by auto
  next
    case False
    then obtain xs where r: "ring nxt prv (head j) xs" "set xs = mem j" using family_ring[OF f] by blast
    have "ring ?n ?v (head j) xs"
      by (rule ring_frame[OF r(1)]) (use r(2) s False heads_distinct[of k j] in \<open>auto simp: separate_def\<close>)
    then show ?thesis using r(2) False heads_distinct[of k j] by auto
  qed
  then show ?thesis unfolding ring_family_def by blast
qed

text \<open>Fields of pointers outside of the rings do not matter.\<close>

lemma family_frame:
  assumes f: "ring_family head mem nxt prv"
    and frame: "\<And>q k. q = head k \<or> q \<in> mem k \<Longrightarrow> nxt' q = nxt q \<and> prv' q = prv q"
  shows "ring_family head mem nxt' prv'"
proof -
  have "if nxt' (head j) = None then prv' (head j) = None \<and> mem j = {} else \<exists>xs. ring nxt' prv' (head j) xs \<and> set xs = mem j" for j
  proof (cases "nxt (head j) = None")
    case True
    then show ?thesis using family_closed[OF f, of j] frame[of "head j" j] by simp
  next
    case False
    then obtain xs where r: "ring nxt prv (head j) xs" "set xs = mem j" using family_ring[OF f] by blast
    have "ring nxt' prv' (head j) xs" by (rule ring_frame[OF r(1)]) (use r(2) frame in auto)
    then show ?thesis using r(2) False frame[of "head j" j] by auto
  qed
  then show ?thesis unfolding ring_family_def by blast
qed

end

section \<open>Chains\<close>

fun chain :: "'p field \<Rightarrow> 'p option \<Rightarrow> 'p list \<Rightarrow> bool" where
  "chain f s [] \<longleftrightarrow> s = None"
| "chain f s (x # xs) \<longleftrightarrow> s = Some x \<and> chain f (f x) xs"

lemma chain_frame: "\<lbrakk>chain f s xs; \<And>q. q \<in> set xs \<Longrightarrow> g q = f q\<rbrakk> \<Longrightarrow> chain g s xs"
  by (induction xs arbitrary: s) auto

lemma chain_unique: "\<lbrakk>chain f s xs; chain f s ys\<rbrakk> \<Longrightarrow> xs = ys"
  by (induction xs arbitrary: s ys; case_tac ys) auto


text \<open>A structure is taken out of a chain, by the link that points to it.\<close>

lemma chain_distinct: "chain f s xs \<Longrightarrow> distinct xs"
proof (induction xs arbitrary: s)
  case (Cons x xs)
  have "x \<notin> set xs"
  proof
    assume "x \<in> set xs"
    then obtain ys zs where xs: "xs = ys @ x # zs" by (meson split_list)
    have suffix: "chain f s (us @ x # vs) \<Longrightarrow> chain f (f x) vs" for s us vs
      by (induction us arbitrary: s) auto
    have c: "chain f (f x) (ys @ x # zs)" using Cons.prems xs by simp
    have "chain f (f x) zs" using suffix[OF c] .
    then have "ys @ x # zs = zs" using c chain_unique by blast
    then show False using arg_cong[of "ys @ x # zs" zs length] by simp
  qed
  then show ?case using Cons by auto
qed simp

lemma chain_suffix: "chain f s (ys @ p # zs) \<Longrightarrow> chain f (f p) zs"
  by (induction ys arbitrary: s) auto

lemma chain_remove_first: "chain f s (p # zs) \<Longrightarrow> chain (f(p := None)) (f p) zs"
  using chain_distinct[of f s "p # zs"] by (auto intro: chain_frame)

lemma chain_remove:
  assumes c: "chain f s (ys @ p # zs)" and ys: "ys \<noteq> []"
  shows "chain (f(last ys := f p, p := None)) s (ys @ zs)"
  using assms
proof (induction ys arbitrary: s)
  case (Cons y ys)
  have d: "distinct ((y # ys) @ p # zs)" by (rule chain_distinct[OF Cons.prems(1)])
  show ?case
  proof (cases "ys = []")
    case True
    have c: "chain f (f p) zs" using chain_suffix[OF Cons.prems(1)] .
    have "chain (f(y := f p, p := None)) (f p) zs" by (rule chain_frame[OF c]) (use d True in auto)
    moreover have "y \<noteq> p" "s = Some y" using Cons.prems(1) d True by auto
    ultimately show ?thesis using True by (simp del: fun_upd_apply add: fun_upd_other fun_upd_same)
  next
    case False
    have "chain (f(last ys := f p, p := None)) (f y) (ys @ zs)"
      by (rule Cons.IH) (use Cons.prems False in auto)
    moreover have "y \<noteq> last ys" "y \<noteq> p" using d False last_in_set[OF False] by auto
    ultimately show ?thesis using Cons.prems(1) False by (simp del: fun_upd_apply add: fun_upd_other)
  qed
qed simp

end
