(* ===== verification/Ext_Conns.thy ===== *)
theory Ext_Conns
  imports Linked_Rings RPC_Data
begin

text \<open>
  The table of external connections of \<open>mtproto/mtproto-proxy.c\<close>: for every client whose queries are
  forwarded there is a \<open>struct ext_connection\<close>, which says to which middle-end connection they go and
  under which number.  The structures lie on a heap, a field is a function of the pointer: they are
  found through a hash table by client, through an array by number, and stand in three rings
  (per client, per middle-end connection, and by time of use).

  A failed assertion, a null pointer followed and a loop that does not end are \<open>None\<close>.  The
  functions run in one thread (\<open>check_engine_class\<close> tests it), so a call is one step.
\<close>

type_synonym u64 = "64 word"

section \<open>The heap of external connections\<close>

text \<open>\<open>ExtConnectionHead[fd]\<close>, \<open>ConnLRU\<close> and the structures that \<open>calloc\<close> returns.\<close>

datatype ext_ptr = Conn_Head int | LRU_Head | Ext_Cell nat

text \<open>
  \<open>cells\<close> are the structures in use and \<open>lrand\<close> the numbers that \<open>lrand48\<close> will return; \<open>out_ref\<close> and
  \<open>out_id\<close> are the two fields of \<open>OutExtConnections\<close>, \<open>in_hash\<close> is \<open>InExtConnectionHash\<close>.
\<close>

record ext_table =
  o_prev :: "ext_ptr field"
  o_next :: "ext_ptr field"
  i_prev :: "ext_ptr field"
  i_next :: "ext_ptr field"
  h_next :: "ext_ptr field"
  in_fd :: "ext_ptr \<Rightarrow> int"
  in_gen :: "ext_ptr \<Rightarrow> int"
  out_fd :: "ext_ptr \<Rightarrow> int"
  out_gen :: "ext_ptr \<Rightarrow> int"
  in_conn_id :: "ext_ptr \<Rightarrow> u64"
  out_conn_id :: "ext_ptr \<Rightarrow> u64"
  auth_key_id :: "ext_ptr \<Rightarrow> u64"
  lru_prev :: "ext_ptr field"
  lru_next :: "ext_ptr field"
  out_ref :: "int \<Rightarrow> ext_ptr option"
  out_id :: "int \<Rightarrow> u64"
  in_hash :: "int \<Rightarrow> ext_ptr option"
  cells :: "nat list"
  ext_connections :: int
  ext_connections_created :: int
  lrand :: "nat \<Rightarrow> int"

definition EXT_CONN_TABLE_SIZE :: int where "EXT_CONN_TABLE_SIZE = 4194304"
definition EXT_CONN_HASH_SHIFT :: nat where "EXT_CONN_HASH_SHIFT = 20"
definition MAX_CONNECTIONS :: int where "MAX_CONNECTIONS = 65536"

definition valid_fd :: "int \<Rightarrow> bool" where
  "valid_fd fd \<longleftrightarrow> 0 \<le> fd \<and> fd < MAX_CONNECTIONS"

text \<open>The static data: only the ring of \<open>ConnLRU\<close> is closed.\<close>

definition empty_ext_table :: "(nat \<Rightarrow> int) \<Rightarrow> ext_table" where
  "empty_ext_table r = \<lparr>o_prev = (\<lambda>_. None), o_next = (\<lambda>_. None), i_prev = (\<lambda>_. None), i_next = (\<lambda>_. None),
     h_next = (\<lambda>_. None), in_fd = (\<lambda>_. 0), in_gen = (\<lambda>_. 0), out_fd = (\<lambda>_. 0), out_gen = (\<lambda>_. 0),
     in_conn_id = (\<lambda>_. 0), out_conn_id = (\<lambda>_. 0), auth_key_id = (\<lambda>_. 0),
     lru_prev = (\<lambda>_. None)(LRU_Head := Some LRU_Head), lru_next = (\<lambda>_. None)(LRU_Head := Some LRU_Head),
     out_ref = (\<lambda>_. None), out_id = (\<lambda>_. 0), in_hash = (\<lambda>_. None),
     cells = [], ext_connections = 0, ext_connections_created = 0, lrand = r\<rparr>"

definition assert_c :: "bool \<Rightarrow> unit option" where
  "assert_c b = (if b then Some () else None)"

lemma assert_c_simps [simp]: "assert_c True = Some ()" "assert_c False = None"
  by (simp_all add: assert_c_def)

lemma bind_assert_c: "Option.bind (assert_c b) f = Some r \<longleftrightarrow> b \<and> f () = Some r"
  by (simp add: assert_c_def)

text \<open>\<open>calloc\<close> returns a cell that is not in use, with all its fields zero.\<close>

definition new_cell :: "nat list \<Rightarrow> nat" where
  "new_cell l = hd (filter (\<lambda>n. n \<notin> set l) [0..<Suc (length l)])"

definition zero_cell :: "ext_ptr \<Rightarrow> ext_table \<Rightarrow> ext_table" where
  "zero_cell p T = T\<lparr>o_prev := (o_prev T)(p := None), o_next := (o_next T)(p := None),
     i_prev := (i_prev T)(p := None), i_next := (i_next T)(p := None), h_next := (h_next T)(p := None),
     in_fd := (in_fd T)(p := 0), in_gen := (in_gen T)(p := 0), out_fd := (out_fd T)(p := 0), out_gen := (out_gen T)(p := 0),
     in_conn_id := (in_conn_id T)(p := 0), out_conn_id := (out_conn_id T)(p := 0), auth_key_id := (auth_key_id T)(p := 0),
     lru_prev := (lru_prev T)(p := None), lru_next := (lru_next T)(p := None)\<rparr>"

section \<open>Finding and deleting\<close>

definition ext_conn_hash :: "int \<Rightarrow> u64 \<Rightarrow> int" where
  "ext_conn_hash fd cid =
     uint (drop_bit (64 - EXT_CONN_HASH_SHIFT) (word_of_int fd * 11400714819323198485 + cid * 13043817825332782213 :: u64))"

definition ext_slot :: "u64 \<Rightarrow> int" where
  "ext_slot oid = uint oid AND (EXT_CONN_TABLE_SIZE - 1)"

definition get_ext_connection_by_in_fd :: "int \<Rightarrow> ext_table \<Rightarrow> ext_ptr option option" where
  "get_ext_connection_by_in_fd fd T = do {
     assert_c (valid_fd fd);
     assert_c (i_next T (Conn_Head fd) = i_prev T (Conn_Head fd));
     (case i_next T (Conn_Head fd) of
        None \<Rightarrow> Some None
      | Some p \<Rightarrow> if p = Conn_Head fd then Some None else do { assert_c (in_fd T p = fd); Some (Some p) }) }"

text \<open>The pointer \<open>prev\<close> of the search points to the bucket or to the field \<open>h_next\<close> of a structure.\<close>

datatype hash_link = Bucket int | Link ext_ptr

definition deref :: "hash_link \<Rightarrow> ext_table \<Rightarrow> ext_ptr option" where
  "deref l T = (case l of Bucket b \<Rightarrow> in_hash T b | Link p \<Rightarrow> h_next T p)"

definition store_link :: "hash_link \<Rightarrow> ext_ptr option \<Rightarrow> ext_table \<Rightarrow> ext_table" where
  "store_link l v T = (case l of
     Bucket b \<Rightarrow> T\<lparr>in_hash := (in_hash T)(b := v)\<rparr>
   | Link p \<Rightarrow> T\<lparr>h_next := (h_next T)(p := v)\<rparr>)"

partial_function (option) hash_search :: "int \<Rightarrow> u64 \<Rightarrow> hash_link \<Rightarrow> ext_table \<Rightarrow> (hash_link \<times> ext_ptr option) option" where
  "hash_search fd cid l T =
     (case deref l T of
        None \<Rightarrow> Some (l, None)
      | Some p \<Rightarrow> if in_fd T p = fd \<and> in_conn_id T p = cid then Some (l, Some p) else hash_search fd cid (Link p) T)"

declare hash_search.simps [code]

definition i_unlink :: "ext_ptr \<Rightarrow> ext_table \<Rightarrow> ext_table option" where
  "i_unlink p T = map_option (\<lambda>(n, v). T\<lparr>i_next := n, i_prev := v\<rparr>) (ring_unlink p (i_next T, i_prev T))"

definition o_unlink :: "ext_ptr \<Rightarrow> ext_table \<Rightarrow> ext_table option" where
  "o_unlink p T = map_option (\<lambda>(n, v). T\<lparr>o_next := n, o_prev := v\<rparr>) (ring_unlink p (o_next T, o_prev T))"

text \<open>The field \<open>lru_prev\<close> is zeroed even when the structure is in no ring.\<close>

definition lru_delete_ext_conn :: "ext_ptr \<Rightarrow> ext_table \<Rightarrow> ext_table option" where
  "lru_delete_ext_conn p T =
     map_option (\<lambda>(n, v). T\<lparr>lru_next := n(p := None), lru_prev := v(p := None)\<rparr>) (ring_unlink p (lru_next T, lru_prev T))"

definition lru_insert_ext_conn :: "ext_ptr \<Rightarrow> ext_table \<Rightarrow> ext_table option" where
  "lru_insert_ext_conn p T = do {
     T \<leftarrow> lru_delete_ext_conn p T;
     map_option (\<lambda>(n, v). T\<lparr>lru_next := n, lru_prev := v\<rparr>) (ring_append LRU_Head p (lru_next T, lru_prev T)) }"

definition free_ext :: "hash_link \<Rightarrow> ext_ptr \<Rightarrow> ext_table \<Rightarrow> ext_table option" where
  "free_ext l p T = do {
     T \<leftarrow> i_unlink p T;
     T \<leftarrow> o_unlink p T;
     T \<leftarrow> lru_delete_ext_conn p T;
     let T = store_link l (h_next T p) T;
     let T = T\<lparr>h_next := (h_next T)(p := None)\<rparr>;
     let s = ext_slot (out_conn_id T p);
     assert_c (out_ref T s = Some p);
     assert_c (out_id T s = out_conn_id T p);
     let T = zero_cell p (T\<lparr>out_ref := (out_ref T)(s := None)\<rparr>);
     Some (T\<lparr>cells := (case p of Ext_Cell n \<Rightarrow> remove1 n (cells T) | _ \<Rightarrow> cells T), ext_connections := ext_connections T - 1\<rparr>) }"

section \<open>Creating\<close>

text \<open>A free entry of the array: the first try is given, the next ones are drawn.\<close>

partial_function (option) pick_slot :: "(int \<Rightarrow> ext_ptr option) \<Rightarrow> int \<Rightarrow> (nat \<Rightarrow> int) \<Rightarrow> (int \<times> (nat \<Rightarrow> int)) option" where
  "pick_slot ref h r =
     (let h = h AND (EXT_CONN_TABLE_SIZE - 1) in
      if ref h = None then Some (h, r) else pick_slot ref (r 0) (\<lambda>n. r (Suc n)))"

declare pick_slot.simps [code]

text \<open>The number under which the middle-end knows the client: the entry's last one, its low bits carried over, plus the entry.\<close>

definition next_conn_id :: "u64 \<Rightarrow> int \<Rightarrow> u64" where
  "next_conn_id old h = (old OR word_of_int (EXT_CONN_TABLE_SIZE - 1)) + 1 + word_of_int h"

definition i_insert :: "ext_ptr \<Rightarrow> int \<Rightarrow> ext_table \<Rightarrow> ext_table option" where
  "i_insert p fd T =
     (let h = Conn_Head fd;
          T = (if i_next T h = None then T\<lparr>i_next := (i_next T)(h := Some h), i_prev := (i_prev T)(h := Some h)\<rparr> else T) in
      do {
        assert_c (i_next T h = Some h);
        map_option (\<lambda>(n, v). T\<lparr>i_next := n, i_prev := v\<rparr>) (ring_append h p (i_next T, i_prev T)) })"

definition new_ext :: "int \<Rightarrow> int \<Rightarrow> u64 \<Rightarrow> int \<Rightarrow> ext_table \<Rightarrow> (ext_ptr \<times> ext_table) option" where
  "new_ext fd gen cid b T = do {
     assert_c (ext_connections T < EXT_CONN_TABLE_SIZE div 2);
     let n = new_cell (cells T);
     let p = Ext_Cell n;
     let T = zero_cell p (T\<lparr>cells := n # cells T\<rparr>);
     let T = T\<lparr>h_next := (h_next T)(p := in_hash T b), in_hash := (in_hash T)(b := Some p),
               in_fd := (in_fd T)(p := fd), in_gen := (in_gen T)(p := gen), in_conn_id := (in_conn_id T)(p := cid)\<rparr>;
     assert_c (valid_fd fd);
     T \<leftarrow> (if fd \<noteq> 0 then i_insert p fd T else Some T);
     (h, r) \<leftarrow> (if cid \<noteq> 0 then pick_slot (out_ref T) (lrand T 0) (\<lambda>k. lrand T (Suc k)) else pick_slot (out_ref T) fd (lrand T));
     let oid = next_conn_id (out_id T h) h;
     let T = T\<lparr>lrand := r, out_ref := (out_ref T)(h := Some p), out_id := (out_id T)(h := oid), out_conn_id := (out_conn_id T)(p := oid)\<rparr>;
     assert_c (out_conn_id T p \<noteq> 0);
     Some (p, T\<lparr>ext_connections := ext_connections T + 1, ext_connections_created := ext_connections_created T + 1\<rparr>) }"

text \<open>The results of \<open>get_ext_connection_by_in_conn_id\<close>: the null pointer, \<open>-1\<close>, or a structure.\<close>

datatype ext_answer = No_Ext | Deleted | Ext ext_ptr

definition get_ext_connection_by_in_conn_id :: "int \<Rightarrow> int \<Rightarrow> u64 \<Rightarrow> int \<Rightarrow> ext_table \<Rightarrow> (ext_answer \<times> ext_table) option" where
  "get_ext_connection_by_in_conn_id fd gen cid mode T = do {
     let b = ext_conn_hash fd cid;
     (l, cur) \<leftarrow> hash_search fd cid (Bucket b) T;
     (case cur of
        Some p \<Rightarrow> do {
          assert_c (out_conn_id T p \<noteq> 0);
          (if mode = 0 \<or> mode = 3 then Some (Ext p, T)
           else if mode \<noteq> 1 then Some (No_Ext, T)
           else map_option (Pair Deleted) (free_ext l p T)) }
      | None \<Rightarrow>
          if mode \<noteq> 2 \<and> mode \<noteq> 3 then Some (No_Ext, T)
          else map_option (\<lambda>(p, T). (Ext p, T)) (new_ext fd gen cid b T)) }"

definition find_ext_connection_by_out_conn_id :: "u64 \<Rightarrow> ext_table \<Rightarrow> ext_ptr option option" where
  "find_ext_connection_by_out_conn_id oid T =
     (let h = ext_slot oid in
      case out_ref T h of
        None \<Rightarrow> Some None
      | Some p \<Rightarrow> if out_id T h \<noteq> oid then Some None else do { assert_c (out_conn_id T p = oid); Some (Some p) })"

text \<open>A connection is given by its descriptor and its generation.\<close>

definition create_ext_connection :: "int \<times> int \<Rightarrow> u64 \<Rightarrow> (int \<times> int) option \<Rightarrow> u64 \<Rightarrow> ext_table \<Rightarrow> (ext_ptr \<times> ext_table) option" where
  "create_ext_connection ci cid co key T = do {
     (ex, T) \<leftarrow> get_ext_connection_by_in_conn_id (fst ci) (snd ci) cid 2 T;
     (case ex of
        Ext p \<Rightarrow> do {
          assert_c (out_fd T p = 0 \<and> o_next T p = None \<and> auth_key_id T p = 0);
          assert_c (case co of None \<Rightarrow> True | Some c \<Rightarrow> valid_fd (fst c));
          assert_c (co \<noteq> Some ci);
          T \<leftarrow> (case co of
                 None \<Rightarrow> Some T
               | Some c \<Rightarrow> do {
                   assert_c (o_next T (Conn_Head (fst c)) \<noteq> None);
                   (n, v) \<leftarrow> ring_append (Conn_Head (fst c)) p (o_next T, o_prev T);
                   Some (T\<lparr>o_next := n, o_prev := v, out_fd := (out_fd T)(p := fst c), out_gen := (out_gen T)(p := snd c)\<rparr>) });
          Some (p, T\<lparr>auth_key_id := (auth_key_id T)(p := key)\<rparr>) }
      | _ \<Rightarrow> None) }"

section \<open>Removing with notifications\<close>

text \<open>
  What a handler does to the connection of a descriptor and a generation: a message that is passed to
  \<open>tcp_rpc_conn_send\<close>, bytes put into the output queue as they are, and \<open>fail_connection\<close> with its error.
\<close>

datatype proxy_effect = Send int int "byte list" | Push int int "byte list" | Fail int int int

definition RPC_PROXY_REQ :: u32 where "RPC_PROXY_REQ = 0x36cef1ee"
definition RPC_PROXY_ANS :: u32 where "RPC_PROXY_ANS = 0x4403da0d"
definition RPC_CLOSE_CONN :: u32 where "RPC_CLOSE_CONN = 0x1fcf425d"
definition RPC_CLOSE_EXT :: u32 where "RPC_CLOSE_EXT = 0x5eb634a2"
definition RPC_SIMPLE_ACK :: u32 where "RPC_SIMPLE_ACK = 0x3bac409b"

definition bytes64 :: "u64 \<Rightarrow> byte list" where
  "bytes64 x = bytes_le (ucast x) @ bytes_le (ucast (drop_bit 32 x))"

definition notify_remote_closed :: "int \<times> int \<Rightarrow> u64 \<Rightarrow> proxy_effect" where
  "notify_remote_closed c oid = Send (fst c) (snd c) (bytes_le RPC_CLOSE_CONN @ bytes64 oid)"

text \<open>\<open>alive fd gen\<close> says that \<open>connection_get_by_fd_generation\<close> finds the connection.\<close>

definition remove_ext_connection :: "(int \<Rightarrow> int \<Rightarrow> bool) \<Rightarrow> ext_ptr \<Rightarrow> int \<Rightarrow> ext_table \<Rightarrow> (proxy_effect list \<times> ext_table) option" where
  "remove_ext_connection alive p notifications T = do {
     assert_c (out_conn_id T p \<noteq> 0);
     found \<leftarrow> find_ext_connection_by_out_conn_id (out_conn_id T p) T;
     assert_c (found = Some p);
     e1 \<leftarrow> (if out_fd T p \<noteq> 0 then do {
              assert_c (valid_fd (out_fd T p));
              assert_c (o_next T p \<noteq> None);
              Some (if notifications AND 1 \<noteq> 0 \<and> alive (out_fd T p) (out_gen T p)
                    then [notify_remote_closed (out_fd T p, out_gen T p) (out_conn_id T p)] else []) }
            else Some []);
     e2 \<leftarrow> (if in_fd T p \<noteq> 0 then do {
              assert_c (valid_fd (in_fd T p));
              assert_c (i_next T p \<noteq> None);
              (if notifications AND 2 \<noteq> 0 then do {
                 assert_c (in_conn_id T p = 0);
                 Some (if alive (in_fd T p) (in_gen T p) then [Fail (in_fd T p) (in_gen T p) (-33)] else []) }
               else Some []) }
            else Some []);
     (res, T) \<leftarrow> get_ext_connection_by_in_conn_id (in_fd T p) (in_gen T p) (in_conn_id T p) 1 T;
     assert_c (res = Deleted);
     Some (e1 @ e2, T) }"

end
