(* ===== verification/Mtproto_Config.thy ===== *)
theory Mtproto_Config
  imports MT_Prelude Complex_Main
begin

text \<open>
  The configuration of the proxy: the lexer of \<open>common/parse-config.c\<close>, and the parser of
  \<open>mtproto/mtproto-config.c\<close>, which reads the file twice, first for its syntax, then to fill the
  configuration.  The text is what is left from \<open>cfg_cur\<close> on, the end of the buffer or a zero byte ends it.
  A failed parse is \<open>Inl\<close> with the message given to \<open>syntax\<close>; the line number and the excerpt that
  \<open>syntax\<close> prints with it are left out.  The name resolver is a parameter.
\<close>

section \<open>The lexer\<close>

text \<open>\<open>*cfg_cur\<close>.\<close>

definition cur :: "string \<Rightarrow> char" where
  "cur s = (case s of [] \<Rightarrow> NUL | c # _ \<Rightarrow> c)"

text \<open>A comment ends before the line feed.\<close>

definition skip_comment :: "string \<Rightarrow> string" where
  "skip_comment s = dropWhile (\<lambda>c. c \<noteq> NUL \<and> c \<noteq> LF) s"

lemma skip_comment_length: "length (skip_comment s) \<le> length s"
  unfolding skip_comment_def by (rule length_dropWhile_le)

function cfg_skipspc :: "string \<Rightarrow> string" where
  "cfg_skipspc [] = []"
| "cfg_skipspc (c # cs) =
     (if c = CHR '' '' \<or> c = TAB \<or> c = CR \<or> c = LF then cfg_skipspc cs
      else if c = CHR ''#'' then cfg_skipspc (skip_comment cs)
      else c # cs)"
  by pat_completeness auto
termination
  by (relation "measure length") (auto simp: skip_comment_length less_Suc_eq_le)

definition cfg_skspc :: "string \<Rightarrow> string" where
  "cfg_skspc s = dropWhile (\<lambda>c. c = CHR '' '' \<or> c = TAB) s"

datatype lexeme = Lex char | Lex_End | Lex_Bad

definition is_prefix :: "string \<Rightarrow> string \<Rightarrow> bool" where
  "is_prefix w s \<longleftrightarrow> take (length w) s = w"

definition cfg_getlex_ext :: "string \<Rightarrow> lexeme \<times> string" where
  "cfg_getlex_ext s =
     (let s = cfg_skipspc s; c = cur s in
      if c = CHR '';'' \<or> c = CHR '':'' \<or> c = CHR ''{'' \<or> c = CHR ''}'' then (Lex c, tl s)
      else if is_prefix ''min_connections'' s then (Lex CHR ''x'', drop 15 s)
      else if is_prefix ''max_connections'' s then (Lex CHR ''X'', drop 15 s)
      else if is_prefix ''proxy_for'' s then (Lex CHR ''Y'', drop 9 s)
      else if is_prefix ''proxy'' s then (Lex CHR ''y'', drop 5 s)
      else if is_prefix ''timeout'' s then (Lex CHR ''t'', drop 7 s)
      else if is_prefix ''default'' s then (Lex CHR ''D'', drop 7 s)
      else if c = NUL then (Lex_End, s)
      else (Lex_Bad, s))"

definition word_char :: "char \<Rightarrow> bool" where
  "word_char c \<longleftrightarrow> c_isalnum c \<or> c = CHR ''.'' \<or> c = CHR ''-'' \<or> c = CHR ''_''"

text \<open>The word, and what follows it; an address in brackets may hold colons.\<close>

definition cfg_getword :: "string \<Rightarrow> string \<times> string" where
  "cfg_getword s =
     (let s = cfg_skspc s in
      if cur s \<noteq> CHR ''['' then (takeWhile word_char s, dropWhile word_char s)
      else let w = takeWhile (\<lambda>c. word_char c \<or> c = CHR '':'') (tl s); r = dropWhile (\<lambda>c. word_char c \<or> c = CHR '':'') (tl s) in
           if cur r = CHR '']'' then (CHR ''['' # w @ '']'', tl r) else (CHR ''['' # w, r))"

text \<open>The sums are done in \<open>long long\<close>.\<close>

definition cfg_getint :: "string \<Rightarrow> int \<times> string" where
  "cfg_getint s = (let (x, r) = read_digits 0 (cfg_skspc s) in (i64 x, r))"

definition cfg_getint_signed_zero :: "string \<Rightarrow> int \<times> string" where
  "cfg_getint_signed_zero s =
     (let s = cfg_skspc s; neg = (cur s = CHR ''-''); ds = (if neg then tl s else s); (x, r) = read_digits 0 ds in
      if r = ds then (- (2 ^ 63), s) else (i64 (if neg then - x else x), r))"

text \<open>\<open>expect_lexem\<close>, after the next lexeme is read.\<close>

definition expect_lexem :: "char \<Rightarrow> lexeme \<Rightarrow> string + unit" where
  "expect_lexem c l = (if l = Lex c then Inr () else Inl (c # '' expected''))"

section \<open>The configuration\<close>

text \<open>An address as \<open>gethostbyname\<close> gives it: of IPv4, of IPv6, or of another family.\<close>

datatype host_addr = Addr_IPv4 "byte list" | Addr_IPv6 "byte list" | Addr_Other

text \<open>What \<open>default_cfg_ct\<close> holds when the target is created; the random reconnect time is left out.\<close>

record cfg_target =
  ct_addr :: host_addr
  ct_port :: int
  ct_min_connections :: int
  ct_max_connections :: int

text \<open>\<open>cluster_targets\<close> points into the array of targets: it is the index of the first one.\<close>

record mf_cluster =
  cluster_id :: int
  cluster_targets :: nat
  targets_num :: nat
  write_targets_num :: nat
  cluster_flags :: int

record mf_config =
  tot_targets :: nat
  auth_clusters :: nat
  default_cluster_id :: int
  min_connections :: int
  max_connections :: int
  timeout :: rat
  have_proxy :: bool
  tot_clusters :: int
  default_cluster :: "nat option"
  targets :: "nat \<Rightarrow> cfg_target option"
  auth_cluster :: "nat \<Rightarrow> mf_cluster"

definition MAX_CFG_CLUSTERS :: nat where "MAX_CFG_CLUSTERS = 1024"
definition MAX_CFG_TARGETS :: nat where "MAX_CFG_TARGETS = 4096"

definition mf_cluster_lookup :: "mf_config \<Rightarrow> int \<Rightarrow> bool \<Rightarrow> nat option" where
  "mf_cluster_lookup MC cid force =
     (case find (\<lambda>i. cluster_id (auth_cluster MC i) = cid) [0..<auth_clusters MC] of
        Some i \<Rightarrow> Some i
      | None \<Rightarrow> if force then default_cluster MC else None)"

definition set_cluster :: "nat \<Rightarrow> mf_cluster \<Rightarrow> mf_config \<Rightarrow> mf_config" where
  "set_cluster i K MC = MC\<lparr>auth_cluster := (auth_cluster MC)(i := K)\<rparr>"

definition init_old_mf_cluster :: "nat \<Rightarrow> nat \<Rightarrow> nat \<Rightarrow> int \<Rightarrow> int \<Rightarrow> mf_config \<Rightarrow> mf_config" where
  "init_old_mf_cluster i first num flags cid MC =
     (set_cluster i \<lparr>cluster_id = cid, cluster_targets = first, targets_num = num, write_targets_num = num, cluster_flags = flags\<rparr> MC)
     \<lparr>tot_clusters := tot_clusters MC + 1\<rparr>"

text \<open>\<open>None\<close> is the result 0.\<close>

definition extend_old_mf_cluster :: "nat \<Rightarrow> nat \<Rightarrow> int \<Rightarrow> mf_config \<Rightarrow> mf_config option" where
  "extend_old_mf_cluster i target cid MC =
     (let K = auth_cluster MC i in
      if cluster_targets K + targets_num K \<noteq> target then None
      else if cluster_id K \<noteq> cid then None
      else Some (set_cluster i (K\<lparr>write_targets_num := targets_num K + 1, targets_num := targets_num K + 1\<rparr>) MC))"

definition preinit_config :: "int \<Rightarrow> int \<Rightarrow> mf_config \<Rightarrow> mf_config" where
  "preinit_config dmin dmax MC = MC\<lparr>tot_targets := 0, auth_clusters := 0, min_connections := dmin, max_connections := dmax,
     timeout := 3 / 10, default_cluster_id := 0, default_cluster := None\<rparr>"

definition clear_mf_cluster :: "nat \<Rightarrow> mf_config \<Rightarrow> mf_config" where
  "clear_mf_cluster i MC =
     (set_cluster i ((auth_cluster MC i)\<lparr>cluster_targets := 0, targets_num := 0, write_targets_num := 0, cluster_flags := 0\<rparr>) MC)
     \<lparr>tot_clusters := tot_clusters MC - 1\<rparr>"

definition clear_config :: "mf_config \<Rightarrow> bool \<Rightarrow> mf_config" where
  "clear_config MC destroy =
     (let MC = (if destroy then MC\<lparr>targets := (\<lambda>i. if i < tot_targets MC then None else targets MC i)\<rparr> else MC);
          MC = fold clear_mf_cluster [0..<auth_clusters MC] MC
      in MC\<lparr>tot_targets := 0, auth_clusters := 0, tot_clusters := 0\<rparr>)"

section \<open>The parser\<close>

definition cfg_gethost :: "(string \<Rightarrow> host_addr option) \<Rightarrow> string \<Rightarrow> string + (host_addr \<times> string)" where
  "cfg_gethost resolve s =
     (let (w, r) = cfg_getword s in
      if length w = 0 \<or> length w > 63 then Inl ''hostname expected''
      else case resolve w of None \<Rightarrow> Inl ''cannot resolve'' | Some a \<Rightarrow> Inr (a, r))"

text \<open>
  The result is the index of the target; the port is stored as an \<open>int\<close>.  A target is the record of what
  \<open>create_target\<close> is given.  When there is a target with that address and port already,
  \<open>create_target\<close> returns it and stores these limits in it, so that two directives with one address share
  the limits of the later one; each index has the address, port and a pair of limits that were in force
  for a directive naming it, in both accounts.
\<close>

definition cfg_parse_server_port :: "(string \<Rightarrow> host_addr option) \<Rightarrow> bool \<Rightarrow> mf_config \<Rightarrow> string \<Rightarrow> string + (nat \<times> mf_config \<times> string)" where
  "cfg_parse_server_port resolve create MC s =
     (if tot_targets MC \<ge> MAX_CFG_TARGETS then Inl ''too many targets''
      else case cfg_gethost resolve s of
        Inl e \<Rightarrow> Inl e
      | Inr (a, s) \<Rightarrow>
          if a = Addr_Other then Inl ''cannot resolve hostname''
          else let (l, s) = cfg_getlex_ext s in
          case expect_lexem CHR '':'' l of
            Inl e \<Rightarrow> Inl e
          | Inr _ \<Rightarrow>
              let (x, s) = cfg_getint s; port = i32 x in
              if port = 0 then Inl ''port number expected''
              else if port \<le> 0 \<or> port \<ge> 65536 then Inl ''port number out of range''
              else let ct = \<lparr>ct_addr = a, ct_port = port, ct_min_connections = min_connections MC, ct_max_connections = max_connections MC\<rparr>;
                       i = tot_targets MC;
                       MC = (if create then MC\<lparr>targets := (targets MC)(i := Some ct)\<rparr> else MC)
                   in Inr (i, MC\<lparr>tot_targets := i + 1\<rparr>, s))"

text \<open>The directive \<open>proxy\<close> for a data centre.\<close>

definition parse_proxy :: "(string \<Rightarrow> host_addr option) \<Rightarrow> bool \<Rightarrow> int \<Rightarrow> mf_config \<Rightarrow> string \<Rightarrow> string + (mf_config \<times> string)" where
  "parse_proxy resolve create dc MC s =
     (if auth_clusters MC \<ge> MAX_CFG_CLUSTERS then Inl ''too many auth clusters''
      else case cfg_parse_server_port resolve create MC s of
        Inl e \<Rightarrow> Inl e
      | Inr (targ, MC, s) \<Rightarrow>
          (let n = auth_clusters MC in
           case mf_cluster_lookup MC dc False of
             None \<Rightarrow>
               let MC = (if create then init_old_mf_cluster n targ 1 1 dc MC
                         else set_cluster n ((auth_cluster MC n)\<lparr>cluster_id := dc\<rparr>) MC)
               in Inr (MC\<lparr>auth_clusters := n + 1\<rparr>, s)
           | Some i \<Rightarrow>
               if i = n - 1 then
                 (if create then case extend_old_mf_cluster i targ dc MC of None \<Rightarrow> Inl ''IMPOSSIBLE'' | Some MC \<Rightarrow> Inr (MC, s)
                  else Inr (MC, s))
               else Inl ''proxies intermixed''))"

definition parse_directive :: "(string \<Rightarrow> host_addr option) \<Rightarrow> bool \<Rightarrow> lexeme \<Rightarrow> bool \<Rightarrow> mf_config \<Rightarrow> string \<Rightarrow> string + (bool \<times> mf_config \<times> string)" where
  "parse_directive resolve create t hp MC s =
     (if t = Lex CHR ''t'' then
        let (x, s) = cfg_getint s in
        if x < 10 \<or> x > 30000 then Inl ''invalid timeout'' else Inr (hp, MC\<lparr>timeout := of_int x / 1000\<rparr>, s)
      else if t = Lex CHR ''D'' \<or> t = Lex CHR ''Y'' then
        let (dc, s) = cfg_getint_signed_zero s in
        if dc < - 0x8000 \<or> dc \<ge> 0x8000 then Inl ''invalid target id''
        else if t = Lex CHR ''D'' then Inr (hp, MC\<lparr>default_cluster_id := dc\<rparr>, s)
        else if cur s \<noteq> CHR '' '' \<and> cur s \<noteq> TAB then Inl ''space expected after target id''
        else map_sum id (\<lambda>(MC, s). (True, MC, s)) (parse_proxy resolve create dc MC (cfg_skspc s))
      else if t = Lex CHR ''y'' then map_sum id (\<lambda>(MC, s). (True, MC, s)) (parse_proxy resolve create 0 MC s)
      else if t = Lex CHR ''X'' then
        let (x, s) = cfg_getint s; m = i32 x in
        if m < min_connections MC \<or> m > 1000 then Inl ''invalid max connections'' else Inr (hp, MC\<lparr>max_connections := m\<rparr>, s)
      else if t = Lex CHR ''x'' then
        let (x, s) = cfg_getint s; m = i32 x in
        if m < 1 \<or> m > max_connections MC then Inl ''invalid min connections'' else Inr (hp, MC\<lparr>min_connections := m\<rparr>, s)
      else Inl ''proxy <ip>:<port>; expected'')"

text \<open>One turn of the loop: a directive and its semicolon.\<close>

definition parse_turn :: "(string \<Rightarrow> host_addr option) \<Rightarrow> bool \<Rightarrow> bool \<Rightarrow> mf_config \<Rightarrow> string \<Rightarrow> string + (bool \<times> mf_config \<times> string)" where
  "parse_turn resolve create hp MC s =
     (let (t, s) = cfg_getlex_ext s in
      case parse_directive resolve create t hp MC s of
        Inl e \<Rightarrow> Inl e
      | Inr (hp, MC, s) \<Rightarrow>
          (let (l, s) = cfg_getlex_ext s in
           case expect_lexem CHR '';'' l of Inl e \<Rightarrow> Inl e | Inr _ \<Rightarrow> Inr (hp, MC, s)))"

section \<open>Termination\<close>

lemma cfg_skipspc_length: "length (cfg_skipspc s) \<le> length s"
  by (induction s rule: cfg_skipspc.induct) (auto intro: order_trans[OF _ le_SucI] skip_comment_length le_SucI order_trans)

lemma getlex_length: "cfg_getlex_ext s = (l, r) \<Longrightarrow> length r \<le> length s"
  using cfg_skipspc_length[of s] by (auto simp: cfg_getlex_ext_def Let_def split: if_splits)

lemma getlex_progress: "\<lbrakk>cfg_getlex_ext s = (Lex c, r)\<rbrakk> \<Longrightarrow> length r < length s"
proof -
  assume a: "cfg_getlex_ext s = (Lex c, r)"
  have p: "0 < length t" if "is_prefix w t" "w \<noteq> []" for w t using that by (cases t) (auto simp: is_prefix_def)
  have "cfg_skipspc s \<noteq> []"
    using a p by (auto simp: cfg_getlex_ext_def Let_def cur_def is_prefix_def split: if_splits)
  then show ?thesis
    using a cfg_skipspc_length[of s] by (cases "cfg_skipspc s") (auto simp: cfg_getlex_ext_def Let_def split: if_splits)
qed

lemma skspc_length: "length (cfg_skspc s) \<le> length s"
  unfolding cfg_skspc_def by (rule length_dropWhile_le)

lemma read_digits_length: "read_digits a s = (x, r) \<Longrightarrow> length r \<le> length s"
  by (induction a s rule: read_digits.induct) (auto split: if_splits)

lemma getint_length: "cfg_getint s = (x, r) \<Longrightarrow> length r \<le> length s"
  using skspc_length[of s] by (auto simp: cfg_getint_def split: prod.splits dest!: read_digits_length)

lemma getint_signed_length: "cfg_getint_signed_zero s = (x, r) \<Longrightarrow> length r \<le> length s"
  using skspc_length[of s]
  by (auto simp: cfg_getint_signed_zero_def Let_def split: prod.splits if_splits dest!: read_digits_length)

lemma dropWhile_lengths: "length (dropWhile P t) \<le> length t" "length (tl (dropWhile P t)) \<le> length t"
  "length (dropWhile P (tl t)) \<le> length t" "length (tl (dropWhile P (tl t))) \<le> length t"
  using length_dropWhile_le[of P t] length_dropWhile_le[of P "tl t"] by (auto intro: diff_le_self le_trans)

lemma getword_length: "cfg_getword s = (w, r) \<Longrightarrow> length r \<le> length s"
proof -
  assume a: "cfg_getword s = (w, r)"
  have "length r \<le> length (cfg_skspc s)"
    using a by (auto simp only: cfg_getword_def Let_def prod.inject dropWhile_lengths split: if_splits)
  then show ?thesis using skspc_length[of s] by simp
qed

lemma parse_server_port_length:
  assumes "cfg_parse_server_port rv cr MC s = Inr (i, MC', r)"
  shows "length r \<le> length s"
proof -
  obtain a s1 where h: "cfg_gethost rv s = Inr (a, s1)"
    using assms unfolding cfg_parse_server_port_def by (auto split: if_splits sum.splits)
  have 1: "length s1 \<le> length s"
    using h unfolding cfg_gethost_def by (auto split: prod.splits if_splits option.splits dest: getword_length)
  obtain l s2 where 2: "cfg_getlex_ext s1 = (l, s2)" by force
  obtain x s3 where 3: "cfg_getint s2 = (x, s3)" by force
  have "r = s3"
    using assms h 2 3 unfolding cfg_parse_server_port_def by (auto simp: Let_def split: if_splits sum.splits)
  then show ?thesis using 1 getlex_length[OF 2] getint_length[OF 3] by simp
qed

lemma parse_proxy_length:
  assumes "parse_proxy rv cr dc MC s = Inr (MC', r)"
  shows "length r \<le> length s"
proof -
  obtain i M1 s1 where "cfg_parse_server_port rv cr MC s = Inr (i, M1, s1)" "r = s1"
    using assms unfolding parse_proxy_def by (auto simp: Let_def split: if_splits sum.splits option.splits)
  then show ?thesis using parse_server_port_length by blast
qed

lemma parse_directive_length:
  assumes "parse_directive rv cr t hp MC s = Inr (hp', MC', r)"
  shows "length r \<le> length s" "\<exists>c. t = Lex c"
proof -
  obtain x s1 where 1: "cfg_getint s = (x, s1)" by force
  obtain dc s2 where 2: "cfg_getint_signed_zero s = (dc, s2)" by force
  have l: "length s1 \<le> length s" "length (cfg_skspc s2) \<le> length s" "length s2 \<le> length s"
    using getint_length[OF 1] getint_signed_length[OF 2] skspc_length[of s2] by auto
  show "length r \<le> length s"
    using assms 1 2 l unfolding parse_directive_def
    by (auto simp: Let_def map_sum_def split: if_splits sum.splits dest!: parse_proxy_length)
  show "\<exists>c. t = Lex c" using assms unfolding parse_directive_def by (auto split: if_splits)
qed

lemma parse_turn_progress:
  assumes "parse_turn rv cr hp MC s = Inr (hp', MC', r)"
  shows "length r < length s"
proof -
  obtain t s1 where 1: "cfg_getlex_ext s = (t, s1)" by force
  obtain h M s2 where 2: "parse_directive rv cr t hp MC s1 = Inr (h, M, s2)"
    using assms 1 unfolding parse_turn_def by (auto split: sum.splits)
  obtain l s3 where 3: "cfg_getlex_ext s2 = (l, s3)" by force
  have "r = s3" using assms 1 2 3 unfolding parse_turn_def by (auto split: sum.splits)
  moreover have "length s1 < length s" using getlex_progress[of s] 1 parse_directive_length(2)[OF 2] by auto
  ultimately show ?thesis using parse_directive_length(1)[OF 2] getlex_length[OF 3] by simp
qed

section \<open>The file\<close>

text \<open>Every directive takes a character at least: the loop ends.\<close>

function config_loop :: "(string \<Rightarrow> host_addr option) \<Rightarrow> bool \<Rightarrow> bool \<Rightarrow> mf_config \<Rightarrow> string \<Rightarrow> string + (bool \<times> mf_config)" where
  "config_loop resolve create hp MC s =
     (let s = cfg_skipspc s in
      if cur s = NUL then Inr (hp, MC)
      else case parse_turn resolve create hp MC s of
        Inl e \<Rightarrow> Inl e
      | Inr (hp, MC, s) \<Rightarrow> config_loop resolve create hp MC s)"
  by pat_completeness auto
termination
  by (relation "measure (\<lambda>(_, _, _, _, s). length s)")
    (auto dest!: parse_turn_progress intro: less_le_trans[OF _ cfg_skipspc_length])

declare config_loop.simps [simp del]

definition parse_config :: "(string \<Rightarrow> host_addr option) \<Rightarrow> bool \<Rightarrow> int \<Rightarrow> int \<Rightarrow> string \<Rightarrow> mf_config \<Rightarrow> string + mf_config" where
  "parse_config resolve create dmin dmax s MC =
     (case config_loop resolve create False (preinit_config dmin dmax MC) s of
        Inl e \<Rightarrow> Inl e
      | Inr (hp, MC) \<Rightarrow>
          if \<not> hp then Inl ''expected to find a mtproto-proxy configuration with `proxy' directives''
          else let MC = MC\<lparr>have_proxy := hp\<rparr> in
            if auth_clusters MC = 0 then Inl ''no MTProto next proxy servers defined to forward queries to''
            else Inr (MC\<lparr>default_cluster := mf_cluster_lookup MC (default_cluster_id MC) False\<rparr>))"

definition MAX_CONFIG_SIZE :: int where "MAX_CONFIG_SIZE = 16777216"

text \<open>
  What the system says of the file, and what is held of it: \<open>config_buff\<close>, which is null until the first
  load, and \<open>config_bytes\<close>, the result of the last \<open>read\<close>.
\<close>

datatype config_file = Cannot_Open | Cannot_Read | Contents string

record config_text =
  config_buff :: "string option"
  config_bytes :: int

text \<open>
  The result 0 stands for the descriptor.  A file that is too long has been read all the same; after a
  failed \<open>read\<close> there is the old text (an empty buffer at first) and a size of -1.
\<close>

definition load_config :: "config_file \<Rightarrow> config_text \<Rightarrow> int \<times> config_text" where
  "load_config file T =
     (let T = T\<lparr>config_buff := Some (case config_buff T of None \<Rightarrow> [] | Some b \<Rightarrow> b)\<rparr>
      in case file of
        Cannot_Open \<Rightarrow> (-1, T)
      | Cannot_Read \<Rightarrow> (-2, T\<lparr>config_bytes := -1\<rparr>)
      | Contents s \<Rightarrow>
          let b = take (nat (MAX_CONFIG_SIZE + 1)) s; T = T\<lparr>config_buff := Some b, config_bytes := int (length b)\<rparr>
          in (if config_bytes T > MAX_CONFIG_SIZE then -2 else 0, T))"

text \<open>
  The text that is parsed.  \<open>None\<close>: there is no buffer, and the assertion fails, or the size is
  negative, and the closing zero is written before the buffer.
\<close>

definition reset_config :: "config_text \<Rightarrow> string option" where
  "reset_config T =
     (case config_buff T of
        None \<Rightarrow> None
      | Some b \<Rightarrow> if config_bytes T < 0 then None else Some (take (nat (config_bytes T)) b))"

text \<open>
  The end of a reload: the process is stopped by the fault above, or it exits, or the result with the
  text, \<open>CurConf\<close> and \<open>NextConf\<close>.
\<close>

datatype reload_end = Reload_Fault | Reload_Exit | Reload_Return int config_text mf_config mf_config

text \<open>
  \<open>do_reload_config\<close> with the flags 4 and, as \<open>reload\<close> and \<open>apply\<close>, without 16 and without 32.  The
  resolver of the second reading need not give the answers of the first.  What a failed first reading
  leaves in \<open>NextConf\<close> is not read again.
\<close>

definition do_reload_config :: "(string \<Rightarrow> host_addr option) \<Rightarrow> (string \<Rightarrow> host_addr option) \<Rightarrow> int \<Rightarrow> int \<Rightarrow> bool \<Rightarrow> bool
    \<Rightarrow> config_file \<Rightarrow> config_text \<Rightarrow> mf_config \<Rightarrow> mf_config \<Rightarrow> reload_end" where
  "do_reload_config resolve1 resolve2 dmin dmax reload appl file T CurConf NextConf =
     (if reload \<and> file = Cannot_Open then Reload_Return (-1) T CurConf NextConf
      else let (r, T) = (if reload then load_config file T else (0, T)) in
        if r < 0 then Reload_Return (-2) T CurConf NextConf
        else case reset_config T of
          None \<Rightarrow> Reload_Fault
        | Some s \<Rightarrow>
            (case parse_config resolve1 False dmin dmax s NextConf of
               Inl e \<Rightarrow> Reload_Return (-1) T CurConf NextConf
             | Inr N \<Rightarrow>
                 if \<not> appl then Reload_Return 0 T CurConf N
                 else case parse_config resolve2 True dmin dmax s N of
                   Inl e \<Rightarrow> Reload_Exit
                 | Inr N \<Rightarrow> Reload_Return 0 T N (clear_config CurConf True)))"

end
