(* ===== verification/Proxy_Core.thy ===== *)
theory Proxy_Core
  imports Ext_Conns Mtproto_Config
begin

text \<open>
  The engine of \<open>mtproto/mtproto-proxy.c\<close>: what it does with a client's packet, which it forwards to a
  middle-end connection, with what a middle-end sends, and with connections that become ready or close;
  and the choice of a connection of \<open>net/net-rpc-targets.c\<close>.  A handler maps the state to a result and a
  state, \<open>None\<close> is a failed assertion.  What it does to connections is appended to a log.

  HTTP connections are left out: no socket of the program accepts any (the field \<open>http_fallback_type\<close> of
  \<open>ext_rpc_methods\<close> is commented out).
\<close>

section \<open>The state\<close>

text \<open>
  What the engine reads of a connection.  \<open>mc_open\<close>: \<open>connection_get_by_fd\<close> finds it; \<open>mc_ready\<close>: \<open>check_ready\<close>
  returns \<open>cr_ok\<close> and there is no error; \<open>mc_used\<close>: the bytes in its four buffers; \<open>mc_tag\<close> and \<open>mc_dc\<close> are
  \<open>extra_int\<close> and \<open>extra_int4\<close> of its data.  An array of 16 bytes is a pair of words.
\<close>

record mt_conn =
  mc_open :: bool
  mc_ready :: bool
  mc_client :: bool
  mc_target :: bool
  mc_tag :: int
  mc_dc :: int
  mc_flags :: u32
  mc_used :: int
  mc_remote_ip :: u32
  mc_remote_ipv6 :: "u64 \<times> u64"
  mc_remote_port :: u32
  mc_our_ip :: u32
  mc_our_ipv6 :: "u64 \<times> u64"
  mc_our_port :: u32

type_synonym conn_ref = "int \<times> int"
type_synonym target_ref = "host_addr \<times> int"

text \<open>\<open>px_pool\<close> lists the connections of a target in the order of its tree.\<close>

record proxy =
  px_ext :: ext_table
  px_conns :: "conn_ref \<Rightarrow> mt_conn option"
  px_pool :: "target_ref \<Rightarrow> conn_ref list"
  px_config :: mf_config
  px_nat :: "(u32 \<times> u32) list"
  px_tag :: "byte list option"
  px_log :: "proxy_effect list"
  dropped_queries :: int
  tot_forwarded_queries :: int
  dropped_responses :: int
  tot_forwarded_responses :: int
  dropped_simple_acks :: int
  tot_forwarded_simple_acks :: int
  connections_failed_lru :: int
  connections_failed_flood :: int

definition log_effects :: "proxy_effect list \<Rightarrow> proxy \<Rightarrow> proxy" where
  "log_effects es W = W\<lparr>px_log := px_log W @ es\<rparr>"

definition with_ext :: "ext_table \<Rightarrow> proxy \<Rightarrow> proxy" where
  "with_ext T W = W\<lparr>px_ext := T\<rparr>"

text \<open>\<open>connection_get_by_fd_generation\<close>.\<close>

definition alive :: "proxy \<Rightarrow> int \<Rightarrow> int \<Rightarrow> bool" where
  "alive W fd gen = (case px_conns W (fd, gen) of None \<Rightarrow> False | Some c \<Rightarrow> mc_open c)"

definition draw :: "proxy \<Rightarrow> int \<times> proxy" where
  "draw W = (lrand (px_ext W) 0, with_ext ((px_ext W)\<lparr>lrand := (\<lambda>n. lrand (px_ext W) (Suc n))\<rparr>) W)"

definition get_conn_tag :: "conn_ref \<Rightarrow> int" where
  "get_conn_tag c = 1 + (snd c AND 0xffffff)"

definition upd_conn :: "conn_ref \<Rightarrow> (mt_conn \<Rightarrow> mt_conn) \<Rightarrow> proxy \<Rightarrow> proxy" where
  "upd_conn c f W = W\<lparr>px_conns := (px_conns W)(c := map_option f (px_conns W c))\<rparr>"

definition mt_fail_connection :: "conn_ref \<Rightarrow> int \<Rightarrow> proxy \<Rightarrow> proxy" where
  "mt_fail_connection c err W = log_effects [Fail (fst c) (snd c) err] W"

definition send_to :: "conn_ref \<Rightarrow> byte list \<Rightarrow> proxy \<Rightarrow> proxy" where
  "send_to c b W = log_effects [Send (fst c) (snd c) b] W"

text \<open>\<open>TLS_START\<close> to \<open>TLS_END\<close>: \<open>tls_end_ext\<close> asserts that the length is a multiple of four.\<close>

definition tls_message :: "conn_ref \<Rightarrow> byte list \<Rightarrow> proxy \<Rightarrow> proxy option" where
  "tls_message c b W = do { assert_c (length b mod 4 = 0); Some (send_to c b W) }"

definition remove_ext_conn :: "ext_ptr \<Rightarrow> int \<Rightarrow> proxy \<Rightarrow> proxy option" where
  "remove_ext_conn p notifications W =
     map_option (\<lambda>(es, T). log_effects es (with_ext T W)) (remove_ext_connection (alive W) p notifications (px_ext W))"

section \<open>Choosing a connection of a target\<close>

text \<open>\<open>check_connection_arr\<close> without a process identifier: a reservoir of \<open>limit\<close> connections.\<close>

definition check_connection_arr :: "nat \<Rightarrow> conn_ref \<Rightarrow> conn_ref list \<times> int \<times> proxy \<Rightarrow> conn_ref list \<times> int \<times> proxy" where
  "check_connection_arr limit c E =
     (let (arr, cnt, W) = E in
      if \<not> (case px_conns W c of None \<Rightarrow> False | Some C \<Rightarrow> mc_ready C) then E
      else if length arr < limit then (arr @ [c], cnt + 1, W)
      else let (r, W) = draw W; t = r mod (cnt + 1) in
           (if t < int limit then arr[nat t := c] else arr, cnt + 1, W))"

definition rpc_target_choose_random_connections :: "target_ref option \<Rightarrow> nat \<Rightarrow> proxy \<Rightarrow> conn_ref list \<times> proxy" where
  "rpc_target_choose_random_connections S limit W =
     (case S of None \<Rightarrow> ([], W)
      | Some t \<Rightarrow> (let (arr, _, W) = fold (check_connection_arr limit) (px_pool W t) ([], 0, W) in (arr, W)))"

text \<open>The handshake with the middle-end is complete, and the connection has not been closed in the engine.\<close>

definition conn_is_tagged :: "proxy \<Rightarrow> conn_ref \<Rightarrow> bool" where
  "conn_is_tagged W c = (case px_conns W c of None \<Rightarrow> False | Some C \<Rightarrow> mc_tag C = get_conn_tag c)"

definition config_target :: "mf_config \<Rightarrow> nat \<Rightarrow> target_ref option" where
  "config_target MC i = map_option (\<lambda>t. (ct_addr t, ct_port t)) (targets MC i)"

fun choose_target_attempts :: "nat \<Rightarrow> mf_cluster \<Rightarrow> proxy \<Rightarrow> (target_ref option \<times> proxy) option" where
  "choose_target_attempts 0 K W = Some (None, W)"
| "choose_target_attempts (Suc n) K W =
     (if targets_num K = 0 then None
      else let (r, W) = draw W;
               S = config_target (px_config W) (cluster_targets K + nat (r mod int (targets_num K)));
               (arr, W) = rpc_target_choose_random_connections S 1 W
           in if arr \<noteq> [] \<and> conn_is_tagged W (hd arr) then Some (S, W) else choose_target_attempts n K W)"

definition choose_proxy_target :: "int \<Rightarrow> proxy \<Rightarrow> (target_ref option \<times> proxy) option" where
  "choose_proxy_target dc W =
     (if auth_clusters (px_config W) = 0 then None
      else case mf_cluster_lookup (px_config W) dc True of
        None \<Rightarrow> Some (None, W)
      | Some i \<Rightarrow> choose_target_attempts 5 (auth_cluster (px_config W) i) W)"

section \<open>The buffers of a connection, and the ring by time of use\<close>

definition MAX_CONNECTION_BUFFER_SPACE :: int where "MAX_CONNECTION_BUFFER_SPACE = 33554432"

definition used_bytes :: "proxy \<Rightarrow> conn_ref \<Rightarrow> int" where
  "used_bytes W c = (case px_conns W c of None \<Rightarrow> 0 | Some C \<Rightarrow> mc_used C)"

definition check_conn_buffers :: "conn_ref \<Rightarrow> proxy \<Rightarrow> int \<times> proxy" where
  "check_conn_buffers c W =
     (if used_bytes W c > MAX_CONNECTION_BUFFER_SPACE
      then (-1, (mt_fail_connection c (-429) W)\<lparr>connections_failed_flood := connections_failed_flood W + 1\<rparr>)
      else (0, W))"

definition lru_insert_conn :: "conn_ref \<Rightarrow> proxy \<Rightarrow> proxy option" where
  "lru_insert_conn c W = do {
     ex \<leftarrow> get_ext_connection_by_in_fd (fst c) (px_ext W);
     (case ex of
        Some p \<Rightarrow> if in_fd (px_ext W) p = fst c \<and> in_gen (px_ext W) p = snd c
                  then map_option (\<lambda>T. with_ext T W) (lru_insert_ext_conn p (px_ext W)) else Some W
      | None \<Rightarrow> Some W) }"

partial_function (option) lru_loop :: "int \<Rightarrow> proxy \<Rightarrow> proxy option" where
  "lru_loop to_free W =
     (case lru_next (px_ext W) LRU_Head of
        None \<Rightarrow> None
      | Some p \<Rightarrow>
          if to_free > 0 \<and> p \<noteq> LRU_Head then
            (let T = px_ext W; d = (in_fd T p, in_gen T p);
                 (to_free, W) = (if alive W (fst d) (snd d)
                                 then (to_free - 2 * used_bytes W d, mt_fail_connection d (-500) W) else (to_free, W)) in
             case lru_delete_ext_conn p (px_ext W) of
               None \<Rightarrow> None
             | Some T \<Rightarrow> lru_loop to_free ((with_ext T W)\<lparr>connections_failed_lru := connections_failed_lru W + 1\<rparr>))
          else Some W)"

declare lru_loop.simps [code]

text \<open>\<open>used\<close> and \<open>maximum\<close> are \<open>total_used_buffers_size\<close> and the size of all buffers that may be allocated.\<close>

definition check_all_conn_buffers :: "int \<Rightarrow> int \<Rightarrow> proxy \<Rightarrow> proxy option" where
  "check_all_conn_buffers used maximum W = lru_loop (used - maximum * 3 div 4) W"

section \<open>From a client to a middle-end\<close>

definition RPC_F_DROPPED :: u32 where "RPC_F_DROPPED = 0x10000000"
definition TL_PROXY_TAG :: u32 where "TL_PROXY_TAG = 0xdb1e26ae"
definition TL_HTTP_QUERY_INFO :: u32 where "TL_HTTP_QUERY_INFO = 0xd45ab381"

text \<open>\<open>tl_store_string\<close>: a length of one byte or of three, the bytes, and zeros up to a multiple of four.\<close>

definition tl_store_string :: "byte list \<Rightarrow> byte list \<Rightarrow> byte list" where
  "tl_store_string s out =
     (let out = out @ (if length s < 254 then [of_nat (length s)] else bytes_le (push_bit 8 (of_nat (length s)) + 0xfe)) @ s
      in out @ replicate (nat (- int (length out) mod 4)) 0)"

text \<open>An address, possibly translated, and a port; \<open>htonl\<close> stores the most significant byte first.\<close>

definition ip_port :: "u32 \<Rightarrow> u32 \<Rightarrow> u64 \<times> u64 \<Rightarrow> u32 \<Rightarrow> byte list" where
  "ip_port ip shown ipv6 port =
     (if ip \<noteq> 0 then bytes64 0 @ bytes_le (- 0x10000) @ rev (bytes_le shown) else bytes64 (fst ipv6) @ bytes64 (snd ipv6)) @ bytes_le port"

definition proxy_request :: "proxy \<Rightarrow> mt_conn \<Rightarrow> u32 \<Rightarrow> u64 \<Rightarrow> byte list option \<Rightarrow> byte list option \<Rightarrow> byte list \<Rightarrow> byte list" where
  "proxy_request W C flags oid remote our msg =
     (let out = bytes_le RPC_PROXY_REQ @ bytes_le flags @ bytes64 oid;
          out = out @ (case remote of Some a \<Rightarrow> a | None \<Rightarrow> ip_port (mc_remote_ip C) (mc_remote_ip C) (mc_remote_ipv6 C) (mc_remote_port C));
          out = out @ (case our of Some a \<Rightarrow> a | None \<Rightarrow>
                         ip_port (mc_our_ip C) (nat_translate_ip (px_nat W) (mc_our_ip C)) (mc_our_ipv6 C) (mc_our_port C));
          out = (if flags AND 12 \<noteq> 0 then
                   (let pos = length out + 4; ex = out @ replicate 4 0;
                        ex = (if flags AND 8 \<noteq> 0 then tl_store_string (case px_tag W of Some t \<Rightarrow> t | None \<Rightarrow> replicate 16 0) (ex @ bytes_le TL_PROXY_TAG) else ex);
                        ex = (if flags AND 4 \<noteq> 0 then tl_store_string [] (tl_store_string [] (tl_store_string [] (ex @ bytes_le TL_HTTP_QUERY_INFO))) else ex)
                    in out @ bytes_le (of_nat (length ex - pos)) @ drop pos ex)
                 else out)
      in out @ msg)"

fun choose_conn_attempts :: "nat \<Rightarrow> target_ref option \<Rightarrow> proxy \<Rightarrow> conn_ref option \<times> proxy" where
  "choose_conn_attempts 0 S W = (None, W)"
| "choose_conn_attempts (Suc n) S W =
     (if S = None then (None, W)
      else let (arr, W) = rpc_target_choose_random_connections S 1 W in
           if arr \<noteq> [] \<and> conn_is_tagged W (hd arr) then (Some (hd arr), W) else choose_conn_attempts n S W)"

text \<open>
  The external connection of the client, where its middle-end connection is still there; then a new one to
  a random connection of the target, or the result of the query when there is none.
\<close>

definition current_route :: "conn_ref \<Rightarrow> u64 \<Rightarrow> proxy \<Rightarrow> ((ext_ptr \<times> conn_ref) option \<times> proxy) option" where
  "current_route c key W = do {
     ex \<leftarrow> get_ext_connection_by_in_fd (fst c) (px_ext W);
     (case ex of
        None \<Rightarrow> Some (None, W)
      | Some p \<Rightarrow> do {
          let W = with_ext ((px_ext W)\<lparr>auth_key_id := (auth_key_id (px_ext W))(p := key)\<rparr>) W;
          let T = px_ext W;
          assert_c (out_fd T p > 0 \<and> out_fd T p < MAX_CONNECTIONS);
          let d = (out_fd T p, out_gen T p);
          (if alive W (fst d) (snd d) \<and> (case px_conns W d of None \<Rightarrow> False | Some D \<Rightarrow> mc_target D)
           then Some (Some (p, d), W)
           else map_option (\<lambda>W. (None, W)) (remove_ext_conn p 1 W)) }) }"

definition new_route :: "conn_ref \<Rightarrow> target_ref option \<Rightarrow> u32 \<Rightarrow> u64 \<Rightarrow> proxy \<Rightarrow> ((ext_ptr \<times> conn_ref) option \<times> proxy) option" where
  "new_route c S flags key W =
     (case choose_conn_attempts 5 S W of
        (None, W) \<Rightarrow> Some (None, upd_conn c (\<lambda>C. C\<lparr>mc_flags := mc_flags C OR RPC_F_DROPPED\<rparr>) (W\<lparr>dropped_queries := dropped_queries W + 1\<rparr>))
      | (Some d, W) \<Rightarrow>
          if flags AND RPC_F_DROPPED \<noteq> 0 then Some (None, mt_fail_connection c (-35) W)
          else map_option (\<lambda>(p, T). (Some (p, d), with_ext T W)) (create_ext_connection c 0 (Some d) key (px_ext W)))"

definition forward_tcp_query :: "conn_ref \<Rightarrow> target_ref option \<Rightarrow> u32 \<Rightarrow> u64 \<Rightarrow> byte list option \<Rightarrow> byte list option \<Rightarrow> byte list \<Rightarrow> proxy \<Rightarrow> (int \<times> proxy) option" where
  "forward_tcp_query c S flags key remote our msg W = do {
     C \<leftarrow> px_conns W c;
     let flags = (flags OR (mc_flags C AND RPC_F_DROPPED)) OR 0x1000;
     (route, W) \<leftarrow> current_route c key W;
     (route, W) \<leftarrow> (case route of Some r \<Rightarrow> Some (Some r, W) | None \<Rightarrow> new_route c S flags key W);
     (case route of
        None \<Rightarrow> Some (0, W)
      | Some (p, d) \<Rightarrow> do {
          let W = W\<lparr>tot_forwarded_queries := tot_forwarded_queries W + 1\<rparr>;
          let flags = (if px_tag W \<noteq> None then flags OR 8 else flags);
          W \<leftarrow> tls_message d (proxy_request W C flags (out_conn_id (px_ext W) p) remote our msg) W;
          Some (1, W) }) }"

definition le64 :: "byte list \<Rightarrow> u64" where
  "le64 b = ucast (le32 b) OR push_bit 32 (ucast (le32 (drop 4 b)))"

definition CODE_req_pq :: u32 where "CODE_req_pq = 0x60469778"
definition CODE_req_pq_multi :: u32 where "CODE_req_pq_multi = 0xbe7e8ef1"
definition CODE_req_DH_params :: u32 where "CODE_req_DH_params = 0xd712e4be"
definition CODE_set_client_DH_params :: u32 where "CODE_set_client_DH_params = 0xf5045f1f"

text \<open>The bytes of \<open>struct encrypted_message\<close> before its \<open>message\<close>.\<close>

definition ENCRYPTED_HEADER :: nat where "ENCRYPTED_HEADER = 56"

definition forward_mtproto_enc_packet :: "conn_ref \<Rightarrow> u64 \<Rightarrow> byte list option \<Rightarrow> u32 \<Rightarrow> byte list \<Rightarrow> proxy \<Rightarrow> (int \<times> proxy) option" where
  "forward_mtproto_enc_packet c key remote rpc_flags msg W =
     (if length msg < ENCRYPTED_HEADER then Some (0, W)
      else do {
        C \<leftarrow> px_conns W c;
        (S, W) \<leftarrow> choose_proxy_target (mc_dc C) W;
        forward_tcp_query c S rpc_flags key remote None msg W })"

definition forward_mtproto_packet :: "conn_ref \<Rightarrow> byte list option \<Rightarrow> u32 \<Rightarrow> byte list \<Rightarrow> proxy \<Rightarrow> (int \<times> proxy) option" where
  "forward_mtproto_packet c remote rpc_flags msg W =
     (if length msg < 28 \<or> length msg mod 4 \<noteq> 0 then Some (0, W)
      else let key = le64 msg; inner_len = sint (le32 (drop 16 msg)); op = le32 (drop 20 msg) in
      if key \<noteq> 0 then forward_mtproto_enc_packet c key remote rpc_flags msg W
      else if i32 (inner_len + 20) > int (length msg) then Some (0, W)
      else if inner_len < 20 then Some (0, W)
      else if op \<notin> {CODE_req_pq, CODE_req_pq_multi, CODE_req_DH_params, CODE_set_client_DH_params} then Some (0, W)
      else do {
        C \<leftarrow> px_conns W c;
        (S, W) \<leftarrow> choose_proxy_target (mc_dc C) W;
        forward_tcp_query c S (2 OR rpc_flags) 0 remote None msg W })"

text \<open>The packet of a client is checked in its own thread, the rest is a job of the engine.\<close>

definition MAX_POST_SIZE :: int where "MAX_POST_SIZE = 262144 * 4 - 4096"
definition SKIP_ALL_BYTES :: int where "SKIP_ALL_BYTES = - 2147483648"

definition RPC_F_EXTMODE3 :: u32 where "RPC_F_EXTMODE3 = 0x30000"

definition ext_rpcs_execute :: "conn_ref \<Rightarrow> byte list \<Rightarrow> proxy \<Rightarrow> int \<times> (byte list \<times> u32) option \<times> proxy" where
  "ext_rpcs_execute c msg W =
     (if int (length msg) > MAX_POST_SIZE then (SKIP_ALL_BYTES, None, W)
      else let (r, W) = check_conn_buffers c W in
        if r < 0 then (SKIP_ALL_BYTES, None, W)
        else (1, Some (msg, (case px_conns W c of None \<Rightarrow> 0 | Some C \<Rightarrow>
                mc_flags C AND (RPC_F_QUICKACK OR RPC_F_DROPPED OR (RPC_F_COMPACT OR RPC_F_MEDIUM) OR RPC_F_EXTMODE3))), W))"

definition do_rpcs_execute :: "conn_ref \<Rightarrow> byte list \<Rightarrow> u32 \<Rightarrow> proxy \<Rightarrow> proxy option" where
  "do_rpcs_execute c msg rpc_flags W = do {
     W \<leftarrow> lru_insert_conn c W;
     (res, W) \<leftarrow> forward_mtproto_packet c None rpc_flags msg W;
     Some W }"

section \<open>From a middle-end to a client\<close>

definition client_send_message :: "conn_ref \<Rightarrow> u64 \<Rightarrow> byte list \<Rightarrow> proxy \<Rightarrow> (int \<times> proxy) option" where
  "client_send_message c in_id msg W =
     (let (r, W) = check_conn_buffers c W in
      if r < 0 then Some (-1, W)
      else if in_id \<noteq> 0 then None
      else do {
        W \<leftarrow> tls_message c msg W;
        let (r, W) = check_conn_buffers c W;
        (if r < 0 then Some (-1, W) else Some (1, W)) })"

text \<open>Nothing, or four random bytes.\<close>

definition confirm_padding :: "proxy \<Rightarrow> byte list \<times> proxy" where
  "confirm_padding W =
     (let (z, W) = draw W in
      if z AND 1 \<noteq> 0 then (let (t, W) = draw W in (bytes_le (word_of_int t), W)) else ([], W))"

definition push_rpc_confirmation :: "conn_ref \<Rightarrow> u32 \<Rightarrow> proxy \<Rightarrow> proxy" where
  "push_rpc_confirmation c confirm W =
     (let (r, W) = draw W; pad = (case px_conns W c of None \<Rightarrow> False | Some C \<Rightarrow> has_flag (mc_flags C) RPC_F_PAD) in
      if r AND 1 \<noteq> 0 \<or> \<not> pad then log_effects [Push (fst c) (snd c) (0xdd # bytes_le confirm)] W
      else
        let (m, W) = confirm_padding W;
            W = send_to c (bytes_le (- 1) @ bytes_le confirm @ m) W;
            (m, W) = confirm_padding W
        in send_to c (bytes_le 0 @ m) W)"

text \<open>The client of an answer: the number must be in use, for this very middle-end connection.\<close>

definition answer_client :: "conn_ref \<Rightarrow> u64 \<Rightarrow> proxy \<Rightarrow> (ext_ptr \<times> conn_ref) option option" where
  "answer_client d oid W = do {
     ex \<leftarrow> find_ext_connection_by_out_conn_id oid (px_ext W);
     Some (case ex of
        None \<Rightarrow> None
      | Some p \<Rightarrow>
          (let T = px_ext W in
           if out_fd T p = fst d \<and> out_gen T p = snd d \<and> alive W (in_fd T p) (in_gen T p)
           then Some (p, (in_fd T p, in_gen T p)) else None)) }"

definition process_client_packet :: "conn_ref \<Rightarrow> byte list \<Rightarrow> u32 \<Rightarrow> proxy \<Rightarrow> (int \<times> proxy) option" where
  "process_client_packet d msg op W =
     (let len = length msg in
      if len < 4 \<or> le32 msg \<noteq> op then None
      else if op = RPC_PONG then Some (1, W)
      else if op = RPC_PROXY_ANS \<and> len \<ge> 16 then
        (let oid = le64 (drop 8 msg) in do {
           ex \<leftarrow> answer_client d oid W;
           (case ex of
              Some (p, c) \<Rightarrow> do {
                (_, W) \<leftarrow> client_send_message c (in_conn_id (px_ext W) p) (drop 16 msg) (W\<lparr>tot_forwarded_responses := tot_forwarded_responses W + 1\<rparr>);
                Some (1, W) }
            | None \<Rightarrow> Some (1, log_effects [notify_remote_closed d oid] (W\<lparr>dropped_responses := dropped_responses W + 1\<rparr>))) })
      else if op = RPC_SIMPLE_ACK \<and> len = 16 then
        (let oid = le64 (drop 4 msg); confirm = le32 (drop 12 msg) in do {
           ex \<leftarrow> answer_client d oid W;
           (case ex of
              Some (p, c) \<Rightarrow> do {
                assert_c (in_conn_id (px_ext W) p = 0);
                let compact = (case px_conns W c of None \<Rightarrow> False | Some C \<Rightarrow> has_flag (mc_flags C) RPC_F_COMPACT);
                let confirm = (if compact then le32 (rev (bytes_le confirm)) else confirm);
                let W = push_rpc_confirmation c confirm W;
                Some (1, W\<lparr>tot_forwarded_simple_acks := tot_forwarded_simple_acks W + 1\<rparr>) }
            | None \<Rightarrow> Some (1, log_effects [notify_remote_closed d oid] (W\<lparr>dropped_simple_acks := dropped_simple_acks W + 1\<rparr>))) })
      else if op = RPC_CLOSE_EXT \<and> len = 12 then
        do {
          ex \<leftarrow> find_ext_connection_by_out_conn_id (le64 (drop 4 msg)) (px_ext W);
          (case ex of
             Some p \<Rightarrow> map_option (Pair 1) (remove_ext_conn p 2 W)
           | None \<Rightarrow> Some (1, W)) }
      else Some (0, W))"

text \<open>What a middle-end sends is a job of the engine, except for an answer to a ping.\<close>

definition rpcc_execute :: "u32 \<Rightarrow> byte list \<Rightarrow> int \<times> (byte list \<times> u32) option" where
  "rpcc_execute op msg =
     (if op = RPC_PROXY_ANS \<or> op = RPC_SIMPLE_ACK \<or> op = RPC_CLOSE_EXT then (1, Some (msg, op)) else (0, None))"

section \<open>Connections that become ready or close\<close>

definition mtfront_client_ready :: "conn_ref \<Rightarrow> proxy \<Rightarrow> proxy option" where
  "mtfront_client_ready d W = do {
     assert_c (valid_fd (fst d));
     D \<leftarrow> px_conns W d;
     assert_c (mc_tag D = 0);
     let W = upd_conn d (\<lambda>D. D\<lparr>mc_tag := get_conn_tag d\<rparr>) W;
     let T = px_ext W;
     let h = Conn_Head (fst d);
     assert_c (o_prev T h = None);
     Some (with_ext (T\<lparr>o_prev := (o_prev T)(h := Some h), o_next := (o_next T)(h := Some h), out_fd := (out_fd T)(h := fst d)\<rparr>) W) }"

text \<open>Every client whose queries went to this connection is closed.\<close>

partial_function (option) close_loop :: "conn_ref \<Rightarrow> ext_ptr \<Rightarrow> proxy \<Rightarrow> proxy option" where
  "close_loop d p W =
     (if p = Conn_Head (fst d) then Some W
      else case o_next (px_ext W) p of
        None \<Rightarrow> None
      | Some q \<Rightarrow> if out_fd (px_ext W) p \<noteq> fst d then None
          else Option.bind (remove_ext_conn p 2 W) (close_loop d q))"

declare close_loop.simps [code]

definition mtfront_client_close :: "conn_ref \<Rightarrow> proxy \<Rightarrow> proxy option" where
  "mtfront_client_close d W = do {
     assert_c (valid_fd (fst d));
     D \<leftarrow> px_conns W d;
     W \<leftarrow> (if mc_tag D \<noteq> 0 then do {
            assert_c (mc_tag D = get_conn_tag d);
            let h = Conn_Head (fst d);
            p \<leftarrow> o_next (px_ext W) h;
            W \<leftarrow> close_loop d p W;
            let T = px_ext W;
            assert_c (o_next T h = Some h \<and> o_prev T h = Some h);
            Some (with_ext (T\<lparr>o_next := (o_next T)(h := None), o_prev := (o_prev T)(h := None), out_fd := (out_fd T)(h := 0)\<rparr>) W) }
          else Some W);
     Some (upd_conn d (\<lambda>D. D\<lparr>mc_tag := 0\<rparr>) W) }"

definition mtproto_ext_rpc_ready :: "conn_ref \<Rightarrow> proxy \<Rightarrow> proxy option" where
  "mtproto_ext_rpc_ready c W = do { assert_c (valid_fd (fst c)); lru_insert_conn c W }"

definition mtproto_ext_rpc_close :: "conn_ref \<Rightarrow> proxy \<Rightarrow> proxy option" where
  "mtproto_ext_rpc_close c W = do {
     assert_c (valid_fd (fst c));
     ex \<leftarrow> get_ext_connection_by_in_fd (fst c) (px_ext W);
     (case ex of Some p \<Rightarrow> remove_ext_conn p 1 W | None \<Rightarrow> Some W) }"

end
