(* ===== verification/Ext_Conns_Inv.thy ===== *)
theory Ext_Conns_Inv
  imports Ext_Conns
begin

text \<open>
  The invariant of the external connections: what hangs in the hash table, in the array of numbers and
  in the three kinds of rings, and that every operation of \<open>Ext_Conns\<close> keeps it, returns, and acts
  on the set of external connections as on a map from clients.
\<close>

section \<open>The invariant\<close>

definition cells_of :: "ext_table \<Rightarrow> ext_ptr set" where
  "cells_of T = Ext_Cell ` set (cells T)"

definition hash_members :: "ext_table \<Rightarrow> int \<Rightarrow> ext_ptr set" where
  "hash_members T b = {p \<in> cells_of T. ext_conn_hash (in_fd T p) (in_conn_id T p) = b}"

definition client_members :: "ext_table \<Rightarrow> int \<Rightarrow> ext_ptr set" where
  "client_members T fd = {p \<in> cells_of T. in_fd T p = fd}"

definition server_members :: "ext_table \<Rightarrow> int \<Rightarrow> ext_ptr set" where
  "server_members T fd = {p \<in> cells_of T. out_fd T p = fd \<and> fd \<noteq> 0}"

definition lru_members :: "ext_table \<Rightarrow> unit \<Rightarrow> ext_ptr set" where
  "lru_members T u = {p \<in> cells_of T. lru_next T p \<noteq> None}"

abbreviation "lru_head \<equiv> (\<lambda>_ :: unit. LRU_Head)"

text \<open>The ranges of the fields.  All clients have the number 0 on their own side: \<open>in_conn_id\<close>.\<close>

definition fields_ok :: "ext_table \<Rightarrow> bool" where
  "fields_ok T \<longleftrightarrow> distinct (cells T) \<and> ext_connections T = int (length (cells T)) \<and>
     (\<forall>p \<in> cells_of T. 0 < in_fd T p \<and> in_fd T p < MAX_CONNECTIONS \<and> in_conn_id T p = 0
        \<and> 0 \<le> out_fd T p \<and> out_fd T p < MAX_CONNECTIONS \<and> (out_fd T p = 0 \<longrightarrow> o_next T p = None))"

definition chains_ok :: "ext_table \<Rightarrow> bool" where
  "chains_ok T \<longleftrightarrow> (\<forall>b. \<exists>cs. chain (h_next T) (in_hash T b) cs \<and> set cs = hash_members T b)"

text \<open>A client with the descriptor \<open>fd\<close> has the entry \<open>fd\<close> of the array.\<close>

definition slots_ok :: "ext_table \<Rightarrow> bool" where
  "slots_ok T \<longleftrightarrow>
     (\<forall>p \<in> cells_of T. out_ref T (in_fd T p) = Some p \<and> out_id T (in_fd T p) = out_conn_id T p \<and>
        ext_slot (out_conn_id T p) = in_fd T p) \<and>
     (\<forall>s p. out_ref T s = Some p \<longrightarrow> p \<in> cells_of T \<and> in_fd T p = s) \<and>
     (\<forall>s. out_id T s = 0 \<or> ext_slot (out_id T s) = s)"

definition rings_ok :: "ext_table \<Rightarrow> bool" where
  "rings_ok T \<longleftrightarrow> ring_family Conn_Head (client_members T) (i_next T) (i_prev T)
     \<and> ring_family Conn_Head (server_members T) (o_next T) (o_prev T)
     \<and> ring_family lru_head (lru_members T) (lru_next T) (lru_prev T) \<and> lru_next T LRU_Head \<noteq> None"

definition ext_ok :: "ext_table \<Rightarrow> bool" where
  "ext_ok T \<longleftrightarrow> fields_ok T \<and> chains_ok T \<and> slots_ok T \<and> rings_ok T"

interpretation fd_rings: ring_heads Conn_Head
  by unfold_locales simp

interpretation lru_ring: ring_heads "\<lambda>_ :: unit. LRU_Head"
  by unfold_locales simp

lemma cell_no_head: "p \<in> cells_of T \<Longrightarrow> p \<noteq> Conn_Head k" "p \<in> cells_of T \<Longrightarrow> p \<noteq> LRU_Head"
  by (auto simp: cells_of_def)

lemma members_separate:
  "separate Conn_Head (client_members T)" "separate Conn_Head (server_members T)" "separate lru_head (lru_members T)"
  by (auto simp: separate_def client_members_def server_members_def lru_members_def cells_of_def)

lemma ext_okD:
  assumes "ext_ok T"
  shows "fields_ok T" "chains_ok T" "slots_ok T" "rings_ok T"
    "ring_family Conn_Head (client_members T) (i_next T) (i_prev T)"
    "ring_family Conn_Head (server_members T) (o_next T) (o_prev T)"
    "ring_family lru_head (lru_members T) (lru_next T) (lru_prev T)" "lru_next T LRU_Head \<noteq> None"
  using assms by (simp_all add: ext_ok_def rings_ok_def)

lemma ext_ok_fields:
  assumes "ext_ok T" "p \<in> cells_of T"
  shows "0 < in_fd T p" "in_fd T p < MAX_CONNECTIONS" "valid_fd (in_fd T p)" "in_conn_id T p = 0" "valid_fd (out_fd T p)"
    "out_fd T p = 0 \<Longrightarrow> o_next T p = None" "out_ref T (in_fd T p) = Some p" "out_id T (in_fd T p) = out_conn_id T p"
    "ext_slot (out_conn_id T p) = in_fd T p" "out_conn_id T p \<noteq> 0"
proof -
  show a: "0 < in_fd T p" "in_fd T p < MAX_CONNECTIONS" "in_conn_id T p = 0" "out_fd T p = 0 \<Longrightarrow> o_next T p = None"
    "out_ref T (in_fd T p) = Some p" "out_id T (in_fd T p) = out_conn_id T p" "ext_slot (out_conn_id T p) = in_fd T p"
    using assms unfolding ext_ok_def fields_ok_def slots_ok_def by blast+
  show "valid_fd (in_fd T p)" "valid_fd (out_fd T p)"
    using assms unfolding ext_ok_def fields_ok_def valid_fd_def by auto
  show "out_conn_id T p \<noteq> 0"
  proof
    assume "out_conn_id T p = 0"
    then have "in_fd T p = 0" using a(7) by (simp add: ext_slot_def)
    then show False using a(1) by simp
  qed
qed

lemma ext_ok_same_client:
  assumes "ext_ok T" "p \<in> cells_of T" "q \<in> cells_of T" "in_fd T p = in_fd T q"
  shows "p = q"
proof -
  have "Some p = Some q"
    unfolding ext_ok_fields(7)[OF assms(1,2), symmetric] ext_ok_fields(7)[OF assms(1,3), symmetric] assms(4) ..
  then show ?thesis by simp
qed

lemma client_members_one:
  assumes "ext_ok T" "p \<in> cells_of T"
  shows "client_members T (in_fd T p) = {p}"
  using assms ext_ok_same_client[OF assms(1)] by (auto simp: client_members_def)

lemma new_cell_fresh: "new_cell l \<notin> set l"
proof -
  have "\<exists>n \<in> set [0..<Suc (length l)]. n \<notin> set l"
  proof (rule ccontr)
    assume "\<not> ?thesis"
    then have "set [0..<Suc (length l)] \<subseteq> set l" by blast
    then have "{0..<Suc (length l)} \<subseteq> set l" by (simp only: set_upt)
    then have "card {0..<Suc (length l)} \<le> card (set l)" by (intro card_mono) auto
    then show False using card_length[of l] by simp
  qed
  then have "filter (\<lambda>n. n \<notin> set l) [0..<Suc (length l)] \<noteq> []" by (simp only: filter_empty_conv) blast
  then have "hd (filter (\<lambda>n. n \<notin> set l) [0..<Suc (length l)]) \<in> set (filter (\<lambda>n. n \<notin> set l) [0..<Suc (length l)])"
    by (rule hd_in_set)
  then show ?thesis by (simp add: new_cell_def del: upt_Suc)
qed

lemma empty_ext_ok: "ext_ok (empty_ext_table r)"
proof -
  have "ring_family lru_head (lru_members (empty_ext_table r)) (lru_next (empty_ext_table r)) (lru_prev (empty_ext_table r))"
    unfolding ring_family_def by (auto simp: empty_ext_table_def lru_members_def cells_of_def ring_def intro!: exI[of _ "[]"])
  then show ?thesis
    by (auto simp: ext_ok_def fields_ok_def chains_ok_def slots_ok_def rings_ok_def ring_family_def empty_ext_table_def
        cells_of_def hash_members_def client_members_def server_members_def intro!: exI[of _ "[]"])
qed

section \<open>Looking up\<close>

text \<open>The structure of a client, by its descriptor.\<close>

lemma get_by_in_fd:
  assumes ok: "ext_ok T" and fd: "valid_fd fd"
  shows "get_ext_connection_by_in_fd fd T = Some (if \<exists>p \<in> cells_of T. in_fd T p = fd then out_ref T fd else None)"
proof (cases "\<exists>p \<in> cells_of T. in_fd T p = fd")
  case True
  then obtain p where p: "p \<in> cells_of T" "in_fd T p = fd" by blast
  have m: "client_members T fd = {p}" using client_members_one[OF ok p(1)] p(2) by simp
  show ?thesis
    using fd_rings.family_one_member[OF ext_okD(5)[OF ok] m] fd p cell_no_head[OF p(1)] ext_ok_fields(7)[OF ok p(1)] True
    by (auto simp: get_ext_connection_by_in_fd_def)
next
  case False
  then have m: "client_members T fd = {}" by (auto simp: client_members_def)
  show ?thesis
    using fd_rings.family_no_member[OF ext_okD(5)[OF ok] m] fd_rings.family_closed[OF ext_okD(5)[OF ok], of fd] fd False
    by (cases "i_next T (Conn_Head fd)") (auto simp: get_ext_connection_by_in_fd_def)
qed

lemma find_by_out_conn_id:
  assumes ok: "ext_ok T"
  shows "find_ext_connection_by_out_conn_id oid T =
    Some (if out_id T (ext_slot oid) = oid then out_ref T (ext_slot oid) else None)"
proof (cases "out_ref T (ext_slot oid)")
  case (Some p)
  then have p: "p \<in> cells_of T" "in_fd T p = ext_slot oid"
    using ok unfolding ext_ok_def slots_ok_def by blast+
  then show ?thesis
    using Some ext_ok_fields(8)[OF ok p(1)] by (auto simp: find_ext_connection_by_out_conn_id_def)
qed (simp add: find_ext_connection_by_out_conn_id_def)

lemma find_by_out_conn_id_iff:
  assumes ok: "ext_ok T"
  shows "find_ext_connection_by_out_conn_id oid T = Some (Some p) \<longleftrightarrow> p \<in> cells_of T \<and> out_conn_id T p = oid"
proof
  assume "find_ext_connection_by_out_conn_id oid T = Some (Some p)"
  then have f: "out_id T (ext_slot oid) = oid" "out_ref T (ext_slot oid) = Some p"
    unfolding find_by_out_conn_id[OF ok] by (simp_all split: if_splits)
  then have p: "p \<in> cells_of T" "in_fd T p = ext_slot oid" using ok unfolding ext_ok_def slots_ok_def by blast+
  then show "p \<in> cells_of T \<and> out_conn_id T p = oid" using ext_ok_fields(8)[OF ok p(1)] f(1) by simp
next
  assume "p \<in> cells_of T \<and> out_conn_id T p = oid"
  then have p: "p \<in> cells_of T" and o: "out_conn_id T p = oid" by simp_all
  show "find_ext_connection_by_out_conn_id oid T = Some (Some p)"
    unfolding find_by_out_conn_id[OF ok] using ext_ok_fields(7)[OF ok p] ext_ok_fields(8)[OF ok p] ext_ok_fields(9)[OF ok p] o
    by simp
qed

text \<open>The search in a bucket, as a recursion on the chain.\<close>

fun search_list :: "int \<Rightarrow> u64 \<Rightarrow> ext_table \<Rightarrow> hash_link \<Rightarrow> ext_ptr list \<Rightarrow> hash_link \<times> ext_ptr option" where
  "search_list fd cid T l [] = (l, None)"
| "search_list fd cid T l (p # ps) =
     (if in_fd T p = fd \<and> in_conn_id T p = cid then (l, Some p) else search_list fd cid T (Link p) ps)"

lemma hash_search_list:
  "chain (h_next T) (deref l T) cs \<Longrightarrow> hash_search fd cid l T = Some (search_list fd cid T l cs)"
proof (induction cs arbitrary: l)
  case Nil
  then show ?case by (subst hash_search.simps) simp
next
  case (Cons p ps)
  then show ?case by (subst hash_search.simps) (simp add: deref_def)
qed

lemma search_list_none: "\<forall>p \<in> set cs. \<not> (in_fd T p = fd \<and> in_conn_id T p = cid) \<Longrightarrow> snd (search_list fd cid T l cs) = None"
  by (induction cs arbitrary: l) auto

lemma search_list_some:
  "\<lbrakk>\<forall>q \<in> set ys. \<not> (in_fd T q = fd \<and> in_conn_id T q = cid); in_fd T p = fd; in_conn_id T p = cid\<rbrakk>
   \<Longrightarrow> search_list fd cid T l (ys @ p # zs) = (if ys = [] then l else Link (last ys), Some p)"
  by (induction ys arbitrary: l) auto

lemma hash_search_none:
  assumes ok: "ext_ok T" and none: "\<forall>p \<in> cells_of T. in_fd T p \<noteq> fd"
  shows "\<exists>l. hash_search fd cid (Bucket b) T = Some (l, None)"
proof -
  obtain cs where c: "chain (h_next T) (in_hash T b) cs" "set cs = hash_members T b"
    using ok unfolding ext_ok_def chains_ok_def by blast
  have "snd (search_list fd cid T (Bucket b) cs) = None"
    by (rule search_list_none) (use c none in \<open>auto simp: hash_members_def\<close>)
  then show ?thesis using hash_search_list[of T "Bucket b" cs fd cid] c by (auto simp: deref_def prod_eq_iff)
qed

lemma hash_search_found:
  assumes ok: "ext_ok T" and p: "p \<in> cells_of T"
  obtains ys zs where
    "chain (h_next T) (in_hash T (ext_conn_hash (in_fd T p) (in_conn_id T p))) (ys @ p # zs)"
    "set (ys @ p # zs) = hash_members T (ext_conn_hash (in_fd T p) (in_conn_id T p))"
    "hash_search (in_fd T p) (in_conn_id T p) (Bucket (ext_conn_hash (in_fd T p) (in_conn_id T p))) T
      = Some (if ys = [] then Bucket (ext_conn_hash (in_fd T p) (in_conn_id T p)) else Link (last ys), Some p)"
proof -
  let ?b = "ext_conn_hash (in_fd T p) (in_conn_id T p)"
  obtain cs where c: "chain (h_next T) (in_hash T ?b) cs" "set cs = hash_members T ?b"
    using ok unfolding ext_ok_def chains_ok_def by blast
  have "p \<in> set cs" unfolding c(2) using p by (simp add: hash_members_def)
  then obtain ys zs where cs: "cs = ys @ p # zs" by (meson split_list)
  have d: "distinct (ys @ p # zs)" using chain_distinct[OF c(1)] cs by simp
  have sub: "set cs \<subseteq> cells_of T" unfolding c(2) by (auto simp: hash_members_def)
  have others: "\<not> (in_fd T q = in_fd T p \<and> in_conn_id T q = in_conn_id T p)" if q: "q \<in> set ys" for q
  proof -
    have "q \<noteq> p" using q d by auto
    moreover have "q \<in> cells_of T" using q sub cs by auto
    ultimately show ?thesis using ext_ok_same_client[OF ok _ p] by blast
  qed
  have "search_list (in_fd T p) (in_conn_id T p) T (Bucket ?b) cs = (if ys = [] then Bucket ?b else Link (last ys), Some p)"
    unfolding cs by (rule search_list_some) (use others in auto)
  then show ?thesis using that[of ys zs] c cs hash_search_list[of T "Bucket ?b" cs] by (simp add: deref_def)
qed

end
