(* ===== verification/Ext_Conns_Ops.thy ===== *)
theory Ext_Conns_Ops
  imports Ext_Conns_Inv
begin

text \<open>
  Every operation on the external connections returns and keeps their invariant; what it changes in
  the set of them, and what stays.
\<close>

section \<open>What stays\<close>

text \<open>The fields of the structures that say who is connected to whom.\<close>

definition same_info :: "ext_ptr set \<Rightarrow> ext_table \<Rightarrow> ext_table \<Rightarrow> bool" where
  "same_info A T T' \<longleftrightarrow> (\<forall>q \<in> A. in_fd T' q = in_fd T q \<and> in_gen T' q = in_gen T q \<and> out_fd T' q = out_fd T q
     \<and> out_gen T' q = out_gen T q \<and> in_conn_id T' q = in_conn_id T q \<and> out_conn_id T' q = out_conn_id T q
     \<and> auth_key_id T' q = auth_key_id T q)"

text \<open>Which middle-end connections are ready: their heads are open.\<close>

definition same_heads :: "ext_table \<Rightarrow> ext_table \<Rightarrow> bool" where
  "same_heads T T' \<longleftrightarrow> (\<forall>k. o_next T' (Conn_Head k) = None \<longleftrightarrow> o_next T (Conn_Head k) = None)"

lemma same_info_trans: "\<lbrakk>same_info A T U; same_info A U V\<rbrakk> \<Longrightarrow> same_info A T V"
  by (simp add: same_info_def)

lemma same_heads_trans: "\<lbrakk>same_heads T U; same_heads U V\<rbrakk> \<Longrightarrow> same_heads T V"
  by (simp add: same_heads_def)

section \<open>Deleting\<close>

lemma free_links:
  assumes ok: "ext_ok T" and p: "p \<in> cells_of T"
  obtains inx ipv onx opv lnx lpv where
    "ring_unlink p (i_next T, i_prev T) = Some (inx, ipv)" "ring_unlink p (o_next T, o_prev T) = Some (onx, opv)"
    "ring_unlink p (lru_next T, lru_prev T) = Some (lnx, lpv)"
    "ring_family Conn_Head (\<lambda>j. client_members T j - {p}) inx ipv"
    "ring_family Conn_Head (\<lambda>j. server_members T j - {p}) onx opv"
    "ring_family lru_head (\<lambda>j. lru_members T j - {p}) lnx lpv"
    "\<And>q. q \<noteq> p \<Longrightarrow> (inx q = None \<longleftrightarrow> i_next T q = None) \<and> (onx q = None \<longleftrightarrow> o_next T q = None) \<and> (lnx q = None \<longleftrightarrow> lru_next T q = None)"
proof -
  note r = ext_okD(5-7)[OF ok]
  have heads: "p \<noteq> Conn_Head j" "p \<noteq> LRU_Head" for j using cell_no_head[OF p] by auto
  have pc: "p \<in> client_members T (in_fd T p)" using p by (simp add: client_members_def)
  have i: "i_next T p = None \<longleftrightarrow> (\<forall>j. p \<notin> client_members T j)"
    using fd_rings.family_member(2)[OF r(1) pc] pc by blast
  have o: "o_next T p = None \<longleftrightarrow> (\<forall>j. p \<notin> server_members T j)"
  proof (cases "out_fd T p = 0")
    case True
    then show ?thesis using ext_ok_fields(6)[OF ok p] by (auto simp: server_members_def)
  next
    case False
    then have ps: "p \<in> server_members T (out_fd T p)" using p by (simp add: server_members_def)
    show ?thesis using fd_rings.family_member(2)[OF r(2) ps] ps by blast
  qed
  have l: "lru_next T p = None \<longleftrightarrow> (\<forall>j. p \<notin> lru_members T j)" using p by (simp add: lru_members_def)
  obtain inx ipv where 1: "ring_unlink p (i_next T, i_prev T) = Some (inx, ipv)"
    "ring_family Conn_Head (\<lambda>j. client_members T j - {p}) inx ipv" "\<And>q. q \<noteq> p \<Longrightarrow> inx q = None \<longleftrightarrow> i_next T q = None"
    by (rule fd_rings.family_delete[OF r(1) members_separate(1) heads(1) i]) (rule that)
  obtain onx opv where 2: "ring_unlink p (o_next T, o_prev T) = Some (onx, opv)"
    "ring_family Conn_Head (\<lambda>j. server_members T j - {p}) onx opv" "\<And>q. q \<noteq> p \<Longrightarrow> onx q = None \<longleftrightarrow> o_next T q = None"
    by (rule fd_rings.family_delete[OF r(2) members_separate(2) heads(1) o]) (rule that)
  obtain lnx lpv where 3: "ring_unlink p (lru_next T, lru_prev T) = Some (lnx, lpv)"
    "ring_family lru_head (\<lambda>j. lru_members T j - {p}) lnx lpv" "\<And>q. q \<noteq> p \<Longrightarrow> lnx q = None \<longleftrightarrow> lru_next T q = None"
    by (rule lru_ring.family_delete[OF r(3) members_separate(3) heads(2) l]) (rule that)
  show ?thesis using that[OF 1(1) 2(1) 3(1) 1(2) 2(2) 3(2)] 1(3) 2(3) 3(3) by blast
qed

text \<open>The state after the deletion, written out.\<close>

definition freed :: "ext_ptr \<Rightarrow> ext_ptr field \<times> ext_ptr field \<Rightarrow> ext_ptr field \<times> ext_ptr field \<Rightarrow> ext_ptr field \<times> ext_ptr field
    \<Rightarrow> ext_ptr field \<Rightarrow> (int \<Rightarrow> ext_ptr option) \<Rightarrow> ext_table \<Rightarrow> ext_table" where
  "freed p Fi Fo Fl hn ih T = zero_cell p (T\<lparr>i_next := fst Fi, i_prev := snd Fi, o_next := fst Fo, o_prev := snd Fo,
     lru_next := fst Fl, lru_prev := snd Fl, h_next := hn, in_hash := ih, out_ref := (out_ref T)(in_fd T p := None),
     cells := (case p of Ext_Cell n \<Rightarrow> remove1 n (cells T) | _ \<Rightarrow> cells T), ext_connections := ext_connections T - 1\<rparr>)"

lemma freed_simps:
  "in_fd (freed p Fi Fo Fl hn ih T) = (in_fd T)(p := 0)" "in_gen (freed p Fi Fo Fl hn ih T) = (in_gen T)(p := 0)"
  "out_fd (freed p Fi Fo Fl hn ih T) = (out_fd T)(p := 0)" "out_gen (freed p Fi Fo Fl hn ih T) = (out_gen T)(p := 0)"
  "in_conn_id (freed p Fi Fo Fl hn ih T) = (in_conn_id T)(p := 0)" "out_conn_id (freed p Fi Fo Fl hn ih T) = (out_conn_id T)(p := 0)"
  "auth_key_id (freed p Fi Fo Fl hn ih T) = (auth_key_id T)(p := 0)"
  "i_next (freed p Fi Fo Fl hn ih T) = (fst Fi)(p := None)" "i_prev (freed p Fi Fo Fl hn ih T) = (snd Fi)(p := None)"
  "o_next (freed p Fi Fo Fl hn ih T) = (fst Fo)(p := None)" "o_prev (freed p Fi Fo Fl hn ih T) = (snd Fo)(p := None)"
  "lru_next (freed p Fi Fo Fl hn ih T) = (fst Fl)(p := None)" "lru_prev (freed p Fi Fo Fl hn ih T) = (snd Fl)(p := None)"
  "h_next (freed p Fi Fo Fl hn ih T) = hn(p := None)" "in_hash (freed p Fi Fo Fl hn ih T) = ih"
  "out_ref (freed p Fi Fo Fl hn ih T) = (out_ref T)(in_fd T p := None)" "out_id (freed p Fi Fo Fl hn ih T) = out_id T"
  "ext_connections (freed p Fi Fo Fl hn ih T) = ext_connections T - 1"
  "ext_connections_created (freed p Fi Fo Fl hn ih T) = ext_connections_created T" "lrand (freed p Fi Fo Fl hn ih T) = lrand T"
  "cells (freed p Fi Fo Fl hn ih T) = (case p of Ext_Cell n \<Rightarrow> remove1 n (cells T) | _ \<Rightarrow> cells T)"
  by (simp_all add: freed_def zero_cell_def)

lemma free_ext_freed:
  assumes ok: "ext_ok T" and p: "p \<in> cells_of T"
    and u: "ring_unlink p (i_next T, i_prev T) = Some (inx, ipv)" "ring_unlink p (o_next T, o_prev T) = Some (onx, opv)"
      "ring_unlink p (lru_next T, lru_prev T) = Some (lnx, lpv)"
    and ys: "ys \<noteq> [] \<Longrightarrow> last ys \<noteq> p"
  shows "free_ext (if ys = [] then Bucket b else Link (last ys)) p T
    = Some (freed p (inx, ipv) (onx, opv) (lnx, lpv) (if ys = [] then h_next T else (h_next T)(last ys := h_next T p))
        (if ys = [] then (in_hash T)(b := h_next T p) else in_hash T) T)"
proof -
  let ?T1 = "T\<lparr>i_next := inx, i_prev := ipv\<rparr>"
  let ?T2 = "?T1\<lparr>o_next := onx, o_prev := opv\<rparr>"
  let ?T3 = "?T2\<lparr>lru_next := lnx(p := None), lru_prev := lpv(p := None)\<rparr>"
  have 1: "i_unlink p T = Some ?T1" using u(1) by (simp add: i_unlink_def)
  have 2: "o_unlink p ?T1 = Some ?T2" using u(2) by (simp add: o_unlink_def)
  have 3: "lru_delete_ext_conn p ?T2 = Some ?T3" using u(3) by (simp add: lru_delete_ext_conn_def)
  obtain n where n: "p = Ext_Cell n" using p by (auto simp: cells_of_def)
  note s = ext_ok_fields(7-9)[OF ok p, unfolded n]
  show ?thesis
  proof (cases "ys = []")
    case True
    then show ?thesis unfolding free_ext_def 1 2 3 Option.bind.bind_lunit Let_def
      using n by (simp add: s store_link_def freed_def zero_cell_def)
  next
    case False
    then show ?thesis unfolding free_ext_def 1 2 3 Option.bind.bind_lunit Let_def
      using ys[OF False] n by (simp add: s store_link_def freed_def zero_cell_def)
  qed
qed

lemma cells_of_freed:
  assumes "ext_ok T" "p \<in> cells_of T"
  shows "cells_of (freed p Fi Fo Fl hn ih T) = cells_of T - {p}"
    "distinct (cells (freed p Fi Fo Fl hn ih T))"
    "int (length (cells (freed p Fi Fo Fl hn ih T))) = int (length (cells T)) - 1"
proof -
  obtain n where n: "p = Ext_Cell n" "n \<in> set (cells T)" using assms(2) by (auto simp: cells_of_def)
  have d: "distinct (cells T)" using ext_okD(1)[OF assms(1)] by (simp add: fields_ok_def)
  show "cells_of (freed p Fi Fo Fl hn ih T) = cells_of T - {p}" using d n by (auto simp: cells_of_def freed_simps set_remove1_eq)
  show "distinct (cells (freed p Fi Fo Fl hn ih T))" using d n by (simp add: freed_simps)
  have "length (remove1 n (cells T)) + 1 = length (cells T)" using n length_pos_if_in_set[OF n(2)] by (simp add: length_remove1)
  then show "int (length (cells (freed p Fi Fo Fl hn ih T))) = int (length (cells T)) - 1"
    using n by (simp add: freed_simps)
qed

lemma freed_chains:
  assumes ok: "ext_ok T" and p: "p \<in> cells_of T"
    and c: "chain (h_next T) (in_hash T b) (ys @ p # zs)" "set (ys @ p # zs) = hash_members T b"
    and b: "b = ext_conn_hash (in_fd T p) (in_conn_id T p)"
    and hn: "hn = (if ys = [] then h_next T else (h_next T)(last ys := h_next T p))"
    and ih: "ih = (if ys = [] then (in_hash T)(b := h_next T p) else in_hash T)"
  shows "chains_ok (freed p Fi Fo Fl hn ih T)"
proof -
  let ?F = "freed p Fi Fo Fl hn ih T"
  have d: "distinct (ys @ p # zs)" by (rule chain_distinct[OF c(1)])
  have mem: "hash_members ?F j = hash_members T j - {p}" for j
    using cells_of_freed(1)[OF ok p] by (auto simp: hash_members_def freed_simps)
  have "\<exists>cs. chain (h_next ?F) (in_hash ?F j) cs \<and> set cs = hash_members ?F j" for j
  proof (cases "j = b")
    case True
    have "chain (hn(p := None)) (ih b) (ys @ zs)"
    proof (cases "ys = []")
      case True
      then show ?thesis using chain_remove_first[of "h_next T" "in_hash T b" p zs] c(1) hn ih by simp
    next
      case False
      then show ?thesis using chain_remove[OF c(1) False] hn ih by simp
    qed
    moreover have "set (ys @ zs) = hash_members ?F b"
    proof -
      have "set (ys @ zs) = set (ys @ p # zs) - {p}" using d by auto
      then show ?thesis unfolding mem c(2)[symmetric] .
    qed
    ultimately show ?thesis unfolding True freed_simps by blast
  next
    case False
    obtain cs where cs: "chain (h_next T) (in_hash T j) cs" "set cs = hash_members T j"
      using ext_okD(2)[OF ok] unfolding chains_ok_def by blast
    have out: "q \<noteq> p \<and> (ys \<noteq> [] \<longrightarrow> q \<noteq> last ys)" if "q \<in> set cs" for q
    proof -
      have "q \<notin> hash_members T b" using that False unfolding cs(2) hash_members_def by auto
      then have "q \<notin> set (ys @ p # zs)" unfolding c(2) .
      then show ?thesis by auto
    qed
    have "chain (hn(p := None)) (in_hash T j) cs"
      by (rule chain_frame[OF cs(1)]) (use out hn in auto)
    moreover have "p \<notin> hash_members T j" using b False by (simp add: hash_members_def)
    ultimately show ?thesis unfolding mem freed_simps using cs(2) ih False by auto
  qed
  then show ?thesis unfolding chains_ok_def by blast
qed

lemma freed_ok:
  assumes ok: "ext_ok T" and p: "p \<in> cells_of T" and ch: "chains_ok (freed p (inx, ipv) (onx, opv) (lnx, lpv) hn ih T)"
    and f: "ring_family Conn_Head (\<lambda>j. client_members T j - {p}) inx ipv"
    "ring_family Conn_Head (\<lambda>j. server_members T j - {p}) onx opv"
    "ring_family lru_head (\<lambda>j. lru_members T j - {p}) lnx lpv"
    and nulls: "\<And>q. q \<noteq> p \<Longrightarrow> (inx q = None \<longleftrightarrow> i_next T q = None) \<and> (onx q = None \<longleftrightarrow> o_next T q = None) \<and> (lnx q = None \<longleftrightarrow> lru_next T q = None)"
  shows "ext_ok (freed p (inx, ipv) (onx, opv) (lnx, lpv) hn ih T)"
    "same_heads T (freed p (inx, ipv) (onx, opv) (lnx, lpv) hn ih T)"
    "same_info (- {p}) T (freed p (inx, ipv) (onx, opv) (lnx, lpv) hn ih T)"
proof -
  let ?F = "freed p (inx, ipv) (onx, opv) (lnx, lpv) hn ih T"
  have cells: "cells_of ?F = cells_of T - {p}" by (rule cells_of_freed(1)[OF ok p])
  have ph: "Conn_Head j \<noteq> p" "LRU_Head \<noteq> p" for j using cell_no_head[OF p] by auto
  have F: "fields_ok ?F"
    using ext_okD(1)[OF ok] cells_of_freed(2,3)[OF ok p] nulls unfolding fields_ok_def cells by (auto simp: freed_simps)
  have other: "in_fd T q \<noteq> in_fd T p" if "q \<in> cells_of T" "q \<noteq> p" for q using ext_ok_same_client[OF ok that(1) p] that(2) by blast
  have S: "slots_ok ?F"
  proof -
    have "q \<in> cells_of ?F \<and> in_fd ?F q = s" if "out_ref ?F s = Some q" for s q
    proof -
      have s: "s \<noteq> in_fd T p" "out_ref T s = Some q" using that by (auto simp: freed_simps split: if_splits)
      then have "q \<in> cells_of T" "in_fd T q = s" using ext_okD(3)[OF ok] unfolding slots_ok_def by blast+
      then show ?thesis using s(1) unfolding cells by (auto simp: freed_simps)
    qed
    moreover have "\<forall>s. out_id ?F s = 0 \<or> ext_slot (out_id ?F s) = s"
      using ext_okD(3)[OF ok] unfolding slots_ok_def freed_simps by blast
    moreover have "\<forall>q \<in> cells_of ?F. out_ref ?F (in_fd ?F q) = Some q \<and> out_id ?F (in_fd ?F q) = out_conn_id ?F q \<and>
        ext_slot (out_conn_id ?F q) = in_fd ?F q"
      unfolding cells using ext_ok_fields(7-9)[OF ok] other by (auto simp: freed_simps)
    ultimately show ?thesis unfolding slots_ok_def by blast
  qed
  have R: "rings_ok ?F"
  proof -
    have mem: "client_members ?F j = client_members T j - {p}" "server_members ?F j = server_members T j - {p}"
      "lru_members ?F u = lru_members T u - {p}" for j u
    proof -
      have "((fst (lnx, lpv))(p := None)) q \<noteq> None \<longleftrightarrow> lru_next T q \<noteq> None" if "q \<noteq> p" for q
        using nulls[OF that] that by simp
      then show "client_members ?F j = client_members T j - {p}" "server_members ?F j = server_members T j - {p}"
        "lru_members ?F u = lru_members T u - {p}"
        unfolding client_members_def server_members_def lru_members_def cells freed_simps by auto
    qed
    have "ring_family Conn_Head (client_members ?F) (i_next ?F) (i_prev ?F)"
      unfolding mem[abs_def] freed_simps by (rule fd_rings.family_frame[OF f(1)]) (use ph in auto)
    moreover have "ring_family Conn_Head (server_members ?F) (o_next ?F) (o_prev ?F)"
      unfolding mem[abs_def] freed_simps by (rule fd_rings.family_frame[OF f(2)]) (use ph in auto)
    moreover have "ring_family lru_head (lru_members ?F) (lru_next ?F) (lru_prev ?F)"
      unfolding mem[abs_def] freed_simps by (rule lru_ring.family_frame[OF f(3)]) (use ph in auto)
    moreover have "lru_next ?F LRU_Head \<noteq> None" using ext_okD(8)[OF ok] nulls[of LRU_Head] ph(2) by (simp add: freed_simps)
    ultimately show ?thesis unfolding rings_ok_def by blast
  qed
  show "ext_ok ?F" using F ch S R unfolding ext_ok_def by blast
  show "same_heads T ?F" unfolding same_heads_def using nulls ph by (auto simp: freed_simps)
  show "same_info (- {p}) T ?F" unfolding same_info_def by (auto simp: freed_simps)
qed

lemma delete_ext:
  assumes ok: "ext_ok T" and p: "p \<in> cells_of T"
  obtains T' where "get_ext_connection_by_in_conn_id (in_fd T p) g (in_conn_id T p) 1 T = Some (Deleted, T')" "ext_ok T'"
    "cells_of T' = cells_of T - {p}" "same_heads T T'" "same_info (- {p}) T T'" "out_id T' = out_id T"
    "ext_connections_created T' = ext_connections_created T" "lrand T' = lrand T"
    "\<And>h q. \<lbrakk>o_prev T p = Some h; o_next T p = Some q; h \<noteq> p\<rbrakk> \<Longrightarrow> o_next T' h = Some q"
proof -
  let ?b = "ext_conn_hash (in_fd T p) (in_conn_id T p)"
  obtain ys zs where c: "chain (h_next T) (in_hash T ?b) (ys @ p # zs)" "set (ys @ p # zs) = hash_members T ?b"
    "hash_search (in_fd T p) (in_conn_id T p) (Bucket ?b) T = Some (if ys = [] then Bucket ?b else Link (last ys), Some p)"
    using hash_search_found[OF ok p] by metis
  let ?l = "if ys = [] then Bucket ?b else Link (last ys)"
  obtain inx ipv onx opv lnx lpv where u:
    "ring_unlink p (i_next T, i_prev T) = Some (inx, ipv)" "ring_unlink p (o_next T, o_prev T) = Some (onx, opv)"
    "ring_unlink p (lru_next T, lru_prev T) = Some (lnx, lpv)"
    and f: "ring_family Conn_Head (\<lambda>j. client_members T j - {p}) inx ipv"
    "ring_family Conn_Head (\<lambda>j. server_members T j - {p}) onx opv"
    "ring_family lru_head (\<lambda>j. lru_members T j - {p}) lnx lpv"
    "\<And>q. q \<noteq> p \<Longrightarrow> (inx q = None \<longleftrightarrow> i_next T q = None) \<and> (onx q = None \<longleftrightarrow> o_next T q = None) \<and> (lnx q = None \<longleftrightarrow> lru_next T q = None)"
    by (rule free_links[OF ok p]) (rule that)
  let ?hn = "if ys = [] then h_next T else (h_next T)(last ys := h_next T p)"
  let ?ih = "if ys = [] then (in_hash T)(?b := h_next T p) else in_hash T"
  let ?F = "freed p (inx, ipv) (onx, opv) (lnx, lpv) ?hn ?ih T"
  have "last ys \<noteq> p" if "ys \<noteq> []"
    using chain_distinct[OF c(1)] last_in_set[OF that] by auto
  then have "free_ext ?l p T = Some ?F" using free_ext_freed[OF ok p u] by blast
  then have g: "get_ext_connection_by_in_conn_id (in_fd T p) g (in_conn_id T p) 1 T = Some (Deleted, ?F)"
    using c(3) ext_ok_fields(10)[OF ok p] by (simp add: get_ext_connection_by_in_conn_id_def Let_def)
  have ch: "chains_ok ?F" by (rule freed_chains[OF ok p c(1,2)]) auto
  have nx: "o_next ?F h = Some q" if "o_prev T p = Some h" "o_next T p = Some q" "h \<noteq> p" for h q
    using u(2) that by (auto simp: ring_unlink_def Let_def freed_simps)
  show ?thesis
    using that[OF g freed_ok(1)[OF ok p ch f] cells_of_freed(1)[OF ok p] freed_ok(2,3)[OF ok p ch f]] nx by (simp add: freed_simps)
qed

section \<open>Numbers\<close>

lemma ext_slot_mod: "ext_slot x = uint x mod 4194304"
proof -
  have "EXT_CONN_TABLE_SIZE - 1 = mask 22" by (simp add: EXT_CONN_TABLE_SIZE_def mask_eq_exp_minus_1)
  then show ?thesis by (simp add: ext_slot_def take_bit_eq_mask[symmetric] take_bit_eq_mod)
qed

lemma slot_and: assumes "0 \<le> h" "h < EXT_CONN_TABLE_SIZE" shows "h AND (EXT_CONN_TABLE_SIZE - 1) = h"
proof -
  have m: "EXT_CONN_TABLE_SIZE - 1 = mask 22" by (simp add: EXT_CONN_TABLE_SIZE_def mask_eq_exp_minus_1)
  have "h AND mask 22 = h mod 2 ^ 22" unfolding take_bit_eq_mask[symmetric] by (rule take_bit_eq_mod)
  then show ?thesis unfolding m using assms by (simp add: EXT_CONN_TABLE_SIZE_def)
qed
lemma or_mask_uint: "uint (old OR mask 22 :: 64 word) = uint old div 4194304 * 4194304 + 4194303"
proof -
  let ?w = "old OR mask 22"
  have "take_bit 22 (uint ?w) = mask 22"
    by (intro bit_eqI) (auto simp: bit_simps bit_uint_iff)
  then have low: "uint ?w mod 4194304 = 4194303" by (simp add: take_bit_eq_mod mask_eq_exp_minus_1)
  have "drop_bit 22 (uint ?w) = drop_bit 22 (uint old)" by (intro bit_eqI) (auto simp: bit_simps bit_uint_iff)
  then have high: "uint ?w div 4194304 = uint old div 4194304" by (simp add: drop_bit_eq_div)
  show ?thesis using div_mult_mod_eq[of "uint ?w" 4194304] low high by simp
qed
lemma next_conn_id_uint:
  assumes h: "0 \<le> h" "h < 4194304"
  shows "uint (next_conn_id old h) = ((uint old div 4194304 + 1) * 4194304 + h) mod 18446744073709551616"
proof -
  have m: "(word_of_int (EXT_CONN_TABLE_SIZE - 1) :: u64) = mask 22" by (simp add: EXT_CONN_TABLE_SIZE_def mask_eq_exp_minus_1)
  have hw: "uint (word_of_int h :: u64) = h" using h by (simp add: uint_word_of_int)
  have "uint (next_conn_id old h) = (uint (old OR mask 22) + 1 + h) mod 2 ^ 64"
    unfolding next_conn_id_def m uint_word_ariths(1) hw by (simp add: mod_simps)
  then show ?thesis unfolding or_mask_uint by (simp add: algebra_simps)
qed

lemma next_conn_id_slot:
  assumes h: "0 \<le> h" "h < 4194304"
  shows "ext_slot (next_conn_id old h) = h"
proof -
  have "uint (next_conn_id old h) mod 4194304 = ((uint old div 4194304 + 1) * 4194304 + h) mod 4194304"
    unfolding next_conn_id_uint[OF h] by (rule mod_mod_cancel) simp
  also have "\<dots> = h" unfolding mod_mult_self3 using h by (rule mod_pos_pos_trivial)
  finally show ?thesis by (simp add: ext_slot_mod)
qed

section \<open>Creating\<close>

text \<open>The state after a creation, written out.\<close>

definition added :: "nat \<Rightarrow> int \<times> int \<Rightarrow> int \<times> int \<Rightarrow> u64 \<Rightarrow> ext_ptr field \<times> ext_ptr field \<Rightarrow> ext_ptr field \<times> ext_ptr field \<Rightarrow> ext_table \<Rightarrow> ext_table" where
  "added n ci co key Fi Fo T = (let p = Ext_Cell n; b = ext_conn_hash (fst ci) 0; oid = next_conn_id (out_id T (fst ci)) (fst ci) in
     T\<lparr>o_prev := snd Fo, o_next := fst Fo, i_prev := snd Fi, i_next := fst Fi,
       h_next := (h_next T)(p := in_hash T b), in_fd := (in_fd T)(p := fst ci), in_gen := (in_gen T)(p := snd ci),
       out_fd := (out_fd T)(p := fst co), out_gen := (out_gen T)(p := snd co), in_conn_id := (in_conn_id T)(p := 0),
       out_conn_id := (out_conn_id T)(p := oid), auth_key_id := (auth_key_id T)(p := key),
       lru_prev := (lru_prev T)(p := None), lru_next := (lru_next T)(p := None),
       out_ref := (out_ref T)(fst ci := Some p), out_id := (out_id T)(fst ci := oid), in_hash := (in_hash T)(b := Some p),
       cells := n # cells T, ext_connections := ext_connections T + 1, ext_connections_created := ext_connections_created T + 1\<rparr>)"

lemma added_simps:
  "in_fd (added n ci co key Fi Fo T) = (in_fd T)(Ext_Cell n := fst ci)" "in_gen (added n ci co key Fi Fo T) = (in_gen T)(Ext_Cell n := snd ci)"
  "out_fd (added n ci co key Fi Fo T) = (out_fd T)(Ext_Cell n := fst co)" "out_gen (added n ci co key Fi Fo T) = (out_gen T)(Ext_Cell n := snd co)"
  "in_conn_id (added n ci co key Fi Fo T) = (in_conn_id T)(Ext_Cell n := 0)" "auth_key_id (added n ci co key Fi Fo T) = (auth_key_id T)(Ext_Cell n := key)"
  "out_conn_id (added n ci co key Fi Fo T) = (out_conn_id T)(Ext_Cell n := next_conn_id (out_id T (fst ci)) (fst ci))"
  "i_next (added n ci co key Fi Fo T) = fst Fi" "i_prev (added n ci co key Fi Fo T) = snd Fi"
  "o_next (added n ci co key Fi Fo T) = fst Fo" "o_prev (added n ci co key Fi Fo T) = snd Fo"
  "lru_next (added n ci co key Fi Fo T) = (lru_next T)(Ext_Cell n := None)" "lru_prev (added n ci co key Fi Fo T) = (lru_prev T)(Ext_Cell n := None)"
  "h_next (added n ci co key Fi Fo T) = (h_next T)(Ext_Cell n := in_hash T (ext_conn_hash (fst ci) 0))"
  "in_hash (added n ci co key Fi Fo T) = (in_hash T)(ext_conn_hash (fst ci) 0 := Some (Ext_Cell n))"
  "out_ref (added n ci co key Fi Fo T) = (out_ref T)(fst ci := Some (Ext_Cell n))"
  "out_id (added n ci co key Fi Fo T) = (out_id T)(fst ci := next_conn_id (out_id T (fst ci)) (fst ci))"
  "ext_connections (added n ci co key Fi Fo T) = ext_connections T + 1" "lrand (added n ci co key Fi Fo T) = lrand T"
  "ext_connections_created (added n ci co key Fi Fo T) = ext_connections_created T + 1" "cells (added n ci co key Fi Fo T) = n # cells T"
  "cells_of (added n ci co key Fi Fo T) = insert (Ext_Cell n) (cells_of T)"
  by (simp_all add: added_def Let_def cells_of_def)

text \<open>At most one structure per descriptor: there is room.\<close>

lemma few_ext_connections:
  assumes ok: "ext_ok T"
  shows "ext_connections T < MAX_CONNECTIONS"
proof -
  have d: "distinct (cells T)" "ext_connections T = int (length (cells T))" using ext_okD(1)[OF ok] by (auto simp: fields_ok_def)
  have c: "card (cells_of T) = length (cells T)" using d(1) by (simp add: cells_of_def card_image inj_on_def distinct_card)
  have inj: "inj_on (in_fd T) (cells_of T)" using ext_ok_same_client[OF ok] by (auto intro: inj_onI)
  have "in_fd T ` cells_of T \<subseteq> {0<..<MAX_CONNECTIONS}" using ext_ok_fields(1,2)[OF ok] by auto
  then have "card (in_fd T ` cells_of T) \<le> card {0<..<MAX_CONNECTIONS}" by (rule card_mono[rotated]) simp
  then have "length (cells T) \<le> nat (MAX_CONNECTIONS - 1)" using card_image[OF inj] c by simp
  then show ?thesis using d(2) by (simp add: MAX_CONNECTIONS_def)
qed

lemma added_chains:
  assumes ok: "ext_ok T" and n: "Ext_Cell n \<notin> cells_of T"
  shows "chains_ok (added n ci co key Fi Fo T)"
proof -
  let ?F = "added n ci co key Fi Fo T" and ?b = "ext_conn_hash (fst ci) 0"
  have mem: "hash_members ?F j = (if j = ?b then insert (Ext_Cell n) (hash_members T j) else hash_members T j)" for j
    using n unfolding hash_members_def added_simps by auto
  have "\<exists>cs. chain (h_next ?F) (in_hash ?F j) cs \<and> set cs = hash_members ?F j" for j
  proof -
    obtain cs where cs: "chain (h_next T) (in_hash T j) cs" "set cs = hash_members T j"
      using ext_okD(2)[OF ok] unfolding chains_ok_def by blast
    have out: "Ext_Cell n \<notin> set cs" using n unfolding cs(2) hash_members_def by simp
    have c: "chain (h_next ?F) (in_hash T j) cs" unfolding added_simps by (rule chain_frame[OF cs(1)]) (use out in auto)
    show ?thesis
    proof (cases "j = ?b")
      case True
      have "chain (h_next ?F) (in_hash ?F j) (Ext_Cell n # cs)" using c True by (simp add: added_simps)
      moreover have "set (Ext_Cell n # cs) = hash_members ?F j" using cs(2) True by (simp add: mem)
      ultimately show ?thesis by blast
    next
      case False
      then show ?thesis using c cs(2) by (auto simp: mem added_simps(15))
    qed
  qed
  then show ?thesis unfolding chains_ok_def by blast
qed

lemma added_ok:
  assumes ok: "ext_ok T" and n: "Ext_Cell n \<notin> cells_of T" and none: "\<forall>q \<in> cells_of T. in_fd T q \<noteq> fst ci"
    and ci: "0 < fst ci" "valid_fd (fst ci)" and co: "0 < fst co" "valid_fd (fst co)"
    and fi: "ring_family Conn_Head ((client_members T)(fst ci := {Ext_Cell n})) inx ipv"
    and fo: "ring_family Conn_Head ((server_members T)(fst co := insert (Ext_Cell n) (server_members T (fst co)))) onx opv"
    and nulls: "\<And>q. q \<noteq> Ext_Cell n \<Longrightarrow> onx q = None \<longleftrightarrow> o_next T q = None"
  shows "ext_ok (added n ci co key (inx, ipv) (onx, opv) T)" "same_heads T (added n ci co key (inx, ipv) (onx, opv) T)"
    "same_info (- {Ext_Cell n}) T (added n ci co key (inx, ipv) (onx, opv) T)"
proof -
  let ?F = "added n ci co key (inx, ipv) (onx, opv) T"
  have nc: "n \<notin> set (cells T)" using n by (auto simp: cells_of_def)
  have h: "0 \<le> fst ci" "fst ci < 4194304" using ci by (simp_all add: valid_fd_def MAX_CONNECTIONS_def)
  note slot = next_conn_id_slot[OF h]
  have F: "fields_ok ?F"
    using ext_okD(1)[OF ok] nc nulls ci co n unfolding fields_ok_def added_simps valid_fd_def by auto
  have S: "slots_ok ?F"
  proof -
    have "\<forall>q \<in> cells_of ?F. out_ref ?F (in_fd ?F q) = Some q \<and> out_id ?F (in_fd ?F q) = out_conn_id ?F q \<and>
        ext_slot (out_conn_id ?F q) = in_fd ?F q"
      unfolding added_simps using ext_ok_fields(7-9)[OF ok] none n slot by auto
    moreover have "q \<in> cells_of ?F \<and> in_fd ?F q = s" if "out_ref ?F s = Some q" for s q
    proof (cases "s = fst ci")
      case True
      then show ?thesis using that by (simp add: added_simps)
    next
      case False
      then have "out_ref T s = Some q" using that by (simp add: added_simps)
      then have "q \<in> cells_of T" "in_fd T q = s" using ext_okD(3)[OF ok] unfolding slots_ok_def by blast+
      then show ?thesis using n by (auto simp: added_simps)
    qed
    moreover have "\<forall>s. out_id ?F s = 0 \<or> ext_slot (out_id ?F s) = s"
      using ext_okD(3)[OF ok] slot unfolding slots_ok_def added_simps by simp
    ultimately show ?thesis unfolding slots_ok_def by blast
  qed
  have R: "rings_ok ?F"
  proof -
    have "client_members ?F j = ((client_members T)(fst ci := {Ext_Cell n})) j" for j
      using none n unfolding client_members_def added_simps by auto
    then have cm: "client_members ?F = (client_members T)(fst ci := {Ext_Cell n})" by (rule ext)
    have "server_members ?F j = ((server_members T)(fst co := insert (Ext_Cell n) (server_members T (fst co)))) j" for j
      using n co(1) unfolding server_members_def added_simps by auto
    then have sm: "server_members ?F = (server_members T)(fst co := insert (Ext_Cell n) (server_members T (fst co)))" by (rule ext)
    have "lru_members ?F u = lru_members T u" for u
      using n unfolding lru_members_def added_simps by auto
    then have lm: "lru_members ?F = lru_members T" by (rule ext)
    have "ring_family lru_head (lru_members T) (lru_next ?F) (lru_prev ?F)"
      by (rule lru_ring.family_frame[OF ext_okD(7)[OF ok]]) (use n in \<open>auto simp: added_simps lru_members_def\<close>)
    then show ?thesis unfolding rings_ok_def cm sm lm using fi fo ext_okD(8)[OF ok] by (simp add: added_simps)
  qed
  show "ext_ok ?F" using F added_chains[OF ok n] S R unfolding ext_ok_def by blast
  show "same_heads T ?F" unfolding same_heads_def using nulls by (auto simp: added_simps)
  show "same_info (- {Ext_Cell n}) T ?F" unfolding same_info_def by (auto simp: added_simps)
qed

text \<open>The ring of the client: opened if it is not, and then the structure appended.\<close>

lemma i_insert_family:
  assumes f: "ring_family Conn_Head (client_members T) (i_next T) (i_prev T)" and e: "client_members T fd = {}"
    and p: "p \<notin> cells_of T" "p = Ext_Cell n" and same: "\<And>q. q \<noteq> p \<Longrightarrow> i_next U q = i_next T q \<and> i_prev U q = i_prev T q"
  obtains inx ipv where "i_insert p fd U = Some (U\<lparr>i_next := inx, i_prev := ipv\<rparr>)"
    "ring_family Conn_Head ((client_members T)(fd := {p})) inx ipv"
proof -
  have fresh: "p \<noteq> Conn_Head j \<and> p \<notin> client_members T j" for j using p by (auto simp: client_members_def)
  have g: "ring_family Conn_Head (client_members T) (i_next U) (i_prev U)"
    by (rule fd_rings.family_frame[OF f]) (metis fresh same)
  define V where "V = (if i_next U (Conn_Head fd) = None
    then U\<lparr>i_next := (i_next U)(Conn_Head fd := Some (Conn_Head fd)), i_prev := (i_prev U)(Conn_Head fd := Some (Conn_Head fd))\<rparr> else U)"
  have V: "ring_family Conn_Head (client_members T) (i_next V) (i_prev V)" "i_next V (Conn_Head fd) = Some (Conn_Head fd)"
    using g fd_rings.family_open[OF g members_separate(1) e] fd_rings.family_no_member(1)[OF g e]
    unfolding V_def by (auto split: if_splits)
  obtain inx ipv where a: "ring_append (Conn_Head fd) p (i_next V, i_prev V) = Some (inx, ipv)"
    "ring_family Conn_Head ((client_members T)(fd := insert p (client_members T fd))) inx ipv"
    by (rule fd_rings.family_add[OF V(1) members_separate(1), of fd p]) (use V(2) fresh in auto)
  have "i_insert p fd U = Some (V\<lparr>i_next := inx, i_prev := ipv\<rparr>)"
    unfolding i_insert_def Let_def V_def[symmetric] using V(2) a(1) by simp
  moreover have "V\<lparr>i_next := inx, i_prev := ipv\<rparr> = U\<lparr>i_next := inx, i_prev := ipv\<rparr>" by (simp add: V_def)
  ultimately show ?thesis using that[where inx = inx and ipv = ipv] a(2) e by simp
qed

lemma create_ext:
  assumes ok: "ext_ok T" and none: "\<forall>q \<in> cells_of T. in_fd T q \<noteq> fst ci"
    and ci: "0 < fst ci" "valid_fd (fst ci)" and co: "0 < fst co" "valid_fd (fst co)" "o_next T (Conn_Head (fst co)) \<noteq> None"
    and ne: "co \<noteq> ci"
  obtains p T' where "create_ext_connection ci 0 (Some co) key T = Some (p, T')" "ext_ok T'" "p \<notin> cells_of T"
    "cells_of T' = insert p (cells_of T)" "same_heads T T'" "same_info (- {p}) T T'"
    "in_fd T' p = fst ci" "in_gen T' p = snd ci" "out_fd T' p = fst co" "out_gen T' p = snd co" "auth_key_id T' p = key"
    "out_conn_id T' p = next_conn_id (out_id T (fst ci)) (fst ci)" "out_id T' = (out_id T)(fst ci := out_conn_id T' p)"
    "ext_connections_created T' = ext_connections_created T + 1" "lrand T' = lrand T"
proof -
  define n where "n = new_cell (cells T)"
  define p where "p = Ext_Cell n"
  let ?b = "ext_conn_hash (fst ci) 0" and ?oid = "next_conn_id (out_id T (fst ci)) (fst ci)"
  have fresh: "p \<notin> cells_of T" using new_cell_fresh[of "cells T"] by (auto simp: p_def n_def cells_of_def)
  obtain l where l: "hash_search (fst ci) 0 (Bucket ?b) T = Some (l, None)" using hash_search_none[OF ok none] by blast
  define U where "U = (let T = zero_cell p (T\<lparr>cells := n # cells T\<rparr>) in
     T\<lparr>h_next := (h_next T)(p := in_hash T ?b), in_hash := (in_hash T)(?b := Some p),
       in_fd := (in_fd T)(p := fst ci), in_gen := (in_gen T)(p := snd ci), in_conn_id := (in_conn_id T)(p := 0)\<rparr>)"
  have e: "client_members T (fst ci) = {}" using none by (auto simp: client_members_def)
  obtain inx ipv where i: "i_insert p (fst ci) U = Some (U\<lparr>i_next := inx, i_prev := ipv\<rparr>)"
    "ring_family Conn_Head ((client_members T)(fst ci := {p})) inx ipv"
    by (rule i_insert_family[OF ext_okD(5)[OF ok] e fresh p_def, of U]) (auto simp: U_def zero_cell_def Let_def intro: that)
  have free: "out_ref T (fst ci) = None"
    using ext_okD(3)[OF ok] none unfolding slots_ok_def by (metis not_Some_eq)
  have h: "0 \<le> fst ci" "fst ci < EXT_CONN_TABLE_SIZE" using ci by (simp_all add: valid_fd_def MAX_CONNECTIONS_def EXT_CONN_TABLE_SIZE_def)
  have pick: "pick_slot (out_ref T) (fst ci) (lrand T) = Some (fst ci, lrand T)"
    by (subst pick_slot.simps) (simp add: slot_and[OF h] free)
  have oid: "?oid \<noteq> 0"
    using next_conn_id_slot[of "fst ci" "out_id T (fst ci)"] h ci(1) by (auto simp: EXT_CONN_TABLE_SIZE_def ext_slot_def)
  have freshs: "p \<noteq> Conn_Head j" "p \<notin> server_members T j" "p \<noteq> Conn_Head j \<and> p \<notin> server_members T j" for j using fresh by (auto simp: p_def server_members_def)
  have fs: "ring_family Conn_Head (server_members T) ((o_next T)(p := None)) ((o_prev T)(p := None))"
    by (rule fd_rings.family_frame[OF ext_okD(6)[OF ok]]) (use freshs in auto)
  have os: "((o_next T)(p := None)) (Conn_Head (fst co)) \<noteq> None" using co(3) freshs by auto
  obtain onx opv where o: "ring_append (Conn_Head (fst co)) p ((o_next T)(p := None), (o_prev T)(p := None)) = Some (onx, opv)"
    "ring_family Conn_Head ((server_members T)(fst co := insert p (server_members T (fst co)))) onx opv"
    "\<And>q. q \<noteq> p \<Longrightarrow> onx q = None \<longleftrightarrow> ((o_next T)(p := None)) q = None"
    by (rule fd_rings.family_add[OF fs members_separate(2) os freshs(3)]) (rule that)
  define W where "W = U\<lparr>i_next := inx, i_prev := ipv, out_ref := (out_ref T)(fst ci := Some p), out_id := (out_id T)(fst ci := ?oid),
    out_conn_id := (out_conn_id U)(p := ?oid), ext_connections := ext_connections T + 1, ext_connections_created := ext_connections_created T + 1\<rparr>"
  have room: "ext_connections T < EXT_CONN_TABLE_SIZE div 2"
    using few_ext_connections[OF ok] by (simp add: MAX_CONNECTIONS_def EXT_CONN_TABLE_SIZE_def)
  have U: "out_ref U = out_ref T" "out_id U = out_id T" "lrand U = lrand T" "ext_connections U = ext_connections T"
    "ext_connections_created U = ext_connections_created T" "U\<lparr>lrand := lrand T\<rparr> = U"
    by (simp_all add: U_def zero_cell_def Let_def)
  have new: "new_ext (fst ci) (snd ci) 0 ?b T = Some (p, W)"
    unfolding new_ext_def Let_def n_def[symmetric] p_def[symmetric] U_def[unfolded Let_def, symmetric]
    using room ci oid by (simp add: i pick U W_def)
  have W: "out_fd W p = 0" "o_next W p = None" "auth_key_id W p = 0" "o_next W = (o_next T)(p := None)" "o_prev W = (o_prev T)(p := None)"
    by (simp_all add: W_def U_def zero_cell_def Let_def)
  let ?F = "added n ci co key (inx, ipv) (onx, opv) T"
  have "W\<lparr>o_next := onx, o_prev := opv, out_fd := (out_fd W)(p := fst co), out_gen := (out_gen W)(p := snd co),
      auth_key_id := (auth_key_id W)(p := key)\<rparr> = ?F"
    by (simp add: W_def U_def added_def zero_cell_def Let_def p_def)
  then have c: "create_ext_connection ci 0 (Some co) key T = Some (p, ?F)"
    using new l W co ne os o(1) by (simp add: create_ext_connection_def get_ext_connection_by_in_conn_id_def Let_def)
  have nulls: "onx q = None \<longleftrightarrow> o_next T q = None" if "q \<noteq> Ext_Cell n" for q using o(3)[of q] that by (simp add: p_def)
  note F = added_ok[OF ok fresh[unfolded p_def] none ci co(1,2) i(2)[unfolded p_def] o(2)[unfolded p_def] nulls, of key]
  show ?thesis
    by (rule that[OF c F(1) fresh _ F(2) F(3)[folded p_def]]) (simp_all add: added_simps p_def)
qed

section \<open>Removing with notifications\<close>

definition removal_effects :: "(int \<Rightarrow> int \<Rightarrow> bool) \<Rightarrow> ext_ptr \<Rightarrow> int \<Rightarrow> ext_table \<Rightarrow> proxy_effect list" where
  "removal_effects alive p fl T =
     (if out_fd T p \<noteq> 0 \<and> fl AND 1 \<noteq> 0 \<and> alive (out_fd T p) (out_gen T p)
      then [notify_remote_closed (out_fd T p, out_gen T p) (out_conn_id T p)] else []) @
     (if fl AND 2 \<noteq> 0 \<and> alive (in_fd T p) (in_gen T p) then [Fail (in_fd T p) (in_gen T p) (-33)] else [])"

lemma remove_ext:
  assumes ok: "ext_ok T" and p: "p \<in> cells_of T"
  obtains T' where "remove_ext_connection alive p fl T = Some (removal_effects alive p fl T, T')" "ext_ok T'"
    "cells_of T' = cells_of T - {p}" "same_heads T T'" "same_info (- {p}) T T'" "out_id T' = out_id T"
    "ext_connections_created T' = ext_connections_created T" "lrand T' = lrand T"
    "\<And>h q. \<lbrakk>o_prev T p = Some h; o_next T p = Some q; h \<noteq> p\<rbrakk> \<Longrightarrow> o_next T' h = Some q"
proof -
  note f = ext_ok_fields[OF ok p]
  obtain T' where d: "get_ext_connection_by_in_conn_id (in_fd T p) (in_gen T p) (in_conn_id T p) 1 T = Some (Deleted, T')"
    and k: "ext_ok T'" "cells_of T' = cells_of T - {p}" "same_heads T T'" "same_info (- {p}) T T'" "out_id T' = out_id T"
    "ext_connections_created T' = ext_connections_created T" "lrand T' = lrand T"
    and nx: "\<And>h q. \<lbrakk>o_prev T p = Some h; o_next T p = Some q; h \<noteq> p\<rbrakk> \<Longrightarrow> o_next T' h = Some q"
    by (rule delete_ext[OF ok p, of "in_gen T p"]) (rule that)
  have found: "find_ext_connection_by_out_conn_id (out_conn_id T p) T = Some (Some p)"
    using find_by_out_conn_id_iff[OF ok] p by blast
  have pc: "p \<in> client_members T (in_fd T p)" using p by (simp add: client_members_def)
  have i: "i_next T p \<noteq> None" by (rule fd_rings.family_member(2)[OF ext_okD(5)[OF ok] pc])
  have o: "o_next T p \<noteq> None" if "out_fd T p \<noteq> 0"
  proof -
    have "p \<in> server_members T (out_fd T p)" using p that by (simp add: server_members_def)
    then show ?thesis by (rule fd_rings.family_member(2)[OF ext_okD(6)[OF ok]])
  qed
  have "remove_ext_connection alive p fl T = Some (removal_effects alive p fl T, T')"
    unfolding remove_ext_connection_def removal_effects_def
    using f(1,3,4,5,10) d found i o by (auto simp: Let_def)
  then show ?thesis using that k nx by blast
qed

section \<open>The ring by time of use\<close>

definition with_lru :: "ext_ptr field \<Rightarrow> ext_ptr field \<Rightarrow> ext_table \<Rightarrow> ext_table" where
  "with_lru n v T = T\<lparr>lru_next := n, lru_prev := v\<rparr>"

lemma with_lru_simps [simp]:
  "cells_of (with_lru n v T) = cells_of T" "same_info A T (with_lru n v T)" "same_heads T (with_lru n v T)"
  "out_id (with_lru n v T) = out_id T" "out_ref (with_lru n v T) = out_ref T" "lrand (with_lru n v T) = lrand T"
  "ext_connections_created (with_lru n v T) = ext_connections_created T"
  "lru_next (with_lru n v T) = n" "lru_prev (with_lru n v T) = v" "i_next (with_lru n v T) = i_next T"
  by (simp_all add: with_lru_def cells_of_def same_info_def same_heads_def)

lemma with_lru_ok:
  assumes ok: "ext_ok T" and f: "ring_family lru_head (lru_members (with_lru n v T)) n v" and h: "n LRU_Head \<noteq> None"
  shows "ext_ok (with_lru n v T)"
proof -
  have "fields_ok (with_lru n v T)" using ext_okD(1)[OF ok] unfolding fields_ok_def with_lru_simps by (simp add: with_lru_def)
  moreover have "chains_ok (with_lru n v T)"
    using ext_okD(2)[OF ok] unfolding chains_ok_def hash_members_def with_lru_simps by (simp add: with_lru_def)
  moreover have "slots_ok (with_lru n v T)" using ext_okD(3)[OF ok] unfolding slots_ok_def with_lru_simps by (simp add: with_lru_def)
  moreover have "client_members (with_lru n v T) = client_members T" "server_members (with_lru n v T) = server_members T"
    by (auto simp: client_members_def[abs_def] server_members_def[abs_def] cells_of_def with_lru_def)
  then have "rings_ok (with_lru n v T)"
    using f h ext_okD(5,6)[OF ok] unfolding rings_ok_def by (simp add: with_lru_def)
  ultimately show ?thesis unfolding ext_ok_def by blast
qed

lemma lru_delete_ok:
  assumes ok: "ext_ok T" and p: "p \<in> cells_of T"
  obtains n v where "lru_delete_ext_conn p T = Some (with_lru n v T)" "ext_ok (with_lru n v T)" "n p = None"
    "\<And>q. q \<noteq> p \<Longrightarrow> n q = None \<longleftrightarrow> lru_next T q = None"
proof -
  have l: "lru_next T p = None \<longleftrightarrow> (\<forall>j. p \<notin> lru_members T j)" using p by (simp add: lru_members_def)
  obtain n v where d: "ring_unlink p (lru_next T, lru_prev T) = Some (n, v)"
    "ring_family lru_head (\<lambda>j. lru_members T j - {p}) n v" "\<And>q. q \<noteq> p \<Longrightarrow> n q = None \<longleftrightarrow> lru_next T q = None"
    by (rule lru_ring.family_delete[OF ext_okD(7)[OF ok] members_separate(3) cell_no_head(2)[OF p] l]) (rule that)
  let ?n = "n(p := None)" and ?v = "v(p := None)"
  have h: "LRU_Head \<noteq> p" using cell_no_head(2)[OF p] by simp
  have "(n(p := None)) q \<noteq> None \<longleftrightarrow> q \<noteq> p \<and> lru_next T q \<noteq> None" for q using d(3)[of q] by auto
  then have m: "lru_members (with_lru ?n ?v T) = (\<lambda>j. lru_members T j - {p})"
    unfolding lru_members_def[abs_def] with_lru_simps by (intro ext) auto
  have "ring_family lru_head (lru_members (with_lru ?n ?v T)) ?n ?v"
    unfolding m by (rule lru_ring.family_frame[OF d(2)]) (use h in auto)
  then have "ext_ok (with_lru ?n ?v T)" by (rule with_lru_ok[OF ok]) (use h d(3)[OF h] ext_okD(8)[OF ok] in simp)
  moreover have "lru_delete_ext_conn p T = Some (with_lru ?n ?v T)"
    using d(1) by (simp add: lru_delete_ext_conn_def with_lru_def)
  ultimately show ?thesis using that[of ?n ?v] d(3) by simp
qed

lemma lru_insert_ok:
  assumes ok: "ext_ok T" and p: "p \<in> cells_of T"
  obtains n v where "lru_insert_ext_conn p T = Some (with_lru n v T)" "ext_ok (with_lru n v T)" "n p \<noteq> None"
proof -
  obtain n0 v0 where 0: "lru_delete_ext_conn p T = Some (with_lru n0 v0 T)" "ext_ok (with_lru n0 v0 T)" "n0 p = None"
    "\<And>q. q \<noteq> p \<Longrightarrow> n0 q = None \<longleftrightarrow> lru_next T q = None" by (rule lru_delete_ok[OF ok p]) (rule that)
  have fresh: "p \<noteq> LRU_Head \<and> p \<notin> lru_members (with_lru n0 v0 T) j" for j
    using 0(3) cell_no_head(2)[OF p] by (simp add: lru_members_def)
  obtain n v where a: "ring_append LRU_Head p (n0, v0) = Some (n, v)"
    "ring_family lru_head ((lru_members (with_lru n0 v0 T))(() := insert p (lru_members (with_lru n0 v0 T) ()))) n v"
    "n p \<noteq> None" "\<And>q. q \<noteq> p \<Longrightarrow> n q = None \<longleftrightarrow> n0 q = None"
    by (rule lru_ring.family_add[OF ext_okD(7)[OF 0(2)] members_separate(3) ext_okD(8)[OF 0(2)] fresh, unfolded with_lru_simps]) (rule that)
  have "n q \<noteq> None \<longleftrightarrow> q = p \<or> n0 q \<noteq> None" for q using a(3) a(4)[of q] by (cases "q = p") auto
  then have m: "lru_members (with_lru n v (with_lru n0 v0 T)) = (lru_members (with_lru n0 v0 T))(() := insert p (lru_members (with_lru n0 v0 T) ()))"
    using p unfolding lru_members_def[abs_def] with_lru_simps by (intro ext) auto
  have "LRU_Head \<noteq> p" using cell_no_head(2)[OF p] by simp
  then have h: "n LRU_Head \<noteq> None" using a(4)[of LRU_Head] ext_okD(8)[OF 0(2)] by simp
  have "ext_ok (with_lru n v (with_lru n0 v0 T))" by (rule with_lru_ok[OF 0(2)]) (use a(2) m h in simp_all)
  moreover have "with_lru n v (with_lru n0 v0 T) = with_lru n v T" by (simp add: with_lru_def)
  moreover have "lru_insert_ext_conn p T = Some (with_lru n v (with_lru n0 v0 T))"
    using 0(1) a(1) by (simp add: lru_insert_ext_conn_def with_lru_def)
  ultimately show ?thesis using that[of n v] a(3) by simp
qed

end
