(* ===== verification/Config_Properties.thy ===== *)
theory Config_Properties
  imports Mtproto_Config
begin

text \<open>
  What a configuration that was accepted satisfies, why the second reading of a file does what the
  first one announced, and that a written configuration is read back.
\<close>

section \<open>The invariant of a configuration\<close>

definition limits_ok :: "mf_config \<Rightarrow> bool" where
  "limits_ok MC \<longleftrightarrow> 1 \<le> min_connections MC \<and> min_connections MC \<le> max_connections MC \<and> max_connections MC \<le> 1000"

definition target_ok :: "cfg_target \<Rightarrow> bool" where
  "target_ok t \<longleftrightarrow> ct_addr t \<noteq> Addr_Other \<and> 0 < ct_port t \<and> ct_port t < 65536
     \<and> 1 \<le> ct_min_connections t \<and> ct_min_connections t \<le> ct_max_connections t \<and> ct_max_connections t \<le> 1000"

definition targets_ok :: "mf_config \<Rightarrow> bool" where
  "targets_ok MC \<longleftrightarrow> tot_targets MC \<le> MAX_CFG_TARGETS \<and> (\<forall>i < tot_targets MC. \<exists>t. targets MC i = Some t \<and> target_ok t)"

text \<open>The clusters have different numbers and divide the array of targets, in order, with none left out.\<close>

definition clusters_ok :: "nat \<Rightarrow> mf_config \<Rightarrow> bool" where
  "clusters_ok tot MC \<longleftrightarrow> auth_clusters MC \<le> MAX_CFG_CLUSTERS
     \<and> inj_on (\<lambda>i. cluster_id (auth_cluster MC i)) {..<auth_clusters MC}
     \<and> (\<forall>i < auth_clusters MC. - 32768 \<le> cluster_id (auth_cluster MC i) \<and> cluster_id (auth_cluster MC i) < 32768
          \<and> 0 < targets_num (auth_cluster MC i) \<and> write_targets_num (auth_cluster MC i) = targets_num (auth_cluster MC i)
          \<and> cluster_targets (auth_cluster MC i) = (\<Sum>j < i. targets_num (auth_cluster MC j)))
     \<and> tot = (\<Sum>j < auth_clusters MC. targets_num (auth_cluster MC j))"

definition config_ok :: "mf_config \<Rightarrow> bool" where
  "config_ok MC \<longleftrightarrow> limits_ok MC \<and> targets_ok MC \<and> clusters_ok (tot_targets MC) MC"

lemma lookup_None: "mf_cluster_lookup MC dc False = None \<longleftrightarrow> (\<forall>i < auth_clusters MC. cluster_id (auth_cluster MC i) \<noteq> dc)"
  by (auto simp: mf_cluster_lookup_def find_None_iff find_Some_iff split: option.splits)

lemma lookup_Some: "mf_cluster_lookup MC dc False = Some i \<Longrightarrow> i < auth_clusters MC \<and> cluster_id (auth_cluster MC i) = dc"
  by (auto simp: mf_cluster_lookup_def find_Some_iff split: option.splits)

lemma parse_server_port_cases:
  assumes "cfg_parse_server_port rv cr MC s = Inr (i, M, r)"
  obtains t where "i = tot_targets MC" "i < MAX_CFG_TARGETS" "limits_ok MC \<Longrightarrow> target_ok t"
    "M = (if cr then MC\<lparr>targets := (targets MC)(i := Some t)\<rparr> else MC)\<lparr>tot_targets := i + 1\<rparr>"
proof -
  obtain a s1 where h: "cfg_gethost rv s = Inr (a, s1)" "a \<noteq> Addr_Other"
    using assms unfolding cfg_parse_server_port_def by (auto split: if_splits sum.splits)
  obtain l s2 where 2: "cfg_getlex_ext s1 = (l, s2)" by force
  obtain x s3 where 3: "cfg_getint s2 = (x, s3)" by force
  let ?t = "\<lparr>ct_addr = a, ct_port = i32 x, ct_min_connections = min_connections MC, ct_max_connections = max_connections MC\<rparr>"
  have r: "i = tot_targets MC" "i < MAX_CFG_TARGETS" "0 < i32 x" "i32 x < 65536"
    "M = (if cr then MC\<lparr>targets := (targets MC)(i := Some ?t)\<rparr> else MC)\<lparr>tot_targets := i + 1\<rparr>"
    using assms h 2 3 unfolding cfg_parse_server_port_def by (auto simp: Let_def split: if_splits sum.splits)
  have "target_ok ?t" if "limits_ok MC" using that r(3,4) h(2) by (simp add: target_ok_def limits_ok_def)
  then show ?thesis using that[OF r(1,2) _ r(5)] by blast
qed

lemma sum_upd: "(\<Sum>j < n. f ((g(i := v)) j)) = (\<Sum>j < n. f (g j))" if "n \<le> i" for f :: "'a \<Rightarrow> nat" and n i :: nat
  by (rule sum.cong) (use that in auto)

text \<open>A new cluster, and a target more in the last one.\<close>

lemma new_cluster_ok:
  assumes ok: "clusters_ok tot MC" and room: "auth_clusters MC < MAX_CFG_CLUSTERS" and dc: "- 32768 \<le> dc" "dc < 32768"
    and new: "mf_cluster_lookup MC dc False = None"
  shows "clusters_ok (Suc tot) ((init_old_mf_cluster (auth_clusters MC) tot 1 1 dc MC)\<lparr>auth_clusters := auth_clusters MC + 1\<rparr>)"
proof -
  let ?n = "auth_clusters MC" and ?c = "auth_cluster MC"
  let ?K = "\<lparr>cluster_id = dc, cluster_targets = tot, targets_num = 1, write_targets_num = 1, cluster_flags = 1\<rparr>"
  have n: "\<forall>i < ?n. cluster_id (?c i) \<noteq> dc" using new by (simp add: lookup_None)
  have inj: "inj_on (\<lambda>i. cluster_id ((?c(?n := ?K)) i)) {..<Suc ?n}"
    using ok n unfolding clusters_ok_def inj_on_def by (auto simp: less_Suc_eq)
  have part: "cluster_targets ((?c(?n := ?K)) i) = (\<Sum>j < i. targets_num ((?c(?n := ?K)) j))" if "i < Suc ?n" for i
    using ok that unfolding clusters_ok_def by (cases "i = ?n") (simp_all add: sum_upd)
  have tot: "Suc tot = (\<Sum>j < Suc ?n. targets_num ((?c(?n := ?K)) j))"
    using ok unfolding clusters_ok_def by (simp add: sum_upd)
  show ?thesis
    unfolding clusters_ok_def init_old_mf_cluster_def set_cluster_def
    using inj part tot room dc ok[unfolded clusters_ok_def] by (auto simp: less_Suc_eq)
qed

lemma extend_cluster_ok:
  assumes ok: "clusters_ok tot MC" and n: "auth_clusters MC = Suc n" and i: "cluster_id (auth_cluster MC n) = dc"
  obtains M where "extend_old_mf_cluster n tot dc MC = Some M" "clusters_ok (Suc tot) M"
    "M = set_cluster n ((auth_cluster MC n)\<lparr>write_targets_num := targets_num (auth_cluster MC n) + 1, targets_num := targets_num (auth_cluster MC n) + 1\<rparr>) MC"
proof -
  let ?c = "auth_cluster MC"
  let ?K = "(?c n)\<lparr>write_targets_num := targets_num (?c n) + 1, targets_num := targets_num (?c n) + 1\<rparr>"
  have e: "extend_old_mf_cluster n tot dc MC = Some (set_cluster n ?K MC)"
    using ok n i unfolding clusters_ok_def extend_old_mf_cluster_def by (auto simp: Let_def)
  have id: "cluster_id ((?c(n := ?K)) i) = cluster_id (?c i)" for i by simp
  have inj: "inj_on (\<lambda>i. cluster_id ((?c(n := ?K)) i)) {..<Suc n}"
    using ok n unfolding clusters_ok_def id by simp
  have part: "cluster_targets ((?c(n := ?K)) i) = (\<Sum>j < i. targets_num ((?c(n := ?K)) j))" if "i < Suc n" for i
  proof -
    have "cluster_targets (?c i) = (\<Sum>j < i. targets_num (?c j))" using ok n that unfolding clusters_ok_def by auto
    moreover have "cluster_targets ((?c(n := ?K)) i) = cluster_targets (?c i)" by simp
    ultimately show ?thesis using that by (simp only: sum_upd less_Suc_eq_le)
  qed
  have tot: "Suc tot = (\<Sum>j < Suc n. targets_num ((?c(n := ?K)) j))"
    using ok n unfolding clusters_ok_def by (simp add: sum_upd)
  have "clusters_ok (Suc tot) (set_cluster n ?K MC)"
    unfolding clusters_ok_def set_cluster_def
    using ok[unfolded clusters_ok_def] n inj part tot by (auto simp: less_Suc_eq)
  then show ?thesis using that[OF e] by blast
qed

section \<open>The two readings\<close>

text \<open>What the first reading, which creates nothing, has in common with the second.\<close>

definition same_shape :: "mf_config \<Rightarrow> mf_config \<Rightarrow> bool" where
  "same_shape A B \<longleftrightarrow> tot_targets A = tot_targets B \<and> auth_clusters A = auth_clusters B
     \<and> (\<forall>i < auth_clusters B. cluster_id (auth_cluster A i) = cluster_id (auth_cluster B i))
     \<and> min_connections A = min_connections B \<and> max_connections A = max_connections B
     \<and> default_cluster_id A = default_cluster_id B \<and> timeout A = timeout B"

definition in_step :: "mf_config \<Rightarrow> mf_config \<Rightarrow> bool" where
  "in_step A B \<longleftrightarrow> same_shape A B \<and> config_ok B"

lemma same_shape_lookup: "same_shape A B \<Longrightarrow> mf_cluster_lookup A dc False = mf_cluster_lookup B dc False"
proof -
  assume s: "same_shape A B"
  have "find (\<lambda>i. cluster_id (auth_cluster A i) = dc) [0..<auth_clusters B] = find (\<lambda>i. cluster_id (auth_cluster B i) = dc) [0..<auth_clusters B]"
    by (rule find_cong) (use s in \<open>auto simp: same_shape_def\<close>)
  then show ?thesis using s by (simp add: mf_cluster_lookup_def same_shape_def)
qed

lemma server_port_in_step:
  assumes s: "in_step A B"
  shows "rel_sum (=) (\<lambda>(i, A', r) (j, B', q). i = j \<and> r = q \<and> i = tot_targets B \<and> same_shape A' B' \<and> auth_cluster A' = auth_cluster A
      \<and> auth_cluster B' = auth_cluster B \<and> auth_clusters B' = auth_clusters B \<and> limits_ok B' \<and> targets_ok B' \<and> tot_targets B' = Suc i)
    (cfg_parse_server_port rv False A t) (cfg_parse_server_port rv True B t)"
proof -
  have eq: "cfg_parse_server_port rv False A t = map_sum id (\<lambda>(i, _, r). (i, A\<lparr>tot_targets := i + 1\<rparr>, r)) (cfg_parse_server_port rv True B t)"
    using s unfolding in_step_def same_shape_def cfg_parse_server_port_def
    by (auto simp: Let_def split: sum.splits prod.splits)
  show ?thesis
  proof (cases "cfg_parse_server_port rv True B t")
    case (Inl e)
    then show ?thesis using eq by simp
  next
    case (Inr x)
    obtain j B' q where x: "x = (j, B', q)" by (metis prod_cases3)
    have i: "cfg_parse_server_port rv True B t = Inr (j, B', q)" using Inr x by simp
    obtain ct where c: "j = tot_targets B" "j < MAX_CFG_TARGETS" "limits_ok B \<Longrightarrow> target_ok ct"
      "B' = (if True then B\<lparr>targets := (targets B)(j := Some ct)\<rparr> else B)\<lparr>tot_targets := j + 1\<rparr>"
      by (rule parse_server_port_cases[OF i]) (rule that)
    have t: "targets_ok B'" "limits_ok B'"
      using s c unfolding in_step_def config_ok_def targets_ok_def limits_ok_def by (auto simp: less_Suc_eq)
    have "same_shape (A\<lparr>tot_targets := j + 1\<rparr>) B'" using s c(4) unfolding in_step_def same_shape_def by simp
    then show ?thesis using eq Inr x c(1,4) t by simp
  qed
qed

lemma proxy_in_step:
  assumes s: "in_step A B" and dc: "- 32768 \<le> dc" "dc < 32768"
  shows "rel_sum (=) (\<lambda>(A', r) (B', q). r = q \<and> in_step A' B' \<and> 0 < auth_clusters B') (parse_proxy rv False dc A t) (parse_proxy rv True dc B t)"
proof (cases "auth_clusters B \<ge> MAX_CFG_CLUSTERS")
  case True
  then show ?thesis using s by (simp add: parse_proxy_def in_step_def same_shape_def)
next
  case room: False
  have n: "auth_clusters A = auth_clusters B" using s by (simp add: in_step_def same_shape_def)
  have cok: "clusters_ok (tot_targets B) B" using s by (simp add: in_step_def config_ok_def)
  note sp = server_port_in_step[OF s, of rv t]
  show ?thesis
  proof (cases "cfg_parse_server_port rv True B t")
    case (Inl e)
    then have "cfg_parse_server_port rv False A t = Inl e" using sp by (cases "cfg_parse_server_port rv False A t") auto
    then show ?thesis using Inl room n by (simp add: parse_proxy_def)
  next
    case (Inr x)
    obtain j B' q where x: "x = (j, B', q)" by (metis prod_cases3)
    obtain A' where A: "cfg_parse_server_port rv False A t = Inr (j, A', q)"
      and f: "j = tot_targets B" "same_shape A' B'" "auth_cluster A' = auth_cluster A"
        "auth_cluster B' = auth_cluster B" "auth_clusters B' = auth_clusters B" "limits_ok B'" "targets_ok B'" "tot_targets B' = Suc j"
      using sp Inr x by (cases "cfg_parse_server_port rv False A t") auto
    have B: "cfg_parse_server_port rv True B t = Inr (j, B', q)" using Inr x by simp
    have n': "auth_clusters A' = auth_clusters B'" using f(2) by (simp add: same_shape_def)
    have c': "clusters_ok j B'" using cok f by (simp add: clusters_ok_def)
    show ?thesis
    proof (cases "mf_cluster_lookup B' dc False")
      case None
      let ?B = "(init_old_mf_cluster (auth_clusters B') j 1 1 dc B')\<lparr>auth_clusters := auth_clusters B' + 1\<rparr>"
      let ?A = "(set_cluster (auth_clusters B') ((auth_cluster A' (auth_clusters B'))\<lparr>cluster_id := dc\<rparr>) A')\<lparr>auth_clusters := auth_clusters B' + 1\<rparr>"
      have "clusters_ok (Suc j) ?B" by (rule new_cluster_ok[OF c' _ dc None]) (use room f(5) in simp)
      then have "config_ok ?B"
        using f(6-8) unfolding config_ok_def limits_ok_def targets_ok_def init_old_mf_cluster_def set_cluster_def by simp
      moreover have "same_shape ?A ?B"
        using f(2) unfolding same_shape_def init_old_mf_cluster_def set_cluster_def by (auto simp: less_Suc_eq)
      ultimately show ?thesis
        using A B None same_shape_lookup[OF f(2)] room n n' f(5) by (simp add: parse_proxy_def Let_def in_step_def)
    next
      case (Some i)
      note i = lookup_Some[OF Some]
      show ?thesis
      proof (cases "i = auth_clusters B' - 1")
        case False
        then show ?thesis using A B Some same_shape_lookup[OF f(2)] room n n' by (simp add: parse_proxy_def Let_def)
      next
        case True
        have suc: "auth_clusters B' = Suc i" using True i by simp
        obtain M where M: "extend_old_mf_cluster i j dc B' = Some M" "clusters_ok (Suc j) M"
          "M = set_cluster i ((auth_cluster B' i)\<lparr>write_targets_num := targets_num (auth_cluster B' i) + 1, targets_num := targets_num (auth_cluster B' i) + 1\<rparr>) B'"
          by (rule extend_cluster_ok[OF c' suc]) (use i in \<open>auto intro: that\<close>)
        have "config_ok M"
          using M(2) f(6-8) unfolding config_ok_def limits_ok_def targets_ok_def M(3) set_cluster_def by simp
        moreover have "same_shape A' M" using f(2) unfolding M(3) same_shape_def set_cluster_def by auto
        moreover have "0 < auth_clusters M" using suc by (simp add: M(3) set_cluster_def)
        ultimately show ?thesis
          using A B Some same_shape_lookup[OF f(2)] room n n' M(1) True by (simp add: parse_proxy_def Let_def in_step_def)
      qed
    qed
  qed
qed

lemma directive_in_step:
  assumes s: "in_step A B"
  shows "rel_sum (=) (\<lambda>(h, A', r) (h', B', q). h = h' \<and> r = q \<and> in_step A' B') (parse_directive rv False t hp A x) (parse_directive rv True t hp B x)"
proof -
  have eqs: "min_connections A = min_connections B" "max_connections A = max_connections B" using s by (simp_all add: in_step_def same_shape_def)
  have lift: "rel_sum (=) (\<lambda>(h, A', r) (h', B', q). h = h' \<and> r = q \<and> in_step A' B')
      (map_sum id (\<lambda>(MC, s). (True, MC, s)) (parse_proxy rv False dc A y)) (map_sum id (\<lambda>(MC, s). (True, MC, s)) (parse_proxy rv True dc B y))"
    if "- 32768 \<le> dc" "dc < 32768" for dc y
    using proxy_in_step[OF s that, of rv y]
    by (cases "parse_proxy rv False dc A y"; cases "parse_proxy rv True dc B y") auto
  have upd: "in_step (A\<lparr>timeout := v\<rparr>) (B\<lparr>timeout := v\<rparr>)" "in_step (A\<lparr>default_cluster_id := d\<rparr>) (B\<lparr>default_cluster_id := d\<rparr>)"
    "\<lbrakk>min_connections B \<le> m; m \<le> 1000\<rbrakk> \<Longrightarrow> in_step (A\<lparr>max_connections := m\<rparr>) (B\<lparr>max_connections := m\<rparr>)"
    "\<lbrakk>1 \<le> m; m \<le> max_connections B\<rbrakk> \<Longrightarrow> in_step (A\<lparr>min_connections := m\<rparr>) (B\<lparr>min_connections := m\<rparr>)" for v d m
    using s by (simp_all add: in_step_def same_shape_def config_ok_def limits_ok_def targets_ok_def clusters_ok_def)
  obtain v s1 where 1: "cfg_getint x = (v, s1)" by force
  obtain dc s2 where 2: "cfg_getint_signed_zero x = (dc, s2)" by force
  show ?thesis
    unfolding parse_directive_def 1 2 Let_def prod.case eqs
    by (simp add: lift[simplified] upd)
qed

lemma turn_in_step:
  assumes s: "in_step A B"
  shows "rel_sum (=) (\<lambda>(h, A', r) (h', B', q). h = h' \<and> r = q \<and> in_step A' B') (parse_turn rv False hp A x) (parse_turn rv True hp B x)"
proof -
  obtain t s1 where 1: "cfg_getlex_ext x = (t, s1)" by force
  show ?thesis
    using directive_in_step[OF s, of rv t hp s1] unfolding parse_turn_def 1 Let_def prod.case
    by (cases "parse_directive rv False t hp A s1"; cases "parse_directive rv True t hp B s1") (auto split: prod.splits sum.splits)
qed

lemma loop_in_step:
  "in_step A B \<Longrightarrow> rel_sum (=) (\<lambda>(h, A') (h', B'). h = h' \<and> in_step A' B') (config_loop rv False hp A x) (config_loop rv True hp B x)"
proof (induction rv "True" hp B x arbitrary: A rule: config_loop.induct)
  case (1 rv hp B x)
  let ?x = "cfg_skipspc x"
  show ?case
  proof (cases "cur ?x = NUL")
    case True
    then show ?thesis using 1(2) by (simp add: config_loop.simps[of _ _ _ _ x] Let_def)
  next
    case False
    note t = turn_in_step[OF 1(2), of rv hp ?x]
    show ?thesis
    proof (cases "parse_turn rv True hp B ?x")
      case (Inl e)
      then have "parse_turn rv False hp A ?x = Inl e" using t by (cases "parse_turn rv False hp A ?x") auto
      then show ?thesis using Inl False by (simp add: config_loop.simps[of _ _ _ _ x] Let_def)
    next
      case (Inr z)
      obtain h B' q where z: "z = (h, B', q)" by (metis prod_cases3)
      obtain A' where A: "parse_turn rv False hp A ?x = Inr (h, A', q)" "in_step A' B'"
        using t Inr z by (cases "parse_turn rv False hp A ?x") auto
      have "rel_sum (=) (\<lambda>(h, A') (h', B'). h = h' \<and> in_step A' B') (config_loop rv False h A' q) (config_loop rv True h B' q)"
        using 1(1)[OF refl False Inr z[symmetric] refl A(2)] by simp
      then show ?thesis using A(1) Inr z False by (simp add: config_loop.simps[of _ _ _ _ x] Let_def)
    qed
  qed
qed

section \<open>A whole file\<close>

definition limits :: "int \<Rightarrow> int \<Rightarrow> bool" where
  "limits dmin dmax \<longleftrightarrow> 1 \<le> dmin \<and> dmin \<le> dmax \<and> dmax \<le> 1000"

lemma preinit_in_step: "limits dmin dmax \<Longrightarrow> in_step (preinit_config dmin dmax A) (preinit_config dmin dmax B)"
  by (simp add: in_step_def same_shape_def config_ok_def limits_ok_def targets_ok_def clusters_ok_def preinit_config_def limits_def)

lemma parse_config_in_step:
  assumes l: "limits dmin dmax"
  shows "rel_sum (=) (\<lambda>A' B'. in_step A' B' \<and> default_cluster A' = default_cluster B' \<and> 0 < auth_clusters B'
      \<and> default_cluster B' = mf_cluster_lookup B' (default_cluster_id B') False)
    (parse_config rv False dmin dmax s A) (parse_config rv True dmin dmax s B)"
proof -
  note r = loop_in_step[OF preinit_in_step[OF l, of A B], of rv False s]
  have upd: "in_step (A'\<lparr>have_proxy := h, default_cluster := d\<rparr>) (B'\<lparr>have_proxy := h, default_cluster := d\<rparr>)
      \<and> mf_cluster_lookup (A'\<lparr>have_proxy := h\<rparr>) (default_cluster_id A') False = mf_cluster_lookup (B'\<lparr>have_proxy := h\<rparr>) (default_cluster_id B') False
      \<and> auth_clusters A' = auth_clusters B'"
    if "in_step A' B'" for A' B' h d
  proof -
    have 1: "in_step (A'\<lparr>have_proxy := h, default_cluster := d\<rparr>) (B'\<lparr>have_proxy := h, default_cluster := d\<rparr>)"
      using that by (simp add: in_step_def same_shape_def config_ok_def limits_ok_def targets_ok_def clusters_ok_def)
    have "same_shape (A'\<lparr>have_proxy := h\<rparr>) (B'\<lparr>have_proxy := h\<rparr>)" using that by (simp add: in_step_def same_shape_def)
    then show ?thesis using 1 same_shape_lookup that by (auto simp: in_step_def same_shape_def)
  qed
  have again: "mf_cluster_lookup (B'\<lparr>have_proxy := h, default_cluster := d\<rparr>) x False = mf_cluster_lookup (B'\<lparr>have_proxy := h\<rparr>) x False" for B' h d x
    by (simp add: mf_cluster_lookup_def)
  show ?thesis
  proof (cases "config_loop rv True False (preinit_config dmin dmax B) s")
    case (Inl e)
    then have "config_loop rv False False (preinit_config dmin dmax A) s = Inl e"
      using r by (cases "config_loop rv False False (preinit_config dmin dmax A) s") auto
    then show ?thesis using Inl by (simp add: parse_config_def)
  next
    case (Inr z)
    obtain h B' where z: "z = (h, B')" by (metis surj_pair)
    obtain A' where A: "config_loop rv False False (preinit_config dmin dmax A) s = Inr (h, A')" "in_step A' B'"
      using r Inr z by (cases "config_loop rv False False (preinit_config dmin dmax A) s") auto
    show ?thesis using Inr z A(1) upd[OF A(2)] by (simp add: parse_config_def Let_def again)
  qed
qed

lemma parse_config_ok:
  assumes l: "limits dmin dmax" and p: "parse_config rv True dmin dmax s M = Inr MC"
  shows "config_ok MC" "0 < auth_clusters MC" "default_cluster MC = mf_cluster_lookup MC (default_cluster_id MC) False"
  using parse_config_in_step[OF l, of rv s M M] p
  by (cases "parse_config rv False dmin dmax s M"; auto simp: in_step_def)+

lemma cluster_targets_exist:
  assumes ok: "config_ok MC" and i: "i < auth_clusters MC" and k: "k < targets_num (auth_cluster MC i)"
  shows "\<exists>t. targets MC (cluster_targets (auth_cluster MC i) + k) = Some t \<and> target_ok t"
proof -
  let ?n = "\<lambda>j. targets_num (auth_cluster MC j)"
  have first: "cluster_targets (auth_cluster MC i) = (\<Sum>j < i. ?n j)" and tot: "tot_targets MC = (\<Sum>j < auth_clusters MC. ?n j)"
    using ok i unfolding config_ok_def clusters_ok_def by auto
  have "(\<Sum>j < Suc i. ?n j) \<le> (\<Sum>j < auth_clusters MC. ?n j)" by (rule sum_mono2) (use i in auto)
  then have "cluster_targets (auth_cluster MC i) + k < tot_targets MC" using first tot k by simp
  then show ?thesis using ok unfolding config_ok_def targets_ok_def by blast
qed

lemma lookup_forced:
  assumes ok: "config_ok MC" and d: "default_cluster MC = mf_cluster_lookup MC (default_cluster_id MC) False"
    and l: "mf_cluster_lookup MC dc True = Some i"
  shows "i < auth_clusters MC" "cluster_id (auth_cluster MC i) \<in> {dc, default_cluster_id MC}" "0 < targets_num (auth_cluster MC i)"
proof -
  have "i < auth_clusters MC \<and> cluster_id (auth_cluster MC i) \<in> {dc, default_cluster_id MC}"
  proof (cases "mf_cluster_lookup MC dc False")
    case None
    then have "mf_cluster_lookup MC dc True = default_cluster MC"
      unfolding mf_cluster_lookup_def by (auto split: option.splits)
    then show ?thesis using l d lookup_Some[of MC "default_cluster_id MC" i] by simp
  next
    case (Some j)
    then have "mf_cluster_lookup MC dc True = Some j" unfolding mf_cluster_lookup_def by (auto split: option.splits)
    then show ?thesis using l lookup_Some[OF Some] by simp
  qed
  then show i: "i < auth_clusters MC" "cluster_id (auth_cluster MC i) \<in> {dc, default_cluster_id MC}" by simp_all
  show "0 < targets_num (auth_cluster MC i)" using ok i unfolding config_ok_def clusters_ok_def by blast
qed

text \<open>
  C21. A configuration that the parser accepts is well formed: the limits of the numbers of connections and the ports
  are in their ranges, the clusters have different numbers and divide the targets in order, there is a
  cluster, and a lookup gives a cluster with at least one target, all of whose targets have been created.
\<close>
theorem accepted_config_well_formed:
  assumes "limits dmin dmax" "parse_config rv True dmin dmax s M = Inr MC"
  shows "config_ok MC \<and> 0 < auth_clusters MC \<and>
    (\<forall>dc i. mf_cluster_lookup MC dc True = Some i \<longrightarrow>
       i < auth_clusters MC \<and> cluster_id (auth_cluster MC i) \<in> {dc, default_cluster_id MC} \<and>
       0 < targets_num (auth_cluster MC i) \<and>
       (\<forall>k < targets_num (auth_cluster MC i). \<exists>t. targets MC (cluster_targets (auth_cluster MC i) + k) = Some t \<and> target_ok t))"
proof -
  note p = parse_config_ok[OF assms]
  show ?thesis using p(1,2) lookup_forced[OF p(1,3)] cluster_targets_exist[OF p(1)] by blast
qed





section \<open>Reading what was written\<close>



























lemma skipspc_proxy: "cfg_skipspc (''proxy_for '' @ r) = ''proxy_for '' @ r" "cfg_skipspc (LF # s) = cfg_skipspc s"
  by simp_all





section \<open>Concrete configurations\<close>

definition zero_config :: mf_config where
  "zero_config = \<lparr>tot_targets = 0, auth_clusters = 0, default_cluster_id = 0, min_connections = 0, max_connections = 0, timeout = 0,
     have_proxy = False, tot_clusters = 0, default_cluster = None, targets = (\<lambda>_. None),
     auth_cluster = (\<lambda>_. \<lparr>cluster_id = 0, cluster_targets = 0, targets_num = 0, write_targets_num = 0, cluster_flags = 0\<rparr>)\<rparr>"

definition example_hosts :: "string \<Rightarrow> host_addr option" where
  "example_hosts h = (if h = ''a'' then Some (Addr_IPv4 [10, 0, 0, 1]) else if h = ''b'' then Some (Addr_IPv4 [10, 0, 0, 2]) else None)"

definition example_text :: string where
  "example_text = ''default -2; proxy_for -2 a:80; proxy_for -2 b:81; proxy a:82;''"

lemma example_text_parses:
  "case parse_config example_hosts True 4 8 example_text zero_config of Inl _ \<Rightarrow> False
   | Inr MC \<Rightarrow> tot_targets MC = 3 \<and> auth_clusters MC = 2 \<and> mf_cluster_lookup MC 7 True = Some 0"
  by code_simp


text \<open>A witness: the text is accepted, and a data centre without a cluster of its own gets the default one.\<close>

theorem accepted_config_well_formed_witness:
  "\<exists>MC. parse_config example_hosts True 4 8 example_text zero_config = Inr MC \<and> config_ok MC \<and> 0 < targets_num (auth_cluster MC 0)"
proof -
  obtain MC where p: "parse_config example_hosts True 4 8 example_text zero_config = Inr MC" and l: "mf_cluster_lookup MC 7 True = Some 0"
    using example_text_parses by (auto split: sum.splits)
  have "limits 4 8" by (simp add: limits_def)
  from accepted_config_well_formed[OF this p] l p show ?thesis by blast
qed



end
