(* ===== verification/Proxy_Engine.thy ===== *)
theory Proxy_Engine
  imports Proxy_Core Ext_Conns_Ops Config_Properties
begin

text \<open>
  The engine as a state machine: its invariant, the events it is given, what the connections below it
  may do between two events, and that every event keeps the invariant and fails no assertion.
\<close>

section \<open>The invariant\<close>

definition is_middle :: "proxy \<Rightarrow> conn_ref \<Rightarrow> bool" where
  "is_middle W d \<longleftrightarrow> (\<exists>D. px_conns W d = Some D \<and> \<not> mc_client D)"

definition tagged :: "proxy \<Rightarrow> conn_ref \<Rightarrow> bool" where
  "tagged W d \<longleftrightarrow> (\<exists>D. px_conns W d = Some D \<and> \<not> mc_client D \<and> mc_tag D = get_conn_tag d)"

text \<open>
  A descriptor belongs to one connection at a time; a middle-end connection has its tag or none, it has it
  exactly while its ring is open, and every external connection leads to one that has it.
\<close>

definition conns_ok :: "proxy \<Rightarrow> bool" where
  "conns_ok W \<longleftrightarrow> (\<forall>c. px_conns W c \<noteq> None \<longrightarrow> 0 < fst c \<and> fst c < MAX_CONNECTIONS)
     \<and> (\<forall>c c'. px_conns W c \<noteq> None \<and> px_conns W c' \<noteq> None \<and> fst c = fst c' \<longrightarrow> c = c')
     \<and> (\<forall>c C. px_conns W c = Some C \<and> \<not> mc_client C \<longrightarrow> mc_tag C \<in> {0, get_conn_tag c})
     \<and> (\<forall>t c. c \<in> set (px_pool W t) \<longrightarrow> is_middle W c)"

definition heads_ok :: "proxy \<Rightarrow> bool" where
  "heads_ok W \<longleftrightarrow> (\<forall>fd. o_next (px_ext W) (Conn_Head fd) \<noteq> None \<longleftrightarrow> (\<exists>g. tagged W (fd, g)))"

definition routed :: "proxy \<Rightarrow> bool" where
  "routed W \<longleftrightarrow> (\<forall>p \<in> cells_of (px_ext W). tagged W (out_fd (px_ext W) p, out_gen (px_ext W) p))"

definition config_good :: "mf_config \<Rightarrow> bool" where
  "config_good MC \<longleftrightarrow> config_ok MC \<and> 0 < auth_clusters MC \<and> default_cluster MC = mf_cluster_lookup MC (default_cluster_id MC) False"

definition engine_ok :: "proxy \<Rightarrow> bool" where
  "engine_ok W \<longleftrightarrow> ext_ok (px_ext W) \<and> conns_ok W \<and> heads_ok W \<and> routed W \<and> config_good (px_config W)"

lemma get_conn_tag_pos: "get_conn_tag c > 0"
proof -
  have "0 \<le> snd c AND 0xffffff" by simp
  then show ?thesis unfolding get_conn_tag_def by linarith
qed

text \<open>What the invariant reads of the connections.\<close>

definition conn_view :: "proxy \<Rightarrow> conn_ref \<Rightarrow> (bool \<times> int) option" where
  "conn_view W c = map_option (\<lambda>C. (mc_client C, mc_tag C)) (px_conns W c)"

lemma conn_view_None: "px_conns W c = None \<longleftrightarrow> conn_view W c = None"
  by (simp add: conn_view_def)

lemma is_middle_view: "is_middle W d \<longleftrightarrow> (\<exists>t. conn_view W d = Some (False, t))"
  by (auto simp: is_middle_def conn_view_def)

lemma tagged_view: "tagged W d \<longleftrightarrow> conn_view W d = Some (False, get_conn_tag d)"
  by (auto simp: tagged_def conn_view_def)

lemma conns_ok_view: "conns_ok W \<longleftrightarrow> (\<forall>c. conn_view W c \<noteq> None \<longrightarrow> 0 < fst c \<and> fst c < MAX_CONNECTIONS)
     \<and> (\<forall>c c'. conn_view W c \<noteq> None \<and> conn_view W c' \<noteq> None \<and> fst c = fst c' \<longrightarrow> c = c')
     \<and> (\<forall>c t. conn_view W c = Some (False, t) \<longrightarrow> t \<in> {0, get_conn_tag c})
     \<and> (\<forall>t c. c \<in> set (px_pool W t) \<longrightarrow> is_middle W c)"
proof -
  have "(\<forall>c C. px_conns W c = Some C \<and> \<not> mc_client C \<longrightarrow> mc_tag C \<in> {0, get_conn_tag c})
      \<longleftrightarrow> (\<forall>c t. conn_view W c = Some (False, t) \<longrightarrow> t \<in> {0, get_conn_tag c})"
    by (auto simp: conn_view_def)
  then show ?thesis unfolding conns_ok_def conn_view_None by simp
qed

lemma engine_ok_step:
  assumes ok: "engine_ok W" and v: "conn_view W' = conn_view W" "px_pool W' = px_pool W" "px_config W' = px_config W"
    and e: "ext_ok (px_ext W')" "same_heads (px_ext W) (px_ext W')"
    and r: "\<And>p. p \<in> cells_of (px_ext W') \<Longrightarrow> tagged W (out_fd (px_ext W') p, out_gen (px_ext W') p)"
  shows "engine_ok W'"
proof -
  have t: "tagged W' d \<longleftrightarrow> tagged W d" "is_middle W' d \<longleftrightarrow> is_middle W d" for d
    by (simp_all add: tagged_view is_middle_view v(1))
  have "conns_ok W'" using ok unfolding engine_ok_def conns_ok_view v t by blast
  moreover have "heads_ok W'" using ok e(2) unfolding engine_ok_def heads_ok_def same_heads_def t by simp
  moreover have "routed W'" using r unfolding routed_def t by blast
  ultimately show ?thesis using ok e(1) v(3) unfolding engine_ok_def by simp
qed

text \<open>Nothing but the log, the counters and the random numbers.\<close>

definition same_ext :: "ext_table \<Rightarrow> ext_table \<Rightarrow> bool" where
  "same_ext T T' \<longleftrightarrow> T' = T\<lparr>lrand := lrand T', auth_key_id := auth_key_id T'\<rparr>"

lemma same_ext_refl [simp]: "same_ext T T"
  by (simp add: same_ext_def)

lemma same_ext_upd [simp]: "same_ext T (T\<lparr>lrand := r\<rparr>)" "same_ext T (T\<lparr>auth_key_id := k\<rparr>)"
  by (simp_all add: same_ext_def)

lemma same_ext_trans: "\<lbrakk>same_ext T U; same_ext U V\<rbrakk> \<Longrightarrow> same_ext T V"
  unfolding same_ext_def by (cases T; cases U; cases V) simp

definition engine_quiet :: "proxy \<Rightarrow> proxy \<Rightarrow> bool" where
  "engine_quiet W W' \<longleftrightarrow> conn_view W' = conn_view W \<and> px_pool W' = px_pool W \<and> px_config W' = px_config W
     \<and> same_ext (px_ext W) (px_ext W')"

lemma ext_ok_quiet:
  "ext_ok (T\<lparr>lrand := r, auth_key_id := k\<rparr>) \<longleftrightarrow> ext_ok T" "cells_of (T\<lparr>lrand := r, auth_key_id := k\<rparr>) = cells_of T"
  by (simp_all add: ext_ok_def fields_ok_def chains_ok_def slots_ok_def rings_ok_def cells_of_def hash_members_def
      client_members_def[abs_def] server_members_def[abs_def] lru_members_def[abs_def])

lemma engine_quiet_refl [simp]: "engine_quiet W W"
  by (simp add: engine_quiet_def)

lemma engine_quiet_trans: "\<lbrakk>engine_quiet U V; engine_quiet V W\<rbrakk> \<Longrightarrow> engine_quiet U W"
  unfolding engine_quiet_def using same_ext_trans by metis

lemma quiet_ok: "\<lbrakk>engine_ok W; engine_quiet W W'\<rbrakk> \<Longrightarrow> engine_ok W'"
proof -
  assume ok: "engine_ok W" and q: "engine_quiet W W'"
  then obtain r k where e: "px_ext W' = (px_ext W)\<lparr>lrand := r, auth_key_id := k\<rparr>" unfolding engine_quiet_def same_ext_def by blast
  show ?thesis
  proof (rule engine_ok_step[OF ok])
    show "conn_view W' = conn_view W" "px_pool W' = px_pool W" "px_config W' = px_config W" using q by (simp_all add: engine_quiet_def)
    show "ext_ok (px_ext W')" using ok unfolding e ext_ok_quiet engine_ok_def by blast
    show "same_heads (px_ext W) (px_ext W')" unfolding e same_heads_def by simp
    show "tagged W (out_fd (px_ext W') p, out_gen (px_ext W') p)" if "p \<in> cells_of (px_ext W')" for p
      using that ok unfolding e ext_ok_quiet engine_ok_def routed_def by simp
  qed
qed

named_theorems quiets \<open>operations that change only the log, the counters and the random numbers\<close>

lemma quiet_log [quiets]: "engine_quiet W (log_effects es W)"
  by (simp add: engine_quiet_def log_effects_def conn_view_def[abs_def])

lemma quiet_draw [quiets]: "engine_quiet W (snd (draw W))"
  by (simp add: engine_quiet_def draw_def with_ext_def conn_view_def[abs_def])

lemma quiet_fail [quiets]: "engine_quiet W (mt_fail_connection c e W)"
  unfolding mt_fail_connection_def by (rule quiet_log)

lemma quiet_send [quiets]: "engine_quiet W (send_to c b W)"
  unfolding send_to_def by (rule quiet_log)

lemma quiet_flags [quiets]: "engine_quiet W (upd_conn c (\<lambda>C. C\<lparr>mc_flags := f C\<rparr>) W)"
proof -
  have "conn_view (upd_conn c (\<lambda>C. C\<lparr>mc_flags := f C\<rparr>) W) = conn_view W"
    by (rule ext) (auto simp: conn_view_def upd_conn_def option.map_comp comp_def)
  then show ?thesis by (simp add: engine_quiet_def upd_conn_def)
qed

lemma quiet_counters [quiets]:
  "engine_quiet W (W\<lparr>dropped_queries := a\<rparr>)" "engine_quiet W (W\<lparr>tot_forwarded_queries := a\<rparr>)" "engine_quiet W (W\<lparr>dropped_responses := a\<rparr>)"
  "engine_quiet W (W\<lparr>tot_forwarded_responses := a\<rparr>)" "engine_quiet W (W\<lparr>dropped_simple_acks := a\<rparr>)" "engine_quiet W (W\<lparr>tot_forwarded_simple_acks := a\<rparr>)"
  "engine_quiet W (W\<lparr>connections_failed_lru := a\<rparr>)" "engine_quiet W (W\<lparr>connections_failed_flood := a\<rparr>)"
  by (simp_all add: engine_quiet_def conn_view_def[abs_def])

lemma quiet_key [quiets]: "engine_quiet W (with_ext ((px_ext W)\<lparr>auth_key_id := k\<rparr>) W)"
  by (simp add: engine_quiet_def with_ext_def conn_view_def[abs_def])

section \<open>Choosing a connection\<close>

lemma fold_invariant: "\<lbrakk>\<And>x s. \<lbrakk>x \<in> set xs; P s\<rbrakk> \<Longrightarrow> P (f x s); P s\<rbrakk> \<Longrightarrow> P (fold f xs s)"
  by (induction xs arbitrary: s) auto

lemma check_connection_arr_inv:
  assumes "engine_quiet W0 W" "set arr \<subseteq> A" "c \<in> A" "check_connection_arr l c (arr, n, W) = (arr', n', W')"
  shows "engine_quiet W0 W'" "set arr' \<subseteq> A"
proof -
  have "engine_quiet W W' \<and> set arr' \<subseteq> A"
    using assms(2-4) quiet_draw[of W] set_update_subset_insert[of arr _ c]
    unfolding check_connection_arr_def by (auto simp: Let_def split: if_splits prod.splits)
  then show "engine_quiet W0 W'" "set arr' \<subseteq> A" using engine_quiet_trans[OF assms(1)] by auto
qed

lemma choose_random_connections:
  assumes "rpc_target_choose_random_connections S l W = (arr, W')"
  shows "engine_quiet W W'" "\<And>c. c \<in> set arr \<Longrightarrow> \<exists>t. S = Some t \<and> c \<in> set (px_pool W t)"
proof -
  have "engine_quiet W W' \<and> (\<forall>c \<in> set arr. \<exists>t. S = Some t \<and> c \<in> set (px_pool W t))"
  proof (cases S)
    case None
    then show ?thesis using assms by (simp add: rpc_target_choose_random_connections_def)
  next
    case (Some t)
    let ?P = "\<lambda>E :: conn_ref list \<times> int \<times> proxy. engine_quiet W (snd (snd E)) \<and> set (fst E) \<subseteq> set (px_pool W t)"
    have "?P (fold (check_connection_arr l) (px_pool W t) ([], 0, W))"
    proof (rule fold_invariant)
      fix c E assume c: "c \<in> set (px_pool W t)" and P: "?P E"
      obtain arr n V where E: "E = (arr, n, V)" by (metis prod_cases3)
      obtain arr' n' V' where E': "check_connection_arr l c (arr, n, V) = (arr', n', V')" by (metis prod_cases3)
      show "?P (check_connection_arr l c E)" using check_connection_arr_inv(1)[OF _ _ c E', of W] check_connection_arr_inv(2)[OF _ _ c E', of W] P E E' by simp
    qed simp
    then show ?thesis using assms Some
      by (auto simp: rpc_target_choose_random_connections_def split: prod.splits)
  qed
  then show "engine_quiet W W'" "\<And>c. c \<in> set arr \<Longrightarrow> \<exists>t. S = Some t \<and> c \<in> set (px_pool W t)" by auto
qed

lemma choose_target_quiet:
  "0 < targets_num K \<Longrightarrow> \<exists>S W'. choose_target_attempts n K W = Some (S, W') \<and> engine_quiet W W'"
proof (induction n arbitrary: W)
  case (Suc n)
  obtain r V where d: "draw W = (r, V)" by force
  have q: "engine_quiet W V" using quiet_draw[of W] d by simp
  let ?S = "config_target (px_config V) (cluster_targets K + nat (r mod int (targets_num K)))"
  obtain arr U where c: "rpc_target_choose_random_connections ?S 1 V = (arr, U)" by force
  have qu: "engine_quiet W U" using engine_quiet_trans[OF q choose_random_connections(1)[OF c]] .
  obtain S W' where "choose_target_attempts n K U = Some (S, W')" "engine_quiet U W'" using Suc by blast
  then show ?case using Suc.prems d c engine_quiet_trans[OF qu] qu by (auto simp: Let_def)
qed simp

lemma choose_proxy_target_quiet:
  assumes ok: "engine_ok W"
  obtains S W' where "choose_proxy_target dc W = Some (S, W')" "engine_quiet W W'"
proof -
  have g: "config_good (px_config W)" using ok by (simp add: engine_ok_def)
  show ?thesis
  proof (cases "mf_cluster_lookup (px_config W) dc True")
    case None
    then show ?thesis using that[of None W] g by (simp add: choose_proxy_target_def config_good_def)
  next
    case (Some i)
    have "0 < targets_num (auth_cluster (px_config W) i)"
      using g lookup_forced(3)[OF _ _ Some] unfolding config_good_def by blast
    from choose_target_quiet[OF this, of 5 W] that show ?thesis
      using Some g by (auto simp: choose_proxy_target_def config_good_def)
  qed
qed

lemma choose_conn_quiet:
  assumes "choose_conn_attempts n S W = (d, W')"
  shows "engine_quiet W W'" "\<And>c. d = Some c \<Longrightarrow> conn_is_tagged W' c \<and> (\<exists>t. c \<in> set (px_pool W t))"
proof -
  have "engine_quiet W W' \<and> (\<forall>c. d = Some c \<longrightarrow> conn_is_tagged W' c \<and> (\<exists>t. c \<in> set (px_pool W t)))"
    using assms
  proof (induction n arbitrary: W)
    case (Suc n)
    show ?case
    proof (cases S)
      case None
      then show ?thesis using Suc.prems by simp
    next
      case (Some t)
      obtain arr V where c: "rpc_target_choose_random_connections S 1 W = (arr, V)" by force
      note r = choose_random_connections[OF c]
      have pool: "px_pool V = px_pool W" using r(1) by (simp add: engine_quiet_def)
      show ?thesis
      proof (cases "arr \<noteq> [] \<and> conn_is_tagged V (hd arr)")
        case True
        then have "hd arr \<in> set arr" by simp
        from r(2)[OF this] obtain t where "hd arr \<in> set (px_pool W t)" by blast
        moreover have "d = Some (hd arr)" "W' = V" using Suc.prems c Some True by simp_all
        ultimately show ?thesis using r(1) True by blast
      next
        case False
        then have "choose_conn_attempts n S V = (d, W')"
          using Suc.prems c Some by (simp only: choose_conn_attempts.simps Let_def prod.case if_False if_not_P[OF False]) simp
        from Suc.IH[OF this] show ?thesis using engine_quiet_trans[OF r(1)] unfolding pool by blast
      qed
    qed
  qed simp
  then show "engine_quiet W W'" "\<And>c. d = Some c \<Longrightarrow> conn_is_tagged W' c \<and> (\<exists>t. c \<in> set (px_pool W t))" by auto
qed

section \<open>Handlers that add no external connection\<close>

definition same_route :: "ext_ptr set \<Rightarrow> ext_table \<Rightarrow> ext_table \<Rightarrow> bool" where
  "same_route A T T' \<longleftrightarrow> (\<forall>p \<in> A. in_fd T' p = in_fd T p \<and> in_gen T' p = in_gen T p \<and> out_fd T' p = out_fd T p
     \<and> out_gen T' p = out_gen T p \<and> out_conn_id T' p = out_conn_id T p)"

text \<open>External connections may go, those that stay are the same, and no number is given out.\<close>

definition shrinks :: "proxy \<Rightarrow> proxy \<Rightarrow> bool" where
  "shrinks W W' \<longleftrightarrow> conn_view W' = conn_view W \<and> px_pool W' = px_pool W \<and> px_config W' = px_config W
     \<and> ext_ok (px_ext W') \<and> same_heads (px_ext W) (px_ext W') \<and> cells_of (px_ext W') \<subseteq> cells_of (px_ext W)
     \<and> same_route (cells_of (px_ext W')) (px_ext W) (px_ext W') \<and> out_id (px_ext W') = out_id (px_ext W)
     \<and> ext_connections_created (px_ext W') = ext_connections_created (px_ext W)"

lemma shrinks_ok: "\<lbrakk>engine_ok W; shrinks W W'\<rbrakk> \<Longrightarrow> engine_ok W'"
proof -
  assume ok: "engine_ok W" and s: "shrinks W W'"
  show ?thesis
  proof (rule engine_ok_step[OF ok])
    show "tagged W (out_fd (px_ext W') p, out_gen (px_ext W') p)" if "p \<in> cells_of (px_ext W')" for p
    proof -
      have "p \<in> cells_of (px_ext W)" "out_fd (px_ext W') p = out_fd (px_ext W) p" "out_gen (px_ext W') p = out_gen (px_ext W) p"
        using s that unfolding shrinks_def same_route_def by blast+
      then show ?thesis using ok unfolding engine_ok_def routed_def by simp
    qed
  qed (use s in \<open>simp_all add: shrinks_def\<close>)
qed

lemma shrinks_trans: "\<lbrakk>shrinks U V; shrinks V W\<rbrakk> \<Longrightarrow> shrinks U W"
proof -
  assume a: "shrinks U V" "shrinks V W"
  have "same_route (cells_of (px_ext W)) (px_ext U) (px_ext W)"
    using a unfolding shrinks_def same_route_def by (metis subsetD)
  then show ?thesis using a unfolding shrinks_def same_heads_def by auto
qed

lemma quiet_shrinks: "\<lbrakk>engine_ok W; engine_quiet W W'\<rbrakk> \<Longrightarrow> shrinks W W'"
proof -
  assume ok: "engine_ok W" and q: "engine_quiet W W'"
  obtain r k where e: "px_ext W' = (px_ext W)\<lparr>lrand := r, auth_key_id := k\<rparr>" using q unfolding engine_quiet_def same_ext_def by blast
  have "ext_ok (px_ext W')" using quiet_ok[OF ok q] by (simp add: engine_ok_def)
  moreover have "cells_of (px_ext W') = cells_of (px_ext W)" unfolding e ext_ok_quiet ..
  moreover have "same_heads (px_ext W) (px_ext W')" "same_route A (px_ext W) (px_ext W')" "out_id (px_ext W') = out_id (px_ext W)"
    "ext_connections_created (px_ext W') = ext_connections_created (px_ext W)" for A
    unfolding e same_heads_def same_route_def by simp_all
  ultimately show ?thesis using q unfolding shrinks_def engine_quiet_def by simp
qed

lemma with_ext_view [simp]:
  "conn_view (with_ext T W) = conn_view W" "px_pool (with_ext T W) = px_pool W" "px_config (with_ext T W) = px_config W"
  "px_ext (with_ext T W) = T" "px_log (with_ext T W) = px_log W" "px_conns (with_ext T W) = px_conns W"
  "tot_forwarded_queries (with_ext T W) = tot_forwarded_queries W" "alive (with_ext T W) = alive W"
  "conn_view (log_effects es W) = conn_view W" "px_pool (log_effects es W) = px_pool W" "px_config (log_effects es W) = px_config W"
  "px_ext (log_effects es W) = px_ext W" "px_log (log_effects es W) = px_log W @ es" "px_conns (log_effects es W) = px_conns W"
  "tot_forwarded_queries (log_effects es W) = tot_forwarded_queries W" "alive (log_effects es W) = alive W"
  by (simp_all add: with_ext_def log_effects_def conn_view_def[abs_def] alive_def[abs_def])

lemma remove_ext_shrinks:
  assumes ok: "engine_ok W" and p: "p \<in> cells_of (px_ext W)"
  obtains W' where "remove_ext_conn p fl W = Some W'" "shrinks W W'" "cells_of (px_ext W') = cells_of (px_ext W) - {p}"
    "px_log W' = px_log W @ removal_effects (alive W) p fl (px_ext W)" "px_conns W' = px_conns W"
    "tot_forwarded_queries W' = tot_forwarded_queries W"
    "\<And>h q. \<lbrakk>o_prev (px_ext W) p = Some h; o_next (px_ext W) p = Some q; h \<noteq> p\<rbrakk> \<Longrightarrow> o_next (px_ext W') h = Some q"
proof -
  have e: "ext_ok (px_ext W)" using ok by (simp add: engine_ok_def)
  obtain T where T: "remove_ext_connection (alive W) p fl (px_ext W) = Some (removal_effects (alive W) p fl (px_ext W), T)" "ext_ok T"
    "cells_of T = cells_of (px_ext W) - {p}" "same_heads (px_ext W) T" "same_info (- {p}) (px_ext W) T" "out_id T = out_id (px_ext W)"
    "ext_connections_created T = ext_connections_created (px_ext W)" "lrand T = lrand (px_ext W)"
    "\<And>h q. \<lbrakk>o_prev (px_ext W) p = Some h; o_next (px_ext W) p = Some q; h \<noteq> p\<rbrakk> \<Longrightarrow> o_next T h = Some q"
    by (rule remove_ext[OF e p, of "alive W" fl]) (rule that)
  let ?W = "log_effects (removal_effects (alive W) p fl (px_ext W)) (with_ext T W)"
  have r: "remove_ext_conn p fl W = Some ?W" using T(1) by (simp add: remove_ext_conn_def)
  have "same_route (cells_of T) (px_ext W) T"
    using T(3,5) unfolding same_route_def same_info_def by auto
  then have s: "shrinks W ?W" using T unfolding shrinks_def by simp
  show ?thesis by (rule that[OF r s]) (use T(3,9) in simp_all)
qed

lemma get_ext:
  assumes ok: "engine_ok W" and fd: "valid_fd fd"
  obtains (none) "get_ext_connection_by_in_fd fd (px_ext W) = Some None" "\<forall>p \<in> cells_of (px_ext W). in_fd (px_ext W) p \<noteq> fd"
  | (found) p where "get_ext_connection_by_in_fd fd (px_ext W) = Some (Some p)" "p \<in> cells_of (px_ext W)" "in_fd (px_ext W) p = fd"
proof -
  have e: "ext_ok (px_ext W)" using ok by (simp add: engine_ok_def)
  show ?thesis
  proof (cases "\<exists>p \<in> cells_of (px_ext W). in_fd (px_ext W) p = fd")
    case True
    then obtain p where p: "p \<in> cells_of (px_ext W)" "in_fd (px_ext W) p = fd" by blast
    have "out_ref (px_ext W) fd = Some p" using ext_ok_fields(7)[OF e p(1)] p(2) by simp
    then show ?thesis using found[of p] p get_by_in_fd[OF e fd] True by simp
  next
    case False
    then show ?thesis using none get_by_in_fd[OF e fd] by simp
  qed
qed

lemma lru_shrinks:
  assumes ok: "engine_ok W" and T: "ext_ok (with_lru n v (px_ext W))"
  shows "shrinks W (with_ext (with_lru n v (px_ext W)) W)"
proof -
  have "same_route A (px_ext W) (with_lru n v (px_ext W))" for A by (simp add: same_route_def with_lru_def)
  then show ?thesis using T by (simp add: shrinks_def)
qed

lemma lru_insert_conn_shrinks:
  assumes ok: "engine_ok W" and c: "valid_fd (fst c)"
  obtains W' where "lru_insert_conn c W = Some W'" "shrinks W W'" "px_conns W' = px_conns W" "tot_forwarded_queries W' = tot_forwarded_queries W"
    "cells_of (px_ext W') = cells_of (px_ext W)"
proof -
  have id: "shrinks W W" by (rule quiet_shrinks[OF ok engine_quiet_refl])
  show ?thesis
  proof (cases rule: get_ext[OF ok c])
    case 1
    then show ?thesis using that[of W] id by (simp add: lru_insert_conn_def)
  next
    case (2 p)
    have e: "ext_ok (px_ext W)" using ok by (simp add: engine_ok_def)
    obtain n v where l: "lru_insert_ext_conn p (px_ext W) = Some (with_lru n v (px_ext W))" "ext_ok (with_lru n v (px_ext W))"
      by (rule lru_insert_ok[OF e 2(2)]) (rule that)
    show ?thesis
    proof (cases "in_gen (px_ext W) p = snd c")
      case True
      then show ?thesis
        using that[of "with_ext (with_lru n v (px_ext W)) W"] 2 l lru_shrinks[OF ok l(2)] by (simp add: lru_insert_conn_def)
    next
      case False
      then show ?thesis using that[of W] id 2 by (simp add: lru_insert_conn_def)
    qed
  qed
qed

text \<open>The loop that frees buffers ends: every turn takes a structure out of the ring by time of use.\<close>

lemma lru_loop_shrinks:
  assumes "engine_ok W"
  shows "\<exists>W'. lru_loop to_free W = Some W' \<and> shrinks W W'"
  using assms
proof (induction "card (lru_members (px_ext W) ())" arbitrary: W to_free rule: less_induct)
  case less
  note ok = less.prems
  have e: "ext_ok (px_ext W)" using ok by (simp add: engine_ok_def)
  have id: "shrinks W W" by (rule quiet_shrinks[OF ok engine_quiet_refl])
  obtain p where p: "lru_next (px_ext W) LRU_Head = Some p" using ext_okD(8)[OF e] by auto
  show ?case
  proof (cases "to_free > 0 \<and> p \<noteq> LRU_Head")
    case False
    then have "lru_loop to_free W = Some W" by (subst lru_loop.simps) (simp only: p option.case if_False)
    then show ?thesis using id by blast
  next
    case True
    obtain xs where r: "ring (lru_next (px_ext W)) (lru_prev (px_ext W)) LRU_Head xs" "set xs = lru_members (px_ext W) ()"
      using lru_ring.family_ring[OF ext_okD(7)[OF e], of "()"] ext_okD(8)[OF e] by blast
    have pm: "p \<in> lru_members (px_ext W) ()"
      using ring_next[OF r(1)] p True r(2) by (cases xs) auto
    then have pc: "p \<in> cells_of (px_ext W)" by (simp add: lru_members_def)
    let ?d = "(in_fd (px_ext W) p, in_gen (px_ext W) p)"
    obtain f V where fV: "(f, V) = (if alive W (fst ?d) (snd ?d) then (to_free - 2 * used_bytes W ?d, mt_fail_connection ?d (-500) W) else (to_free, W))"
      by (metis surj_pair)
    have V: "px_ext V = px_ext W" "connections_failed_lru V = connections_failed_lru W" "engine_quiet W V"
      using fV quiet_fail[of W ?d "-500"] by (auto simp: mt_fail_connection_def log_effects_def split: if_splits)
    obtain n v where d: "lru_delete_ext_conn p (px_ext W) = Some (with_lru n v (px_ext W))" "ext_ok (with_lru n v (px_ext W))" "n p = None"
      "\<And>q. q \<noteq> p \<Longrightarrow> n q = None \<longleftrightarrow> lru_next (px_ext W) q = None" by (rule lru_delete_ok[OF e pc]) (rule that)
    let ?U = "(with_ext (with_lru n v (px_ext W)) V)\<lparr>connections_failed_lru := connections_failed_lru V + 1\<rparr>"
    have step: "lru_loop to_free W = lru_loop f ?U"
      using p True fV V(1) d(1) by (subst lru_loop.simps) (simp add: Let_def split: if_splits)
    have ok1: "engine_ok V" by (rule quiet_ok[OF ok V(3)])
    have s1: "shrinks W V" by (rule quiet_shrinks[OF ok V(3)])
    have s2: "shrinks V (with_ext (with_lru n v (px_ext W)) V)" using lru_shrinks[OF ok1, of n v] d(2) V(1) by simp
    have s3: "shrinks (with_ext (with_lru n v (px_ext W)) V) ?U" by (rule quiet_shrinks[OF shrinks_ok[OF ok1 s2] quiet_counters(7)])
    have s: "shrinks W ?U" using shrinks_trans[OF shrinks_trans[OF s1 s2] s3] .
    have okU: "engine_ok ?U" by (rule shrinks_ok[OF ok s])
    have "n q \<noteq> None \<longleftrightarrow> q \<noteq> p \<and> lru_next (px_ext W) q \<noteq> None" for q using d(3) d(4)[of q] by (cases "q = p") auto
    then have "lru_members (px_ext ?U) () = lru_members (px_ext W) () - {p}" by (auto simp: lru_members_def)
    moreover have "finite (lru_members (px_ext W) ())" unfolding r(2)[symmetric] by simp
    ultimately have "card (lru_members (px_ext ?U) ()) < card (lru_members (px_ext W) ())" using pm by (simp only: card_Diff1_less)
    from less.hyps[OF this okU, of f] obtain W' where "lru_loop f ?U = Some W'" "shrinks ?U W'" by blast
    then show ?thesis using step shrinks_trans[OF s] by auto
  qed
qed

end
