(* ===== verification/Proxy_Handlers.thy ===== *)
theory Proxy_Handlers
  imports Proxy_Engine
begin

text \<open>
  What each handler of the engine does, in a state that satisfies the invariant: it fails no assertion
  and ends, and which external connections go, stay and come.
\<close>

section \<open>From a middle-end\<close>

lemma engine_ext_ok: "engine_ok W \<Longrightarrow> ext_ok (px_ext W)"
  by (simp add: engine_ok_def)

lemma shrinks_refl: "engine_ok W \<Longrightarrow> shrinks W W"
  by (rule quiet_shrinks) simp_all

lemma check_buffers_quiet:
  assumes "check_conn_buffers c W = (r, W')"
  shows "engine_quiet W W'" "tot_forwarded_queries W' = tot_forwarded_queries W" "r = 0 \<longrightarrow> W' = W"
proof -
  have "engine_quiet W ((mt_fail_connection c (-429) W)\<lparr>connections_failed_flood := n\<rparr>)" for n
    by (rule engine_quiet_trans[OF quiet_fail quiet_counters(8)])
  then show "engine_quiet W W'" "tot_forwarded_queries W' = tot_forwarded_queries W" "r = 0 \<longrightarrow> W' = W"
    using assms by (auto simp: check_conn_buffers_def mt_fail_connection_def split: if_splits)
qed

lemma tls_message_ok: "length b mod 4 = 0 \<Longrightarrow> tls_message c b W = Some (send_to c b W)"
  by (simp add: tls_message_def)

lemma client_send_quiet:
  "length msg mod 4 = 0 \<Longrightarrow> \<exists>r W'. client_send_message c 0 msg W = Some (r, W') \<and> engine_quiet W W' \<and> tot_forwarded_queries W' = tot_forwarded_queries W"
proof -
  assume m: "length msg mod 4 = 0"
  obtain r V where 1: "check_conn_buffers c W = (r, V)" by force
  obtain s U where 2: "check_conn_buffers c (send_to c msg V) = (s, U)" by force
  note q = check_buffers_quiet(1,2)[OF 1] quiet_send[of V c msg] check_buffers_quiet(1,2)[OF 2]
  have "tot_forwarded_queries (send_to c msg V) = tot_forwarded_queries V" by (simp add: send_to_def)
  then show ?thesis
    using q engine_quiet_trans[OF q(1) engine_quiet_trans[OF q(3,4)]] 1 2 by (auto simp: client_send_message_def Let_def tls_message_ok[OF m])
qed

lemma draw_simps: "tot_forwarded_queries (snd (draw W)) = tot_forwarded_queries W" "px_log (snd (draw W)) = px_log W"
  by (simp_all add: draw_def)

lemma padding_quiet:
  assumes "confirm_padding W = (m, W')"
  shows "engine_quiet W W'" "tot_forwarded_queries W' = tot_forwarded_queries W"
proof -
  obtain z V where 1: "draw W = (z, V)" by force
  obtain t U where 2: "draw V = (t, U)" by force
  have "engine_quiet W V" "engine_quiet V U" "tot_forwarded_queries V = tot_forwarded_queries W" "tot_forwarded_queries U = tot_forwarded_queries V"
    using quiet_draw[of W] quiet_draw[of V] draw_simps(1)[of W] draw_simps(1)[of V] 1 2 by simp_all
  then show "engine_quiet W W'" "tot_forwarded_queries W' = tot_forwarded_queries W"
    using assms 1 2 engine_quiet_trans[of W V U] by (auto simp: confirm_padding_def split: if_splits)
qed

lemma confirm_quiet: "engine_quiet W (push_rpc_confirmation c n W)" "tot_forwarded_queries (push_rpc_confirmation c n W) = tot_forwarded_queries W"
proof -
  obtain r V where 1: "draw W = (r, V)" by force
  obtain m V1 where 2: "confirm_padding V = (m, V1)" by force
  let ?V2 = "send_to c (bytes_le (- 1) @ bytes_le n @ m) V1"
  obtain k V3 where 3: "confirm_padding ?V2 = (k, V3)" by force
  have q1: "engine_quiet W V" "tot_forwarded_queries V = tot_forwarded_queries W" using quiet_draw[of W] draw_simps(1)[of W] 1 by simp_all
  have q2: "engine_quiet W V1" using engine_quiet_trans[OF q1(1) padding_quiet(1)[OF 2]] .
  have q3: "engine_quiet W V3" using engine_quiet_trans[OF engine_quiet_trans[OF q2 quiet_send] padding_quiet(1)[OF 3]] .
  have t: "tot_forwarded_queries V3 = tot_forwarded_queries W"
    using padding_quiet(2)[OF 3] padding_quiet(2)[OF 2] q1(2) by (simp add: send_to_def)
  show "engine_quiet W (push_rpc_confirmation c n W)" "tot_forwarded_queries (push_rpc_confirmation c n W) = tot_forwarded_queries W"
    using 1 2 3 q1 t engine_quiet_trans[OF q1(1) quiet_log] engine_quiet_trans[OF q3 quiet_send]
    by (auto simp: push_rpc_confirmation_def Let_def send_to_def)
qed

lemma answer_client_cases:
  assumes ok: "engine_ok W"
  obtains (none) "answer_client d oid W = Some None"
  | (found) p c where "answer_client d oid W = Some (Some (p, c))" "p \<in> cells_of (px_ext W)" "out_conn_id (px_ext W) p = oid"
      "in_conn_id (px_ext W) p = 0" "c = (in_fd (px_ext W) p, in_gen (px_ext W) p)" "d = (out_fd (px_ext W) p, out_gen (px_ext W) p)"
      "alive W (fst c) (snd c)"
proof -
  note e = engine_ext_ok[OF ok]
  obtain r where r: "find_ext_connection_by_out_conn_id oid (px_ext W) = Some r" using find_by_out_conn_id[OF e] by blast
  show ?thesis
  proof (cases r)
    case None
    then show ?thesis using none r by (simp add: answer_client_def)
  next
    case (Some p)
    then have p: "p \<in> cells_of (px_ext W)" "out_conn_id (px_ext W) p = oid" using r find_by_out_conn_id_iff[OF e] by auto
    let ?T = "px_ext W"
    show ?thesis
    proof (cases "out_fd ?T p = fst d \<and> out_gen ?T p = snd d \<and> alive W (in_fd ?T p) (in_gen ?T p)")
      case True
      then have "answer_client d oid W = Some (Some (p, (in_fd ?T p, in_gen ?T p)))" using r Some by (simp add: answer_client_def Let_def)
      then show ?thesis by (rule found) (use p ext_ok_fields(4)[OF e p(1)] True in simp_all)
    next
      case False
      then have "answer_client d oid W = Some None" using r Some by (simp add: answer_client_def Let_def)
      then show ?thesis by (rule none)
    qed
  qed
qed

lemma mod_4_drop: "length msg mod 4 = 0 \<Longrightarrow> length (drop 16 msg) mod 4 = 0"
  by (simp add: mod_eq_0_iff_dvd)

text \<open>A packet from a middle-end removes at most the external connection that it closes.\<close>

lemma process_packet_shrinks:
  assumes ok: "engine_ok W" and op: "4 \<le> length msg" "le32 msg = op" and m: "length msg mod 4 = 0"
  shows "\<exists>r W'. process_client_packet d msg op W = Some (r, W') \<and> shrinks W W' \<and> tot_forwarded_queries W' = tot_forwarded_queries W"
proof -
  note e = engine_ext_ok[OF ok]
  have drop: "engine_quiet W (log_effects es (W\<lparr>dropped_responses := n\<rparr>))" "engine_quiet W (log_effects es (W\<lparr>dropped_simple_acks := n\<rparr>))" for es n
    by (rule engine_quiet_trans[OF quiet_counters(3) quiet_log], rule engine_quiet_trans[OF quiet_counters(5) quiet_log])
  have lift: "\<exists>r W'. Some (1 :: int, V) = Some (r, W') \<and> shrinks W W' \<and> tot_forwarded_queries W' = tot_forwarded_queries W"
    if "engine_quiet W V" "tot_forwarded_queries V = tot_forwarded_queries W" for V
    using quiet_shrinks[OF ok that(1)] that(2) by blast
  consider "op = RPC_PONG" | "op \<noteq> RPC_PONG" "op = RPC_PROXY_ANS \<and> length msg \<ge> 16"
    | "op \<noteq> RPC_PONG" "\<not> (op = RPC_PROXY_ANS \<and> length msg \<ge> 16)" "op = RPC_SIMPLE_ACK \<and> length msg = 16"
    | "op \<noteq> RPC_PONG" "\<not> (op = RPC_PROXY_ANS \<and> length msg \<ge> 16)" "\<not> (op = RPC_SIMPLE_ACK \<and> length msg = 16)" "op = RPC_CLOSE_EXT \<and> length msg = 12"
    | "op \<noteq> RPC_PONG" "\<not> (op = RPC_PROXY_ANS \<and> length msg \<ge> 16)" "\<not> (op = RPC_SIMPLE_ACK \<and> length msg = 16)" "\<not> (op = RPC_CLOSE_EXT \<and> length msg = 12)"
    by blast
  then show ?thesis
  proof cases
    case 1
    then show ?thesis using op shrinks_refl[OF ok] by (simp add: process_client_packet_def)
  next
    case 2
    then have pk: "process_client_packet d msg op W = do {
        ex \<leftarrow> answer_client d (le64 (drop 8 msg)) W;
        (case ex of
           Some (p, c) \<Rightarrow> do {
             (_, W) \<leftarrow> client_send_message c (in_conn_id (px_ext W) p) (drop 16 msg) (W\<lparr>tot_forwarded_responses := tot_forwarded_responses W + 1\<rparr>);
             Some (1, W) }
         | None \<Rightarrow> Some (1, log_effects [notify_remote_closed d (le64 (drop 8 msg))] (W\<lparr>dropped_responses := dropped_responses W + 1\<rparr>))) }"
      using op by (simp add: process_client_packet_def Let_def)
    show ?thesis
    proof (cases rule: answer_client_cases[OF ok, of d "le64 (drop 8 msg)"])
      case 1
      then show ?thesis unfolding pk using lift[OF drop(1)] by simp
    next
      case (2 p c)
      let ?V = "W\<lparr>tot_forwarded_responses := tot_forwarded_responses W + 1\<rparr>"
      obtain r V where V: "client_send_message c 0 (drop 16 msg) ?V = Some (r, V)" "engine_quiet ?V V" "tot_forwarded_queries V = tot_forwarded_queries ?V"
        using client_send_quiet[OF mod_4_drop[OF m]] by blast
      have "engine_quiet W V" by (rule engine_quiet_trans[OF quiet_counters(4) V(2)])
      then show ?thesis unfolding pk using lift[of V] 2 V(1,3) by simp
    qed
  next
    case 3
    let ?n = "le32 (drop 12 msg)" and ?oid = "le64 (drop 4 msg)"
    have ne: "RPC_SIMPLE_ACK \<noteq> RPC_PROXY_ANS" by (simp add: RPC_SIMPLE_ACK_def RPC_PROXY_ANS_def)
    from 3 have pk: "process_client_packet d msg op W = do {
        ex \<leftarrow> answer_client d ?oid W;
        (case ex of
           Some (p, c) \<Rightarrow> do {
             assert_c (in_conn_id (px_ext W) p = 0);
             let compact = (case px_conns W c of None \<Rightarrow> False | Some C \<Rightarrow> has_flag (mc_flags C) RPC_F_COMPACT);
             let confirm = (if compact then le32 (rev (bytes_le ?n)) else ?n);
             let W = push_rpc_confirmation c confirm W;
             Some (1, W\<lparr>tot_forwarded_simple_acks := tot_forwarded_simple_acks W + 1\<rparr>) }
         | None \<Rightarrow> Some (1, log_effects [notify_remote_closed d ?oid] (W\<lparr>dropped_simple_acks := dropped_simple_acks W + 1\<rparr>))) }"
      using op ne by (simp add: process_client_packet_def Let_def)
    show ?thesis
    proof (cases rule: answer_client_cases[OF ok, of d ?oid])
      case 1
      then show ?thesis unfolding pk using lift[OF drop(2)] by simp
    next
      case (2 p c)
      let ?m = "if (case px_conns W c of None \<Rightarrow> False | Some C \<Rightarrow> has_flag (mc_flags C) RPC_F_COMPACT) then le32 (rev (bytes_le ?n)) else ?n"
      have "engine_quiet W ((push_rpc_confirmation c ?m W)\<lparr>tot_forwarded_simple_acks := k\<rparr>)" for k
        by (rule engine_quiet_trans[OF confirm_quiet(1) quiet_counters(6)])
      from lift[OF this] show ?thesis unfolding pk using 2 confirm_quiet(2)[of c ?m W] by (simp add: Let_def)
    qed
  next
    case 4
    let ?oid = "le64 (drop 4 msg)"
    have ne: "RPC_CLOSE_EXT \<noteq> RPC_PROXY_ANS" "RPC_CLOSE_EXT \<noteq> RPC_SIMPLE_ACK" by (simp_all add: RPC_CLOSE_EXT_def RPC_PROXY_ANS_def RPC_SIMPLE_ACK_def)
    obtain r where r: "find_ext_connection_by_out_conn_id ?oid (px_ext W) = Some r" using find_by_out_conn_id[OF e] by blast
    from 4 have pk: "process_client_packet d msg op W = (case r of Some p \<Rightarrow> map_option (Pair 1) (remove_ext_conn p 2 W) | None \<Rightarrow> Some (1, W))"
      using op ne r by (auto simp: process_client_packet_def Let_def split: option.splits)
    show ?thesis
    proof (cases r)
      case None
      then show ?thesis unfolding pk using shrinks_refl[OF ok] by simp
    next
      case (Some p)
      then have p: "p \<in> cells_of (px_ext W)" using r find_by_out_conn_id_iff[OF e] by auto
      obtain W' where "remove_ext_conn p 2 W = Some W'" "shrinks W W'" "tot_forwarded_queries W' = tot_forwarded_queries W"
        by (rule remove_ext_shrinks[OF ok p, of 2]) (rule that)
      then show ?thesis unfolding pk using Some by simp
    qed
  next
    case 5
    then show ?thesis using op shrinks_refl[OF ok] by (auto simp: process_client_packet_def Let_def)
  qed
qed

section \<open>Connections that become ready or close\<close>

lemma client_close_shrinks:
  assumes ok: "engine_ok W" and c: "valid_fd (fst c)"
  obtains W' where "mtproto_ext_rpc_close c W = Some W'" "shrinks W W'" "\<forall>p \<in> cells_of (px_ext W'). in_fd (px_ext W') p \<noteq> fst c"
    "tot_forwarded_queries W' = tot_forwarded_queries W"
proof (cases rule: get_ext[OF ok c])
  case 1
  then show ?thesis using that[of W] shrinks_refl[OF ok] c by (simp add: mtproto_ext_rpc_close_def)
next
  case (2 p)
  obtain W' where r: "remove_ext_conn p 1 W = Some W'" "shrinks W W'" "cells_of (px_ext W') = cells_of (px_ext W) - {p}"
    "tot_forwarded_queries W' = tot_forwarded_queries W"
    by (rule remove_ext_shrinks[OF ok 2(2), of 1]) (rule that)
  have "in_fd (px_ext W') q \<noteq> fst c" if q: "q \<in> cells_of (px_ext W')" for q
  proof -
    have "in_fd (px_ext W') q = in_fd (px_ext W) q" using r(2) q unfolding shrinks_def same_route_def by blast
    moreover have "in_fd (px_ext W) q \<noteq> in_fd (px_ext W) p"
      using ext_ok_same_client[OF engine_ext_ok[OF ok], of q p] q 2(2) unfolding r(3) by blast
    ultimately show ?thesis using 2(3) by simp
  qed
  then show ?thesis using that[OF _ r(2) _ r(4)] 2 r(1) c by (simp add: mtproto_ext_rpc_close_def)
qed

text \<open>The ring of a middle-end connection is opened or closed; it is empty then.\<close>

definition set_head :: "int \<Rightarrow> ext_ptr option \<Rightarrow> int \<Rightarrow> ext_table \<Rightarrow> ext_table" where
  "set_head k v x T = T\<lparr>o_next := (o_next T)(Conn_Head k := v), o_prev := (o_prev T)(Conn_Head k := v), out_fd := (out_fd T)(Conn_Head k := x)\<rparr>"

lemma set_head_ok:
  assumes ok: "ext_ok T" and v: "v = None \<or> v = Some (Conn_Head k)" and e: "server_members T k = {}"
  shows "ext_ok (set_head k v x T)" "cells_of (set_head k v x T) = cells_of T" "same_route (cells_of T) T (set_head k v x T)"
proof -
  let ?F = "set_head k v x T"
  have cells: "cells_of ?F = cells_of T" by (simp add: cells_of_def set_head_def)
  have head: "p \<noteq> Conn_Head k" if "p \<in> cells_of T" for p using cell_no_head(1)[OF that] .
  have fields: "fields_ok ?F" using ext_okD(1)[OF ok] head unfolding fields_ok_def cells by (auto simp: set_head_def)
  have chains: "chains_ok ?F" using ext_okD(2)[OF ok] unfolding chains_ok_def hash_members_def cells by (simp add: set_head_def)
  have slots: "slots_ok ?F" using ext_okD(3)[OF ok] unfolding slots_ok_def cells by (simp add: set_head_def)
  have sm: "server_members ?F = server_members T"
    using head unfolding server_members_def[abs_def] cells by (intro ext) (auto simp: set_head_def)
  have cm: "client_members ?F = client_members T" "lru_members ?F = lru_members T"
    unfolding client_members_def[abs_def] lru_members_def[abs_def] cells by (simp_all add: set_head_def)
  have "ring_family Conn_Head (server_members T) ((o_next T)(Conn_Head k := v)) ((o_prev T)(Conn_Head k := v))"
    using v fd_rings.family_open[OF ext_okD(6)[OF ok] members_separate(2) e] fd_rings.family_close[OF ext_okD(6)[OF ok] members_separate(2) e]
    by auto
  then have "rings_ok ?F" using ext_okD(5,7,8)[OF ok] unfolding rings_ok_def sm cm by (simp add: set_head_def)
  then show "ext_ok ?F" using fields chains slots unfolding ext_ok_def by blast
  show "cells_of ?F = cells_of T" by (rule cells)
  show "same_route (cells_of T) T ?F" using head unfolding same_route_def by (auto simp: set_head_def)
qed

lemma set_head_simps:
  "o_next (set_head k v x T) = (o_next T)(Conn_Head k := v)" "out_id (set_head k v x T) = out_id T"
  "ext_connections_created (set_head k v x T) = ext_connections_created T"
  by (simp_all add: set_head_def)

definition set_tag :: "conn_ref \<Rightarrow> int \<Rightarrow> proxy \<Rightarrow> proxy" where
  "set_tag d t W = upd_conn d (\<lambda>D. D\<lparr>mc_tag := t\<rparr>) W"

lemma set_tag_view:
  "conn_view (set_tag d t W) = (conn_view W)(d := map_option (\<lambda>(m, _). (m, t)) (conn_view W d))"
  "px_pool (set_tag d t W) = px_pool W" "px_config (set_tag d t W) = px_config W" "px_ext (set_tag d t W) = px_ext W"
  "tot_forwarded_queries (set_tag d t W) = tot_forwarded_queries W" "px_log (set_tag d t W) = px_log W"
  by (auto simp: set_tag_def upd_conn_def conn_view_def fun_eq_iff option.map_comp comp_def)

lemma conns_ok_set_tag:
  assumes ok: "conns_ok W" and t: "t = 0 \<or> t = get_conn_tag d"
  shows "conns_ok (set_tag d t W)"
proof -
  have dom: "conn_view (set_tag d t W) c = None \<longleftrightarrow> conn_view W c = None" for c by (auto simp: set_tag_view)
  have mid: "is_middle (set_tag d t W) c \<longleftrightarrow> is_middle W c" for c by (auto simp: is_middle_view set_tag_view)
  have tags: "u \<in> {0, get_conn_tag c}" if "conn_view (set_tag d t W) c = Some (False, u)" for c u
  proof (cases "c = d")
    case True
    then show ?thesis using that t by (auto simp: set_tag_view)
  next
    case False
    then have "conn_view W c = Some (False, u)" using that by (simp add: set_tag_view)
    then show ?thesis using ok unfolding conns_ok_view by blast
  qed
  show ?thesis using ok tags unfolding conns_ok_view dom mid set_tag_view(2) by blast
qed

text \<open>A tag is the only one of its descriptor.\<close>

lemma tagged_unique: "\<lbrakk>conns_ok W; tagged W (fd, g); px_conns W (fd, g') \<noteq> None\<rbrakk> \<Longrightarrow> g' = g"
proof -
  assume ok: "conns_ok W" and t: "tagged W (fd, g)" and g': "px_conns W (fd, g') \<noteq> None"
  have "px_conns W (fd, g) \<noteq> None" using t by (auto simp: tagged_def)
  then have "(fd, g') = (fd, g)" using ok g' unfolding conns_ok_def by (metis fst_conv)
  then show ?thesis by simp
qed

lemma untagged_members:
  assumes ok: "engine_ok W" and no: "\<And>g. \<not> tagged W (fd, g)"
  shows "server_members (px_ext W) fd = {}"
proof -
  have "out_fd (px_ext W) p \<noteq> fd" if "p \<in> cells_of (px_ext W)" for p
    using ok that no unfolding engine_ok_def routed_def by metis
  then show ?thesis by (auto simp: server_members_def)
qed

lemma middle_ready_ok:
  assumes ok: "engine_ok W" and d: "px_conns W d = Some D" "\<not> mc_client D" "mc_tag D = 0"
  obtains W' where "mtfront_client_ready d W = Some W'" "engine_ok W'" "cells_of (px_ext W') = cells_of (px_ext W)"
    "same_route (cells_of (px_ext W)) (px_ext W) (px_ext W')" "out_id (px_ext W') = out_id (px_ext W)"
    "ext_connections_created (px_ext W') = ext_connections_created (px_ext W)" "dom (px_conns W') = dom (px_conns W)"
proof -
  obtain fd g where fg: "d = (fd, g)" by force
  have cok: "conns_ok W" using ok by (simp add: engine_ok_def)
  have fd: "valid_fd fd" using cok d(1) unfolding conns_ok_def valid_fd_def fg by force
  have no: "\<not> tagged W (fd, g')" for g'
  proof
    assume t: "tagged W (fd, g')"
    have "px_conns W (fd, g) \<noteq> None" using d(1) fg by simp
    then have "g = g'" using tagged_unique[OF cok t] by blast
    then have "mc_tag D = get_conn_tag d" using t d(1) by (auto simp: tagged_def fg)
    then show False using d(3) get_conn_tag_pos[of d] by simp
  qed
  note empty = untagged_members[OF ok no]
  have e: "ext_ok (px_ext W)" by (rule engine_ext_ok[OF ok])
  have closed: "o_next (px_ext W) (Conn_Head fd) = None" using ok no unfolding engine_ok_def heads_ok_def by blast
  have closedp: "o_prev (px_ext W) (Conn_Head fd) = None" by (rule fd_rings.family_closed(1)[OF ext_okD(6)[OF e] closed])
  let ?T = "set_head fd (Some (Conn_Head fd)) fd (px_ext W)"
  let ?W = "with_ext ?T (set_tag d (get_conn_tag d) W)"
  note T = set_head_ok[OF e _ empty, of "Some (Conn_Head fd)" fd]
  have eq: "(px_ext W)\<lparr>o_prev := (o_prev (px_ext W))(Conn_Head fd \<mapsto> Conn_Head fd),
      o_next := (o_next (px_ext W))(Conn_Head fd \<mapsto> Conn_Head fd), out_fd := (out_fd (px_ext W))(Conn_Head fd := fd)\<rparr> = ?T"
    by (simp add: set_head_def)
  have step: "mtfront_client_ready d W = Some ?W"
    using fd d closedp by (simp add: mtfront_client_ready_def fg eq set_tag_def[symmetric] set_tag_view Let_def)
  have view: "conn_view ?W = (conn_view W)(d := Some (False, get_conn_tag d))"
    using d by (simp add: set_tag_view conn_view_def)
  have tag: "tagged ?W c \<longleftrightarrow> c = d \<or> tagged W c" for c unfolding tagged_view view by auto
  have "conns_ok ?W"
    using conns_ok_set_tag[OF cok, of "get_conn_tag d" d] unfolding conns_ok_view is_middle_view with_ext_view by blast
  moreover have "heads_ok ?W"
    using ok no unfolding heads_ok_def tag engine_ok_def by (auto simp: set_head_simps fg)
  moreover have "routed ?W"
    using ok T(3) unfolding engine_ok_def routed_def tag same_route_def with_ext_view T(2)[OF disjI2[OF refl]] by auto
  ultimately have "engine_ok ?W" using ok T(1) unfolding engine_ok_def by (simp add: set_tag_view)
  moreover have "dom (px_conns ?W) = dom (px_conns W)" by (auto simp: set_tag_def upd_conn_def)
  ultimately show ?thesis using that[OF step] T(2,3) by (simp add: set_head_simps set_tag_view)
qed

end
