(* ===== verification/Proxy_Queries.thy ===== *)
theory Proxy_Queries
  imports Proxy_Handlers
begin

text \<open>
  The two larger handlers of the engine: a middle-end connection closes, and a query of a client is
  forwarded, over the external connection that the client has or over a new one.
\<close>

section \<open>A middle-end connection closes\<close>

text \<open>What a client connection is told when its external connection is removed with the flag 2.\<close>

definition closed_clients :: "proxy \<Rightarrow> ext_ptr set \<Rightarrow> proxy_effect set" where
  "closed_clients W A = {Fail (in_fd (px_ext W) p) (in_gen (px_ext W) p) (-33) | p. p \<in> A \<and> alive W (in_fd (px_ext W) p) (in_gen (px_ext W) p)}"

lemma removal_effects_2:
  "set (removal_effects al p 2 T) = (if al (in_fd T p) (in_gen T p) then {Fail (in_fd T p) (in_gen T p) (-33)} else {})"
  by (simp add: removal_effects_def)

lemma close_loop_shrinks:
  assumes "engine_ok W" "o_next (px_ext W) (Conn_Head (fst d)) = Some p"
  shows "\<exists>W' es. close_loop d p W = Some W' \<and> shrinks W W' \<and> px_conns W' = px_conns W
    \<and> cells_of (px_ext W') = cells_of (px_ext W) - server_members (px_ext W) (fst d)
    \<and> px_log W' = px_log W @ es \<and> set es = closed_clients W (server_members (px_ext W) (fst d))"
  using assms
proof (induction "card (server_members (px_ext W) (fst d))" arbitrary: W p rule: less_induct)
  case less
  let ?T = "px_ext W" and ?h = "Conn_Head (fst d)"
  note ok = less.prems(1) and nx = less.prems(2)
  have e: "ext_ok ?T" by (rule engine_ext_ok[OF ok])
  obtain xs where r: "ring (o_next ?T) (o_prev ?T) ?h xs" "set xs = server_members ?T (fst d)"
    using fd_rings.family_ring[OF ext_okD(6)[OF e], of "fst d"] nx by auto
  show ?case
  proof (cases "p = ?h")
    case True
    then have "xs = []" using ring_empty_iff[OF r(1)] nx by simp
    then have m: "server_members ?T (fst d) = {}" using r(2) by simp
    have "close_loop d p W = Some W" using True by (subst close_loop.simps) simp
    then show ?thesis using shrinks_refl[OF ok] m by (simp add: closed_clients_def)
  next
    case False
    then obtain ys where xs: "xs = p # ys" using ring_next[OF r(1)] nx by (cases xs) auto
    have pm: "p \<in> server_members ?T (fst d)" using r(2) xs by auto
    then have p: "p \<in> cells_of ?T" "out_fd ?T p = fst d" by (auto simp: server_members_def)
    obtain q where q: "o_next ?T p = Some q" using ring_member_next[of "o_next ?T" "o_prev ?T" ?h "[]" p ys] r(1) xs by simp
    have pv: "o_prev ?T p = Some ?h" using r(1) xs by (simp add: ring_def)
    obtain V where V: "remove_ext_conn p 2 W = Some V" "shrinks W V" "cells_of (px_ext V) = cells_of ?T - {p}"
      "px_log V = px_log W @ removal_effects (alive W) p 2 ?T" "px_conns V = px_conns W" "o_next (px_ext V) ?h = Some q"
    proof (rule remove_ext_shrinks[OF ok p(1), of 2])
      fix V
      assume a: "\<And>h q. \<lbrakk>o_prev (px_ext W) p = Some h; o_next (px_ext W) p = Some q; h \<noteq> p\<rbrakk> \<Longrightarrow> o_next (px_ext V) h = Some q"
        and b: "remove_ext_conn p 2 W = Some V" "shrinks W V" "cells_of (px_ext V) = cells_of ?T - {p}"
          "px_log V = px_log W @ removal_effects (alive W) p 2 ?T" "px_conns V = px_conns W"
      show thesis by (rule that[OF b a[OF pv q]]) (use False in simp)
    qed
    have okV: "engine_ok V" by (rule shrinks_ok[OF ok V(2)])
    have same: "in_fd (px_ext V) s = in_fd ?T s" "in_gen (px_ext V) s = in_gen ?T s" "out_fd (px_ext V) s = out_fd ?T s"
      if "s \<in> cells_of (px_ext V)" for s using V(2) that unfolding shrinks_def same_route_def by blast+
    have mem: "server_members (px_ext V) (fst d) = server_members ?T (fst d) - {p}"
      using same(3) unfolding server_members_def V(3) by auto
    have alive: "alive V = alive W" by (simp add: alive_def[abs_def] V(5))
    have closed: "closed_clients W (server_members ?T (fst d)) = set (removal_effects (alive W) p 2 ?T) \<union> closed_clients V (server_members (px_ext V) (fst d))"
    proof -
      have "server_members ?T (fst d) = insert p (server_members (px_ext V) (fst d))" unfolding mem using pm by blast
      moreover have "closed_clients V (server_members (px_ext V) (fst d)) = closed_clients W (server_members (px_ext V) (fst d))"
        using same unfolding closed_clients_def alive server_members_def by force
      ultimately show ?thesis unfolding removal_effects_2 by (auto simp: closed_clients_def)
    qed
    have "finite (server_members ?T (fst d))" unfolding r(2)[symmetric] by simp
    then have "card (server_members (px_ext V) (fst d)) < card (server_members ?T (fst d))" unfolding mem using pm by (simp only: card_Diff1_less)
    from less.hyps[OF this okV V(6)] obtain W' es where W': "close_loop d q V = Some W'" "shrinks V W'" "px_conns W' = px_conns V"
      "cells_of (px_ext W') = cells_of (px_ext V) - server_members (px_ext V) (fst d)" "px_log W' = px_log V @ es"
      "set es = closed_clients V (server_members (px_ext V) (fst d))" by blast
    have "close_loop d p W = Some W'" using False p q V(1) W'(1) by (subst close_loop.simps) simp
    moreover have "cells_of (px_ext W') = cells_of ?T - server_members ?T (fst d)" unfolding W'(4) V(3) mem using pm by blast
    moreover have "px_log W' = px_log W @ (removal_effects (alive W) p 2 ?T @ es)" unfolding W'(5) V(4) by simp
    moreover have "set (removal_effects (alive W) p 2 ?T @ es) = closed_clients W (server_members ?T (fst d))" unfolding closed W'(6)[symmetric] by simp
    ultimately show ?thesis using shrinks_trans[OF V(2) W'(2)] W'(3) V(5) by metis
  qed
qed

text \<open>Everything but the connections' tags: some external connections may have gone, the others are the same.\<close>

definition loses :: "ext_ptr set \<Rightarrow> proxy \<Rightarrow> proxy \<Rightarrow> bool" where
  "loses A W W' \<longleftrightarrow> cells_of (px_ext W') = cells_of (px_ext W) - A \<and> same_route (cells_of (px_ext W')) (px_ext W) (px_ext W')
     \<and> out_id (px_ext W') = out_id (px_ext W) \<and> ext_connections_created (px_ext W') = ext_connections_created (px_ext W)"

lemma loses_trans: "\<lbrakk>loses A U V; loses B V W\<rbrakk> \<Longrightarrow> loses (A \<union> B) U W"
  unfolding loses_def same_route_def by auto

lemma shrinks_loses: "\<lbrakk>shrinks W W'; cells_of (px_ext W') = cells_of (px_ext W) - A\<rbrakk> \<Longrightarrow> loses A W W'"
  unfolding shrinks_def loses_def by blast

lemma middle_close_ok:
  assumes ok: "engine_ok W" and d: "px_conns W d = Some D" "\<not> mc_client D"
  obtains W' es where "mtfront_client_close d W = Some W'" "engine_ok W'" "loses (server_members (px_ext W) (fst d)) W W'"
    "px_log W' = px_log W @ es" "set es = closed_clients W (server_members (px_ext W) (fst d))"
    "conn_view W' = (conn_view W)(d := Some (False, 0))" "px_pool W' = px_pool W" "px_config W' = px_config W"
proof -
  obtain fd g where fg: "d = (fd, g)" by force
  have cok: "conns_ok W" using ok by (simp add: engine_ok_def)
  have fd: "valid_fd fd" using cok d(1) unfolding conns_ok_def valid_fd_def fg by force
  have other: "g' = g" if "tagged W (fd, g')" for g' using tagged_unique[OF cok that, of g] d(1) fg by auto
  have tag: "mc_tag D = 0 \<or> mc_tag D = get_conn_tag d" using cok d unfolding conns_ok_def by blast
  have view: "conn_view (set_tag d 0 U) = (conn_view W)(d := Some (False, 0))" if "conn_view U = conn_view W" for U
    using d by (simp add: set_tag_view that conn_view_def)
  have tagged': "tagged U c \<longleftrightarrow> tagged W c \<and> c \<noteq> d" if "conn_view U = (conn_view W)(d := Some (False, 0))" for U c
    unfolding tagged_view that using get_conn_tag_pos[of d] by auto
  show ?thesis
  proof (cases "mc_tag D = 0")
    case True
    have no: "\<not> tagged W (fd, g')" for g'
      using other[of g'] True d(1) get_conn_tag_pos[of d] by (auto simp: tagged_def fg)
    have step: "mtfront_client_close d W = Some (set_tag d 0 W)"
      using fd d True by (simp add: mtfront_client_close_def fg set_tag_def)
    have m: "server_members (px_ext W) fd = {}" by (rule untagged_members[OF ok no])
    have v: "conn_view (set_tag d 0 W) = conn_view W" using d True unfolding view[OF refl] by (auto simp: conn_view_def)
    have q: "engine_quiet W (set_tag d 0 W)" using v by (simp add: engine_quiet_def set_tag_view)
    have "loses {} W (set_tag d 0 W)" by (simp add: loses_def same_route_def set_tag_view)
    then show ?thesis
      using that[OF step quiet_ok[OF ok q], of "[]"] m view[of W] unfolding fg fst_conv by (simp add: set_tag_view closed_clients_def)
  next
    case False
    with tag have tg: "mc_tag D = get_conn_tag d" by blast
    then have td: "tagged W d" using d by (simp add: tagged_def)
    have open': "o_next (px_ext W) (Conn_Head fd) \<noteq> None" using ok td unfolding engine_ok_def heads_ok_def fg by blast
    then obtain p where p: "o_next (px_ext W) (Conn_Head (fst d)) = Some p" by (auto simp: fg)
    obtain V es where V: "close_loop d p W = Some V" "shrinks W V" "px_conns V = px_conns W"
      "cells_of (px_ext V) = cells_of (px_ext W) - server_members (px_ext W) fd" "px_log V = px_log W @ es"
      "set es = closed_clients W (server_members (px_ext W) fd)"
      using close_loop_shrinks[OF ok p] by (auto simp: fg)
    have okV: "engine_ok V" by (rule shrinks_ok[OF ok V(2)])
    have eV: "ext_ok (px_ext V)" by (rule engine_ext_ok[OF okV])
    have m: "server_members (px_ext V) fd = {}"
    proof (rule equals0I)
      fix q assume "q \<in> server_members (px_ext V) fd"
      then have q: "q \<in> cells_of (px_ext V)" "out_fd (px_ext V) q = fd" "fd \<noteq> 0" by (auto simp: server_members_def)
      have "out_fd (px_ext V) q = out_fd (px_ext W) q" using V(2) q(1) unfolding shrinks_def same_route_def by blast
      then have "q \<in> server_members (px_ext W) fd" using q V(4) by (auto simp: server_members_def)
      then show False using q(1) V(4) by blast
    qed
    have openV: "o_next (px_ext V) (Conn_Head fd) \<noteq> None" using V(2) open' by (simp add: shrinks_def same_heads_def)
    note h = fd_rings.family_no_member[OF ext_okD(6)[OF eV] m openV]
    let ?T = "set_head fd None 0 (px_ext V)"
    let ?W = "set_tag d 0 (with_ext ?T V)"
    have eq: "(px_ext V)\<lparr>o_next := (o_next (px_ext V))(Conn_Head fd := None),
        o_prev := (o_prev (px_ext V))(Conn_Head fd := None), out_fd := (out_fd (px_ext V))(Conn_Head fd := 0)\<rparr> = ?T"
      by (simp add: set_head_def)
    have step: "mtfront_client_close d W = Some ?W"
      using fd d tg False p V(1) h get_conn_tag_pos[of d] by (simp add: mtfront_client_close_def fg eq set_tag_def Let_def)
    note T = set_head_ok[OF eV disjI1[OF refl] m, of 0]
    have viewW: "conn_view ?W = (conn_view W)(d := Some (False, 0))"
      by (rule view) (use V(2) in \<open>simp add: shrinks_def\<close>)
    note tW = tagged'[OF viewW]
    have l: "loses (server_members (px_ext W) fd) W ?W"
    proof -
      have "loses {} V ?W" using T(2,3) unfolding loses_def by (simp add: set_tag_view set_head_simps)
      from loses_trans[OF shrinks_loses[OF V(2,4)] this] show ?thesis by (simp only: Un_empty_right)
    qed
    have "conns_ok (with_ext ?T V)" using okV unfolding engine_ok_def conns_ok_view is_middle_view with_ext_view by blast
    then have c: "conns_ok ?W" by (rule conns_ok_set_tag) simp
    have heads: "heads_ok ?W" unfolding heads_ok_def tW
    proof
      fix k
      have "o_next (px_ext ?W) (Conn_Head k) \<noteq> None \<longleftrightarrow> k \<noteq> fd \<and> o_next (px_ext W) (Conn_Head k) \<noteq> None"
        using V(2) by (simp add: set_tag_view set_head_simps shrinks_def same_heads_def del: not_None_eq)
      also have "\<dots> \<longleftrightarrow> k \<noteq> fd \<and> (\<exists>g'. tagged W (k, g'))" using ok unfolding engine_ok_def heads_ok_def by blast
      also have "\<dots> \<longleftrightarrow> (\<exists>g'. tagged W (k, g') \<and> (k, g') \<noteq> d)" using other unfolding fg by blast
      finally show "o_next (px_ext ?W) (Conn_Head k) \<noteq> None \<longleftrightarrow> (\<exists>g'. tagged W (k, g') \<and> (k, g') \<noteq> d)" .
    qed
    have r: "routed ?W" unfolding routed_def tW
    proof
      fix q assume q: "q \<in> cells_of (px_ext ?W)"
      then have "q \<in> cells_of (px_ext W)" "out_fd (px_ext W) q \<noteq> fd \<or> fd = 0" using l unfolding loses_def server_members_def by auto
      moreover have "fd \<noteq> 0" using cok d(1) unfolding conns_ok_def fg by force
      moreover have "out_fd (px_ext ?W) q = out_fd (px_ext W) q" "out_gen (px_ext ?W) q = out_gen (px_ext W) q"
        using l q unfolding loses_def same_route_def by blast+
      ultimately show "tagged W (out_fd (px_ext ?W) q, out_gen (px_ext ?W) q) \<and> (out_fd (px_ext ?W) q, out_gen (px_ext ?W) q) \<noteq> d"
        using ok unfolding engine_ok_def routed_def fg by simp
    qed
    have "engine_ok ?W" using c heads r T(1) okV unfolding engine_ok_def by (simp add: set_tag_view)
    then show ?thesis using that[OF step _ _ _ _ viewW, of es] l V(2,5,6) unfolding fg fst_conv by (simp add: set_tag_view shrinks_def)
  qed
qed

section \<open>Forwarding a query\<close>

text \<open>Choosing a connection draws random numbers, and changes nothing else.\<close>

definition only_draws :: "proxy \<Rightarrow> proxy \<Rightarrow> bool" where
  "only_draws W W' \<longleftrightarrow> (\<exists>r. W' = with_ext ((px_ext W)\<lparr>lrand := r\<rparr>) W)"

lemma only_draws_refl [simp]: "only_draws W W"
proof -
  have "W = with_ext ((px_ext W)\<lparr>lrand := lrand (px_ext W)\<rparr>) W" by (simp add: with_ext_def)
  then show ?thesis unfolding only_draws_def by blast
qed

lemma only_draws_trans: "\<lbrakk>only_draws U V; only_draws V W\<rbrakk> \<Longrightarrow> only_draws U W"
  unfolding only_draws_def by (auto simp: with_ext_def)

lemma only_draws_draw: "only_draws W (snd (draw W))"
  unfolding only_draws_def draw_def by auto

lemma only_draws_simps:
  assumes "only_draws W W'"
  shows "px_log W' = px_log W" "px_conns W' = px_conns W" "px_tag W' = px_tag W" "px_nat W' = px_nat W"
    "tot_forwarded_queries W' = tot_forwarded_queries W" "cells_of (px_ext W') = cells_of (px_ext W)"
  using assms unfolding only_draws_def by (auto simp: with_ext_def cells_of_def)

lemma random_connections_draws: "rpc_target_choose_random_connections S l W = (arr, W') \<Longrightarrow> only_draws W W'"
proof (cases S)
  case (Some t)
  assume r: "rpc_target_choose_random_connections S l W = (arr, W')"
  let ?P = "\<lambda>E :: conn_ref list \<times> int \<times> proxy. only_draws W (snd (snd E))"
  have step: "?P (check_connection_arr l c E)" if "?P E" for c E
    using that only_draws_trans[OF that only_draws_draw] by (auto simp: check_connection_arr_def Let_def split: prod.splits)
  then have "?P (fold (check_connection_arr l) (px_pool W t) ([], 0, W))" by (intro fold_invariant[of _ ?P] step) (assumption, simp only: snd_conv only_draws_refl)
  then show ?thesis using r Some by (auto simp: rpc_target_choose_random_connections_def split: prod.splits)
qed (simp add: rpc_target_choose_random_connections_def)

lemma choose_conn_draws: "choose_conn_attempts n S W = (d, W') \<Longrightarrow> only_draws W W'"
proof (induction n arbitrary: W)
  case (Suc n)
  obtain arr V where c: "rpc_target_choose_random_connections S 1 W = (arr, V)" by force
  note q = random_connections_draws[OF c]
  have "S = None \<and> W' = W \<or> W' = V \<or> choose_conn_attempts n S V = (d, W')"
  proof (cases "S = None")
    case False
    then have "choose_conn_attempts (Suc n) S W =
        (if arr \<noteq> [] \<and> conn_is_tagged V (hd arr) then (Some (hd arr), V) else choose_conn_attempts n S V)"
      by (simp only: choose_conn_attempts.simps Let_def prod.case c if_False)
    then show ?thesis using Suc.prems by (auto split: if_splits)
  qed (use Suc.prems in simp)
  then show ?case using q only_draws_trans[OF q Suc.IH] by auto
qed simp

text \<open>A new external connection \<open>p\<close> leads the client \<open>c\<close> to \<open>d\<close>, and the number it has is a new one.\<close>

definition opens :: "conn_ref \<Rightarrow> ext_ptr \<Rightarrow> conn_ref \<Rightarrow> proxy \<Rightarrow> proxy \<Rightarrow> bool" where
  "opens c p d W W' \<longleftrightarrow> (let T = px_ext W; T' = px_ext W' in
     p \<in> cells_of T' \<and> cells_of T' - {p} \<subseteq> cells_of T \<and> same_route (cells_of T' - {p}) T T'
     \<and> (in_fd T' p, in_gen T' p) = c \<and> (out_fd T' p, out_gen T' p) = d \<and> tagged W d
     \<and> out_conn_id T' p = next_conn_id (out_id T (fst c)) (fst c) \<and> out_id T' = (out_id T)(fst c := out_conn_id T' p)
     \<and> ext_connections_created T' = ext_connections_created T + 1)"

lemma remove_ext_conn_same: "remove_ext_conn p fl W = Some W' \<Longrightarrow> px_tag W' = px_tag W \<and> px_nat W' = px_nat W"
  by (auto simp: remove_ext_conn_def log_effects_def with_ext_def)

text \<open>The client has no external connection over which a query could go.\<close>

definition no_route :: "conn_ref \<Rightarrow> proxy \<Rightarrow> bool" where
  "no_route c W \<longleftrightarrow> (\<forall>q \<in> cells_of (px_ext W). in_fd (px_ext W) q = fst c \<longrightarrow>
     \<not> (\<exists>D. alive W (out_fd (px_ext W) q) (out_gen (px_ext W) q) \<and> px_conns W (out_fd (px_ext W) q, out_gen (px_ext W) q) = Some D \<and> mc_target D))"

lemma no_route_back:
  assumes n: "no_route c V" and s: "cells_of (px_ext V) = cells_of (px_ext W)" "same_route (cells_of (px_ext W)) (px_ext W) (px_ext V)"
    "px_conns V = px_conns W"
  shows "no_route c W"
proof -
  have "alive V = alive W" by (simp add: alive_def[abs_def] s(3))
  then show ?thesis using n s unfolding no_route_def same_route_def by simp
qed

lemma current_route_cases:
  assumes ok: "engine_ok W" and c: "valid_fd (fst c)"
  obtains (there) p W' where "current_route c key W = Some (Some (p, (out_fd (px_ext W) p, out_gen (px_ext W) p)), W')"
      "engine_quiet W W'" "p \<in> cells_of (px_ext W)" "in_fd (px_ext W) p = fst c" "px_log W' = px_log W" "px_conns W' = px_conns W"
      "tot_forwarded_queries W' = tot_forwarded_queries W" "px_tag W' = px_tag W" "px_nat W' = px_nat W"
      "alive W (out_fd (px_ext W) p) (out_gen (px_ext W) p)"
  | (gone) W' es where "current_route c key W = Some (None, W')" "shrinks W W'" "\<forall>q \<in> cells_of (px_ext W'). in_fd (px_ext W') q \<noteq> fst c"
      "px_conns W' = px_conns W" "tot_forwarded_queries W' = tot_forwarded_queries W" "px_log W' = px_log W @ es"
      "no_route c W"
      "px_tag W' = px_tag W" "px_nat W' = px_nat W"
proof (cases rule: get_ext[OF ok c])
  case 1
  show thesis by (rule gone[of W "[]"]) (use 1 shrinks_refl[OF ok] in \<open>auto simp: current_route_def no_route_def\<close>)
next
  case (2 p)
  let ?V = "with_ext ((px_ext W)\<lparr>auth_key_id := (auth_key_id (px_ext W))(p := key)\<rparr>) W"
  let ?d = "(out_fd (px_ext W) p, out_gen (px_ext W) p)"
  have q: "engine_quiet W ?V" by (rule quiet_key)
  have okV: "engine_ok ?V" by (rule quiet_ok[OF ok q])
  have d: "tagged W ?d" using ok 2(2) unfolding engine_ok_def routed_def by blast
  then have "0 < fst ?d \<and> fst ?d < MAX_CONNECTIONS" using ok unfolding engine_ok_def conns_ok_def tagged_def by blast
  then have cr: "current_route c key W = (if alive W (fst ?d) (snd ?d) \<and> (case px_conns W ?d of None \<Rightarrow> False | Some D \<Rightarrow> mc_target D)
      then Some (Some (p, ?d), ?V) else map_option (\<lambda>W. (None, W)) (remove_ext_conn p 1 ?V))"
    using 2(1) by (simp add: current_route_def Let_def)
  show thesis
  proof (cases "alive W (fst ?d) (snd ?d) \<and> (case px_conns W ?d of None \<Rightarrow> False | Some D \<Rightarrow> mc_target D)")
    case True
    then have "current_route c key W = Some (Some (p, ?d), ?V)" unfolding cr by (rule if_P)
    then show thesis by (rule there[OF _ q 2(2,3)]) (use True in \<open>simp_all add: with_ext_def\<close>)
  next
    case False
    have pV: "p \<in> cells_of (px_ext ?V)" using 2(2) by (simp add: cells_of_def)
    obtain U where U: "remove_ext_conn p 1 ?V = Some U" "shrinks ?V U" "cells_of (px_ext U) = cells_of (px_ext ?V) - {p}"
      "px_log U = px_log ?V @ removal_effects (alive ?V) p 1 (px_ext ?V)" "px_conns U = px_conns ?V" "tot_forwarded_queries U = tot_forwarded_queries ?V"
      by (rule remove_ext_shrinks[OF okV pV, of 1]) (rule that)
    have cell: "cells_of (px_ext ?V) = cells_of (px_ext W)" by (simp add: cells_of_def)
    have s: "shrinks W U" by (rule shrinks_trans[OF quiet_shrinks[OF ok q] U(2)])
    have none: "in_fd (px_ext U) r \<noteq> fst c" if r: "r \<in> cells_of (px_ext U)" for r
    proof -
      have "in_fd (px_ext U) r = in_fd (px_ext W) r" using s r unfolding shrinks_def same_route_def by blast
      moreover have "in_fd (px_ext W) r \<noteq> in_fd (px_ext W) p"
        using ext_ok_same_client[OF engine_ext_ok[OF ok], of r p] r 2(2) unfolding U(3) cell by blast
      ultimately show ?thesis using 2(3) by simp
    qed
    have old: "\<not> (\<exists>D. alive W (out_fd (px_ext W) q) (out_gen (px_ext W) q) \<and> px_conns W (out_fd (px_ext W) q, out_gen (px_ext W) q) = Some D \<and> mc_target D)"
      if "q \<in> cells_of (px_ext W)" "in_fd (px_ext W) q = fst c" for q
    proof -
      have "q = p" using ext_ok_same_client[OF engine_ext_ok[OF ok] that(1) 2(2)] that(2) 2(3) by simp
      then show ?thesis using False by (auto split: option.splits)
    qed
    have "current_route c key W = Some (None, U)" unfolding cr if_not_P[OF False] U(1) by simp
    then show thesis by (rule gone[OF _ s]) (use none old U remove_ext_conn_same[OF U(1)] in \<open>simp_all add: with_ext_def no_route_def\<close>)
  qed
qed

lemma shrinks_opens:
  assumes s: "shrinks U V" and o: "opens c p d V W"
  shows "opens c p d U W"
proof -
  have "tagged U d" using s o unfolding shrinks_def opens_def Let_def tagged_view by simp
  moreover have "same_route (cells_of (px_ext W) - {p}) (px_ext U) (px_ext W)"
    using s o unfolding shrinks_def opens_def Let_def same_route_def by (metis subsetD)
  moreover have "cells_of (px_ext W) - {p} \<subseteq> cells_of (px_ext U)" using s o unfolding shrinks_def opens_def Let_def by blast
  ultimately show ?thesis using s o unfolding shrinks_def opens_def Let_def by simp
qed

lemma opens_ok:
  assumes ok: "engine_ok W" and o: "opens c p d W W'" and e: "ext_ok (px_ext W')" "same_heads (px_ext W) (px_ext W')"
    and v: "conn_view W' = conn_view W" "px_pool W' = px_pool W" "px_config W' = px_config W"
  shows "engine_ok W'"
proof (rule engine_ok_step[OF ok v e])
  fix q assume q: "q \<in> cells_of (px_ext W')"
  show "tagged W (out_fd (px_ext W') q, out_gen (px_ext W') q)"
  proof (cases "q = p")
    case True
    then show ?thesis using o by (auto simp: opens_def Let_def)
  next
    case False
    then have "q \<in> cells_of (px_ext W)" "out_fd (px_ext W') q = out_fd (px_ext W) q" "out_gen (px_ext W') q = out_gen (px_ext W) q"
      using o q unfolding opens_def Let_def same_route_def by auto
    then show ?thesis using ok unfolding engine_ok_def routed_def by simp
  qed
qed

lemma new_route_cases:
  assumes ok: "engine_ok W" and c: "px_conns W c = Some C" "mc_client C"
    and none: "\<forall>q \<in> cells_of (px_ext W). in_fd (px_ext W) q \<noteq> fst c"
  obtains (dropped) W' where "new_route c S flags key W = Some (None, W')" "shrinks W W'" "tot_forwarded_queries W' = tot_forwarded_queries W"
      "px_log W' = px_log W \<or> px_log W' = px_log W @ [Fail (fst c) (snd c) (-35)]"
  | (opened) p d W' where "new_route c S flags key W = Some (Some (p, d), W')" "engine_ok W'" "opens c p d W W'"
      "px_log W' = px_log W" "px_conns W' = px_conns W" "tot_forwarded_queries W' = tot_forwarded_queries W" "px_tag W' = px_tag W" "px_nat W' = px_nat W"
proof -
  obtain r V where r: "choose_conn_attempts 5 S W = (r, V)" by force
  note q = choose_conn_quiet[OF r] and s = only_draws_simps[OF choose_conn_draws[OF r]]
  have okV: "engine_ok V" by (rule quiet_ok[OF ok q(1)])
  have sh: "shrinks W V" by (rule quiet_shrinks[OF ok q(1)])
  show thesis
  proof (cases r)
    case None
    let ?U = "upd_conn c (\<lambda>C. C\<lparr>mc_flags := mc_flags C OR RPC_F_DROPPED\<rparr>) (V\<lparr>dropped_queries := dropped_queries V + 1\<rparr>)"
    have "engine_quiet W ?U" by (rule engine_quiet_trans[OF engine_quiet_trans[OF q(1) quiet_counters(1)] quiet_flags])
    from quiet_shrinks[OF ok this] show thesis
      by (rule dropped[rotated]) (use None r s in \<open>simp_all add: new_route_def upd_conn_def\<close>)
  next
    case (Some d)
    show thesis
    proof (cases "flags AND RPC_F_DROPPED \<noteq> 0")
      case True
      have "shrinks W (mt_fail_connection c (-35) V)" by (rule quiet_shrinks[OF ok engine_quiet_trans[OF q(1) quiet_fail]])
      then show thesis by (rule dropped[rotated]) (use Some r s True in \<open>simp_all add: new_route_def mt_fail_connection_def\<close>)
    next
      case False
      have t: "tagged W d"
      proof -
        obtain t where dp: "conn_is_tagged V d" "d \<in> set (px_pool W t)" using q(2)[OF Some] by blast
        have "is_middle W d" using ok dp(2) unfolding engine_ok_def conns_ok_def by blast
        then show ?thesis using dp(1) s(2) by (auto simp: is_middle_def conn_is_tagged_def tagged_def)
      qed
      have tV: "tagged V d" using t s(2) by (simp add: tagged_def)
      have fc: "0 < fst c" "valid_fd (fst c)" "0 < fst d" "valid_fd (fst d)" "d \<noteq> c"
      proof -
        have p: "px_conns W x \<noteq> None \<Longrightarrow> 0 < fst x \<and> fst x < MAX_CONNECTIONS" for x using ok unfolding engine_ok_def conns_ok_def by blast
        have "px_conns W d \<noteq> None" "px_conns W c \<noteq> None" using t c by (auto simp: tagged_def)
        then show "0 < fst c" "valid_fd (fst c)" "0 < fst d" "valid_fd (fst d)" using p by (auto simp: valid_fd_def less_imp_le)
        show "d \<noteq> c" using t c by (auto simp: tagged_def)
      qed
      have cellV: "in_fd (px_ext V) = in_fd (px_ext W)" "cells_of (px_ext V) = cells_of (px_ext W)"
        using choose_conn_draws[OF r] s(6) unfolding only_draws_def by (auto simp: with_ext_def)
      have noneV: "\<forall>q \<in> cells_of (px_ext V). in_fd (px_ext V) q \<noteq> fst c" unfolding cellV by (rule none)
      have head: "o_next (px_ext V) (Conn_Head (fst d)) \<noteq> None" using okV tV unfolding engine_ok_def heads_ok_def by (metis prod.collapse)
      obtain p T where T: "create_ext_connection c 0 (Some d) key (px_ext V) = Some (p, T)" "ext_ok T"
        "cells_of T = insert p (cells_of (px_ext V))" "same_heads (px_ext V) T" "same_info (- {p}) (px_ext V) T"
        "in_fd T p = fst c" "in_gen T p = snd c" "out_fd T p = fst d" "out_gen T p = snd d"
        "out_conn_id T p = next_conn_id (out_id (px_ext V) (fst c)) (fst c)" "out_id T = (out_id (px_ext V))(fst c := out_conn_id T p)"
        "ext_connections_created T = ext_connections_created (px_ext V) + 1"
        by (rule create_ext[OF engine_ext_ok[OF okV] noneV fc(1-4) head fc(5), of key]) (rule that)
      have o: "opens c p d V (with_ext T V)"
        unfolding opens_def Let_def with_ext_view
      proof (intro conjI)
        show "p \<in> cells_of T" "cells_of T - {p} \<subseteq> cells_of (px_ext V)" using T(3) by auto
        show "same_route (cells_of T - {p}) (px_ext V) T" using T(5) unfolding same_route_def same_info_def by simp
        show "(in_fd T p, in_gen T p) = c" "(out_fd T p, out_gen T p) = d" unfolding T(6-9) by simp_all
      qed (rule tV T(10-12))+
      have "new_route c S flags key W = Some (Some (p, d), with_ext T V)"
        using Some r False T(1) by (simp add: new_route_def)
      then show thesis
      proof (rule opened)
        show "opens c p d W (with_ext T V)" by (rule shrinks_opens[OF sh o])
        show "engine_ok (with_ext T V)" by (rule opens_ok[OF okV o]) (use T in simp_all)
      qed (use s in \<open>simp_all add: with_ext_def\<close>)
    qed
  qed
qed

definition query_flags :: "proxy \<Rightarrow> mt_conn \<Rightarrow> u32 \<Rightarrow> u32" where
  "query_flags W C flags = (let f = (flags OR (mc_flags C AND RPC_F_DROPPED)) OR 0x1000 in if px_tag W \<noteq> None then f OR 8 else f)"

lemma proxy_request_same: "\<lbrakk>px_tag V = px_tag W; px_nat V = px_nat W\<rbrakk> \<Longrightarrow> proxy_request V = proxy_request W"
  by (intro ext) (simp only: proxy_request_def)

lemma conn_valid_fd:
  assumes "engine_ok W" "px_conns W c \<noteq> None"
  shows "valid_fd (fst c)"
proof -
  have "0 < fst c \<and> fst c < MAX_CONNECTIONS" using assms unfolding engine_ok_def conns_ok_def by blast
  then show ?thesis by (simp add: valid_fd_def)
qed

text \<open>The last step: the request is sent under the number of the external connection.\<close>

lemma quiet_cells: "engine_quiet W W' \<Longrightarrow> cells_of (px_ext W') = cells_of (px_ext W)"
  unfolding engine_quiet_def same_ext_def by (metis ext_ok_quiet(2))

lemma opens_quiet:
  assumes o: "opens c p d W V" and q: "engine_quiet V W'"
  shows "opens c p d W W'"
proof -
  obtain r k where e: "px_ext W' = (px_ext V)\<lparr>lrand := r, auth_key_id := k\<rparr>" using q unfolding engine_quiet_def same_ext_def by blast
  show ?thesis using o unfolding opens_def Let_def e ext_ok_quiet(2) same_route_def by simp
qed

text \<open>The request is as aligned as the message.\<close>

lemma length_bytes64 [simp]: "length (bytes64 x) = 8"
  by (simp add: bytes64_def)

lemma tl_store_string_aligned: "length (tl_store_string s out) mod 4 = 0"
proof -
  have "(n + nat (- int n mod 4)) mod 4 = 0" for n
  proof -
    have "int (n + nat (- int n mod 4)) = int n + (- int n mod 4)" by simp
    moreover have "(int n + (- int n mod 4)) mod 4 = 0" by presburger
    ultimately have "int ((n + nat (- int n mod 4)) mod 4) = 0" by (simp only: zmod_int of_nat_numeral)
    then show ?thesis by (simp only: of_nat_eq_0_iff)
  qed
  then show ?thesis by (simp only: tl_store_string_def Let_def length_append length_replicate)
qed

lemma tl_store_string_longer: "length out \<le> length (tl_store_string s out)"
  by (simp add: tl_store_string_def)

lemma extra_aligned:
  assumes "length out mod 4 = 0" "length ex mod 4 = 0" "length out + 4 \<le> length ex" "length msg mod 4 = 0"
  shows "length ((out @ bytes_le n @ drop (length out + 4) ex) @ msg) mod 4 = 0"
  using assms by (simp add: mod_eq_0_iff_dvd)

lemma proxy_request_aligned:
  assumes "length msg mod 4 = 0"
  shows "length (proxy_request W C fl oid None None msg) mod 4 = 0"
proof -
  let ?o1 = "bytes_le RPC_PROXY_REQ @ bytes_le fl @ bytes64 oid"
  let ?o = "(?o1 @ ip_port (mc_remote_ip C) (mc_remote_ip C) (mc_remote_ipv6 C) (mc_remote_port C)) @
    ip_port (mc_our_ip C) (nat_translate_ip (px_nat W) (mc_our_ip C)) (mc_our_ipv6 C) (mc_our_port C)"
  let ?e1 = "?o @ replicate 4 0"
  let ?e2 = "if fl AND 8 \<noteq> 0 then tl_store_string (case px_tag W of Some t \<Rightarrow> t | None \<Rightarrow> replicate 16 0) (?e1 @ bytes_le TL_PROXY_TAG) else ?e1"
  let ?e3 = "if fl AND 4 \<noteq> 0 then tl_store_string [] (tl_store_string [] (tl_store_string [] (?e2 @ bytes_le TL_HTTP_QUERY_INFO))) else ?e2"
  have o: "length ?o = 56" by (simp add: ip_port_def)
  have e1: "length ?e1 = 60" by (simp only: length_append[of ?o] length_replicate o)
  have e2: "length ?e2 mod 4 = 0" "60 \<le> length ?e2"
    using e1 tl_store_string_aligned[of "case px_tag W of Some t \<Rightarrow> t | None \<Rightarrow> replicate 16 0" "?e1 @ bytes_le TL_PROXY_TAG"]
      tl_store_string_longer[of "?e1 @ bytes_le TL_PROXY_TAG" "case px_tag W of Some t \<Rightarrow> t | None \<Rightarrow> replicate 16 0"] by simp_all
  have e3: "length ?e3 mod 4 = 0" "60 \<le> length ?e3"
  proof -
    let ?x = "?e2 @ bytes_le TL_HTTP_QUERY_INFO"
    have "length ?x \<le> length (tl_store_string [] (tl_store_string [] (tl_store_string [] ?x)))"
      using tl_store_string_longer[of ?x "[]"] tl_store_string_longer[of "tl_store_string [] ?x" "[]"]
        tl_store_string_longer[of "tl_store_string [] (tl_store_string [] ?x)" "[]"] by linarith
    then show "length ?e3 mod 4 = 0" "60 \<le> length ?e3"
      using e2 tl_store_string_aligned[of "[]" "tl_store_string [] (tl_store_string [] ?x)"] by (auto simp only: length_append if_True if_False split: if_splits)
  qed
  have r: "proxy_request W C fl oid None None msg =
    (if fl AND 12 \<noteq> 0 then ?o @ bytes_le (of_nat (length ?e3 - (length ?o + 4))) @ drop (length ?o + 4) ?e3 else ?o) @ msg"
    unfolding proxy_request_def Let_def option.case ..
  show ?thesis
  proof (cases "fl AND 12 \<noteq> 0")
    case True
    show ?thesis unfolding r if_P[OF True] by (rule extra_aligned) (use o e3 assms in simp_all)
  next
    case False
    show ?thesis unfolding r if_not_P[OF False] length_append[of ?o msg] o using assms by presburger
  qed
qed

lemma forward_cases:
  assumes ok: "engine_ok W" and c: "px_conns W c = Some C" "mc_client C" and m: "length msg mod 4 = 0"
  obtains (dropped) W' where "forward_tcp_query c S flags key None None msg W = Some (0, W')" "shrinks W W'"
      "tot_forwarded_queries W' = tot_forwarded_queries W"
  | (forwarded) p d W' es where "forward_tcp_query c S flags key None None msg W = Some (1, W')" "engine_ok W'"
      "px_log W' = px_log W @ es @ [Send (fst d) (snd d) (proxy_request W C (query_flags W C flags) (out_conn_id (px_ext W') p) None None msg)]"
      "tot_forwarded_queries W' = tot_forwarded_queries W + 1" "p \<in> cells_of (px_ext W')" "in_fd (px_ext W') p = fst c"
      "d = (out_fd (px_ext W') p, out_gen (px_ext W') p)" "shrinks W W' \<or> opens c p d W W' \<and> no_route c W" "px_conns W' = px_conns W"
proof -
  let ?fl = "(flags OR (mc_flags C AND RPC_F_DROPPED)) OR 0x1000"
  have fc: "valid_fd (fst c)" by (rule conn_valid_fd[OF ok]) (simp add: c)
  have finish: "engine_quiet V (send_to d b (V\<lparr>tot_forwarded_queries := n\<rparr>))" for V d b n
    by (rule engine_quiet_trans[OF quiet_counters(2) quiet_send])
  have after: "px_ext (send_to d b (V\<lparr>tot_forwarded_queries := n\<rparr>)) = px_ext V"
    "px_log (send_to d b (V\<lparr>tot_forwarded_queries := n\<rparr>)) = px_log V @ [Send (fst d) (snd d) b]"
    "tot_forwarded_queries (send_to d b (V\<lparr>tot_forwarded_queries := n\<rparr>)) = n"
    "px_conns (send_to d b (V\<lparr>tot_forwarded_queries := n\<rparr>)) = px_conns V" for V d b n
    by (simp_all add: send_to_def)
  have req: "proxy_request (V\<lparr>tot_forwarded_queries := n\<rparr>) = proxy_request W" if "px_tag V = px_tag W" "px_nat V = px_nat W" for V n
    by (rule proxy_request_same) (use that in simp_all)
  note al = tls_message_ok[OF proxy_request_aligned[OF m]]
  show thesis
  proof (cases rule: current_route_cases[OF ok fc, of key])
    case (1 p V)
    let ?d = "(out_fd (px_ext W) p, out_gen (px_ext W) p)"
    let ?W = "send_to ?d (proxy_request W C (query_flags W C flags) (out_conn_id (px_ext V) p) None None msg)
      (V\<lparr>tot_forwarded_queries := tot_forwarded_queries V + 1\<rparr>)"
    have f: "forward_tcp_query c S flags key None None msg W = Some (1, ?W)"
      using c 1(1,8,9) req[OF 1(8,9)] by (simp add: forward_tcp_query_def Let_def query_flags_def al)
    have q: "engine_quiet W ?W" by (rule engine_quiet_trans[OF 1(2) finish])
    obtain r k where e: "px_ext V = (px_ext W)\<lparr>lrand := r, auth_key_id := k\<rparr>" using 1(2) unfolding engine_quiet_def same_ext_def by blast
    show thesis
    proof (rule forwarded[OF f quiet_ok[OF ok q]])
      show "shrinks W ?W \<or> opens c p ?d W ?W \<and> no_route c W" using quiet_shrinks[OF ok q] by blast
      show "p \<in> cells_of (px_ext ?W)" unfolding quiet_cells[OF q] by (rule 1(3))
      show "px_log ?W = px_log W @ [] @ [Send (fst ?d) (snd ?d) (proxy_request W C (query_flags W C flags) (out_conn_id (px_ext ?W) p) None None msg)]"
        unfolding after(1,2) 1(5) by simp
    qed (unfold after 1(6,7) e, use 1(4) in simp_all)
  next
    case (2 V es)
    have okV: "engine_ok V" by (rule shrinks_ok[OF ok 2(2)])
    have cV: "px_conns V c = Some C" using c(1) 2(4) by simp
    note same = 2(8,9) and nr = 2(7)
    show thesis
    proof (cases rule: new_route_cases[OF okV cV c(2) 2(3), of S ?fl key])
      case (1 U)
      have "forward_tcp_query c S flags key None None msg W = Some (0, U)"
        using c 2(1) 1(1) by (simp add: forward_tcp_query_def Let_def)
      then show thesis by (rule dropped[OF _ shrinks_trans[OF 2(2) 1(2)]]) (use 2(5) 1(3) in simp)
    next
      case (2 p d U)
      let ?W = "send_to d (proxy_request W C (query_flags W C flags) (out_conn_id (px_ext U) p) None None msg)
        (U\<lparr>tot_forwarded_queries := tot_forwarded_queries U + 1\<rparr>)"
      note V = \<open>current_route c key W = Some (None, V)\<close> \<open>shrinks W V\<close> \<open>px_conns V = px_conns W\<close>
        \<open>tot_forwarded_queries V = tot_forwarded_queries W\<close> \<open>px_log V = px_log W @ es\<close>
      have tn: "px_tag U = px_tag W" "px_nat U = px_nat W" using 2(7,8) same by simp_all
      have f: "forward_tcp_query c S flags key None None msg W = Some (1, ?W)"
        using c V(1) 2(1) req[OF tn] tn by (simp add: forward_tcp_query_def Let_def query_flags_def al)
      have o: "opens c p d W ?W" by (rule opens_quiet[OF shrinks_opens[OF V(2) 2(3)] finish])
      show thesis
      proof (rule forwarded[OF f quiet_ok[OF 2(2) finish]])
        show "shrinks W ?W \<or> opens c p d W ?W \<and> no_route c W" using o nr by blast
        show "px_log ?W = px_log W @ es @ [Send (fst d) (snd d) (proxy_request W C (query_flags W C flags) (out_conn_id (px_ext ?W) p) None None msg)]"
          unfolding after(1,2) 2(4) V(5) by simp
        show "p \<in> cells_of (px_ext ?W)" "in_fd (px_ext ?W) p = fst c" "d = (out_fd (px_ext ?W) p, out_gen (px_ext ?W) p)"
          using o unfolding opens_def Let_def by auto
      qed (simp_all only: after 2(5,6) V(3,4))
    qed
  qed
qed

lemma choose_target_draws: "choose_target_attempts n K W = Some (S, W') \<Longrightarrow> only_draws W W'"
proof (induction n arbitrary: W)
  case (Suc n)
  have k: "targets_num K \<noteq> 0" using Suc.prems by (auto split: if_splits)
  obtain r U where d: "draw W = (r, U)" by force
  let ?S = "config_target (px_config U) (cluster_targets K + nat (r mod int (targets_num K)))"
  obtain arr V where c: "rpc_target_choose_random_connections ?S 1 U = (arr, V)" by force
  have q: "only_draws W V" by (rule only_draws_trans[OF _ random_connections_draws[OF c]]) (use only_draws_draw[of W] d in simp)
  have "choose_target_attempts (Suc n) K W =
      (if arr \<noteq> [] \<and> conn_is_tagged V (hd arr) then Some (?S, V) else choose_target_attempts n K V)"
    by (simp only: choose_target_attempts.simps Let_def prod.case k d c if_False)
  then have "W' = V \<or> choose_target_attempts n K V = Some (S, W')" using Suc.prems by (auto split: if_splits)
  then show ?case using q only_draws_trans[OF q Suc.IH] by auto
qed simp

lemma choose_proxy_target_draws: "choose_proxy_target dc W = Some (S, W') \<Longrightarrow> only_draws W W'"
  using choose_target_draws[of 5 _ W S W'] by (auto simp: choose_proxy_target_def split: if_splits option.splits)

lemma lru_insert_conn_same:
  "lru_insert_conn c W = Some W' \<Longrightarrow> px_log W' = px_log W \<and> px_tag W' = px_tag W \<and> px_nat W' = px_nat W"
  by (auto simp: lru_insert_conn_def with_ext_def bind_eq_Some_conv split: option.splits if_splits)

text \<open>A query of a client, as the engine handles it.\<close>

lemma query_cases:
  assumes ok: "engine_ok W" and c: "px_conns W c = Some C" "mc_client C"
  obtains (kept) W' where "do_rpcs_execute c msg fl W = Some W'" "shrinks W W'" "tot_forwarded_queries W' = tot_forwarded_queries W"
  | (forwarded) p d W' es where "do_rpcs_execute c msg fl W = Some W'" "engine_ok W'"
      "px_log W' = px_log W @ es @ [Send (fst d) (snd d) (proxy_request W C (query_flags W C (if le64 msg = 0 then 2 OR fl else fl))
         (out_conn_id (px_ext W') p) None None msg)]"
      "tot_forwarded_queries W' = tot_forwarded_queries W + 1" "p \<in> cells_of (px_ext W')" "in_fd (px_ext W') p = fst c"
      "d = (out_fd (px_ext W') p, out_gen (px_ext W') p)" "shrinks W W' \<or> opens c p d W W' \<and> no_route c W" "px_conns W' = px_conns W"
proof -
  have fc: "valid_fd (fst c)" by (rule conn_valid_fd[OF ok]) (simp add: c)
  obtain U where U: "lru_insert_conn c W = Some U" "shrinks W U" "px_conns U = px_conns W" "tot_forwarded_queries U = tot_forwarded_queries W"
    "cells_of (px_ext U) = cells_of (px_ext W)" by (rule lru_insert_conn_shrinks[OF ok fc]) (rule that)
  note sameU = lru_insert_conn_same[OF U(1)]
  have okU: "engine_ok U" by (rule shrinks_ok[OF ok U(2)])
  obtain S V where V: "choose_proxy_target (mc_dc C) U = Some (S, V)" "engine_quiet U V" by (rule choose_proxy_target_quiet[OF okU]) (rule that)
  note sameV = only_draws_simps[OF choose_proxy_target_draws[OF V(1)]]
  have okV: "engine_ok V" by (rule quiet_ok[OF okU V(2)])
  have sV: "shrinks W V" by (rule shrinks_trans[OF U(2) quiet_shrinks[OF okU V(2)]])
  have cV: "px_conns V c = Some C" "px_conns U c = Some C" unfolding sameV(2) U(3) by (rule c(1))+
  let ?f = "if le64 msg = 0 then 2 OR fl else fl"
  have pk: "forward_mtproto_packet c None fl msg U = Some (0, U)
      \<or> length msg mod 4 = 0 \<and> forward_mtproto_packet c None fl msg U = forward_tcp_query c S ?f (le64 msg) None None msg V"
    unfolding forward_mtproto_packet_def forward_mtproto_enc_packet_def using cV(2) V(1) by (simp add: Let_def)
  have ex: "do_rpcs_execute c msg fl W = map_option snd (forward_mtproto_packet c None fl msg U)"
    by (simp add: do_rpcs_execute_def U(1) map_option_case split: option.splits)
  have tn: "px_tag V = px_tag W" "px_nat V = px_nat W" using sameV(3,4) sameU by simp_all
  have rq: "proxy_request V = proxy_request W" "query_flags V = query_flags W"
    by (rule proxy_request_same[OF tn]) (intro ext, simp only: query_flags_def tn)
  show thesis
  proof (cases "forward_mtproto_packet c None fl msg U = Some (0, U)")
    case True
    show thesis by (rule kept[of U]) (use True ex U in simp_all)
  next
    case False
    with pk have pk: "forward_mtproto_packet c None fl msg U = forward_tcp_query c S ?f (le64 msg) None None msg V" and m: "length msg mod 4 = 0" by blast+
    show thesis
    proof (cases rule: forward_cases[OF okV cV(1) c(2) m, of S ?f "le64 msg"])
      case (1 W')
      show thesis by (rule kept[OF _ shrinks_trans[OF sV 1(2)]]) (use 1 ex pk sameV(5) U(4) in simp_all)
    next
      case (2 p d W' es)
      show thesis
      proof (rule forwarded[OF _ 2(2)])
        show "do_rpcs_execute c msg fl W = Some W'" unfolding ex pk 2(1) by simp
        show "px_log W' = px_log W @ es @ [Send (fst d) (snd d) (proxy_request W C (query_flags W C ?f) (out_conn_id (px_ext W') p) None None msg)]"
          unfolding 2(3) rq sameV(1) using sameU by (simp only:)
        have "no_route c W" if "no_route c V"
          by (rule no_route_back[OF that])
            (use sV U(3,5) sameV(2) quiet_cells[OF V(2)] in \<open>simp_all add: shrinks_def\<close>)
        then show "shrinks W W' \<or> opens c p d W W' \<and> no_route c W" using 2(8) shrinks_trans[OF sV] shrinks_opens[OF sV] by blast
      qed (use 2(4-7,9) sameV(2,5) U(3,4) in simp_all)
    qed
  qed
qed

end
