(* ===== verification/Proxy_Runs.thy ===== *)
theory Proxy_Runs
  imports Proxy_Queries
begin

text \<open>
  The engine as a state machine: the events of its job queue, what may happen to connections between
  them, its runs as an inductive relation with the history of the numbers that it gave out, and what holds
  in all of them.
\<close>

section \<open>Events and runs\<close>

text \<open>
  The jobs of the engine, and the check of a packet in the thread of its connection (\<open>Received\<close>).  The
  arguments of \<open>Buffers\<close> are what \<open>fetch_buffers_stat\<close> says.
\<close>

datatype engine_job =
    Received conn_ref "byte list"
  | Query conn_ref "byte list" u32
  | Packet conn_ref "byte list" u32
  | Middle_Ready conn_ref
  | Middle_Close conn_ref
  | Client_Ready conn_ref
  | Client_Close conn_ref
  | Buffers int int

fun engine_event :: "engine_job \<Rightarrow> proxy \<Rightarrow> proxy option" where
  "engine_event (Received c msg) W = Some (snd (snd (ext_rpcs_execute c msg W)))"
| "engine_event (Query c msg fl) W = do_rpcs_execute c msg fl W"
| "engine_event (Packet d msg op) W = map_option snd (process_client_packet d msg op W)"
| "engine_event (Middle_Ready d) W = mtfront_client_ready d W"
| "engine_event (Middle_Close d) W = mtfront_client_close d W"
| "engine_event (Client_Ready c) W = mtproto_ext_rpc_ready c W"
| "engine_event (Client_Close c) W = mtproto_ext_rpc_close c W"
| "engine_event (Buffers used maximum) W = check_all_conn_buffers used maximum W"

definition is_client :: "proxy \<Rightarrow> conn_ref \<Rightarrow> bool" where
  "is_client W c \<longleftrightarrow> (case px_conns W c of None \<Rightarrow> False | Some C \<Rightarrow> mc_client C)"

text \<open>
  A job has a reference to its connection, so the connection is still in the table, also when it is closed; a
  packet of a middle-end came through the client of \<open>net/net-tcp-rpc-client.c\<close>, which takes only lengths that are
  multiples of four, and through \<open>rpcc_execute\<close>; a connection becomes ready once.
\<close>

fun event_ok :: "proxy \<Rightarrow> engine_job \<Rightarrow> bool" where
  "event_ok W (Received c msg) \<longleftrightarrow> is_client W c"
| "event_ok W (Query c msg fl) \<longleftrightarrow> is_client W c"
| "event_ok W (Packet d msg op) \<longleftrightarrow> is_middle W d \<and> 4 \<le> length msg \<and> length msg mod 4 = 0 \<and> le32 msg = op \<and> rpcc_execute op msg = (1, Some (msg, op))"
| "event_ok W (Middle_Ready d) \<longleftrightarrow> is_middle W d \<and> \<not> tagged W d"
| "event_ok W (Middle_Close d) \<longleftrightarrow> is_middle W d"
| "event_ok W (Client_Ready c) \<longleftrightarrow> is_client W c"
| "event_ok W (Client_Close c) \<longleftrightarrow> is_client W c"
| "event_ok W (Buffers used maximum) \<longleftrightarrow> True"

text \<open>
  Between two events connections come and go and change, and the configuration is replaced by a good one.
  The tag of a middle-end connection is only written by the engine, and a tagged connection stays in the
  table until it was closed in the engine.
\<close>

definition network_step :: "proxy \<Rightarrow> proxy \<Rightarrow> bool" where
  "network_step W W' \<longleftrightarrow> px_ext W' = px_ext W \<and> px_log W' = px_log W \<and> conns_ok W' \<and> config_good (px_config W')
     \<and> (\<forall>d. tagged W' d \<longleftrightarrow> tagged W d)"

text \<open>A number that a query has just got: the client, the middle-end connection and the number.\<close>

fun new_numbers :: "engine_job \<Rightarrow> proxy \<Rightarrow> proxy \<Rightarrow> (conn_ref \<times> conn_ref \<times> u64) list" where
  "new_numbers (Query c msg fl) W W' =
     (if ext_connections_created (px_ext W') = ext_connections_created (px_ext W) then []
      else case out_ref (px_ext W') (fst c) of None \<Rightarrow> []
        | Some p \<Rightarrow> [(c, (out_fd (px_ext W') p, out_gen (px_ext W') p), out_conn_id (px_ext W') p)])"
| "new_numbers ev W W' = []"

definition start_state :: "proxy \<Rightarrow> bool" where
  "start_state W \<longleftrightarrow> (\<exists>r. px_ext W = empty_ext_table r) \<and> conns_ok W \<and> config_good (px_config W) \<and> (\<forall>d. \<not> tagged W d)"

inductive engine_run :: "(conn_ref \<times> conn_ref \<times> u64) list \<Rightarrow> proxy \<Rightarrow> bool" where
  start: "start_state W \<Longrightarrow> engine_run [] W"
| network: "\<lbrakk>engine_run H W; network_step W W'\<rbrakk> \<Longrightarrow> engine_run H W'"
| event: "\<lbrakk>engine_run H W; event_ok W ev; engine_event ev W = Some W'\<rbrakk> \<Longrightarrow> engine_run (H @ new_numbers ev W W') W'"

section \<open>Every event is handled\<close>

lemma shrinks_loses_some: "shrinks W W' \<Longrightarrow> \<exists>A. loses A W W'"
proof -
  assume s: "shrinks W W'"
  then have "cells_of (px_ext W') = cells_of (px_ext W) - (cells_of (px_ext W) - cells_of (px_ext W'))"
    unfolding shrinks_def by blast
  from shrinks_loses[OF s this] show ?thesis by blast
qed

lemma received_quiet: "engine_quiet W (snd (snd (ext_rpcs_execute c msg W)))"
proof -
  obtain r V where "check_conn_buffers c W = (r, V)" by force
  then show ?thesis using check_buffers_quiet(1)[of c W r V] by (simp add: ext_rpcs_execute_def)
qed

lemma event_cases:
  assumes ok: "engine_ok W" and ev: "event_ok W ev"
  obtains (loses) W' A where "engine_event ev W = Some W'" "engine_ok W'" "loses A W W'"
  | (opens) W' c msg fl p d where "engine_event ev W = Some W'" "engine_ok W'" "ev = Query c msg fl" "opens c p d W W'"
proof -
  have s: thesis if "engine_event ev W = Some W'" "shrinks W W'" for W'
    using loses[OF that(1) shrinks_ok[OF ok that(2)]] shrinks_loses_some[OF that(2)] by blast
  have client: "valid_fd (fst c)" if "is_client W c" for c
    by (rule conn_valid_fd[OF ok]) (use that in \<open>auto simp: is_client_def split: option.splits\<close>)
  show thesis
  proof (cases ev)
    case (Received c msg)
    show thesis by (rule s[OF _ quiet_shrinks[OF ok received_quiet]]) (simp add: Received)
  next
    case (Query c msg fl)
    then obtain C where C: "px_conns W c = Some C" "mc_client C" using ev by (auto simp: is_client_def split: option.splits)
    show thesis
    proof (cases rule: query_cases[OF ok C, of msg fl])
      case (1 W')
      then show thesis using s[of W'] Query by simp
    next
      case (2 p d W' es)
      then show thesis using s[of W'] opens[of W' c msg fl p d] Query by auto
    qed
  next
    case (Packet d msg op)
    have "\<exists>r W'. process_client_packet d msg op W = Some (r, W') \<and> shrinks W W' \<and> tot_forwarded_queries W' = tot_forwarded_queries W"
      by (rule process_packet_shrinks[OF ok]) (use ev Packet in simp_all)
    then show thesis using s Packet by auto
  next
    case (Middle_Ready d)
    then obtain D where D: "px_conns W d = Some D" "\<not> mc_client D" using ev by (auto simp: is_middle_def)
    have "mc_tag D = 0 \<or> mc_tag D = get_conn_tag d" using ok D unfolding engine_ok_def conns_ok_def by blast
    then have t: "mc_tag D = 0" using ev D Middle_Ready by (auto simp: tagged_def)
    obtain W' where "mtfront_client_ready d W = Some W'" "engine_ok W'" "cells_of (px_ext W') = cells_of (px_ext W)"
      "same_route (cells_of (px_ext W)) (px_ext W) (px_ext W')" "out_id (px_ext W') = out_id (px_ext W)"
      "ext_connections_created (px_ext W') = ext_connections_created (px_ext W)"
      by (rule middle_ready_ok[OF ok D t]) (rule that)
    then show thesis using loses[of W' "{}"] Middle_Ready by (simp add: loses_def)
  next
    case (Middle_Close d)
    then obtain D where D: "px_conns W d = Some D" "\<not> mc_client D" using ev by (auto simp: is_middle_def)
    obtain W' where "mtfront_client_close d W = Some W'" "engine_ok W'" "loses (server_members (px_ext W) (fst d)) W W'"
      by (rule middle_close_ok[OF ok D]) (rule that)
    then show thesis using loses Middle_Close by simp
  next
    case (Client_Ready c)
    obtain W' where "lru_insert_conn c W = Some W'" "shrinks W W'"
      by (rule lru_insert_conn_shrinks[OF ok client]) (use ev Client_Ready in \<open>auto intro: that\<close>)
    then show thesis using s[of W'] client[of c] ev Client_Ready by (simp add: mtproto_ext_rpc_ready_def)
  next
    case (Client_Close c)
    obtain W' where "mtproto_ext_rpc_close c W = Some W'" "shrinks W W'"
      by (rule client_close_shrinks[OF ok client]) (use ev Client_Close in \<open>auto intro: that\<close>)
    then show thesis using s Client_Close by simp
  next
    case (Buffers used maximum)
    then show thesis using s lru_loop_shrinks[OF ok, of "used - maximum * 3 div 4"] by (auto simp: check_all_conn_buffers_def)
  qed
qed

lemma start_ok: "start_state W \<Longrightarrow> engine_ok W"
proof -
  assume s: "start_state W"
  then obtain r where r: "px_ext W = empty_ext_table r" by (auto simp: start_state_def)
  have "cells_of (px_ext W) = {}" "o_next (px_ext W) p = None" for p by (simp_all add: r cells_of_def empty_ext_table_def)
  then show ?thesis using s empty_ext_ok[of r] unfolding start_state_def engine_ok_def heads_ok_def routed_def r by simp
qed

lemma network_ok: "\<lbrakk>engine_ok W; network_step W W'\<rbrakk> \<Longrightarrow> engine_ok W'"
  unfolding network_step_def engine_ok_def heads_ok_def routed_def by simp

lemma run_ok: "engine_run H W \<Longrightarrow> engine_ok W"
proof (induction rule: engine_run.induct)
  case (event H W ev W')
  show ?case by (cases rule: event_cases[OF event.IH event.hyps(2)]) (use event.hyps(3) in auto)
qed (rule start_ok, assumption, rule network_ok)

section \<open>The numbers given out\<close>

text \<open>
  The upper 42 bits of the number in an entry of the array count the external connections of that entry; a
  number is never given out again before they wrap.
\<close>

definition few_numbers :: "(conn_ref \<times> conn_ref \<times> u64) list \<Rightarrow> bool" where
  "few_numbers H \<longleftrightarrow> int (length H) < 4398046511104"

definition numbers_new :: "(conn_ref \<times> conn_ref \<times> u64) list \<Rightarrow> ext_table \<Rightarrow> bool" where
  "numbers_new H T \<longleftrightarrow> distinct (map (\<lambda>(_, _, oid). oid) H) \<and> (\<forall>s. uint (out_id T s) div 4194304 \<le> int (length H))
     \<and> (\<forall>c d oid. (c, d, oid) \<in> set H \<longrightarrow> uint oid \<le> uint (out_id T (fst c)))"

definition numbered :: "(conn_ref \<times> conn_ref \<times> u64) list \<Rightarrow> ext_table \<Rightarrow> bool" where
  "numbered H T \<longleftrightarrow> ext_connections_created T = int (length H)
     \<and> (\<forall>p \<in> cells_of T. ((in_fd T p, in_gen T p), (out_fd T p, out_gen T p), out_conn_id T p) \<in> set H)
     \<and> (\<forall>c d oid. (c, d, oid) \<in> set H \<longrightarrow> ext_slot oid = fst c)
     \<and> (few_numbers H \<longrightarrow> numbers_new H T)"

lemma numbered_loses:
  assumes n: "numbered H (px_ext W)" and l: "loses A W W'"
  shows "numbered H (px_ext W')"
proof -
  have "((in_fd (px_ext W') p, in_gen (px_ext W') p), (out_fd (px_ext W') p, out_gen (px_ext W') p), out_conn_id (px_ext W') p) \<in> set H"
    if p: "p \<in> cells_of (px_ext W')" for p
  proof -
    have "p \<in> cells_of (px_ext W)" using p l unfolding loses_def by blast
    moreover have "in_fd (px_ext W') p = in_fd (px_ext W) p \<and> in_gen (px_ext W') p = in_gen (px_ext W) p \<and> out_fd (px_ext W') p = out_fd (px_ext W) p
      \<and> out_gen (px_ext W') p = out_gen (px_ext W) p \<and> out_conn_id (px_ext W') p = out_conn_id (px_ext W) p"
      using p l unfolding loses_def same_route_def by blast
    ultimately show ?thesis using n unfolding numbered_def by simp
  qed
  then show ?thesis using n l unfolding numbered_def numbers_new_def loses_def by simp
qed

lemma next_number:
  assumes e: "uint old div 4194304 + 1 < 4398046511104" and h: "0 \<le> h" "h < 4194304"
  shows "uint old < uint (next_conn_id old h)" "uint (next_conn_id old h) div 4194304 = uint old div 4194304 + 1"
proof -
  let ?k = "uint old div 4194304"
  have "0 \<le> ?k" by (rule pos_imp_zdiv_nonneg_iff[THEN iffD2]) simp_all
  then have "0 \<le> (?k + 1) * 4194304 + h" "(?k + 1) * 4194304 + h < 18446744073709551616" using e h by simp_all
  then have u: "uint (next_conn_id old h) = (?k + 1) * 4194304 + h"
    unfolding next_conn_id_uint[OF h] by (rule mod_pos_pos_trivial)
  have "uint old < (?k + 1) * 4194304" by presburger
  then show "uint old < uint (next_conn_id old h)" unfolding u using h by simp
  show "uint (next_conn_id old h) div 4194304 = ?k + 1" unfolding u using h by simp
qed

lemma numbered_opens:
  assumes n: "numbered H (px_ext W)" and o: "opens c p d W W'" and c: "0 \<le> fst c" "fst c < MAX_CONNECTIONS"
  shows "numbered (H @ [(c, d, out_conn_id (px_ext W') p)]) (px_ext W')"
proof -
  let ?T = "px_ext W" and ?T' = "px_ext W'" and ?oid = "out_conn_id (px_ext W') p"
  let ?H = "H @ [(c, d, ?oid)]"
  have h: "0 \<le> fst c" "fst c < 4194304" using c by (simp_all add: MAX_CONNECTIONS_def)
  have o': "cells_of ?T' - {p} \<subseteq> cells_of ?T" "same_route (cells_of ?T' - {p}) ?T ?T'" "(in_fd ?T' p, in_gen ?T' p) = c" "(out_fd ?T' p, out_gen ?T' p) = d"
    "?oid = next_conn_id (out_id ?T (fst c)) (fst c)" "out_id ?T' = (out_id ?T)(fst c := ?oid)" "ext_connections_created ?T' = ext_connections_created ?T + 1"
    using o unfolding opens_def Let_def by blast+
  have slot: "ext_slot ?oid = fst c" unfolding o'(5) by (rule next_conn_id_slot[OF h])
  have cells: "((in_fd ?T' q, in_gen ?T' q), (out_fd ?T' q, out_gen ?T' q), out_conn_id ?T' q) \<in> set ?H" if q: "q \<in> cells_of ?T'" for q
  proof (cases "q = p")
    case True
    then show ?thesis using o'(3,4) by simp
  next
    case False
    then have "q \<in> cells_of ?T' - {p}" using q by blast
    then have "in_fd ?T' q = in_fd ?T q \<and> in_gen ?T' q = in_gen ?T q \<and> out_fd ?T' q = out_fd ?T q \<and> out_gen ?T' q = out_gen ?T q
        \<and> out_conn_id ?T' q = out_conn_id ?T q" "q \<in> cells_of ?T" using o'(1,2) unfolding same_route_def by blast+
    then show ?thesis using n unfolding numbered_def by simp
  qed
  have new: "numbers_new ?H ?T'" if few: "few_numbers ?H"
  proof -
    have fewH: "few_numbers H" using few by (simp add: few_numbers_def)
    then have nn: "numbers_new H ?T" using n by (simp add: numbered_def)
    have ep: "uint (out_id ?T s) div 4194304 \<le> int (length H)" for s using nn unfolding numbers_new_def by blast
    have "uint (out_id ?T (fst c)) div 4194304 + 1 < 4398046511104" using ep[of "fst c"] few by (simp add: few_numbers_def)
    note nx = next_number[OF this h, folded o'(5)]
    have le: "uint oid \<le> uint (out_id ?T (fst c'))" if "(c', d', oid) \<in> set H" for c' d' oid
      using nn that unfolding numbers_new_def by blast
    have notin: "?oid \<noteq> oid" if m: "(c', d', oid) \<in> set H" for c' d' oid
    proof
      assume e: "?oid = oid"
      have "ext_slot oid = fst c'" using n m unfolding numbered_def by blast
      then have "fst c' = fst c" using slot e by simp
      then show False using le[OF m] nx(1) e by simp
    qed
    have "distinct (map (\<lambda>(_, _, oid). oid) ?H)"
    proof -
      have "distinct (map (\<lambda>(_, _, oid). oid) H)" using nn unfolding numbers_new_def by blast
      moreover have "?oid \<notin> set (map (\<lambda>(_, _, oid). oid) H)"
      proof
        assume "?oid \<in> set (map (\<lambda>(_, _, oid). oid) H)"
        then obtain c' d' where "(c', d', ?oid) \<in> set H" by auto
        then show False using notin by blast
      qed
      ultimately show ?thesis by simp
    qed
    moreover have "uint (out_id ?T' s) div 4194304 \<le> int (length ?H)" for s
      unfolding o'(6) using ep[of s] ep[of "fst c"] nx(2) by (cases "s = fst c") simp_all
    moreover have "uint oid \<le> uint (out_id ?T' (fst c'))" if "(c', d', oid) \<in> set ?H" for c' d' oid
    proof (cases "(c', d', oid) \<in> set H")
      case True
      show ?thesis unfolding o'(6) using le[OF True] nx(1) by (cases "fst c' = fst c") simp_all
    next
      case False
      then show ?thesis using that unfolding o'(6) by simp
    qed
    ultimately show ?thesis unfolding numbers_new_def by blast
  qed
  have "ext_slot oid = fst c'" if "(c', d', oid) \<in> set ?H" for c' d' oid
  proof (cases "(c', d', oid) \<in> set H")
    case True
    then show ?thesis using n unfolding numbered_def by blast
  qed (use that slot in simp)
  moreover have "ext_connections_created ?T' = int (length ?H)" using n o'(7) by (simp add: numbered_def)
  ultimately show ?thesis unfolding numbered_def using cells new by blast
qed

lemma new_numbers_loses: "loses A W W' \<Longrightarrow> new_numbers ev W W' = []"
  by (cases ev) (simp_all add: loses_def)

lemma new_numbers_opens:
  assumes o: "opens c p d W W'" and e: "ext_ok (px_ext W')"
  shows "new_numbers (Query c msg fl) W W' = [(c, d, out_conn_id (px_ext W') p)]"
proof -
  have o': "p \<in> cells_of (px_ext W')" "(in_fd (px_ext W') p, in_gen (px_ext W') p) = c" "(out_fd (px_ext W') p, out_gen (px_ext W') p) = d"
    "ext_connections_created (px_ext W') = ext_connections_created (px_ext W) + 1"
    using o unfolding opens_def Let_def by blast+
  have "out_ref (px_ext W') (fst c) = Some p" using ext_ok_fields(7)[OF e o'(1)] o'(2) by auto
  then show ?thesis using o'(3,4) by simp
qed

lemma run_numbered: "engine_run H W \<Longrightarrow> numbered H (px_ext W)"
proof (induction rule: engine_run.induct)
  case (start W)
  then show ?case
    by (auto simp: start_state_def numbered_def numbers_new_def empty_ext_table_def cells_of_def)
next
  case (network H W W')
  then show ?case by (simp add: network_step_def)
next
  case (event H W ev W')
  note ok = run_ok[OF event.hyps(1)]
  show ?case
  proof (cases rule: event_cases[OF ok event.hyps(2)])
    case (1 V A)
    then have "W' = V" using event.hyps(3) by simp
    then show ?thesis using numbered_loses[OF event.IH 1(3)] new_numbers_loses[OF 1(3)] by simp
  next
    case (2 V c msg fl p d)
    then have V: "W' = V" using event.hyps(3) by simp
    have "px_conns W c \<noteq> None" using event.hyps(2) 2(3) by (auto simp: is_client_def split: option.splits)
    then have "0 < fst c \<and> fst c < MAX_CONNECTIONS" using ok unfolding engine_ok_def conns_ok_def by blast
    then show ?thesis
      using numbered_opens[OF event.IH 2(4)] new_numbers_opens[OF 2(4) engine_ext_ok[OF 2(2)], of msg fl] unfolding V 2(3) by simp
  qed
qed

end
