(* ===== verification/Proxy_Properties.thy ===== *)
theory Proxy_Properties
  imports Proxy_Runs
begin

text \<open>
  What the engine promises, on every run: no assertion fails, an answer reaches only the client that asked,
  a query is answered, and what happens when a middle-end connection closes; with an example that the
  witnesses run.
\<close>

section \<open>An example\<close>

definition example_config :: mf_config where
  "example_config = (case parse_config example_hosts True 4 8 example_text zero_config of Inr MC \<Rightarrow> MC | Inl _ \<Rightarrow> zero_config)"

definition example_conn :: "bool \<Rightarrow> mt_conn" where
  "example_conn client = \<lparr>mc_open = True, mc_ready = True, mc_client = client, mc_target = \<not> client, mc_tag = 0, mc_dc = 2, mc_flags = 0,
     mc_used = 0, mc_remote_ip = 0x7f000001, mc_remote_ipv6 = (0, 0), mc_remote_port = 4000, mc_our_ip = 0x0a000001, mc_our_ipv6 = (0, 0), mc_our_port = 443\<rparr>"

text \<open>A client and one connection to a middle-end, which all targets share.\<close>

definition example_proxy :: proxy where
  "example_proxy = \<lparr>px_ext = empty_ext_table (\<lambda>_. 0), px_conns = [(3, 1) \<mapsto> example_conn True, (5, 1) \<mapsto> example_conn False],
     px_pool = (\<lambda>_. [(5, 1)]), px_config = example_config, px_nat = [], px_tag = None, px_log = [], dropped_queries = 0,
     tot_forwarded_queries = 0, dropped_responses = 0, tot_forwarded_responses = 0, dropped_simple_acks = 0,
     tot_forwarded_simple_acks = 0, connections_failed_lru = 0, connections_failed_flood = 0\<rparr>"

lemma example_config_good: "config_good example_config"
proof -
  obtain MC where p: "parse_config example_hosts True 4 8 example_text zero_config = Inr MC"
    using example_text_parses by (auto split: sum.splits)
  have "limits 4 8" by (simp add: limits_def)
  from parse_config_ok[OF this p] show ?thesis by (simp add: example_config_def p config_good_def)
qed

lemma example_start: "start_state example_proxy"
proof -
  have c: "px_conns example_proxy c = Some C \<Longrightarrow> (c = (3, 1) \<and> C = example_conn True) \<or> (c = (5, 1) \<and> C = example_conn False)" for c C
    by (auto simp: example_proxy_def split: if_splits)
  have "conns_ok example_proxy"
    unfolding conns_ok_def using c
    by (auto simp: is_middle_def MAX_CONNECTIONS_def example_conn_def example_proxy_def split: if_splits)
  moreover have "\<not> tagged example_proxy d" for d
  proof
    assume "tagged example_proxy d"
    then obtain D where D: "px_conns example_proxy d = Some D" "mc_tag D = get_conn_tag d" by (auto simp: tagged_def)
    have "mc_tag D = 0" using c[OF D(1)] by (auto simp: example_conn_def)
    then show False using D(2) get_conn_tag_pos[of d] by simp
  qed
  ultimately show ?thesis using example_config_good unfolding start_state_def by (auto simp: example_proxy_def)
qed

text \<open>Several events, one after the other, with the numbers given out.\<close>

fun checked_events :: "engine_job list \<Rightarrow> proxy \<Rightarrow> ((conn_ref \<times> conn_ref \<times> u64) list \<times> proxy) option" where
  "checked_events [] W = Some ([], W)"
| "checked_events (e # es) W =
     (if event_ok W e
      then Option.bind (engine_event e W) (\<lambda>V. map_option (\<lambda>(H, U). (new_numbers e W V @ H, U)) (checked_events es V))
      else None)"

lemma is_middle_code [code]: "is_middle W d \<longleftrightarrow> (case px_conns W d of None \<Rightarrow> False | Some D \<Rightarrow> \<not> mc_client D)"
  by (auto simp: is_middle_def split: option.splits)

lemma tagged_code [code]: "tagged W d \<longleftrightarrow> (case px_conns W d of None \<Rightarrow> False | Some D \<Rightarrow> \<not> mc_client D \<and> mc_tag D = get_conn_tag d)"
  by (auto simp: tagged_def split: option.splits)

lemma run_checked: "\<lbrakk>engine_run H W; checked_events es W = Some (H', W')\<rbrakk> \<Longrightarrow> engine_run (H @ H') W'"
proof (induction es arbitrary: H W H')
  case (Cons e es)
  then obtain V K where V: "event_ok W e" "engine_event e W = Some V" "checked_events es V = Some (K, W')" "H' = new_numbers e W V @ K"
    by (auto simp: bind_eq_Some_conv split: if_splits)
  show ?case using Cons.IH[OF engine_run.event[OF Cons.prems(1) V(1,2)] V(3)] V(4) by simp
qed simp

text \<open>The middle-end connection is ready, and a client asks.\<close>

definition example_query :: "byte list" where "example_query = replicate 56 1"
definition example_asked :: "engine_job list" where "example_asked = [Middle_Ready (5, 1), Query (3, 1) example_query 0]"

section \<open>No assertion fails\<close>

text \<open>
  C4. In every run of the engine, from a state without external connections, over any sequence of packets,
  queries, connections that become ready or close, checks of the buffers, and changes of the connections and of the
  configuration in between: the handler of the next event ends and fails no assertion, and the invariant holds after it.
\<close>

theorem engine_never_aborts:
  assumes "engine_run H W" "event_ok W ev"
  shows "\<exists>W'. engine_event ev W = Some W' \<and> engine_ok W'"
  by (rule event_cases[OF run_ok[OF assms(1)] assms(2)]) blast+

section \<open>Who gets an answer\<close>

fun delivered_to :: "proxy_effect \<Rightarrow> conn_ref option" where
  "delivered_to (Send fd gen b) = Some (fd, gen)"
| "delivered_to (Push fd gen b) = Some (fd, gen)"
| "delivered_to (Fail fd gen err) = None"

definition delivers :: "conn_ref set \<Rightarrow> proxy \<Rightarrow> proxy \<Rightarrow> bool" where
  "delivers A W W' \<longleftrightarrow> (\<exists>es. px_log W' = px_log W @ es \<and> (\<forall>e \<in> set es. \<forall>c. delivered_to e = Some c \<longrightarrow> c \<in> A))"

lemma delivers_refl [simp]: "delivers A W W"
  by (simp add: delivers_def)

lemma delivers_log [simp]: "px_log V = px_log W \<Longrightarrow> delivers A W V"
  by (simp add: delivers_def)

lemma delivers_trans: "\<lbrakk>delivers A U V; delivers A V W\<rbrakk> \<Longrightarrow> delivers A U W"
  unfolding delivers_def by (metis Un_iff append.assoc set_append)

lemma delivers_effects: "\<forall>e \<in> set es. \<forall>c. delivered_to e = Some c \<longrightarrow> c \<in> A \<Longrightarrow> delivers A W (log_effects es W)"
  unfolding delivers_def by auto

lemma delivers_send: "c \<in> A \<Longrightarrow> delivers A W (send_to c b W)"
  unfolding send_to_def by (rule delivers_effects) simp

lemma delivers_fail: "delivers A W (mt_fail_connection c e W)"
  unfolding mt_fail_connection_def by (rule delivers_effects) simp

lemma delivers_check: "check_conn_buffers c W = (r, W') \<Longrightarrow> delivers A W W'"
  using delivers_trans[OF delivers_fail[of A W c "-429"] delivers_log, of W']
  by (auto simp: check_conn_buffers_def split: if_splits)

lemma delivers_padding: "confirm_padding W = (m, W') \<Longrightarrow> px_log W' = px_log W"
  unfolding confirm_padding_def by (auto simp: draw_def split: prod.splits if_splits)

lemma delivers_message:
  assumes c: "c \<in> A" and s: "client_send_message c i b W = Some (r, W')"
  shows "delivers A W W'"
proof -
  obtain q V where 1: "check_conn_buffers c W = (q, V)" by force
  obtain t U where 2: "check_conn_buffers c (send_to c b V) = (t, U)" by force
  have "delivers A W V" "delivers A W U"
    using delivers_check[OF 1] delivers_trans[OF delivers_trans[OF delivers_check[OF 1] delivers_send[OF c]] delivers_check[OF 2]] by blast+
  then show ?thesis using s 1 2 by (auto simp: client_send_message_def Let_def tls_message_def assert_c_def bind_eq_Some_conv split: if_splits)
qed

lemma delivers_confirmation:
  assumes c: "c \<in> A"
  shows "delivers A W (push_rpc_confirmation c n W)"
proof -
  obtain r V where 1: "draw W = (r, V)" by force
  obtain m V1 where 2: "confirm_padding V = (m, V1)" by force
  let ?V2 = "send_to c (bytes_le (- 1) @ bytes_le n @ m) V1"
  obtain k V3 where 3: "confirm_padding ?V2 = (k, V3)" by force
  have l: "px_log V = px_log W" using 1 draw_simps(2)[of W] by simp
  have "delivers A W ?V2" by (rule delivers_trans[OF delivers_log delivers_send[OF c]]) (use l delivers_padding[OF 2] in simp)
  then have "delivers A W (send_to c (bytes_le 0 @ k) V3)"
    by (rule delivers_trans[OF _ delivers_trans[OF delivers_log delivers_send[OF c]]]) (use delivers_padding[OF 3] in simp)
  moreover have "delivers A W (log_effects [Push (fst c) (snd c) b] V)" for b
    by (rule delivers_trans[OF delivers_log delivers_effects]) (use l c in simp_all)
  ultimately show ?thesis using 1 2 3 by (simp add: push_rpc_confirmation_def Let_def)
qed

text \<open>The number in a packet of a middle-end.\<close>

definition packet_number :: "u32 \<Rightarrow> byte list \<Rightarrow> u64" where
  "packet_number op msg = le64 (drop (if op = RPC_PROXY_ANS then 8 else 4) msg)"

lemma packet_delivers:
  assumes ok: "engine_ok W" and len: "4 \<le> length msg" "le32 msg = op" "op = RPC_PROXY_ANS \<or> op = RPC_SIMPLE_ACK \<or> op = RPC_CLOSE_EXT"
    and r: "process_client_packet d msg op W = Some (r, W')"
  shows "delivers ({d} \<union> {c. \<exists>p. answer_client d (packet_number op msg) W = Some (Some (p, c))}) W W'"
proof -
  let ?A = "{d} \<union> {c. \<exists>p. answer_client d (packet_number op msg) W = Some (Some (p, c))}"
  have drop: "delivers ?A W (log_effects [notify_remote_closed d n] (W\<lparr>dropped_responses := k\<rparr>))"
    "delivers ?A W (log_effects [notify_remote_closed d n] (W\<lparr>dropped_simple_acks := k\<rparr>))" for n k
    by (rule delivers_trans[OF delivers_log delivers_effects]; simp add: notify_remote_closed_def)+
  have op: "op \<noteq> RPC_PONG" using len(3) by (auto simp: RPC_PONG_def RPC_PROXY_ANS_def RPC_SIMPLE_ACK_def RPC_CLOSE_EXT_def)
  have ne: "RPC_SIMPLE_ACK \<noteq> RPC_PROXY_ANS" "RPC_CLOSE_EXT \<noteq> RPC_PROXY_ANS" "RPC_CLOSE_EXT \<noteq> RPC_SIMPLE_ACK"
    by (simp_all add: RPC_PROXY_ANS_def RPC_SIMPLE_ACK_def RPC_CLOSE_EXT_def)
  consider "op = RPC_PROXY_ANS" "16 \<le> length msg" | "op = RPC_SIMPLE_ACK" "length msg = 16" | "op = RPC_CLOSE_EXT" "length msg = 12"
    | "process_client_packet d msg op W = Some (0, W)"
  proof -
    have "process_client_packet d msg op W = Some (0, W)"
      if "\<not> (op = RPC_PROXY_ANS \<and> 16 \<le> length msg)" "\<not> (op = RPC_SIMPLE_ACK \<and> length msg = 16)" "\<not> (op = RPC_CLOSE_EXT \<and> length msg = 12)"
      using len(1,2) op
      by (simp only: process_client_packet_def Let_def if_not_P[OF that(1)] if_not_P[OF that(2)] if_not_P[OF that(3)]) simp
    then show thesis using that by blast
  qed
  then show ?thesis
  proof cases
    case 1
    then obtain ex where ex: "answer_client d (packet_number op msg) W = Some ex"
      using r len op by (auto simp: process_client_packet_def Let_def packet_number_def bind_eq_Some_conv)
    show ?thesis
    proof (cases ex)
      case None
      then show ?thesis using r len op 1 ex drop(1) by (auto simp: process_client_packet_def Let_def packet_number_def)
    next
      case (Some pc)
      obtain p c where pc: "pc = (p, c)" by (rule prod.exhaust)
      have c: "c \<in> ?A" using ex Some pc by simp
      let ?V = "W\<lparr>tot_forwarded_responses := tot_forwarded_responses W + 1\<rparr>"
      obtain s where "client_send_message c (in_conn_id (px_ext ?V) p) (drop 16 msg) ?V = Some (s, W')"
        using r len op 1 ex Some pc by (auto simp: process_client_packet_def Let_def packet_number_def bind_eq_Some_conv)
      from delivers_message[OF c this] show ?thesis by (rule delivers_trans[OF delivers_log[of ?V W], rotated]) simp
    qed
  next
    case 2
    then obtain ex where ex: "answer_client d (packet_number op msg) W = Some ex"
      using r len op ne by (auto simp: process_client_packet_def Let_def packet_number_def bind_eq_Some_conv)
    show ?thesis
    proof (cases ex)
      case None
      then show ?thesis using r len op ne 2 ex drop(2) by (auto simp: process_client_packet_def Let_def packet_number_def)
    next
      case (Some pc)
      obtain p c where pc: "pc = (p, c)" by (rule prod.exhaust)
      have c: "c \<in> ?A" using ex Some pc by simp
      obtain n k where W': "W' = (push_rpc_confirmation c n W)\<lparr>tot_forwarded_simple_acks := k\<rparr>"
        using r len op ne 2 ex Some pc by (auto simp: process_client_packet_def Let_def packet_number_def bind_eq_Some_conv assert_c_def split: if_splits)
      show ?thesis unfolding W' by (rule delivers_trans[OF delivers_confirmation[OF c] delivers_log]) simp
    qed
  next
    case 3
    then obtain ex where ex: "find_ext_connection_by_out_conn_id (le64 (drop 4 msg)) (px_ext W) = Some ex"
      using find_by_out_conn_id[OF engine_ext_ok[OF ok]] by blast
    show ?thesis
    proof (cases ex)
      case None
      then show ?thesis using r len op ne 3 ex by (auto simp: process_client_packet_def Let_def)
    next
      case (Some p)
      then have p: "p \<in> cells_of (px_ext W)" using ex find_by_out_conn_id_iff[OF engine_ext_ok[OF ok]] by auto
      have "remove_ext_conn p 2 W = Some W'" using r len op ne 3 ex Some by (auto simp: process_client_packet_def Let_def)
      moreover obtain V where "remove_ext_conn p 2 W = Some V" "px_log V = px_log W @ removal_effects (alive W) p 2 (px_ext W)"
        by (rule remove_ext_shrinks[OF ok p, of 2]) (rule that)
      ultimately have "px_log W' = px_log W @ removal_effects (alive W) p 2 (px_ext W)" by simp
      moreover have "delivered_to e = None" if "e \<in> set (removal_effects (alive W) p 2 (px_ext W))" for e
        using that by (auto simp: removal_effects_2 split: if_splits)
      ultimately show ?thesis unfolding delivers_def by auto
    qed
  qed (use r in simp)
qed

text \<open>
  C2. An answer or a confirmation that a middle-end connection sends is delivered only to the client whose query
  went to this very connection under the number in the packet, and the number was given to no other query: on every
  run with fewer than \<open>2 ^ 42\<close> external connections, for every packet, valid or not.  (Apart from the
  notification that goes back to the middle-end connection itself.)
\<close>

theorem answers_reach_the_asking_client:
  assumes "engine_run H W" "few_numbers H" "event_ok W (Packet d msg op)" "engine_event (Packet d msg op) W = Some W'"
    and "e \<in> set (drop (length (px_log W)) (px_log W'))" "delivered_to e = Some c" "c \<noteq> d"
  shows "(c, d, packet_number op msg) \<in> set H \<and> (\<forall>c' d'. (c', d', packet_number op msg) \<in> set H \<longrightarrow> c' = c \<and> d' = d)"
proof -
  note ok = run_ok[OF assms(1)]
  obtain r where r: "process_client_packet d msg op W = Some (r, W')" using assms(4) by auto
  have D: "delivers ({d} \<union> {c. \<exists>p. answer_client d (packet_number op msg) W = Some (Some (p, c))}) W W'"
    by (rule packet_delivers[OF ok _ _ _ r]) (use assms(3) in \<open>auto simp: rpcc_execute_def split: if_splits\<close>)
  then obtain es where es: "px_log W' = px_log W @ es"
    "\<forall>e \<in> set es. \<forall>c. delivered_to e = Some c \<longrightarrow> c \<in> {d} \<union> {c. \<exists>p. answer_client d (packet_number op msg) W = Some (Some (p, c))}"
    unfolding delivers_def by blast
  have "e \<in> set es" using assms(5) es(1) by simp
  then have "c \<in> {d} \<union> {c. \<exists>p. answer_client d (packet_number op msg) W = Some (Some (p, c))}" using es(2) assms(6) by blast
  then obtain p where p: "answer_client d (packet_number op msg) W = Some (Some (p, c))" using assms(7) by blast
  have cell: "p \<in> cells_of (px_ext W)" "out_conn_id (px_ext W) p = packet_number op msg" "c = (in_fd (px_ext W) p, in_gen (px_ext W) p)"
    "d = (out_fd (px_ext W) p, out_gen (px_ext W) p)"
    by (rule answer_client_cases[OF ok, of d "packet_number op msg"]; use p in simp)+
  note n = run_numbered[OF assms(1)]
  have m: "(c, d, packet_number op msg) \<in> set H" using n cell unfolding numbered_def by force
  have "distinct (map (\<lambda>(_, _, oid). oid) H)" using n assms(2) unfolding numbered_def numbers_new_def by blast
  then have inj: "inj_on (\<lambda>(_, _, oid). oid) (set H)" by (simp add: distinct_map)
  have "(c', d') = (c, d)" if "(c', d', packet_number op msg) \<in> set H" for c' d'
    using inj_onD[OF inj _ that m] by simp
  then show ?thesis using m by blast
qed

section \<open>A middle-end connection closes\<close>

lemma members_by_ref:
  assumes ok: "engine_ok W" and d: "px_conns W d \<noteq> None"
  shows "server_members (px_ext W) (fst d) = {p \<in> cells_of (px_ext W). (out_fd (px_ext W) p, out_gen (px_ext W) p) = d}"
proof -
  have cok: "conns_ok W" using ok by (simp add: engine_ok_def)
  have "0 < fst d" using cok d unfolding conns_ok_def by blast
  then have z: "fst d \<noteq> 0" by simp
  have "out_gen (px_ext W) p = snd d" if p: "p \<in> cells_of (px_ext W)" "out_fd (px_ext W) p = fst d" for p
  proof -
    have "tagged W (out_fd (px_ext W) p, out_gen (px_ext W) p)" using ok p(1) unfolding engine_ok_def routed_def by blast
    then have t: "tagged W (fst d, out_gen (px_ext W) p)" unfolding p(2) .
    from tagged_unique[OF cok t, of "snd d"] d show ?thesis by simp
  qed
  then have "(out_fd (px_ext W) p, out_gen (px_ext W) p) = d \<longleftrightarrow> out_fd (px_ext W) p = fst d" if "p \<in> cells_of (px_ext W)" for p
    using that by (metis prod.collapse prod.inject)
  then show ?thesis using z unfolding server_members_def by blast
qed

text \<open>
  C15. When a middle-end connection closes, exactly the external connections that lead to it are removed, and
  exactly their clients, as far as they are still there, are closed (with the code -33).  The connection has no tag then,
  so no query is sent to it any more.
\<close>

theorem middle_close_closes_its_clients:
  assumes "engine_run H W" "event_ok W (Middle_Close d)"
  shows "\<exists>W' es. engine_event (Middle_Close d) W = Some W' \<and> px_log W' = px_log W @ es
    \<and> cells_of (px_ext W') = {p \<in> cells_of (px_ext W). (out_fd (px_ext W) p, out_gen (px_ext W) p) \<noteq> d}
    \<and> set es = {Fail (in_fd (px_ext W) p) (in_gen (px_ext W) p) (-33) | p. p \<in> cells_of (px_ext W)
         \<and> (out_fd (px_ext W) p, out_gen (px_ext W) p) = d \<and> alive W (in_fd (px_ext W) p) (in_gen (px_ext W) p)}
    \<and> \<not> tagged W' d"
proof -
  note ok = run_ok[OF assms(1)]
  obtain D where D: "px_conns W d = Some D" "\<not> mc_client D" using assms(2) by (auto simp: is_middle_def)
  obtain W' es where W': "mtfront_client_close d W = Some W'" "loses (server_members (px_ext W) (fst d)) W W'"
    "px_log W' = px_log W @ es" "set es = closed_clients W (server_members (px_ext W) (fst d))"
    "conn_view W' = (conn_view W)(d := Some (False, 0))"
    by (rule middle_close_ok[OF ok D]) (rule that)
  have m: "server_members (px_ext W) (fst d) = {p \<in> cells_of (px_ext W). (out_fd (px_ext W) p, out_gen (px_ext W) p) = d}"
    by (rule members_by_ref[OF ok]) (simp add: D)
  have "\<not> tagged W' d" unfolding tagged_view W'(5) using get_conn_tag_pos[of d] by simp
  moreover have "cells_of (px_ext W') = {p \<in> cells_of (px_ext W). (out_fd (px_ext W) p, out_gen (px_ext W) p) \<noteq> d}"
    using W'(2) unfolding m loses_def by blast
  moreover have "set es = {Fail (in_fd (px_ext W) p) (in_gen (px_ext W) p) (-33) | p. p \<in> cells_of (px_ext W)
         \<and> (out_fd (px_ext W) p, out_gen (px_ext W) p) = d \<and> alive W (in_fd (px_ext W) p) (in_gen (px_ext W) p)}"
    unfolding W'(4) m closed_clients_def by simp
  ultimately show ?thesis using W'(1,3) by (intro exI[of _ W'] exI[of _ es]) simp
qed

section \<open>A query and its answer\<close>

lemma le64_bytes64 [simp]: "le64 (bytes64 x @ rest) = x"
proof -
  have "le32 (bytes64 x @ rest) = ucast x" "le32 (drop 4 (bytes64 x @ rest)) = ucast (drop_bit 32 x)"
    by (simp_all add: bytes64_def)
  then have "le64 (bytes64 x @ rest) = ucast (ucast x :: u32) OR push_bit 32 (ucast (ucast (drop_bit 32 x) :: u32))"
    by (simp add: le64_def)
  also have "\<dots> = x"
  proof (rule bit_eqI)
    fix n assume "possible_bit TYPE(64 word) n"
    then show "bit (ucast (ucast x :: u32) OR push_bit 32 (ucast (ucast (drop_bit 32 x) :: u32)) :: u64) n = bit x n"
      by (cases "n < 32") (auto simp: bit_simps)
  qed
  finally show ?thesis .
qed

lemma proxy_request_number: "take 8 (drop 8 (proxy_request W C fl oid remote our msg)) = bytes64 oid"
  by (simp add: proxy_request_def Let_def)

lemma answer_is_delivered:
  assumes ok: "engine_ok V" and p: "p \<in> cells_of (px_ext V)" "out_conn_id (px_ext V) p = oid" "in_fd (px_ext V) p = fst c" "in_gen (px_ext V) p = snd c"
    and C: "px_conns V c = Some C" "mc_open C" "mc_used C \<le> MAX_CONNECTION_BUFFER_SPACE" and f: "length f = 4" and m: "length data mod 4 = 0"
  shows "\<exists>V'. process_client_packet (out_fd (px_ext V) p, out_gen (px_ext V) p) (bytes_le RPC_PROXY_ANS @ f @ bytes64 oid @ data) RPC_PROXY_ANS V = Some (1, V')
    \<and> px_log V' = px_log V @ [Send (fst c) (snd c) data] \<and> tot_forwarded_responses V' = tot_forwarded_responses V + 1"
proof -
  let ?d = "(out_fd (px_ext V) p, out_gen (px_ext V) p)"
  note e = engine_ext_ok[OF ok]
  have "find_ext_connection_by_out_conn_id oid (px_ext V) = Some (Some p)" using find_by_out_conn_id_iff[OF e] p(1,2) by blast
  moreover have "alive V (in_fd (px_ext V) p) (in_gen (px_ext V) p)" using C p(3,4) by (simp add: alive_def)
  ultimately have a: "answer_client ?d oid V = Some (Some (p, c))" using p(3,4) by (simp add: answer_client_def)
  have used: "used_bytes V c \<le> MAX_CONNECTION_BUFFER_SPACE" using C by (simp add: used_bytes_def)
  let ?V = "V\<lparr>tot_forwarded_responses := tot_forwarded_responses V + 1\<rparr>"
  have "used_bytes ?V c = used_bytes V c" "used_bytes (send_to c data ?V) c = used_bytes V c"
    by (simp_all add: used_bytes_def send_to_def)
  then have s: "client_send_message c 0 data ?V = Some (1, send_to c data ?V)"
    using used by (simp add: client_send_message_def check_conn_buffers_def Let_def tls_message_ok[OF m])
  have op: "RPC_PROXY_ANS \<noteq> RPC_PONG" by (simp add: RPC_PROXY_ANS_def RPC_PONG_def)
  have "process_client_packet ?d (bytes_le RPC_PROXY_ANS @ f @ bytes64 oid @ data) RPC_PROXY_ANS V = Some (1, send_to c data ?V)"
    using f a s op ext_ok_fields(4)[OF e p(1)] by (simp add: process_client_packet_def Let_def)
  then show ?thesis by (simp add: send_to_def log_effects_def)
qed

text \<open>
  C9. A query that is forwarded is sent to one middle-end connection under a number, and what that connection
  answers under this number comes back to this client, unchanged.  The conditions: the client is open, its
  buffers hold at most \<open>MAX_CONNECTION_BUFFER_SPACE\<close> bytes, its descriptor carries no external connection of
  an earlier client (\<open>reused_descriptor_loses_answers\<close>), and the answer comes in whole words.
\<close>

theorem query_is_answered:
  assumes "engine_run H W" "px_conns W c = Some C" "mc_client C" "mc_open C" "mc_used C \<le> MAX_CONNECTION_BUFFER_SPACE"
    and "\<forall>p \<in> cells_of (px_ext W). in_fd (px_ext W) p = fst c \<longrightarrow> in_gen (px_ext W) p = snd c"
    and "do_rpcs_execute c msg fl W = Some V" "tot_forwarded_queries V \<noteq> tot_forwarded_queries W"
  shows "\<exists>d req L. px_log V = L @ [Send (fst d) (snd d) req] \<and> drop (length req - length msg) req = msg
    \<and> (\<forall>f data. length f = 4 \<and> length data mod 4 = 0 \<longrightarrow>
         (\<exists>V'. process_client_packet d (bytes_le RPC_PROXY_ANS @ f @ take 8 (drop 8 req) @ data) RPC_PROXY_ANS V = Some (1, V')
            \<and> px_log V' = px_log V @ [Send (fst c) (snd c) data]))"
proof (rule query_cases[OF run_ok[OF assms(1)] assms(2,3), of msg fl])
  fix p d es and W' :: proxy
  let ?req = "proxy_request W C (query_flags W C (if le64 msg = 0 then 2 OR fl else fl)) (out_conn_id (px_ext W') p) None None msg"
  assume q: "do_rpcs_execute c msg fl W = Some W'" "engine_ok W'" "px_log W' = px_log W @ es @ [Send (fst d) (snd d) ?req]"
    "p \<in> cells_of (px_ext W')" "in_fd (px_ext W') p = fst c" "d = (out_fd (px_ext W') p, out_gen (px_ext W') p)"
    "shrinks W W' \<or> opens c p d W W' \<and> no_route c W" "px_conns W' = px_conns W"
  have V: "W' = V" using q(1) assms(7) by simp
  have gen: "in_gen (px_ext W') p = snd c"
    using q(7)
  proof
    assume s: "shrinks W W'"
    have "p \<in> cells_of (px_ext W)" "in_fd (px_ext W') p = in_fd (px_ext W) p" "in_gen (px_ext W') p = in_gen (px_ext W) p"
      using s q(4) unfolding shrinks_def same_route_def by blast+
    then show ?thesis using assms(6) q(5) by simp
  next
    assume "opens c p d W W' \<and> no_route c W"
    then have "(in_fd (px_ext W') p, in_gen (px_ext W') p) = c" unfolding opens_def Let_def by blast
    then show ?thesis by auto
  qed
  define req where "req = ?req"
  have log: "px_log W' = (px_log W @ es) @ [Send (fst d) (snd d) req]" unfolding q(3) req_def by simp
  have number: "take 8 (drop 8 req) = bytes64 (out_conn_id (px_ext W') p)" unfolding req_def by (rule proxy_request_number)
  have body: "drop (length req - length msg) req = msg" unfolding req_def by (simp add: proxy_request_def Let_def)
  have Cc: "px_conns W' c = Some C" unfolding q(8) by (rule assms(2))
  have ans: "\<exists>V'. process_client_packet d (bytes_le RPC_PROXY_ANS @ f @ take 8 (drop 8 req) @ data) RPC_PROXY_ANS W' = Some (1, V')
      \<and> px_log V' = px_log W' @ [Send (fst c) (snd c) data]" if f: "length f = 4" "length data mod 4 = 0" for f data
    using answer_is_delivered[OF q(2,4) refl q(5) gen Cc assms(4,5) f] unfolding number q(6) by blast
  have "\<forall>f data. length f = 4 \<and> length data mod 4 = 0 \<longrightarrow>
      (\<exists>V'. process_client_packet d (bytes_le RPC_PROXY_ANS @ f @ take 8 (drop 8 req) @ data) RPC_PROXY_ANS W' = Some (1, V')
        \<and> px_log V' = px_log W' @ [Send (fst c) (snd c) data])" using ans by simp
  with log body show ?thesis unfolding V[symmetric] by blast
qed (use assms(7,8) in simp)

section \<open>The descriptor of an earlier client\<close>

lemma answer_is_dropped:
  assumes ok: "engine_ok V" and p: "p \<in> cells_of (px_ext V)" "out_conn_id (px_ext V) p = oid"
    and dead: "\<not> alive V (in_fd (px_ext V) p) (in_gen (px_ext V) p)" and f: "length f = 4"
  shows "\<exists>V'. process_client_packet d (bytes_le RPC_PROXY_ANS @ f @ bytes64 oid @ data) RPC_PROXY_ANS V = Some (1, V')
    \<and> px_log V' = px_log V @ [notify_remote_closed d oid]"
proof -
  have "find_ext_connection_by_out_conn_id oid (px_ext V) = Some (Some p)"
    using find_by_out_conn_id_iff[OF engine_ext_ok[OF ok]] p by blast
  then have a: "answer_client d oid V = Some None" using dead by (simp add: answer_client_def)
  have op: "RPC_PROXY_ANS \<noteq> RPC_PONG" by (simp add: RPC_PROXY_ANS_def RPC_PONG_def)
  show ?thesis using f a op by (simp add: process_client_packet_def Let_def)
qed

text \<open>
  C39. When the descriptor of a client still carries the external connection of an earlier client (one whose last query was
  handled after its connection had been closed in the engine), the query is forwarded under the number of the earlier
  client, and every answer is dropped: the middle-end connection is told that the client has gone.
\<close>

theorem reused_descriptor_loses_answers:
  assumes "engine_run H W" "px_conns W c = Some C" "mc_client C"
    and "p \<in> cells_of (px_ext W)" "in_fd (px_ext W) p = fst c" "in_gen (px_ext W) p \<noteq> snd c"
    and "d = (out_fd (px_ext W) p, out_gen (px_ext W) p)" "px_conns W d = Some D" "mc_open D" "mc_target D"
    and "do_rpcs_execute c msg fl W = Some V" "tot_forwarded_queries V \<noteq> tot_forwarded_queries W"
  shows "\<exists>req L. px_log V = L @ [Send (fst d) (snd d) req] \<and> take 8 (drop 8 req) = bytes64 (out_conn_id (px_ext W) p)
    \<and> (\<forall>f data. length f = 4 \<longrightarrow> (\<exists>V'. process_client_packet d (bytes_le RPC_PROXY_ANS @ f @ take 8 (drop 8 req) @ data) RPC_PROXY_ANS V = Some (1, V')
         \<and> px_log V' = px_log V @ [notify_remote_closed d (out_conn_id (px_ext W) p)]))"
proof (rule query_cases[OF run_ok[OF assms(1)] assms(2,3), of msg fl])
  fix p' d' es and W' :: proxy
  let ?req = "proxy_request W C (query_flags W C (if le64 msg = 0 then 2 OR fl else fl)) (out_conn_id (px_ext W') p') None None msg"
  note ok = run_ok[OF assms(1)]
  assume q: "do_rpcs_execute c msg fl W = Some W'" "engine_ok W'" "px_log W' = px_log W @ es @ [Send (fst d') (snd d') ?req]"
    "p' \<in> cells_of (px_ext W')" "in_fd (px_ext W') p' = fst c" "d' = (out_fd (px_ext W') p', out_gen (px_ext W') p')"
    "shrinks W W' \<or> opens c p' d' W W' \<and> no_route c W" "px_conns W' = px_conns W"
  have V: "W' = V" using q(1) assms(11) by simp
  have "\<not> no_route c W" using assms(4,5,7-10) unfolding no_route_def alive_def by auto
  then have s: "shrinks W W'" using q(7) by blast
  have r: "p' \<in> cells_of (px_ext W)" "in_fd (px_ext W') p' = in_fd (px_ext W) p'" "in_gen (px_ext W') p' = in_gen (px_ext W) p'"
    "out_fd (px_ext W') p' = out_fd (px_ext W) p'" "out_gen (px_ext W') p' = out_gen (px_ext W) p'" "out_conn_id (px_ext W') p' = out_conn_id (px_ext W) p'"
    using s q(4) unfolding shrinks_def same_route_def by blast+
  have p': "p' = p" by (rule ext_ok_same_client[OF engine_ext_ok[OF ok] r(1) assms(4)]) (use r(2) q(5) assms(5) in simp)
  have d': "d' = d" unfolding q(6) assms(7) using r(4,5) p' by simp
  have gone: "px_conns W (fst c, in_gen (px_ext W) p) = None"
  proof (rule ccontr)
    assume there: "px_conns W (fst c, in_gen (px_ext W) p) \<noteq> None"
    have "conns_ok W" using ok by (simp add: engine_ok_def)
    then have "(fst c, in_gen (px_ext W) p) = c" using there assms(2) unfolding conns_ok_def by (metis fst_conv option.distinct(1))
    then have "in_gen (px_ext W) p = snd c" by (metis snd_conv)
    then show False using assms(6) by simp
  qed
  have dead: "\<not> alive W' (in_fd (px_ext W') p) (in_gen (px_ext W') p)"
    unfolding alive_def q(8) r(2,3)[unfolded p'] assms(5) gone by simp
  define req where "req = ?req"
  have log: "px_log W' = (px_log W @ es) @ [Send (fst d) (snd d) req]" unfolding q(3) req_def d' by simp
  have oid: "out_conn_id (px_ext W') p = out_conn_id (px_ext W) p" using r(6) p' by simp
  have number: "take 8 (drop 8 req) = bytes64 (out_conn_id (px_ext W) p)" unfolding req_def p' oid by (rule proxy_request_number)
  have "\<exists>V'. process_client_packet d (bytes_le RPC_PROXY_ANS @ f @ take 8 (drop 8 req) @ data) RPC_PROXY_ANS W' = Some (1, V')
      \<and> px_log V' = px_log W' @ [notify_remote_closed d (out_conn_id (px_ext W) p)]" if f: "length f = 4" for f data
    using answer_is_dropped[OF q(2) q(4)[unfolded p'] oid dead f] unfolding number .
  with log number show ?thesis unfolding V[symmetric] by blast
qed (use assms(11,12) in simp)

section \<open>Witnesses\<close>

text \<open>A witness: the first event of the example.\<close>

theorem engine_never_aborts_witness:
  "\<exists>W'. engine_event (Middle_Ready (5, 1)) example_proxy = Some W' \<and> engine_ok W'"
proof -
  have "event_ok example_proxy (Middle_Ready (5, 1))" by code_simp
  from engine_never_aborts[OF engine_run.start[OF example_start] this] show ?thesis .
qed

lemma asked_run:
  obtains H W where "engine_run H W" "checked_events example_asked example_proxy = Some (H, W)"
proof -
  have "checked_events example_asked example_proxy \<noteq> None" by code_simp
  then obtain H W where "checked_events example_asked example_proxy = Some (H, W)" by auto
  then show thesis using that run_checked[OF engine_run.start[OF example_start]] by force
qed

definition example_answer :: "byte list" where
  "example_answer = bytes_le RPC_PROXY_ANS @ [0, 0, 0, 0] @ bytes64 4194307 @ [1, 2, 3, 4]"

lemma asked_answered:
  "case checked_events example_asked example_proxy of None \<Rightarrow> False
   | Some (H, W) \<Rightarrow> few_numbers H \<and> event_ok W (Packet (5, 1) example_answer RPC_PROXY_ANS) \<and>
       (case engine_event (Packet (5, 1) example_answer RPC_PROXY_ANS) W of None \<Rightarrow> False
        | Some W' \<Rightarrow> drop (length (px_log W)) (px_log W') = [Send 3 1 [1, 2, 3, 4]])"
  by code_simp

text \<open>A witness: the client of the example gets the answer.\<close>

theorem answers_reach_the_asking_client_witness:
  "\<exists>H W. engine_run H W \<and> ((3, 1), (5, 1), packet_number RPC_PROXY_ANS example_answer) \<in> set H"
proof -
  obtain H W where r: "engine_run H W" "checked_events example_asked example_proxy = Some (H, W)" by (rule asked_run)
  obtain W' where w: "few_numbers H" "event_ok W (Packet (5, 1) example_answer RPC_PROXY_ANS)"
    "engine_event (Packet (5, 1) example_answer RPC_PROXY_ANS) W = Some W'" "drop (length (px_log W)) (px_log W') = [Send 3 1 [1, 2, 3, 4]]"
    using asked_answered unfolding r(2) by (auto split: option.splits simp del: engine_event.simps event_ok.simps)
  from answers_reach_the_asking_client[OF r(1) w(1-3), of "Send 3 1 [1, 2, 3, 4]" "(3, 1)"] w(4) r(1) show ?thesis by auto
qed

lemma asked_cell:
  "case checked_events example_asked example_proxy of None \<Rightarrow> False
   | Some (H, W) \<Rightarrow> event_ok W (Middle_Close (5, 1)) \<and> cells (px_ext W) = [0] \<and> in_fd (px_ext W) (Ext_Cell 0) = 3
       \<and> in_gen (px_ext W) (Ext_Cell 0) = 1 \<and> out_fd (px_ext W) (Ext_Cell 0) = 5 \<and> out_gen (px_ext W) (Ext_Cell 0) = 1 \<and> alive W 3 1"
  by code_simp

text \<open>A witness: the middle-end connection of the example closes, and its client is closed.\<close>

theorem middle_close_closes_its_clients_witness:
  "\<exists>H W W'. engine_run H W \<and> engine_event (Middle_Close (5, 1)) W = Some W' \<and> Fail 3 1 (-33) \<in> set (px_log W') \<and> cells_of (px_ext W') = {}"
proof -
  obtain H W where r: "engine_run H W" "checked_events example_asked example_proxy = Some (H, W)" by (rule asked_run)
  have w: "event_ok W (Middle_Close (5, 1))" "cells_of (px_ext W) = {Ext_Cell 0}" "in_fd (px_ext W) (Ext_Cell 0) = 3"
    "in_gen (px_ext W) (Ext_Cell 0) = 1" "out_fd (px_ext W) (Ext_Cell 0) = 5" "out_gen (px_ext W) (Ext_Cell 0) = 1" "alive W 3 1"
    using asked_cell unfolding r(2) by (auto simp: cells_of_def simp del: event_ok.simps)
  obtain W' es where W': "engine_event (Middle_Close (5, 1)) W = Some W'" "px_log W' = px_log W @ es"
    "cells_of (px_ext W') = {p \<in> cells_of (px_ext W). (out_fd (px_ext W) p, out_gen (px_ext W) p) \<noteq> (5, 1)}"
    "set es = {Fail (in_fd (px_ext W) p) (in_gen (px_ext W) p) (-33) | p. p \<in> cells_of (px_ext W)
       \<and> (out_fd (px_ext W) p, out_gen (px_ext W) p) = (5, 1) \<and> alive W (in_fd (px_ext W) p) (in_gen (px_ext W) p)}"
    using middle_close_closes_its_clients[OF r(1) w(1)] by blast
  have "Fail 3 1 (-33) \<in> set es" unfolding W'(4) w(2) using w(3-7) by auto
  moreover have "cells_of (px_ext W') = {}" unfolding W'(3) w(2) using w(5,6) by auto
  ultimately show ?thesis using r(1) W'(1,2) by (intro exI[of _ H] exI[of _ W] exI[of _ W']) simp
qed

lemma ready_query:
  "case checked_events [Middle_Ready (5, 1)] example_proxy of None \<Rightarrow> False
   | Some (H, W) \<Rightarrow> cells (px_ext W) = [] \<and> px_conns W (3, 1) = Some (example_conn True) \<and>
       (case do_rpcs_execute (3, 1) example_query 0 W of None \<Rightarrow> False
        | Some V \<Rightarrow> tot_forwarded_queries V \<noteq> tot_forwarded_queries W)"
  by code_simp

text \<open>A witness: the query of the example and its answer.\<close>

theorem query_is_answered_witness:
  "\<exists>H W d req V V'. engine_run H W \<and> do_rpcs_execute (3, 1) example_query 0 W = Some V \<and>
     process_client_packet d (bytes_le RPC_PROXY_ANS @ [0, 0, 0, 0] @ take 8 (drop 8 req) @ [7, 7, 7, 7]) RPC_PROXY_ANS V = Some (1, V') \<and>
     px_log V' = px_log V @ [Send 3 1 [7, 7, 7, 7]]"
proof -
  obtain H W V where r: "checked_events [Middle_Ready (5, 1)] example_proxy = Some (H, W)"
    and c: "cells (px_ext W) = []" "px_conns W (3, 1) = Some (example_conn True)"
    and V: "do_rpcs_execute (3, 1) example_query 0 W = Some V" "tot_forwarded_queries V \<noteq> tot_forwarded_queries W"
    using ready_query by (auto split: option.splits simp del: checked_events.simps)
  have run: "engine_run ([] @ H) W" by (rule run_checked[OF engine_run.start[OF example_start] r])
  have C: "mc_client (example_conn True)" "mc_open (example_conn True)" "mc_used (example_conn True) \<le> MAX_CONNECTION_BUFFER_SPACE"
    by (simp_all add: example_conn_def MAX_CONNECTION_BUFFER_SPACE_def)
  have n: "\<forall>p \<in> cells_of (px_ext W). in_fd (px_ext W) p = fst (3, 1) \<longrightarrow> in_gen (px_ext W) p = snd (3, 1)" by (simp add: cells_of_def c(1))
  obtain d req where dr: "\<forall>f data. length f = 4 \<and> length data mod 4 = 0 \<longrightarrow> (\<exists>V'. process_client_packet d (bytes_le RPC_PROXY_ANS @ f @ take 8 (drop 8 req) @ data) RPC_PROXY_ANS V = Some (1, V')
      \<and> px_log V' = px_log V @ [Send 3 1 data])"
    using query_is_answered[OF run c(2) C n V, unfolded fst_conv snd_conv] by blast
  from dr[rule_format, of "[0, 0, 0, 0]" "[7, 7, 7, 7]"] obtain V' where
    "process_client_packet d (bytes_le RPC_PROXY_ANS @ [0, 0, 0, 0] @ take 8 (drop 8 req) @ [7, 7, 7, 7]) RPC_PROXY_ANS V = Some (1, V')"
    "px_log V' = px_log V @ [Send 3 1 [7, 7, 7, 7]]" by auto
  then show ?thesis using run V(1) by blast
qed

text \<open>The descriptor of a client is used by another client: one of the things that happen between events.\<close>

definition replace_client :: "conn_ref \<Rightarrow> conn_ref \<Rightarrow> mt_conn \<Rightarrow> proxy \<Rightarrow> proxy" where
  "replace_client c c' C W = W\<lparr>px_conns := (px_conns W)(c := None, c' := Some C)\<rparr>"

lemma replace_client_step:
  assumes ok: "engine_ok W" and c: "is_client W c" and c': "fst c' = fst c" "c' \<noteq> c" "mc_client C"
  shows "network_step W (replace_client c c' C W)"
proof -
  let ?W = "replace_client c c' C W"
  have cok: "conns_ok W" using ok by (simp add: engine_ok_def)
  have there: "px_conns W c \<noteq> None" using c by (auto simp: is_client_def split: option.splits)
  have only: "x = c" if "px_conns W x \<noteq> None" "fst x = fst c" for x using cok that there unfolding conns_ok_def by blast
  have new: "px_conns ?W x = (if x = c' then Some C else if x = c then None else px_conns W x)" for x
    by (simp add: replace_client_def)
  have old: "px_conns W c' = None" using only[of c'] c'(1,2) by blast
  have nm: "\<not> is_middle W c" using c by (auto simp: is_client_def is_middle_def split: option.splits)
  have mid: "is_middle ?W x \<longleftrightarrow> is_middle W x" for x
    using nm old c'(3) unfolding is_middle_def new by (cases "x = c'"; cases "x = c"; simp)
  have tag: "tagged ?W x \<longleftrightarrow> tagged W x" for x
    using nm old c'(3) unfolding tagged_def is_middle_def new by (cases "x = c'"; cases "x = c") auto
  have "conns_ok ?W"
    unfolding conns_ok_def
  proof (intro conjI allI impI)
    have r: "0 < fst x \<and> fst x < MAX_CONNECTIONS" if "px_conns ?W x \<noteq> None" for x
    proof (cases "x = c'")
      case True
      then show ?thesis using cok there c'(1) unfolding conns_ok_def by metis
    next
      case False
      then have "px_conns W x \<noteq> None" using that new[of x] by (auto split: if_splits)
      then show ?thesis using cok unfolding conns_ok_def by blast
    qed
    show "0 < fst x" "fst x < MAX_CONNECTIONS" if "px_conns ?W x \<noteq> None" for x using r[OF that] by simp_all
    show "x = y" if h: "px_conns ?W x \<noteq> None \<and> px_conns ?W y \<noteq> None \<and> fst x = fst y" for x y
    proof -
      have e: "z = c' \<or> (px_conns W z \<noteq> None \<and> z \<noteq> c)" if "px_conns ?W z \<noteq> None" for z using that new[of z] by (auto split: if_splits)
      consider "x = c'" "y = c'" | "x = c'" "px_conns W y \<noteq> None" "y \<noteq> c" | "y = c'" "px_conns W x \<noteq> None" "x \<noteq> c"
        | "px_conns W x \<noteq> None" "px_conns W y \<noteq> None" using e h by blast
      then show ?thesis
      proof cases
        case 4
        then show ?thesis using cok h unfolding conns_ok_def by blast
      qed (use only c'(1) h in auto)
    qed
    show "mc_tag D \<in> {0, get_conn_tag x}" if "px_conns ?W x = Some D \<and> \<not> mc_client D" for x D
    proof -
      have "px_conns W x = Some D" using that new[of x] c'(3) by (auto split: if_splits)
      then show ?thesis using cok that unfolding conns_ok_def by blast
    qed
    show "is_middle ?W x" if "x \<in> set (px_pool ?W t)" for t x
    proof -
      have "x \<in> set (px_pool W t)" using that by (simp add: replace_client_def)
      then show ?thesis unfolding mid using cok unfolding conns_ok_def by blast
    qed
  qed
  moreover have "config_good (px_config ?W)" using ok by (simp add: engine_ok_def replace_client_def)
  ultimately show ?thesis unfolding network_step_def using tag by (simp add: replace_client_def)
qed

definition example_reused :: "engine_job list" where
  "example_reused = example_asked @ [Client_Close (3, 1), Query (3, 1) example_query 0]"

lemma reused_state:
  "case checked_events example_reused example_proxy of None \<Rightarrow> False
   | Some (H, W3) \<Rightarrow> let W = replace_client (3, 1) (3, 2) (example_conn True) W3 in is_client W3 (3, 1) \<and>
       cells (px_ext W) = [0] \<and> in_fd (px_ext W) (Ext_Cell 0) = 3 \<and> in_gen (px_ext W) (Ext_Cell 0) = 1
       \<and> out_fd (px_ext W) (Ext_Cell 0) = 5 \<and> out_gen (px_ext W) (Ext_Cell 0) = 1 \<and> alive W 5 1
       \<and> (case px_conns W (5, 1) of None \<Rightarrow> False | Some D \<Rightarrow> mc_open D \<and> mc_target D)
       \<and> (case do_rpcs_execute (3, 2) example_query 0 W of None \<Rightarrow> False
        | Some V \<Rightarrow> tot_forwarded_queries V \<noteq> tot_forwarded_queries W)"
  by code_simp

text \<open>A witness: a query that is handled after the client was closed, and a new client on the same descriptor.\<close>

theorem reused_descriptor_loses_answers_witness:
  "\<exists>H W V req V'. engine_run H W \<and> is_client W (3, 2) \<and> alive W 3 2 \<and> do_rpcs_execute (3, 2) example_query 0 W = Some V \<and>
     Send 5 1 req \<in> set (px_log V) \<and>
     process_client_packet (5, 1) (bytes_le RPC_PROXY_ANS @ [0, 0, 0, 0] @ take 8 (drop 8 req) @ [7, 7, 7, 7]) RPC_PROXY_ANS V = Some (1, V') \<and>
     px_log V' = px_log V @ [notify_remote_closed (5, 1) (out_conn_id (px_ext W) (Ext_Cell 0))]"
proof -
  obtain H W3 where r: "checked_events example_reused example_proxy = Some (H, W3)" using reused_state by (auto split: option.splits)
  define W where "W = replace_client (3, 1) (3, 2) (example_conn True) W3"
  have s: "is_client W3 (3, 1)" "cells (px_ext W) = [0]" "in_fd (px_ext W) (Ext_Cell 0) = 3" "in_gen (px_ext W) (Ext_Cell 0) = 1"
    "out_fd (px_ext W) (Ext_Cell 0) = 5" "out_gen (px_ext W) (Ext_Cell 0) = 1"
    "case px_conns W (5, 1) of None \<Rightarrow> False | Some D \<Rightarrow> mc_open D \<and> mc_target D"
    "case do_rpcs_execute (3, 2) example_query 0 W of None \<Rightarrow> False | Some V \<Rightarrow> tot_forwarded_queries V \<noteq> tot_forwarded_queries W"
    using reused_state unfolding r W_def by (simp_all add: Let_def)
  obtain D where D: "px_conns W (5, 1) = Some D" "mc_open D" "mc_target D" using s(7) by (auto split: option.splits)
  obtain V where V: "do_rpcs_execute (3, 2) example_query 0 W = Some V" "tot_forwarded_queries V \<noteq> tot_forwarded_queries W"
    using s(8) by (auto split: option.splits)
  have run3: "engine_run ([] @ H) W3" by (rule run_checked[OF engine_run.start[OF example_start] r])
  have run: "engine_run ([] @ H) W"
    unfolding W_def by (rule engine_run.network[OF run3 replace_client_step[OF run_ok[OF run3] s(1)]]) (simp_all add: example_conn_def)
  have C: "px_conns W (3, 2) = Some (example_conn True)" "mc_client (example_conn True)" "mc_open (example_conn True)"
    by (simp_all add: W_def replace_client_def example_conn_def)
  have p: "Ext_Cell 0 \<in> cells_of (px_ext W)" "in_fd (px_ext W) (Ext_Cell 0) = fst (3, 2 :: int)" "in_gen (px_ext W) (Ext_Cell 0) \<noteq> snd (3 :: int, 2)"
    "(5, 1) = (out_fd (px_ext W) (Ext_Cell 0), out_gen (px_ext W) (Ext_Cell 0))"
    using s(2-6) by (simp_all add: cells_of_def)
  obtain req L where q: "px_log V = L @ [Send 5 1 req]"
    "\<forall>f data. length f = 4 \<longrightarrow> (\<exists>V'. process_client_packet (5, 1) (bytes_le RPC_PROXY_ANS @ f @ take 8 (drop 8 req) @ data) RPC_PROXY_ANS V = Some (1, V')
      \<and> px_log V' = px_log V @ [notify_remote_closed (5, 1) (out_conn_id (px_ext W) (Ext_Cell 0))])"
    using reused_descriptor_loses_answers[OF run C(1,2) p D V, unfolded fst_conv snd_conv] by blast
  from q(2)[rule_format, of "[0, 0, 0, 0]" "[7, 7, 7, 7]"] obtain V' where
    "process_client_packet (5, 1) (bytes_le RPC_PROXY_ANS @ [0, 0, 0, 0] @ take 8 (drop 8 req) @ [7, 7, 7, 7]) RPC_PROXY_ANS V = Some (1, V')"
    "px_log V' = px_log V @ [notify_remote_closed (5, 1) (out_conn_id (px_ext W) (Ext_Cell 0))]" by auto
  moreover have "Send 5 1 req \<in> set (px_log V)" using q(1) by simp
  moreover have "is_client W (3, 2)" "alive W 3 2" using C by (simp_all add: is_client_def alive_def)
  ultimately show ?thesis using run V(1) by blast
qed

end
