(* ===== verification/Ext_Refinement.thy ===== *)
theory Ext_Refinement
  imports Proxy_Handlers
begin

text \<open>
  What the external connections are for the engine: a map from the descriptor of a client to its generation, the
  middle-end connection that serves it and the number under which it does.  The four linked structures of
  the table implement this map.
\<close>

definition ext_map :: "ext_table \<Rightarrow> int \<Rightarrow> (int \<times> (int \<times> int) \<times> u64) option" where
  "ext_map T fd = map_option (\<lambda>p. (in_gen T p, (out_fd T p, out_gen T p), out_conn_id T p)) (out_ref T fd)"

lemma out_ref_iff: "ext_ok T \<Longrightarrow> out_ref T fd = Some p \<longleftrightarrow> p \<in> cells_of T \<and> in_fd T p = fd"
  unfolding ext_ok_def slots_ok_def by blast

lemma ext_map_Some:
  "ext_ok T \<Longrightarrow> ext_map T fd = Some (g, d, oid) \<longleftrightarrow>
     (\<exists>p \<in> cells_of T. in_fd T p = fd \<and> in_gen T p = g \<and> (out_fd T p, out_gen T p) = d \<and> out_conn_id T p = oid)"
  unfolding ext_map_def using out_ref_iff[of T fd] by auto

lemma ext_map_None: "ext_ok T \<Longrightarrow> ext_map T fd = None \<longleftrightarrow> (\<forall>p \<in> cells_of T. in_fd T p \<noteq> fd)"
  unfolding ext_map_def using out_ref_iff[of T fd] by (cases "out_ref T fd") auto

lemma option_eqI: "(\<And>x. a = Some x \<longleftrightarrow> b = Some x) \<Longrightarrow> a = b"
  by (cases a; cases b) auto

lemma same_info_at:
  assumes "same_info (- {p}) T T'" "q \<noteq> p"
  shows "in_fd T' q = in_fd T q" "in_gen T' q = in_gen T q" "out_fd T' q = out_fd T q" "out_gen T' q = out_gen T q"
    "out_conn_id T' q = out_conn_id T q"
  using assms unfolding same_info_def by auto

lemma create_map:
  assumes ok: "ext_ok T" and none: "ext_map T (fst c) = None" and c: "0 < fst c" "valid_fd (fst c)"
    and d: "0 < fst d" "valid_fd (fst d)" "o_next T (Conn_Head (fst d)) \<noteq> None" and ne: "d \<noteq> c"
  shows "\<exists>p T'. create_ext_connection c 0 (Some d) key T = Some (p, T') \<and> ext_ok T'
    \<and> ext_map T' = (ext_map T)(fst c \<mapsto> (snd c, d, next_conn_id (out_id T (fst c)) (fst c)))"
proof -
  obtain p T' where T': "create_ext_connection c 0 (Some d) key T = Some (p, T')" "ext_ok T'" "p \<notin> cells_of T"
    "cells_of T' = insert p (cells_of T)" "same_info (- {p}) T T'" "in_fd T' p = fst c" "in_gen T' p = snd c"
    "out_fd T' p = fst d" "out_gen T' p = snd d" "out_conn_id T' p = next_conn_id (out_id T (fst c)) (fst c)"
    by (rule create_ext[OF ok none[unfolded ext_map_None[OF ok]] c d ne, of key]) (rule that)
  have "ext_map T' k = ((ext_map T)(fst c \<mapsto> (snd c, d, next_conn_id (out_id T (fst c)) (fst c)))) k" for k
  proof (cases "k = fst c")
    case True
    have "out_ref T' k = Some p" using T'(4,6) True out_ref_iff[OF T'(2)] by simp
    then show ?thesis using True T'(7-10) by (simp add: ext_map_def)
  next
    case False
    have "out_ref T' k = out_ref T k"
    proof (rule option_eqI)
      fix q
      show "out_ref T' k = Some q \<longleftrightarrow> out_ref T k = Some q"
        unfolding out_ref_iff[OF T'(2)] out_ref_iff[OF ok]
        by (cases "q = p") (use False T'(3,4,6) same_info_at(1)[OF T'(5)] in auto)
    qed
    moreover have "q \<noteq> p" if "out_ref T k = Some q" for q using that out_ref_iff[OF ok] T'(3) by auto
    ultimately show ?thesis using False same_info_at[OF T'(5)] by (cases "out_ref T k") (simp_all add: ext_map_def)
  qed
  then show ?thesis using T'(1,2) by blast
qed

lemma remove_map:
  assumes ok: "ext_ok T" and p: "p \<in> cells_of T"
  shows "\<exists>es T'. remove_ext_connection al p fl T = Some (es, T') \<and> ext_ok T' \<and> ext_map T' = (ext_map T)(in_fd T p := None)"
proof -
  obtain T' where T': "remove_ext_connection al p fl T = Some (removal_effects al p fl T, T')" "ext_ok T'"
    "cells_of T' = cells_of T - {p}" "same_info (- {p}) T T'"
    by (rule remove_ext[OF ok p]) (rule that)
  have "ext_map T' k = ((ext_map T)(in_fd T p := None)) k" for k
  proof (cases "k = in_fd T p")
    case True
    have "in_fd T' q \<noteq> k" if q: "q \<in> cells_of T'" for q
    proof -
      have q': "q \<in> cells_of T" "q \<noteq> p" using q T'(3) by auto
      then show ?thesis using ext_ok_same_client[OF ok q'(1) p] same_info_at(1)[OF T'(4) q'(2)] True by auto
    qed
    then show ?thesis using True ext_map_None[OF T'(2)] by simp
  next
    case False
    have "out_ref T' k = out_ref T k"
      by (rule option_eqI) (use False T'(3) same_info_at(1)[OF T'(4)] out_ref_iff[OF T'(2)] out_ref_iff[OF ok] in auto)
    moreover have "q \<noteq> p" if "out_ref T k = Some q" for q using that False out_ref_iff[OF ok] by auto
    ultimately show ?thesis using False same_info_at[OF T'(4)] by (cases "out_ref T k") (simp_all add: ext_map_def)
  qed
  then show ?thesis using T'(1,2) by blast
qed

lemma look_up_map:
  assumes ok: "ext_ok T" and fd: "valid_fd fd"
  shows "\<exists>r. get_ext_connection_by_in_fd fd T = Some r
    \<and> ext_map T fd = map_option (\<lambda>p. (in_gen T p, (out_fd T p, out_gen T p), out_conn_id T p)) r"
  using get_by_in_fd[OF ok fd] ext_map_None[OF ok, of fd] by (auto simp: ext_map_def)

lemma look_up_number:
  assumes ok: "ext_ok T"
  shows "\<exists>r. find_ext_connection_by_out_conn_id oid T = Some r \<and> (r = None \<longleftrightarrow> (\<forall>fd g d. ext_map T fd \<noteq> Some (g, d, oid)))
    \<and> (\<forall>p. r = Some p \<longrightarrow> ext_map T (in_fd T p) = Some (in_gen T p, (out_fd T p, out_gen T p), oid))"
proof -
  obtain r where r: "find_ext_connection_by_out_conn_id oid T = Some r" using find_by_out_conn_id[OF ok] by blast
  have iff: "r = Some p \<longleftrightarrow> p \<in> cells_of T \<and> out_conn_id T p = oid" for p using find_by_out_conn_id_iff[OF ok, of oid p] r by simp
  have there: "ext_map T (in_fd T p) = Some (in_gen T p, (out_fd T p, out_gen T p), oid)" if "r = Some p" for p
    using iff that unfolding ext_map_Some[OF ok] by blast
  have "ext_map T fd \<noteq> Some (g, d, oid)" if "r = None" for fd g d
  proof
    assume "ext_map T fd = Some (g, d, oid)"
    then obtain p where "p \<in> cells_of T" "out_conn_id T p = oid" unfolding ext_map_Some[OF ok] by blast
    then show False using iff[of p] that by simp
  qed
  then have "r = None \<longleftrightarrow> (\<forall>fd g d. ext_map T fd \<noteq> Some (g, d, oid))"
  proof (cases r)
    case (Some p)
    then have "\<not> (\<forall>fd g d. ext_map T fd \<noteq> Some (g, d, oid))" using there[OF Some] by blast
    then show ?thesis using Some by simp
  qed simp
  then show ?thesis using r there by blast
qed

text \<open>
  C14. The table of external connections implements a map.  Looking up a descriptor and looking up a number find what
  the map has; creating adds one entry with the next number of its slot; removing takes one entry out; in
  no case does an assertion fail, and the invariant of the hash chains, the rings and the array of numbers is kept.
\<close>

theorem ext_table_refines_map:
  assumes ok: "ext_ok T"
  shows "(\<forall>fd. valid_fd fd \<longrightarrow> (\<exists>r. get_ext_connection_by_in_fd fd T = Some r
        \<and> ext_map T fd = map_option (\<lambda>p. (in_gen T p, (out_fd T p, out_gen T p), out_conn_id T p)) r))
    \<and> (\<forall>oid. \<exists>r. find_ext_connection_by_out_conn_id oid T = Some r \<and> (r = None \<longleftrightarrow> (\<forall>fd g d. ext_map T fd \<noteq> Some (g, d, oid)))
        \<and> (\<forall>p. r = Some p \<longrightarrow> ext_map T (in_fd T p) = Some (in_gen T p, (out_fd T p, out_gen T p), oid)))
    \<and> (\<forall>c d key. ext_map T (fst c) = None \<and> 0 < fst c \<and> valid_fd (fst c) \<and> 0 < fst d \<and> valid_fd (fst d)
        \<and> o_next T (Conn_Head (fst d)) \<noteq> None \<and> d \<noteq> c \<longrightarrow>
        (\<exists>p T'. create_ext_connection c 0 (Some d) key T = Some (p, T') \<and> ext_ok T'
           \<and> ext_map T' = (ext_map T)(fst c \<mapsto> (snd c, d, next_conn_id (out_id T (fst c)) (fst c)))))
    \<and> (\<forall>p al fl. p \<in> cells_of T \<longrightarrow> (\<exists>es T'. remove_ext_connection al p fl T = Some (es, T') \<and> ext_ok T'
           \<and> ext_map T' = (ext_map T)(in_fd T p := None)))"
  using look_up_map[OF ok] look_up_number[OF ok] create_map[OF ok] remove_map[OF ok] by blast

text \<open>A witness: a table with the rings of one middle-end connection and without clients gets one.\<close>

theorem ext_table_refines_map_witness:
  "let T = set_head 5 (Some (Conn_Head 5)) 5 (empty_ext_table (\<lambda>_. 0)) in ext_ok T \<and>
   (\<exists>p T'. create_ext_connection (3, 1) 0 (Some (5, 7)) 0 T = Some (p, T') \<and> ext_ok T' \<and> ext_map T' 3 = Some (1, (5, 7), 4194307))"
proof -
  let ?T = "set_head 5 (Some (Conn_Head 5)) 5 (empty_ext_table (\<lambda>_. 0))"
  have ok: "ext_ok ?T" by (rule set_head_ok(1)[OF empty_ext_ok]) (simp_all add: server_members_def cells_of_def empty_ext_table_def)
  have n: "next_conn_id (out_id ?T 3) 3 = 4194307" by code_simp
  have o: "o_next ?T (Conn_Head 5) \<noteq> None" by (simp add: set_head_def)
  have m: "ext_map ?T 3 = None" by (simp add: ext_map_def set_head_def empty_ext_table_def)
  have v: "valid_fd 3" "valid_fd 5" by (simp_all add: valid_fd_def MAX_CONNECTIONS_def)
  from ext_table_refines_map[OF ok, THEN conjunct2, THEN conjunct2, THEN conjunct1, rule_format, of "(3, 1)" "(5, 7)" 0] o m v
  obtain p T' where "create_ext_connection (3, 1) 0 (Some (5, 7)) 0 ?T = Some (p, T')" "ext_ok T'"
    "ext_map T' = (ext_map ?T)(3 \<mapsto> (1, (5, 7), next_conn_id (out_id ?T 3) 3))"
    by auto
  then show ?thesis using ok n by (simp add: Let_def)
qed

end
