(* ===== verification/DH_Rounds.thy ===== *)
theory DH_Rounds
  imports RPC_Server
begin

text \<open>
  The three rounds of Diffie-Hellman (\<open>net/net-crypto-dh.c\<close>).  \<open>mod_exp base power\<close> stands for \<open>BN_mod_exp\<close>
  with the prime of the code, on numbers as \<open>BN_bin2bn\<close> and \<open>BN_bn2bin\<close> read and write them: bytes with the
  most significant first, and none that is zero in front.
\<close>

section \<open>The code\<close>

type_synonym mod_exp = "byte list \<Rightarrow> byte list \<Rightarrow> byte list"

definition RPC_DH_GEN :: "byte list" where
  "RPC_DH_GEN = [3]"

definition RPC_PARAM_HASH :: u32 where
  "RPC_PARAM_HASH = 0x00620b93"

text \<open>\<open>sha1_word\<close> is the first word of the SHA-1 of generator and prime; \<open>None\<close> is the failed assertion.\<close>

definition init_dh_params :: "u32 \<Rightarrow> u32 \<Rightarrow> (int \<times> u32) option" where
  "init_dh_params sha1_word dh_params_select =
     (if dh_params_select \<noteq> 0 then Some (0, dh_params_select)
      else if sha1_word \<noteq> RPC_PARAM_HASH then None
      else Some (1, sha1_word))"

text \<open>A number in 256 bytes; \<open>None\<close> is the failed assertion on its length.\<close>

definition in_256_bytes :: "byte list \<Rightarrow> byte list option" where
  "in_256_bytes v = (if 240 < length v \<and> length v \<le> 256 then Some (replicate (256 - length v) 0 @ v) else None)"

text \<open>\<open>create_g_a\<close>: \<open>rands\<close> are the results of \<open>RAND_bytes\<close>, of which it takes as many as it needs.  The result is \<open>g_a\<close> and \<open>a\<close>.\<close>

fun create_g_a :: "mod_exp \<Rightarrow> byte list \<Rightarrow> byte list list \<Rightarrow> (byte list \<times> byte list) option" where
  "create_g_a mod_exp prime [] = None"
| "create_g_a mod_exp prime (a # rands) =
     (case in_256_bytes (mod_exp RPC_DH_GEN a) of
        None \<Rightarrow> None
      | Some g_a \<Rightarrow> if is_good_rpc_dh_bin prime g_a then Some (g_a, a) else create_g_a mod_exp prime rands)"

text \<open>\<open>struct crypto_temp_dh_params\<close>.\<close>

record dh_params =
  dp_select :: u32
  dp_a :: "byte list"

definition dh_first_round :: "mod_exp \<Rightarrow> byte list \<Rightarrow> byte list list \<Rightarrow> u32 \<Rightarrow> (byte list \<times> dh_params) option" where
  "dh_first_round mod_exp prime rands dh_params_select =
     map_option (\<lambda>(g_a, a). (g_a, \<lparr>dp_select = dh_params_select, dp_a = a\<rparr>)) (create_g_a mod_exp prime rands)"

definition dh_inner_round :: "mod_exp \<Rightarrow> byte list \<Rightarrow> byte list \<Rightarrow> byte list option" where
  "dh_inner_round mod_exp g_b a = in_256_bytes (mod_exp g_b a)"

text \<open>The shared value, the own one, and the length that is returned.\<close>

definition second_round :: "mod_exp \<Rightarrow> byte list \<Rightarrow> byte list list \<Rightarrow> byte list \<Rightarrow> (byte list \<times> byte list \<times> nat) option" where
  "second_round mod_exp prime rands g_b =
     (if \<not> is_good_rpc_dh_bin prime g_b then Some ([], [], 0)
      else do {
        (g_a, a) \<leftarrow> create_g_a mod_exp prime rands;
        g_ab \<leftarrow> dh_inner_round mod_exp g_b a;
        Some (g_ab, g_a, 256)
      })"

definition dh_third_round :: "mod_exp \<Rightarrow> byte list \<Rightarrow> byte list \<Rightarrow> dh_params \<Rightarrow> (byte list \<times> nat) option" where
  "dh_third_round mod_exp prime g_b dh =
     (if \<not> is_good_rpc_dh_bin prime g_b then Some ([], 0)
      else map_option (\<lambda>g_ab. (g_ab, 256)) (dh_inner_round mod_exp g_b (dp_a dh)))"

section \<open>The laws of modular powers\<close>

text \<open>The order of two powers does not matter, and zeros in front of a number do not either.\<close>

locale modular_powers =
  fixes power :: mod_exp
  assumes swap: "power (power g a) b = power (power g b) a"
    and zeros: "power (replicate k 0 @ g) a = power g a"
begin

lemma padded: "in_256_bytes v = Some w \<Longrightarrow> power w a = power v a"
  by (auto simp: in_256_bytes_def zeros split: if_splits)

lemma rounds_agree:
  assumes "create_g_a power prime rands1 = Some (g_a, a)" "create_g_a power prime rands2 = Some (g_b, b)"
  shows "dh_inner_round power g_b a = dh_inner_round power g_a b"
proof -
  have own: "in_256_bytes (power RPC_DH_GEN x) = Some g" if "create_g_a power prime rands = Some (g, x)" for rands g x
    using that by (induction rands) (auto split: option.splits if_splits)
  have "power g_b a = power (power RPC_DH_GEN b) a" by (rule padded[OF own[OF assms(2)]])
  also have "\<dots> = power (power RPC_DH_GEN a) b" by (rule swap)
  also have "\<dots> = power g_a b" by (rule padded[OF own[OF assms(1)], symmetric])
  finally show ?thesis by (simp add: dh_inner_round_def)
qed

text \<open>When the server has answered the client's value, the client gets the value that the server has.\<close>

lemma shared_value:
  assumes "dh_first_round power prime rands1 sel = Some (g_a, dh)"
    "second_round power prime rands2 g_a = Some (g_ab, g_b, 256)"
  shows "dh_third_round power prime g_b dh = Some (g_ab, 256)"
proof -
  obtain a where a: "create_g_a power prime rands1 = Some (g_a, a)" "dp_a dh = a"
    using assms(1) by (auto simp: dh_first_round_def)
  obtain b where b: "create_g_a power prime rands2 = Some (g_b, b)" "dh_inner_round power g_a b = Some g_ab"
    using assms(2) by (auto simp: second_round_def bind_eq_Some_conv split: if_splits)
  have good: "is_good_rpc_dh_bin prime g" if "create_g_a power prime rands = Some (g, x)" for rands g x
    using that by (induction rands) (auto split: option.splits if_splits)
  show ?thesis using rounds_agree[OF a(1) b(1)] good[OF b(1)] a(2) b(2) by (simp add: dh_third_round_def)
qed

end

section \<open>The arithmetic\<close>

text \<open>Numbers as bytes, and the powers modulo a number.\<close>

definition be_nat :: "byte list \<Rightarrow> nat" where
  "be_nat b = foldl (\<lambda>n d. 256 * n + unat d) 0 b"

fun nat_be :: "nat \<Rightarrow> byte list" where
  "nat_be n = (if n = 0 then [] else nat_be (n div 256) @ [of_nat (n mod 256)])"

declare nat_be.simps [simp del]

definition number_power :: "nat \<Rightarrow> mod_exp" where
  "number_power p g a = nat_be (be_nat g ^ be_nat a mod p)"

lemma be_nat_snoc: "be_nat (b @ [d]) = 256 * be_nat b + unat d"
  by (simp add: be_nat_def)

lemma be_nat_zeros: "be_nat (replicate k 0 @ b) = be_nat b"
  by (induction k) (simp_all add: be_nat_def)

lemma be_nat_be: "be_nat (nat_be n) = n"
proof (induction n rule: nat_be.induct)
  case (1 n)
  have "unat (of_nat (n mod 256) :: byte) = n mod 256" by (simp add: unat_of_nat)
  then show ?case
    using 1 by (subst nat_be.simps) (auto simp: be_nat_snoc be_nat_def[of "[]"])
qed

interpretation powers: modular_powers "number_power p" for p
  by unfold_locales (simp_all add: number_power_def be_nat_be be_nat_zeros power_mod mult.commute flip: power_mult)

end
