(* ===== verification/RPC_Client.thy ===== *)
theory RPC_Client
  imports RPC_Server DH_Rounds
begin

text \<open>
  The inner RPC client (\<open>net/net-tcp-rpc-client.c\<close>): the other end of the connections that
  \<open>RPC_Server\<close> describes.  The proxy is the client of the middle proxies.
\<close>

section \<open>Environment and state\<close>

text \<open>
  \<open>cl_keys\<close> stands for \<open>aes_create_keys\<close> and \<open>aes_crypto_init\<close> with the nonces of server and client, the time
  and the shared value of Diffie-Hellman.
\<close>

record ('w, 'k) clt_env =
  cl_crc :: crc_fun
  cl_now :: int
  cl_precise_now :: rat
  cl_getpid :: int
  cl_secret_len :: nat
  cl_key_signature :: u32
  cl_dh_init :: "u32 \<Rightarrow> (int \<times> u32) option"
  cl_dh_prime :: "byte list"
  cl_mod_exp :: mod_exp
  cl_rands :: "byte list list"
  cl_nonce :: "byte list"
  cl_keys :: "byte list \<Rightarrow> byte list \<Rightarrow> u32 \<Rightarrow> byte list \<Rightarrow> ('k \<times> 'k) option"
  cl_check_perm :: "u32 option"
  cl_default_flags :: u32
  cl_ignore_pid :: bool
  cl_max_packet_len :: int
  cl_has_ready :: bool
  cl_execute :: "u32 \<Rightarrow> byte list \<Rightarrow> ('w, 'k) handler"

text \<open>The fields of a connection that only clients use; \<open>lc_connecting\<close> is the status \<open>conn_connecting\<close>.\<close>

datatype ready_state = Cr_Notyet | Cr_Ok | Cr_Failed

record local_conn =
  lc_crypto_temp :: "dh_params option"
  lc_last_query_sent :: rat
  lc_connecting :: bool
  lc_ready :: ready_state

text \<open>What a step leaves: the process, the two parts of the connection, and a result.\<close>

type_synonym ('w, 'k, 'r) outcome = "('w srv \<times> local_conn \<times> 'k conn \<times> 'r) option"

section \<open>The nonce packet\<close>

definition tcp_rpcc_start_crypto ::
    "('w, 'k) clt_env \<Rightarrow> byte list \<Rightarrow> u32 \<Rightarrow> byte list \<Rightarrow> 'k conn \<Rightarrow> 'k conn \<times> int" where
  "tcp_rpcc_start_crypto env nonce key temp_key c =
     (let d = cn_data c in
      if cn_crypto c \<noteq> None then (c, -1)
      else if cn_in c \<noteq> [] \<or> cn_out c \<noteq> [] \<or> td_nonce_time d = 0 then (c, -1)
      else if key = 0 then (c, -1)
      else case cl_keys env nonce (td_nonce d) (of_int (td_nonce_time d)) temp_key of
             None \<Rightarrow> (c, -1)
           | Some keys \<Rightarrow> (c\<lparr>cn_crypto := Some keys\<rparr>, 1))"

text \<open>
  The second switch of \<open>tcp_rpcc_process_nonce_packet\<close> without the fields it changes: an error code, or the
  key and whether the answer has a value of Diffie-Hellman.
\<close>

definition accept_crypto ::
    "('w, 'k) clt_env \<Rightarrow> u32 \<Rightarrow> bool \<Rightarrow> u32 \<Rightarrow> int \<Rightarrow> byte list \<Rightarrow> (int + u32 \<times> bool) option" where
  "accept_crypto env dh_select has_temp flags nonce_time P =
     (let schema = int_at P 8; key0 = int_at P 4; dh = (schema = 3);
          best = select_best_key_signature (cl_secret_len env) (cl_key_signature env) in
      if dh \<and> (dh_params_of P = 0 \<or> dh_params_of P \<noteq> dh_select) then Some (Inl (-7))
      else if dh \<and> (\<not> has_flag flags RPCF_REQ_DH \<or> \<not> has_temp) then Some (Inl (-7))
      else do {
        key \<leftarrow> (if schema = 2 \<or> schema = 3 then best key0 (extra_keys P) else Some key0);
        known \<leftarrow> best key [];
        Some (if key = 0 \<or> known = 0 then Inl (-3)
              else if \<not> has_flag flags RPCF_ALLOW_ENC then Inl (-5)
              else if c_abs (i32 (sint (int_at P 12) - nonce_time)) > 30 then Inl (-6)
              else if flags AND (RPCF_REQ_DH OR RPCF_ALLOW_SKIP_DH) = RPCF_REQ_DH \<and> \<not> dh then Inl (-7)
              else Inr (key, dh))
      })"

text \<open>The shared value when there is one; the third component is its length, or 256 when none is needed.\<close>

definition third_value :: "('w, 'k) clt_env \<Rightarrow> bool \<Rightarrow> byte list \<Rightarrow> local_conn \<Rightarrow> (byte list \<times> nat) option" where
  "third_value env dh P x =
     (case (dh, lc_crypto_temp x) of
        (True, Some temp) \<Rightarrow> dh_third_round (cl_mod_exp env) (cl_dh_prime env) (g_a_of P) temp
      | (True, None) \<Rightarrow> None
      | (False, _) \<Rightarrow> Some ([], 256))"

definition tcp_rpcc_process_nonce_packet ::
    "('w, 'k) clt_env \<Rightarrow> byte list \<Rightarrow> 'w srv \<Rightarrow> local_conn \<Rightarrow> 'k conn \<Rightarrow> ('w, 'k, int) outcome" where
  "tcp_rpcc_process_nonce_packet env P w x c =
     (let flags = td_crypto_flags (cn_data c) in
      if length P < 4 then None
      else if td_in_packet_num (cn_data c) - 1 \<noteq> -2 \<or> int_at P 0 \<noteq> RPC_NONCE then Some (w, x, c, -2)
      else if length P < 32 \<or> length P > 328 then Some (w, x, c, -3)
      else if \<not> nonce_length_ok P then Some (w, x, c, -3)
      else if int_at P 8 = 0 then
        (if int_at P 4 \<noteq> 0 then Some (w, x, c, -3)
         else if \<not> has_flag flags RPCF_ALLOW_UNENC then Some (w, x, c, -5)
         else if has_flag flags RPCF_ALLOW_ENC \<and> cn_out_p c \<noteq> [] then None
         else Some (w, x, set_data (\<lambda>d. d\<lparr>td_crypto_flags := RPCF_ALLOW_UNENC\<rparr>) c, 0))
      else do {
        (_, sel) \<leftarrow> (if int_at P 8 = 3 then cl_dh_init env (sw_dh_select w) else Some (0, sw_dh_select w));
        let w = w\<lparr>sw_dh_select := sel\<rparr>;
        choice \<leftarrow> accept_crypto env sel (lc_crypto_temp x \<noteq> None) flags (td_nonce_time (cn_data c)) P;
        case choice of
          Inl err \<Rightarrow> Some (w, x, c, err)
        | Inr (key, dh) \<Rightarrow> do {
            (temp_dh, len) \<leftarrow> third_value env dh P x;
            if len \<noteq> 256 then Some (w, x, c, -8)
            else
              let w = (if dh then w\<lparr>sw_active_dh := sw_active_dh w + 1\<rparr> else w);
                  c = (if dh then c\<lparr>cn_is_dh := True\<rparr> else c);
                  (c, res) = tcp_rpcc_start_crypto env (take 16 (drop 16 P)) key temp_dh c
              in Some (w, x\<lparr>lc_crypto_temp := None\<rparr>, c, if res < 0 then -6 else 0)
          }
      })"

section \<open>The handshake packet\<close>

abbreviation client_pid :: "('w, 'k) clt_env \<Rightarrow> 'k conn \<Rightarrow> 'w srv \<Rightarrow> 'w srv" where
  "client_pid env c w \<equiv> w\<lparr>sw_pid := init_client_PID (cl_getpid env) (of_int (cl_now env)) (cn_our_ip c) (sw_pid w)\<rparr>"

definition tcp_rpcc_send_handshake_packet :: "('w, 'k) clt_env \<Rightarrow> 'w srv \<Rightarrow> 'k conn \<Rightarrow> ('w srv \<times> 'k conn \<times> int) option" where
  "tcp_rpcc_send_handshake_packet env w c =
     (let w = (if pid_ip (sw_pid w) = 0 then client_pid env c w else w);
          c = (if pid_port (td_remote_pid (cn_data c)) = 0
               then set_data (\<lambda>d. d\<lparr>td_remote_pid := (td_remote_pid d)\<lparr>pid_ip := (if cn_remote_ip c = 0x7f000001 then 0 else cn_remote_ip c),
                                                                  pid_port := of_int (cn_remote_port c)\<rparr>\<rparr>) c
               else c)
      in map_option (\<lambda>c. (w, c, 0))
           (tcp_rpc_conn_send_data (bytes_le RPC_HANDSHAKE @ bytes_le (cl_default_flags env AND RPCF_USE_CRC32C)
              @ pid_bytes (sw_pid w) @ pid_bytes (td_remote_pid (cn_data c))) c))"

definition tcp_rpcc_send_handshake_error_packet ::
    "('w, 'k) clt_env \<Rightarrow> int \<Rightarrow> 'w srv \<Rightarrow> 'k conn \<Rightarrow> ('w srv \<times> 'k conn) option" where
  "tcp_rpcc_send_handshake_error_packet env error_code w c =
     (let w = (if pid_pid (sw_pid w) = 0 then client_pid env c w else w)
      in map_option (\<lambda>c. (w, c))
           (tcp_rpc_conn_send_data (bytes_le RPC_HANDSHAKE_ERROR @ bytes_le (of_int error_code) @ pid_bytes (sw_pid w)) c))"

definition tcp_rpcc_process_handshake_packet ::
    "('w, 'k) clt_env \<Rightarrow> byte list \<Rightarrow> 'w srv \<Rightarrow> 'k conn \<Rightarrow> ('w srv \<times> 'k conn \<times> int) option" where
  "tcp_rpcc_process_handshake_packet env P w c =
     (let refuse = (\<lambda>code c. map_option (\<lambda>(w, c). (w, c, code)) (tcp_rpcc_send_handshake_error_packet env code w c)) in
      if length P < 4 then None
      else if td_in_packet_num (cn_data c) - 1 \<noteq> -1 \<or> int_at P 0 \<noteq> RPC_HANDSHAKE then Some (w, c, -2)
      else if length P \<noteq> 32 then refuse (-3) c
      else
        let flags = int_at P 4; sender = pid_of_bytes (drop 8 P); peer = pid_of_bytes (drop 20 P); remote = td_remote_pid (cn_data c) in
        if matches_pid sender remote = 0 \<and> \<not> cl_ignore_pid env then refuse (-6) c
        else
          let sender = (if pid_ip sender = 0 then sender\<lparr>pid_ip := pid_ip remote\<rparr> else sender);
              c = set_data (\<lambda>d. d\<lparr>td_remote_pid := sender\<rparr>) c in
          if matches_pid (sw_pid w) peer = 0 then refuse (-4) c
          else if has_flag flags 0xff then refuse (-7) c
          else if has_flag flags RPCF_USE_CRC32C then
            (if \<not> has_flag (cl_default_flags env) RPCF_USE_CRC32C then refuse (-8) c
             else Some (w, set_data (\<lambda>d. d\<lparr>td_crypto_flags := td_crypto_flags d OR RPCF_USE_CRC32C, td_crc32c := True\<rparr>) c, 0))
          else Some (w, c, 0))"

section \<open>Packets\<close>

text \<open>The packets of the handshake; the packet has been counted.\<close>

definition client_own_packet ::
    "('w, 'k) clt_env \<Rightarrow> int \<Rightarrow> byte list \<Rightarrow> 'w srv \<Rightarrow> local_conn \<Rightarrow> 'k conn \<Rightarrow> ('w, 'k, int) outcome" where
  "client_own_packet env num msg w x c =
     (if num = -2 then do {
        (w, x, c, res) \<leftarrow> tcp_rpcc_process_nonce_packet env msg w x c;
        if res < 0 then Some (w, x, c, res)
        else map_option (\<lambda>(w, c, res). (w, x, c, res)) (tcp_rpcc_send_handshake_packet env w c)
      }
      else if num = -1 then do {
        (w, c, res) \<leftarrow> tcp_rpcc_process_handshake_packet env msg w c;
        Some (if res \<ge> 0 \<and> cl_has_ready env then notify Ready w else w, x, c, res)
      }
      else Some (w, x, c, -5))"

definition client_user_packet :: "('w, 'k) clt_env \<Rightarrow> byte list \<Rightarrow> 'w srv \<Rightarrow> 'k conn \<Rightarrow> ('w srv \<times> 'k conn) option" where
  "client_user_packet env msg w c =
     (if int_at msg 0 = RPC_PING
      then map_option (\<lambda>c. (w, c)) (tcp_rpc_default_execute (cl_precise_now env) (int_at msg 0) msg c)
      else map_option (\<lambda>(rest, c, r). (w\<lparr>sw_rest := rest\<rparr>, c)) (cl_execute env (int_at msg 0) msg (sw_rest w) c))"

definition client_whole_packet ::
    "('w, 'k) clt_env \<Rightarrow> nat \<Rightarrow> 'w srv \<Rightarrow> local_conn \<Rightarrow> 'k conn \<Rightarrow> ('w, 'k, step_end) outcome" where
  "client_whole_packet env n w x c =
     (let msg = take n (cn_in c); c = c\<lparr>cn_in := drop n (cn_in c)\<rparr>; body = take (n - 4) msg; crc32 = le32 (drop (n - 4) msg) in
      if crc32 \<noteq> cl_crc env (td_crc32c (cn_data c)) body then Some (w, x, fail_connection (-3) c, Return 0)
      else let num = sint (int_at body 4); msg = drop 8 body in
        if num \<noteq> td_in_packet_num (cn_data c) then Some (w, x, fail_connection (-4) c, Return 0)
        else
          let c = set_data count_in c in
          if num < 0 then do {
            (w, x, c, res) \<leftarrow> client_own_packet env num msg w x c;
            Some (if res < 0 then (w, x, fail_connection res c, Return 0) else (w, x, c, Again))
          }
          else map_option (\<lambda>(w, c). (w, x, c, Again)) (client_user_packet env msg w c))"

text \<open>One turn of the loop in \<open>tcp_rpcc_parse_execute\<close>.\<close>

definition client_parse_step :: "('w, 'k) clt_env \<Rightarrow> 'w srv \<Rightarrow> local_conn \<Rightarrow> 'k conn \<Rightarrow> ('w, 'k, step_end) outcome" where
  "client_parse_step env w x c =
     (let len = int (length (cn_in c)); raw = le32 (cn_in c); n = sint raw in
      if len \<le> 0 then Some (w, x, c, Return 0)
      else if len < 4 then Some (w, x, c, Return (4 - len))
      else if n \<le> 0 \<or> has_flag raw 3 \<or> n > cl_max_packet_len env \<and> cl_max_packet_len env > 0
        then Some (w, x, fail_connection (-1) c, Return 0)
      else if n = 4 then Some (w, x, c\<lparr>cn_in := drop 4 (cn_in c)\<rparr>, Again)
      else if n < 16 then Some (w, x, fail_connection (-2) c, Return 0)
      else if len < n then Some (w, x, c, Return (n - len))
      else client_whole_packet env (nat n) w x c)"

partial_function (option) tcp_rpcc_parse_execute ::
    "('w, 'k) clt_env \<Rightarrow> 'w srv \<Rightarrow> local_conn \<Rightarrow> 'k conn \<Rightarrow> ('w, 'k, int) outcome" where
  "tcp_rpcc_parse_execute env w x c =
     Option.bind (client_parse_step env w x c) (\<lambda>(w, x, c, e).
       case e of Return r \<Rightarrow> Some (w, x, c, r) | Again \<Rightarrow> tcp_rpcc_parse_execute env w x c)"

declare tcp_rpcc_parse_execute.simps [code]

section \<open>Connecting\<close>

definition tcp_rpcc_init_fake_crypto :: "'k conn \<Rightarrow> ('k conn \<times> int) option" where
  "tcp_rpcc_init_fake_crypto c =
     (let flags = td_crypto_flags (cn_data c) in
      if \<not> has_flag flags RPCF_ALLOW_UNENC then Some (c, -1)
      else do {
        c \<leftarrow> tcp_rpc_conn_send_data (bytes_le RPC_NONCE @ replicate 28 0) c;
        if has_flag flags (RPCF_ALLOW_ENC OR RPCF_ENC_SENT) then None
        else Some (set_data (\<lambda>d. d\<lparr>td_crypto_flags := flags OR RPCF_ENC_SENT\<rparr>) c, 1)
      })"

definition tcp_rpcc_init_crypto ::
    "('w, 'k) clt_env \<Rightarrow> 'w srv \<Rightarrow> local_conn \<Rightarrow> 'k conn \<Rightarrow> ('w, 'k, int) outcome" where
  "tcp_rpcc_init_crypto env w x c =
     (let flags = td_crypto_flags (cn_data c) in
      if \<not> has_flag flags RPCF_ALLOW_ENC then map_option (\<lambda>(c, r). (w, x, c, r)) (tcp_rpcc_init_fake_crypto c)
      else do {
        let c = set_data (\<lambda>d. d\<lparr>td_nonce_time := cl_now env, td_nonce := cl_nonce env\<rparr>) c;
        (_, sel) \<leftarrow> cl_dh_init env (sw_dh_select w);
        let w = w\<lparr>sw_dh_select := sel\<rparr>;
        let head = (\<lambda>schema. bytes_le RPC_NONCE @ bytes_le (cl_key_signature env) @ bytes_le schema
                             @ bytes_le (of_int (cl_now env)) @ cl_nonce env);
        (x, buf) \<leftarrow> (if has_flag flags RPCF_REQ_DH then
                       if lc_crypto_temp x \<noteq> None then None
                       else do {
                         (g_a, dh) \<leftarrow> dh_first_round (cl_mod_exp env) (cl_dh_prime env) (cl_rands env) sel;
                         Some (x\<lparr>lc_crypto_temp := Some dh\<rparr>, head 3 @ bytes_le 0 @ bytes_le sel @ g_a)
                       }
                     else Some (x, head 1));
        c \<leftarrow> tcp_rpc_conn_send_data buf c;
        if flags AND (RPCF_ALLOW_ENC OR RPCF_ENC_SENT) \<noteq> RPCF_ALLOW_ENC \<or> cn_crypto c \<noteq> None then None
        else Some (w, x, set_data (\<lambda>d. d\<lparr>td_crypto_flags := flags OR RPCF_ENC_SENT\<rparr>) c, 1)
      })"

definition ALL_PERMS :: u32 where
  "ALL_PERMS = RPCF_ALLOW_UNENC OR RPCF_ALLOW_ENC OR RPCF_REQ_DH OR RPCF_ALLOW_SKIP_DH"

text \<open>\<open>flush\<close> is the \<open>flush_packet\<close> of the connection's functions.\<close>

definition tcp_rpcc_connected ::
    "('w, 'k) clt_env \<Rightarrow> ('k conn \<Rightarrow> 'k conn option) \<Rightarrow> 'w srv \<Rightarrow> local_conn \<Rightarrow> 'k conn \<Rightarrow> ('w, 'k, int) outcome" where
  "tcp_rpcc_connected env flush w x c =
     (let c = set_data (\<lambda>d. d\<lparr>td_out_packet_num := -2\<rparr>) c;
          x = x\<lparr>lc_last_query_sent := cl_precise_now env\<rparr>;
          start = (\<lambda>flags. do {
            (w, x, c, res) \<leftarrow> tcp_rpcc_init_crypto env w x (set_data (\<lambda>d. d\<lparr>td_crypto_flags := flags\<rparr>) c);
            if res > 0 then
              if has_flag (td_crypto_flags (cn_data c)) RPCF_ENC_SENT then map_option (\<lambda>c. (w, x, c, 0)) (flush c) else None
            else Some (w, x, c, -1)
          }) in
      case cl_check_perm env of
        None \<Rightarrow> start (RPCF_ALLOW_ENC OR RPCF_ALLOW_UNENC)
      | Some res \<Rightarrow>
          if sint res < 0 then Some (w, x, c, sint res)
          else if \<not> has_flag (res AND ALL_PERMS) (RPCF_ALLOW_UNENC OR RPCF_ALLOW_ENC) then Some (w, x, c, -1)
          else start (res AND ALL_PERMS))"

definition tcp_rpcc_init_outbound ::
    "('w, 'k) clt_env \<Rightarrow> 'w srv \<Rightarrow> local_conn \<Rightarrow> 'k conn \<Rightarrow> 'w srv \<times> local_conn \<times> 'k conn \<times> int" where
  "tcp_rpcc_init_outbound env w x c =
     (let x = x\<lparr>lc_last_query_sent := cl_precise_now env\<rparr>;
          c = set_data (\<lambda>d. d\<lparr>td_crc32c := False\<rparr>) c;
          start = (\<lambda>flags. set_data (\<lambda>d. d\<lparr>td_crypto_flags := flags, td_in_packet_num := -2\<rparr>) c) in
      case cl_check_perm env of
        None \<Rightarrow> (w, x, start RPCF_ALLOW_UNENC, 0)
      | Some res \<Rightarrow>
          if sint res < 0 then (w, x, c, sint res)
          else let res = res AND ALL_PERMS in
            if \<not> has_flag res (RPCF_ALLOW_UNENC OR RPCF_ALLOW_ENC) then (w, x, c, -1)
            else if has_flag res RPCF_REQ_DH then
              (case tcp_add_dh_accept (cl_precise_now env) (sw_dh_rate w) of
                 (ok, rate) \<Rightarrow> let w = w\<lparr>sw_dh_rate := rate\<rparr> in
                   if ok then (w, x, start res, 0) else (w, x, c, -1))
            else (w, x, start res, 0))"

definition tcp_rpcc_default_check_perm :: "u32 \<Rightarrow> u32" where
  "tcp_rpcc_default_check_perm default_flags = RPCF_ALLOW_ENC OR default_flags"

text \<open>The variable that the option \<open>force-dh\<close> sets.\<close>

definition tcp_force_enable_dh :: "u32 \<Rightarrow> u32" where
  "tcp_force_enable_dh force_rpc_dh = force_rpc_dh OR 4"

text \<open>\<open>None\<close> is the failed assertion on the time of the last query.\<close>

definition tcp_rpcc_default_check_ready :: "rat \<Rightarrow> local_conn \<Rightarrow> 'k conn \<Rightarrow> (local_conn \<times> 'k conn) option" where
  "tcp_rpcc_default_check_ready precise_now x c =
     (let ready = (\<lambda>r. x\<lparr>lc_ready := r\<rparr>) in
      if cn_error_flag c then Some (ready Cr_Failed, c)
      else if lc_connecting x \<or> td_in_packet_num (cn_data c) < 0 then
        (if lc_last_query_sent x = 0 then None
         else if lc_last_query_sent x < precise_now - 3 then Some (ready Cr_Failed, fail_connection (-6) c)
         else Some (ready Cr_Notyet, c))
      else if cn_status c = Conn_Working then Some (ready Cr_Ok, c)
      else Some (ready Cr_Failed, fail_connection (-7) c))"

definition tcp_rpc_client_check_ready :: "(local_conn \<Rightarrow> 'k conn \<Rightarrow> (local_conn \<times> 'k conn) option) \<Rightarrow> local_conn \<Rightarrow> 'k conn \<Rightarrow> (local_conn \<times> 'k conn) option" where
  "tcp_rpc_client_check_ready check_ready x c = check_ready x c"

text \<open>\<open>has_close\<close> is whether the functions have \<open>rpc_close\<close>, \<open>close\<close> is \<open>cpu_server_close_connection\<close>.\<close>

definition tcp_rpcc_close_connection :: "bool \<Rightarrow> ('k conn \<Rightarrow> 'k conn) \<Rightarrow> 'w srv \<Rightarrow> 'k conn \<Rightarrow> 'w srv \<times> 'k conn" where
  "tcp_rpcc_close_connection has_close close w c = ((if has_close then notify Closed w else w), close c)"

end
