(* ===== verification/MD5.thy ===== *)
theory MD5
  imports RPC_Data
begin

text \<open>
  MD5 (\<open>common/md5.c\<close>), which makes the keys of the inner connections.  The code keeps its 32-bit
  values in words of 64 bits and lets their upper halves fill up; it takes the message in pieces.  The
  reference definition is the one of the standard: words of 32 bits, the whole message at once.
\<close>

type_synonym u64 = "64 word"

section \<open>The code\<close>

type_synonym 'a quad = "'a \<times> 'a \<times> 'a \<times> 'a"

record md5_context =
  md_total0 :: u64
  md_total1 :: u64
  md_state :: "u64 quad"
  md_buffer :: "byte list"
  md_ipad :: "byte list"
  md_opad :: "byte list"

definition GET_ULONG_LE :: "byte list \<Rightarrow> nat \<Rightarrow> u64" where
  "GET_ULONG_LE b i = ucast (b ! i) OR push_bit 8 (ucast (b ! (i + 1))) OR push_bit 16 (ucast (b ! (i + 2))) OR push_bit 24 (ucast (b ! (i + 3)))"

definition PUT_ULONG_LE :: "u64 \<Rightarrow> byte list" where
  "PUT_ULONG_LE n = [ucast n, ucast (drop_bit 8 n), ucast (drop_bit 16 n), ucast (drop_bit 24 n)]"

definition md5_starts :: "md5_context \<Rightarrow> md5_context" where
  "md5_starts ctx = ctx\<lparr>md_total0 := 0, md_total1 := 0, md_state := (0x67452301, 0xefcdab89, 0x98badcfe, 0x10325476)\<rparr>"

text \<open>The macros \<open>S\<close>, \<open>P\<close> and the four \<open>F\<close>; after a step the four variables have changed their places.\<close>

definition md5_S :: "u64 \<Rightarrow> nat \<Rightarrow> u64" where
  "md5_S x n = push_bit n x OR drop_bit (32 - n) (x AND 0xffffffff)"

definition md5_P :: "(u64 \<Rightarrow> u64 \<Rightarrow> u64 \<Rightarrow> u64) \<Rightarrow> u64 list \<Rightarrow> nat \<times> nat \<times> u64 \<Rightarrow> u64 quad \<Rightarrow> u64 quad" where
  "md5_P F X = (\<lambda>(k, s, t) (a, b, c, d). let a = a + (F b c d + X ! k + t) in (d, md5_S a s + b, b, c))"

definition md5_F1 :: "u64 \<Rightarrow> u64 \<Rightarrow> u64 \<Rightarrow> u64" where "md5_F1 x y z = z XOR (x AND (y XOR z))"
definition md5_F2 :: "u64 \<Rightarrow> u64 \<Rightarrow> u64 \<Rightarrow> u64" where "md5_F2 x y z = y XOR (z AND (x XOR y))"
definition md5_F3 :: "u64 \<Rightarrow> u64 \<Rightarrow> u64 \<Rightarrow> u64" where "md5_F3 x y z = x XOR y XOR z"
definition md5_F4 :: "u64 \<Rightarrow> u64 \<Rightarrow> u64 \<Rightarrow> u64" where "md5_F4 x y z = y XOR (x OR NOT z)"

text \<open>The arguments of the 64 steps.\<close>

definition md5_round1 :: "(nat \<times> nat \<times> u64) list" where
  "md5_round1 =
    [(0, 7, 0xd76aa478), (1, 12, 0xe8c7b756), (2, 17, 0x242070db), (3, 22, 0xc1bdceee),
     (4, 7, 0xf57c0faf), (5, 12, 0x4787c62a), (6, 17, 0xa8304613), (7, 22, 0xfd469501),
     (8, 7, 0x698098d8), (9, 12, 0x8b44f7af), (10, 17, 0xffff5bb1), (11, 22, 0x895cd7be),
     (12, 7, 0x6b901122), (13, 12, 0xfd987193), (14, 17, 0xa679438e), (15, 22, 0x49b40821)]"

definition md5_round2 :: "(nat \<times> nat \<times> u64) list" where
  "md5_round2 =
    [(1, 5, 0xf61e2562), (6, 9, 0xc040b340), (11, 14, 0x265e5a51), (0, 20, 0xe9b6c7aa),
     (5, 5, 0xd62f105d), (10, 9, 0x02441453), (15, 14, 0xd8a1e681), (4, 20, 0xe7d3fbc8),
     (9, 5, 0x21e1cde6), (14, 9, 0xc33707d6), (3, 14, 0xf4d50d87), (8, 20, 0x455a14ed),
     (13, 5, 0xa9e3e905), (2, 9, 0xfcefa3f8), (7, 14, 0x676f02d9), (12, 20, 0x8d2a4c8a)]"

definition md5_round3 :: "(nat \<times> nat \<times> u64) list" where
  "md5_round3 =
    [(5, 4, 0xfffa3942), (8, 11, 0x8771f681), (11, 16, 0x6d9d6122), (14, 23, 0xfde5380c),
     (1, 4, 0xa4beea44), (4, 11, 0x4bdecfa9), (7, 16, 0xf6bb4b60), (10, 23, 0xbebfbc70),
     (13, 4, 0x289b7ec6), (0, 11, 0xeaa127fa), (3, 16, 0xd4ef3085), (6, 23, 0x04881d05),
     (9, 4, 0xd9d4d039), (12, 11, 0xe6db99e5), (15, 16, 0x1fa27cf8), (2, 23, 0xc4ac5665)]"

definition md5_round4 :: "(nat \<times> nat \<times> u64) list" where
  "md5_round4 =
    [(0, 6, 0xf4292244), (7, 10, 0x432aff97), (14, 15, 0xab9423a7), (5, 21, 0xfc93a039),
     (12, 6, 0x655b59c3), (3, 10, 0x8f0ccc92), (10, 15, 0xffeff47d), (1, 21, 0x85845dd1),
     (8, 6, 0x6fa87e4f), (15, 10, 0xfe2ce6e0), (6, 15, 0xa3014314), (13, 21, 0x4e0811a1),
     (4, 6, 0xf7537e82), (11, 10, 0xbd3af235), (2, 15, 0x2ad7d2bb), (9, 21, 0xeb86d391)]"

definition md5_process :: "u64 quad \<Rightarrow> byte list \<Rightarrow> u64 quad" where
  "md5_process st data =
     (let X = map (\<lambda>i. GET_ULONG_LE data (4 * i)) [0..<16];
          (A, B, C, D) = fold (md5_P md5_F4 X) md5_round4 (fold (md5_P md5_F3 X) md5_round3
            (fold (md5_P md5_F2 X) md5_round2 (fold (md5_P md5_F1 X) md5_round1 st)));
          (s0, s1, s2, s3) = st
      in (s0 + A, s1 + B, s2 + C, s3 + D))"

text \<open>\<open>while (ilen >= 64)\<close>: the state and the bytes that are left.\<close>

function md5_blocks :: "u64 quad \<Rightarrow> byte list \<Rightarrow> u64 quad \<times> byte list" where
  "md5_blocks st input = (if 64 \<le> length input then md5_blocks (md5_process st (take 64 input)) (drop 64 input) else (st, input))"
  by pat_completeness auto
termination by (relation "measure (\<lambda>(st, input). length input)") auto

declare md5_blocks.simps [simp del]

definition md5_update :: "byte list \<Rightarrow> md5_context \<Rightarrow> md5_context" where
  "md5_update input ctx =
     (if input = [] then ctx
      else
       let ilen = length input;
           left = unat (md_total0 ctx AND 0x3f);
           fill = 64 - left;
           total0 = (md_total0 ctx + of_nat ilen) AND 0xffffffff;
           ctx = ctx\<lparr>md_total0 := total0, md_total1 := (if total0 < of_nat ilen then md_total1 ctx + 1 else md_total1 ctx)\<rparr>;
           full = (left \<noteq> 0 \<and> ilen \<ge> fill);
           ctx = (if full
                  then let b = take left (md_buffer ctx) @ take fill input
                       in ctx\<lparr>md_buffer := b, md_state := md5_process (md_state ctx) b\<rparr>
                  else ctx);
           input = (if full then drop fill input else input);
           left = (if full then 0 else left);
           (st, rest) = md5_blocks (md_state ctx) input
       in ctx\<lparr>md_state := st,
              md_buffer := take left (md_buffer ctx) @ rest @ drop (left + length rest) (md_buffer ctx)\<rparr>)"

definition md5_padding :: "byte list" where
  "md5_padding = 0x80 # replicate 63 0"

definition md5_finish :: "md5_context \<Rightarrow> byte list \<times> md5_context" where
  "md5_finish ctx =
     (let high = drop_bit 29 (md_total0 ctx) OR push_bit 3 (md_total1 ctx);
          low = push_bit 3 (md_total0 ctx);
          msglen = PUT_ULONG_LE low @ PUT_ULONG_LE high;
          lst = unat (md_total0 ctx AND 0x3f);
          padn = (if lst < 56 then 56 - lst else 120 - lst);
          ctx = md5_update msglen (md5_update (take padn md5_padding) ctx);
          (s0, s1, s2, s3) = md_state ctx
      in (PUT_ULONG_LE s0 @ PUT_ULONG_LE s1 @ PUT_ULONG_LE s2 @ PUT_ULONG_LE s3, ctx))"

text \<open>A context on the stack: \<open>junk\<close> is what its three arrays hold at first.\<close>

definition fresh_context :: "byte list \<Rightarrow> md5_context" where
  "fresh_context junk = \<lparr>md_total0 = 0, md_total1 = 0, md_state = (0, 0, 0, 0), md_buffer = take 64 junk,
     md_ipad = take 64 (drop 64 junk), md_opad = take 64 (drop 128 junk)\<rparr>"

definition md5_on :: "byte list \<Rightarrow> byte list \<Rightarrow> byte list" where
  "md5_on junk input = fst (md5_finish (md5_update input (md5_starts (fresh_context junk))))"

definition md5 :: "byte list \<Rightarrow> byte list" where
  "md5 input = md5_on (replicate 192 0) input"

definition md5_hex_digit :: "byte \<Rightarrow> char" where
  "md5_hex_digit b = ''0123456789abcdef'' ! unat b"

definition md5_hex :: "byte list \<Rightarrow> string" where
  "md5_hex input = concat (map (\<lambda>b. [md5_hex_digit (drop_bit 4 b AND 15), md5_hex_digit (b AND 15)]) (md5 input))"

text \<open>\<open>md5_file\<close>: the pieces that \<open>fread\<close> gives, \<open>None\<close> when the file cannot be opened, and whether reading failed.\<close>

definition md5_file :: "byte list list option \<Rightarrow> bool \<Rightarrow> nat \<times> byte list option" where
  "md5_file file_pieces failed =
     (case file_pieces of
        None \<Rightarrow> (1, None)
      | Some ps \<Rightarrow> (if failed then 2 else 0, Some (fst (md5_finish (fold md5_update ps (md5_starts (fresh_context (replicate 192 0))))))))"

section \<open>The keyed digest\<close>

definition xor_into :: "byte list \<Rightarrow> byte list \<Rightarrow> byte list" where
  "xor_into pad key = map2 (XOR) (take (length key) pad) key @ drop (length key) pad"

definition md5_hmac_starts :: "byte list \<Rightarrow> md5_context \<Rightarrow> md5_context" where
  "md5_hmac_starts key ctx =
     (let key = (if length key > 64 then md5 key else key);
          ctx = ctx\<lparr>md_ipad := xor_into (replicate 64 0x36) key, md_opad := xor_into (replicate 64 0x5c) key\<rparr>
      in md5_update (md_ipad ctx) (md5_starts ctx))"

definition md5_hmac_update :: "byte list \<Rightarrow> md5_context \<Rightarrow> md5_context" where
  "md5_hmac_update input ctx = md5_update input ctx"

definition md5_hmac_finish :: "md5_context \<Rightarrow> byte list" where
  "md5_hmac_finish ctx =
     (let (tmpbuf, ctx) = md5_finish ctx
      in fst (md5_finish (md5_update tmpbuf (md5_update (md_opad ctx) (md5_starts ctx)))))"

definition md5_hmac :: "byte list \<Rightarrow> byte list \<Rightarrow> byte list" where
  "md5_hmac key input =
     md5_hmac_finish (md5_hmac_update input (md5_hmac_starts key (fresh_context (replicate 192 0))))"

end
