(* ===== verification/AES_Keys.thy ===== *)
theory AES_Keys
  imports RPC_Data MD5
begin

text \<open>
  The keys of the inner connections: \<open>net/net-crypto-aes.c\<close>.  MD5 is the one of \<open>common/md5.c\<close>; SHA-1
  belongs to OpenSSL and is an argument, as are the random bytes.
\<close>

section \<open>The secret\<close>

definition MIN_PWD_LEN :: nat where "MIN_PWD_LEN = 32"
definition MAX_PWD_LEN :: nat where "MAX_PWD_LEN = 256"
definition MAX_PWD_CONFIG_LEN :: nat where "MAX_PWD_CONFIG_LEN = 16384"

text \<open>
  \<open>main_secret\<close> with its 260 bytes, of which \<open>secret_len\<close> are the secret; the first four are the
  \<open>key_signature\<close>.  \<open>rand_buf\<close> has 64 bytes.
\<close>

record aes_state =
  as_secret_len :: nat
  as_secret :: "byte list"
  as_pwd_config_len :: nat
  as_pwd_md5 :: string
  as_initialized :: bool
  as_rand_buf :: "byte list"

definition key_signature :: "aes_state \<Rightarrow> u32" where
  "key_signature s = le32 (as_secret s)"

definition get_crypto_key_id :: "aes_state \<Rightarrow> u32" where
  "get_crypto_key_id s = (if as_secret_len s \<ge> 4 then key_signature s else 0)"

definition is_valid_crypto_key_id :: "aes_state \<Rightarrow> u32 \<Rightarrow> bool" where
  "is_valid_crypto_key_id s x \<longleftrightarrow> x \<noteq> 0 \<and> x = key_signature s \<and> as_secret_len s \<ge> 4"

definition get_extra_crypto_key_ids :: "u32 list" where
  "get_extra_crypto_key_ids = []"

text \<open>Writing into a buffer: \<open>None\<close> when it would go beyond the end.\<close>

definition put :: "nat \<Rightarrow> byte list \<Rightarrow> byte list \<Rightarrow> byte list option" where
  "put off data buf =
     (if off + length data \<le> length buf then Some (take off buf @ data @ drop (off + length data) buf) else None)"

text \<open>
  \<open>aes_load_pwd_file\<close>: \<open>r\<close> are the bytes that \<open>/dev/random\<close> gave, at most sixteen; \<open>u\<close> what \<open>/dev/urandom\<close> gave, if it
  could be opened; \<open>m\<close> a value of \<open>lrand48_j\<close>, sign extended; \<open>pwd\<close> what the password file holds: \<open>None\<close> when it
  could not be opened, \<open>Some None\<close> when reading failed.  At most \<open>MAX_PWD_CONFIG_LEN + 1\<close> bytes are read.
\<close>

definition aes_load_pwd_file ::
    "byte list \<Rightarrow> byte list option \<Rightarrow> 64 word \<Rightarrow> byte list option option \<Rightarrow> aes_state \<Rightarrow> (int \<times> aes_state) option" where
  "aes_load_pwd_file r u m pwd s =
     (let no_secret = s\<lparr>as_secret_len := 0\<rparr>;
          fill = (if length r \<ge> 16 then Some [] else u) in
      case fill of
        None \<Rightarrow> Some (-1, no_secret)
      | Some more_bytes \<Rightarrow> do {
          buf \<leftarrow> put 0 (r @ more_bytes) (as_rand_buf s);
          if length (r @ more_bytes) < 16 then Some (-1, no_secret\<lparr>as_rand_buf := buf\<rparr>)
          else
            let buf = map2 (XOR) (take 8 buf) (PUT_ULONG_LE m @ PUT_ULONG_LE (drop_bit 32 m)) @ drop 8 buf;
                s = s\<lparr>as_rand_buf := buf\<rparr> in
            case pwd of
              None \<Rightarrow> Some (-2147483648, s)
            | Some None \<Rightarrow> Some (-1, s)
            | Some (Some content) \<Rightarrow>
                let content = take (MAX_PWD_CONFIG_LEN + 1) content; n = length content in
                if n > MAX_PWD_CONFIG_LEN then Some (-1, s\<lparr>as_pwd_config_len := 0\<rparr>)
                else
                  let s = s\<lparr>as_pwd_config_len := n\<rparr> in
                  if n < MIN_PWD_LEN \<or> n > MAX_PWD_LEN then Some (-1, s)
                  else do {
                    sec \<leftarrow> put 0 content (as_secret s);
                    Some (1, s\<lparr>as_pwd_md5 := md5_hex content, as_secret := sec, as_secret_len := n, as_initialized := True\<rparr>)
                  }
        })"

text \<open>
  \<open>aes_generate_nonce\<close>: two values of \<open>lrand48_j\<close>, the cycle counter and the time go into \<open>rand_buf\<close>, and a
  counter there goes up.
\<close>

definition aes_generate_nonce ::
    "u32 \<Rightarrow> u32 \<Rightarrow> 64 word \<Rightarrow> u32 \<Rightarrow> u32 \<Rightarrow> aes_state \<Rightarrow> (byte list \<times> aes_state) option" where
  "aes_generate_nonce x y tsc sec nsec s = do {
     buf \<leftarrow> put 16 (bytes_le x @ bytes_le y @ PUT_ULONG_LE tsc @ PUT_ULONG_LE (drop_bit 32 tsc) @ bytes_le sec @ bytes_le nsec) (as_rand_buf s);
     buf \<leftarrow> put 40 (bytes_le (le32 (drop 40 buf) + 1)) buf;
     Some (md5 (take 44 buf), s\<lparr>as_rand_buf := buf\<rparr>)
   }"

section \<open>Making the keys\<close>

record aes_key_data =
  ak_read_key :: "byte list"
  ak_read_iv :: "byte list"
  ak_write_key :: "byte list"
  ak_write_iv :: "byte list"

text \<open>The array \<open>str\<close> has this size.\<close>

definition KEY_STRING_SIZE :: nat where
  "KEY_STRING_SIZE = 16 + 16 + 4 + 4 + 2 + 6 + 4 + 2 + MAX_PWD_LEN + 16 + 16 + 4 + 16 * 2 + 256"

definition CLIENT_bytes :: "byte list" where
  "CLIENT_bytes = map of_char ''CLIENT''"

definition SERVER_bytes :: "byte list" where
  "SERVER_bytes = map of_char ''SERVER''"

definition derive_key :: "(byte list \<Rightarrow> byte list) \<Rightarrow> byte list \<Rightarrow> byte list \<times> byte list" where
  "derive_key sha1 str = (take 12 (md5 (drop 1 str)) @ sha1 str, md5 (drop 2 str))"

text \<open>
  The first part of \<open>aes_create_keys\<close>: the string and its length.  \<open>str\<close> is what the array on the stack
  holds at first.
\<close>

definition fill_key_string ::
    "byte list \<Rightarrow> bool \<Rightarrow> byte list \<Rightarrow> byte list \<Rightarrow> u32 \<Rightarrow>
     u32 \<Rightarrow> 16 word \<Rightarrow> byte list \<Rightarrow> u32 \<Rightarrow> 16 word \<Rightarrow> byte list \<Rightarrow> byte list \<Rightarrow> (byte list \<times> nat) option" where
  "fill_key_string str am_client nonce_server nonce_client client_timestamp
     server_ip server_port server_ipv6 client_ip client_port client_ipv6 secret = do {
       str \<leftarrow> put 0 nonce_server str;
       str \<leftarrow> put 16 nonce_client str;
       str \<leftarrow> put 32 (bytes_le client_timestamp) str;
       str \<leftarrow> put 36 (bytes_le server_ip) str;
       str \<leftarrow> put 40 (bytes16 client_port) str;
       str \<leftarrow> put 42 (if am_client then CLIENT_bytes else SERVER_bytes) str;
       str \<leftarrow> put 48 (bytes_le client_ip) str;
       str \<leftarrow> put 52 (bytes16 server_port) str;
       str \<leftarrow> put 54 secret str;
       str \<leftarrow> put (54 + length secret) nonce_server str;
       (str, str_len) \<leftarrow>
         (if server_ip = 0 then
            if client_ip \<noteq> 0 then None
            else do {
              str \<leftarrow> put (70 + length secret) client_ipv6 str;
              str \<leftarrow> put (86 + length secret) server_ipv6 str;
              Some (str, 102 + length secret)
            }
          else if client_ip = 0 then None
          else Some (str, 70 + length secret));
       str \<leftarrow> put str_len nonce_client str;
       Some (str, str_len + 16)
     }"

text \<open>The rest, from the mixing with \<open>temp_key\<close>.\<close>

definition mix_and_derive :: "(byte list \<Rightarrow> byte list) \<Rightarrow> byte list \<Rightarrow> byte list \<Rightarrow> nat \<Rightarrow> aes_key_data option" where
  "mix_and_derive sha1 temp_key str str_len =
     (let temp_key = take (length str) temp_key;
          first_len = min str_len (length temp_key) in do {
        str \<leftarrow> put 0 (map2 (XOR) (take first_len str) (take first_len temp_key)) str;
        str \<leftarrow> put first_len (drop first_len temp_key) str;
        let str_len = max str_len (length temp_key);
        let (write_key, write_iv) = derive_key sha1 (take str_len str);
        str \<leftarrow> put 42 (map2 (XOR) (take 6 (drop 42 str)) (map2 (XOR) CLIENT_bytes SERVER_bytes)) str;
        let (read_key, read_iv) = derive_key sha1 (take str_len str);
        Some \<lparr>ak_read_key = read_key, ak_read_iv = read_iv, ak_write_key = write_key, ak_write_iv = write_iv\<rparr>
      })"

text \<open>\<open>Some None\<close> is the result \<open>-1\<close>.\<close>

definition aes_create_keys ::
    "(byte list \<Rightarrow> byte list) \<Rightarrow> byte list \<Rightarrow> bool \<Rightarrow> byte list \<Rightarrow> byte list \<Rightarrow> u32 \<Rightarrow>
     u32 \<Rightarrow> 16 word \<Rightarrow> byte list \<Rightarrow> u32 \<Rightarrow> 16 word \<Rightarrow> byte list \<Rightarrow> byte list \<Rightarrow> byte list \<Rightarrow> aes_key_data option option" where
  "aes_create_keys sha1 str am_client nonce_server nonce_client client_timestamp
     server_ip server_port server_ipv6 client_ip client_port client_ipv6 secret temp_key =
     (if secret = [] then Some None
      else if \<not> (MIN_PWD_LEN \<le> length secret \<and> length secret \<le> MAX_PWD_LEN) then None
      else do {
        (str, str_len) \<leftarrow> fill_key_string str am_client nonce_server nonce_client client_timestamp
          server_ip server_port server_ipv6 client_ip client_port client_ipv6 secret;
        map_option Some (mix_and_derive sha1 temp_key str str_len)
      })"

text \<open>
  \<open>aes_crypto_init\<close>: the states of the two ciphers; \<open>evp encrypt key iv\<close> stands for \<open>evp_cipher_ctx_init\<close>.
\<close>

definition aes_crypto_init :: "(bool \<Rightarrow> byte list \<Rightarrow> byte list \<Rightarrow> 'k) \<Rightarrow> aes_key_data \<Rightarrow> 'k \<times> 'k" where
  "aes_crypto_init evp D = (evp False (ak_read_key D) (ak_read_iv D), evp True (ak_write_key D) (ak_write_iv D))"

text \<open>The keys that \<open>tcp_rpcc_start_crypto\<close> and \<open>tcp_rpcs_init_crypto\<close> ask for on a connection.\<close>

definition rpcc_keys ::
    "(byte list \<Rightarrow> byte list) \<Rightarrow> (bool \<Rightarrow> byte list \<Rightarrow> byte list \<Rightarrow> 'k) \<Rightarrow> byte list \<Rightarrow> nat_rules \<Rightarrow> byte list \<Rightarrow> byte list \<Rightarrow> 'c conn \<Rightarrow>
     byte list \<Rightarrow> byte list \<Rightarrow> u32 \<Rightarrow> byte list \<Rightarrow> ('k \<times> 'k) option" where
  "rpcc_keys sha1 evp stack rules our_ipv6 secret c = (\<lambda>nonce_server nonce_client ts temp_key.
     case aes_create_keys sha1 stack True nonce_server nonce_client ts
       (nat_translate_ip rules (cn_remote_ip c)) (of_int (cn_remote_port c)) (cn_remote_ipv6 c)
       (nat_translate_ip rules (cn_our_ip c)) (of_int (cn_our_port c)) our_ipv6 secret temp_key of
       Some (Some D) \<Rightarrow> Some (aes_crypto_init evp D) | _ \<Rightarrow> None)"

definition rpcs_keys ::
    "(byte list \<Rightarrow> byte list) \<Rightarrow> (bool \<Rightarrow> byte list \<Rightarrow> byte list \<Rightarrow> 'k) \<Rightarrow> byte list \<Rightarrow> nat_rules \<Rightarrow> byte list \<Rightarrow> byte list \<Rightarrow> 'c conn \<Rightarrow>
     byte list \<Rightarrow> byte list \<Rightarrow> u32 \<Rightarrow> byte list \<Rightarrow> ('k \<times> 'k) option" where
  "rpcs_keys sha1 evp stack rules our_ipv6 secret c = (\<lambda>nonce_server nonce_client ts temp_key.
     case aes_create_keys sha1 stack False nonce_server nonce_client ts
       (nat_translate_ip rules (cn_our_ip c)) (of_int (cn_our_port c)) our_ipv6
       (nat_translate_ip rules (cn_remote_ip c)) (of_int (cn_remote_port c)) (cn_remote_ipv6 c) secret temp_key of
       Some (Some D) \<Rightarrow> Some (aes_crypto_init evp D) | _ \<Rightarrow> None)"

end
