(* ===== verification/MD5_Reference.thy ===== *)
theory MD5_Reference
  imports MD5
begin

text \<open>
  The MD5 of the standard, and the proof that the code computes it, whatever the pieces are in which
  the message comes.
\<close>

section \<open>The reference definition\<close>

definition ref_F :: "nat \<Rightarrow> u32 \<Rightarrow> u32 \<Rightarrow> u32 \<Rightarrow> u32" where
  "ref_F i x y z =
     (if i < 16 then (x AND y) OR (NOT x AND z)
      else if i < 32 then (x AND z) OR (y AND NOT z)
      else if i < 48 then x XOR y XOR z
      else y XOR (x OR NOT z))"

definition ref_index :: "nat \<Rightarrow> nat" where
  "ref_index i = (if i < 16 then i else if i < 32 then (5 * i + 1) mod 16 else if i < 48 then (3 * i + 5) mod 16 else 7 * i mod 16)"

definition ref_shift :: "nat \<Rightarrow> nat" where
  "ref_shift i = [[7, 12, 17, 22], [5, 9, 14, 20], [4, 11, 16, 23], [6, 10, 15, 21]] ! (i div 16) ! (i mod 4)"

text \<open>The table of constants is the code's.\<close>

definition ref_constant :: "nat \<Rightarrow> u32" where
  "ref_constant i = ucast (snd (snd ((md5_round1 @ md5_round2 @ md5_round3 @ md5_round4) ! i)))"

definition ref_step :: "u32 list \<Rightarrow> nat \<Rightarrow> u32 quad \<Rightarrow> u32 quad" where
  "ref_step M i = (\<lambda>(a, b, c, d).
     (d, b + word_rotl (ref_shift i) (a + ref_F i b c d + ref_constant i + M ! ref_index i), b, c))"

definition ref_block :: "u32 quad \<Rightarrow> byte list \<Rightarrow> u32 quad" where
  "ref_block st block =
     (let M = map (\<lambda>i. le32 (drop (4 * i) block)) [0..<16]; (a, b, c, d) = fold (ref_step M) [0..<64] st; (a0, b0, c0, d0) = st
      in (a0 + a, b0 + b, c0 + c, d0 + d))"

text \<open>The whole blocks of a message, and what is left.\<close>

function ref_blocks :: "u32 quad \<Rightarrow> byte list \<Rightarrow> u32 quad \<times> byte list" where
  "ref_blocks st m = (if 64 \<le> length m then ref_blocks (ref_block st (take 64 m)) (drop 64 m) else (st, m))"
  by pat_completeness auto
termination by (relation "measure (\<lambda>(st, m). length m)") auto

declare ref_blocks.simps [simp del]

definition ref_init :: "u32 quad" where
  "ref_init = (0x67452301, 0xefcdab89, 0x98badcfe, 0x10325476)"

definition bytes_le64 :: "u64 \<Rightarrow> byte list" where
  "bytes_le64 w = bytes_le (ucast w) @ bytes_le (ucast (drop_bit 32 w))"

definition ref_pad :: "nat \<Rightarrow> byte list" where
  "ref_pad n = 0x80 # replicate (if n mod 64 < 56 then 55 - n mod 64 else 119 - n mod 64) 0 @ bytes_le64 (of_nat (8 * n))"

definition md5_ref :: "byte list \<Rightarrow> byte list" where
  "md5_ref m = (case fst (ref_blocks ref_init (m @ ref_pad (length m))) of
     (a, b, c, d) \<Rightarrow> bytes_le a @ bytes_le b @ bytes_le c @ bytes_le d)"

section \<open>One block\<close>

definition low4 :: "u64 quad \<Rightarrow> u32 quad" where
  "low4 = (\<lambda>(a, b, c, d). (ucast a, ucast b, ucast c, ucast d))"

lemma low_simps:
  "ucast ((x :: u64) + y) = (ucast x + ucast y :: u32)" "ucast (x XOR y) = (ucast x XOR ucast y :: u32)"
  "ucast (x AND y) = (ucast x AND ucast y :: u32)" "ucast (x OR y) = (ucast x OR ucast y :: u32)"
  "ucast (NOT x) = (NOT (ucast x) :: u32)"
proof -
  have w: "word_of_int (take_bit 64 z) = (word_of_int z :: u32)" for z
    by (simp add: word_of_int_eq_iff)
  have u: "uint (x + y) = take_bit 64 (uint x + uint y)" by (simp add: uint_word_ariths take_bit_eq_mod)
  have "word_of_int (uint (x + y)) = (word_of_int (uint x) + word_of_int (uint y) :: u32)"
    unfolding u w by (rule wi_hom_add[symmetric])
  then show "ucast (x + y) = (ucast x + ucast y :: u32)" by (simp only: ucast_eq)
qed (rule bit_word_eqI; simp add: bit_simps)+

lemma low_rotate:
  assumes "0 < n" "n < 32"
  shows "ucast (md5_S x n) = word_rotl n (ucast x :: u32)"
proof (rule bit_word_eqI)
  fix i assume i: "i < LENGTH(32)"
  have m: "(0xffffffff :: u64) = mask 32" by (simp add: mask_eq_exp_minus_1)
  show "bit (ucast (md5_S x n) :: u32) i = bit (word_rotl n (ucast x :: u32)) i"
    using i assms by (auto simp: md5_S_def m bit_simps bit_word_rotl_iff mod_if add.commute[of 32 i])
qed

definition ref_P :: "(u32 \<Rightarrow> u32 \<Rightarrow> u32 \<Rightarrow> u32) \<Rightarrow> u32 list \<Rightarrow> nat \<times> nat \<times> u64 \<Rightarrow> u32 quad \<Rightarrow> u32 quad" where
  "ref_P F M = (\<lambda>(k, s, t) (a, b, c, d). (d, b + word_rotl s (a + F b c d + ucast t + M ! k), b, c))"

lemma low_P:
  assumes "\<And>x y z. ucast (F x y z) = G (ucast x) (ucast y) (ucast z)" "k < length X" "0 < s" "s < 32"
  shows "low4 (md5_P F X (k, s, t) st) = ref_P G (map ucast X) (k, s, t) (low4 st)"
  using assms by (cases st) (simp add: md5_P_def ref_P_def low4_def Let_def low_simps low_rotate add_ac)

lemma low_fold:
  assumes "\<And>x y z. ucast (F x y z) = G (ucast x) (ucast y) (ucast z)"
    "list_all (\<lambda>(k, s, t). k < length X \<and> 0 < s \<and> s < 32) r"
  shows "low4 (fold (md5_P F X) r st) = fold (ref_P G (map ucast X)) r (low4 st)"
  using assms(2) by (induction r arbitrary: st) (auto simp: low_P[where F = F and G = G, OF assms(1)])

lemma low_F:
  "ucast (md5_F1 x y z) = ref_F 0 (ucast x) (ucast y) (ucast z)" "ucast (md5_F2 x y z) = ref_F 16 (ucast x) (ucast y) (ucast z)"
  "ucast (md5_F3 x y z) = ref_F 32 (ucast x) (ucast y) (ucast z)" "ucast (md5_F4 x y z) = ref_F 48 (ucast x) (ucast y) (ucast z)"
  by (rule bit_word_eqI; auto simp: md5_F1_def md5_F2_def md5_F3_def md5_F4_def ref_F_def bit_simps)+

lemma rounds_bounded:
  "list_all (\<lambda>(k, s, t). k < 16 \<and> 0 < s \<and> s < 32) md5_round1" "list_all (\<lambda>(k, s, t). k < 16 \<and> 0 < s \<and> s < 32) md5_round2"
  "list_all (\<lambda>(k, s, t). k < 16 \<and> 0 < s \<and> s < 32) md5_round3" "list_all (\<lambda>(k, s, t). k < 16 \<and> 0 < s \<and> s < 32) md5_round4"
  by (simp_all add: md5_round1_def md5_round2_def md5_round3_def md5_round4_def)

text \<open>The steps of a round are those of the reference.\<close>

lemma ref_step_P:
  assumes "(md5_round1 @ md5_round2 @ md5_round3 @ md5_round4) ! i = (ref_index i, ref_shift i, t)"
  shows "ref_step M i st = ref_P (ref_F i) M (ref_index i, ref_shift i, t) st"
  using assms by (cases st) (simp add: ref_step_def ref_P_def ref_constant_def)

lemma fold_upt_list:
  assumes "\<And>i st. i < length r \<Longrightarrow> f (n + i) st = g (r ! i) st"
  shows "fold f [n..<n + length r] st = fold g r st"
  using assms
proof (induction r arbitrary: n st)
  case (Cons x r)
  have "f n st = g x st" for st using Cons.prems[of 0] by simp
  moreover have "fold f [Suc n..<Suc n + length r] st' = fold g r st'" for st'
    using Cons.prems[of "Suc _"] by (intro Cons.IH) simp
  ultimately show ?case by (simp add: upt_rec)
qed simp

lemma round_indices:
  "list_all (\<lambda>i. fst ((md5_round1 @ md5_round2 @ md5_round3 @ md5_round4) ! i) = ref_index i
     \<and> fst (snd ((md5_round1 @ md5_round2 @ md5_round3 @ md5_round4) ! i)) = ref_shift i) [0..<64]"
  by code_simp

lemma round_step:
  assumes "i < 64"
  shows "ref_step M i st = ref_P (ref_F i) M ((md5_round1 @ md5_round2 @ md5_round3 @ md5_round4) ! i) st"
proof -
  let ?r = "(md5_round1 @ md5_round2 @ md5_round3 @ md5_round4) ! i"
  have "fst ?r = ref_index i" "fst (snd ?r) = ref_shift i"
    using round_indices assms by (auto simp: list_all_iff)
  then have "?r = (ref_index i, ref_shift i, snd (snd ?r))" by (metis prod.collapse)
  then show ?thesis using ref_step_P[of i "snd (snd ?r)" M st] by metis
qed

lemma round_lengths [simp]: "length md5_round1 = 16" "length md5_round2 = 16" "length md5_round3 = 16" "length md5_round4 = 16"
  by (simp_all add: md5_round1_def md5_round2_def md5_round3_def md5_round4_def)

lemma ref_F_round:
  "i < 16 \<Longrightarrow> ref_F i = ref_F 0" "i < 16 \<Longrightarrow> ref_F (16 + i) = ref_F 16"
  "i < 16 \<Longrightarrow> ref_F (32 + i) = ref_F 32" "i < 16 \<Longrightarrow> ref_F (48 + i) = ref_F 48"
  by (simp_all add: fun_eq_iff ref_F_def)

lemma ref_rounds:
  "fold (ref_step M) [0..<64] st = fold (ref_P (ref_F 48) M) md5_round4 (fold (ref_P (ref_F 32) M) md5_round3
     (fold (ref_P (ref_F 16) M) md5_round2 (fold (ref_P (ref_F 0) M) md5_round1 st)))"
proof -
  have r1: "fold (ref_step M) [0..<0 + length md5_round1] st = fold (ref_P (ref_F 0) M) md5_round1 st" for st
  proof (rule fold_upt_list)
    fix i st assume "i < length md5_round1"
    then have i: "i < 16" by simp
    show "ref_step M (0 + i) st = ref_P (ref_F 0) M (md5_round1 ! i) st"
      using i by (simp add: round_step ref_F_round(1)[OF i] nth_append)
  qed
  have r2: "fold (ref_step M) [16..<16 + length md5_round2] st = fold (ref_P (ref_F 16) M) md5_round2 st" for st
    by (rule fold_upt_list) (simp add: round_step ref_F_round nth_append)
  have r3: "fold (ref_step M) [32..<32 + length md5_round3] st = fold (ref_P (ref_F 32) M) md5_round3 st" for st
    by (rule fold_upt_list) (simp add: round_step ref_F_round nth_append)
  have r4: "fold (ref_step M) [48..<48 + length md5_round4] st = fold (ref_P (ref_F 48) M) md5_round4 st" for st
    by (rule fold_upt_list) (simp add: round_step ref_F_round nth_append)
  have "[0..<64] = [0..<16] @ [16..<32] @ [32..<48] @ [48..<64]"
    by code_simp
  then show ?thesis using r1 r2 r3 r4 by (simp del: upt_rec_numeral)
qed

lemma GET_le32: "ucast (GET_ULONG_LE b i) = le32 (drop i b)" if "i + 3 < length b"
proof -
  have n: "drop i b ! 0 = b ! i" "drop i b ! 1 = b ! (i + 1)" "drop i b ! 2 = b ! (i + 2)" "drop i b ! 3 = b ! (i + 3)"
    using that by simp_all
  show ?thesis unfolding GET_ULONG_LE_def le32_def n
    by (rule bit_word_eqI) (auto simp: bit_simps)
qed

lemma process_is_block:
  assumes "length b = 64"
  shows "low4 (md5_process st b) = ref_block (low4 st) b"
proof -
  let ?X = "map (\<lambda>i. GET_ULONG_LE b (4 * i)) [0..<16]"
  have M: "map ucast ?X = map (\<lambda>i. le32 (drop (4 * i) b)) [0..<16]"
    using assms by (auto simp: GET_le32)
  let ?r = "fold (md5_P md5_F4 ?X) md5_round4 (fold (md5_P md5_F3 ?X) md5_round3
            (fold (md5_P md5_F2 ?X) md5_round2 (fold (md5_P md5_F1 ?X) md5_round1 st)))"
  have "low4 ?r = fold (ref_step (map ucast ?X)) [0..<64] (low4 st)"
    unfolding ref_rounds
    by (simp only: low_fold[of md5_F1 "ref_F 0", OF low_F(1)] low_fold[of md5_F2 "ref_F 16", OF low_F(2)]
        low_fold[of md5_F3 "ref_F 32", OF low_F(3)] low_fold[of md5_F4 "ref_F 48", OF low_F(4)]
        rounds_bounded length_map length_upt diff_zero)
  then have "fold (ref_step (map (\<lambda>i. le32 (drop (4 * i) b)) [0..<16])) [0..<64] (low4 st) = low4 ?r"
    unfolding M ..
  then show ?thesis
    unfolding md5_process_def ref_block_def Let_def by (cases ?r; cases st) (simp add: low4_def low_simps del: upt_rec_numeral)
qed

section \<open>Sequences of blocks\<close>

lemma blocks_low:
  "low4 (fst (md5_blocks st m)) = fst (ref_blocks (low4 st) m) \<and> snd (md5_blocks st m) = snd (ref_blocks (low4 st) m)"
proof (induction st m rule: md5_blocks.induct)
  case (1 st m)
  then show ?case
    by (subst (1 2) md5_blocks.simps, subst (1 2) ref_blocks.simps) (simp add: process_is_block)
qed

lemma ref_blocks_short [simp]: "length m < 64 \<Longrightarrow> ref_blocks st m = (st, m)"
  by (subst ref_blocks.simps) simp

lemma ref_blocks_rest: "length (snd (ref_blocks st m)) = length m mod 64"
proof (induction st m rule: ref_blocks.induct)
  case (1 st m)
  show ?case
  proof (cases "64 \<le> length m")
    case True
    then show ?thesis using 1 by (simp add: ref_blocks.simps[of st m] le_mod_geq)
  qed simp
qed

lemma ref_blocks_append: "ref_blocks st (m @ n) = ref_blocks (fst (ref_blocks st m)) (snd (ref_blocks st m) @ n)"
proof (induction st m rule: ref_blocks.induct)
  case (1 st m)
  show ?case
  proof (cases "64 \<le> length m")
    case True
    then show ?thesis using 1 by (simp add: ref_blocks.simps[of st m] ref_blocks.simps[of st "m @ n"])
  qed simp
qed

end
