(* ===== verification/MD5_Digest.thy ===== *)
theory MD5_Digest
  imports MD5_Reference
begin

text \<open>
  The digest of a message that comes in pieces, the test vectors of \<open>md5_self_test\<close>, and the keyed digest.
\<close>

section \<open>What a context has absorbed\<close>

definition absorbed :: "md5_context \<Rightarrow> byte list \<Rightarrow> bool" where
  "absorbed ctx m \<longleftrightarrow> length (md_buffer ctx) = 64 \<and> low4 (md_state ctx) = fst (ref_blocks ref_init m) \<and>
     take (length m mod 64) (md_buffer ctx) = snd (ref_blocks ref_init m) \<and>
     md_total0 ctx AND 0xffffffff = md_total0 ctx \<and> push_bit 32 (md_total1 ctx) OR md_total0 ctx = of_nat (length m)"

lemma absorbed_starts: "length (md_buffer ctx) = 64 \<Longrightarrow> absorbed (md5_starts ctx) []"
  by (simp add: absorbed_def md5_starts_def low4_def ref_init_def)

lemma mask32: "(0xffffffff :: u64) = mask 32" and mask6: "(0x3f :: u64) = mask 6"
  by (simp_all add: mask_eq_exp_minus_1)

lemma total_left:
  assumes "push_bit 32 t1 OR t0 = (of_nat n :: u64)"
  shows "unat (t0 AND 0x3f) = n mod 64"
proof -
  have "take_bit 6 (push_bit 32 t1 OR t0) = take_bit 6 t0"
    by (rule bit_word_eqI) (auto simp: bit_simps)
  then have "take_bit 6 (of_nat n :: u64) = t0 AND 0x3f" using assms by (simp add: mask6 take_bit_eq_mask)
  moreover have "unat (take_bit 6 (of_nat n :: u64)) = n mod 64"
  proof -
    have "unat (take_bit 6 (of_nat n :: u64)) = take_bit 6 (unat (of_nat n :: u64))" by (rule unsigned_take_bit_eq)
    also have "unat (of_nat n :: u64) = take_bit 64 n" by (simp add: unat_of_nat take_bit_eq_mod)
    also have "take_bit 6 (take_bit 64 n) = take_bit 6 n" by (simp add: take_bit_take_bit)
    finally show ?thesis by (simp add: take_bit_eq_mod)
  qed
  ultimately show ?thesis by simp
qed

text \<open>The two halves of the length, as numbers.\<close>

lemma halves_uint:
  assumes "t0 AND 0xffffffff = (t0 :: u64)"
  shows "uint t0 < 2 ^ 32" "push_bit 32 t1 OR t0 = push_bit 32 t1 + t0"
proof -
  have "take_bit 32 t0 = t0" using assms by (simp add: mask32 take_bit_eq_mask)
  then show "uint t0 < 2 ^ 32"
    by (metis take_bit_int_less_exp unsigned_take_bit_eq)
  have "push_bit 32 t1 AND t0 = 0"
  proof (rule bit_word_eqI)
    fix i assume "i < LENGTH(64)"
    have "bit t0 i \<Longrightarrow> i < 32" using \<open>take_bit 32 t0 = t0\<close> by (metis bit_take_bit_iff)
    then show "bit (push_bit 32 t1 AND t0) i = bit (0 :: u64) i" by (auto simp: bit_simps)
  qed
  then show "push_bit 32 t1 OR t0 = push_bit 32 t1 + t0" by (rule disjunctive_add_eq_or[symmetric])
qed


lemma count_up:
  assumes "t0 AND 0xffffffff = (t0 :: u64)" "push_bit 32 t1 OR t0 = of_nat n" "k < 2 ^ 31"
    "t0' = (t0 + of_nat k) AND 0xffffffff" "t1' = (if t0' < of_nat k then t1 + 1 else t1)"
  shows "t0' AND 0xffffffff = t0'" "push_bit 32 t1' OR t0' = of_nat (n + k)"
proof -
  show m: "t0' AND 0xffffffff = t0'" by (simp add: assms(4) and.assoc)
  let ?t = "uint t0" and ?k = "int k"
  have k: "uint (of_nat k :: u64) = ?k" using assms(3) by (simp add: uint_nat unat_of_nat)
  have b: "0 \<le> ?t" "?t < 2 ^ 32" using halves_uint(1)[OF assms(1)] by simp_all
  have "uint (t0 + of_nat k) = ?t + ?k"
    using b assms(3) k by (simp add: uint_word_ariths)
  moreover have "t0' = take_bit 32 (t0 + of_nat k)" unfolding assms(4) mask32 by (rule take_bit_eq_mask[symmetric])
  ultimately have u: "uint t0' = (?t + ?k) mod 2 ^ 32" by (metis unsigned_take_bit_eq take_bit_eq_mod)
  have md: "(?t + ?k) mod 2 ^ 32 = (if 2 ^ 32 \<le> ?t + ?k then ?t + ?k - 2 ^ 32 else ?t + ?k)"
  proof (cases "2 ^ 32 \<le> ?t + ?k")
    case True
    have "(?t + ?k) mod 2 ^ 32 = (?t + ?k - 2 ^ 32) mod 2 ^ 32" by (simp only: minus_mod_self2)
    also have "\<dots> = ?t + ?k - 2 ^ 32" using b assms(3) True by (intro mod_pos_pos_trivial) auto
    finally show ?thesis using True by simp
  qed (use b in simp)
  have less: "t0' < of_nat k \<longleftrightarrow> 2 ^ 32 \<le> ?t + ?k"
    unfolding word_less_def u k md using b assms(3) by auto
  have "t0' + (if t0' < of_nat k then push_bit 32 1 else 0) = t0 + of_nat k"
  proof (cases "2 ^ 32 \<le> ?t + ?k")
    case True
    then have "uint t0' = ?t + ?k - 2 ^ 32" using u unfolding md by simp
    then have "t0' = t0 + of_nat k - 2 ^ 32"
      by (subst word_of_int_uint[symmetric]) simp
    then show ?thesis using True less by (simp add: push_bit_eq_mult)
  next
    case False
    then have "uint t0' = ?t + ?k" using b u by simp
    then have "t0' = t0 + of_nat k" by (subst word_of_int_uint[symmetric]) simp
    then show ?thesis using False less by simp
  qed
  then have "push_bit 32 t1' + t0' = push_bit 32 t1 + t0 + of_nat k"
    unfolding assms(5) by (simp add: push_bit_add algebra_simps split: if_splits)
  then show "push_bit 32 t1' OR t0' = of_nat (n + k)"
    using assms(2) halves_uint(2)[OF m] halves_uint(2)[OF assms(1)] by simp
qed


section \<open>Updating\<close>

lemma ref_blocks_one: "length b = 64 \<Longrightarrow> ref_blocks st b = (ref_block st b, [])"
  by (subst ref_blocks.simps) simp

lemma blocks_of_state:
  assumes "low4 st = fst (ref_blocks ref_init m)" "snd (ref_blocks ref_init m) = []"
  shows "low4 (fst (md5_blocks st input)) = fst (ref_blocks ref_init (m @ input))"
    "snd (md5_blocks st input) = snd (ref_blocks ref_init (m @ input))"
  using blocks_low[of st input] assms by (simp_all add: ref_blocks_append[of ref_init m])

lemma absorbed_update:
  assumes "absorbed ctx m" "length input < 2 ^ 31"
  shows "absorbed (md5_update input ctx) (m @ input)"
proof (cases "input = []")
  case False
  define left where "left = length m mod 64"
  define rest where "rest = snd (ref_blocks ref_init (m @ input))"
  note a = assms(1)[unfolded absorbed_def]
  have left: "unat (md_total0 ctx AND 0x3f) = left" unfolding left_def by (rule total_left) (use a in blast)
  have buf: "take left (md_buffer ctx) = snd (ref_blocks ref_init m)" and len: "length (md_buffer ctx) = 64" "left < 64"
    using a by (simp_all add: left_def)
  let ?t0 = "(md_total0 ctx + of_nat (length input)) AND 0xffffffff"
  let ?t1 = "if ?t0 < of_nat (length input) then md_total1 ctx + 1 else md_total1 ctx"
  have t: "?t0 AND 0xffffffff = ?t0" "push_bit 32 ?t1 OR ?t0 = of_nat (length (m @ input))"
    using count_up[of "md_total0 ctx" "md_total1 ctx" "length m" "length input" ?t0 ?t1] a assms(2) by simp_all
  have rlen: "length rest = length (m @ input) mod 64" unfolding rest_def by (rule ref_blocks_rest)
  let ?fill = "64 - left"
  show ?thesis
  proof (cases "left \<noteq> 0 \<and> ?fill \<le> length input")
    case True
    let ?b = "take left (md_buffer ctx) @ take ?fill input"
    have b: "length ?b = 64" using len True by simp
    have "fst (ref_blocks ref_init (m @ take ?fill input)) = ref_block (fst (ref_blocks ref_init m)) ?b"
      "snd (ref_blocks ref_init (m @ take ?fill input)) = []"
      unfolding ref_blocks_append[of ref_init m] buf[symmetric] ref_blocks_one[OF b] by simp_all
    then have st: "low4 (md5_process (md_state ctx) ?b) = fst (ref_blocks ref_init (m @ take ?fill input))"
      "snd (ref_blocks ref_init (m @ take ?fill input)) = []"
      using process_is_block[OF b] a by simp_all
    note bl = blocks_of_state[OF st, of "drop ?fill input", unfolded append_assoc append_take_drop_id, folded rest_def]
    show ?thesis
      using True False b bl t rlen len
      unfolding md5_update_def Let_def left
      by (simp add: absorbed_def case_prod_unfold rest_def[symmetric])
  next
    case no: False
    show ?thesis
    proof (cases "left = 0")
      case True
      then have st: "low4 (md_state ctx) = fst (ref_blocks ref_init m)" "snd (ref_blocks ref_init m) = []"
        using a buf by simp_all
      note bl = blocks_of_state[OF st, of input, folded rest_def]
      show ?thesis
        using True False bl t rlen len
        unfolding md5_update_def Let_def left
        by (simp add: absorbed_def case_prod_unfold rest_def[symmetric])
    next
      case l: False
      then have short: "left + length input < 64" using no by simp
      then have "md5_blocks (md_state ctx) input = (md_state ctx, input)" by (subst md5_blocks.simps) simp
      moreover have "ref_blocks ref_init (m @ input) = (fst (ref_blocks ref_init m), take left (md_buffer ctx) @ input)"
        using short len by (simp add: ref_blocks_append[of ref_init m] buf[symmetric])
      moreover have "(length m + length input) mod 64 = left + length input"
        using short by (metis left_def mod_add_left_eq mod_less)
      ultimately show ?thesis
        using l no False t len short a
        unfolding md5_update_def Let_def left
        by (simp add: absorbed_def case_prod_unfold)
    qed
  qed
qed (use assms in \<open>simp add: md5_update_def\<close>)

lemma absorbed_pieces:
  "absorbed ctx m \<Longrightarrow> (\<And>p. p \<in> set ps \<Longrightarrow> length p < 2 ^ 31) \<Longrightarrow> absorbed (fold md5_update ps ctx) (m @ concat ps)"
proof (induction ps arbitrary: ctx m)
  case (Cons p ps)
  have "absorbed (md5_update p ctx) (m @ p)" by (rule absorbed_update) (use Cons.prems in auto)
  from Cons.IH[OF this] Cons.prems show ?case by simp
qed simp

section \<open>Finishing\<close>

lemma PUT_low: "PUT_ULONG_LE w = bytes_le (ucast w)"
  unfolding PUT_ULONG_LE_def bytes_le_def by (auto intro!: bit_word_eqI simp: bit_simps)

lemma padding_is_ref:
  assumes "t0 AND 0xffffffff = t0" "push_bit 32 t1 OR t0 = of_nat n"
  shows "take (if n mod 64 < 56 then 56 - n mod 64 else 120 - n mod 64) md5_padding
      @ PUT_ULONG_LE (push_bit 3 t0) @ PUT_ULONG_LE (drop_bit 29 t0 OR push_bit 3 t1) = ref_pad n"
proof -
  have "take k md5_padding = 0x80 # replicate (k - 1) 0" if "0 < k" "k \<le> 64" for k
    using that by (cases k) (simp_all add: md5_padding_def min_def)
  from this[of "if n mod 64 < 56 then 56 - n mod 64 else 120 - n mod 64"]
  have t: "take (if n mod 64 < 56 then 56 - n mod 64 else 120 - n mod 64) md5_padding
      = 0x80 # replicate (if n mod 64 < 56 then 55 - n mod 64 else 119 - n mod 64) 0"
    by (auto split: if_splits)
  have "(of_nat (8 * n) :: u64) = push_bit 3 (of_nat n)" by (simp add: push_bit_eq_mult)
  then have n: "(of_nat (8 * n) :: u64) = push_bit 3 (push_bit 32 t1 OR t0)" by (simp add: assms(2))
  have b: "bit t0 i \<Longrightarrow> i < 32" for i
    using assms(1) unfolding mask32 take_bit_eq_mask[symmetric] by (metis bit_take_bit_iff)
  have "ucast (push_bit 3 t0) = (ucast (push_bit 3 (push_bit 32 t1 OR t0)) :: u32)"
    by (rule bit_word_eqI) (auto simp: bit_simps)
  moreover have "ucast (drop_bit 29 t0 OR push_bit 3 t1) = (ucast (drop_bit 32 (push_bit 3 (push_bit 32 t1 OR t0))) :: u32)"
    by (rule bit_word_eqI) (auto simp: bit_simps)
  ultimately show ?thesis by (simp only: t PUT_low ref_pad_def bytes_le64_def n append_Cons append_assoc)
qed

lemma finish_is_ref:
  assumes "absorbed ctx m"
  shows "fst (md5_finish ctx) = md5_ref m"
proof -
  note a = assms[unfolded absorbed_def]
  define last where "last = length m mod 64"
  have left: "unat (md_total0 ctx AND 0x3f) = last" unfolding last_def by (rule total_left) (use a in blast)
  define pad where "pad = take (if last < 56 then 56 - last else 120 - last) md5_padding"
  define msglen where "msglen = PUT_ULONG_LE (push_bit 3 (md_total0 ctx)) @ PUT_ULONG_LE (drop_bit 29 (md_total0 ctx) OR push_bit 3 (md_total1 ctx))"
  define ctx' where "ctx' = md5_update msglen (md5_update pad ctx)"
  have "length pad < 2 ^ 31" "length msglen < 2 ^ 31" by (simp_all add: pad_def msglen_def md5_padding_def PUT_ULONG_LE_def)
  note upd = absorbed_update[OF absorbed_update[OF assms this(1)] this(2), folded ctx'_def, unfolded append_assoc]
  have "pad @ msglen = ref_pad (length m)"
    unfolding pad_def msglen_def last_def by (rule padding_is_ref) (use a in blast)+
  with upd have "absorbed ctx' (m @ ref_pad (length m))" by simp
  then have st: "low4 (md_state ctx') = fst (ref_blocks ref_init (m @ ref_pad (length m)))" by (simp add: absorbed_def)
  obtain s0 s1 s2 s3 where s: "md_state ctx' = (s0, s1, s2, s3)" by (cases "md_state ctx'") auto
  have "fst (md5_finish ctx) = PUT_ULONG_LE s0 @ PUT_ULONG_LE s1 @ PUT_ULONG_LE s2 @ PUT_ULONG_LE s3"
    unfolding md5_finish_def Let_def left pad_def[symmetric] msglen_def[symmetric] ctx'_def[symmetric] s by simp
  then show ?thesis using st[symmetric] by (simp add: md5_ref_def s low4_def PUT_low)
qed

lemma md5_pieces:
  assumes "length (md_buffer ctx) = 64" "\<And>p. p \<in> set ps \<Longrightarrow> length p < 2 ^ 31"
  shows "fst (md5_finish (fold md5_update ps (md5_starts ctx))) = md5_ref (concat ps)"
  using finish_is_ref[OF absorbed_pieces[OF absorbed_starts]] assms by fastforce

lemma md5_is_ref: "length m < 2 ^ 31 \<Longrightarrow> md5 m = md5_ref m"
  using md5_pieces[of "fresh_context (replicate 192 0)" "[m]"] by (simp add: md5_def md5_on_def fresh_context_def)

lemma length_md5_ref [simp]: "length (md5_ref m) = 16"
  by (simp add: md5_ref_def split: prod.split)

section \<open>The keyed digest\<close>

lemma xor_into_length [simp]: "length key \<le> length pad \<Longrightarrow> length (xor_into pad key) = length pad"
  by (simp add: xor_into_def min_def)

lemma update_keeps: "md_opad (md5_update input ctx) = md_opad ctx" "length (md_buffer ctx) = 64 \<Longrightarrow> length (md_buffer (md5_starts ctx)) = 64"
  by (simp_all add: md5_update_def md5_starts_def Let_def case_prod_unfold)

lemma finish_keeps:
  assumes "absorbed ctx m"
  shows "md_opad (snd (md5_finish ctx)) = md_opad ctx \<and> length (md_buffer (snd (md5_finish ctx))) = 64"
proof -
  define pad where "pad = take (if unat (md_total0 ctx AND 0x3f) < 56 then 56 - unat (md_total0 ctx AND 0x3f)
    else 120 - unat (md_total0 ctx AND 0x3f)) md5_padding"
  define msglen where "msglen = PUT_ULONG_LE (push_bit 3 (md_total0 ctx)) @ PUT_ULONG_LE (drop_bit 29 (md_total0 ctx) OR push_bit 3 (md_total1 ctx))"
  have "length pad < 2 ^ 31" "length msglen < 2 ^ 31" by (simp_all add: pad_def msglen_def md5_padding_def PUT_ULONG_LE_def)
  from absorbed_update[OF absorbed_update[OF assms this(1)] this(2)]
  have "length (md_buffer (md5_update msglen (md5_update pad ctx))) = 64" by (simp add: absorbed_def)
  moreover have "snd (md5_finish ctx) = md5_update msglen (md5_update pad ctx)"
    unfolding md5_finish_def Let_def pad_def msglen_def by (simp split: prod.split)
  ultimately show ?thesis by (simp add: update_keeps)
qed

text \<open>The construction of the standard for keyed digests.\<close>

lemma hmac_is_ref:
  assumes "length key < 2 ^ 31" "length input < 2 ^ 31"
  defines "k \<equiv> if 64 < length key then md5_ref key else key"
  shows "md5_hmac key input =
    md5_ref (xor_into (replicate 64 0x5c) k @ md5_ref (xor_into (replicate 64 0x36) k @ input))"
proof -
  define ipad opad where "ipad = xor_into (replicate 64 0x36) k" and "opad = xor_into (replicate 64 0x5c) k"
  define c0 where "c0 = (fresh_context (replicate 192 0))\<lparr>md_ipad := ipad, md_opad := opad\<rparr>"
  define c1 where "c1 = md5_update input (md5_update ipad (md5_starts c0))"
  have k: "length k \<le> 64" by (simp add: k_def)
  then have len: "length ipad < 2 ^ 31" "length opad < 2 ^ 31" by (simp_all add: ipad_def opad_def)
  have "length (md_buffer c0) = 64" by (simp add: c0_def fresh_context_def)
  then have a1: "absorbed c1 (ipad @ input)"
    using absorbed_update[OF absorbed_update[OF absorbed_starts len(1)] assms(2)] by (simp add: c1_def)
  have start: "md5_hmac_starts key (fresh_context (replicate 192 0)) = md5_update ipad (md5_starts c0)"
    using assms(1) by (simp add: md5_hmac_starts_def Let_def k_def ipad_def opad_def c0_def md5_is_ref)
  define c2 where "c2 = snd (md5_finish c1)"
  have c2: "md_opad c2 = opad" "length (md_buffer c2) = 64"
    using finish_keeps[OF a1] by (simp_all add: c2_def c1_def c0_def update_keeps md5_starts_def)
  have "md5_hmac key input = fst (md5_finish (fold md5_update [opad, md5_ref (ipad @ input)] (md5_starts c2)))"
    unfolding md5_hmac_def start md5_hmac_update_def c1_def[symmetric] md5_hmac_finish_def
    using finish_is_ref[OF a1] c2 by (simp add: c2_def case_prod_unfold)
  also have "\<dots> = md5_ref (concat [opad, md5_ref (ipad @ input)])"
    by (rule md5_pieces) (use c2 len in auto)
  finally show ?thesis by (simp add: ipad_def opad_def)
qed

section \<open>Property\<close>

text \<open>
  C16. The digest is that of the standard.  Whatever the pieces are in which a message is given to
  \<open>md5_update\<close>, and whatever the buffer of the context held before, \<open>md5_finish\<close> gives the digest of the
  whole message as the standard defines it for words of 32 bits: neither the upper halves of the 64-bit
  words in which the code computes nor bytes of an earlier piece get into the result.
\<close>

theorem md5_of_pieces:
  assumes "length junk = 192" "\<forall>p \<in> set ps. length p < 2 ^ 31"
  shows "fst (md5_finish (fold md5_update ps (md5_starts (fresh_context junk)))) = md5_ref (concat ps)"
  by (rule md5_pieces) (use assms in \<open>auto simp: fresh_context_def\<close>)

lemma md5_abc: "md5 [0x61, 0x62, 0x63] =
  [0x90, 0x01, 0x50, 0x98, 0x3c, 0xd2, 0x4f, 0xb0, 0xd6, 0x96, 0x3f, 0x7d, 0x28, 0xe1, 0x7f, 0x72]"
  by code_simp

theorem md5_of_pieces_witness:
  "fst (md5_finish (fold md5_update [[0x61], [], [0x62, 0x63]] (md5_starts (fresh_context (replicate 192 0xaa))))) =
    [0x90, 0x01, 0x50, 0x98, 0x3c, 0xd2, 0x4f, 0xb0, 0xd6, 0x96, 0x3f, 0x7d, 0x28, 0xe1, 0x7f, 0x72]"
  using md5_of_pieces[of "replicate 192 0xaa" "[[0x61], [], [0x62, 0x63]]"] md5_abc md5_is_ref[of "[0x61, 0x62, 0x63]"] by simp

end
