(* ===== verification/AES_Agreement.thy ===== *)
theory AES_Agreement
  imports AES_Keys MD5_Digest
begin

text \<open>
  The two ends of an inner connection make the same keys, and nothing that was on the stack gets into
  them.
\<close>

section \<open>Filling a buffer from the front\<close>

definition wrote :: "byte list \<Rightarrow> byte list \<Rightarrow> nat \<Rightarrow> bool" where
  "wrote buf p n \<longleftrightarrow> length buf = n \<and> take (length p) buf = p \<and> length p \<le> n"

lemma wrote_put:
  assumes "wrote buf p n" "off = length p" "length p + length d \<le> n"
  obtains buf' where "put off d buf = Some buf'" "wrote buf' (p @ d) n"
  using assms by (auto simp: put_def wrote_def)

lemma wrote_Nil: "length buf = n \<Longrightarrow> wrote buf [] n"
  by (simp add: wrote_def)

lemma length_map2 [simp]: "length (map2 f a b) = min (length a) (length b)"
  by simp

section \<open>The string that is hashed\<close>

definition key_string ::
    "bool \<Rightarrow> byte list \<Rightarrow> byte list \<Rightarrow> u32 \<Rightarrow> u32 \<Rightarrow> 16 word \<Rightarrow> byte list \<Rightarrow> u32 \<Rightarrow> 16 word \<Rightarrow> byte list \<Rightarrow> byte list \<Rightarrow> byte list" where
  "key_string client ns nc ts sip sport sip6 cip cport cip6 secret =
     ns @ nc @ bytes_le ts @ bytes_le sip @ bytes16 cport @ (if client then CLIENT_bytes else SERVER_bytes) @ bytes_le cip
     @ bytes16 sport @ secret @ ns @ (if sip = 0 then cip6 @ sip6 else []) @ nc"

text \<open>Mixing in the shared value of Diffie-Hellman.\<close>

definition mix_in :: "byte list \<Rightarrow> byte list \<Rightarrow> byte list" where
  "mix_in str temp = map2 (XOR) str temp @ drop (length temp) str @ drop (length str) temp"

definition role_flip :: "byte list" where
  "role_flip = map2 (XOR) CLIENT_bytes SERVER_bytes"

lemma role_lengths [simp]: "length CLIENT_bytes = 6" "length SERVER_bytes = 6" "length role_flip = 6"
  by (simp_all add: CLIENT_bytes_def SERVER_bytes_def role_flip_def)

lemma length_bytes16 [simp]: "length (bytes16 w) = 2"
  by (simp add: bytes16_def)

lemma flip_roles:
  "map2 (XOR) CLIENT_bytes role_flip = SERVER_bytes" "map2 (XOR) SERVER_bytes role_flip = CLIENT_bytes"
  by (simp_all add: CLIENT_bytes_def SERVER_bytes_def role_flip_def)

lemma length_mix_in [simp]: "length (mix_in s t) = max (length s) (length t)"
  by (simp add: mix_in_def)

lemma mix_in_nth: "i < length s \<Longrightarrow> mix_in s t ! i = (if i < length t then s ! i XOR t ! i else s ! i)"
  by (auto simp: mix_in_def nth_append min_def)

lemma mix_in_nth_rest: "length s \<le> i \<Longrightarrow> i < length t \<Longrightarrow> mix_in s t ! i = t ! i"
  by (auto simp: mix_in_def nth_append min_def)

text \<open>Turning the role around in the mixed string is turning it around before.\<close>

lemma flip_nth:
  assumes "48 \<le> length m" "length f = 6"
  shows "i < 42 \<Longrightarrow> (take 42 m @ map2 (XOR) (take 6 (drop 42 m)) f @ drop 48 m) ! i = m ! i"
    "j < 6 \<Longrightarrow> (take 42 m @ map2 (XOR) (take 6 (drop 42 m)) f @ drop 48 m) ! (42 + j) = m ! (42 + j) XOR f ! j"
    "48 \<le> i \<Longrightarrow> i < length m \<Longrightarrow> (take 42 m @ map2 (XOR) (take 6 (drop 42 m)) f @ drop 48 m) ! i = m ! i"
  using assms by (auto simp: nth_append)

lemma flip_mixed:
  assumes "length a = 42" "length r = 6" "length f = 6"
  shows "take 42 (mix_in (a @ r @ b) t) @ map2 (XOR) (take 6 (drop 42 (mix_in (a @ r @ b) t))) f @ drop 48 (mix_in (a @ r @ b) t)
    = mix_in (a @ map2 (XOR) r f @ b) t" (is "?l = ?r")
proof (rule nth_equalityI)
  show "length ?l = length ?r" using assms by auto
next
  fix i assume "i < length ?l"
  then have i: "i < max (48 + length b) (length t)" using assms by (simp add: min_def max_def split: if_splits)
  have m: "mix_in (a @ r @ b) t ! j = (if j < length t then (a @ r @ b) ! j XOR t ! j else (a @ r @ b) ! j)" if "j < 48 + length b" for j
    using that assms by (intro mix_in_nth) simp
  have m2: "?r ! j = (if j < length t then (a @ map2 (XOR) r f @ b) ! j XOR t ! j else (a @ map2 (XOR) r f @ b) ! j)" if "j < 48 + length b" for j
    using that assms by (intro mix_in_nth) simp
  have l: "48 \<le> length (mix_in (a @ r @ b) t)" using assms by simp
  have "\<exists>j < 6. i = 42 + j" if "42 \<le> i" "i < 48" by (rule exI[of _ "i - 42"]) (use that in simp)
  then consider "i < 42" | j where "i = 42 + j" "j < 6" | "48 \<le> i" "i < 48 + length b" | "48 + length b \<le> i"
    by (metis linorder_not_less)
  then show "?l ! i = ?r ! i"
  proof cases
    case 1
    then show ?thesis using assms by (simp add: flip_nth(1)[OF l] nth_append m m2)
  next
    case 2
    have "?l ! i = mix_in (a @ r @ b) t ! i XOR f ! j" unfolding 2(1) by (rule flip_nth(2)[OF l assms(3) 2(2)])
    also have "\<dots> = ?r ! i"
      using 2 assms by (simp add: m m2 nth_append xor.assoc xor.commute[of "f ! j"])
    finally show ?thesis .
  next
    case 3
    then show ?thesis using assms by (auto simp: flip_nth(3)[OF l] nth_append m m2)
  next
    case 4
    then have "i < length (mix_in (a @ r @ b) t)" using assms i by simp
    then show ?thesis using 4 assms i by (simp add: flip_nth(3)[OF l] mix_in_nth_rest)
  qed
qed

lemma flip_key_string:
  assumes "length ns = 16" "length nc = 16"
  shows "take 42 (mix_in (key_string client ns nc ts sip sport sip6 cip cport cip6 secret) t)
      @ map2 (XOR) (take 6 (drop 42 (mix_in (key_string client ns nc ts sip sport sip6 cip cport cip6 secret) t))) role_flip
      @ drop 48 (mix_in (key_string client ns nc ts sip sport sip6 cip cport cip6 secret) t)
    = mix_in (key_string (\<not> client) ns nc ts sip sport sip6 cip cport cip6 secret) t"
proof -
  let ?a = "ns @ nc @ bytes_le ts @ bytes_le sip @ bytes16 cport"
  let ?b = "bytes_le cip @ bytes16 sport @ secret @ ns @ (if sip = 0 then cip6 @ sip6 else []) @ nc"
  have k: "key_string c ns nc ts sip sport sip6 cip cport cip6 secret = ?a @ (if c then CLIENT_bytes else SERVER_bytes) @ ?b" for c
    by (simp add: key_string_def)
  have "map2 (XOR) (if client then CLIENT_bytes else SERVER_bytes) role_flip = (if \<not> client then CLIENT_bytes else SERVER_bytes)"
    by (simp add: flip_roles)
  then show ?thesis
    unfolding k using flip_mixed[of ?a "if client then CLIENT_bytes else SERVER_bytes" role_flip ?b t] assms by simp
qed

lemma put_inside:
  assumes "length buf = n" "off + length d \<le> n"
  shows "put off d buf = Some (take off buf @ d @ drop (off + length d) buf)"
  using assms by (simp add: put_def)

text \<open>The XOR of the common part and the copy of the rest leave the mixed string.\<close>

lemma mixing:
  assumes "wrote buf str n" "length t \<le> n" "f = min (length str) (length t)"
  obtains buf' buf'' where "put 0 (map2 (XOR) (take f buf) (take f t)) buf = Some buf'"
    "put f (drop f t) buf' = Some buf''" "wrote buf'' (mix_in str t) n"
proof -
  have b: "length buf = n" "take (length str) buf = str" "length str \<le> n" using assms(1) by (simp_all add: wrote_def)
  let ?x = "map2 (XOR) (take f buf) (take f t)"
  have x: "length ?x = f" "f \<le> n" using assms b by simp_all
  let ?buf' = "?x @ drop f buf"
  let ?buf'' = "take f ?buf' @ drop f t @ drop (f + length (drop f t)) ?buf'"
  have 1: "put 0 ?x buf = Some ?buf'" using put_inside[of buf n 0 ?x] b x by simp
  have 2: "put f (drop f t) ?buf' = Some ?buf''" using assms(2,3) b x by (intro put_inside) simp_all
  have tk: "take f buf = take f str" using b assms(3) by (metis min.cobounded1 min.absorb1 take_take)
  have xz: "?x = map2 (XOR) str t"
  proof -
    have "zip (take f str) (take f t) = zip str t" unfolding assms(3) by (simp add: take_zip[symmetric])
    then show ?thesis by (simp add: tk)
  qed
  have l: "length ?buf'' = n" using b x assms(2,3) by simp
  have "take (length (mix_in str t)) ?buf'' = mix_in str t"
  proof (cases "length str \<le> length t")
    case True
    then have "f = length str" "length (map2 (XOR) str t) = length str" using assms(3) by simp_all
    then show ?thesis using True x b xz by (simp add: mix_in_def)
  next
    case False
    then have f: "f = length t" "length (map2 (XOR) str t) = length t" using assms(3) by simp_all
    have "take (length str - length t) (drop (length t) buf) = drop (length t) str" using b by (metis drop_take)
    then show ?thesis using False x b xz f by (simp add: mix_in_def)
  qed
  moreover have "length (mix_in str t) \<le> n" using b assms(2) by simp
  ultimately have "wrote ?buf'' (mix_in str t) n" unfolding wrote_def using l by blast
  with 1 2 show ?thesis by (rule that)
qed

lemma flip_put:
  assumes "wrote buf str n" "48 \<le> length str"
  obtains buf' where "put 42 (map2 (XOR) (take 6 (drop 42 buf)) role_flip) buf = Some buf'"
    "wrote buf' (take 42 str @ map2 (XOR) (take 6 (drop 42 str)) role_flip @ drop 48 str) n"
proof -
  have b: "length buf = n" "take (length str) buf = str" "length str \<le> n" using assms(1) by (simp_all add: wrote_def)
  have "buf = str @ drop (length str) buf" using append_take_drop_id[of "length str" buf] b(2) by simp
  then obtain rest where buf: "buf = str @ rest" by blast
  let ?x = "map2 (XOR) (take 6 (drop 42 buf)) role_flip"
  have "put 42 ?x buf = Some (take 42 buf @ ?x @ drop (42 + length ?x) buf)"
  proof (rule put_inside[OF b(1)])
    have "length ?x \<le> 6" by simp
    then show "42 + length ?x \<le> n" using b(3) assms(2) by linarith
  qed
  moreover have "wrote (take 42 buf @ ?x @ drop (42 + length ?x) buf) (take 42 str @ map2 (XOR) (take 6 (drop 42 str)) role_flip @ drop 48 str) n"
  proof -
    have n: "n = length str + length rest" using b(1) buf by simp
    show ?thesis unfolding wrote_def buf n using assms(2) by simp
  qed
  ultimately show ?thesis by (rule that)
qed

section \<open>What \<open>aes_create_keys\<close> computes\<close>

definition keys_of :: "(byte list \<Rightarrow> byte list) \<Rightarrow> byte list \<Rightarrow> byte list \<Rightarrow> aes_key_data" where
  "keys_of sha1 rd wr = \<lparr>ak_read_key = fst (derive_key sha1 rd), ak_read_iv = snd (derive_key sha1 rd),
     ak_write_key = fst (derive_key sha1 wr), ak_write_iv = snd (derive_key sha1 wr)\<rparr>"

lemma length_key_string [simp]:
  assumes "length ns = 16" "length nc = 16" "length sip6 = 16" "length cip6 = 16"
  shows "length (key_string client ns nc ts sip sport sip6 cip cport cip6 secret) = (if sip = 0 then 118 else 86) + length secret"
  using assms by (simp add: key_string_def)

lemma bind_Some: "x = Some a \<Longrightarrow> Option.bind x f = f a"
  by simp

text \<open>Either the two addresses of the fourth version, or those of the sixth.\<close>

definition v6_part :: "u32 \<Rightarrow> byte list \<Rightarrow> byte list \<Rightarrow> byte list" where
  "v6_part sip sip6 cip6 = (if sip = 0 then cip6 @ sip6 else [])"

lemma fill_addresses:
  assumes "wrote b p KEY_STRING_SIZE" "length p = 70 + s" "s \<le> 256" "(sip = 0) = (cip = 0)" "length sip6 = 16" "length cip6 = 16"
  obtains b' where "(if sip = 0 then if cip \<noteq> 0 then None
        else Option.bind (put (70 + s) cip6 b) (\<lambda>str. Option.bind (put (86 + s) sip6 str) (\<lambda>str. Some (str, 102 + s)))
      else if cip = 0 then None else Some (b, 70 + s)) = Some (b', if sip = 0 then 102 + s else 70 + s)"
    "wrote b' (p @ v6_part sip sip6 cip6) KEY_STRING_SIZE"
proof (cases "sip = 0")
  case True
  have n: "KEY_STRING_SIZE = 634" by (simp add: KEY_STRING_SIZE_def MAX_PWD_LEN_def)
  obtain b1 where b1: "put (70 + s) cip6 b = Some b1" "wrote b1 (p @ cip6) KEY_STRING_SIZE"
    by (rule wrote_put[OF assms(1), of "70 + s" cip6]) (use assms n in simp_all)
  obtain b2 where "put (86 + s) sip6 b1 = Some b2" "wrote b2 ((p @ cip6) @ sip6) KEY_STRING_SIZE"
    by (rule wrote_put[OF b1(2), of "86 + s" sip6]) (use assms n in simp_all)
  then show ?thesis using that[of b2] True assms(4) b1(1) by (simp add: v6_part_def)
next
  case False
  then show ?thesis using that[of b] assms(1,4) by (simp add: v6_part_def)
qed

lemma filled:
  assumes "length ns = 16" "length nc = 16" "length sip6 = 16" "length cip6 = 16" "length str = KEY_STRING_SIZE"
    "length secret \<le> MAX_PWD_LEN" "(sip = 0) = (cip = 0)"
  obtains b where "fill_key_string str client ns nc ts sip sport sip6 cip cport cip6 secret
      = Some (b, length (key_string client ns nc ts sip sport sip6 cip cport cip6 secret))"
    "wrote b (key_string client ns nc ts sip sport sip6 cip cport cip6 secret) KEY_STRING_SIZE"
proof -
  let ?n = KEY_STRING_SIZE
  let ?role = "if client then CLIENT_bytes else SERVER_bytes"
  let ?l = "if sip = 0 then 102 + length secret else 70 + length secret"
  have n: "?n = 634" by (simp add: KEY_STRING_SIZE_def MAX_PWD_LEN_def)
  have sec: "length secret \<le> 256" using assms(6) by (simp add: MAX_PWD_LEN_def)
  note len = assms(1-4) sec n
  obtain b1 where b1: "put 0 ns str = Some b1" "wrote b1 ([] @ ns) ?n"
    by (rule wrote_put[OF wrote_Nil[OF assms(5)], of 0 ns]) (use len in simp_all)
  obtain b2 where b2: "put 16 nc b1 = Some b2" "wrote b2 (([] @ ns) @ nc) ?n"
    by (rule wrote_put[OF b1(2), of 16 nc]) (use len in simp_all)
  obtain b3 where b3: "put 32 (bytes_le ts) b2 = Some b3" "wrote b3 ((([] @ ns) @ nc) @ bytes_le ts) ?n"
    by (rule wrote_put[OF b2(2), of 32 "bytes_le ts"]) (use len in simp_all)
  obtain b4 where b4: "put 36 (bytes_le sip) b3 = Some b4" "wrote b4 (((([] @ ns) @ nc) @ bytes_le ts) @ bytes_le sip) ?n"
    by (rule wrote_put[OF b3(2), of 36 "bytes_le sip"]) (use len in simp_all)
  let ?p4 = "(((([] @ ns) @ nc) @ bytes_le ts) @ bytes_le sip)"
  obtain b5 where b5: "put 40 (bytes16 cport) b4 = Some b5" "wrote b5 (?p4 @ bytes16 cport) ?n"
    by (rule wrote_put[OF b4(2), of 40 "bytes16 cport"]) (use len in simp_all)
  obtain b6 where b6: "put 42 ?role b5 = Some b6" "wrote b6 ((?p4 @ bytes16 cport) @ ?role) ?n"
    by (rule wrote_put[OF b5(2), of 42 ?role]) (use len in simp_all)
  obtain b7 where b7: "put 48 (bytes_le cip) b6 = Some b7" "wrote b7 (((?p4 @ bytes16 cport) @ ?role) @ bytes_le cip) ?n"
    by (rule wrote_put[OF b6(2), of 48 "bytes_le cip"]) (use len in simp_all)
  obtain b8 where b8: "put 52 (bytes16 sport) b7 = Some b8" "wrote b8 ((((?p4 @ bytes16 cport) @ ?role) @ bytes_le cip) @ bytes16 sport) ?n"
    by (rule wrote_put[OF b7(2), of 52 "bytes16 sport"]) (use len in simp_all)
  let ?p8 = "(((?p4 @ bytes16 cport) @ ?role) @ bytes_le cip) @ bytes16 sport"
  obtain b9 where b9: "put 54 secret b8 = Some b9" "wrote b9 (?p8 @ secret) ?n"
    by (rule wrote_put[OF b8(2), of 54 secret]) (use len in simp_all)
  obtain b10 where b10: "put (54 + length secret) ns b9 = Some b10" "wrote b10 ((?p8 @ secret) @ ns) ?n"
    by (rule wrote_put[OF b9(2), of "54 + length secret" ns]) (use len in simp_all)
  obtain b12 where b12: "(if sip = 0 then if cip \<noteq> 0 then None
        else Option.bind (put (70 + length secret) cip6 b10) (\<lambda>str. Option.bind (put (86 + length secret) sip6 str) (\<lambda>str. Some (str, 102 + length secret)))
      else if cip = 0 then None else Some (b10, 70 + length secret)) = Some (b12, ?l)"
    "wrote b12 (((?p8 @ secret) @ ns) @ v6_part sip sip6 cip6) ?n"
    by (rule fill_addresses[OF b10(2) _ sec assms(7,3,4)]) (use len in simp_all)
  obtain b13 where b13: "put ?l nc b12 = Some b13" "wrote b13 ((((?p8 @ secret) @ ns) @ v6_part sip sip6 cip6) @ nc) ?n"
    by (rule wrote_put[OF b12(2), of ?l nc]) (use len in \<open>simp_all add: v6_part_def split: if_split\<close>)
  show ?thesis
  proof (rule that[of b13])
    have "length (key_string client ns nc ts sip sport sip6 cip cport cip6 secret) = ?l + 16" using len by simp
    then show "fill_key_string str client ns nc ts sip sport sip6 cip cport cip6 secret
        = Some (b13, length (key_string client ns nc ts sip sport sip6 cip cport cip6 secret))"
      unfolding fill_key_string_def b1(1)[THEN bind_Some] b2(1)[THEN bind_Some] b3(1)[THEN bind_Some] b4(1)[THEN bind_Some]
        b5(1)[THEN bind_Some] b6(1)[THEN bind_Some] b7(1)[THEN bind_Some] b8(1)[THEN bind_Some] b9(1)[THEN bind_Some]
        b10(1)[THEN bind_Some] b12(1)[THEN bind_Some] prod.case b13(1)[THEN bind_Some] by (simp only:)
    show "wrote b13 (key_string client ns nc ts sip sport sip6 cip cport cip6 secret) ?n"
      using b13(2) by (simp add: key_string_def v6_part_def cong: if_cong)
  qed
qed

lemma derived:
  assumes "wrote b str KEY_STRING_SIZE" "48 \<le> length str" "length t \<le> KEY_STRING_SIZE"
    "take 42 (mix_in str t) @ map2 (XOR) (take 6 (drop 42 (mix_in str t))) role_flip @ drop 48 (mix_in str t) = mix_in str' t"
    "length str' = length str"
  shows "mix_and_derive sha1 t b (length str) = Some (keys_of sha1 (mix_in str' t) (mix_in str t))"
proof -
  let ?n = KEY_STRING_SIZE and ?f = "min (length str) (length t)"
  have lb: "length b = ?n" using assms(1) by (simp add: wrote_def)
  obtain b1 b2 where b2: "put 0 (map2 (XOR) (take ?f b) (take ?f t)) b = Some b1" "put ?f (drop ?f t) b1 = Some b2"
    "wrote b2 (mix_in str t) ?n"
    by (rule mixing[OF assms(1,3) refl])
  have lm: "length (mix_in s t) = max (length str) (length t)" if "length s = length str" for s using that by simp
  have t2: "take (max (length str) (length t)) b2 = mix_in str t" using b2(3) unfolding wrote_def lm[OF refl] by blast
  obtain b3 where b3: "put 42 (map2 (XOR) (take 6 (drop 42 b2)) role_flip) b2 = Some b3" "wrote b3 (mix_in str' t) ?n"
    by (rule flip_put[OF b2(3)]) (use assms(2,4) in simp_all)
  have t3: "take (max (length str) (length t)) b3 = mix_in str' t" using b3(2) unfolding wrote_def lm[OF assms(5)] by blast
  have tt: "take (length b) t = t" using assms(3) lb by simp
  show ?thesis
    unfolding mix_and_derive_def Let_def tt b2(1,2)[THEN bind_Some] t2 role_flip_def[symmetric] b3(1)[THEN bind_Some] t3
    by (simp add: keys_of_def case_prod_unfold)
qed

lemma create_keys_closed:
  assumes "length ns = 16" "length nc = 16" "length sip6 = 16" "length cip6 = 16" "length str = KEY_STRING_SIZE"
    "MIN_PWD_LEN \<le> length secret" "length secret \<le> MAX_PWD_LEN" "(sip = 0) = (cip = 0)" "length t \<le> KEY_STRING_SIZE"
  shows "aes_create_keys sha1 str client ns nc ts sip sport sip6 cip cport cip6 secret t =
    Some (Some (keys_of sha1 (mix_in (key_string (\<not> client) ns nc ts sip sport sip6 cip cport cip6 secret) t)
                             (mix_in (key_string client ns nc ts sip sport sip6 cip cport cip6 secret) t)))"
proof -
  let ?str = "\<lambda>c. key_string c ns nc ts sip sport sip6 cip cport cip6 secret"
  obtain b where b: "fill_key_string str client ns nc ts sip sport sip6 cip cport cip6 secret = Some (b, length (?str client))"
    "wrote b (?str client) KEY_STRING_SIZE"
    by (rule filled[OF assms(1-5,7,8)])
  have len: "length (?str (\<not> client)) = length (?str client)" "48 \<le> length (?str client)" using assms(1-4) by simp_all
  have ne: "secret \<noteq> []" "MIN_PWD_LEN \<le> length secret \<and> length secret \<le> MAX_PWD_LEN" using assms(6,7) by (auto simp: MIN_PWD_LEN_def)
  show ?thesis
    unfolding aes_create_keys_def if_not_P[OF ne(1)] not_not if_not_P[of "\<not> _", unfolded not_not, OF ne(2)]
      b(1)[THEN bind_Some] prod.case derived[OF b(2) len(2) assms(9) flip_key_string[OF assms(1,2)] len(1)]
    by simp
qed

text \<open>The keys of one end, read by the other.\<close>

definition mirrored :: "aes_key_data \<Rightarrow> aes_key_data" where
  "mirrored k = \<lparr>ak_read_key = ak_write_key k, ak_read_iv = ak_write_iv k, ak_write_key = ak_read_key k, ak_write_iv = ak_read_iv k\<rparr>"

section \<open>Property\<close>

text \<open>
  C10. Both ends make the same keys.  For every secret of an allowed length, every shared value of
  Diffie-Hellman that fits, and addresses of which both or none are of the fourth version, client and server
  get keys from \<open>aes_create_keys\<close>: no write goes beyond the array on the stack, no assertion fails,
  and what one end writes with is what the other reads with, whatever was on the two stacks.
\<close>

theorem keys_agree:
  assumes "length ns = 16" "length nc = 16" "length sip6 = 16" "length cip6 = 16"
    "length stack1 = KEY_STRING_SIZE" "length stack2 = KEY_STRING_SIZE"
    "MIN_PWD_LEN \<le> length secret" "length secret \<le> MAX_PWD_LEN" "(sip = 0) = (cip = 0)" "length t \<le> KEY_STRING_SIZE"
  shows "\<exists>k. aes_create_keys sha1 stack1 True ns nc ts sip sport sip6 cip cport cip6 secret t = Some (Some k)
    \<and> aes_create_keys sha1 stack2 False ns nc ts sip sport sip6 cip cport cip6 secret t = Some (Some (mirrored k))"
  using create_keys_closed[OF assms(1-5,7-10), of sha1 True ts sport cport] create_keys_closed[OF assms(1-4,6,7-10), of sha1 False ts sport cport]
  by (simp add: keys_of_def mirrored_def)

theorem keys_agree_witness:
  "\<exists>k. aes_create_keys (\<lambda>m. replicate 20 (m ! 0)) (replicate 634 0xaa) True (replicate 16 1) (replicate 16 2) 1000
      0x01020304 443 (replicate 16 0) 0x05060708 50000 (replicate 16 0) (replicate 32 7) (replicate 256 9) = Some (Some k)
    \<and> aes_create_keys (\<lambda>m. replicate 20 (m ! 0)) (replicate 634 0x55) False (replicate 16 1) (replicate 16 2) 1000
      0x01020304 443 (replicate 16 0) 0x05060708 50000 (replicate 16 0) (replicate 32 7) (replicate 256 9) = Some (Some (mirrored k))"
  by (rule keys_agree) (simp_all add: KEY_STRING_SIZE_def MIN_PWD_LEN_def MAX_PWD_LEN_def)

end
