(* ===== verification/RPC_Meeting.thy ===== *)
theory RPC_Meeting
  imports RPC_Client RPC_Frames AES_Agreement
begin

text \<open>
  Client and server of the inner protocol together: what one writes, the other reads, from the nonce
  packets to the first encrypted frames.
\<close>

section \<open>Frames of the handshake\<close>

text \<open>The parts of a frame, at the start of what has arrived.\<close>

definition frame_body :: "rpc_data \<Rightarrow> byte list \<Rightarrow> byte list" where
  "frame_body d raw = bytes_le (of_nat (length raw + 12)) @ bytes_le (of_int (td_out_packet_num d)) @ raw"

lemma frame_parts:
  assumes "length raw + 12 < 2 ^ 31" "- (2 ^ 31) \<le> td_out_packet_num d" "td_out_packet_num d < 2 ^ 31"
  shows "le32 (rpc_frame crc d raw @ rest) = of_nat (length raw + 12)"
    "take (length raw + 12) (rpc_frame crc d raw @ rest) = rpc_frame crc d raw"
    "drop (length raw + 12) (rpc_frame crc d raw @ rest) = rest"
    "take (length raw + 8) (rpc_frame crc d raw) = frame_body d raw"
    "le32 (drop (length raw + 8) (rpc_frame crc d raw)) = crc (td_crc32c d) (frame_body d raw)"
    "sint (int_at (frame_body d raw) 4) = td_out_packet_num d"
    "drop 8 (frame_body d raw) = raw"
    "sint (of_nat (length raw + 12) :: u32) = int (length raw + 12)"
proof -
  have f: "rpc_frame crc d raw = frame_body d raw @ bytes_le (crc (td_crc32c d) (frame_body d raw))"
    by (simp add: rpc_frame_def frame_body_def Let_def)
  have l: "length (frame_body d raw) = length raw + 8" by (simp add: frame_body_def)
  show "le32 (rpc_frame crc d raw @ rest) = of_nat (length raw + 12)"
    unfolding f frame_body_def append_assoc by (rule le32_bytes_le)
  show "take (length raw + 12) (rpc_frame crc d raw @ rest) = rpc_frame crc d raw"
    "drop (length raw + 12) (rpc_frame crc d raw @ rest) = rest" by simp_all
  show "take (length raw + 8) (rpc_frame crc d raw) = frame_body d raw"
    "le32 (drop (length raw + 8) (rpc_frame crc d raw)) = crc (td_crc32c d) (frame_body d raw)"
    unfolding f l[symmetric] by simp_all
  have "sint (of_int (td_out_packet_num d) :: u32) = td_out_packet_num d"
    using assms(2,3) by (simp add: sint_sbintrunc' signed_take_bit_int_eq_self)
  then show "sint (int_at (frame_body d raw) 4) = td_out_packet_num d" "drop 8 (frame_body d raw) = raw"
    by (simp_all add: frame_body_def int_at_def del: of_nat_add)
  show "sint (of_nat (length raw + 12) :: u32) = int (length raw + 12)" using assms(1) by (rule sint_of_nat_u32)
qed

text \<open>The server's step on the frame of a nonce or handshake packet.\<close>

lemma server_own_frame:
  assumes "cn_in c = rpc_frame (sv_crc env) d raw @ rest" "td_in_packet_num (cn_data c) = td_out_packet_num d"
    "td_out_packet_num d \<in> {-2, -1}" "td_crc32c (cn_data c) = td_crc32c d"
    "\<not> cn_error_flag c" "\<not> cn_stopparse c" "\<not> has_flag (td_crypto_flags (cn_data c)) RPCF_QUICKACK"
    "length raw mod 4 = 0" "4 \<le> length raw" "length raw \<le> 1000" "sv_max_packet_len env \<le> 0 \<or> int (length raw) + 12 \<le> sv_max_packet_len env"
  shows "parse_step env w c = Option.bind (own_packet env (td_out_packet_num d) raw w (c\<lparr>cn_in := rest\<rparr>))
    (\<lambda>(w, c, res). Some (if res < 0 then (w, fail_connection res c, Return 0) else (w, set_data count_in c, Again)))"
proof -
  let ?n = "length raw + 12"
  have b: "length raw + 12 < 2 ^ 31" "- (2 ^ 31) \<le> td_out_packet_num d" "td_out_packet_num d < 2 ^ 31" using assms(3,10) by auto
  note p = frame_parts[OF b]
  have flag: "\<not> has_flag (of_nat ?n :: u32) 0xc0000003" using assms(8,10) by (intro length_bits) auto
  have w1: "whole_packet env ?n w c = Option.bind (own_packet env (td_out_packet_num d) raw w (c\<lparr>cn_in := rest\<rparr>))
    (\<lambda>(w, c, res). Some (if res < 0 then (w, fail_connection res c, Return 0) else (w, set_data count_in c, Again)))"
  proof -
    have n4: "?n - 4 = length raw + 8" by simp
    have neg: "td_out_packet_num d < 0" "td_out_packet_num d \<noteq> -3" using assms(3) by auto
    show ?thesis
      unfolding whole_packet_def Let_def assms(1) p(2,3) n4 p(4-7) using assms(2,4) neg by simp
  qed
  have step: "packet_step env (of_nat ?n) w c = whole_packet env ?n w c"
    unfolding packet_step_def Let_def p(8) using flag assms(1,9,11) by (auto simp del: of_nat_add)
  have "length (cn_in c) = length raw + 12 + length rest" using assms(1) by simp
  then have ne: "cn_in c \<noteq> []" "4 \<le> length (cn_in c)" by auto
  show ?thesis
    unfolding parse_step_def Let_def assms(1)[symmetric] using assms(5-7) ne p(1)[of "sv_crc env" rest] step w1 by (simp add: assms(1) del: of_nat_add)
qed

lemma client_own_frame:
  assumes "cn_in c = rpc_frame (cl_crc env) d raw @ rest" "td_in_packet_num (cn_data c) = td_out_packet_num d"
    "td_out_packet_num d \<in> {-2, -1}" "td_crc32c (cn_data c) = td_crc32c d"
    "length raw mod 4 = 0" "4 \<le> length raw" "length raw \<le> 1000" "cl_max_packet_len env \<le> 0 \<or> int (length raw) + 12 \<le> cl_max_packet_len env"
  shows "client_parse_step env w x c = Option.bind (client_own_packet env (td_out_packet_num d) raw w x (set_data count_in (c\<lparr>cn_in := rest\<rparr>)))
    (\<lambda>(w, x, c, res). Some (if res < 0 then (w, x, fail_connection res c, Return 0) else (w, x, c, Again)))"
proof -
  let ?n = "length raw + 12"
  have b: "length raw + 12 < 2 ^ 31" "- (2 ^ 31) \<le> td_out_packet_num d" "td_out_packet_num d < 2 ^ 31" using assms(3,7) by auto
  note p = frame_parts[OF b]
  have flag: "\<not> has_flag (of_nat ?n :: u32) 3"
  proof -
    have "\<not> has_flag (of_nat ?n :: u32) 0xc0000003" using assms(5,7) by (intro length_bits) auto
    moreover have "(of_nat ?n :: u32) AND 3 = ((of_nat ?n :: u32) AND 0xc0000003) AND 3" by (simp add: and.assoc)
    ultimately show ?thesis by (simp add: has_flag_def)
  qed
  have w1: "client_whole_packet env ?n w x c = Option.bind (client_own_packet env (td_out_packet_num d) raw w x (set_data count_in (c\<lparr>cn_in := rest\<rparr>)))
    (\<lambda>(w, x, c, res). Some (if res < 0 then (w, x, fail_connection res c, Return 0) else (w, x, c, Again)))"
  proof -
    have n4: "?n - 4 = length raw + 8" by simp
    have neg: "td_out_packet_num d < 0" using assms(3) by auto
    show ?thesis
      unfolding client_whole_packet_def Let_def assms(1) p(2,3) n4 p(4-7) using assms(2,4) neg by simp
  qed
  have "length (cn_in c) = length raw + 12 + length rest" using assms(1) by simp
  then have ne: "cn_in c \<noteq> []" "4 \<le> length (cn_in c)" by auto
  have len: "length (cn_in c) = ?n + length rest" using assms(1) by simp
  have head: "le32 (cn_in c) = of_nat ?n" unfolding assms(1) by (rule p(1))
  show ?thesis
    unfolding client_parse_step_def Let_def head p(8) using flag assms(6,8) len ne w1 by (auto simp del: of_nat_add)
qed

text \<open>The packets of four bytes with which a flush fills up a block are skipped.\<close>

lemma server_padding:
  assumes "cn_in c = bytes_le 4 @ rest" "\<not> cn_error_flag c" "\<not> cn_stopparse c" "\<not> has_flag (td_crypto_flags (cn_data c)) RPCF_QUICKACK"
    "sv_max_packet_len env \<le> 0 \<or> 4 \<le> sv_max_packet_len env"
  shows "parse_step env w c = Some (w, c\<lparr>cn_in := rest\<rparr>, Again)"
proof -
  have "le32 (cn_in c) = 4" "drop 4 (cn_in c) = rest" "length (cn_in c) = 4 + length rest" using assms(1) by simp_all
  then show ?thesis using assms(2-5) by (auto simp: parse_step_def packet_step_def has_flag_def)
qed

lemma client_padding:
  assumes "cn_in c = bytes_le 4 @ rest" "cl_max_packet_len env \<le> 0 \<or> 4 \<le> cl_max_packet_len env"
  shows "client_parse_step env w x c = Some (w, x, c\<lparr>cn_in := rest\<rparr>, Again)"
proof -
  have "le32 (cn_in c) = 4" "drop 4 (cn_in c) = rest" "length (cn_in c) = 4 + length rest" using assms(1) by simp_all
  then show ?thesis using assms(2) by (auto simp: client_parse_step_def has_flag_def)
qed

section \<open>Peers that fit\<close>

text \<open>
  The two ends have the same secret and clocks that differ by at most thirty seconds; they run with the
  default permissions, the server with the option \<open>allow-skip-dh\<close>, and either of them may have the
  option for CRC32-C.
\<close>

definition client_fit :: "('w, 'k) clt_env \<Rightarrow> bool" where
  "client_fit ce \<longleftrightarrow> cl_check_perm ce = Some (tcp_rpcc_default_check_perm (cl_default_flags ce)) \<and> cl_default_flags ce \<in> {0, RPCF_USE_CRC32C}
     \<and> length (cl_nonce ce) = 16 \<and> cl_dh_init ce = init_dh_params RPC_PARAM_HASH \<and> 0 < cl_now ce \<and> cl_now ce < 2 ^ 31"

definition peers_fit :: "('w, 'k) clt_env \<Rightarrow> ('v, 'k) srv_env \<Rightarrow> bool" where
  "peers_fit ce se \<longleftrightarrow> cl_crc ce = sv_crc se
     \<and> 0 < cl_now ce \<and> cl_now ce < 2 ^ 31 \<and> 0 < sv_now se \<and> sv_now se < 2 ^ 31 \<and> \<bar>cl_now ce - sv_now se\<bar> \<le> 30
     \<and> 4 \<le> cl_secret_len ce \<and> 4 \<le> sv_secret_len se \<and> cl_key_signature ce = sv_key_signature se \<and> sv_key_signature se \<noteq> 0
     \<and> length (cl_nonce ce) = 16 \<and> length (sv_nonce se) = 16 \<and> cl_dh_init ce = init_dh_params RPC_PARAM_HASH
     \<and> cl_check_perm ce = Some (tcp_rpcc_default_check_perm (cl_default_flags ce))
     \<and> sv_check_perm se = Some (tcp_rpcs_default_check_perm (sv_default_flags se))
     \<and> cl_default_flags ce \<in> {0, RPCF_USE_CRC32C}
     \<and> sv_default_flags se \<in> {RPCF_ALLOW_SKIP_DH, RPCF_ALLOW_SKIP_DH OR RPCF_USE_CRC32C}
     \<and> (cl_max_packet_len ce \<le> 0 \<or> 44 \<le> cl_max_packet_len ce) \<and> (sv_max_packet_len se \<le> 0 \<or> 44 \<le> sv_max_packet_len se)
     \<and> cl_has_ready ce"

lemmas fit = peers_fit_def[THEN iffD1]

lemma fit_client: "peers_fit ce se \<Longrightarrow> client_fit ce"
  by (simp add: peers_fit_def client_fit_def)

text \<open>The two nonce packets.\<close>

definition client_nonce :: "('w, 'k) clt_env \<Rightarrow> byte list" where
  "client_nonce ce = bytes_le RPC_NONCE @ bytes_le (cl_key_signature ce) @ bytes_le 1 @ bytes_le (of_int (cl_now ce)) @ cl_nonce ce"

definition server_nonce :: "('w, 'k) srv_env \<Rightarrow> byte list" where
  "server_nonce se = bytes_le RPC_NONCE @ bytes_le (sv_key_signature se) @ bytes_le 1 @ bytes_le (of_int (sv_now se)) @ sv_nonce se"

lemma nonce_fields:
  fixes key ts :: u32
  assumes "P = bytes_le RPC_NONCE @ bytes_le key @ bytes_le 1 @ bytes_le ts @ n" "length n = 16"
  shows "length P = 32" "int_at P 0 = RPC_NONCE" "int_at P 4 = key" "int_at P 8 = 1" "int_at P 12 = ts" "drop 16 P = n" "nonce_length_ok P"
  using assms by (simp_all add: int_at_def nonce_length_ok_def Let_def)

lemma best_key: "4 \<le> n \<Longrightarrow> select_best_key_signature n k k [] = Some k"
  by (simp add: select_best_key_signature_def)

lemma near: "\<bar>a - b\<bar> \<le> 30 \<Longrightarrow> c_abs (i32 (a - b)) \<le> 30"
proof -
  assume a: "\<bar>a - b\<bar> \<le> 30"
  then have "fits_i32 (a - b)" "fits_i32 \<bar>a - b\<bar>" unfolding fits_i32_def by linarith+
  then show ?thesis using a by (simp add: c_abs_def)
qed

section \<open>The steps\<close>

definition connecting_client :: "('w, 'k) clt_env \<Rightarrow> 'k conn \<Rightarrow> 'k conn" where
  "connecting_client ce c = c\<lparr>cn_out_queue := cn_out_queue c @ [client_nonce ce], cn_data := (cn_data c)\<lparr>td_crypto_flags := 18, td_in_packet_num := -2,
     td_out_packet_num := -2, td_nonce := cl_nonce ce, td_nonce_time := cl_now ce, td_crc32c := False\<rparr>\<rparr>"

lemma client_connects:
  assumes "client_fit ce" "cn_crypto c = None"
  shows "\<exists>x1 x2 sel. tcp_rpcc_init_outbound ce w x c = (w, x1, fst (snd (snd (tcp_rpcc_init_outbound ce w x c))), 0) \<and>
    tcp_rpcc_connected ce (tcp_rpc_flush needed) w x1 (fst (snd (snd (tcp_rpcc_init_outbound ce w x c)))) = Some (w\<lparr>sw_dh_select := sel\<rparr>, x2, connecting_client ce c, 0)"
proof -
  note f = assms(1)[unfolded client_fit_def]
  have p: "cl_check_perm ce = Some (2 OR cl_default_flags ce)" using f by (simp add: tcp_rpcc_default_check_perm_def flag_simps)
  have fl: "(2 OR cl_default_flags ce) AND ALL_PERMS = 2" "0 \<le> sint (2 OR cl_default_flags ce)"
    using f by (auto simp: ALL_PERMS_def flag_simps)
  have "cl_dh_init ce (sw_dh_select w) = Some (if sw_dh_select w \<noteq> 0 then (0, sw_dh_select w) else (1, RPC_PARAM_HASH))"
    using f by (simp add: init_dh_params_def)
  then obtain r sel where dh: "cl_dh_init ce (sw_dh_select w) = Some (r, sel)" by (metis surj_pair)
  have len: "length (client_nonce ce) mod 4 = 0" "4 \<le> length (client_nonce ce)" using f by (simp_all add: client_nonce_def)
  show ?thesis
    using assms(2) p fl dh len
    unfolding tcp_rpcc_init_outbound_def tcp_rpcc_connected_def Let_def
    by (simp add: has_flag_def flag_simps tcp_rpcc_init_crypto_def connecting_client_def tcp_rpc_conn_send_data_def tcp_rpc_conn_send_def
        tcp_rpc_flush_def client_nonce_def[symmetric]) (rule exI[of _ sel], rule refl)
qed

definition fresh_server :: "'k conn \<Rightarrow> 'k conn" where
  "fresh_server s = s\<lparr>cn_data := (cn_data s)\<lparr>td_crypto_flags := 14, td_in_packet_num := -2, td_out_packet_num := -2, td_crc32c := False\<rparr>\<rparr>"

lemma server_accepts:
  assumes "peers_fit ce se"
  shows "tcp_rpcs_init_accepted se s = (fresh_server s, 0)"
proof -
  have "sv_default_flags se \<in> {RPCF_ALLOW_SKIP_DH, RPCF_ALLOW_SKIP_DH OR RPCF_USE_CRC32C}"
    "sv_check_perm se = Some (tcp_rpcs_default_check_perm (sv_default_flags se))" using fit[OF assms] by blast+
  then show ?thesis
    by (auto simp: tcp_rpcs_init_accepted_def Let_def tcp_rpcs_default_check_perm_def has_flag_def flag_simps fresh_server_def)
qed

text \<open>The server with its keys; its nonce packet has been sent at once.\<close>

definition keyed_server :: "('w, 'k) srv_env \<Rightarrow> 'k \<times> 'k \<Rightarrow> 'k conn \<Rightarrow> 'k conn" where
  "keyed_server se keys s = s\<lparr>cn_crypto := Some keys, cn_sent := cn_sent s @ [rpc_frame (sv_crc se) (cn_data s) (server_nonce se)],
     cn_data := (cn_data s)\<lparr>td_crypto_flags := 18, td_nonce := sv_nonce se, td_nonce_time := sv_now se, td_out_packet_num := i32 (td_out_packet_num (cn_data s) + 1)\<rparr>\<rparr>"

lemma rpc_frame_upd [simp]:
  "rpc_frame crc (d\<lparr>td_crypto_flags := a\<rparr>) raw = rpc_frame crc d raw" "rpc_frame crc (d\<lparr>td_nonce := n\<rparr>) raw = rpc_frame crc d raw"
  "rpc_frame crc (d\<lparr>td_nonce_time := t\<rparr>) raw = rpc_frame crc d raw" "rpc_frame crc (d\<lparr>td_remote_pid := p\<rparr>) raw = rpc_frame crc d raw"
  "rpc_frame crc (d\<lparr>td_in_packet_num := i\<rparr>) raw = rpc_frame crc d raw"
  by (simp_all add: rpc_frame_def)

lemma server_takes_nonce:
  assumes "peers_fit ce se" "td_in_packet_num (cn_data s) = -2" "td_crypto_flags (cn_data s) = 14" "cn_crypto s = None" "cn_has_io s"
    "sv_keys se (sv_nonce se) (cl_nonce ce) (of_int (cl_now ce)) [] = Some keys"
  shows "own_packet se (-2) (client_nonce ce) w s = Some (w, keyed_server se keys s, 0)"
proof -
  note f = fit[OF assms(1)]
  have "length (cl_nonce ce) = 16" using f by blast
  note P = nonce_fields[OF client_nonce_def this]
  have now: "sint (of_int (cl_now ce) :: u32) = cl_now ce" using f by (intro sint_of_int_u32) auto
  have "c_abs (i32 (cl_now ce - sv_now se)) \<le> 30" using f by (intro near) blast
  then have ts: "\<not> 30 < c_abs (i32 (cl_now ce - sv_now se))" by simp
  have key: "cl_key_signature ce = sv_key_signature se" "sv_key_signature se \<noteq> 0" "4 \<le> sv_secret_len se" "length (sv_nonce se) = 16"
    using f by blast+
  have ch: "choose_crypto se sel 14 nt (client_nonce ce) = Some (Inr (14, sv_key_signature se, sv_now se, False))" for sel nt
    by (simp add: choose_crypto_def P best_key[OF key(3)] key(1,2) now ts has_flag_def flag_simps)
  have len: "length (server_nonce se) mod 4 = 0" using key(4) by (simp add: server_nonce_def)
  have init: "tcp_rpcs_init_crypto se (client_nonce ce) (sv_key_signature se) w (s\<lparr>cn_data := (cn_data s)\<lparr>td_nonce_time := sv_now se, td_crypto_flags := 2\<rparr>\<rparr>)
      = Some (w, keyed_server se keys s, 1)"
  proof -
    have c: "take 16 (cl_nonce ce) = cl_nonce ce" using f by simp
    show ?thesis
      using assms(4,5,6) len key(4)
      by (simp add: tcp_rpcs_init_crypto_def has_flag_def flag_simps answer_nonce_def Let_def P c server_nonce_def[symmetric]
          tcp_rpc_conn_send_data_init_def tcp_rpc_conn_send_init_def count_out_def keyed_server_def)
  qed
  show ?thesis
    using assms(2,3) init
    by (simp add: own_packet_def tcp_rpcs_process_nonce_packet_def P Let_def ch has_flag_def flag_simps)
qed

text \<open>The client with its keys; its handshake packet waits in the queue.\<close>

definition with_remote :: "'k conn \<Rightarrow> process_id" where
  "with_remote c = (let p = td_remote_pid (cn_data c) in
     if pid_port p = 0 then p\<lparr>pid_ip := (if cn_remote_ip c = 0x7f000001 then 0 else cn_remote_ip c), pid_port := of_int (cn_remote_port c)\<rparr> else p)"

definition client_named :: "('w, 'k) clt_env \<Rightarrow> 'k conn \<Rightarrow> 'w srv \<Rightarrow> 'w srv" where
  "client_named ce c w = (if pid_ip (sw_pid w) = 0 then client_pid ce c w else w)"

definition client_handshake :: "('w, 'k) clt_env \<Rightarrow> 'k conn \<Rightarrow> 'w srv \<Rightarrow> byte list" where
  "client_handshake ce c w = bytes_le RPC_HANDSHAKE @ bytes_le (cl_default_flags ce) @ pid_bytes (sw_pid (client_named ce c w)) @ pid_bytes (with_remote c)"

definition keyed_client :: "('w, 'k) clt_env \<Rightarrow> 'k \<times> 'k \<Rightarrow> 'w srv \<Rightarrow> 'k conn \<Rightarrow> 'k conn" where
  "keyed_client ce keys w c = c\<lparr>cn_crypto := Some keys, cn_out_queue := cn_out_queue c @ [client_handshake ce c w],
     cn_data := (cn_data c)\<lparr>td_remote_pid := with_remote c\<rparr>\<rparr>"

lemma client_takes_nonce:
  assumes "peers_fit ce se" "td_in_packet_num (cn_data c) = -1" "td_crypto_flags (cn_data c) = 18" "td_nonce_time (cn_data c) = cl_now ce"
    "td_nonce (cn_data c) = cl_nonce ce" "cn_crypto c = None" "cn_in c = []" "cn_out c = []"
    "cl_keys ce (sv_nonce se) (cl_nonce ce) (of_int (cl_now ce)) [] = Some keys"
  shows "client_own_packet ce (-2) (server_nonce se) w x c =
    Some (client_named ce c w, x\<lparr>lc_crypto_temp := None\<rparr>, keyed_client ce keys w c, 0)"
proof -
  note f = fit[OF assms(1)]
  have "length (sv_nonce se) = 16" using f by blast
  note P = nonce_fields[OF server_nonce_def this]
  have now: "sint (of_int (sv_now se) :: u32) = sv_now se" using f by (intro sint_of_int_u32) auto
  have "c_abs (i32 (sv_now se - cl_now ce)) \<le> 30" using f by (intro near) (simp add: abs_minus_commute)
  then have ts: "\<not> 30 < c_abs (i32 (sv_now se - cl_now ce))" by simp
  have key: "cl_key_signature ce = sv_key_signature se" "sv_key_signature se \<noteq> 0" "4 \<le> cl_secret_len ce" "cl_now ce \<noteq> 0"
    using f by auto
  have fl: "cl_default_flags ce AND RPCF_USE_CRC32C = cl_default_flags ce" using f by (auto simp: flag_simps)
  have n: "take 16 (sv_nonce se) = sv_nonce se" using f by simp
  have ac: "accept_crypto ce sel t 18 (cl_now ce) (server_nonce se) = Some (Inr (sv_key_signature se, False))" for sel t
    by (simp add: accept_crypto_def P best_key[OF key(3)] key(1,2) now ts has_flag_def flag_simps)
  have nonce: "tcp_rpcc_process_nonce_packet ce (server_nonce se) w x c = Some (w, x\<lparr>lc_crypto_temp := None\<rparr>, c\<lparr>cn_crypto := Some keys\<rparr>, 0)"
    using assms(2-9) key
    by (simp add: tcp_rpcc_process_nonce_packet_def P ac third_value_def tcp_rpcc_start_crypto_def n Let_def)
  have hs: "tcp_rpcc_send_handshake_packet ce w (c\<lparr>cn_crypto := Some keys\<rparr>) = Some (client_named ce c w, keyed_client ce keys w c, 0)"
    by (simp add: tcp_rpcc_send_handshake_packet_def Let_def tcp_rpc_conn_send_data_def tcp_rpc_conn_send_def has_flag_def
        keyed_client_def client_handshake_def client_named_def with_remote_def fl)
  show ?thesis by (simp add: client_own_packet_def nonce hs)
qed

section \<open>The handshake packets\<close>

lemma handshake_fields:
  assumes "P = bytes_le RPC_HANDSHAKE @ bytes_le fl @ pid_bytes a @ pid_bytes b"
  shows "length P = 32" "int_at P 0 = RPC_HANDSHAKE" "int_at P 4 = fl" "pid_of_bytes (drop 8 P) = a" "pid_of_bytes (drop 20 P) = b"
proof -
  have "drop 20 P = pid_bytes b" by (simp add: assms)
  then show "pid_of_bytes (drop 20 P) = b" using pid_of_bytes_pid_bytes[of b "[]"] by simp
qed (simp_all add: assms int_at_def)

text \<open>Whether both ends use CRC32-C from then on.\<close>

definition both_crc32c :: "('w, 'k) clt_env \<Rightarrow> ('v, 'k) srv_env \<Rightarrow> bool" where
  "both_crc32c ce se \<longleftrightarrow> has_flag (cl_default_flags ce) RPCF_USE_CRC32C \<and> has_flag (sv_default_flags se) RPCF_USE_CRC32C"

definition server_handshake :: "('w, 'k) clt_env \<Rightarrow> ('v, 'k) srv_env \<Rightarrow> process_id \<Rightarrow> process_id \<Rightarrow> byte list" where
  "server_handshake ce se own peer =
     bytes_le RPC_HANDSHAKE @ bytes_le (if both_crc32c ce se then RPCF_USE_CRC32C else 0) @ pid_bytes own @ pid_bytes peer"

text \<open>The server after the client's handshake packet; its own is in the output buffer.\<close>

definition met_server :: "('w, 'k) clt_env \<Rightarrow> ('v, 'k) srv_env \<Rightarrow> process_id \<Rightarrow> process_id \<Rightarrow> 'k conn \<Rightarrow> 'k conn" where
  "met_server ce se own peer s = s\<lparr>cn_out := cn_out s @ rpc_frame (sv_crc se) (cn_data s) (server_handshake ce se own peer),
     cn_data := (cn_data s)\<lparr>td_remote_pid := peer, td_out_packet_num := i32 (td_out_packet_num (cn_data s) + 1),
       td_crypto_flags := (if both_crc32c ce se then 18 OR RPCF_USE_CRC32C else 18), td_crc32c := td_crc32c (cn_data s) \<or> both_crc32c ce se\<rparr>\<rparr>"

lemma server_takes_handshake:
  assumes "peers_fit ce se" "td_in_packet_num (cn_data s) = -1" "td_crypto_flags (cn_data s) = 18"
    "pid_ip (sw_pid w) \<noteq> 0" "matches_pid (sw_pid w) (with_remote c) \<noteq> 0"
  shows "own_packet se (-1) (client_handshake ce c cw) w s =
    Some (notify Ready w, met_server ce se (sw_pid w) (sw_pid (client_named ce c cw)) s, 0)"
proof -
  note f = fit[OF assms(1)]
  note P = handshake_fields[OF client_handshake_def[of ce c cw]]
  have fl: "cl_default_flags ce = 0 \<or> cl_default_flags ce = RPCF_USE_CRC32C"
    "sv_default_flags se = RPCF_ALLOW_SKIP_DH \<or> sv_default_flags se = RPCF_ALLOW_SKIP_DH OR RPCF_USE_CRC32C" using f by auto
  have no8: "\<not> has_flag (cl_default_flags ce) 255" using fl by (auto simp: has_flag_def flag_simps)
  have crc: "has_flag (cl_default_flags ce) (sv_default_flags se AND RPCF_USE_CRC32C) \<longleftrightarrow> both_crc32c ce se"
    using fl by (auto simp: both_crc32c_def has_flag_def flag_simps)
  let ?p = "sw_pid (client_named ce c cw)"
  let ?s = "set_data (\<lambda>d. d\<lparr>td_remote_pid := ?p, td_crypto_flags := (if both_crc32c ce se then 18 OR RPCF_USE_CRC32C else 18)\<rparr>) s"
  have hs: "tcp_rpcs_process_handshake_packet se (client_handshake ce c cw) w s = Some (w, ?s, 0)"
    using assms(2-5) no8 crc by (auto simp: tcp_rpcs_process_handshake_packet_def Let_def P)
  have sent: "tcp_rpcs_send_handshake_packet se w ?s = Some (met_server ce se (sw_pid w) ?p s\<lparr>cn_data := (cn_data (met_server ce se (sw_pid w) ?p s))\<lparr>td_crc32c := td_crc32c (cn_data s)\<rparr>\<rparr>, 0)"
  proof -
    have "((if both_crc32c ce se then 18 OR RPCF_USE_CRC32C else 18) :: u32) AND RPCF_USE_CRC32C = (if both_crc32c ce se then RPCF_USE_CRC32C else 0)"
      by (simp add: flag_simps)
    then show ?thesis
      using assms(4)
      by (simp add: tcp_rpcs_send_handshake_packet_def tcp_rpc_conn_send_data_im_def tcp_rpc_conn_send_im_def count_out_def
          met_server_def server_handshake_def cong: if_cong)
  qed
  have c: "has_flag ((if both_crc32c ce se then 18 OR RPCF_USE_CRC32C else 18) :: u32) RPCF_USE_CRC32C \<longleftrightarrow> both_crc32c ce se"
    by (simp add: has_flag_def flag_simps)
  show ?thesis
    by (simp add: own_packet_def hs sent) (simp add: met_server_def c[simplified])
qed

text \<open>The client after the server's handshake packet.\<close>

definition met_client :: "('w, 'k) clt_env \<Rightarrow> ('v, 'k) srv_env \<Rightarrow> process_id \<Rightarrow> 'k conn \<Rightarrow> 'k conn" where
  "met_client ce se own c = c\<lparr>cn_data := (cn_data c)\<lparr>td_remote_pid := own,
     td_crypto_flags := (if both_crc32c ce se then 18 OR RPCF_USE_CRC32C else 18), td_crc32c := td_crc32c (cn_data c) \<or> both_crc32c ce se\<rparr>\<rparr>"

lemma client_takes_handshake:
  assumes "peers_fit ce se" "td_in_packet_num (cn_data c) = 0" "td_crypto_flags (cn_data c) = 18"
    "pid_ip own \<noteq> 0" "matches_pid own (td_remote_pid (cn_data c)) \<noteq> 0"
  shows "client_own_packet ce (-1) (server_handshake ce se own (sw_pid w)) w x c = Some (notify Ready w, x, met_client ce se own c, 0)"
proof -
  note f = fit[OF assms(1)]
  note P = handshake_fields[OF server_handshake_def[of ce se own "sw_pid w"]]
  have b8: "\<not> has_flag RPCF_USE_CRC32C 255" "has_flag RPCF_USE_CRC32C RPCF_USE_CRC32C" "\<not> has_flag 0 x" for x
    by (simp_all add: has_flag_def flag_simps)
  have self: "matches_pid p p \<noteq> 0" for p by (simp add: matches_pid_def)
  have own: "both_crc32c ce se \<Longrightarrow> has_flag (cl_default_flags ce) RPCF_USE_CRC32C" by (simp add: both_crc32c_def)
  have ready: "cl_has_ready ce" using f by blast
  have hs: "tcp_rpcc_process_handshake_packet ce (server_handshake ce se own (sw_pid w)) w c = Some (w, met_client ce se own c, 0)"
  proof (cases "both_crc32c ce se")
    case True
    then show ?thesis
      using assms(2-5) own by (simp add: tcp_rpcc_process_handshake_packet_def Let_def P b8 self met_client_def)
  next
    case False
    then show ?thesis
      using assms(2-5) by (simp add: tcp_rpcc_process_handshake_packet_def Let_def P b8 self met_client_def)
  qed
  show ?thesis by (simp add: client_own_packet_def hs ready)
qed

end
