(* ===== verification/RPC_Session.thy ===== *)
theory RPC_Session
  imports RPC_Meeting
begin

text \<open>
  The whole beginning of an inner connection, with readers, writers and ciphers: from the moment the client
  is connected to the first packets.
\<close>

section \<open>Ciphers and streams\<close>

text \<open>
  What block mode promises: \<open>paired w r\<close> says that a reader's state fits to a writer's; then whole blocks are
  read as they were written, and the states fit again.
\<close>

definition cipher_pair ::
    "('k \<Rightarrow> byte list \<Rightarrow> byte list \<times> 'k) \<Rightarrow> ('k \<Rightarrow> byte list \<Rightarrow> byte list \<times> 'k) \<Rightarrow> ('k \<Rightarrow> 'k \<Rightarrow> bool) \<Rightarrow> bool" where
  "cipher_pair enc dec paired \<longleftrightarrow> (\<forall>w r d. paired w r \<and> length d mod 16 = 0 \<longrightarrow>
     length (fst (enc w d)) = length d \<and> fst (dec r (fst (enc w d))) = d \<and> paired (snd (enc w d)) (snd (dec r (fst (enc w d)))))"

lemma cipher_pairD:
  assumes "cipher_pair enc dec paired" "paired w r" "length d mod 16 = 0"
  shows "length (fst (enc w d)) = length d" "dec r (fst (enc w d)) = (d, snd (dec r (fst (enc w d))))"
    "paired (snd (enc w d)) (snd (dec r (fst (enc w d))))"
  using assms unfolding cipher_pair_def by (metis prod.collapse)+

text \<open>The operations of the two connection types \<open>ct_tcp_rpc_server\<close> and \<open>ct_tcp_rpc_client\<close>.\<close>

definition rpc_ops ::
    "('w \<Rightarrow> 'k conn \<Rightarrow> ('w \<times> 'k conn \<times> int) option) \<Rightarrow> crc_fun \<Rightarrow> ('k \<Rightarrow> byte list \<Rightarrow> byte list \<times> 'k) \<Rightarrow>
     ('k \<Rightarrow> byte list \<Rightarrow> byte list \<times> 'k) \<Rightarrow> ('w, 'k) conn_ops" where
  "rpc_ops parse crc enc dec = \<lparr>op_parse = parse, op_decrypt = cpu_tcp_aes_crypto_decrypt_input dec,
     op_encrypt = Some (\<lambda>c. map_option snd (cpu_tcp_aes_crypto_encrypt_output enc c)),
     op_write_packet = (\<lambda>w raw c. Some (w, tcp_rpc_write_packet crc raw c)),
     op_flush = tcp_rpc_flush cpu_tcp_aes_crypto_needed_output_bytes,
     op_received = (\<lambda>n w c. w), op_sent = (\<lambda>n w c. w)\<rparr>"

definition server_ops :: "('w, 'k) srv_env \<Rightarrow> ('k \<Rightarrow> byte list \<Rightarrow> byte list \<times> 'k) \<Rightarrow> ('k \<Rightarrow> byte list \<Rightarrow> byte list \<times> 'k) \<Rightarrow> ('w srv, 'k) conn_ops" where
  "server_ops se enc dec = rpc_ops (tcp_rpcs_parse_execute se) (sv_crc se) enc dec"

definition client_parse :: "('w, 'k) clt_env \<Rightarrow> 'w srv \<times> local_conn \<Rightarrow> 'k conn \<Rightarrow> (('w srv \<times> local_conn) \<times> 'k conn \<times> int) option" where
  "client_parse ce wx c = map_option (\<lambda>(w, x, c, r). ((w, x), c, r)) (tcp_rpcc_parse_execute ce (fst wx) (snd wx) c)"

definition client_ops ::
    "('w, 'k) clt_env \<Rightarrow> ('k \<Rightarrow> byte list \<Rightarrow> byte list \<times> 'k) \<Rightarrow> ('k \<Rightarrow> byte list \<Rightarrow> byte list \<times> 'k) \<Rightarrow> ('w srv \<times> local_conn, 'k) conn_ops" where
  "client_ops ce enc dec = rpc_ops (client_parse ce) (cl_crc ce) enc dec"

text \<open>A connection that is not broken and whose reader is not waiting for anything.\<close>

definition healthy :: "'k conn \<Rightarrow> bool" where
  "healthy c \<longleftrightarrow> \<not> cn_error_flag c \<and> \<not> cn_failed c \<and> \<not> cn_stopread c \<and> \<not> cn_stopparse c \<and> cn_status c = Conn_Working \<and> cn_skip_bytes c = 0
     \<and> cn_has_io c \<and> td_flags (cn_data c) = 0"

lemma writer_plain:
  assumes "healthy c" "cn_crypto c = None" "cn_out_queue c = [raw]" "cn_out c = []"
  shows "cpu_tcp_server_writer (rpc_ops parse crc enc dec) w c = Some (w, (set_data count_out c)\<lparr>cn_out_queue := [],
    cn_sent := cn_sent c @ [rpc_frame crc (cn_data c) raw]\<rparr>)"
proof -
  have "length (rpc_frame crc (cn_data c) raw) \<noteq> 0" by simp
  then have "rpc_frame crc (cn_data c) raw \<noteq> []" by blast
  then show ?thesis
    using assms
    by (simp add: cpu_tcp_server_writer_def rpc_ops_def tcp_rpc_write_packet_def has_flag_def healthy_def tcp_rpc_flush_def Let_def count_out_def)
qed

text \<open>Forty-four bytes, the frame of a handshake packet, go out as three blocks.\<close>

lemma flush_44:
  assumes "cn_crypto c = Some (r, k)" "length (cn_out c) = 44" "cn_out_p c = []"
  shows "Option.bind (tcp_rpc_flush cpu_tcp_aes_crypto_needed_output_bytes c) (\<lambda>c. map_option snd (cpu_tcp_aes_crypto_encrypt_output enc c))
    = Some (c\<lparr>cn_out := [], cn_out_p := fst (enc k (cn_out c @ bytes_le 4)), cn_crypto := Some (r, snd (enc k (cn_out c @ bytes_le 4)))\<rparr>)"
proof -
  have "tcp_rpc_flush cpu_tcp_aes_crypto_needed_output_bytes c = Some (c\<lparr>cn_out := cn_out c @ bytes_le 4\<rparr>)"
    using assms by (simp add: tcp_rpc_flush_def cpu_tcp_aes_crypto_needed_output_bytes_def)
  then show ?thesis
    using assms by (simp add: cpu_tcp_aes_crypto_encrypt_output_def case_prod_unfold Let_def)
qed

lemma writer_44:
  assumes "healthy c" "cn_crypto c = Some (r, k)" "cn_out_p c = []"
    "write_packets (rpc_ops parse crc enc dec) (cn_out_queue c) w (c\<lparr>cn_out_queue := []\<rparr>) = Some (w, c1)"
    "cn_crypto c1 = Some (r, k)" "cn_out_p c1 = []" "length (cn_out c1) = 44" "cn_has_io c1" "cn_sent_stop c1 = cn_sent_stop c"
    "fst (enc k (cn_out c1 @ bytes_le 4)) \<noteq> []"
  shows "cpu_tcp_server_writer (rpc_ops parse crc enc dec) w c = Some (w, c1\<lparr>cn_out := [], cn_out_p := [],
    cn_crypto := Some (r, snd (enc k (cn_out c1 @ bytes_le 4))), cn_sent := cn_sent c1 @ [fst (enc k (cn_out c1 @ bytes_le 4))]\<rparr>)"
proof -
  let ?needed = "cpu_tcp_aes_crypto_needed_output_bytes"
  obtain c2 where c2: "tcp_rpc_flush ?needed c1 = Some c2" "cn_crypto c2 = Some (r, k)"
    using assms(5,7) by (auto simp: tcp_rpc_flush_def cpu_tcp_aes_crypto_needed_output_bytes_def)
  obtain a where enc: "cpu_tcp_aes_crypto_encrypt_output enc c2 = Some (a, c1\<lparr>cn_out := [],
      cn_out_p := fst (enc k (cn_out c1 @ bytes_le 4)), cn_crypto := Some (r, snd (enc k (cn_out c1 @ bytes_le 4)))\<rparr>)"
    using flush_44[OF assms(5,7,6), of enc] c2 by auto
  have st: "(cn_status c = Conn_Write_Close) = False" using assms(1) by (simp add: healthy_def)
  show ?thesis
    using assms(4,8,9,10) c2 enc unfolding cpu_tcp_server_writer_def Let_def st
    by (simp add: rpc_ops_def)
qed

text \<open>The reader, without and with a cipher.\<close>

lemma parse_done:
  assumes "healthy c" "cn_in c \<noteq> []" "parse w c = Some (w', c', r)" "r = NEED_MORE_BYTES \<or> r = 0 \<and> cn_in c' = []"
  shows "parse_loop parse w c = Some (w', c')"
proof (cases "r = 0")
  case True
  have "parse_loop parse w' c' = Some (w', c')"
    using True assms(4) by (subst parse_loop.simps) (auto simp: NEED_MORE_BYTES_def)
  then show ?thesis using assms True by (subst parse_loop.simps) (simp add: healthy_def)
next
  case False
  then show ?thesis using assms by (subst parse_loop.simps) (simp add: healthy_def)
qed

lemma reader_plain:
  assumes "healthy c" "cn_crypto c = None" "cn_in c = []" "cn_in_queue c = [d]" "d \<noteq> []"
    "parse w (c\<lparr>cn_in_queue := [], cn_in := d\<rparr>) = Some (w', c', r)" "r = NEED_MORE_BYTES \<or> r = 0 \<and> cn_in c' = []"
  shows "cpu_tcp_server_reader (rpc_ops parse crc enc dec) w c = Some (w', c', 0)"
proof -
  have h: "healthy (c\<lparr>cn_in_queue := [], cn_in := d\<rparr>)" using assms(1) by (simp add: healthy_def)
  have "parse_loop parse w (c\<lparr>cn_in_queue := [], cn_in := d\<rparr>) = Some (w', c')"
    by (rule parse_done[where parse = parse and w = w, OF h _ assms(6,7)]) (simp add: assms(5))
  then show ?thesis
    using assms(1-5) by (simp add: cpu_tcp_server_reader_def take_packets_def Let_def rpc_ops_def healthy_def)
qed

lemma reader_cipher:
  assumes "healthy c" "cn_crypto c = Some (r, k)" "cn_in c = []" "cn_in_u c = []" "cn_in_queue c = [e]" "length e = 48"
    "dec r e = (d, r')" "d \<noteq> []"
    "parse w (c\<lparr>cn_in_queue := [], cn_in := d, cn_crypto := Some (r', k)\<rparr>) = Some (w', c', res)"
    "res = NEED_MORE_BYTES \<or> res = 0 \<and> cn_in c' = []"
  shows "cpu_tcp_server_reader (rpc_ops parse crc enc dec) w c = Some (w', c', 0)"
proof -
  let ?c = "c\<lparr>cn_in_queue := [], cn_in := d, cn_crypto := Some (r', k)\<rparr>"
  have h: "healthy ?c" using assms(1) by (simp add: healthy_def)
  have pl: "parse_loop parse w ?c = Some (w', c')"
    by (rule parse_done[where parse = parse and w = w, OF h _ assms(9,10)]) (simp add: assms(8))
  have dec: "cpu_tcp_aes_crypto_decrypt_input dec (c\<lparr>cn_in_queue := [], cn_in_u := e\<rparr>) = Some (0, ?c\<lparr>cn_in_u := []\<rparr>)"
    using assms(2-4,6,7) by (simp add: cpu_tcp_aes_crypto_decrypt_input_def Let_def)
  have u: "?c\<lparr>cn_in_u := []\<rparr> = ?c" using assms(4) by simp
  show ?thesis
    using assms(1-6,8) dec pl unfolding u
    by (simp add: cpu_tcp_server_reader_def take_packets_def Let_def rpc_ops_def healthy_def)
qed

section \<open>The loops over the packets\<close>

lemma server_parses:
  assumes "parse_step se w s = Some (w', s', Again)" "cn_in s' = []"
  shows "tcp_rpcs_parse_execute se w s = Some (w', s', NEED_MORE_BYTES)"
  by (subst tcp_rpcs_parse_execute.simps, simp add: assms(1), subst tcp_rpcs_parse_execute.simps, simp add: parse_step_def assms(2))

lemma server_parses_padded:
  assumes "parse_step se w s = Some (w', s', Again)" "cn_in s' = bytes_le 4" "\<not> cn_error_flag s'" "\<not> cn_stopparse s'"
    "\<not> has_flag (td_crypto_flags (cn_data s')) RPCF_QUICKACK" "sv_max_packet_len se \<le> 0 \<or> 44 \<le> sv_max_packet_len se"
  shows "tcp_rpcs_parse_execute se w s = Some (w', s'\<lparr>cn_in := []\<rparr>, NEED_MORE_BYTES)"
proof -
  have "parse_step se w' s' = Some (w', s'\<lparr>cn_in := []\<rparr>, Again)"
    by (rule server_padding) (use assms in auto)
  from server_parses[OF this] show ?thesis by (subst tcp_rpcs_parse_execute.simps) (simp add: assms(1))
qed

lemma client_parses:
  assumes "client_parse_step ce w x c = Some (w', x', c', Again)" "cn_in c' = []"
  shows "tcp_rpcc_parse_execute ce w x c = Some (w', x', c', 0)"
  by (subst tcp_rpcc_parse_execute.simps, simp add: assms(1), subst tcp_rpcc_parse_execute.simps, simp add: client_parse_step_def assms(2))

lemma client_parses_padded:
  assumes "client_parse_step ce w x c = Some (w', x', c', Again)" "cn_in c' = bytes_le 4" "cl_max_packet_len ce \<le> 0 \<or> 44 \<le> cl_max_packet_len ce"
  shows "tcp_rpcc_parse_execute ce w x c = Some (w', x', c'\<lparr>cn_in := []\<rparr>, 0)"
proof -
  have "client_parse_step ce w' x' c' = Some (w', x', c'\<lparr>cn_in := []\<rparr>, Again)"
    by (rule client_padding) (use assms in auto)
  from client_parses[OF this] show ?thesis by (subst tcp_rpcc_parse_execute.simps) (simp add: assms(1))
qed

section \<open>The rounds\<close>

lemma nonce_lengths:
  assumes "peers_fit ce se"
  shows "length (client_nonce ce) = 32" "length (server_nonce se) = 32"
  using fit[OF assms] by (simp_all add: client_nonce_def server_nonce_def)

lemma handshake_lengths [simp]: "length (client_handshake ce c w) = 32" "length (server_handshake ce se p q) = 32"
  by (simp_all add: client_handshake_def server_handshake_def)

lemma frame_nonempty [simp]: "rpc_frame crc d raw \<noteq> []"
  using rpc_frame_length[of crc d raw] by (metis add_is_0 list.size(3) zero_neq_numeral)

lemma max_len:
  assumes "peers_fit ce se"
  shows "cl_max_packet_len ce \<le> 0 \<or> 44 \<le> cl_max_packet_len ce" "sv_max_packet_len se \<le> 0 \<or> 44 \<le> sv_max_packet_len se"
  using fit[OF assms] by blast+

text \<open>The server reads the client's nonce packet.\<close>

lemma server_reads_nonce:
  assumes "peers_fit ce se" "healthy s" "cn_crypto s = None" "cn_in s = []" "cn_in_queue s = [rpc_frame (sv_crc se) d (client_nonce ce)]"
    "td_in_packet_num (cn_data s) = -2" "td_crypto_flags (cn_data s) = 14" "\<not> td_crc32c (cn_data s)" "\<not> td_crc32c d" "td_out_packet_num d = -2"
    "sv_keys se (sv_nonce se) (cl_nonce ce) (of_int (cl_now ce)) [] = Some keys"
  shows "cpu_tcp_server_reader (server_ops se enc dec) w s = Some (w, set_data count_in (keyed_server se keys (s\<lparr>cn_in_queue := []\<rparr>)), 0)"
proof -
  let ?s = "s\<lparr>cn_in_queue := [], cn_in := rpc_frame (sv_crc se) d (client_nonce ce)\<rparr>"
  let ?s' = "keyed_server se keys (s\<lparr>cn_in_queue := []\<rparr>)"
  have h: "\<not> cn_error_flag s" "\<not> cn_stopparse s" "cn_has_io s" using assms(2) by (simp_all add: healthy_def)
  have idle: "?s\<lparr>cn_in := []\<rparr> = s\<lparr>cn_in_queue := []\<rparr>" using assms(4) by simp
  have "parse_step se w ?s = Option.bind (own_packet se (td_out_packet_num d) (client_nonce ce) w (?s\<lparr>cn_in := []\<rparr>))
    (\<lambda>(w, c, res). Some (if res < 0 then (w, fail_connection res c, Return 0) else (w, set_data count_in c, Again)))"
    by (rule server_own_frame) (use assms h max_len[OF assms(1)] nonce_lengths[OF assms(1)] in \<open>auto simp: has_flag_def flag_simps\<close>)
  also have "\<dots> = Some (w, set_data count_in ?s', Again)"
    unfolding idle assms(10) using server_takes_nonce[OF assms(1), of "s\<lparr>cn_in_queue := []\<rparr>" keys w] assms h by simp
  finally have st: "parse_step se w ?s = Some (w, set_data count_in ?s', Again)" .
  have "tcp_rpcs_parse_execute se w ?s = Some (w, set_data count_in ?s', NEED_MORE_BYTES)"
    by (rule server_parses[OF st]) (simp add: keyed_server_def assms(4))
  then show ?thesis
    unfolding server_ops_def by (rule reader_plain[OF assms(2,3,4,5) frame_nonempty, where parse = "tcp_rpcs_parse_execute se"]) simp
qed

text \<open>The client reads the server's.\<close>

lemma client_reads_nonce:
  assumes "peers_fit ce se" "healthy c" "cn_crypto c = None" "cn_in c = []" "cn_in_queue c = [rpc_frame (sv_crc se) d (server_nonce se)]"
    "td_in_packet_num (cn_data c) = -2" "td_crypto_flags (cn_data c) = 18" "\<not> td_crc32c (cn_data c)" "\<not> td_crc32c d" "td_out_packet_num d = -2"
    "td_nonce_time (cn_data c) = cl_now ce" "td_nonce (cn_data c) = cl_nonce ce" "cn_out c = []"
    "cl_keys ce (sv_nonce se) (cl_nonce ce) (of_int (cl_now ce)) [] = Some keys"
  shows "cpu_tcp_server_reader (client_ops ce enc dec) (w, x) c =
    Some ((client_named ce c w, x\<lparr>lc_crypto_temp := None\<rparr>), keyed_client ce keys w (set_data count_in (c\<lparr>cn_in_queue := []\<rparr>)), 0)"
proof -
  let ?c = "c\<lparr>cn_in_queue := [], cn_in := rpc_frame (cl_crc ce) d (server_nonce se)\<rparr>"
  let ?c1 = "set_data count_in (c\<lparr>cn_in_queue := []\<rparr>)"
  let ?w = "client_named ce c w" and ?x = "x\<lparr>lc_crypto_temp := None\<rparr>"
  have crc: "cl_crc ce = sv_crc se" using fit[OF assms(1)] by blast
  have idle: "set_data count_in (?c\<lparr>cn_in := []\<rparr>) = ?c1" using assms(4) by simp
  have n: "client_named ce ?c1 w = ?w" by (simp add: client_named_def)
  have "client_parse_step ce w x ?c = Option.bind (client_own_packet ce (td_out_packet_num d) (server_nonce se) w x (set_data count_in (?c\<lparr>cn_in := []\<rparr>)))
    (\<lambda>(w, x, c, res). Some (if res < 0 then (w, x, fail_connection res c, Return 0) else (w, x, c, Again)))"
    by (rule client_own_frame) (use assms max_len[OF assms(1)] nonce_lengths[OF assms(1)] in auto)
  also have "\<dots> = Some (?w, ?x, keyed_client ce keys w ?c1, Again)"
    unfolding idle assms(10) using client_takes_nonce[OF assms(1), of ?c1 keys w x] assms n by (simp add: count_in_def)
  finally have st: "client_parse_step ce w x ?c = Some (?w, ?x, keyed_client ce keys w ?c1, Again)" .
  have "tcp_rpcc_parse_execute ce w x ?c = Some (?w, ?x, keyed_client ce keys w ?c1, 0)"
    by (rule client_parses[OF st]) (simp add: keyed_client_def assms(4))
  then have "client_parse ce (w, x) ?c
      = Some ((?w, ?x), keyed_client ce keys w ?c1, 0)" by (simp add: client_parse_def)
  then show ?thesis
    unfolding client_ops_def
    by (rule reader_plain[OF assms(2,3,4) assms(5)[folded crc] frame_nonempty]) (simp add: keyed_client_def assms(4))
qed

text \<open>The writers send a handshake packet as three blocks.\<close>

lemma queued_32_is_written:
  assumes "healthy c" "cn_crypto c = Some (r, k)" "cn_out_queue c = [raw]" "length raw = 32" "cn_out c = []" "cn_out_p c = []"
    "d = rpc_frame crc (cn_data c) raw @ bytes_le 4" "length (fst (enc k d)) = 48"
  shows "cpu_tcp_server_writer (rpc_ops parse crc enc dec) w c = Some (w, (set_data count_out c)\<lparr>cn_out_queue := [],
    cn_crypto := Some (r, snd (enc k d)), cn_sent := cn_sent c @ [fst (enc k d)]\<rparr>)"
proof -
  let ?c1 = "(set_data count_out c)\<lparr>cn_out_queue := [], cn_out := rpc_frame crc (cn_data c) raw\<rparr>"
  have wp: "write_packets (rpc_ops parse crc enc dec) (cn_out_queue c) w (c\<lparr>cn_out_queue := []\<rparr>) = Some (w, ?c1)"
    using assms(1,3,5) by (simp add: rpc_ops_def tcp_rpc_write_packet_def has_flag_def healthy_def)
  have d: "cn_out ?c1 @ bytes_le 4 = d" by (simp add: assms(7))
  have ne: "fst (enc k (cn_out ?c1 @ bytes_le 4)) \<noteq> []" unfolding d using assms(8) by auto
  have "cpu_tcp_server_writer (rpc_ops parse crc enc dec) w c = Some (w, ?c1\<lparr>cn_out := [], cn_out_p := [],
      cn_crypto := Some (r, snd (enc k (cn_out ?c1 @ bytes_le 4))), cn_sent := cn_sent ?c1 @ [fst (enc k (cn_out ?c1 @ bytes_le 4))]\<rparr>)"
    by (rule writer_44[OF assms(1,2,6) wp _ _ _ _ _ ne]) (use assms(1,2,4,6) in \<open>simp_all add: healthy_def\<close>)
  then show ?thesis unfolding d using assms(5,6) by simp
qed

lemma buffered_44_is_written:
  assumes "healthy c" "cn_crypto c = Some (r, k)" "cn_out_queue c = []" "length (cn_out c) = 44" "cn_out_p c = []"
    "d = cn_out c @ bytes_le 4" "length (fst (enc k d)) = 48"
  shows "cpu_tcp_server_writer (rpc_ops parse crc enc dec) w c = Some (w, c\<lparr>cn_out := [],
    cn_crypto := Some (r, snd (enc k d)), cn_sent := cn_sent c @ [fst (enc k d)]\<rparr>)"
proof -
  have wp: "write_packets (rpc_ops parse crc enc dec) (cn_out_queue c) w (c\<lparr>cn_out_queue := []\<rparr>) = Some (w, c)"
    using assms(3) by simp
  have ne: "fst (enc k (cn_out c @ bytes_le 4)) \<noteq> []" unfolding assms(6)[symmetric] using assms(7) by auto
  have "cpu_tcp_server_writer (rpc_ops parse crc enc dec) w c = Some (w, c\<lparr>cn_out := [], cn_out_p := [],
      cn_crypto := Some (r, snd (enc k (cn_out c @ bytes_le 4))), cn_sent := cn_sent c @ [fst (enc k (cn_out c @ bytes_le 4))]\<rparr>)"
    by (rule writer_44[OF assms(1,2,5) wp assms(2,5,4) _ _ ne]) (use assms(1) in \<open>simp_all add: healthy_def\<close>)
  then show ?thesis using assms(5,6) by simp
qed

text \<open>The server reads the client's handshake packet.\<close>

lemma server_reads_handshake:
  assumes "peers_fit ce se" "healthy s" "cn_crypto s = Some (r, k)" "cn_in s = []" "cn_in_u s = []" "cn_in_queue s = [e]" "length e = 48"
    "dec r e = (rpc_frame (sv_crc se) d (client_handshake ce c cw) @ bytes_le 4, r')"
    "td_in_packet_num (cn_data s) = -1" "td_crypto_flags (cn_data s) = 18" "td_crc32c (cn_data s) = td_crc32c d" "td_out_packet_num d = -1"
    "pid_ip (sw_pid v) \<noteq> 0" "matches_pid (sw_pid v) (with_remote c) \<noteq> 0"
  shows "cpu_tcp_server_reader (server_ops se enc dec) v s = Some (notify Ready v,
    set_data count_in (met_server ce se (sw_pid v) (sw_pid (client_named ce c cw)) (s\<lparr>cn_in_queue := [], cn_crypto := Some (r', k)\<rparr>)), 0)"
proof -
  let ?f = "rpc_frame (sv_crc se) d (client_handshake ce c cw)"
  let ?s = "s\<lparr>cn_in_queue := [], cn_in := ?f @ bytes_le 4, cn_crypto := Some (r', k)\<rparr>"
  let ?m = "met_server ce se (sw_pid v) (sw_pid (client_named ce c cw))"
  let ?s1 = "s\<lparr>cn_in_queue := [], cn_crypto := Some (r', k)\<rparr>"
  have h: "\<not> cn_error_flag s" "\<not> cn_stopparse s" using assms(2) by (simp_all add: healthy_def)
  have "parse_step se v ?s = Option.bind (own_packet se (td_out_packet_num d) (client_handshake ce c cw) v (?s\<lparr>cn_in := bytes_le 4\<rparr>))
    (\<lambda>(w, c, res). Some (if res < 0 then (w, fail_connection res c, Return 0) else (w, set_data count_in c, Again)))"
    by (rule server_own_frame) (use assms(2-12) h max_len[OF assms(1)] in \<open>auto simp: has_flag_def flag_simps\<close>)
  also have "\<dots> = Some (notify Ready v, set_data count_in (?m (?s1\<lparr>cn_in := bytes_le 4\<rparr>)), Again)"
    unfolding assms(12) using server_takes_handshake[OF assms(1), of "?s\<lparr>cn_in := bytes_le 4\<rparr>" v c cw] assms(9,10,13,14) by simp
  finally have st: "parse_step se v ?s = Some (notify Ready v, set_data count_in (?m (?s1\<lparr>cn_in := bytes_le 4\<rparr>)), Again)" .
  have ca: "(set_data count_in (?m (?s1\<lparr>cn_in := bytes_le 4\<rparr>)))\<lparr>cn_in := []\<rparr> = set_data count_in (?m ?s1)"
    using assms(4) by (simp add: met_server_def)
  have "tcp_rpcs_parse_execute se v ?s = Some (notify Ready v, (set_data count_in (?m (?s1\<lparr>cn_in := bytes_le 4\<rparr>)))\<lparr>cn_in := []\<rparr>, NEED_MORE_BYTES)"
    by (rule server_parses_padded[OF st]) (use h max_len[OF assms(1)] in \<open>auto simp: met_server_def count_in_def has_flag_def flag_simps\<close>)
  then have "tcp_rpcs_parse_execute se v ?s = Some (notify Ready v, set_data count_in (?m ?s1), NEED_MORE_BYTES)" unfolding ca .
  note ex = this
  show ?thesis
    unfolding server_ops_def
    by (rule reader_cipher[where parse = "tcp_rpcs_parse_execute se" and dec = dec, OF assms(2-8) _ ex]) simp_all
qed

text \<open>The client reads the server's.\<close>

lemma client_reads_handshake:
  assumes "peers_fit ce se" "healthy c" "cn_crypto c = Some (r, k)" "cn_in c = []" "cn_in_u c = []" "cn_in_queue c = [e]" "length e = 48"
    "dec r e = (rpc_frame (sv_crc se) d (server_handshake ce se own (sw_pid w)) @ bytes_le 4, r')"
    "td_in_packet_num (cn_data c) = -1" "td_crypto_flags (cn_data c) = 18" "td_crc32c (cn_data c) = td_crc32c d" "td_out_packet_num d = -1"
    "pid_ip own \<noteq> 0" "matches_pid own (td_remote_pid (cn_data c)) \<noteq> 0"
  shows "cpu_tcp_server_reader (client_ops ce enc dec) (w, x) c = Some ((notify Ready w, x),
    met_client ce se own (set_data count_in (c\<lparr>cn_in_queue := [], cn_crypto := Some (r', k)\<rparr>)), 0)"
proof -
  let ?f = "rpc_frame (cl_crc ce) d (server_handshake ce se own (sw_pid w))"
  let ?c = "c\<lparr>cn_in_queue := [], cn_in := ?f @ bytes_le 4, cn_crypto := Some (r', k)\<rparr>"
  let ?c1 = "c\<lparr>cn_in_queue := [], cn_crypto := Some (r', k)\<rparr>"
  have crc: "cl_crc ce = sv_crc se" using fit[OF assms(1)] by blast
  have "client_parse_step ce w x ?c = Option.bind (client_own_packet ce (td_out_packet_num d) (server_handshake ce se own (sw_pid w)) w x
      (set_data count_in (?c\<lparr>cn_in := bytes_le 4\<rparr>)))
    (\<lambda>(w, x, c, res). Some (if res < 0 then (w, x, fail_connection res c, Return 0) else (w, x, c, Again)))"
    by (rule client_own_frame) (use assms(2-12) max_len[OF assms(1)] in auto)
  also have "\<dots> = Some (notify Ready w, x, met_client ce se own (set_data count_in (?c1\<lparr>cn_in := bytes_le 4\<rparr>)), Again)"
    unfolding assms(12) using client_takes_handshake[OF assms(1), of "set_data count_in (?c\<lparr>cn_in := bytes_le 4\<rparr>)" own w x] assms(9,10,13,14)
    by (simp add: count_in_def)
  finally have st: "client_parse_step ce w x ?c = Some (notify Ready w, x, met_client ce se own (set_data count_in (?c1\<lparr>cn_in := bytes_le 4\<rparr>)), Again)" .
  have ca: "(met_client ce se own (set_data count_in (?c1\<lparr>cn_in := bytes_le 4\<rparr>)))\<lparr>cn_in := []\<rparr> = met_client ce se own (set_data count_in ?c1)"
    using assms(4) by (simp add: met_client_def)
  have "tcp_rpcc_parse_execute ce w x ?c = Some (notify Ready w, x, (met_client ce se own (set_data count_in (?c1\<lparr>cn_in := bytes_le 4\<rparr>)))\<lparr>cn_in := []\<rparr>, 0)"
    by (rule client_parses_padded[OF st]) (use max_len[OF assms(1)] in \<open>simp_all add: met_client_def\<close>)
  then have ex: "client_parse ce (w, x) ?c
      = Some ((notify Ready w, x), met_client ce se own (set_data count_in ?c1), 0)" unfolding ca by (simp add: client_parse_def)
  show ?thesis
    unfolding client_ops_def
    by (rule reader_cipher[where parse = "client_parse ce" and dec = dec, OF assms(2-7) assms(8)[folded crc] _ ex]) (simp_all add: met_client_def assms(4))
qed

section \<open>The whole handshake\<close>

text \<open>What one end has sent comes to the other.\<close>

definition deliver :: "'k conn \<Rightarrow> 'k conn \<Rightarrow> 'k conn \<times> 'k conn" where
  "deliver a b = (a\<lparr>cn_sent := []\<rparr>, b\<lparr>cn_in_queue := cn_in_queue b @ cn_sent a\<rparr>)"

type_synonym ('w, 'v, 'k) ends = "('w srv \<times> local_conn) \<times> 'k conn \<times> 'v srv \<times> 'k conn"

text \<open>Both ends are set up and the client is connected; the nonce packets go to and fro.\<close>

definition exchange_nonces ::
    "('w, 'k) clt_env \<Rightarrow> ('v, 'k) srv_env \<Rightarrow> ('k \<Rightarrow> byte list \<Rightarrow> byte list \<times> 'k) \<Rightarrow> ('k \<Rightarrow> byte list \<Rightarrow> byte list \<times> 'k) \<Rightarrow>
     ('w, 'v, 'k) ends \<Rightarrow> ('w, 'v, 'k) ends option" where
  "exchange_nonces ce se enc dec = (\<lambda>((w, x), c, v, s). do {
     let (w, x, c, r) = tcp_rpcc_init_outbound ce w x c;
     let (s, r) = tcp_rpcs_init_accepted se s;
     (w, x, c, r) \<leftarrow> tcp_rpcc_connected ce (tcp_rpc_flush cpu_tcp_aes_crypto_needed_output_bytes) w x c;
     (wx, c) \<leftarrow> cpu_tcp_server_writer (client_ops ce enc dec) (w, x) c;
     let (c, s) = deliver c s;
     (v, s, r) \<leftarrow> cpu_tcp_server_reader (server_ops se enc dec) v s;
     let (s, c) = deliver s c;
     (wx, c, r) \<leftarrow> cpu_tcp_server_reader (client_ops ce enc dec) wx c;
     Some (wx, c, v, s)
   })"

text \<open>The handshake packets go to and fro.\<close>

definition exchange_handshakes ::
    "('w, 'k) clt_env \<Rightarrow> ('v, 'k) srv_env \<Rightarrow> ('k \<Rightarrow> byte list \<Rightarrow> byte list \<times> 'k) \<Rightarrow> ('k \<Rightarrow> byte list \<Rightarrow> byte list \<times> 'k) \<Rightarrow>
     ('w, 'v, 'k) ends \<Rightarrow> ('w, 'v, 'k) ends option" where
  "exchange_handshakes ce se enc dec = (\<lambda>(wx, c, v, s). do {
     (wx, c) \<leftarrow> cpu_tcp_server_writer (client_ops ce enc dec) wx c;
     let (c, s) = deliver c s;
     (v, s, r) \<leftarrow> cpu_tcp_server_reader (server_ops se enc dec) v s;
     (v, s) \<leftarrow> cpu_tcp_server_writer (server_ops se enc dec) v s;
     let (s, c) = deliver s c;
     (wx, c, r) \<leftarrow> cpu_tcp_server_reader (client_ops ce enc dec) wx c;
     Some (wx, c, v, s)
   })"

definition idle :: "'k conn \<Rightarrow> bool" where
  "idle c \<longleftrightarrow> healthy c \<and> cn_in_queue c = [] \<and> cn_out_queue c = [] \<and> cn_in c = [] \<and> cn_in_u c = [] \<and> cn_out c = [] \<and> cn_out_p c = [] \<and> cn_sent c = []"

text \<open>The ends after the nonce packets.\<close>

definition keyed_ends ::
    "('w, 'k) clt_env \<Rightarrow> ('v, 'k) srv_env \<Rightarrow> 'k \<times> 'k \<Rightarrow> 'k \<times> 'k \<Rightarrow> process_id \<Rightarrow> process_id \<Rightarrow> ('w, 'v, 'k) ends \<Rightarrow> bool" where
  "keyed_ends ce se ck sk pid remote = (\<lambda>((w, x), c, v, s).
     healthy c \<and> cn_crypto c = Some ck \<and> (\<exists>c0 w0. cn_out_queue c = [client_handshake ce c0 w0] \<and> with_remote c0 = remote
       \<and> sw_pid (client_named ce c0 w0) = sw_pid w)
     \<and> cn_in_queue c = [] \<and> cn_in c = [] \<and> cn_in_u c = [] \<and> cn_out c = [] \<and> cn_out_p c = [] \<and> cn_sent c = []
     \<and> td_in_packet_num (cn_data c) = -1 \<and> td_out_packet_num (cn_data c) = -1 \<and> td_crypto_flags (cn_data c) = 18 \<and> \<not> td_crc32c (cn_data c)
     \<and> td_remote_pid (cn_data c) = remote
     \<and> idle s \<and> cn_crypto s = Some sk \<and> td_in_packet_num (cn_data s) = -1 \<and> td_out_packet_num (cn_data s) = -1
     \<and> td_crypto_flags (cn_data s) = 18 \<and> \<not> td_crc32c (cn_data s) \<and> sw_pid v = pid)"

lemma nonces_exchanged:
  assumes "peers_fit ce se" "idle c" "idle s" "cn_crypto c = None" "cn_crypto s = None"
    "cl_keys ce (sv_nonce se) (cl_nonce ce) (of_int (cl_now ce)) [] = Some ck"
    "sv_keys se (sv_nonce se) (cl_nonce ce) (of_int (cl_now ce)) [] = Some sk"
  shows "\<exists>e. exchange_nonces ce se enc dec ((w, x), c, v, s) = Some e \<and> keyed_ends ce se ck sk (sw_pid v) (with_remote c) e"
proof -
  note c = assms(2)[unfolded idle_def] and s = assms(3)[unfolded idle_def]
  obtain x1 c1 x2 sel where out: "tcp_rpcc_init_outbound ce w x c = (w, x1, c1, 0)"
    "tcp_rpcc_connected ce (tcp_rpc_flush cpu_tcp_aes_crypto_needed_output_bytes) w x1 c1 = Some (w\<lparr>sw_dh_select := sel\<rparr>, x2, connecting_client ce c, 0)"
    using client_connects[OF fit_client[OF assms(1)] assms(4), of w x] by (metis prod.collapse fst_conv snd_conv)
  let ?w = "w\<lparr>sw_dh_select := sel\<rparr>"
  have crc: "cl_crc ce = sv_crc se" using fit[OF assms(1)] by blast
  define cA where "cA = connecting_client ce c"
  have A: "healthy cA" "cn_crypto cA = None" "cn_out_queue cA = [client_nonce ce]" "cn_out cA = []" "cn_sent cA = []"
    "td_out_packet_num (cn_data cA) = -2" "\<not> td_crc32c (cn_data cA)" "with_remote cA = with_remote c"
    using c assms(4) by (simp_all add: cA_def connecting_client_def healthy_def with_remote_def Let_def)
  let ?F1 = "rpc_frame (sv_crc se) (cn_data cA) (client_nonce ce)"
  let ?cB = "(set_data count_out cA)\<lparr>cn_out_queue := [], cn_sent := [?F1]\<rparr>"
  have wr: "cpu_tcp_server_writer (client_ops ce enc dec) (?w, x2) cA = Some ((?w, x2), ?cB)"
    unfolding client_ops_def crc using writer_plain[OF A(1-4), of "client_parse ce" "sv_crc se" enc dec "(?w, x2)"] A(5) by simp
  let ?s1 = "(fresh_server s)\<lparr>cn_in_queue := [?F1]\<rparr>"
  let ?s2 = "set_data count_in (keyed_server se sk (?s1\<lparr>cn_in_queue := []\<rparr>))"
  have rd: "cpu_tcp_server_reader (server_ops se enc dec) v ?s1 = Some (v, ?s2, 0)"
    by (rule server_reads_nonce[OF assms(1)]) (use s assms(5,7) A(6,7) in \<open>simp_all add: fresh_server_def healthy_def\<close>)
  let ?F2 = "rpc_frame (sv_crc se) (cn_data (fresh_server s)) (server_nonce se)"
  have sent: "cn_sent ?s2 = [?F2]" using s by (simp add: keyed_server_def fresh_server_def)
  let ?cC = "?cB\<lparr>cn_sent := [], cn_in_queue := [?F2]\<rparr>"
  let ?cE = "keyed_client ce ck ?w (set_data count_in (?cC\<lparr>cn_in_queue := []\<rparr>))"
  have rd2: "cpu_tcp_server_reader (client_ops ce enc dec) (?w, x2) ?cC
      = Some ((client_named ce ?cC ?w, x2\<lparr>lc_crypto_temp := None\<rparr>), ?cE, 0)"
    by (rule client_reads_nonce[OF assms(1), where d = "cn_data (fresh_server s)"])
      (use c assms(6) A in \<open>simp_all add: cA_def connecting_client_def healthy_def fresh_server_def count_out_def assms(4)\<close>)
  have "exchange_nonces ce se enc dec ((w, x), c, v, s)
      = Some ((client_named ce ?cC ?w, x2\<lparr>lc_crypto_temp := None\<rparr>), ?cE, v, ?s2\<lparr>cn_sent := []\<rparr>)"
  proof -
    have q: "cn_in_queue (fresh_server s) = []" "cn_in_queue ?cB = []" using s c
      by (simp_all add: fresh_server_def cA_def connecting_client_def)
    show ?thesis
      unfolding exchange_nonces_def prod.case Let_def out(1) server_accepts[OF assms(1)] out(2)[folded cA_def, THEN bind_Some] wr[THEN bind_Some]
        deliver_def
      using rd rd2 sent q by simp
  qed
  moreover have "keyed_ends ce se ck sk (sw_pid v) (with_remote c)
      ((client_named ce ?cC ?w, x2\<lparr>lc_crypto_temp := None\<rparr>), ?cE, v, ?s2\<lparr>cn_sent := []\<rparr>)"
  proof -
    let ?c0 = "set_data count_in (?cC\<lparr>cn_in_queue := []\<rparr>)"
    have "with_remote ?c0 = with_remote cA" by (simp add: with_remote_def count_in_def count_out_def Let_def)
    then have r: "with_remote ?c0 = with_remote c" using A(8) by simp
    have n: "sw_pid (client_named ce ?c0 ?w) = sw_pid (client_named ce ?cC ?w)" by (simp add: client_named_def)
    have "cn_out_queue ?cE = [client_handshake ce ?c0 ?w]" by (simp add: keyed_client_def)
    moreover have "idle (?s2\<lparr>cn_sent := []\<rparr>)" using s by (simp add: idle_def keyed_server_def fresh_server_def healthy_def count_in_def)
    ultimately show ?thesis
      unfolding keyed_ends_def prod.case using r n c
      by (intro conjI exI[of _ ?c0] exI[of _ ?w])
        (simp_all add: keyed_client_def healthy_def cA_def connecting_client_def count_in_def count_out_def keyed_server_def fresh_server_def)
  qed
  ultimately show ?thesis by blast
qed

text \<open>What holds at the end: both ends are ready, nothing is on the way, and all that the packets depend on agrees.\<close>

definition in_session ::
    "('w, 'k) clt_env \<Rightarrow> ('v, 'k) srv_env \<Rightarrow> ('k \<Rightarrow> 'k \<Rightarrow> bool) \<Rightarrow> ('w, 'v, 'k) ends \<Rightarrow> bool" where
  "in_session ce se paired = (\<lambda>((w, x), c, v, s).
     idle c \<and> idle s \<and> Ready \<in> set (sw_notifications w) \<and> Ready \<in> set (sw_notifications v)
     \<and> td_in_packet_num (cn_data c) = 0 \<and> td_out_packet_num (cn_data c) = 0 \<and> td_in_packet_num (cn_data s) = 0 \<and> td_out_packet_num (cn_data s) = 0
     \<and> td_crc32c (cn_data c) = both_crc32c ce se \<and> td_crc32c (cn_data s) = both_crc32c ce se
     \<and> td_remote_pid (cn_data c) = sw_pid v \<and> td_remote_pid (cn_data s) = sw_pid w
     \<and> (\<exists>cr cw sr sw. cn_crypto c = Some (cr, cw) \<and> cn_crypto s = Some (sr, sw) \<and> paired cw sr \<and> paired sw cr))"

lemma handshakes_exchanged:
  assumes "peers_fit ce se" "cipher_pair enc dec paired" "paired cw sr" "paired sw cr"
    "keyed_ends ce se (cr, cw) (sr, sw) (sw_pid v) remote ((w, x), c, v, s)" "pid_ip (sw_pid v) \<noteq> 0" "matches_pid (sw_pid v) remote \<noteq> 0"
  shows "\<exists>e. exchange_handshakes ce se enc dec ((w, x), c, v, s) = Some e \<and> in_session ce se paired e"
proof -
  note k = assms(5)[unfolded keyed_ends_def prod.case]
  obtain c0 w0 where q: "cn_out_queue c = [client_handshake ce c0 w0]" "with_remote c0 = remote" "sw_pid (client_named ce c0 w0) = sw_pid w"
    using k by blast
  have crc: "cl_crc ce = sv_crc se" using fit[OF assms(1)] by blast
  have kc: "healthy c" "cn_crypto c = Some (cr, cw)" "cn_in_queue c = []" "cn_in c = []" "cn_in_u c = []" "cn_out c = []" "cn_out_p c = []"
    "cn_sent c = []" "td_in_packet_num (cn_data c) = -1" "td_out_packet_num (cn_data c) = -1" "td_crypto_flags (cn_data c) = 18"
    "\<not> td_crc32c (cn_data c)" "td_remote_pid (cn_data c) = remote" and si: "idle s" and ks: "cn_crypto s = Some (sr, sw)"
    "td_in_packet_num (cn_data s) = -1" "td_out_packet_num (cn_data s) = -1" "td_crypto_flags (cn_data s) = 18" "\<not> td_crc32c (cn_data s)"
    using k by blast+
  note kf = kc ks si[unfolded idle_def healthy_def] kc(1)[unfolded healthy_def]
  have hs: "healthy s" using si by (simp add: idle_def)
  let ?f3 = "rpc_frame (sv_crc se) (cn_data c) (client_handshake ce c0 w0)"
  let ?d3 = "?f3 @ bytes_le 4"
  have l3: "length ?d3 mod 16 = 0" "length ?d3 = 48" by simp_all
  note p3 = cipher_pairD[OF assms(2,3) l3(1), unfolded l3(2)]
  define e3 where "e3 = fst (enc cw ?d3)"
  define cw' where "cw' = snd (enc cw ?d3)"
  define sr' where "sr' = snd (dec sr e3)"
  have e3: "length e3 = 48" "dec sr e3 = (?d3, sr')" "paired cw' sr'" using p3 by (simp_all add: e3_def cw'_def sr'_def)
  let ?cF = "(set_data count_out c)\<lparr>cn_out_queue := [], cn_crypto := Some (cr, cw'), cn_sent := [e3]\<rparr>"
  have wr: "cpu_tcp_server_writer (client_ops ce enc dec) (w, x) c = Some ((w, x), ?cF)"
    unfolding client_ops_def crc e3_def cw'_def
    using queued_32_is_written[of c cr cw "client_handshake ce c0 w0" ?d3 "sv_crc se" enc "client_parse ce" dec "(w, x)"] k q p3(1) by simp
  let ?s4 = "s\<lparr>cn_in_queue := [e3]\<rparr>"
  let ?s5 = "set_data count_in (met_server ce se (sw_pid v) (sw_pid w) (?s4\<lparr>cn_in_queue := [], cn_crypto := Some (sr', sw)\<rparr>))"
  have rd: "cpu_tcp_server_reader (server_ops se enc dec) v ?s4 = Some (notify Ready v, ?s5, 0)"
    unfolding q(3)[symmetric]
    by (rule server_reads_handshake[OF assms(1), where d = "cn_data c" and r = sr and e = e3])
      (use k hs e3 q(2) assms(6,7) in \<open>simp_all add: idle_def healthy_def\<close>)
  let ?f4 = "rpc_frame (sv_crc se) (cn_data s) (server_handshake ce se (sw_pid v) (sw_pid w))"
  let ?d4 = "?f4 @ bytes_le 4"
  have l4: "length ?d4 mod 16 = 0" "length ?d4 = 48" by simp_all
  note p4 = cipher_pairD[OF assms(2,4) l4(1), unfolded l4(2)]
  define e4 where "e4 = fst (enc sw ?d4)"
  define sw' where "sw' = snd (enc sw ?d4)"
  define cr' where "cr' = snd (dec cr e4)"
  have e4: "length e4 = 48" "dec cr e4 = (?d4, cr')" "paired sw' cr'" using p4 by (simp_all add: e4_def sw'_def cr'_def)
  have s5: "healthy ?s5" "cn_crypto ?s5 = Some (sr', sw)" "cn_out_queue ?s5 = []" "cn_out ?s5 = ?f4" "cn_out_p ?s5 = []" "cn_sent ?s5 = []"
    using k by (simp_all add: met_server_def healthy_def idle_def count_in_def)
  let ?s6 = "?s5\<lparr>cn_out := [], cn_crypto := Some (sr', sw'), cn_sent := [e4]\<rparr>"
  have wr2: "cpu_tcp_server_writer (server_ops se enc dec) (notify Ready v) ?s5 = Some (notify Ready v, ?s6)"
  proof -
    have d4: "?d4 = cn_out ?s5 @ bytes_le 4" by (simp only: s5(4))
    have "length (cn_out ?s5) = 44" unfolding s5(4) by simp
    note b = buffered_44_is_written[OF s5(1-3) this s5(5) d4, of enc, folded e4_def sw'_def, OF e4(1), unfolded s5(6) append_Nil]
    show ?thesis unfolding server_ops_def by (rule b)
  qed
  let ?cG = "?cF\<lparr>cn_sent := [], cn_in_queue := [e4]\<rparr>"
  let ?cH = "met_client ce se (sw_pid v) (set_data count_in (?cG\<lparr>cn_in_queue := [], cn_crypto := Some (cr', cw')\<rparr>))"
  have rd2: "cpu_tcp_server_reader (client_ops ce enc dec) (w, x) ?cG = Some ((notify Ready w, x), ?cH, 0)"
    by (rule client_reads_handshake[OF assms(1), where d = "cn_data s" and r = cr and e = e4])
      (use k e4 assms(6,7) in \<open>simp_all add: healthy_def count_out_def\<close>)
  have "exchange_handshakes ce se enc dec ((w, x), c, v, s) = Some ((notify Ready w, x), ?cH, notify Ready v, ?s6\<lparr>cn_sent := []\<rparr>)"
  proof -
    have q: "cn_in_queue s = []" "cn_in_queue ?cF = []" using k by (simp_all add: idle_def)
    show ?thesis
      unfolding exchange_handshakes_def prod.case wr[THEN bind_Some] deliver_def Let_def
      using rd wr2 rd2 q by simp
  qed
  moreover have ex: "\<exists>cr cw sr sw. cn_crypto ?cH = Some (cr, cw) \<and> cn_crypto (?s6\<lparr>cn_sent := []\<rparr>) = Some (sr, sw) \<and> paired cw sr \<and> paired sw cr"
    by (rule exI[of _ cr'], rule exI[of _ cw'], rule exI[of _ sr'], rule exI[of _ sw']) (simp add: met_client_def e3(3) e4(3))
  moreover have "in_session ce se paired ((notify Ready w, x), ?cH, notify Ready v, ?s6\<lparr>cn_sent := []\<rparr>)"
    unfolding in_session_def prod.case
    by (intro conjI ex) (simp_all add: kf idle_def healthy_def met_client_def met_server_def count_in_def count_out_def)
  ultimately show ?thesis by blast
qed

section \<open>Properties\<close>

text \<open>The addresses of the two ends agree, as the rules for address translation see them.\<close>

definition addresses_agree :: "nat_rules \<Rightarrow> nat_rules \<Rightarrow> byte list \<Rightarrow> byte list \<Rightarrow> 'k conn \<Rightarrow> 'k conn \<Rightarrow> bool" where
  "addresses_agree rules1 rules2 client6 server6 c s \<longleftrightarrow>
     nat_translate_ip rules1 (cn_remote_ip c) = nat_translate_ip rules2 (cn_our_ip s) \<and>
     nat_translate_ip rules1 (cn_our_ip c) = nat_translate_ip rules2 (cn_remote_ip s) \<and>
     (nat_translate_ip rules1 (cn_remote_ip c) = 0) = (nat_translate_ip rules1 (cn_our_ip c) = 0) \<and>
     cn_remote_port c = cn_our_port s \<and> cn_our_port c = cn_remote_port s \<and>
     cn_remote_ipv6 c = server6 \<and> cn_remote_ipv6 s = client6 \<and> length client6 = 16 \<and> length server6 = 16"

lemma session_keys:
  assumes "addresses_agree rules1 rules2 client6 server6 c s" "length stack1 = KEY_STRING_SIZE" "length stack2 = KEY_STRING_SIZE"
    "MIN_PWD_LEN \<le> length secret" "length secret \<le> MAX_PWD_LEN" "length ns = 16" "length nc = 16" "length t \<le> KEY_STRING_SIZE"
  shows "\<exists>k. rpcc_keys sha1 evp stack1 rules1 client6 secret c ns nc ts t = Some (aes_crypto_init evp k)
    \<and> rpcs_keys sha1 evp stack2 rules2 server6 secret s ns nc ts t = Some (aes_crypto_init evp (mirrored k))"
proof -
  note a = assms(1)[unfolded addresses_agree_def]
  have l: "length server6 = 16" "length client6 = 16" and
    z: "(nat_translate_ip rules1 (cn_remote_ip c) = 0) = (nat_translate_ip rules1 (cn_our_ip c) = 0)" using a by blast+
  let ?sip = "nat_translate_ip rules1 (cn_remote_ip c)" and ?cip = "nat_translate_ip rules1 (cn_our_ip c)"
  let ?sport = "of_int (cn_remote_port c)" and ?cport = "of_int (cn_our_port c)"
  let ?A = "mix_in (key_string False ns nc ts ?sip ?sport server6 ?cip ?cport client6 secret) t"
  let ?B = "mix_in (key_string True ns nc ts ?sip ?sport server6 ?cip ?cport client6 secret) t"
  note k = create_keys_closed[OF assms(6,7) l _ assms(4,5) z assms(8)]
  have 1: "aes_create_keys sha1 stack1 True ns nc ts ?sip ?sport server6 ?cip ?cport client6 secret t = Some (Some (keys_of sha1 ?A ?B))"
    using k[OF assms(2), of sha1 True] by simp
  have 2: "aes_create_keys sha1 stack2 False ns nc ts ?sip ?sport server6 ?cip ?cport client6 secret t = Some (Some (mirrored (keys_of sha1 ?A ?B)))"
    using k[OF assms(3), of sha1 False] by (simp add: mirrored_def keys_of_def)
  have s: "nat_translate_ip rules2 (cn_our_ip s) = ?sip" "nat_translate_ip rules2 (cn_remote_ip s) = ?cip" "cn_our_port s = cn_remote_port c"
    "cn_remote_port s = cn_our_port c" "cn_remote_ipv6 c = server6" "cn_remote_ipv6 s = client6" using a by auto
  show ?thesis
    by (rule exI[of _ "keys_of sha1 ?A ?B"]) (simp only: rpcc_keys_def rpcs_keys_def s 1 2 option.case simp_thms)
qed

text \<open>
  C6. Client and server of the inner protocol meet, if the server has the option \<open>allow-skip-dh\<close>.  It is not a
  default option, and without it they never do (\<open>defaults_never_meet\<close>).  The conditions (\<open>peers_fit\<close> and the
  premises): the default functions for permissions on both sides, with no other option than CRC32-C; the
  same secret of 32 to 256 bytes, with the same signature, which is not 0; clocks at most thirty
  seconds apart; no limit on packets below 44 bytes; addresses that agree after translation; the
  server knows its process identifier, and it matches the one the client expects; working ends
  without anything in their buffers.  Then two such ends of this code complete the handshake from the first byte to
  the last: after two rounds through their writers, readers, parsers and ciphers both are ready, know each
  other's process, use the same checksum and the same packet numbers, and each reads with the cipher
  state with which the other writes.
\<close>

theorem handshake_completes:
  assumes "peers_fit ce se" "cipher_pair enc dec paired" "\<forall>key iv. paired (evp True key iv) (evp False key iv)"
    "idle c" "idle s" "cn_crypto c = None" "cn_crypto s = None" "addresses_agree rules1 rules2 client6 server6 c s"
    "cl_keys ce = rpcc_keys sha1 evp stack1 rules1 client6 secret c" "sv_keys se = rpcs_keys sha1 evp stack2 rules2 server6 secret s"
    "length stack1 = KEY_STRING_SIZE" "length stack2 = KEY_STRING_SIZE" "MIN_PWD_LEN \<le> length secret" "length secret \<le> MAX_PWD_LEN"
    "pid_ip (sw_pid v) \<noteq> 0" "matches_pid (sw_pid v) (with_remote c) \<noteq> 0"
  shows "\<exists>e. Option.bind (exchange_nonces ce se enc dec ((w, x), c, v, s)) (exchange_handshakes ce se enc dec) = Some e
    \<and> in_session ce se paired e"
proof -
  have "length (sv_nonce se) = 16" "length (cl_nonce ce) = 16" using fit[OF assms(1)] by blast+
  from session_keys[OF assms(8,11-14) this, of "[]" sha1 evp "of_int (cl_now ce)"]
  obtain k where k: "cl_keys ce (sv_nonce se) (cl_nonce ce) (of_int (cl_now ce)) [] = Some (aes_crypto_init evp k)"
    "sv_keys se (sv_nonce se) (cl_nonce ce) (of_int (cl_now ce)) [] = Some (aes_crypto_init evp (mirrored k))"
    unfolding assms(9,10) by auto
  obtain w1 x1 c1 v1 s1 where e: "exchange_nonces ce se enc dec ((w, x), c, v, s) = Some ((w1, x1), c1, v1, s1)"
    "keyed_ends ce se (aes_crypto_init evp k) (aes_crypto_init evp (mirrored k)) (sw_pid v) (with_remote c) ((w1, x1), c1, v1, s1)"
    using nonces_exchanged[OF assms(1,4-7) k, of enc dec w x v] by (metis surj_pair)
  have v: "sw_pid v1 = sw_pid v" using e(2) by (simp add: keyed_ends_def)
  have "\<exists>e. exchange_handshakes ce se enc dec ((w1, x1), c1, v1, s1) = Some e \<and> in_session ce se paired e"
    by (rule handshakes_exchanged[OF assms(1,2) _ _ e(2)[unfolded v[symmetric] aes_crypto_init_def]])
      (use assms(3,15,16) v in \<open>simp_all add: mirrored_def\<close>)
  then show ?thesis using e(1) by simp
qed

text \<open>
  C40. Two ends with default options never meet.  By default the server asks for Diffie-Hellman, while the
  client offers it only if the default flags say so; no option puts that flag there, since
  \<open>tcp_force_enable_dh\<close> (the option \<open>force-dh\<close>) sets a variable that nothing reads.  So the server refuses the
  nonce packet of every client of this code, unless it runs with \<open>allow-skip-dh\<close>.
\<close>

theorem defaults_never_meet:
  assumes "client_fit ce" "cn_crypto c = None" "cn_out_queue c = []" "cn_crypto s = None"
    "sv_check_perm se = Some (tcp_rpcs_default_check_perm (sv_default_flags se))" "sv_default_flags se \<in> {0, RPCF_USE_CRC32C}"
    "4 \<le> sv_secret_len se" "cl_key_signature ce = sv_key_signature se" "sv_key_signature se \<noteq> 0" "\<bar>cl_now ce - sv_now se\<bar> \<le> 30"
  shows "\<exists>x1 c1 w2 x2 c2 P s2. tcp_rpcc_init_outbound ce w x c = (w, x1, c1, 0)
    \<and> tcp_rpcc_connected ce (tcp_rpc_flush needed) w x1 c1 = Some (w2, x2, c2, 0) \<and> cn_out_queue c2 = [P]
    \<and> tcp_rpcs_process_nonce_packet se P v (fst (tcp_rpcs_init_accepted se s)) = Some (v, s2, -7)"
proof -
  note f = assms(1)[unfolded client_fit_def]
  obtain x1 c1 x2 sel where out: "tcp_rpcc_init_outbound ce w x c = (w, x1, c1, 0)"
    "tcp_rpcc_connected ce (tcp_rpc_flush needed) w x1 c1 = Some (w\<lparr>sw_dh_select := sel\<rparr>, x2, connecting_client ce c, 0)"
    using client_connects[OF assms(1,2), of w x needed] by (metis prod.collapse fst_conv snd_conv)
  have q: "cn_out_queue (connecting_client ce c) = [client_nonce ce]" by (simp add: connecting_client_def assms(3))
  have "length (cl_nonce ce) = 16" using f by blast
  note P = nonce_fields[OF client_nonce_def this]
  have now: "sint (of_int (cl_now ce) :: u32) = cl_now ce" using f by (intro sint_of_int_u32) auto
  have ts: "\<not> 30 < c_abs (i32 (cl_now ce - sv_now se))" using near[OF assms(10)] by simp
  let ?s = "fst (tcp_rpcs_init_accepted se s)"
  have s: "td_in_packet_num (cn_data ?s) = -2" "td_crypto_flags (cn_data ?s) = 6"
    using assms(5,6) by (auto simp: tcp_rpcs_init_accepted_def Let_def tcp_rpcs_default_check_perm_def has_flag_def flag_simps)
  have ch: "choose_crypto se sel 6 nt (client_nonce ce) = Some (Inr (6, sv_key_signature se, sv_now se, False))" for sel nt
    by (simp add: choose_crypto_def P best_key[OF assms(7)] assms(8,9) now ts has_flag_def flag_simps)
  have "\<exists>s2. tcp_rpcs_process_nonce_packet se (client_nonce ce) v ?s = Some (v, s2, -7)"
    by (simp add: tcp_rpcs_process_nonce_packet_def P Let_def s ch has_flag_def flag_simps)
  then show ?thesis using out q by blast
qed

section \<open>Two concrete ends\<close>

text \<open>A cipher that adds the first byte of its initial vector.\<close>

definition example_cipher :: "byte list \<Rightarrow> byte list \<Rightarrow> byte list \<times> byte list" where
  "example_cipher k d = (map (\<lambda>b. b XOR hd k) d, k)"

definition example_client_conn :: "byte list conn" where
  "example_client_conn = (new_conn Kind_Rpc_Client 50000)\<lparr>cn_our_ip := 0x0a000001, cn_remote_ip := 0x0b000002, cn_remote_port := 8888\<rparr>"

definition example_server_conn :: "byte list conn" where
  "example_server_conn = (new_conn Kind_Rpc_Server 8888)\<lparr>cn_our_ip := 0x0b000002, cn_remote_ip := 0x0c000003, cn_remote_port := 50000\<rparr>"

text \<open>The client is behind an address translation.\<close>

definition example_rules :: nat_rules where
  "example_rules = [(0x0a000001, 0x0c000003)]"

definition example_peer_keys :: "byte list \<Rightarrow> byte list" where
  "example_peer_keys m = replicate 20 (hd m)"

definition example_client_env :: "(unit, byte list) clt_env" where
  "example_client_env = \<lparr>cl_crc = (\<lambda>c d. if c then 1 else 0), cl_now = 990, cl_precise_now = 990, cl_getpid = 5, cl_secret_len = 32,
     cl_key_signature = 0x07070707, cl_dh_init = init_dh_params RPC_PARAM_HASH, cl_dh_prime = [], cl_mod_exp = (\<lambda>_ _. []), cl_rands = [],
     cl_nonce = replicate 16 2,
     cl_keys = rpcc_keys example_peer_keys (\<lambda>_ _ iv. iv) (replicate 634 0) example_rules (replicate 16 0) (replicate 32 7) example_client_conn,
     cl_check_perm = Some (tcp_rpcc_default_check_perm RPCF_USE_CRC32C), cl_default_flags = RPCF_USE_CRC32C, cl_ignore_pid = False,
     cl_max_packet_len = 0, cl_has_ready = True, cl_execute = (\<lambda>_ _ w c. Some (w, c, 0))\<rparr>"

definition example_server_env :: "u32 \<Rightarrow> (unit, byte list) srv_env" where
  "example_server_env flags = \<lparr>sv_crc = (\<lambda>c d. if c then 1 else 0), sv_now = 1000, sv_precise_now = 0, sv_getpid = 77, sv_my_ipv4 = 5, sv_secret_len = 32,
     sv_key_signature = 0x07070707, sv_dh_init = 9, sv_dh_prime = [], sv_dh = (\<lambda>_. ([], [])), sv_nonce = replicate 16 3,
     sv_keys = rpcs_keys example_peer_keys (\<lambda>_ _ iv. iv) (replicate 634 9) [] (replicate 16 0) (replicate 32 7) example_server_conn,
     sv_check_perm = Some (tcp_rpcs_default_check_perm flags), sv_default_flags = flags, sv_ignore_pid = False, sv_max_packet_len = 0,
     sv_execute = (\<lambda>_ _ w c. Some (w, c, 0)), sv_http = None\<rparr>"

definition example_client_srv :: "unit srv" where
  "example_client_srv = \<lparr>sw_pid = zero_pid, sw_dh_select = 0, sw_dh_rate = \<lparr>dh_remaining = 0, dh_time = 0, dh_max = 0\<rparr>,
     sw_active_dh = 0, sw_notifications = [], sw_rest = ()\<rparr>"

definition example_local :: local_conn where
  "example_local = \<lparr>lc_crypto_temp = None, lc_last_query_sent = 0, lc_connecting = True, lc_ready = Cr_Notyet\<rparr>"

definition example_server_srv :: "unit srv" where
  "example_server_srv = example_client_srv\<lparr>sw_pid := \<lparr>pid_ip = 0x0b000002, pid_port = 8888, pid_pid = 1, pid_utime = 1\<rparr>\<rparr>"

lemma example_cipher_pair: "cipher_pair example_cipher example_cipher (=)"
  by (simp add: cipher_pair_def example_cipher_def comp_def xor.assoc)

lemma example_fit: "peers_fit example_client_env (example_server_env (RPCF_ALLOW_SKIP_DH OR RPCF_USE_CRC32C))" "client_fit example_client_env"
  by (simp_all add: peers_fit_def client_fit_def example_client_env_def example_server_env_def)

lemma example_idle: "idle example_client_conn" "idle example_server_conn" "cn_crypto example_client_conn = None" "cn_crypto example_server_conn = None"
  by (simp_all add: idle_def healthy_def example_client_conn_def example_server_conn_def new_conn_def zero_data_def)

theorem handshake_completes_witness:
  "\<exists>e. Option.bind (exchange_nonces example_client_env (example_server_env (RPCF_ALLOW_SKIP_DH OR RPCF_USE_CRC32C)) example_cipher example_cipher
        ((example_client_srv, example_local), example_client_conn, example_server_srv, example_server_conn))
      (exchange_handshakes example_client_env (example_server_env (RPCF_ALLOW_SKIP_DH OR RPCF_USE_CRC32C)) example_cipher example_cipher) = Some e
    \<and> in_session example_client_env (example_server_env (RPCF_ALLOW_SKIP_DH OR RPCF_USE_CRC32C)) (=) e"
proof (rule handshake_completes[OF example_fit(1) example_cipher_pair _ example_idle])
  show "addresses_agree example_rules [] (replicate 16 0) (replicate 16 0) example_client_conn example_server_conn"
    by (simp add: addresses_agree_def example_rules_def example_client_conn_def example_server_conn_def new_conn_def)
  show "cl_keys example_client_env = rpcc_keys example_peer_keys (\<lambda>_ _ iv. iv) (replicate 634 0) example_rules (replicate 16 0) (replicate 32 7) example_client_conn"
    "sv_keys (example_server_env (RPCF_ALLOW_SKIP_DH OR RPCF_USE_CRC32C))
      = rpcs_keys example_peer_keys (\<lambda>_ _ iv. iv) (replicate 634 9) [] (replicate 16 0) (replicate 32 7) example_server_conn"
    by (simp_all add: example_client_env_def example_server_env_def)
  show "matches_pid (sw_pid example_server_srv) (with_remote example_client_conn) \<noteq> 0"
    by (simp add: example_server_srv_def with_remote_def example_client_conn_def new_conn_def zero_data_def zero_pid_def matches_pid_def)
qed (simp_all add: KEY_STRING_SIZE_def MIN_PWD_LEN_def MAX_PWD_LEN_def example_server_srv_def)

theorem defaults_never_meet_witness:
  "\<exists>x1 c1 w2 x2 c2 P s2. tcp_rpcc_init_outbound example_client_env example_client_srv example_local example_client_conn = (example_client_srv, x1, c1, 0)
    \<and> tcp_rpcc_connected example_client_env (tcp_rpc_flush cpu_tcp_aes_crypto_needed_output_bytes) example_client_srv x1 c1 = Some (w2, x2, c2, 0)
    \<and> cn_out_queue c2 = [P]
    \<and> tcp_rpcs_process_nonce_packet (example_server_env 0) P example_server_srv (fst (tcp_rpcs_init_accepted (example_server_env 0) example_server_conn))
      = Some (example_server_srv, s2, -7)"
  by (rule defaults_never_meet[OF example_fit(2)])
    (use example_idle in \<open>simp_all add: example_server_env_def example_client_env_def idle_def\<close>)

end
