(* ===== verification/CRC_Algebra.thy ===== *)
theory CRC_Algebra
  imports MT_Prelude
begin

text \<open>
  The algebra behind the checksums: polynomials over two elements modulo a polynomial, as words whose
  highest bit is the constant term.  Multiplication by \<open>x\<close> is a linear map; every other map of
  \<open>common/crc32.c\<close> is made of it.
\<close>

section \<open>Linear maps on words\<close>

locale linear_map =
  fixes M :: "'a::len word \<Rightarrow> 'b::len word"
  assumes add: "M (a XOR b) = M a XOR M b"
begin

lemma zero [simp]: "M 0 = 0"
  using add[of 0 0] by simp

lemma of_if: "M (if P then a else 0) = (if P then M a else 0)"
  by simp

end

lemma linear_pow:
  fixes M :: "'a::len word \<Rightarrow> 'a word"
  assumes "linear_map M"
  shows "linear_map (M ^^ n)"
proof -
  have "(M ^^ n) (a XOR b) = (M ^^ n) a XOR (M ^^ n) b" for a b
    by (induction n) (simp_all add: linear_map.add[OF assms])
  then show ?thesis by unfold_locales
qed

section \<open>Sums over the bits of a word\<close>

definition unit_bit :: "nat \<Rightarrow> 'a::len word" where
  "unit_bit i = push_bit i 1"

lemma bit_unit_bit [simp]: "bit (unit_bit i :: 'a::len word) k \<longleftrightarrow> k = i \<and> k < LENGTH('a)"
  by (auto simp: unit_bit_def bit_simps)

fun xor_sum :: "nat \<Rightarrow> (nat \<Rightarrow> 'a::len word) \<Rightarrow> 'b::len word \<Rightarrow> 'a word" where
  "xor_sum 0 f v = 0"
| "xor_sum (Suc n) f v = xor_sum n f v XOR (if bit v n then f n else 0)"

lemma xor_sum_add: "xor_sum n f (u XOR v) = xor_sum n f u XOR xor_sum n f v"
  by (induction n) (auto simp: bit_xor_iff ac_simps)

lemma xor_sum_zero [simp]: "xor_sum n f 0 = 0"
  by (induction n) auto

lemma xor_sum_map: "linear_map M \<Longrightarrow> M (xor_sum n f v) = xor_sum n (\<lambda>i. M (f i)) v"
  by (induction n) (simp_all add: linear_map.add linear_map.zero)

lemma xor_sum_funs: "xor_sum n (\<lambda>i. f i XOR g i) v = xor_sum n f v XOR xor_sum n g v"
  by (induction n) (auto simp: ac_simps)

lemma xor_sum_cong: "(\<And>i. i < n \<Longrightarrow> f i = g i) \<Longrightarrow> xor_sum n f v = xor_sum n g v"
  by (induction n) auto

lemma xor_sum_unit: "j < n \<Longrightarrow> n \<le> LENGTH('b) \<Longrightarrow> xor_sum n f (unit_bit j :: 'b::len word) = f j"
proof (induction n)
  case (Suc n)
  have none: "m \<le> j \<Longrightarrow> xor_sum m f (unit_bit j :: 'b word) = 0" for m
    by (induction m) (auto simp: bit_simps)
  show ?case using Suc none[of n] by (cases "j = n") (auto simp: bit_simps)
qed simp

lemma bit_xor_sum_units: "bit (xor_sum n (\<lambda>i. unit_bit i) v :: 'a::len word) k \<longleftrightarrow> k < n \<and> k < LENGTH('a) \<and> bit v k"
  by (induction n) (auto simp: bit_simps less_Suc_eq)

lemma word_as_sum: "xor_sum LENGTH('a) (\<lambda>i. unit_bit i) v = (v :: 'a::len word)"
  by (intro bit_word_eqI) (simp add: bit_xor_sum_units)

text \<open>A linear map is given by its values on the words with one bit.\<close>

lemma linear_by_columns:
  fixes v :: "'a::len word"
  assumes "linear_map M"
  shows "M v = xor_sum LENGTH('a) (\<lambda>i. M (unit_bit i)) v"
  using xor_sum_map[OF assms, of "LENGTH('a)" "\<lambda>i. unit_bit i" v] by (simp add: word_as_sum)

section \<open>Multiplication by the indeterminate\<close>

definition shift_mod :: "'a::len word \<Rightarrow> 'a word \<Rightarrow> 'a word" where
  "shift_mod poly a = drop_bit 1 a XOR (if bit a 0 then poly else 0)"

lemma shift_mod_add: "shift_mod poly (a XOR b) = shift_mod poly a XOR shift_mod poly b"
  by (auto simp: shift_mod_def bit_xor_iff ac_simps)

interpretation shift: linear_map "shift_mod poly" for poly
  by unfold_locales (rule shift_mod_add)

interpretation shifts: linear_map "shift_mod poly ^^ n" for poly n
  by (rule linear_pow) (rule shift.linear_map_axioms)

definition gf_one :: "'a::len word" where
  "gf_one = unit_bit (LENGTH('a) - 1)"

lemma shifts_of_unit: "k \<le> j \<Longrightarrow> (shift_mod poly ^^ k) (unit_bit j :: 'a::len word) = unit_bit (j - k)" if "j < LENGTH('a)"
proof (induction k)
  case (Suc k)
  have "shift_mod poly (unit_bit (j - k) :: 'a word) = unit_bit (j - Suc k)"
  proof -
    have "drop_bit 1 (unit_bit (Suc m) :: 'a word) = unit_bit m" if "Suc m < LENGTH('a)" for m
      using that by (intro bit_word_eqI) (auto simp: bit_simps)
    then show ?thesis using Suc.prems that by (cases "j - k") (auto simp: shift_mod_def bit_simps Suc_diff_Suc less_imp_diff_less dest!: arg_cong[of _ "Suc _" "\<lambda>m. m - 1"])
  qed
  then show ?case using Suc by simp
qed simp

text \<open>Every power of \<open>x\<close> is different from zero: the map is injective when the polynomial has a constant term.\<close>

lemma shift_mod_inj:
  assumes "bit poly (LENGTH('a) - 1)" "shift_mod poly a = shift_mod poly (b :: 'a::len word)"
  shows "a = b"
proof -
  have z: "c = 0" if "shift_mod poly c = 0" for c :: "'a word"
  proof -
    have top: "bit (shift_mod poly c) (LENGTH('a) - 1) = bit c 0" using assms(1) by (auto simp: shift_mod_def bit_simps dest: bit_imp_le_length)
    then have "\<not> bit c 0" using that by simp
    then have "drop_bit 1 c = 0" using that by (simp add: shift_mod_def)
    then have "bit c (Suc n) = False" for n using bit_drop_bit_eq[of 1 c] by (metis add.commute bit_0_eq bot_apply bot_bool_def comp_def plus_1_eq_Suc)
    with \<open>\<not> bit c 0\<close> show ?thesis by (intro bit_word_eqI) (metis bit_0_eq bot_apply bot_bool_def not0_implies_Suc)
  qed
  have "shift_mod poly (a XOR b) = 0" using assms(2) by (simp add: shift_mod_add)
  then show ?thesis using z by (metis xor_self_eq word_bw_assocs(3) xor.right_neutral)
qed


section \<open>Multiplication\<close>

text \<open>\<open>b\<close> as a polynomial in the shift map, applied to \<open>a\<close>.\<close>

definition gf_times :: "'a::len word \<Rightarrow> 'a word \<Rightarrow> 'a word \<Rightarrow> 'a word" where
  "gf_times poly a b = xor_sum LENGTH('a) (\<lambda>i. (shift_mod poly ^^ (LENGTH('a) - 1 - i)) a) b"

interpretation times_left: linear_map "\<lambda>a. gf_times poly a b" for poly b
  by unfold_locales (simp add: gf_times_def shifts.add xor_sum_funs)

interpretation times_right: linear_map "gf_times poly a" for poly a
  by unfold_locales (simp add: gf_times_def xor_sum_add)

lemma gf_times_unit: "j < LENGTH('a) \<Longrightarrow> gf_times poly a (unit_bit j :: 'a::len word) = (shift_mod poly ^^ (LENGTH('a) - 1 - j)) a"
  by (simp add: gf_times_def xor_sum_unit)

lemma one_gf_times: "gf_times poly gf_one b = (b :: 'a::len word)"
proof -
  have "gf_times poly gf_one b = xor_sum LENGTH('a) unit_bit b"
    unfolding gf_times_def gf_one_def by (rule xor_sum_cong) (simp add: shifts_of_unit)
  then show ?thesis by (simp add: word_as_sum)
qed

text \<open>A linear map that commutes with the shift commutes with multiplication.\<close>

lemma gf_times_commutes:
  assumes "linear_map N" "\<And>a. N (shift_mod poly a) = shift_mod poly (N a)"
  shows "N (gf_times poly a b) = gf_times poly (N a) (b :: 'a::len word)"
proof -
  have "N ((shift_mod poly ^^ n) a) = (shift_mod poly ^^ n) (N a)" for n
    by (induction n) (simp_all add: assms(2))
  then show ?thesis by (simp add: gf_times_def xor_sum_map[OF assms(1)])
qed

lemma shift_times: "shift_mod poly (gf_times poly a b) = gf_times poly (shift_mod poly a) b"
  by (rule gf_times_commutes[OF shift.linear_map_axioms]) simp

lemma gf_times_exchange: "gf_times poly (gf_times poly a b) c = gf_times poly (gf_times poly a c) b"
  by (rule gf_times_commutes[OF times_left.linear_map_axioms, symmetric]) (simp add: shift_times)

lemma gf_times_commute: "gf_times poly a b = gf_times poly b a"
  using gf_times_exchange[of poly gf_one a b] by (simp add: one_gf_times)

interpretation gf: comm_monoid "gf_times poly" "gf_one" for poly :: "'a::len word"
proof
  show commute: "gf_times poly a b = gf_times poly b a" for a b :: "'a word" by (rule gf_times_commute)
  show "gf_times poly (gf_times poly a b) c = gf_times poly a (gf_times poly b c)" for a b c :: "'a word"
    using gf_times_exchange[of poly b a c] by (simp add: gf_times_commute[of poly _ b] gf_times_commute[of poly a])
  show "gf_times poly a gf_one = a" for a :: "'a word" by (simp add: gf_times_commute one_gf_times)
qed

lemma gf_times_shifts: "gf_times poly ((shift_mod poly ^^ n) a) b = (shift_mod poly ^^ n) (gf_times poly a b)"
  by (induction n) (simp_all add: shift_times[symmetric])

section \<open>Powers\<close>

definition gf_power :: "'a::len word \<Rightarrow> 'a word \<Rightarrow> nat \<Rightarrow> 'a word" where
  "gf_power poly a n = (gf_times poly a ^^ n) gf_one"

lemma gf_power_0 [simp]: "gf_power poly a 0 = gf_one"
  and gf_power_Suc: "gf_power poly a (Suc n) = gf_times poly a (gf_power poly a n)"
  by (simp_all add: gf_power_def)

lemma gf_power_add: "gf_power poly a (m + n) = gf_times poly (gf_power poly a m) (gf_power poly a n)"
  by (induction m) (simp_all add: gf_power_Suc one_gf_times gf.assoc)

lemma gf_power_mult: "gf_power poly a (m * n) = gf_power poly (gf_power poly a m) n"
  by (induction n) (simp_all add: gf_power_Suc gf_power_add)

lemma gf_power_one [simp]: "gf_power poly gf_one n = gf_one"
  by (induction n) (simp_all add: gf_power_Suc one_gf_times)

text \<open>The powers of \<open>x\<close>.\<close>

definition x_pow :: "'a::len word \<Rightarrow> nat \<Rightarrow> 'a word" where
  "x_pow poly n = (shift_mod poly ^^ n) gf_one"

lemma shifts_as_times: "(shift_mod poly ^^ n) a = gf_times poly (x_pow poly n) a"
  by (simp add: x_pow_def gf_times_shifts one_gf_times)

lemma x_pow_is_power: "x_pow poly n = gf_power poly (x_pow poly 1) n"
  by (induction n) (simp_all add: x_pow_def gf_power_Suc gf_times_shifts shift_times[symmetric] one_gf_times)

lemma x_pow_add: "x_pow poly (m + n) = gf_times poly (x_pow poly m) (x_pow poly n)"
  by (simp only: x_pow_is_power[of poly "m + n"] x_pow_is_power[of poly m] x_pow_is_power[of poly n] gf_power_add)

lemma x_pow_mult: "x_pow poly (m * n) = gf_power poly (x_pow poly m) n"
  by (simp only: x_pow_is_power[of poly "m * n"] x_pow_is_power[of poly m] gf_power_mult)

end
