(* ===== verification/CRC32.thy ===== *)
theory CRC32
  imports CRC_Tables RPC_Data "HOL-Library.Product_Lexorder"
begin

text \<open>
  The checksums of \<open>common/crc32.c\<close> and \<open>common/crc32c.c\<close>: the routines with tables, the combination of the
  checksums of two pieces, and the repair of a corrupted bit.

  The routines in vector instructions (\<open>..._clmul\<close>, \<open>..._sse42\<close>), among which \<open>crc32_init\<close> chooses by the
  processor, are arguments here.
\<close>

section \<open>Checksums with tables\<close>

definition CRC32_REFLECTED_POLY :: u32 where "CRC32_REFLECTED_POLY = 0xedb88320"
definition CRC32C_REFLECTED_POLY :: u32 where "CRC32C_REFLECTED_POLY = 0x82f63b78"

text \<open>The four tables of a checksum, for the lowest byte of a word first.\<close>

record crc_tables =
  tb0 :: "u32 list"
  tb1 :: "u32 list"
  tb2 :: "u32 list"
  tb3 :: "u32 list"

definition crc32_tables :: crc_tables where
  "crc32_tables = \<lparr>tb0 = crc32_table0, tb1 = crc32_table1, tb2 = crc32_table2, tb3 = crc32_table\<rparr>"

definition crc32c_tables :: crc_tables where
  "crc32c_tables = \<lparr>tb0 = crc32c_table0, tb1 = crc32c_table1, tb2 = crc32c_table2, tb3 = crc32c_table\<rparr>"

text \<open>The macros \<open>DO_ONE\<close> and \<open>DO_FOUR\<close>, and the step for one byte, which is a signed \<open>char\<close>.\<close>

definition DO_ONE :: "crc_tables \<Rightarrow> u32 \<Rightarrow> u32 \<Rightarrow> u32" where
  "DO_ONE T v crc =
     (let crc = crc XOR v
      in tb0 T ! unat (crc AND 0xff) XOR tb1 T ! unat (drop_bit 8 (crc AND 0xff00))
         XOR tb2 T ! unat (drop_bit 16 (crc AND 0xff0000)) XOR tb3 T ! unat (drop_bit 24 crc))"

definition DO_FOUR :: "crc_tables \<Rightarrow> byte list \<Rightarrow> u32 \<Rightarrow> u32" where
  "DO_FOUR T p crc =
     DO_ONE T (le32 (drop 12 p)) (DO_ONE T (le32 (drop 8 p)) (DO_ONE T (le32 (drop 4 p)) (DO_ONE T (le32 p) crc)))"

definition feed_char :: "crc_tables \<Rightarrow> byte \<Rightarrow> u32 \<Rightarrow> u32" where
  "feed_char T q crc = tb3 T ! unat ((crc XOR scast q) AND 0xff) XOR drop_bit 8 crc"

text \<open>The loop over blocks of 32 bytes, and the whole; \<open>x\<close> is the number of blocks.\<close>

fun do_blocks :: "crc_tables \<Rightarrow> nat \<Rightarrow> byte list \<Rightarrow> u32 \<Rightarrow> byte list \<times> u32" where
  "do_blocks T 0 p crc = (p, crc)"
| "do_blocks T (Suc x) p crc = do_blocks T x (drop 32 p) (DO_FOUR T (drop 16 p) (DO_FOUR T p crc))"

definition partial_tables :: "crc_tables \<Rightarrow> nat \<Rightarrow> byte list \<Rightarrow> u32 \<Rightarrow> u32" where
  "partial_tables T x data crc =
     (let len = length data;
          (p, crc) = do_blocks T x data crc;
          (p, crc) = (if odd (len div 16) then (drop 16 p, DO_FOUR T p crc) else (p, crc));
          (p, crc) = (if odd (len div 8) then (drop 8 p, DO_ONE T (le32 (drop 4 p)) (DO_ONE T (le32 p) crc)) else (p, crc));
          (p, crc) = (if odd (len div 4) then (drop 4 p, DO_ONE T (le32 p) crc) else (p, crc));
          (p, crc) = (if odd (len div 2) then (drop 2 p, feed_char T (p ! 1) (feed_char T (p ! 0) crc)) else (p, crc))
      in if odd len then feed_char T (p ! 0) crc else crc)"

definition crc32_partial_generic :: "byte list \<Rightarrow> u32 \<Rightarrow> u32" where
  "crc32_partial_generic data crc = partial_tables crc32_tables (length data div 32) data crc"

text \<open>Here the number of blocks is an \<open>int\<close>.\<close>

definition crc32c_partial_four_tables :: "byte list \<Rightarrow> u32 \<Rightarrow> u32" where
  "crc32c_partial_four_tables data crc = partial_tables crc32c_tables (nat (i32 (int (length data) div 32))) data crc"

definition crc64_feed_byte :: "64 word \<Rightarrow> byte \<Rightarrow> 64 word" where
  "crc64_feed_byte crc b = crc64_table ! unat ((crc XOR ucast b) AND 0xff) XOR drop_bit 8 crc"

definition crc64_partial_one_table :: "byte list \<Rightarrow> 64 word \<Rightarrow> 64 word" where
  "crc64_partial_one_table data crc = fold (\<lambda>p crc. crc64_table ! unat ((crc XOR scast p) AND 0xff) XOR drop_bit 8 crc) data crc"

definition compute_crc32 :: "(byte list \<Rightarrow> u32 \<Rightarrow> u32) \<Rightarrow> byte list \<Rightarrow> u32" where
  "compute_crc32 crc32_partial data = crc32_partial data (- 1) XOR (- 1)"

definition compute_crc64 :: "(byte list \<Rightarrow> 64 word \<Rightarrow> 64 word) \<Rightarrow> byte list \<Rightarrow> 64 word" where
  "compute_crc64 crc64_partial data = crc64_partial data (- 1) XOR (- 1)"

section \<open>Arithmetic in the field of 2^32 elements\<close>

definition gf32_mulx :: "u32 \<Rightarrow> u32 \<Rightarrow> u32" where
  "gf32_mulx a poly = (let r = drop_bit 1 a in if a AND 1 \<noteq> 0 then r XOR poly else r)"

fun gf32_mul_loop :: "u32 \<Rightarrow> u32 \<Rightarrow> nat \<Rightarrow> u32 \<Rightarrow> u32 \<Rightarrow> u32" where
  "gf32_mul_loop a poly 0 b x = x"
| "gf32_mul_loop a poly (Suc i) b x =
     (let x = gf32_mulx x poly; x = (if b AND 1 \<noteq> 0 then x XOR a else x) in gf32_mul_loop a poly i (drop_bit 1 b) x)"

definition gf32_mul :: "u32 \<Rightarrow> u32 \<Rightarrow> u32 \<Rightarrow> u32" where
  "gf32_mul a b poly = gf32_mul_loop a poly 32 b 0"

fun gf32_pow :: "u32 \<Rightarrow> nat \<Rightarrow> u32 \<Rightarrow> u32" where
  "gf32_pow a k poly =
     (if k = 0 then 0x80000000
      else let x = gf32_pow (gf32_mul a a poly) (k div 2) poly in if odd k then gf32_mul x a poly else x)"

declare gf32_pow.simps [simp del]

text \<open>A matrix is a pointer into an array of its columns; reading behind the array is \<open>None\<close>.\<close>

fun gf32_matrix_times :: "u32 list \<Rightarrow> u32 \<Rightarrow> u32 \<Rightarrow> u32 option" where
  "gf32_matrix_times [] vector s = (if vector = 0 then Some s else None)"
| "gf32_matrix_times (c # matrix) vector s =
     (if vector = 0 then Some s
      else gf32_matrix_times matrix (drop_bit 1 vector) (if vector AND 1 \<noteq> 0 then s XOR c else s))"

definition gf32_matrix_square :: "u32 list \<Rightarrow> u32 list option" where
  "gf32_matrix_square matrix = (if length matrix < 32 then None else those (map (\<lambda>c. gf32_matrix_times matrix c 0) (take 32 matrix)))"

text \<open>The array of the powers, filled up to its end: \<open>n\<close> is the index of the matrix to come.\<close>

fun fill_powers :: "nat \<Rightarrow> nat \<Rightarrow> u32 list \<Rightarrow> u32 list option" where
  "fill_powers 0 n P = Some P"
| "fill_powers (Suc k) n P =
     Option.bind (gf32_matrix_square (drop (32 * (n - 1)) P)) (\<lambda>S. fill_powers k (n + 1) (P @ S))"

definition gf32_compute_powers_generic :: "nat \<Rightarrow> u32 \<Rightarrow> u32 list option" where
  "gf32_compute_powers_generic len poly =
     (if len = 0 \<or> len mod 32 \<noteq> 0 then None
      else do {
        P \<leftarrow> fill_powers (len div 32 - 1) 1 (poly # map (\<lambda>n. push_bit n 1) [0..<31]);
        if len \<le> length P \<and> P ! (len - 1) \<noteq> 0 then Some P else None
      })"

function gf32_combine_loop :: "u32 list \<Rightarrow> u32 \<Rightarrow> nat \<Rightarrow> u32 option" where
  "gf32_combine_loop p crc1 len2 =
     (let p = drop 32 p in do {
        crc1 \<leftarrow> (if odd len2 then gf32_matrix_times p crc1 0 else Some crc1);
        if len2 div 2 = 0 then Some crc1 else gf32_combine_loop p crc1 (len2 div 2)
      })"
  by auto
termination by (relation "measure (\<lambda>(p, c, n). n)") auto

declare gf32_combine_loop.simps [simp del]

definition gf32_combine_generic :: "u32 list \<Rightarrow> u32 \<Rightarrow> nat \<Rightarrow> u32 option" where
  "gf32_combine_generic powers crc1 len2 = gf32_combine_loop (drop 64 powers) crc1 len2"

text \<open>The static array \<open>crc32_powers\<close> (\<open>crc32c_powers\<close>) goes in and out.\<close>

definition combine_generic :: "u32 \<Rightarrow> u32 list \<Rightarrow> u32 \<Rightarrow> u32 \<Rightarrow> int \<Rightarrow> (u32 \<times> u32 list) option" where
  "combine_generic poly powers crc1 crc2 len2 =
     (if len2 \<le> 0 then Some (crc1, powers)
      else do {
        powers \<leftarrow> (if powers ! (32 * 67 - 1) = 0 then gf32_compute_powers_generic (32 * 67) poly else Some powers);
        crc \<leftarrow> gf32_combine_generic powers crc1 (nat len2);
        Some (crc XOR crc2, powers)
      })"

definition compute_crc32_combine_generic :: "u32 list \<Rightarrow> u32 \<Rightarrow> u32 \<Rightarrow> int \<Rightarrow> (u32 \<times> u32 list) option" where
  "compute_crc32_combine_generic = combine_generic CRC32_REFLECTED_POLY"

definition crc32c_combine_generic :: "u32 list \<Rightarrow> u32 \<Rightarrow> u32 \<Rightarrow> int \<Rightarrow> (u32 \<times> u32 list) option" where
  "crc32c_combine_generic = combine_generic CRC32C_REFLECTED_POLY"

section \<open>Arithmetic in the field of 2^64 elements\<close>

definition CRC64_REFLECTED_POLY :: "64 word" where "CRC64_REFLECTED_POLY = 0xc96c5795d7870f42"

definition gf64_mulx :: "64 word \<Rightarrow> 64 word" where
  "gf64_mulx a = (let r = drop_bit 1 a in if a AND 1 \<noteq> 0 then r XOR CRC64_REFLECTED_POLY else r)"

fun gf64_mul_loop :: "64 word \<Rightarrow> nat \<Rightarrow> 64 word \<Rightarrow> 64 word \<Rightarrow> 64 word" where
  "gf64_mul_loop a 0 b x = x"
| "gf64_mul_loop a (Suc i) b x =
     (let x = gf64_mulx x; x = (if b AND 1 \<noteq> 0 then x XOR a else x) in gf64_mul_loop a i (drop_bit 1 b) x)"

definition gf64_mul :: "64 word \<Rightarrow> 64 word \<Rightarrow> 64 word" where
  "gf64_mul a b = gf64_mul_loop a 64 b 0"

fun power_pairs :: "nat \<Rightarrow> 64 word \<Rightarrow> 64 word list" where
  "power_pairs 0 a = []"
| "power_pairs (Suc n) a = gf64_mul a CRC64_REFLECTED_POLY # a # power_pairs n (gf64_mulx (gf64_mul a a))"

text \<open>\<open>crc64_init_power_buf\<close> with its assertions on the constants for the vector instructions.\<close>

definition crc64_init_power_buf :: "64 word list option" where
  "crc64_init_power_buf =
     (let p = power_pairs 63 (push_bit (63 - 7) 1)
      in if p ! 3 = push_bit (63 - 15) 1 \<and> p ! 4 = 0x1dee8a5e222ca1dc \<and> p ! 5 = push_bit (63 - 31) 1 \<and> p ! 6 = 0xdabe95afc7875f40
            \<and> p ! 7 = 1 \<and> p ! 8 = 0xe05dd497ca393ae4 \<and> p ! 9 = 0xdabe95afc7875f40 \<and> p ! 10 = 0x60095b008a9efa44
            \<and> p ! 11 = 0x3be653a30fe1af51 \<and> p ! 125 \<noteq> 0
         then Some p else None)"

fun ffsll :: "nat \<Rightarrow> nat" where
  "ffsll n = (if n = 0 then 0 else if odd n then 1 else Suc (ffsll (n div 2)))"

declare ffsll.simps [simp del]

function combine64_loop :: "64 word list \<Rightarrow> nat \<Rightarrow> 64 word \<Rightarrow> nat \<Rightarrow> 64 word option" where
  "combine64_loop buf p crc1 len2 =
     (if len2 = 0 then Some crc1
      else if odd len2 then
        (if p + 2 < length buf then combine64_loop buf (p + 2) (gf64_mul crc1 (gf64_mulx (buf ! (p + 2)))) (len2 div 2) else None)
      else combine64_loop buf (p + 2) crc1 (len2 div 2))"
  by auto
termination by (relation "measure (\<lambda>(b, p, c, n). n)") auto

declare combine64_loop.simps [simp del]

definition compute_crc64_combine_generic ::
    "64 word list \<Rightarrow> 64 word \<Rightarrow> 64 word \<Rightarrow> int \<Rightarrow> (64 word \<times> 64 word list) option" where
  "compute_crc64_combine_generic buf crc1 crc2 len2 =
     (if len2 \<le> 0 then Some (crc1, buf)
      else do {
        buf \<leftarrow> (if buf ! 125 = 0 then crc64_init_power_buf else Some buf);
        let n = ffsll (nat len2);
        let p = 2 * (n - 1) + 1;
        crc \<leftarrow> (if p < length buf then combine64_loop buf p (gf64_mul crc1 (gf64_mulx (buf ! p))) (nat len2 div 2 ^ n) else None);
        Some (crc XOR crc2, buf)
      })"

section \<open>Repair of one bit\<close>

text \<open>
  \<open>(int) (sqrt (n) + 0.5)\<close>, the square root rounded to the nearest integer, by the integer part of the root.
\<close>

fun int_root :: "nat \<Rightarrow> nat" where
  "int_root n = (if n = 0 then 0 else let s = 2 * int_root (n div 4) in if (s + 1) * (s + 1) \<le> n then s + 1 else s)"

declare int_root.simps [simp del]

definition rounded_root :: "nat \<Rightarrow> nat" where
  "rounded_root n = (let s = int_root n in if n > s * s + s then s + 1 else s)"

text \<open>The table \<open>T\<close>: the powers of \<open>x\<close> with their exponents, sorted by \<open>cmp_fcb_table_entry\<close>.\<close>

fun fcb_entries :: "nat \<Rightarrow> nat \<Rightarrow> u32 \<Rightarrow> (u32 \<times> nat) list" where
  "fcb_entries 0 i p = []"
| "fcb_entries (Suc r) i p = (p, i) # fcb_entries r (i + 1) (gf32_mulx p CRC32_REFLECTED_POLY)"

function fcb_search :: "(u32 \<times> nat) list \<Rightarrow> u32 \<Rightarrow> int \<Rightarrow> int \<Rightarrow> int" where
  "fcb_search T x a b =
     (if b - a > 1 then let c = (a + b) div 2 in if fst (T ! nat c) \<le> x then fcb_search T x c b else fcb_search T x a c else a)"
  by auto
termination by (relation "measure (\<lambda>(T, x, a, b). nat (b - a))") (auto simp: nat_less_iff)

declare fcb_search.simps [simp del]

fun column_chain :: "nat \<Rightarrow> u32 \<Rightarrow> u32 list \<Rightarrow> u32 list" where
  "column_chain 0 q A = A"
| "column_chain (Suc i) q A = (let q = gf32_mulx q CRC32_REFLECTED_POLY in column_chain i q (q # A))"

fun giant_steps :: "(u32 \<times> nat) list \<Rightarrow> u32 list \<Rightarrow> nat \<Rightarrow> nat \<Rightarrow> u32 \<Rightarrow> int option" where
  "giant_steps T A 0 j x = Some (-1)"
| "giant_steps T A (Suc k) j x =
     (let a = fcb_search T x (-1) (int (length T)) in
      if a \<ge> 0 \<and> fst (T ! nat a) = x then Some (int (snd (T ! nat a) + length T * j))
      else Option.bind (gf32_matrix_times A x 0) (\<lambda>x. giant_steps T A k (j + 1) x))"

text \<open>
  \<open>None\<close> is a failed assertion, or the division by zero for an empty table.  The size is shifted as an \<open>int\<close>.
\<close>

definition crc32_find_corrupted_bit :: "int \<Rightarrow> u32 \<Rightarrow> int option" where
  "crc32_find_corrupted_bit l d =
     (let n = i32 ((l + 4) * 8) in
      if n \<le> 0 then None
      else let r = rounded_root (nat n); T = sort (fcb_entries r 0 0x80000000) in
        if gf32_mulx 0xdb710641 CRC32_REFLECTED_POLY \<noteq> 0x80000000 then None
        else let q = gf32_pow 0xdb710641 r CRC32_REFLECTED_POLY; A = column_chain 31 q [q]
             in giant_steps T A (nat n div r + 1) 0 d)"

definition crc32_repair_bit :: "byte list \<Rightarrow> int \<Rightarrow> int \<Rightarrow> byte list \<times> int" where
  "crc32_repair_bit input l k =
     (if k < 0 then (input, -1)
      else let idx = k div 32; bit = k mod 32;
               i = (l - 1) - (idx - 1) * 4 - bit div 8; bit = bit mod 8
           in if i < 0 then (input, -2)
              else if i \<ge> l then (input, -3)
              else let j = 7 - bit in (input[nat i := input ! nat i XOR push_bit (nat j) 1], 0))"

text \<open>The input, the checksum and the result; \<open>None\<close> is a failed assertion.\<close>

definition crc32_check_and_repair ::
    "(byte list \<Rightarrow> u32 \<Rightarrow> u32) \<Rightarrow> byte list \<Rightarrow> u32 \<Rightarrow> bool \<Rightarrow> (byte list \<times> u32 \<times> int) option" where
  "crc32_check_and_repair crc32_partial input input_crc32 force_exit =
     (let computed = compute_crc32 crc32_partial input; l = int (length input); diff = computed XOR input_crc32 in
      if diff = 0 then Some (input, input_crc32, 0)
      else do {
        k \<leftarrow> crc32_find_corrupted_bit l diff;
        let (input', r) = crc32_repair_bit input l k;
        if r = 0 then
          if compute_crc32 crc32_partial input' \<noteq> input_crc32 then None else Some (input', input_crc32, 1)
        else if diff AND (diff - 1) = 0 then Some (input', computed, 2)
        else if force_exit then None
        else Some (input', computed, -1)
      })"

section \<open>The choice of the routines\<close>

record crc_routines =
  rt_partial32 :: "byte list \<Rightarrow> u32 \<Rightarrow> u32"
  rt_partial64 :: "byte list \<Rightarrow> 64 word \<Rightarrow> 64 word"
  rt_combine32 :: "u32 list \<Rightarrow> u32 \<Rightarrow> u32 \<Rightarrow> int \<Rightarrow> (u32 \<times> u32 list) option"
  rt_combine64 :: "64 word list \<Rightarrow> 64 word \<Rightarrow> 64 word \<Rightarrow> int \<Rightarrow> (64 word \<times> 64 word list) option"

text \<open>\<open>clmul\<close> are the routines in vector instructions, \<open>ecx\<close> what the processor says of itself.\<close>

definition crc32_init :: "crc_routines \<Rightarrow> u32 \<Rightarrow> crc_routines" where
  "crc32_init clmul ecx =
     (if ecx AND 2 \<noteq> 0 then clmul
      else \<lparr>rt_partial32 = crc32_partial_generic, rt_partial64 = crc64_partial_one_table,
            rt_combine32 = compute_crc32_combine_generic, rt_combine64 = compute_crc64_combine_generic\<rparr>)"

end
