(* ===== verification/CRC_Checksum.thy ===== *)
theory CRC_Checksum
  imports CRC_Algebra CRC32
begin

text \<open>
  The checksums with tables are the bitwise checksums: each table has the values of a power of the shift map on
  bytes, and four bytes at once are four bytes one after the other.
\<close>

section \<open>The bitwise checksum\<close>

text \<open>The definition: the bits of a byte from the lowest, each added to the last bit of the remainder, which is then shifted.\<close>

definition feed_bit :: "'a::len word \<Rightarrow> bool \<Rightarrow> 'a word \<Rightarrow> 'a word" where
  "feed_bit poly b crc = shift_mod poly (crc XOR (if b then 1 else 0))"

definition crc_bitwise :: "'a::len word \<Rightarrow> byte list \<Rightarrow> 'a word \<Rightarrow> 'a word" where
  "crc_bitwise poly data crc = fold (\<lambda>byte. fold (\<lambda>i. feed_bit poly (bit byte i)) [0..<8]) data crc"

text \<open>The same by bytes.\<close>

definition crc_byte :: "'a::len word \<Rightarrow> byte \<Rightarrow> 'a word \<Rightarrow> 'a word" where
  "crc_byte poly b crc = (shift_mod poly ^^ 8) (crc XOR ucast b)"

lemma ucast_as_sum: "8 \<le> LENGTH('a) \<Longrightarrow> xor_sum 8 unit_bit (b :: byte) = (ucast b :: 'a::len word)"
  by (intro bit_word_eqI) (auto simp: bit_xor_sum_units bit_ucast_iff dest: bit_imp_le_length)

lemma feed_bits:
  "fold (\<lambda>i. feed_bit poly (bit b i)) [0..<n] crc = (shift_mod poly ^^ n) (crc XOR xor_sum n unit_bit b)"
  if "n \<le> LENGTH('a)" for crc :: "'a::len word"
  using that
proof (induction n)
  case (Suc n)
  have "(shift_mod poly ^^ n) (unit_bit n) = (1 :: 'a word)"
    using shifts_of_unit[of n n poly] Suc.prems by (simp add: unit_bit_def)
  with Suc show ?case by (simp add: feed_bit_def shift.add shifts.add ac_simps)
qed (simp add: bot_fun_def)

lemma crc_bitwise_is_bytes:
  assumes "8 \<le> LENGTH('a::len)"
  shows "crc_bitwise (poly :: 'a word) data crc = fold (crc_byte poly) data crc"
proof -
  have "fold (\<lambda>i. feed_bit poly (bit byte i)) [0..<8] = crc_byte poly byte" for byte
    by (rule ext) (simp only: feed_bits[OF assms] ucast_as_sum[OF assms] crc_byte_def)
  then show ?thesis by (simp only: crc_bitwise_def)
qed

section \<open>Shifting out zeros\<close>

lemma shift_even: "\<not> bit a 0 \<Longrightarrow> shift_mod poly a = drop_bit 1 a"
  by (simp add: shift_mod_def)

lemma shifts_low_zeros: "(\<And>i. i < k \<Longrightarrow> \<not> bit a i) \<Longrightarrow> (shift_mod poly ^^ k) a = drop_bit k a"
proof (induction k)
  case (Suc k)
  then have "(shift_mod poly ^^ k) a = drop_bit k a" by simp
  moreover have "\<not> bit (drop_bit k a) 0" using Suc.prems[of k] by (simp add: bit_drop_bit_eq)
  ultimately show ?case by (simp add: shift_even)
qed simp

lemma shifts_push: "k + 8 \<le> LENGTH('a) \<Longrightarrow> (shift_mod poly ^^ k) (push_bit k (ucast (b :: byte))) = (ucast b :: 'a::len word)"
  using bit_imp_le_length[of b] by (subst shifts_low_zeros) (force simp: bit_simps intro!: bit_word_eqI)+

lemma shifts_push_more:
  assumes "k \<le> m" "k + 8 \<le> LENGTH('a)"
  shows "(shift_mod poly ^^ m) (push_bit k (ucast (b :: byte))) = (shift_mod poly ^^ (m - k)) (ucast b :: 'a::len word)"
proof -
  have "(shift_mod poly ^^ m) (push_bit k (ucast b :: 'a word)) = (shift_mod poly ^^ (m - k)) ((shift_mod poly ^^ k) (push_bit k (ucast b)))"
    using assms(1) by (metis comp_apply funpow_add le_add_diff_inverse2)
  with assms(2) show ?thesis by (simp add: shifts_push)
qed

section \<open>Tables\<close>

definition table_ok :: "'a::len word \<Rightarrow> nat \<Rightarrow> 'a word list \<Rightarrow> bool" where
  "table_ok poly n t \<longleftrightarrow> (\<forall>b :: byte. t ! unat b = (shift_mod poly ^^ n) (ucast b))"

text \<open>The list of all sums of some words.\<close>

definition doubled :: "'a::len word list \<Rightarrow> 'a word list" where
  "doubled cs = fold (\<lambda>c t. t @ map ((XOR) c) t) cs [0]"

lemma length_doubled [simp]: "length (doubled cs) = 2 ^ length cs"
  by (induction cs rule: rev_induct) (simp_all add: doubled_def)

lemma nth_doubled: "i < 2 ^ length cs \<Longrightarrow> length cs \<le> LENGTH('b) \<Longrightarrow> doubled cs ! i = xor_sum (length cs) ((!) cs) (word_of_nat i :: 'b::len word)"
proof (induction cs arbitrary: i rule: rev_induct)
  case (snoc c cs)
  let ?n = "length cs"
  have split: "doubled (cs @ [c]) = doubled cs @ map ((XOR) c) (doubled cs)" by (simp add: doubled_def)
  have cong: "xor_sum ?n ((!) (cs @ [c])) v = xor_sum ?n ((!) cs) v" for v :: "'b word"
    by (rule xor_sum_cong) (simp add: nth_append)
  have low: "xor_sum m f (word_of_nat (i mod 2 ^ ?n) :: 'b word) = xor_sum m f (word_of_nat i :: 'b word)" if "m \<le> ?n" for m and f :: "nat \<Rightarrow> 'a word"
    using that by (induction m) (auto simp: bit_of_nat_iff possible_bit_word bit_take_bit_iff simp flip: take_bit_eq_mod)
  have b: "bit (word_of_nat i :: 'b word) ?n \<longleftrightarrow> 2 ^ ?n \<le> i"
  proof -
    have "bit i ?n \<longleftrightarrow> odd (i div 2 ^ ?n)" by (simp add: bit_iff_odd)
    moreover have "i div 2 ^ ?n < 2" using snoc.prems by (simp add: less_mult_imp_div_less mult.commute)
    moreover have "i div 2 ^ ?n = 0 \<longleftrightarrow> i < 2 ^ ?n" by (simp add: div_eq_0_iff)
    ultimately have "bit i ?n \<longleftrightarrow> 2 ^ ?n \<le> i" by (cases "i div 2 ^ ?n = 0") (auto simp: less_2_cases_iff)
    then show ?thesis using snoc.prems by (simp add: bit_of_nat_iff possible_bit_word)
  qed
  have rhs: "xor_sum (length (cs @ [c])) ((!) (cs @ [c])) v = xor_sum ?n ((!) cs) v XOR (if bit v ?n then c else 0)" for v :: "'b word"
    by (simp only: length_append_singleton xor_sum.simps cong nth_append_length)
  have lhs: "doubled (cs @ [c]) ! i = (if i < 2 ^ ?n then doubled cs ! i else c XOR doubled cs ! (i - 2 ^ ?n))"
    using snoc.prems by (simp add: split nth_append)
  show ?case
  proof (cases "i < 2 ^ ?n")
    case True
    then show ?thesis unfolding rhs lhs using snoc.IH[of i] snoc.prems b by simp
  next
    case False
    then have m: "i mod 2 ^ ?n = i - 2 ^ ?n" "i - 2 ^ ?n < 2 ^ ?n" using snoc.prems by (simp_all add: mod_if mult_2)
    have "doubled cs ! (i - 2 ^ ?n) = xor_sum ?n ((!) cs) (word_of_nat i :: 'b word)"
      using snoc.IH[of "i - 2 ^ ?n"] m low[of ?n "(!) cs"] snoc.prems by simp
    with False b show ?thesis unfolding rhs lhs by (simp add: ac_simps)
  qed
qed (simp add: doubled_def)

text \<open>The eight words of a table that belong to single bits lie on the chain of shifts that starts with the polynomial.\<close>

fun chain :: "'a::len word \<Rightarrow> nat \<Rightarrow> 'a word \<Rightarrow> 'a word list" where
  "chain poly 0 a = []"
| "chain poly (Suc n) a = a # chain poly n (shift_mod poly a)"

lemma length_chain [simp]: "length (chain poly n a) = n"
  by (induction n arbitrary: a) simp_all

lemma nth_chain: "k < n \<Longrightarrow> chain poly n a ! k = (shift_mod poly ^^ k) a"
  by (induction n arbitrary: k a) (auto simp: nth_Cons' funpow_swap1 less_Suc_eq_0_disj)

lemma shift_one: "shift_mod poly (unit_bit 0) = (poly :: 'a::len word)" if "1 < LENGTH('a)"
  using that by (auto simp: shift_mod_def bit_simps intro!: bit_word_eqI)

lemma table_by_chain:
  assumes "t = doubled (rev (take 8 (drop (8 * m) (chain poly n (poly :: 'a::len word)))))" "8 * m + 8 \<le> n" "8 \<le> LENGTH('a)"
  shows "table_ok poly (8 * m + 8) t"
  unfolding table_ok_def
proof
  fix b :: byte
  let ?cs = "rev (take 8 (drop (8 * m) (chain poly n poly)))"
  have len: "length ?cs = 8" using assms(2) by simp
  have nth: "?cs ! j = (shift_mod poly ^^ (8 * m + 8)) (unit_bit j)" if "j < 8" for j
  proof -
    have "?cs ! j = (shift_mod poly ^^ (8 * m + (7 - j))) poly"
      using that assms(2) by (simp add: rev_nth nth_chain)
    also have "\<dots> = (shift_mod poly ^^ (Suc (8 * m + (7 - j)))) (unit_bit 0)"
      using assms(3) by (simp add: funpow_swap1 shift_one)
    also have "unit_bit 0 = (shift_mod poly ^^ j) (unit_bit j)"
      using that assms(3) by (simp add: shifts_of_unit)
    also have "(shift_mod poly ^^ Suc (8 * m + (7 - j))) ((shift_mod poly ^^ j) (unit_bit j)) = (shift_mod poly ^^ (Suc (8 * m + (7 - j)) + j)) (unit_bit j)"
      by (simp only: funpow_add comp_apply)
    also have "Suc (8 * m + (7 - j)) + j = 8 * m + 8" using that by simp
    finally show ?thesis .
  qed
  have "t ! unat b = xor_sum 8 ((!) ?cs) b"
    unfolding assms(1) using nth_doubled[of "unat b" ?cs, where 'b = 8] len unsigned_less[of b] by simp
  also have "\<dots> = xor_sum 8 (\<lambda>j. (shift_mod poly ^^ (8 * m + 8)) (unit_bit j)) b"
    by (rule xor_sum_cong) (rule nth)
  also have "\<dots> = (shift_mod poly ^^ (8 * m + 8)) (xor_sum 8 unit_bit b)"
    by (simp add: xor_sum_map[OF shifts.linear_map_axioms])
  finally show "t ! unat b = (shift_mod poly ^^ (8 * m + 8)) (ucast b)" by (simp add: ucast_as_sum[OF assms(3)])
qed

section \<open>The nine tables\<close>

lemma shift_mod_code: "shift_mod poly a = (if bit a 0 then drop_bit 1 a XOR poly else drop_bit 1 a)"
  by (simp add: shift_mod_def)

lemma chain_numeral: "chain poly (numeral k) a = a # chain poly (pred_numeral k) (shift_mod poly a)"
  by (simp add: numeral_eq_Suc)

lemma crc32_chain:
  "chain CRC32_REFLECTED_POLY 32 CRC32_REFLECTED_POLY =
    [0xedb88320, 0x76dc4190, 0x3b6e20c8, 0x1db71064, 0x0edb8832, 0x076dc419, 0xee0e612c, 0x77073096,
     0x3b83984b, 0xf0794f05, 0x958424a2, 0x4ac21251, 0xc8d98a08, 0x646cc504, 0x32366282, 0x191b3141,
     0xe1351b80, 0x709a8dc0, 0x384d46e0, 0x1c26a370, 0x0e1351b8, 0x0709a8dc, 0x0384d46e, 0x01c26a37,
     0xed59b63b, 0x9b14583d, 0xa032af3e, 0x5019579f, 0xc5b428ef, 0x8f629757, 0xaa09c88b, 0xb8bc6765]"
  unfolding CRC32_REFLECTED_POLY_def by (simp add: shift_mod_code chain_numeral)

lemma crc32c_chain:
  "chain CRC32C_REFLECTED_POLY 32 CRC32C_REFLECTED_POLY =
    [0x82f63b78, 0x417b1dbc, 0x20bd8ede, 0x105ec76f, 0x8ad958cf, 0xc79a971f, 0xe13b70f7, 0xf26b8303,
     0xfbc3faf9, 0xff17c604, 0x7f8be302, 0x3fc5f181, 0x9d14c3b8, 0x4e8a61dc, 0x274530ee, 0x13a29877,
     0x8b277743, 0xc76580d9, 0xe144fb14, 0x70a27d8a, 0x38513ec5, 0x9edea41a, 0x4f6f520d, 0xa541927e,
     0x52a0c93f, 0xaba65fe7, 0xd725148b, 0xe964b13d, 0xf64463e6, 0x7b2231f3, 0xbf672381, 0xdd45aab8]"
  unfolding CRC32C_REFLECTED_POLY_def by (simp add: shift_mod_code chain_numeral)

lemma crc64_chain:
  "chain CRC64_REFLECTED_POLY 8 CRC64_REFLECTED_POLY =
    [0xc96c5795d7870f42, 0x64b62bcaebc387a1, 0xfb374270a266cc92, 0x7d9ba13851336649,
     0xf7a18709ff1ebc66, 0x7bd0c384ff8f5e33, 0xf4843657a840a05b, 0xb32e4cbe03a75f6f]"
  unfolding CRC64_REFLECTED_POLY_def by (simp add: shift_mod_code chain_numeral)


lemma crc32_table_sums: "crc32_table = doubled (rev (take 8 (drop (8 * 0) (chain CRC32_REFLECTED_POLY 32 CRC32_REFLECTED_POLY))))"
  unfolding crc32_chain by (simp add: doubled_def crc32_table_def)


lemma crc32_table2_sums: "crc32_table2 = doubled (rev (take 8 (drop (8 * 1) (chain CRC32_REFLECTED_POLY 32 CRC32_REFLECTED_POLY))))"
  unfolding crc32_chain by (simp add: doubled_def crc32_table2_def)

lemma crc32_table1_sums: "crc32_table1 = doubled (rev (take 8 (drop (8 * 2) (chain CRC32_REFLECTED_POLY 32 CRC32_REFLECTED_POLY))))"
  unfolding crc32_chain by (simp add: doubled_def crc32_table1_def)

lemma crc32_table0_sums: "crc32_table0 = doubled (rev (take 8 (drop (8 * 3) (chain CRC32_REFLECTED_POLY 32 CRC32_REFLECTED_POLY))))"
  unfolding crc32_chain by (simp add: doubled_def crc32_table0_def)

lemma crc32c_table_sums: "crc32c_table = doubled (rev (take 8 (drop (8 * 0) (chain CRC32C_REFLECTED_POLY 32 CRC32C_REFLECTED_POLY))))"
  unfolding crc32c_chain by (simp add: doubled_def crc32c_table_def)

lemma crc32c_table2_sums: "crc32c_table2 = doubled (rev (take 8 (drop (8 * 1) (chain CRC32C_REFLECTED_POLY 32 CRC32C_REFLECTED_POLY))))"
  unfolding crc32c_chain by (simp add: doubled_def crc32c_table2_def)

lemma crc32c_table1_sums: "crc32c_table1 = doubled (rev (take 8 (drop (8 * 2) (chain CRC32C_REFLECTED_POLY 32 CRC32C_REFLECTED_POLY))))"
  unfolding crc32c_chain by (simp add: doubled_def crc32c_table1_def)

lemma crc32c_table0_sums: "crc32c_table0 = doubled (rev (take 8 (drop (8 * 3) (chain CRC32C_REFLECTED_POLY 32 CRC32C_REFLECTED_POLY))))"
  unfolding crc32c_chain by (simp add: doubled_def crc32c_table0_def)

lemma crc64_table_sums: "crc64_table = doubled (rev (take 8 (drop (8 * 0) (chain CRC64_REFLECTED_POLY 8 CRC64_REFLECTED_POLY))))"
  unfolding crc64_chain by (simp add: doubled_def crc64_table_def)

definition tables_ok :: "u32 \<Rightarrow> crc_tables \<Rightarrow> bool" where
  "tables_ok poly T \<longleftrightarrow> table_ok poly 32 (tb0 T) \<and> table_ok poly 24 (tb1 T) \<and> table_ok poly 16 (tb2 T) \<and> table_ok poly 8 (tb3 T)"

lemma crc32_tables_ok: "tables_ok CRC32_REFLECTED_POLY crc32_tables"
  using table_by_chain[OF crc32_table0_sums] table_by_chain[OF crc32_table1_sums] table_by_chain[OF crc32_table2_sums] table_by_chain[OF crc32_table_sums]
  by (simp add: tables_ok_def crc32_tables_def)

lemma crc32c_tables_ok: "tables_ok CRC32C_REFLECTED_POLY crc32c_tables"
  using table_by_chain[OF crc32c_table0_sums] table_by_chain[OF crc32c_table1_sums] table_by_chain[OF crc32c_table2_sums] table_by_chain[OF crc32c_table_sums]
  by (simp add: tables_ok_def crc32c_tables_def)

lemma crc64_table_ok: "table_ok CRC64_REFLECTED_POLY 8 crc64_table"
  using table_by_chain[OF crc64_table_sums] by simp

section \<open>Steps with tables\<close>

lemma byte_masks: "(0xff :: 'a::len word) = mask 8" "(0xff00 :: 'a word) = push_bit 8 (mask 8)" "(0xff0000 :: 'a word) = push_bit 16 (mask 8)"
  by (simp_all add: mask_eq_exp_minus_1 push_bit_eq_mult)

lemma low_byte: "unat (w AND 0xff) = unat (ucast w :: byte)" if "8 \<le> LENGTH('a)" for w :: "'a::len word"
proof -
  have "w AND 0xff = ucast (ucast w :: byte)"
    unfolding byte_masks using that by (intro bit_word_eqI) (auto simp: bit_simps)
  then show ?thesis using that by (simp add: unsigned_ucast_eq unsigned_take_bit_eq)
qed

lemma table_low_byte: "table_ok poly n t \<Longrightarrow> t ! unat (w AND 0xff) = (shift_mod poly ^^ n) (ucast (ucast w :: byte))" if "8 \<le> LENGTH('a)" for w :: "'a::len word"
  using that by (simp add: low_byte table_ok_def)

lemma other_bytes:
  "drop_bit 8 (w AND 0xff00) = drop_bit 8 w AND 0xff" "drop_bit 16 (w AND 0xff0000) = drop_bit 16 w AND 0xff" "drop_bit 24 w = drop_bit 24 w AND 0xff"
  for w :: u32
  unfolding byte_masks using bit_imp_le_length[of w] by (intro bit_word_eqI; force simp: bit_simps)+

lemma one_step: "table_ok poly 8 t \<Longrightarrow> t ! unat ((crc XOR ucast b) AND 0xff) XOR drop_bit 8 crc = crc_byte poly b crc"
  if "8 \<le> LENGTH('a)" for crc :: "'a::len word"
proof -
  assume t: "table_ok poly 8 t"
  let ?w = "crc XOR ucast b" and ?low = "ucast (ucast (crc XOR ucast b) :: byte) :: 'a word"
  have split: "?w = ?low XOR (?w AND NOT 0xff)"
    unfolding byte_masks using that by (intro bit_word_eqI) (auto simp: bit_simps)
  have high: "(shift_mod poly ^^ 8) (?w AND NOT 0xff) = drop_bit 8 crc"
    unfolding byte_masks using bit_imp_le_length[of b] bit_imp_le_length[of crc]
    by (subst shifts_low_zeros) (force simp: bit_simps intro!: bit_word_eqI)+
  have "crc_byte poly b crc = (shift_mod poly ^^ 8) ?low XOR (shift_mod poly ^^ 8) (?w AND NOT 0xff)"
    unfolding crc_byte_def by (subst split) (rule shifts.add)
  then show ?thesis using table_low_byte[OF that t, of ?w] high by simp
qed

lemma signed_byte: "(w XOR scast b) AND 0xff = (w XOR ucast (b :: byte)) AND 0xff" if "8 \<le> LENGTH('a)" for w :: "'a::len word"
  unfolding byte_masks using that by (intro bit_word_eqI) (auto simp: bit_simps)

lemma word_of_bytes:
  "ucast (ucast w :: byte) XOR push_bit 8 (ucast (ucast (drop_bit 8 w) :: byte)) XOR push_bit 16 (ucast (ucast (drop_bit 16 w) :: byte))
    XOR push_bit 24 (ucast (ucast (drop_bit 24 w) :: byte)) = (w :: u32)"
proof (rule bit_word_eqI)
  fix n assume "n < LENGTH(32)"
  then have "n < 8 \<or> 8 \<le> n \<and> n < 16 \<or> 16 \<le> n \<and> n < 24 \<or> 24 \<le> n \<and> n < 32" by auto
  then show "bit (ucast (ucast w :: byte) XOR push_bit 8 (ucast (ucast (drop_bit 8 w) :: byte)) XOR push_bit 16 (ucast (ucast (drop_bit 16 w) :: byte))
    XOR push_bit 24 (ucast (ucast (drop_bit 24 w) :: byte)) :: u32) n = bit w n"
    by (elim disjE conjE) (simp_all add: bit_simps less_diff_conv2)
qed

lemma le32_xor: "le32 p = ucast (p ! 0) XOR push_bit 8 (ucast (p ! 1)) XOR push_bit 16 (ucast (p ! 2)) XOR push_bit 24 (ucast (p ! 3))"
proof (rule bit_word_eqI)
  fix n assume "n < LENGTH(32)"
  then have "n < 8 \<or> 8 \<le> n \<and> n < 16 \<or> 16 \<le> n \<and> n < 24 \<or> 24 \<le> n \<and> n < 32" by auto
  then show "bit (le32 p) n = bit (ucast (p ! 0) XOR push_bit 8 (ucast (p ! 1)) XOR push_bit 16 (ucast (p ! 2)) XOR push_bit 24 (ucast (p ! 3)) :: u32) n"
    using bit_imp_le_length[of "p ! 0" n] bit_imp_le_length[of "p ! 1" "n - 8"] bit_imp_le_length[of "p ! 2" "n - 16"]
    by (elim disjE conjE) (auto simp: bit_simps le32_def)
qed

lemma four_bytes:
  assumes "tables_ok poly T" "length p \<ge> 4"
  shows "DO_ONE T (le32 p) crc = fold (crc_byte poly) (take 4 p) crc"
proof -
  obtain b0 b1 b2 b3 where p: "take 4 p = [b0, b1, b2, b3]" "p ! 0 = b0" "p ! 1 = b1" "p ! 2 = b2" "p ! 3 = b3"
  proof -
    have "take 4 p = map ((!) p) [0..<4]" using assms(2) by (intro nth_equalityI) auto
    then show ?thesis by (intro that) (auto simp: upt_conv_Cons numeral_2_eq_2 numeral_3_eq_3)
  qed
  have T: "table_ok poly 32 (tb0 T)" "table_ok poly 24 (tb1 T)" "table_ok poly 16 (tb2 T)" "table_ok poly 8 (tb3 T)"
    using assms(1) by (simp_all add: tables_ok_def)
  have len32: "8 \<le> LENGTH(32)" by simp
  let ?w = "crc XOR le32 p"
  let ?c = "\<lambda>k. ucast (ucast (drop_bit k ?w) :: byte) :: u32"
  let ?S = "\<lambda>n. shift_mod poly ^^ n"
  have bytes: "?c 0 XOR push_bit 8 (?c 8) XOR push_bit 16 (?c 16) XOR push_bit 24 (?c 24) = ?w"
    using word_of_bytes[of ?w] by simp
  have push: "?S 32 (push_bit 8 (ucast b)) = ?S 24 (ucast b)" "?S 32 (push_bit 16 (ucast b)) = ?S 16 (ucast b)"
    "?S 32 (push_bit 24 (ucast b)) = ?S 8 (ucast b)" for b :: byte
    by (simp_all add: shifts_push_more)
  have comb: "?S 8 (?S 8 x) = ?S 16 x" "?S 8 (?S 16 x) = ?S 24 x" "?S 8 (?S 24 x) = ?S 32 x" for x :: u32
    using funpow_add[of 8 8 "shift_mod poly"] funpow_add[of 8 16 "shift_mod poly"] funpow_add[of 8 24 "shift_mod poly"]
    by (simp_all add: fun_eq_iff)
  have "DO_ONE T (le32 p) crc = ?S 32 (?c 0) XOR ?S 24 (?c 8) XOR ?S 16 (?c 16) XOR ?S 8 (?c 24)"
    unfolding DO_ONE_def Let_def other_bytes(1,2)
    by (subst other_bytes(3)) (simp only: table_low_byte[OF _ T(1)] table_low_byte[OF _ T(2)] table_low_byte[OF _ T(3)] table_low_byte[OF _ T(4)]
      len32 drop_bit_0 id_apply)
  also have "\<dots> = ?S 32 ?w"
    by (subst (5) bytes[symmetric]) (simp only: shifts.add push)
  also have "?w = crc XOR ucast b0 XOR push_bit 8 (ucast b1) XOR push_bit 16 (ucast b2) XOR push_bit 24 (ucast b3)"
    using p(2-5) by (simp only: le32_xor ac_simps)
  also have "?S 32 \<dots> = fold (crc_byte poly) (take 4 p) crc"
    by (simp add: p(1) shifts.add push crc_byte_def comb ac_simps)
  finally show ?thesis .
qed

section \<open>The whole routines\<close>

lemma fold_take_drop: "fold f (take n p) c = c' \<Longrightarrow> fold f p c = fold f (drop n p) c'"
  by (metis append_take_drop_id comp_apply fold_append)

lemma sixteen_bytes:
  assumes "tables_ok poly T" "length p \<ge> 16"
  shows "DO_FOUR T p crc = fold (crc_byte poly) (take 16 p) crc"
proof -
  have w: "DO_ONE T (le32 (drop k p)) c = fold (crc_byte poly) (take 4 (drop k p)) c" if "k \<le> 12" for k c
    using four_bytes[OF assms(1), of "drop k p" c] that assms(2) by simp
  have "take 16 p = take 4 p @ take 4 (drop 4 p) @ take 4 (drop 8 p) @ take 4 (drop 12 p)"
    using take_add[of 4 12 p] take_add[of 4 8 "drop 4 p"] take_add[of 4 4 "drop 8 p"] by simp
  with w[of 0] w[of 4] w[of 8] w[of 12] show ?thesis by (simp add: DO_FOUR_def)
qed

lemma blocks_fold:
  assumes "tables_ok poly T"
  shows "32 * x \<le> length p \<Longrightarrow> do_blocks T x p crc = (drop (32 * x) p, fold (crc_byte poly) (take (32 * x) p) crc)"
proof (induction x arbitrary: p crc)
  case (Suc x)
  have "take (32 * Suc x) p = take 16 p @ take 16 (drop 16 p) @ take (32 * x) (drop 32 p)"
    using take_add[of 16 "16 + 32 * x" p] take_add[of 16 "32 * x" "drop 16 p"] by (simp add: ac_simps)
  with Suc sixteen_bytes[OF assms, of p] sixteen_bytes[OF assms, of "drop 16 p"] show ?case by (simp add: ac_simps)
qed simp

lemma feed_char_byte:
  assumes "tables_ok poly T"
  shows "feed_char T q crc = crc_byte poly q crc"
  using one_step[of poly "tb3 T" crc q] assms by (simp add: feed_char_def tables_ok_def signed_byte)

lemma tables_are_bitwise:
  assumes "tables_ok poly T"
  shows "partial_tables T (length data div 32) data crc = crc_bitwise poly data crc"
proof -
  define n where "n = length data"
  let ?f = "fold (crc_byte poly)"
  obtain p0 c0 where b: "do_blocks T (n div 32) data crc = (p0, c0)" by fastforce
  then have p0: "length p0 = n mod 32" "?f data crc = ?f p0 c0"
    using blocks_fold[OF assms, of "n div 32" data crc] fold_take_drop[of "crc_byte poly" "32 * (n div 32)" data crc]
    by (auto simp: n_def minus_mult_div_eq_mod)
  have step: "length (drop k p) = n mod k \<and> ?f (drop k p) (g c) = ?f p c"
    if "length p = n mod (2 * k)" "odd (n div k)" "\<And>c. k \<le> length p \<Longrightarrow> g c = ?f (take k p) c" "0 < k" for k p g c
  proof -
    have l: "n mod (2 * k) = k + n mod k" using that(2) mod_mult2_eq[of n k 2] by (simp add: odd_iff_mod_2_eq_one mult.commute)
    with that show ?thesis by (metis add_diff_cancel_left' fold_take_drop le_add1 length_drop)
  qed
  have skip: "length p = n mod k" if "length p = n mod (2 * k)" "\<not> odd (n div k)" for k and p :: "byte list"
    using that mod_mult2_eq[of n k 2] by (simp add: mult.commute even_iff_mod_2_eq_zero)
  define s1 where "s1 = (if odd (n div 16) then (drop 16 p0, DO_FOUR T p0 c0) else (p0, c0))"
  have s1: "length (fst s1) = n mod 16 \<and> ?f (fst s1) (snd s1) = ?f p0 c0"
    using step[of p0 16 "DO_FOUR T p0" c0] skip[of p0 16] p0(1) sixteen_bytes[OF assms, of p0] by (simp add: s1_def)
  obtain p1 c1 where e1: "s1 = (p1, c1)" by fastforce
  define s2 where "s2 = (if odd (n div 8) then (drop 8 p1, DO_ONE T (le32 (drop 4 p1)) (DO_ONE T (le32 p1) c1)) else (p1, c1))"
  have eight: "DO_ONE T (le32 (drop 4 p)) (DO_ONE T (le32 p) c) = ?f (take 8 p) c" if "8 \<le> length p" for p c
    using that four_bytes[OF assms, of p c] four_bytes[OF assms, of "drop 4 p"] take_add[of 4 4 p] by simp
  have s2: "length (fst s2) = n mod 8 \<and> ?f (fst s2) (snd s2) = ?f p1 c1"
    using step[of p1 8 "\<lambda>c. DO_ONE T (le32 (drop 4 p1)) (DO_ONE T (le32 p1) c)" c1] skip[of p1 8] s1 e1 eight[of p1] by (simp add: s2_def)
  obtain p2 c2 where e2: "s2 = (p2, c2)" by fastforce
  define s3 where "s3 = (if odd (n div 4) then (drop 4 p2, DO_ONE T (le32 p2) c2) else (p2, c2))"
  have s3: "length (fst s3) = n mod 4 \<and> ?f (fst s3) (snd s3) = ?f p2 c2"
    using step[of p2 4 "\<lambda>c. DO_ONE T (le32 p2) c" c2] skip[of p2 4] s2 e2 four_bytes[OF assms, of p2] by (simp add: s3_def)
  obtain p3 c3 where e3: "s3 = (p3, c3)" by fastforce
  define s4 where "s4 = (if odd (n div 2) then (drop 2 p3, feed_char T (p3 ! 1) (feed_char T (p3 ! 0) c3)) else (p3, c3))"
  have two: "feed_char T (p ! 1) (feed_char T (p ! 0) c) = ?f (take 2 p) c" if "2 \<le> length p" for p c
    using that by (cases p; cases "tl p") (auto simp: feed_char_byte[OF assms])
  have s4: "length (fst s4) = n mod 2 \<and> ?f (fst s4) (snd s4) = ?f p3 c3"
    using step[of p3 2 "\<lambda>c. feed_char T (p3 ! 1) (feed_char T (p3 ! 0) c)" c3] skip[of p3 2] s3 e3 two[of p3] by (simp add: s4_def)
  obtain p4 c4 where e4: "s4 = (p4, c4)" by fastforce
  have s5: "(if odd n then feed_char T (p4 ! 0) c4 else c4) = ?f p4 c4"
    using s4 e4 by (cases p4) (auto simp: feed_char_byte[OF assms] odd_iff_mod_2_eq_one)
  have "partial_tables T (n div 32) data crc = (if odd n then feed_char T (p4 ! 0) c4 else c4)"
    unfolding partial_tables_def n_def[symmetric] Let_def b prod.case s1_def[symmetric] e1 s2_def[symmetric] e2 s3_def[symmetric] e3 s4_def[symmetric] e4 ..
  also have "\<dots> = ?f data crc" using s1 s2 s3 s4 s5 e1 e2 e3 e4 p0 by simp
  finally show ?thesis by (simp add: n_def crc_bitwise_is_bytes)
qed

lemma crc32_is_bitwise: "crc32_partial_generic data crc = crc_bitwise CRC32_REFLECTED_POLY data crc"
  by (simp add: crc32_partial_generic_def tables_are_bitwise[OF crc32_tables_ok])

lemma crc32c_is_bitwise: "length data < 2 ^ 36 \<Longrightarrow> crc32c_partial_four_tables data crc = crc_bitwise CRC32C_REFLECTED_POLY data crc"
proof -
  assume "length data < 2 ^ 36"
  then have "nat (i32 (int (length data) div 32)) = length data div 32"
    by (simp add: i32_def nat_div_distrib)
  then show ?thesis by (simp add: crc32c_partial_four_tables_def tables_are_bitwise[OF crc32c_tables_ok])
qed

lemma crc64_is_bitwise: "crc64_partial_one_table data crc = crc_bitwise CRC64_REFLECTED_POLY data crc"
  by (simp add: crc64_partial_one_table_def signed_byte one_step[OF _ crc64_table_ok] crc_bitwise_is_bytes)

end
