(* ===== verification/CRC_Order.thy ===== *)
theory CRC_Order
  imports CRC_Algebra CRC32
begin

text \<open>
  The powers of \<open>x\<close> modulo the polynomial of \<open>crc32.c\<close> are all different up to the exponent \<open>2^32 - 1\<close>.  The
  evaluation runs on lists of bits, where the exclusive or of two words is cheap.
\<close>

section \<open>Words as lists of bits\<close>

definition bits :: "'a::len word \<Rightarrow> bool list" where
  "bits w = map (bit w) [0..<LENGTH('a)]"

fun xor_bits :: "bool list \<Rightarrow> bool list \<Rightarrow> bool list" where
  "xor_bits [] ys = []"
| "xor_bits (x # xs) [] = []"
| "xor_bits (True # xs) (y # ys) = (\<not> y) # xor_bits xs ys"
| "xor_bits (False # xs) (y # ys) = y # xor_bits xs ys"

definition shift_bits :: "bool list \<Rightarrow> bool list \<Rightarrow> bool list" where
  "shift_bits p a = (case a of [] \<Rightarrow> [] | b # bs \<Rightarrow> if b then xor_bits p (bs @ [False]) else bs @ [False])"

definition times_bits :: "bool list \<Rightarrow> bool list \<Rightarrow> bool list \<Rightarrow> bool list" where
  "times_bits p a b = fold (\<lambda>k x. let x = shift_bits p x in if k then xor_bits a x else x) b (replicate (length a) False)"

definition x_pow_bits :: "bool list \<Rightarrow> bool list \<Rightarrow> bool list \<Rightarrow> bool list" where
  "x_pow_bits p one ks = fold (\<lambda>k x. let s = times_bits p x x in if k then shift_bits p s else s) ks one"

lemma bits_inj: "bits a = bits b \<Longrightarrow> a = b"
  by (intro bit_word_eqI) (auto simp: bits_def map_eq_conv)

lemma length_word_bits [simp]: "length (bits (w :: 'a::len word)) = LENGTH('a)"
  by (simp add: bits_def)

lemma nth_word_bits [simp]: "i < LENGTH('a) \<Longrightarrow> bits (w :: 'a::len word) ! i = bit w i"
  by (simp add: bits_def)

lemma xor_bits_map2: "xor_bits xs ys = map2 (\<noteq>) xs ys"
  by (induction xs ys rule: xor_bits.induct) auto

lemma bits_xor: "xor_bits (bits a) (bits b) = bits (a XOR b)"
  by (rule nth_equalityI) (simp_all add: xor_bits_map2 bit_xor_iff)

lemma bits_zero: "bits (0 :: 'a::len word) = replicate LENGTH('a) False"
  by (rule nth_equalityI) auto

lemma bits_shift: "shift_bits (bits poly) (bits a) = bits (shift_mod poly a)"
proof -
  have c: "bits a = bit a 0 # map (bit a) [Suc 0..<LENGTH('a)]" for a :: "'a word"
    by (simp add: bits_def upt_conv_Cons)
  have t: "map (bit a) [Suc 0..<LENGTH('a)] @ [False] = bits (drop_bit 1 a)" for a :: "'a word"
    by (rule nth_equalityI) (auto simp: nth_append bit_simps dest: bit_imp_le_length)
  show ?thesis
    by (auto simp: shift_bits_def c[of a] t bits_xor shift_mod_def ac_simps simp del: One_nat_def)
qed

text \<open>The loop of the multiplication, bit by bit from the lowest.\<close>

lemma horner_is_sum:
  "fold (\<lambda>k x. shift_mod poly x XOR (if k then a else 0)) (map (bit b) [0..<n]) 0 =
   xor_sum n (\<lambda>i. (shift_mod poly ^^ (n - 1 - i)) a) b"
proof (induction n)
  case (Suc n)
  have "xor_sum n (\<lambda>i. (shift_mod poly ^^ (n - i)) a) b = shift_mod poly (xor_sum n (\<lambda>i. (shift_mod poly ^^ (n - 1 - i)) a) b)"
    unfolding xor_sum_map[OF shift.linear_map_axioms]
  proof (rule xor_sum_cong)
    fix i assume "i < n"
    then have "n - i = Suc (n - 1 - i)" by simp
    then show "(shift_mod poly ^^ (n - i)) a = shift_mod poly ((shift_mod poly ^^ (n - 1 - i)) a)" by (metis funpow.simps(2) comp_apply)
  qed
  with Suc show ?case by simp
qed simp

lemma horner_is_times:
  "fold (\<lambda>k x. shift_mod poly x XOR (if k then a else 0)) (bits b) 0 = gf_times poly a b"
  unfolding bits_def horner_is_sum gf_times_def ..

lemma bits_times: "times_bits (bits poly) (bits a) (bits b) = bits (gf_times poly a (b :: 'a::len word))"
proof -
  have "fold (\<lambda>k x. let x = shift_bits (bits poly) x in if k then xor_bits (bits a) x else x) ks (bits x)
    = bits (fold (\<lambda>k x. shift_mod poly x XOR (if k then a else 0)) ks x)" for ks x
    by (induction ks arbitrary: x) (simp_all add: bits_shift bits_xor ac_simps)
  from this[of "bits b" 0] show ?thesis by (simp add: times_bits_def horner_is_times flip: bits_zero)
qed

lemma x_pow_Suc: "x_pow poly (Suc n) = shift_mod poly (x_pow poly n)"
  by (simp add: x_pow_def)

lemma x_pow_zero: "x_pow poly 0 = gf_one"
  by (simp add: x_pow_def)

lemma bits_x_pow:
  "x_pow_bits (bits poly) (bits (gf_one :: 'a word)) ks = bits (x_pow (poly :: 'a::len word) (fold (\<lambda>k n. 2 * n + of_bool k) ks 0))"
proof -
  have sq: "gf_times poly (x_pow poly n) (x_pow poly n) = x_pow poly (2 * n)" for n
    by (simp add: mult_2 x_pow_add)
  have "fold (\<lambda>k x. let s = times_bits (bits poly) x x in if k then shift_bits (bits poly) s else s) ks (bits (x_pow poly n))
    = bits (x_pow poly (fold (\<lambda>k n. 2 * n + of_bool k) ks n))" for ks n
    by (induction ks arbitrary: n) (simp_all add: Let_def bits_times sq bits_shift flip: x_pow_Suc)
  from this[of ks 0] show ?thesis by (simp only: x_pow_bits_def x_pow_zero)
qed

section \<open>The order of the indeterminate\<close>

lemma bits_poly: "bits CRC32_REFLECTED_POLY = map (\<lambda>c. c = CHR ''1'') (rev ''11101101101110001000001100100000'')"
  unfolding bits_def CRC32_REFLECTED_POLY_def by (simp add: upt_conv_Cons)

lemma bits_one: "bits (gf_one :: u32) = replicate 31 False @ [True]"
  unfolding bits_def gf_one_def by (rule nth_equalityI) (auto simp: nth_append nth_Cons' bit_simps)

text \<open>The exponents are \<open>2^32 - 1\<close> and its quotients by the primes \<open>3\<close>, \<open>5\<close>, \<open>17\<close>, \<open>257\<close> and \<open>65537\<close>.\<close>

lemma x_pow_by_bits:
  assumes "fold (\<lambda>c n. 2 * n + of_bool (c = CHR ''1'')) s 0 = n"
  shows "x_pow CRC32_REFLECTED_POLY n = gf_one \<longleftrightarrow>
    x_pow_bits (bits CRC32_REFLECTED_POLY) (bits (gf_one :: u32)) (map (\<lambda>c. c = CHR ''1'') s) = bits (gf_one :: u32)"
  unfolding bits_x_pow using assms by (auto simp: fold_map comp_def dest: bits_inj)

lemma x_pow_full: "x_pow CRC32_REFLECTED_POLY 4294967295 = gf_one"
  unfolding x_pow_by_bits[of "''11111111111111111111111111111111''" 4294967295, simplified] bits_poly bits_one by code_simp

lemma x_pow_3: "x_pow CRC32_REFLECTED_POLY 1431655765 \<noteq> gf_one"
  unfolding x_pow_by_bits[of "''01010101010101010101010101010101''" 1431655765, simplified] bits_poly bits_one by code_simp

lemma x_pow_5: "x_pow CRC32_REFLECTED_POLY 858993459 \<noteq> gf_one"
  unfolding x_pow_by_bits[of "''00110011001100110011001100110011''" 858993459, simplified] bits_poly bits_one by code_simp

lemma x_pow_17: "x_pow CRC32_REFLECTED_POLY 252645135 \<noteq> gf_one"
  unfolding x_pow_by_bits[of "''00001111000011110000111100001111''" 252645135, simplified] bits_poly bits_one by code_simp

lemma x_pow_257: "x_pow CRC32_REFLECTED_POLY 16711935 \<noteq> gf_one"
  unfolding x_pow_by_bits[of "''00000000111111110000000011111111''" 16711935, simplified] bits_poly bits_one by code_simp

lemma x_pow_65537: "x_pow CRC32_REFLECTED_POLY 65535 \<noteq> gf_one"
  unfolding x_pow_by_bits[of "''00000000000000001111111111111111''" 65535, simplified] bits_poly bits_one by code_simp

lemma poly_top_bit: "bit CRC32_REFLECTED_POLY (LENGTH(32) - 1)"
  by (simp add: CRC32_REFLECTED_POLY_def)

lemma x_pow_cancel:
  assumes "bit poly (LENGTH('a) - 1)" "x_pow poly (m + k) = x_pow poly (n + k)"
  shows "x_pow poly m = x_pow (poly :: 'a::len word) n"
  using assms(2) by (induction k) (auto simp: x_pow_Suc dest: shift_mod_inj[OF assms(1)])

text \<open>The exponents at which the powers are one are closed under the greatest common divisor.\<close>

lemma x_pow_multiple: "x_pow poly m = gf_one \<Longrightarrow> x_pow poly (m * k) = gf_one"
  by (simp add: x_pow_mult)

lemma x_pow_dvd: "m dvd n \<Longrightarrow> x_pow poly m = gf_one \<Longrightarrow> x_pow poly n = gf_one"
  by (auto elim!: dvdE simp: x_pow_multiple)

lemma x_pow_gcd: "x_pow poly m = gf_one \<Longrightarrow> x_pow poly n = gf_one \<Longrightarrow> x_pow poly (gcd m n) = gf_one"
proof (induction m n rule: gcd_nat_induct)
  case (step m n)
  have "x_pow poly m = gf_times poly (x_pow poly (n * (m div n))) (x_pow poly (m mod n))"
    by (simp flip: x_pow_add)
  with step show ?case by (simp add: x_pow_multiple one_gf_times gcd_red_nat[of m n])
qed simp

lemma gcd_of_prime:
  fixes q e :: nat
  assumes "1 < q" "list_all (\<lambda>k. int q mod k \<noteq> 0) [2..int m - 1]" "q < m * m"
  shows "coprime q e \<or> q dvd e"
proof (rule ccontr)
  assume no: "\<not> ?thesis"
  define g where "g = gcd q e"
  have g: "g dvd q" "g \<noteq> 1" "g \<noteq> q" using no unfolding g_def by (auto simp: coprime_iff_gcd_eq_1 dest: gcd_nat.absorb_iff1[THEN iffD2])
  then obtain h where h: "q = g * h" by blast
  have "2 \<le> g" "2 \<le> h" using g h assms(1) by (cases g; cases h; force)+
  moreover have "g < m \<or> h < m" using h assms(3) by (metis mult_le_mono not_le)
  moreover have "\<not> k dvd q" if "2 \<le> k" "k < m" for k
    using assms(2) that by (auto simp: list_all_iff dvd_eq_mod_eq_0 simp flip: of_nat_mod dest!: bspec[of _ _ "int k"])
  ultimately show False using h by (metis dvd_triv_left dvd_triv_right)
qed

lemma no_divisors:
  "list_all (\<lambda>k. 3 mod k \<noteq> 0) [2..1 :: int]" "list_all (\<lambda>k. 5 mod k \<noteq> 0) [2..2 :: int]" "list_all (\<lambda>k. 17 mod k \<noteq> 0) [2..4 :: int]"
  "list_all (\<lambda>k. 257 mod k \<noteq> 0) [2..16 :: int]" "list_all (\<lambda>k. 65537 mod k \<noteq> 0) [2..256 :: int]"
  by code_simp+

lemma small_primes:
  fixes e :: nat
  shows "coprime 3 e \<or> 3 dvd e" "coprime 5 e \<or> 5 dvd e" "coprime 17 e \<or> 17 dvd e" "coprime 257 e \<or> 257 dvd e" "coprime 65537 e \<or> 65537 dvd e"
  using gcd_of_prime[of 3 2 e] gcd_of_prime[of 5 3 e] gcd_of_prime[of 17 5 e] gcd_of_prime[of 257 17 e] gcd_of_prime[of 65537 257 e] no_divisors
  by simp_all

lemma order_factor:
  assumes "d dvd 4294967295" "d < (4294967295 :: nat)"
  shows "d dvd 1431655765 \<or> d dvd 858993459 \<or> d dvd 252645135 \<or> d dvd 16711935 \<or> d dvd 65535"
proof -
  obtain e where e: "4294967295 = d * e" using assms(1) by blast
  have "e \<noteq> 1" using e assms(2) by auto
  have q: "coprime 3 e \<or> 3 dvd e" "coprime 5 e \<or> 5 dvd e" "coprime 17 e \<or> 17 dvd e" "coprime 257 e \<or> 257 dvd e" "coprime 65537 e \<or> 65537 dvd e"
    by (rule small_primes)+
  have "\<not> (coprime 3 e \<and> coprime 5 e \<and> coprime 17 e \<and> coprime 257 e \<and> coprime 65537 e)"
  proof
    assume "coprime 3 e \<and> coprime 5 e \<and> coprime 17 e \<and> coprime 257 e \<and> coprime 65537 e"
    then have "coprime (3 * 5 * 17 * 257 * 65537) e" by (simp only: coprime_mult_left_iff)
    then have "coprime 4294967295 e" by simp
    with e have "coprime e e" by (metis coprime_mult_left_iff)
    with \<open>e \<noteq> 1\<close> show False by simp
  qed
  then have "3 dvd e \<or> 5 dvd e \<or> 17 dvd e \<or> 257 dvd e \<or> 65537 dvd e" using q by blast
  then show ?thesis
  proof (elim disjE)
    assume "3 dvd e" then obtain k where "e = 3 * k" by blast
    with e have "1431655765 = d * k" by simp
    then show ?thesis by (metis dvd_triv_left)
  next
    assume "5 dvd e" then obtain k where "e = 5 * k" by blast
    with e have "858993459 = d * k" by simp
    then show ?thesis by (metis dvd_triv_left)
  next
    assume "17 dvd e" then obtain k where "e = 17 * k" by blast
    with e have "252645135 = d * k" by simp
    then show ?thesis by (metis dvd_triv_left)
  next
    assume "257 dvd e" then obtain k where "e = 257 * k" by blast
    with e have "16711935 = d * k" by simp
    then show ?thesis by (metis dvd_triv_left)
  next
    assume "65537 dvd e" then obtain k where "e = 65537 * k" by blast
    with e have "65535 = d * k" by simp
    then show ?thesis by (metis dvd_triv_left)
  qed
qed

definition field_order :: nat where
  "field_order = 4294967295"

lemma x_pow_not_one:
  assumes "0 < m" "m < field_order"
  shows "x_pow CRC32_REFLECTED_POLY m \<noteq> gf_one"
proof
  assume "x_pow CRC32_REFLECTED_POLY m = gf_one"
  then have d: "x_pow CRC32_REFLECTED_POLY (gcd m field_order) = gf_one"
    by (rule x_pow_gcd) (simp only: field_order_def x_pow_full)
  have "gcd m field_order < field_order" using assms gcd_le1_nat[of m field_order] by linarith
  then have "gcd m field_order dvd 1431655765 \<or> gcd m field_order dvd 858993459 \<or> gcd m field_order dvd 252645135
    \<or> gcd m field_order dvd 16711935 \<or> gcd m field_order dvd 65535"
    unfolding field_order_def by (rule order_factor[OF gcd_dvd2])
  then show False
    using x_pow_dvd[OF _ d] x_pow_3 x_pow_5 x_pow_17 x_pow_257 x_pow_65537 by (elim disjE) auto
qed

lemma x_pow_inj_le:
  assumes "m \<le> n" "n < field_order" "x_pow CRC32_REFLECTED_POLY m = x_pow CRC32_REFLECTED_POLY n"
  shows "m = n"
proof (rule ccontr)
  assume "m \<noteq> n"
  have "x_pow CRC32_REFLECTED_POLY (0 + m) = x_pow CRC32_REFLECTED_POLY ((n - m) + m)" using assms by simp
  then have "x_pow CRC32_REFLECTED_POLY 0 = x_pow CRC32_REFLECTED_POLY (n - m)" by (rule x_pow_cancel[OF poly_top_bit])
  moreover have "0 < n - m" "n - m < field_order" using assms \<open>m \<noteq> n\<close> by linarith+
  ultimately show False using x_pow_not_one[of "n - m"] by (simp add: x_pow_zero)
qed

lemma x_pow_inj:
  assumes "m < field_order" "n < field_order" "x_pow CRC32_REFLECTED_POLY m = x_pow CRC32_REFLECTED_POLY n"
  shows "m = n"
  using x_pow_inj_le[of m n] x_pow_inj_le[of n m] assms by (cases "m \<le> n") auto

end
