(* ===== verification/CRC_Combine.thy ===== *)
theory CRC_Combine
  imports CRC_Checksum CRC_Order
begin

text \<open>
  The functions of \<open>crc32.c\<close> on the two fields compute what the algebra says, and the checksums of two pieces give the
  checksum of both without looking at the pieces.
\<close>

section \<open>The loops compute products and powers\<close>

lemma and_one_bit: "a AND 1 \<noteq> 0 \<longleftrightarrow> bit a 0" for a :: "'a::len word"
  by (simp only: and_one_eq even_iff_mod_2_eq_zero[symmetric] bit_0)

lemma gf32_mulx_shift [simp]: "gf32_mulx a poly = shift_mod poly a"
  by (simp only: gf32_mulx_def shift_mod_code and_one_bit Let_def)

lemma gf64_mulx_shift [simp]: "gf64_mulx a = shift_mod CRC64_REFLECTED_POLY a"
  by (simp only: gf64_mulx_def shift_mod_code and_one_bit Let_def)

lemma map_bit_Suc: "map (bit b) [0..<Suc n] = bit b 0 # map (bit (drop_bit 1 b)) [0..<n]"
  by (simp add: upt_conv_Cons map_Suc_upt[symmetric] bit_drop_bit_eq comp_def del: upt_Suc)

lemma gf32_mul_times [simp]: "gf32_mul a b poly = gf_times poly a b"
proof -
  have "gf32_mul_loop a poly n b x = fold (\<lambda>k x. shift_mod poly x XOR (if k then a else 0)) (map (bit b) [0..<n]) x" for n b x
    by (induction n arbitrary: b x) (simp_all add: map_bit_Suc Let_def and_one_bit bit_0[symmetric] del: upt_Suc bit_0)
  then show ?thesis by (simp add: gf32_mul_def horner_is_times bits_def flip: horner_is_times)
qed

lemma gf64_mul_times [simp]: "gf64_mul a b = gf_times CRC64_REFLECTED_POLY a b"
proof -
  have "gf64_mul_loop a n b x = fold (\<lambda>k x. shift_mod CRC64_REFLECTED_POLY x XOR (if k then a else 0)) (map (bit b) [0..<n]) x" for n b x
    by (induction n arbitrary: b x) (simp_all add: map_bit_Suc Let_def and_one_bit bit_0[symmetric] del: upt_Suc bit_0)
  then show ?thesis by (simp add: gf64_mul_def horner_is_times bits_def flip: horner_is_times)
qed

lemma gf_one_32: "(0x80000000 :: u32) = gf_one"
  by (simp add: gf_one_def unit_bit_def)

lemma gf32_pow_power: "gf32_pow a k poly = gf_power poly a k"
proof (induction a k poly rule: gf32_pow.induct)
  case (1 a k poly)
  have sq: "gf_times poly a a = gf_power poly a 2" by (simp add: numeral_2_eq_2 gf_power_Suc)
  have double: "gf_power poly (gf_times poly a a) m = gf_power poly a (2 * m)" for m by (simp only: gf_power_mult sq)
  show ?case
  proof (cases "k = 0")
    case False
    have "gf32_pow (gf_times poly a a) (k div 2) poly = gf_power poly a (2 * (k div 2))" using 1 False by (simp add: double)
    then show ?thesis using False
      by (subst gf32_pow.simps) (auto simp: Let_def gf.commute gf_power_Suc elim!: oddE)
  qed (simp add: gf32_pow.simps gf_one_32)
qed

section \<open>Matrices\<close>

definition matrix_of :: "(u32 \<Rightarrow> u32) \<Rightarrow> u32 list" where
  "matrix_of L = map (\<lambda>i. L (unit_bit i)) [0..<32]"

lemma length_matrix_of [simp]: "length (matrix_of L) = 32"
  by (simp add: matrix_of_def)

lemma xor_sum_shift: "xor_sum (Suc n) f v = (if bit v 0 then f 0 else 0) XOR xor_sum n (\<lambda>i. f (Suc i)) (drop_bit 1 v)"
  by (induction n) (auto simp: bit_drop_bit_eq ac_simps)

lemma matrix_times_sum:
  "(\<And>i. length m \<le> i \<Longrightarrow> \<not> bit v i) \<Longrightarrow> gf32_matrix_times m v s = Some (s XOR xor_sum (length m) ((!) m) v)"
proof (induction m arbitrary: v s)
  case Nil
  then have "v = 0" by (intro bit_word_eqI) simp
  then show ?case by simp
next
  case (Cons c m)
  have "\<not> bit (drop_bit 1 v) i" if "length m \<le> i" for i using Cons.prems[of "Suc i"] that by (simp add: bit_drop_bit_eq)
  from Cons.IH[OF this] show ?case
    by (auto simp: xor_sum_shift and_one_bit bit_0[symmetric] xor.assoc xor.left_commute simp del: xor_sum.simps bit_0)
qed

lemma xor_sum_more: "LENGTH('b) \<le> n \<Longrightarrow> xor_sum n f (v :: 'b::len word) = xor_sum LENGTH('b) f v"
  by (induction n) (auto simp: le_Suc_eq dest: bit_imp_le_length)

lemma matrix_times_long:
  assumes "32 \<le> length m"
  shows "gf32_matrix_times m v 0 = Some (xor_sum 32 ((!) m) v)"
  using assms matrix_times_sum[of m v 0] xor_sum_more[of "length m" "(!) m" v] by (force dest: bit_imp_le_length)

lemma matrix_times_linear:
  assumes "linear_map L"
  shows "gf32_matrix_times (matrix_of L @ rest) v 0 = Some (L v)"
proof -
  have "xor_sum 32 ((!) (matrix_of L @ rest)) v = xor_sum 32 (\<lambda>i. L (unit_bit i)) v"
    by (rule xor_sum_cong) (simp add: nth_append, simp add: matrix_of_def)
  then show ?thesis using matrix_times_long[of "matrix_of L @ rest" v] linear_by_columns[OF assms, of v] by simp
qed

lemma those_Some: "those (map Some xs) = Some xs"
  by (induction xs) simp_all

lemma matrix_square_linear:
  assumes "linear_map L"
  shows "gf32_matrix_square (matrix_of L @ rest) = Some (matrix_of (L \<circ> L))"
proof -
  have "map (\<lambda>c. gf32_matrix_times (matrix_of L @ rest) c 0) (matrix_of L) = map Some (matrix_of (L \<circ> L))"
    by (simp add: matrix_times_linear[OF assms]) (simp add: matrix_of_def)
  then show ?thesis by (simp add: gf32_matrix_square_def those_Some)
qed

section \<open>The table of powers\<close>

definition power_table :: "u32 \<Rightarrow> nat \<Rightarrow> u32 list" where
  "power_table poly n = concat (map (\<lambda>k. matrix_of (shift_mod poly ^^ 2 ^ k)) [0..<n])"

lemma power_table_Suc: "power_table poly (Suc n) = power_table poly n @ matrix_of (shift_mod poly ^^ 2 ^ n)"
  by (simp add: power_table_def)

lemma length_power_table [simp]: "length (power_table poly n) = 32 * n"
  by (induction n) (simp_all add: power_table_Suc, simp add: power_table_def)

lemma drop_power_table: "k < n \<Longrightarrow> \<exists>rest. drop (32 * k) (power_table poly n) = matrix_of (shift_mod poly ^^ 2 ^ k) @ rest"
proof (induction n)
  case (Suc n)
  then show ?case by (cases "k = n") (auto simp: power_table_Suc)
qed simp

lemma fill_power_table: "fill_powers k (Suc n) (power_table poly (Suc n)) = Some (power_table poly (Suc n + k))"
proof (induction k arbitrary: n)
  case (Suc k)
  have "shift_mod poly ^^ 2 ^ n \<circ> shift_mod poly ^^ 2 ^ n = shift_mod poly ^^ 2 ^ Suc n"
    by (simp add: mult_2 flip: funpow_add)
  moreover obtain rest where "drop (32 * n) (power_table poly (Suc n)) = matrix_of (shift_mod poly ^^ 2 ^ n) @ rest"
    using drop_power_table[of n "Suc n"] by blast
  ultimately have "gf32_matrix_square (drop (32 * n) (power_table poly (Suc n))) = Some (matrix_of (shift_mod poly ^^ 2 ^ Suc n))"
    using matrix_square_linear[OF shifts.linear_map_axioms] by metis
  then show ?case using Suc[of "Suc n"] by (simp add: power_table_Suc[of poly "Suc n"])
qed simp

lemma first_matrix: "poly # map (\<lambda>n. push_bit n 1) [0..<31] = power_table poly (Suc 0)"
proof -
  have "map unit_bit [0..<31] = map (\<lambda>i. shift_mod poly (unit_bit i)) [1..<32]"
  proof (rule nth_equalityI)
    fix i assume "i < length (map unit_bit [0..<31] :: u32 list)"
    then show "map unit_bit [0..<31] ! i = map (\<lambda>i. shift_mod poly (unit_bit i)) [1..<32] ! i"
      using shifts_of_unit[of "Suc i" 1 poly] by simp
  qed simp
  then show ?thesis unfolding unit_bit_def[symmetric] by (simp add: power_table_def matrix_of_def upt_conv_Cons[of 0 32] shift_one)
qed

lemma shifts_nonzero:
  assumes "bit poly (LENGTH('a) - 1)" "a \<noteq> 0"
  shows "(shift_mod poly ^^ n) a \<noteq> (0 :: 'a::len word)"
  using assms(2) by (induction n) (auto dest: shift_mod_inj[OF assms(1), of _ 0, simplified])

lemma compute_powers:
  assumes "bit poly 31" "0 < n"
  shows "gf32_compute_powers_generic (32 * n) poly = Some (power_table poly n)"
proof -
  obtain m where m: "n = Suc m" using assms(2) by (cases n) auto
  have "power_table poly n ! (32 * n - 1) = matrix_of (shift_mod poly ^^ 2 ^ m) ! 31"
    by (simp add: m power_table_Suc nth_append)
  also have "\<dots> \<noteq> 0" using shifts_nonzero[of poly "unit_bit 31"] assms(1) bit_unit_bit[of 31 31, where 'a = 32]
    by (force simp: matrix_of_def simp del: bit_unit_bit)
  finally have "power_table poly n ! (32 * n - 1) \<noteq> 0" .
  moreover have "fill_powers (32 * n div 32 - 1) 1 (poly # map (\<lambda>n. push_bit n 1) [0..<31]) = Some (power_table poly n)"
    unfolding first_matrix using fill_power_table[of m 0 poly] by (simp add: m)
  ultimately show ?thesis using assms(2) unfolding gf32_compute_powers_generic_def by simp
qed

section \<open>Combination\<close>

lemma combine_loop:
  "len2 < 2 ^ (n - k) \<Longrightarrow> k + 1 < n \<Longrightarrow> len2 < 2 ^ (n - (k + 1)) \<Longrightarrow>
   gf32_combine_loop (drop (32 * k) (power_table poly n)) crc len2 = Some ((shift_mod poly ^^ (2 ^ (k + 1) * len2)) crc)"
proof (induction len2 arbitrary: k crc rule: less_induct)
  case (less len2)
  let ?S = "shift_mod poly"
  obtain rest where r: "drop (32 * (k + 1)) (power_table poly n) = matrix_of (?S ^^ 2 ^ (k + 1)) @ rest"
    using drop_power_table[of "k + 1" n poly] less.prems by blast
  define crc' where "crc' = (?S ^^ (2 ^ (k + 1) * (len2 mod 2))) crc"
  have one: "(if odd len2 then gf32_matrix_times (drop (32 * (k + 1)) (power_table poly n)) crc 0 else Some crc) = Some crc'"
    using matrix_times_linear[OF shifts.linear_map_axioms] unfolding r crc'_def by (simp add: odd_iff_mod_2_eq_one even_iff_mod_2_eq_zero)
  have dd: "drop 32 (drop (32 * k) (power_table poly n)) = drop (32 * (k + 1)) (power_table poly n)" by (simp add: algebra_simps)
  have split: "(?S ^^ (2 ^ (k + 1) * len2)) crc = (?S ^^ (2 ^ (k + 2) * (len2 div 2))) crc'"
  proof -
    have "2 ^ (k + 1) * len2 = 2 ^ (k + 2) * (len2 div 2) + 2 ^ (k + 1) * (len2 mod 2)"
    proof -
      have "2 ^ (k + 1) * len2 = 2 ^ (k + 1) * (2 * (len2 div 2) + len2 mod 2)" by simp
      then show ?thesis by (simp only: distrib_left) simp
    qed
    then show ?thesis by (simp only: crc'_def funpow_add comp_apply)
  qed
  show ?case
  proof (cases "len2 div 2 = 0")
    case True
    then show ?thesis unfolding split by (subst gf32_combine_loop.simps) (simp only: Let_def dd one bind.simps, simp)
  next
    case False
    have n: "n - (k + 1) = Suc (n - (k + 2))" "k + 1 + 1 < n"
    proof -
      have "n - (k + 1) \<noteq> 1" using less.prems(3) False by (cases "len2 < 2") auto
      then show "k + 1 + 1 < n" using less.prems(2) by linarith
      then show "n - (k + 1) = Suc (n - (k + 2))" by linarith
    qed
    have "len2 div 2 < 2 ^ (n - (k + 2))" using less.prems(3) n by simp
    then have "gf32_combine_loop (drop (32 * (k + 1)) (power_table poly n)) crc' (len2 div 2) = Some ((?S ^^ (2 ^ (k + 1 + 1) * (len2 div 2))) crc')"
      using False n by (intro less.IH) auto
    then show ?thesis unfolding split using False by (subst gf32_combine_loop.simps) (simp only: Let_def dd one bind.simps, simp)
  qed
qed


lemma crc_bitwise_append: "crc_bitwise poly (a @ b) crc = crc_bitwise poly b (crc_bitwise poly a crc)"
  by (simp add: crc_bitwise_def)

lemma crc_bitwise_xor:
  assumes "8 \<le> LENGTH('a)"
  shows "crc_bitwise poly b (c XOR d) = (shift_mod poly ^^ (8 * length b)) c XOR crc_bitwise poly b (d :: 'a::len word)"
proof (induction b arbitrary: c d)
  case (Cons x b)
  have "crc_byte poly x (c XOR d) = (shift_mod poly ^^ 8) c XOR crc_byte poly x d"
    by (simp add: crc_byte_def shifts.add ac_simps)
  moreover have "(shift_mod poly ^^ (8 * length (x # b))) c = (shift_mod poly ^^ (8 * length b)) ((shift_mod poly ^^ 8) c)"
    by (simp add: ac_simps flip: funpow_add comp_apply[of "shift_mod poly ^^ _"])
  ultimately show ?case using Cons by (simp add: crc_bitwise_is_bytes[OF assms])
qed (simp add: crc_bitwise_def)

text \<open>The checksum proper, with its first and last complement.\<close>

definition crc_sum :: "'a::len word \<Rightarrow> byte list \<Rightarrow> 'a word" where
  "crc_sum poly data = crc_bitwise poly data (- 1) XOR (- 1)"

lemma crc_sum_append:
  assumes "8 \<le> LENGTH('a)"
  shows "crc_sum poly (a @ b) = (shift_mod poly ^^ (8 * length b)) (crc_sum poly a) XOR crc_sum (poly :: 'a::len word) b"
proof -
  have "crc_sum poly (a @ b) = crc_bitwise poly b (crc_sum poly a XOR (- 1)) XOR (- 1)"
    by (simp add: crc_bitwise_append crc_sum_def)
  also have "\<dots> = (shift_mod poly ^^ (8 * length b)) (crc_sum poly a) XOR (crc_bitwise poly b (- 1) XOR (- 1))"
    by (simp only: crc_bitwise_xor[OF assms] xor.assoc)
  finally show ?thesis by (simp only: crc_sum_def)
qed

lemma combine_powers:
  assumes "bit poly 31" "powers = replicate (32 * 67) 0 \<or> powers = power_table poly 67" "0 < len2" "len2 < 2 ^ 63"
  shows "combine_generic poly powers crc1 crc2 len2 = Some ((shift_mod poly ^^ (8 * nat len2)) crc1 XOR crc2, power_table poly 67)"
proof -
  have P: "(if powers ! (32 * 67 - 1) = 0 then gf32_compute_powers_generic (32 * 67) poly else Some powers) = Some (power_table poly 67)"
    using assms(2) compute_powers[OF assms(1), of 67] by auto
  have "nat len2 < 2 ^ 63" using assms(3,4) by (simp add: nat_less_iff)
  then have "gf32_combine_generic (power_table poly 67) crc1 (nat len2) = Some ((shift_mod poly ^^ (8 * nat len2)) crc1)"
    using combine_loop[of "nat len2" 67 2 poly crc1] by (simp add: gf32_combine_generic_def)
  with P assms(3) show ?thesis by (simp add: combine_generic_def)
qed

end
