(* ===== verification/CRC_Combine64.thy ===== *)
theory CRC_Combine64
  imports CRC_Combine
begin

text \<open>The combination of checksums of 64 bits, by products in the field instead of matrices.\<close>

section \<open>The constants of the power table\<close>

lemma poly64_top: "bit CRC64_REFLECTED_POLY (LENGTH(64) - 1)"
  by (simp add: CRC64_REFLECTED_POLY_def)

lemma x_pow_unit: "k < LENGTH('a) \<Longrightarrow> x_pow poly k = (unit_bit (LENGTH('a) - 1 - k) :: 'a::len word)"
  by (simp add: x_pow_def gf_one_def shifts_of_unit)

lemma x_pow_top: "1 < LENGTH('a) \<Longrightarrow> x_pow poly LENGTH('a) = (poly :: 'a::len word)"
proof -
  assume l: "1 < LENGTH('a)"
  then obtain m where m: "LENGTH('a) = Suc m" by (cases "LENGTH('a)") auto
  then show ?thesis using l x_pow_unit[of m poly] by (simp add: x_pow_Suc shift_one)
qed

lemma x_pow_values:
  fixes w :: "'a::len word"
  assumes "x_pow_bits (bits poly) (bits (gf_one :: 'a word)) ks = bits w" "fold (\<lambda>k n. 2 * n + of_bool k) ks 0 = n"
  shows "x_pow poly n = w"
  using assms unfolding bits_x_pow by (auto dest: bits_inj)

lemma bits64_poly: "bits CRC64_REFLECTED_POLY = map (\<lambda>c. c = CHR ''1'') (rev ''1100100101101100010101111001010111010111100001110000111101000010'')"
  unfolding bits_def CRC64_REFLECTED_POLY_def by (simp add: upt_conv_Cons)

lemma bits64_one: "bits (gf_one :: 64 word) = replicate 63 False @ [True]"
  unfolding bits_def gf_one_def by (rule nth_equalityI) (auto simp: nth_append nth_Cons' bit_simps)

lemma bits_x95: "bits (0x1dee8a5e222ca1dc :: 64 word) = map (\<lambda>c. c = CHR ''1'') (rev ''0001110111101110100010100101111000100010001011001010000111011100'')"
  unfolding bits_def by (simp add: upt_conv_Cons)

lemma x_pow_95: "x_pow CRC64_REFLECTED_POLY 95 = 0x1dee8a5e222ca1dc"
  by (rule x_pow_values[of _ "[True, False, True, True, True, True, True]"], unfold bits64_poly bits64_one bits_x95, code_simp, simp)

lemma bits_x127: "bits (0xdabe95afc7875f40 :: 64 word) = map (\<lambda>c. c = CHR ''1'') (rev ''1101101010111110100101011010111111000111100001110101111101000000'')"
  unfolding bits_def by (simp add: upt_conv_Cons)

lemma x_pow_127: "x_pow CRC64_REFLECTED_POLY 127 = 0xdabe95afc7875f40"
  by (rule x_pow_values[of _ "[True, True, True, True, True, True, True]"], unfold bits64_poly bits64_one bits_x127, code_simp, simp)

lemma bits_x191: "bits (0xe05dd497ca393ae4 :: 64 word) = map (\<lambda>c. c = CHR ''1'') (rev ''1110000001011101110101001001011111001010001110010011101011100100'')"
  unfolding bits_def by (simp add: upt_conv_Cons)

lemma x_pow_191: "x_pow CRC64_REFLECTED_POLY 191 = 0xe05dd497ca393ae4"
  by (rule x_pow_values[of _ "[True, False, True, True, True, True, True, True]"], unfold bits64_poly bits64_one bits_x191, code_simp, simp)

lemma bits_x255: "bits (0x3be653a30fe1af51 :: 64 word) = map (\<lambda>c. c = CHR ''1'') (rev ''0011101111100110010100111010001100001111111000011010111101010001'')"
  unfolding bits_def by (simp add: upt_conv_Cons)

lemma x_pow_255: "x_pow CRC64_REFLECTED_POLY 255 = 0x3be653a30fe1af51"
  by (rule x_pow_values[of _ "[True, True, True, True, True, True, True, True]"], unfold bits64_poly bits64_one bits_x255, code_simp, simp)

lemma bits_x319: "bits (0x60095b008a9efa44 :: 64 word) = map (\<lambda>c. c = CHR ''1'') (rev ''0110000000001001010110110000000010001010100111101111101001000100'')"
  unfolding bits_def by (simp add: upt_conv_Cons)

lemma x_pow_319: "x_pow CRC64_REFLECTED_POLY 319 = 0x60095b008a9efa44"
  by (rule x_pow_values[of _ "[True, False, False, True, True, True, True, True, True]"], unfold bits64_poly bits64_one bits_x319, code_simp, simp)

section \<open>The table\<close>

definition step_power :: "nat \<Rightarrow> 64 word" where
  "step_power k = x_pow CRC64_REFLECTED_POLY (8 * 2 ^ k - 1)"

lemma shift_step_power: "shift_mod CRC64_REFLECTED_POLY (step_power k) = x_pow CRC64_REFLECTED_POLY (8 * 2 ^ k)"
proof -
  obtain m where "8 * 2 ^ k = Suc m" by (cases "8 * 2 ^ k :: nat") auto
  then show ?thesis by (simp add: step_power_def x_pow_Suc)
qed

lemma step_power_Suc: "shift_mod CRC64_REFLECTED_POLY (gf_times CRC64_REFLECTED_POLY (step_power k) (step_power k)) = step_power (Suc k)"
proof -
  obtain m where m: "8 * 2 ^ k = Suc m" by (cases "8 * 2 ^ k :: nat") auto
  have "8 * 2 ^ Suc k - 1 = Suc (m + m)" using m by simp
  then show ?thesis using m by (simp add: step_power_def x_pow_add x_pow_Suc del: power_Suc)
qed

lemma first_step_power: "push_bit (63 - 7) 1 = step_power 0"
  by (simp add: step_power_def x_pow_unit unit_bit_def)

lemma power_pairs_steps:
  "power_pairs n (step_power k) = concat (map (\<lambda>i. [gf_times CRC64_REFLECTED_POLY (step_power i) CRC64_REFLECTED_POLY, step_power i]) [k..<k + n])"
proof (induction n arbitrary: k)
  case (Suc n)
  have "[k..<k + Suc n] = k # [Suc k..<Suc k + n]" by (simp add: upt_conv_Cons del: upt_Suc)
  then show ?case using Suc[of "Suc k"] by (simp only:) (simp add: step_power_Suc del: upt_Suc)
qed simp

definition pair_table :: "nat \<Rightarrow> 64 word list" where
  "pair_table n = concat (map (\<lambda>i. [gf_times CRC64_REFLECTED_POLY (step_power i) CRC64_REFLECTED_POLY, step_power i]) [0..<n])"

lemma length_pair_table [simp]: "length (pair_table n) = 2 * n"
  by (induction n) (simp_all add: pair_table_def)

lemma nth_pair_table:
  "i < n \<Longrightarrow> pair_table n ! (2 * i) = gf_times CRC64_REFLECTED_POLY (step_power i) CRC64_REFLECTED_POLY"
  "i < n \<Longrightarrow> pair_table n ! (2 * i + 1) = step_power i"
proof (induction n)
  case (Suc n)
  have S: "pair_table (Suc n) = pair_table n @ [gf_times CRC64_REFLECTED_POLY (step_power n) CRC64_REFLECTED_POLY, step_power n]"
    by (simp add: pair_table_def)
  { case 1 then show ?case using Suc.IH(1) by (cases "i = n") (auto simp: S nth_append) }
  { case 2 then show ?case using Suc.IH(2) by (cases "i = n") (auto simp: S nth_append) }
qed simp_all

lemma times_poly64: "gf_times CRC64_REFLECTED_POLY (x_pow CRC64_REFLECTED_POLY m) CRC64_REFLECTED_POLY = x_pow CRC64_REFLECTED_POLY (m + 64)"
proof -
  have "x_pow CRC64_REFLECTED_POLY 64 = CRC64_REFLECTED_POLY" using x_pow_top[of CRC64_REFLECTED_POLY] by simp
  then show ?thesis by (simp add: x_pow_add)
qed

lemma init_power_buf: "crc64_init_power_buf = Some (pair_table 63)"
proof -
  have T: "power_pairs 63 (push_bit (63 - 7) 1) = pair_table 63"
    unfolding first_step_power power_pairs_steps pair_table_def by simp
  have "x_pow CRC64_REFLECTED_POLY m \<noteq> 0" for m
    unfolding x_pow_def by (rule shifts_nonzero[OF poly64_top]) (simp add: gf_one_def unit_bit_def)
  then have last: "pair_table 63 ! 125 \<noteq> 0" using nth_pair_table(2)[of 62 63] by (simp add: step_power_def)
  have odd: "pair_table 63 ! 3 = push_bit (63 - 15) 1" "pair_table 63 ! 5 = push_bit (63 - 31) 1" "pair_table 63 ! 7 = 1"
    using nth_pair_table(2)[of 1 63] nth_pair_table(2)[of 2 63] nth_pair_table(2)[of 3 63] by (simp_all add: step_power_def x_pow_unit unit_bit_def)
  have rest: "pair_table 63 ! 4 = 0x1dee8a5e222ca1dc" "pair_table 63 ! 6 = 0xdabe95afc7875f40" "pair_table 63 ! 8 = 0xe05dd497ca393ae4"
    "pair_table 63 ! 9 = 0xdabe95afc7875f40" "pair_table 63 ! 10 = 0x60095b008a9efa44" "pair_table 63 ! 11 = 0x3be653a30fe1af51"
    using nth_pair_table(1)[of 2 63] nth_pair_table(1)[of 3 63] nth_pair_table(1)[of 4 63] nth_pair_table(2)[of 4 63] nth_pair_table(1)[of 5 63] nth_pair_table(2)[of 5 63]
    by (simp_all add: step_power_def times_poly64, simp_all add: x_pow_95 x_pow_127 x_pow_191 x_pow_255 x_pow_319)
  show ?thesis unfolding crc64_init_power_buf_def T Let_def using last odd rest by simp
qed

section \<open>Combination\<close>

lemma ffsll_spec: "0 < n \<Longrightarrow> 0 < ffsll n \<and> (\<exists>m. n = 2 ^ (ffsll n - 1) * (2 * m + 1))"
proof (induction n rule: ffsll.induct)
  case (1 n)
  show ?case
  proof (cases "odd n")
    case True
    then show ?thesis by (subst (1 2) ffsll.simps) (auto elim: oddE)
  next
    case False
    then have "0 < n div 2" using 1(2) by auto
    with 1(1)[OF _ False] 1(2) obtain m where m: "0 < ffsll (n div 2)" "n div 2 = 2 ^ (ffsll (n div 2) - 1) * (2 * m + 1)" by auto
    have f: "ffsll n = Suc (ffsll (n div 2))" using False 1(2) by (subst ffsll.simps) auto
    have "n = 2 * (n div 2)" using False by simp
    also have "\<dots> = 2 ^ (ffsll n - 1) * (2 * m + 1)"
      using m by (cases "ffsll (n div 2)") (auto simp: f)
    finally show ?thesis using f by auto
  qed
qed

lemma combine64_steps:
  "m < 2 ^ (n - 1 - k) \<Longrightarrow> k < n \<Longrightarrow>
   combine64_loop (pair_table n) (2 * k + 1) crc m = Some (gf_times CRC64_REFLECTED_POLY crc (x_pow CRC64_REFLECTED_POLY (8 * 2 ^ (k + 1) * m)))"
proof (induction m arbitrary: k crc rule: less_induct)
  case (less m)
  let ?P = CRC64_REFLECTED_POLY
  show ?case
  proof (cases "m = 0")
    case True
    then show ?thesis by (simp add: combine64_loop.simps x_pow_zero)
  next
    case False
    have k: "k + 1 < n" using less.prems False by (cases "k + 1 = n") auto
    define crc' where "crc' = gf_times ?P crc (x_pow ?P (8 * 2 ^ (k + 1) * (m mod 2)))"
    have e: "2 * k + 1 + 2 = 2 * (k + 1) + 1" "2 * (k + 1) + 1 < length (pair_table n)" using k by simp_all
    have bound: "m div 2 < 2 ^ (n - 1 - (k + 1))"
    proof -
      have "n - 1 - k = Suc (n - 1 - (k + 1))" using k by simp
      with less.prems(1) show ?thesis by simp
    qed
    have shiftp: "shift_mod ?P (pair_table n ! (2 * (k + 1) + 1)) = x_pow ?P (8 * 2 ^ (k + 1))"
      using k by (simp only: nth_pair_table(2) shift_step_power)
    have "combine64_loop (pair_table n) (2 * k + 1) crc m = combine64_loop (pair_table n) (2 * (k + 1) + 1) crc' (m div 2)"
    proof (cases "odd m")
      case True
      then have "crc' = gf_times ?P crc (x_pow ?P (8 * 2 ^ (k + 1)))" by (simp add: crc'_def odd_iff_mod_2_eq_one)
      with True False show ?thesis by (subst combine64_loop.simps) (simp only: e shiftp gf64_mul_times gf64_mulx_shift if_True if_False not_False_eq_True)
    next
      case even: False
      then have "crc' = crc" by (simp add: crc'_def even_iff_mod_2_eq_zero x_pow_zero)
      with even False show ?thesis by (subst combine64_loop.simps) (simp only: e if_True if_False)
    qed
    also have "\<dots> = Some (gf_times ?P crc' (x_pow ?P (8 * 2 ^ (k + 1 + 1) * (m div 2))))"
      using bound k False by (intro less.IH) auto
    also have "gf_times ?P crc' (x_pow ?P (8 * 2 ^ (k + 1 + 1) * (m div 2))) = gf_times ?P crc (x_pow ?P (8 * 2 ^ (k + 1) * m))"
    proof -
      have "8 * 2 ^ (k + 1) * m = 8 * 2 ^ (k + 1) * (m mod 2) + 8 * 2 ^ (k + 1 + 1) * (m div 2)"
      proof -
        have "8 * 2 ^ (k + 1) * m = 8 * 2 ^ (k + 1) * (m mod 2 + 2 * (m div 2))" by simp
        then show ?thesis by (simp only: distrib_left) simp
      qed
      then show ?thesis by (simp only: crc'_def x_pow_add gf.assoc)
    qed
    finally show ?thesis .
  qed
qed

lemma combine64:
  assumes "buf = replicate 126 0 \<or> buf = pair_table 63" "0 < len2" "len2 < 2 ^ 63"
  shows "compute_crc64_combine_generic buf crc1 crc2 len2 =
    Some ((shift_mod CRC64_REFLECTED_POLY ^^ (8 * nat len2)) crc1 XOR crc2, pair_table 63)"
proof -
  let ?P = CRC64_REFLECTED_POLY
  have B: "(if buf ! 125 = 0 then crc64_init_power_buf else Some buf) = Some (pair_table 63)"
    using assms(1) init_power_buf by auto
  define l where "l = nat len2"
  have l: "0 < l" "l < 2 ^ 63" using assms(2,3) by (simp_all add: l_def nat_less_iff)
  obtain m where m: "0 < ffsll l" "l = 2 ^ (ffsll l - 1) * (2 * m + 1)" using ffsll_spec[OF l(1)] by blast
  define k where "k = ffsll l - 1"
  have k: "ffsll l = Suc k" "l = 2 ^ k * (2 * m + 1)" using m by (simp_all add: k_def)
  have k63: "k < 63"
  proof -
    have "2 ^ k \<le> l" using k(2) by simp
    then have "(2 :: nat) ^ k < 2 ^ 63" using l(2) by linarith
    then show ?thesis by (simp only: power_strict_increasing_iff)
  qed
  have div: "l div 2 ^ Suc k = m"
  proof -
    have "l = 2 ^ k + 2 ^ Suc k * m" using k(2) by (simp add: algebra_simps)
    then show ?thesis by simp
  qed
  have "m < 2 ^ (63 - 1 - k)"
  proof (rule ccontr)
    assume "\<not> m < 2 ^ (63 - 1 - k)"
    then have "2 ^ Suc k * 2 ^ (63 - 1 - k) \<le> 2 ^ Suc k * m" by simp
    moreover have "(2 :: nat) ^ Suc k * 2 ^ (63 - 1 - k) = 2 ^ 63" unfolding power_add[symmetric] using k63 by simp
    moreover have "2 ^ Suc k * m \<le> l" using k(2) by (simp add: algebra_simps)
    ultimately show False using l(2) by linarith
  qed
  note steps = combine64_steps[OF this k63, of "gf_times ?P crc1 (x_pow ?P (8 * 2 ^ k))"]
  have exp: "8 * l = 8 * 2 ^ k + 8 * 2 ^ (k + 1) * m" using k(2) by (simp add: algebra_simps)
  have first: "gf_times ?P crc1 (shift_mod ?P (pair_table 63 ! (2 * k + 1))) = gf_times ?P crc1 (x_pow ?P (8 * 2 ^ k))"
    using k63 by (simp only: nth_pair_table(2) shift_step_power)
  have result: "gf_times ?P (gf_times ?P crc1 (x_pow ?P (8 * 2 ^ k))) (x_pow ?P (8 * 2 ^ (k + 1) * m)) = (shift_mod ?P ^^ (8 * l)) crc1"
  proof -
    have "(shift_mod ?P ^^ (8 * l)) crc1 = gf_times ?P crc1 (x_pow ?P (8 * l))" by (simp only: shifts_as_times gf.commute)
    then show ?thesis by (simp only: exp x_pow_add gf.assoc)
  qed
  have p: "2 * (ffsll l - 1) + 1 = 2 * k + 1" "2 * k + 1 < length (pair_table 63)" using k(1) k63 by simp_all
  show ?thesis
    unfolding compute_crc64_combine_generic_def B l_def[symmetric] k(1)[symmetric] using assms(2)
    by (simp only: not_le[symmetric] if_False bind.bind_lunit Let_def p if_True gf64_mul_times gf64_mulx_shift first) (use k63 in \<open>simp add: k(1) div[simplified] steps[simplified] result[simplified]\<close>)
qed

end
