(* ===== verification/CRC_Repair.thy ===== *)
theory CRC_Repair
  imports CRC_Combine64
begin

text \<open>
  The search for a corrupted bit by small and large steps, and what \<open>crc32_check_and_repair\<close> makes of its answer.
\<close>

section \<open>The rounded root\<close>

lemma int_root_bounds: "int_root n * int_root n \<le> n \<and> n < (int_root n + 1) * (int_root n + 1)"
proof (induction n rule: int_root.induct)
  case (1 n)
  show ?case
  proof (cases "n = 0")
    case False
    define t where "t = int_root (n div 4)"
    have t: "t * t \<le> n div 4" "n div 4 < (t + 1) * (t + 1)" using 1 False by (simp_all add: t_def)
    have "4 * (t * t) \<le> n" using t(1) by linarith
    moreover have "n < 4 * ((t + 1) * (t + 1))" using t(2) by linarith
    moreover have "int_root n = (if (2 * t + 1) * (2 * t + 1) \<le> n then 2 * t + 1 else 2 * t)"
      using False by (subst int_root.simps) (simp add: Let_def t_def)
    ultimately show ?thesis by (simp add: algebra_simps split: if_split)
  qed (simp add: int_root.simps)
qed

lemma rounded_root_bounds:
  assumes "0 < n"
  shows "0 < rounded_root n" "rounded_root n \<le> n"
proof -
  note b = int_root_bounds[of n]
  have s: "0 < int_root n" using b assms by (cases "int_root n") auto
  then have "int_root n \<le> int_root n * int_root n" by simp
  then show "0 < rounded_root n" "rounded_root n \<le> n" using s b unfolding rounded_root_def Let_def by (simp_all, linarith)
qed

section \<open>The table of small powers\<close>

abbreviation "P32 \<equiv> CRC32_REFLECTED_POLY"

lemma fcb_entries_powers: "fcb_entries r i (x_pow P32 i) = map (\<lambda>k. (x_pow P32 k, k)) [i..<i + r]"
proof (induction r arbitrary: i)
  case (Suc r)
  have "[i..<i + Suc r] = i # [Suc i..<Suc i + r]" by (simp add: upt_conv_Cons del: upt_Suc)
  then show ?case using Suc[of "Suc i"] by (simp only:) (simp add: x_pow_Suc del: upt_Suc)
qed simp

definition small_powers :: "nat \<Rightarrow> (u32 \<times> nat) list" where
  "small_powers r = sort (fcb_entries r 0 0x80000000)"

lemma set_small_powers: "set (small_powers r) = (\<lambda>k. (x_pow P32 k, k)) ` {..<r}"
  using fcb_entries_powers[of r 0] by (simp add: small_powers_def gf_one_32 x_pow_zero atLeast0LessThan)

lemma length_fcb [simp]: "length (fcb_entries r i p) = r"
  by (induction r arbitrary: i p) simp_all

lemma length_small_powers [simp]: "length (small_powers r) = r"
  by (simp add: small_powers_def)

lemma small_powers_sorted:
  assumes "i \<le> j" "j < r"
  shows "fst (small_powers r ! i) \<le> fst (small_powers r ! j)"
proof -
  have "small_powers r ! i \<le> small_powers r ! j"
    using assms by (intro sorted_nth_mono) (simp_all add: small_powers_def)
  then show ?thesis by (auto simp: less_eq_prod_def)
qed

text \<open>The search by halving: the last entry that is not larger.\<close>

lemma fcb_search_spec:
  assumes "\<And>i j. i \<le> j \<Longrightarrow> j < length T \<Longrightarrow> fst (T ! i) \<le> fst (T ! j)"
  shows "-1 \<le> a \<Longrightarrow> a < b \<Longrightarrow> b \<le> int (length T) \<Longrightarrow> (a < 0 \<or> fst (T ! nat a) \<le> x) \<Longrightarrow>
    (b = int (length T) \<or> x < fst (T ! nat b)) \<Longrightarrow>
    (let c = fcb_search T x a b in -1 \<le> c \<and> c < int (length T) \<and> (c < 0 \<or> fst (T ! nat c) \<le> x)
      \<and> (c + 1 = int (length T) \<or> x < fst (T ! nat (c + 1))))"
proof (induction T x a b rule: fcb_search.induct)
  case (1 T x a b)
  show ?case
  proof (cases "b - a > 1")
    case True
    define c where "c = (a + b) div 2"
    have c: "a < c" "c < b" using True by (simp_all add: c_def)
    show ?thesis
    proof (cases "fst (T ! nat c) \<le> x")
      case le: True
      have "fcb_search T x a b = fcb_search T x c b" using True le by (subst fcb_search.simps) (simp add: Let_def c_def)
      then show ?thesis using 1(1)[OF True c_def le] 1(3-) c le by simp
    next
      case gt: False
      have "fcb_search T x a b = fcb_search T x a c" using True gt by (subst fcb_search.simps) (simp add: Let_def c_def)
      then show ?thesis using 1(2)[OF True c_def gt] 1(3-) c gt by simp
    qed
  next
    case False
    then have "fcb_search T x a b = a" "b = a + 1" using 1(4) by (simp_all add: fcb_search.simps)
    with 1(3-) show ?thesis by (auto simp: Let_def)
  qed
qed

lemma search_small_powers:
  fixes x :: u32
  assumes "0 < r"
  defines "c \<equiv> fcb_search (small_powers r) x (-1) (int r)"
  shows "c \<ge> 0 \<and> fst (small_powers r ! nat c) = x \<Longrightarrow> \<exists>k < r. small_powers r ! nat c = (x_pow P32 k, k) \<and> x = x_pow P32 k"
    and "\<not> (c \<ge> 0 \<and> fst (small_powers r ! nat c) = x) \<Longrightarrow> k < r \<Longrightarrow> x \<noteq> x_pow P32 k"
proof -
  let ?T = "small_powers r"
  have sp: "-1 \<le> c" "c < int r" "c < 0 \<or> fst (?T ! nat c) \<le> x" "c + 1 = int r \<or> x < fst (?T ! nat (c + 1))"
    using fcb_search_spec[of ?T "-1" "int r" x] small_powers_sorted[of _ _ r] assms(1) by (simp_all add: c_def Let_def)
  { assume h: "c \<ge> 0 \<and> fst (?T ! nat c) = x"
    then have "?T ! nat c \<in> set ?T" using sp(2) by (intro nth_mem) (simp add: nat_less_iff)
    then show "\<exists>k < r. ?T ! nat c = (x_pow P32 k, k) \<and> x = x_pow P32 k" using h unfolding set_small_powers by auto }
  { assume n: "\<not> (c \<ge> 0 \<and> fst (?T ! nat c) = x)" and k: "k < r"
    show "x \<noteq> x_pow P32 k"
    proof
      assume "x = x_pow P32 k"
      then have "(x, k) \<in> set ?T" using k by (auto simp: set_small_powers)
      then obtain i where i: "i < r" "?T ! i = (x, k)" by (auto simp: in_set_conv_nth)
      show False
      proof (cases "int i \<le> c")
        case True
        then have "fst (?T ! i) \<le> fst (?T ! nat c)" using sp(2) by (intro small_powers_sorted) auto
        then show False using n i sp(3) True by auto
      next
        case False
        then have "c + 1 \<noteq> int r" "nat (c + 1) \<le> i" using i(1) sp(1) by linarith+
        then have "fst (?T ! nat (c + 1)) \<le> fst (?T ! i)" using i(1) by (intro small_powers_sorted)
        then show False using sp(4) \<open>c + 1 \<noteq> int r\<close> i(2) by auto
      qed
    qed }
qed


section \<open>Large steps\<close>

text \<open>\<open>0xdb710641\<close> is the inverse of \<open>x\<close>, and the matrix multiplies by its power \<open>q\<close>.\<close>

lemma inverse_x: "shift_mod P32 0xdb710641 = gf_one"
  unfolding gf_one_32[symmetric] CRC32_REFLECTED_POLY_def by (simp add: shift_mod_code)

lemma inverse_power: "gf_times P32 (gf_power P32 0xdb710641 r) (x_pow P32 r) = gf_one"
proof (induction r)
  case (Suc r)
  have one: "gf_times P32 0xdb710641 (x_pow P32 1) = gf_one"
    using shifts_as_times[of 1 P32 "0xdb710641"] inverse_x by (simp add: gf.commute)
  have "x_pow P32 (Suc r) = gf_times P32 (x_pow P32 1) (x_pow P32 r)" using x_pow_add[of P32 1 r] by simp
  then have "gf_times P32 (gf_power P32 0xdb710641 (Suc r)) (x_pow P32 (Suc r))
      = gf_times P32 (gf_times P32 0xdb710641 (x_pow P32 1)) (gf_times P32 (gf_power P32 0xdb710641 r) (x_pow P32 r))"
    by (simp only: gf_power_Suc gf.assoc gf.left_commute gf.commute)
  then show ?case by (simp only: one Suc gf.right_neutral)
qed (simp add: x_pow_zero one_gf_times)

lemma column_chain_columns:
  assumes "\<And>k. k < length A \<Longrightarrow> A ! k = (shift_mod P32 ^^ (length A - 1 - k)) q0" "A \<noteq> []" "q = A ! 0"
  shows "length (column_chain i q A) = i + length A \<and>
    (\<forall>k < i + length A. column_chain i q A ! k = (shift_mod P32 ^^ (i + length A - 1 - k)) q0)"
  using assms
proof (induction i arbitrary: q A)
  case (Suc i)
  let ?q = "shift_mod P32 q"
  have "(?q # A) ! k = (shift_mod P32 ^^ (length (?q # A) - 1 - k)) q0" if "k < length (?q # A)" for k
  proof (cases k)
    case 0
    have "?q = shift_mod P32 ((shift_mod P32 ^^ (length A - 1)) q0)" using Suc.prems by simp
    also have "\<dots> = (shift_mod P32 ^^ length A) q0" using Suc.prems(2) by (cases A) auto
    finally show ?thesis using 0 by simp
  next
    case (Suc m)
    then show ?thesis using Suc.prems(1)[of m] that by simp
  qed
  then show ?case using Suc.IH[of "?q # A" ?q] by (simp add: Let_def)
qed simp

lemma column_matrix: "gf32_matrix_times (column_chain 31 q [q]) v 0 = Some (gf_times P32 q v)"
proof -
  note c = column_chain_columns[of "[q]" q q 31]
  have "xor_sum 32 ((!) (column_chain 31 q [q])) v = xor_sum 32 (\<lambda>i. (shift_mod P32 ^^ (32 - 1 - i)) q) v"
    using c by (intro xor_sum_cong) simp
  with c show ?thesis by (subst matrix_times_long) (simp_all add: gf_times_def)
qed

text \<open>The answer: the exponent of \<open>d\<close> if it is one of those searched, otherwise \<open>-1\<close>.\<close>

definition corrupted_bit :: "nat \<Rightarrow> u32 \<Rightarrow> int \<Rightarrow> bool" where
  "corrupted_bit n d k \<longleftrightarrow> (k = -1 \<and> (\<forall>m < n. d \<noteq> x_pow P32 m)) \<or> (0 \<le> k \<and> d = x_pow P32 (nat k) \<and> nat k < field_order)"

lemma giant_steps_spec:
  assumes "0 < r" "gf_times P32 q (x_pow P32 r) = gf_one"
  shows "\<exists>k. giant_steps (small_powers r) (column_chain 31 q [q]) n j x = Some k
    \<and> ((k = -1 \<and> (\<forall>m < r * n. x \<noteq> x_pow P32 m)) \<or> (\<exists>m < r * n. k = int (m + r * j) \<and> x = x_pow P32 m))"
proof (induction n arbitrary: j x)
  case (Suc n)
  define c where "c = fcb_search (small_powers r) x (-1) (int r)"
  show ?case
  proof (cases "c \<ge> 0 \<and> fst (small_powers r ! nat c) = x")
    case True
    then obtain k where k: "k < r" "small_powers r ! nat c = (x_pow P32 k, k)" "x = x_pow P32 k"
      using search_small_powers(1)[OF assms(1), of x] by (auto simp: c_def)
    have "giant_steps (small_powers r) (column_chain 31 q [q]) (Suc n) j x = Some (int (k + r * j))"
      using True k(2) by (simp add: Let_def c_def[symmetric])
    moreover have "k < r * Suc n" using k(1) by (simp add: trans_less_add1)
    ultimately show ?thesis using k(3) by blast
  next
    case False
    define y where "y = gf_times P32 q x"
    have xy: "x = gf_times P32 (x_pow P32 r) y"
      by (simp add: y_def assms(2) one_gf_times gf.commute[of P32 "x_pow P32 r"] flip: gf.assoc)
    have step: "giant_steps (small_powers r) (column_chain 31 q [q]) (Suc n) j x = giant_steps (small_powers r) (column_chain 31 q [q]) n (j + 1) y"
      by (simp only: giant_steps.simps Let_def length_small_powers c_def[symmetric] False if_False column_matrix bind.bind_lunit y_def)
    have small: "k < r \<Longrightarrow> x \<noteq> x_pow P32 k" for k
      using search_small_powers(2)[OF assms(1), of x k] False by (simp add: c_def)
    have previous: "y = x_pow P32 m" if "x = x_pow P32 (r + m)" for m
      using that by (simp add: y_def x_pow_add assms(2) one_gf_times flip: gf.assoc)
    have none: "x \<noteq> x_pow P32 m" if "\<forall>m < r * n. y \<noteq> x_pow P32 m" "m < r * Suc n" for m
    proof (cases "m < r")
      case False
      then have "m = r + (m - r)" "m - r < r * n" using that(2) by simp_all
      then show ?thesis using previous[of "m - r"] that(1) by metis
    qed (use small in simp)
    from Suc[of "j + 1" y] consider "giant_steps (small_powers r) (column_chain 31 q [q]) n (j + 1) y = Some (-1)" "\<forall>m < r * n. y \<noteq> x_pow P32 m"
      | m where "giant_steps (small_powers r) (column_chain 31 q [q]) n (j + 1) y = Some (int (m + r * (j + 1)))" "m < r * n" "y = x_pow P32 m"
      by auto
    then show ?thesis
    proof cases
      case 1
      then show ?thesis unfolding step using none by blast
    next
      case (2 m)
      then have "x = x_pow P32 (r + m)" using xy by (simp add: x_pow_add)
      then show ?thesis unfolding step using 2 by (intro exI[of _ "int (r + m + r * j)"]) (auto simp: algebra_simps intro!: exI[of _ "r + m"])
    qed
  qed
qed simp

lemma find_corrupted_bit:
  assumes "0 \<le> l" "l + 4 < 2 ^ 28"
  shows "\<exists>k. crc32_find_corrupted_bit l d = Some k \<and> corrupted_bit (8 * nat (l + 4)) d k"
proof -
  define n where "n = 8 * nat (l + 4)"
  have n: "i32 ((l + 4) * 8) = int n" "0 < n" "n < 2 ^ 31" using assms by (simp_all add: n_def i32_def)
  define r where "r = rounded_root n"
  have r: "0 < r" "r \<le> n" using rounded_root_bounds[OF n(2)] by (simp_all add: r_def)
  define q where "q = gf32_pow 0xdb710641 r P32"
  have q: "gf_times P32 q (x_pow P32 r) = gf_one" by (simp add: q_def gf32_pow_power inverse_power)
  have f: "crc32_find_corrupted_bit l d = giant_steps (small_powers r) (column_chain 31 q [q]) (n div r + 1) 0 d"
    using n inverse_x unfolding crc32_find_corrupted_bit_def
    by (simp add: Let_def gf_one_32 small_powers_def r_def[symmetric] q_def[symmetric])
  have big: "n < r * (n div r + 1)" using r(1) by (simp add: dividend_less_times_div)
  have "r * (n div r) \<le> n" by simp
  then have bound: "r * (n div r + 1) \<le> 2 * n" using r(2) unfolding distrib_left by linarith
  from giant_steps_spec[OF r(1) q, of "n div r + 1" 0 d] obtain k where k: "crc32_find_corrupted_bit l d = Some k"
    "(k = -1 \<and> (\<forall>m < r * (n div r + 1). d \<noteq> x_pow P32 m)) \<or> (\<exists>m < r * (n div r + 1). k = int m \<and> d = x_pow P32 m)"
    unfolding f by auto
  then have "corrupted_bit n d k" using big bound n(3) unfolding corrupted_bit_def field_order_def by (elim disjE) auto
  with k(1) show ?thesis unfolding n_def by blast
qed


section \<open>One bit of the input or of the checksum\<close>

definition turn_bit :: "byte list \<Rightarrow> nat \<Rightarrow> nat \<Rightarrow> byte list" where
  "turn_bit data i j = data[i := data ! i XOR push_bit j 1]"

lemma length_turn_bit [simp]: "length (turn_bit data i j) = length data"
  by (simp add: turn_bit_def)

lemma turn_turn [simp]: "turn_bit (turn_bit data i j) i j = data"
  by (cases "i < length data") (simp_all add: turn_bit_def xor.assoc list_update_beyond)

lemma x_pow_units: "j < 32 \<Longrightarrow> (push_bit j 1 :: u32) = x_pow P32 (31 - j)"
  using x_pow_unit[of "31 - j" P32] by (simp add: unit_bit_def)

lemma sum_of_turned:
  assumes "i < length data" "j < 8"
  shows "crc_sum P32 (turn_bit data i j) XOR crc_sum P32 data = x_pow P32 (32 + 8 * (length data - 1 - i) + (7 - j))"
proof -
  let ?S = "shift_mod P32"
  define pre post b where "pre = take i data" and "post = drop (Suc i) data" and "b = data ! i"
  have data: "data = pre @ b # post" "turn_bit data i j = pre @ (b XOR push_bit j 1) # post"
    using assms(1) by (simp_all add: pre_def post_def b_def turn_bit_def upd_conv_take_nth_drop id_take_nth_drop)
  have lp: "length post = length data - 1 - i" by (simp add: post_def)
  define c where "c = crc_bitwise P32 pre (- 1)"
  have u: "(ucast (push_bit j 1 :: byte) :: u32) = push_bit j 1"
    using assms(2) by (intro bit_word_eqI) (auto simp: bit_simps)
  have one: "crc_byte P32 (b XOR push_bit j 1) c = (?S ^^ 8) (push_bit j 1) XOR crc_byte P32 b c" for b
    unfolding crc_byte_def unsigned_xor_eq u by (simp add: shifts.add ac_simps)
  have parts: "crc_bitwise P32 (pre @ x # post) (- 1) = crc_bitwise P32 post (crc_byte P32 x c)" for x
    by (simp add: crc_bitwise_append c_def crc_bitwise_is_bytes)
  have "crc_bitwise P32 (turn_bit data i j) (- 1) = (?S ^^ (8 * length post)) ((?S ^^ 8) (push_bit j 1)) XOR crc_bitwise P32 data (- 1)"
    unfolding data(2) parts one by (subst data(1)) (simp only: parts, rule crc_bitwise_xor, simp)
  moreover have "(?S ^^ (8 * length post)) ((?S ^^ 8) (push_bit j 1)) = x_pow P32 (32 + 8 * (length data - 1 - i) + (7 - j))"
  proof -
    have "32 + 8 * (length data - 1 - i) + (7 - j) = 8 * length post + (8 + (31 - j))" using assms(2) by (simp add: lp)
    then show ?thesis using assms(2) by (simp only: x_pow_units x_pow_def funpow_add comp_apply)
  qed
  ultimately show ?thesis by (simp add: crc_sum_def xor.assoc)
qed


text \<open>Words with one bit.\<close>

lemma one_bit_nat: "0 < n \<Longrightarrow> n AND (n - 1) = 0 \<Longrightarrow> \<exists>j. n = 2 ^ j" for n :: nat
proof (induction n rule: less_induct)
  case (less n)
  show ?case
  proof (cases "even n")
    case True
    then obtain m where m: "n = 2 * m" "0 < m" using less.prems(1) by auto
    have "n - 1 = 1 + 2 * (m - 1)" using m by simp
    then have "n AND (n - 1) = 2 * (m AND (m - 1))"
      unfolding m(1) by (subst and_rec) simp
    then obtain j where "m = 2 ^ j" using less.IH[of m] less.prems(2) m by auto
    then show ?thesis using m(1) by (metis power_Suc)
  next
    case False
    then obtain m where m: "n = Suc (2 * m)" by (auto elim: oddE)
    then have "n AND (n - 1) = 2 * m" by (subst and_rec) simp
    then show ?thesis using less.prems(2) m by (intro exI[of _ 0]) simp
  qed
qed

lemma one_bit_word:
  fixes w :: "'a::len word"
  assumes "w \<noteq> 0" "w AND (w - 1) = 0"
  shows "\<exists>j < LENGTH('a). w = push_bit j 1"
proof -
  have "0 < unat w" using assms(1) by (simp add: unat_gt_0)
  moreover have "unat (w - 1) = unat w - 1" using assms(1) by (simp add: unat_minus_one)
  then have "unat w AND (unat w - 1) = 0" using assms(2) by (metis unsigned_0 unsigned_and_eq)
  ultimately obtain j where j: "unat w = 2 ^ j" using one_bit_nat by blast
  then have "j < LENGTH('a)" using unsigned_less[of w, where 'a = nat] by (simp add: power_strict_increasing_iff)
  moreover from this have "unat (push_bit j 1 :: 'a word) = 2 ^ j"
    using unat_of_nat[of "2 ^ j", where 'a = 'a] by (simp add: push_bit_of_1)
  with j have "w = push_bit j 1" by (simp only: word_unat_eq_iff)
  ultimately show ?thesis by blast
qed

end
