(* ===== verification/CRC_Properties.thy ===== *)
theory CRC_Properties
  imports CRC_Repair
begin

text \<open>What the checksums promise: they are the bitwise ones, they combine, and one wrong bit is found and corrected.\<close>

lemma compute_is_sum: "compute_crc32 crc32_partial_generic data = crc_sum P32 data"
  by (simp only: compute_crc32_def crc32_is_bitwise crc_sum_def)

lemma compute64_is_sum: "compute_crc64 crc64_partial_one_table data = crc_sum CRC64_REFLECTED_POLY data"
  by (simp only: compute_crc64_def crc64_is_bitwise crc_sum_def)

text \<open>
  C26. The routines with tables compute the checksums.  The unrolled routine with four tables of \<open>crc32.c\<close>, the one
  of \<open>crc32c.c\<close> (below 64 gigabytes, since it counts blocks in an \<open>int\<close>) and the one with one table for 64 bits give
  for every input and every start value what the definition of the checksum gives, one bit after the other.
\<close>

theorem tables_compute_crc:
  assumes "length data < 2 ^ 36"
  shows "crc32_partial_generic data crc = crc_bitwise CRC32_REFLECTED_POLY data crc
    \<and> crc32c_partial_four_tables data crc = crc_bitwise CRC32C_REFLECTED_POLY data crc
    \<and> crc64_partial_one_table data crc64 = crc_bitwise CRC64_REFLECTED_POLY data crc64"
  by (intro conjI crc32_is_bitwise crc32c_is_bitwise[OF assms] crc64_is_bitwise)

lemma tables_compute_crc_witness:
  "crc32_partial_generic [1, 2, 3, 4, 5] 7 = crc_bitwise CRC32_REFLECTED_POLY [1, 2, 3, 4, 5] 7
   \<and> crc32c_partial_four_tables [1, 2, 3, 4, 5] 7 = crc_bitwise CRC32C_REFLECTED_POLY [1, 2, 3, 4, 5] 7
   \<and> crc64_partial_one_table [1, 2, 3, 4, 5] 7 = crc_bitwise CRC64_REFLECTED_POLY [1, 2, 3, 4, 5] 7"
  by (rule tables_compute_crc) simp

text \<open>
  C25. Checksums of two pieces combine.  From the checksums of two pieces and the length of the second,
  \<open>compute_crc32_combine_generic\<close>, \<open>crc32c_combine_generic\<close> and \<open>compute_crc64_combine_generic\<close> get the checksum of both
  together, on the first call, when they fill their static table, and on every later one: no assertion on the
  table fails and nothing is read behind it.
\<close>

theorem combine_concatenates:
  assumes "0 < length b" "length b < 2 ^ 36"
    "p1 = replicate (32 * 67) 0 \<or> p1 = power_table CRC32_REFLECTED_POLY 67"
    "p2 = replicate (32 * 67) 0 \<or> p2 = power_table CRC32C_REFLECTED_POLY 67" "p3 = replicate 126 0 \<or> p3 = pair_table 63"
    "length a + length b < 2 ^ 36"
  shows "compute_crc32_combine_generic p1 (compute_crc32 crc32_partial_generic a) (compute_crc32 crc32_partial_generic b) (int (length b))
      = Some (compute_crc32 crc32_partial_generic (a @ b), power_table CRC32_REFLECTED_POLY 67)
    \<and> crc32c_combine_generic p2 (compute_crc32 crc32c_partial_four_tables a) (compute_crc32 crc32c_partial_four_tables b) (int (length b))
      = Some (compute_crc32 crc32c_partial_four_tables (a @ b), power_table CRC32C_REFLECTED_POLY 67)
    \<and> compute_crc64_combine_generic p3 (compute_crc64 crc64_partial_one_table a) (compute_crc64 crc64_partial_one_table b) (int (length b))
      = Some (compute_crc64 crc64_partial_one_table (a @ b), pair_table 63)"
proof -
  have len: "0 < int (length b)" "int (length b) < 2 ^ 63" using assms(1,2) by simp_all
  have top: "bit CRC32_REFLECTED_POLY 31" "bit CRC32C_REFLECTED_POLY 31" by (simp_all add: CRC32_REFLECTED_POLY_def CRC32C_REFLECTED_POLY_def)
  have c: "compute_crc32 crc32c_partial_four_tables x = crc_sum CRC32C_REFLECTED_POLY x" if "length x < 2 ^ 36" for x
    by (simp only: compute_crc32_def crc32c_is_bitwise[OF that] crc_sum_def)
  have cs: "compute_crc32 crc32c_partial_four_tables x = crc_sum CRC32C_REFLECTED_POLY x" if "x \<in> {a, b, a @ b}" for x
    using that assms(2,6) by (intro c) auto
  show ?thesis
    unfolding compute_crc32_combine_generic_def crc32c_combine_generic_def compute_is_sum compute64_is_sum
    using combine_powers[OF top(1) assms(3) len] combine_powers[OF top(2) assms(4) len] combine64[OF assms(5) len] cs
    by (simp add: crc_sum_append)
qed

lemma combine_concatenates_witness:
  "compute_crc32_combine_generic (replicate (32 * 67) 0) (compute_crc32 crc32_partial_generic [1, 2]) (compute_crc32 crc32_partial_generic [3, 4, 5]) (int (length [3, 4, 5 :: byte]))
     = Some (compute_crc32 crc32_partial_generic ([1, 2] @ [3, 4, 5]), power_table CRC32_REFLECTED_POLY 67)"
  using combine_concatenates[of "[3, 4, 5]" "replicate (32 * 67) 0" "replicate (32 * 67) 0" "replicate 126 0" "[1, 2]"] by simp

section \<open>Repair\<close>

lemma power_of_two: "(w :: u32) \<noteq> 0 \<Longrightarrow> w AND (w - 1) = 0 \<longleftrightarrow> (\<exists>j < 32. w = push_bit j 1)"
proof
  assume "w \<noteq> 0" "w AND (w - 1) = 0"
  then show "\<exists>j < 32. w = push_bit j 1" using one_bit_word[of w] by simp
next
  assume "\<exists>j < 32. w = push_bit j 1"
  then obtain j where w: "w = push_bit j 1" by blast
  have "w - 1 = mask j" by (simp add: w push_bit_of_1 mask_eq_exp_minus_1)
  then show "w AND (w - 1) = 0" unfolding w by (simp only:) (rule bit_word_eqI, auto simp: bit_simps)
qed

lemma repaired_index: "(l - 1) - (k div 32 - 1) * 4 - k mod 32 div 8 = l + 3 - k div (8 :: int)"
proof -
  have "k div 32 = k div 8 div 4" using zdiv_zmult2_eq[of 4 k 8] by simp
  moreover have "k mod 32 div 8 = k div 8 mod 4" using zmod_zmult2_eq[of 4 k 8] by simp
  moreover have "(l - 1) - (a - 1) * 4 - b = l + 3 - (a * 4 + b)" for a b :: int by simp
  ultimately show ?thesis by (simp only: div_mult_mod_eq)
qed

lemma repair_outside:
  "k < 32 \<Longrightarrow> snd (crc32_repair_bit data (int (length data)) k) \<noteq> 0 \<and> fst (crc32_repair_bit data (int (length data)) k) = data"
  "8 * (int (length data) + 4) \<le> k \<Longrightarrow> snd (crc32_repair_bit data (int (length data)) k) \<noteq> 0 \<and> fst (crc32_repair_bit data (int (length data)) k) = data"
  unfolding crc32_repair_bit_def repaired_index Let_def by auto

lemma repair_inside:
  assumes "32 \<le> k" "k < 8 * (length data + 4)"
  defines "i \<equiv> length data - 1 - (k - 32) div 8" and "j \<equiv> 7 - k mod 8"
  shows "crc32_repair_bit data (int (length data)) (int k) = (turn_bit data i j, 0)"
    "i < length data" "j < 8" "32 + 8 * (length data - 1 - i) + (7 - j) = k"
proof -
  have q: "(k - 32) div 8 < length data" using assms(1,2) by (simp add: less_mult_imp_div_less)
  then show i: "i < length data" "j < 8" by (simp_all add: i_def j_def)
  have m: "length data - 1 - i = (k - 32) div 8" using q by (simp add: i_def)
  have "8 * ((k - 32) div 8) + (k - 32) mod 8 = k - 32" by simp
  moreover have "(k - 32) mod 8 = k mod 8" using assms(1) mod_mult_self2[of "k - 32" 8 4] by simp
  ultimately show "32 + 8 * (length data - 1 - i) + (7 - j) = k" using assms(1) mod_less_divisor[of 8 k] unfolding m j_def by arith
  have pos: "int (length data) + 3 - int k div 8 = int i"
  proof -
    obtain m where "k = m + 4 * 8" using assms(1) le_Suc_ex[of 32 k] by (auto simp: add.commute)
    then have "k div 8 = (k - 32) div 8 + 4" by simp
    then have "int k div 8 = int ((k - 32) div 8) + 4" by (metis of_nat_add of_nat_div of_nat_numeral)
    then show ?thesis using q by (simp add: i_def of_nat_diff)
  qed
  have bitj: "int k mod 32 mod 8 = int (k mod 8)" by (simp add: mod_mod_cancel zmod_int)
  show "crc32_repair_bit data (int (length data)) (int k) = (turn_bit data i j, 0)"
    unfolding crc32_repair_bit_def Let_def repaired_index pos bitj using i by (simp add: turn_bit_def j_def nat_diff_distrib)
qed


text \<open>The outcomes of a repair, with \<open>diff\<close> the difference between the computed checksum and the given one.\<close>

definition one_bit_change :: "byte list \<Rightarrow> u32 \<Rightarrow> bool" where
  "one_bit_change data crc \<longleftrightarrow>
     (\<exists>i < length data. \<exists>j < 8. compute_crc32 crc32_partial_generic (turn_bit data i j) = crc)
   \<or> (\<exists>j < 32. compute_crc32 crc32_partial_generic data = crc XOR push_bit j 1)"

definition repair_outcome :: "byte list \<Rightarrow> u32 \<Rightarrow> byte list \<times> u32 \<times> int \<Rightarrow> bool" where
  "repair_outcome data crc = (\<lambda>(data', crc', r).
     (r = 0 \<and> data' = data \<and> crc' = crc)
   \<or> (r = 1 \<and> crc' = crc \<and> (\<exists>i < length data. \<exists>j < 8. data' = turn_bit data i j))
   \<or> (r = 2 \<and> data' = data \<and> (\<exists>j < 32. crc' = crc XOR push_bit j 1))
   \<or> (r = -1 \<and> data' = data \<and> \<not> one_bit_change data crc))"

lemma turn_exponent:
  assumes "i < length data" "j < (8 :: nat)"
  shows "32 \<le> 32 + 8 * (length data - 1 - i) + (7 - j)" "32 + 8 * (length data - 1 - i) + (7 - j) < 8 * (length data + 4)"
  using assms by simp_all

lemma xor_cancel: "a XOR b = a XOR c \<longleftrightarrow> b = c" for a b c :: "'a::len word"
  by (metis xor.assoc xor_self_eq xor.left_neutral)

lemma turn_difference:
  assumes "i < length data" "j < 8"
  shows "crc_sum P32 (turn_bit data i j) = crc \<longleftrightarrow> crc_sum P32 data XOR crc = x_pow P32 (32 + 8 * (length data - 1 - i) + (7 - j))"
  unfolding sum_of_turned[OF assms, symmetric] xor.commute[of "crc_sum P32 (turn_bit data i j)"] xor_cancel by auto

lemma no_one_bit_change:
  assumes "\<And>m. m < 8 * (length data + 4) \<Longrightarrow> crc_sum P32 data XOR crc \<noteq> x_pow P32 m"
  shows "\<not> one_bit_change data crc"
proof
  assume "one_bit_change data crc"
  then consider i j where "i < length data" "j < 8" "crc_sum P32 (turn_bit data i j) = crc" | j where "j < 32" "crc_sum P32 data = crc XOR push_bit j 1"
    unfolding one_bit_change_def compute_is_sum by blast
  then show False
  proof cases
    case 1
    then show False using assms[OF turn_exponent(2)[OF 1(1,2)]] by (simp add: turn_difference)
  next
    case 2
    then have "crc_sum P32 data XOR crc = push_bit j 1" by (simp only: xor.commute[of crc] xor.assoc xor_self_eq xor.right_neutral)
    then have "crc_sum P32 data XOR crc = x_pow P32 (31 - j)" using 2(1) by (simp only: x_pow_units)
    then show False using assms[of "31 - j"] by simp
  qed
qed

lemma check_and_repair_core:
  assumes "length data + 4 < 2 ^ 28"
  shows "\<exists>out. repair_outcome data crc out \<and> compute_crc32 crc32_partial_generic (fst out) = fst (snd out)
    \<and> crc32_check_and_repair crc32_partial_generic data crc force = (if force \<and> snd (snd out) = -1 then None else Some out)"
proof -
  define n where "n = 8 * (length data + 4)"
  define diff where "diff = crc_sum P32 data XOR crc"
  have crc: "crc_sum P32 data = crc XOR diff" by (simp add: diff_def xor.commute xor.left_commute)
  obtain k where find: "crc32_find_corrupted_bit (int (length data)) diff = Some k" and k: "corrupted_bit n diff k"
    using find_corrupted_bit[of "int (length data)" diff] assms by (auto simp: n_def nat_add_distrib)
  have n32: "32 \<le> n" "n < field_order" using assms by (simp_all add: n_def field_order_def)
  show ?thesis
  proof (cases "diff = 0")
    case True
    then show ?thesis
      by (intro exI[of _ "(data, crc, 0)"]) (simp add: repair_outcome_def crc32_check_and_repair_def compute_is_sum Let_def crc)
  next
    case False
    obtain data' r where rep: "crc32_repair_bit data (int (length data)) k = (data', r)" by fastforce
    have eval: "crc32_check_and_repair crc32_partial_generic data crc force =
      (if r = 0 then if crc_sum P32 data' \<noteq> crc then None else Some (data', crc, 1)
       else if diff AND (diff - 1) = 0 then Some (data', crc_sum P32 data, 2)
       else if force then None else Some (data', crc_sum P32 data, -1))"
      using False find rep unfolding crc32_check_and_repair_def compute_is_sum Let_def diff_def[symmetric] by simp
    show ?thesis
    proof (cases "diff AND (diff - 1) = 0")
      case one: True
      then obtain j where j: "j < 32" "diff = push_bit j 1" using power_of_two[OF False] by blast
      then have d: "diff = x_pow P32 (31 - j)" by (simp only: x_pow_units)
      have low: "31 - j < n" using n32(1) by linarith
      then have "\<not> (\<forall>m < n. diff \<noteq> x_pow P32 m)" using d by blast
      then have kk: "0 \<le> k" "diff = x_pow P32 (nat k)" "nat k < field_order" using k unfolding corrupted_bit_def by blast+
      have "nat k = 31 - j" by (rule x_pow_inj[OF kk(3)]) (use low n32(2) d kk(2) in auto)
      then have "k < 32" using kk(1) by linarith
      then have "r \<noteq> 0" "data' = data" using repair_outside(1)[of k data] rep by simp_all
      then show ?thesis using one j unfolding eval
        by (intro exI[of _ "(data, crc_sum P32 data, 2)"]) (auto simp: repair_outcome_def compute_is_sum crc)
    next
      case more: False
      have small: "\<not> (0 \<le> k \<and> k < 32)"
      proof
        assume "0 \<le> k \<and> k < 32"
        then have "diff = push_bit (31 - nat k) 1" using k unfolding corrupted_bit_def by (subst x_pow_units) auto
        then have "\<exists>j < 32. diff = push_bit j 1" by (intro exI[of _ "31 - nat k"]) simp
        then show False using more power_of_two[OF False] by blast
      qed
      show ?thesis
      proof (cases "32 \<le> k \<and> k < int n")
        case inside: True
        define m where "m = nat k"
        have m: "32 \<le> m" "m < 8 * (length data + 4)" "k = int m" using inside unfolding m_def n_def by linarith+
        note ri = repair_inside[OF m(1,2)]
        let ?i = "length data - 1 - (m - 32) div 8" and ?j = "7 - m mod 8"
        have out: "data' = turn_bit data ?i ?j" "r = 0" using ri(1) rep m(3) by simp_all
        have "crc_sum P32 (turn_bit data ?i ?j) = crc \<longleftrightarrow> diff = x_pow P32 m"
          using turn_difference[OF ri(2,3), of crc] unfolding ri(4) diff_def .
        moreover have "diff = x_pow P32 m" using k inside unfolding corrupted_bit_def m_def by auto
        ultimately have "crc_sum P32 (turn_bit data ?i ?j) = crc" by blast
        then show ?thesis using ri(2,3) out unfolding eval
          by (intro exI[of _ "(data', crc, 1)"]) (auto simp: repair_outcome_def compute_is_sum)
      next
        case outside: False
        then have ko: "k < 0 \<or> int n \<le> k" using small by linarith
        then have "r \<noteq> 0" "data' = data" using repair_outside(1)[of k data] repair_outside(2)[of data k] rep n32 by (auto simp: n_def)
        moreover have "\<not> one_bit_change data crc"
        proof (rule no_one_bit_change)
          fix l assume l: "l < 8 * (length data + 4)"
          show "crc_sum P32 data XOR crc \<noteq> x_pow P32 l"
            using k ko l n32 x_pow_inj[of l "nat k"] unfolding corrupted_bit_def diff_def[symmetric] n_def[symmetric] by auto
        qed
        ultimately show ?thesis using more unfolding eval
          by (intro exI[of _ "(data, crc_sum P32 data, -1)"]) (auto simp: repair_outcome_def compute_is_sum)
      qed
    qed
  qed
qed


lemma byte_position:
  fixes a b x y :: nat
  assumes "8 * a + x = 8 * b + y" "x < 8" "y < 8"
  shows "a = b" "x = y"
  using assms by presburger+

text \<open>
  C27. A repair never makes things worse.  For an input below 256 megabytes \<open>crc32_check_and_repair\<close> returns, and fails
  no assertion unless it is told to exit when there is nothing to repair.  Afterwards input and checksum fit
  together; either nothing was changed, or one bit of the input, or one bit of the checksum, or the checksum was
  replaced, which happens only if no change of a single bit would have explained it.
\<close>

theorem repair_is_sound:
  assumes "length data + 4 < 2 ^ 28"
  shows "\<exists>data' crc' r. crc32_check_and_repair crc32_partial_generic data crc False = Some (data', crc', r)
    \<and> compute_crc32 crc32_partial_generic data' = crc' \<and> repair_outcome data crc (data', crc', r)"
  using check_and_repair_core[OF assms, of crc False] by auto

lemma repair_is_sound_witness:
  "\<exists>data' crc' r. crc32_check_and_repair crc32_partial_generic [1, 2, 3] 0 False = Some (data', crc', r)
    \<and> compute_crc32 crc32_partial_generic data' = crc' \<and> repair_outcome [1, 2, 3] 0 (data', crc', r)"
  by (rule repair_is_sound) simp

lemma turn_range:
  assumes "length data + 4 < 2 ^ 28" "i < length data" "j < 8"
  shows "32 + 8 * (length data - 1 - i) + (7 - j) < field_order" "32 \<le> 32 + 8 * (length data - 1 - i) + (7 - j)"
  using turn_exponent[OF assms(2,3)] assms(1) by (simp_all add: field_order_def)

lemma x_pow_nonzero: "x_pow P32 m \<noteq> 0"
  unfolding x_pow_def using poly_top_bit by (intro shifts_nonzero) (simp_all add: gf_one_def unit_bit_def)

lemma input_bit_repaired:
  fixes force :: bool
  assumes "length data + 4 < 2 ^ 28" "i < length data" "j < 8"
  defines "crc \<equiv> crc_sum P32 data"
  shows "crc32_check_and_repair crc32_partial_generic (turn_bit data i j) crc force = Some (data, crc, 1)"
proof -
  let ?e = "\<lambda>i j. 32 + 8 * (length data - 1 - i) + (7 - j)"
  note ef = turn_range[OF assms(1)] and ij = assms(2,3)
  have diff: "crc_sum P32 (turn_bit data i j) XOR crc = x_pow P32 (?e i j)" by (simp only: sum_of_turned[OF ij] crc_def)
  obtain data' crc' r where out: "repair_outcome (turn_bit data i j) crc (data', crc', r)" "crc_sum P32 data' = crc'"
    "crc32_check_and_repair crc32_partial_generic (turn_bit data i j) crc force = (if force \<and> r = -1 then None else Some (data', crc', r))"
    using check_and_repair_core[of "turn_bit data i j" crc force] assms(1) by (auto simp: compute_is_sum)
  have "one_bit_change (turn_bit data i j) crc"
    unfolding one_bit_change_def compute_is_sum using ij by (intro disjI1 exI[of _ i] conjI exI[of _ j]) (simp_all add: crc_def)
  moreover have "r \<noteq> 0" using out(1,2) diff x_pow_nonzero by (auto simp: repair_outcome_def)
  moreover have "r \<noteq> 2"
  proof
    assume "r = 2"
    then obtain b where b: "b < 32" "crc_sum P32 (turn_bit data i j) = crc XOR push_bit b 1"
      using out(1,2) by (auto simp: repair_outcome_def)
    then have "x_pow P32 (?e i j) = x_pow P32 (31 - b)"
      unfolding diff[symmetric] x_pow_units[OF b(1), symmetric] by (simp only: xor.commute[of crc] xor.assoc xor_self_eq xor.right_neutral)
    then have "?e i j = 31 - b" using ef[OF ij] by (intro x_pow_inj) (simp_all add: field_order_def)
    then show False using ef(2)[OF ij] by simp
  qed
  ultimately have r: "r = 1" "crc' = crc" and "\<exists>i' < length data. \<exists>j' < 8. data' = turn_bit (turn_bit data i j) i' j'"
    using out(1) by (auto simp: repair_outcome_def)
  then obtain i' j' where ij': "i' < length data" "j' < 8" "data' = turn_bit (turn_bit data i j) i' j'" by blast
  have "x_pow P32 (?e i' j') = x_pow P32 (?e i j)"
    using sum_of_turned[of i' "turn_bit data i j" j'] ij' diff out(2) r(2) by (simp add: xor.commute)
  then have "?e i' j' = ?e i j" using ef[OF ij] ef[OF ij'(1,2)] by (intro x_pow_inj)
  then have "8 * (length data - 1 - i') + (7 - j') = 8 * (length data - 1 - i) + (7 - j)" by linarith
  then have "length data - 1 - i' = length data - 1 - i" "7 - j' = 7 - j" by (rule byte_position; simp)+
  then have "i' = i" "j' = j" using ij ij' by linarith+
  then show "crc32_check_and_repair crc32_partial_generic (turn_bit data i j) crc force = Some (data, crc, 1)"
    using out(3) r ij' by simp
qed

lemma checksum_bit_repaired:
  fixes force :: bool
  assumes "length data + 4 < 2 ^ 28" "b < 32"
  defines "crc \<equiv> crc_sum P32 data"
  shows "crc32_check_and_repair crc32_partial_generic data (crc XOR push_bit b 1) force = Some (data, crc, 2)"
proof -
  let ?e = "\<lambda>i j. 32 + 8 * (length data - 1 - i) + (7 - j)"
  note ef = turn_range[OF assms(1)]
  let ?w = "crc XOR push_bit b 1"
  have bx: "crc_sum P32 data XOR ?w = push_bit b 1" unfolding crc_def by (simp only: xor.assoc[symmetric] xor_self_eq xor.left_neutral)
  obtain data2 crc2 r2 where out2: "repair_outcome data ?w (data2, crc2, r2)" "crc_sum P32 data2 = crc2"
    "crc32_check_and_repair crc32_partial_generic data ?w force = (if force \<and> r2 = -1 then None else Some (data2, crc2, r2))"
    using check_and_repair_core[OF assms(1), of ?w force] by (auto simp: compute_is_sum)
  have "one_bit_change data ?w"
    unfolding one_bit_change_def compute_is_sum using assms(2)
    by (intro disjI2 exI[of _ b] conjI) (simp_all only: crc_def xor.assoc xor_self_eq xor.right_neutral)
  moreover have "r2 \<noteq> 0"
  proof
    assume "r2 = 0"
    then have "crc_sum P32 data = ?w" using out2(1,2) by (auto simp: repair_outcome_def)
    then have "x_pow P32 (31 - b) = 0" using bx unfolding x_pow_units[OF assms(2)] by (simp only: xor_self_eq)
    then show False using x_pow_nonzero by blast
  qed
  moreover have "r2 \<noteq> 1"
  proof
    assume "r2 = 1"
    then obtain i j where ij: "i < length data" "j < 8" "crc_sum P32 (turn_bit data i j) = ?w"
      using out2(1,2) by (auto simp: repair_outcome_def)
    then have "x_pow P32 (31 - b) = x_pow P32 (?e i j)" using bx by (simp only: turn_difference x_pow_units[OF assms(2)])
    then have "31 - b = ?e i j" using ef[OF ij(1,2)] by (intro x_pow_inj) (simp_all add: field_order_def)
    then show False using ef(2)[OF ij(1,2)] by simp
  qed
  ultimately have "r2 = 2" "data2 = data" using out2(1) by (auto simp: repair_outcome_def)
  then show "crc32_check_and_repair crc32_partial_generic data ?w force = Some (data, crc, 2)" using out2(2,3) by (simp add: crc_def)
qed

text \<open>
  C24. One wrong bit is found.  When one bit of a message below 256 megabytes is turned over on the way,
  \<open>crc32_check_and_repair\<close> gives the message back with result 1; when one bit of its checksum is, it gives the
  checksum back with result 2.  The search tells all these bits apart because the powers of \<open>x\<close> are different up to
  the exponent \<open>2^32 - 1\<close>.
\<close>

theorem one_bit_is_repaired:
  assumes "length data + 4 < 2 ^ 28" "i < length data" "j < 8" "b < 32"
  defines "crc \<equiv> compute_crc32 crc32_partial_generic data"
  shows "crc32_check_and_repair crc32_partial_generic (turn_bit data i j) crc force = Some (data, crc, 1)
    \<and> crc32_check_and_repair crc32_partial_generic data (crc XOR push_bit b 1) force = Some (data, crc, 2)"
  unfolding crc_def compute_is_sum using input_bit_repaired[OF assms(1-3)] checksum_bit_repaired[OF assms(1,4)] by simp

lemma one_bit_is_repaired_witness:
  "crc32_check_and_repair crc32_partial_generic (turn_bit [1, 2, 3] 1 4) (compute_crc32 crc32_partial_generic [1, 2, 3]) True
    = Some ([1, 2, 3], compute_crc32 crc32_partial_generic [1, 2, 3], 1)
   \<and> crc32_check_and_repair crc32_partial_generic [1, 2, 3] (compute_crc32 crc32_partial_generic [1, 2, 3] XOR push_bit 9 1) True
    = Some ([1, 2, 3], compute_crc32 crc32_partial_generic [1, 2, 3], 2)"
  by (rule one_bit_is_repaired) simp_all

end
